(* ===== verification/Prelude.thy ===== *)
theory Prelude
  imports Main "HOL-Library.Word"
begin

text \<open>
  What the components share: the collections of rules their proofs are automated with, names
  for the types that occur everywhere, and generic facts about lists and options.

  Time is the monotonic clock (\<^verbatim>\<open>std::chrono::steady_clock\<close>) in nanoseconds, as an integer:
  its 64-bit counter lasts 292 years.
\<close>

named_theorems inv_intros "invariants are kept by the operations of a component"
named_theorems frame_simps "fields an operation does not write"

type_synonym time_point = int
type_synonym duration = int

abbreviation ms :: "int \<Rightarrow> duration" where
  "ms n \<equiv> n * 1000000"

abbreviation seconds :: "int \<Rightarrow> duration" where
  "seconds n \<equiv> n * 1000000000"

text \<open>Integer division of C++, which rounds towards zero.\<close>

definition trunc_div :: "int \<Rightarrow> int \<Rightarrow> int" where
  "trunc_div a b = sgn a * sgn b * (\<bar>a\<bar> div \<bar>b\<bar>)"

end
