(* ===== verification/Doubles.thy ===== *)
theory Doubles
  imports Complex_Main Prelude
begin

text \<open>
  The C++ type \<^verbatim>\<open>double\<close> (IEEE 754 binary64, rounding to nearest even), which almost
  every component of the onboard software computes with.

  A finite value is the rational number it stands for; \<open>PInf\<close>, \<open>NInf\<close> and \<open>NaN\<close> are the
  others.  \<open>to_dbl q\<close> is the double nearest to the rational \<open>q\<close> (53-bit significand,
  subnormals below \<open>2 ^ (- 1022)\<close>, overflow to infinity), and every arithmetic operation is
  the exact rational operation followed by \<open>to_dbl\<close>, as the standard prescribes.  The
  operations are instances of the syntactic classes, so a model reads \<open>a + b * c\<close> where the
  code does; none of the algebraic laws of a ring or a linear order is available for them,
  since none holds.  Every comparison with \<open>NaN\<close> is false.

  Only the sign of zero is not represented: \<open>- 0.0\<close> and \<open>0.0\<close> are both \<open>Fin 0\<close>.  They
  compare equal in C++; they differ when printed and as a divisor, where zero is read as
  positive here.

  The locale \<open>rounding\<close> is the interface between the rounding and the control laws: the laws
  proved from monotonicity and exactness at 0 and 1 are all the components use, and
  \<open>b64\<close> is its interpretation at \<open>to_dbl\<close>.
\<close>

subsection \<open>Rounding a rational to 53 bits\<close>

fun bit_length :: "nat \<Rightarrow> nat" where
  "bit_length n = (if n = 0 then 0 else Suc (bit_length (n div 2)))"

declare bit_length.simps [simp del]

lemma bit_length_0 [simp]: "bit_length 0 = 0"
  by (simp add: bit_length.simps)

lemma bit_length_upper: "n < 2 ^ bit_length n"
proof (induction n rule: bit_length.induct)
  case (1 n)
  show ?case
  proof (cases "n = 0")
    case False
    with 1 have "n div 2 < 2 ^ bit_length (n div 2)" by simp
    then have "n < 2 * 2 ^ bit_length (n div 2)" by linarith
    with False show ?thesis by (simp add: bit_length.simps [of n])
  qed simp
qed

lemma bit_length_lower: "0 < n \<Longrightarrow> 2 ^ bit_length n \<le> 2 * n"
proof (induction n rule: bit_length.induct)
  case (1 n)
  show ?case
  proof (cases "n div 2 = 0")
    case True
    with 1 have "n = 1" by linarith
    then show ?thesis by (simp add: bit_length.simps)
  next
    case False
    with 1 have "2 ^ bit_length (n div 2) \<le> 2 * (n div 2)" by simp
    then have "2 * 2 ^ bit_length (n div 2) \<le> 2 * n" by linarith
    with 1 show ?thesis by (simp add: bit_length.simps [of n])
  qed
qed

lemma bit_length_upper_rat: "of_nat n + 1 \<le> (2::rat) ^ bit_length n"
proof -
  have "Suc n \<le> 2 ^ bit_length n" using bit_length_upper by (rule Suc_leI)
  then have "(of_nat (Suc n) :: rat) \<le> of_nat (2 ^ bit_length n)" by (simp only: of_nat_le_iff)
  then show ?thesis by simp
qed

lemma bit_length_lower_rat: "0 < n \<Longrightarrow> (2::rat) ^ bit_length n \<le> 2 * of_nat n"
proof -
  assume "0 < n"
  then have "2 ^ bit_length n \<le> 2 * n" by (rule bit_length_lower)
  then have "(of_nat (2 ^ bit_length n) :: rat) \<le> of_nat (2 * n)" by (simp only: of_nat_le_iff)
  then show ?thesis by simp
qed

definition ilog2 :: "rat \<Rightarrow> int" where
  "ilog2 q =
     (if 1 \<le> q then int (bit_length (nat \<lfloor>q\<rfloor>)) - 1
      else - int (bit_length (nat (\<lceil>1 / q\<rceil> - 1))))"

lemma ilog2_bounds:
  assumes "0 < q"
  shows "2 powi ilog2 q \<le> q \<and> q < 2 powi (ilog2 q + 1)"
proof (cases "1 \<le> q")
  case True
  define n where "n = nat \<lfloor>q\<rfloor>"
  have fl: "of_nat n \<le> q" "q < of_nat n + 1" and n1: "1 \<le> n"
    using True unfolding n_def by (simp_all add: le_nat_iff) linarith+
  have il: "ilog2 q = int (bit_length n) - 1" using True by (simp add: ilog2_def n_def)
  have up: "of_nat n + 1 \<le> (2::rat) ^ bit_length n"
    by (rule bit_length_upper_rat)
  have lo: "(2::rat) ^ bit_length n \<le> 2 * of_nat n"
    using n1 by (intro bit_length_lower_rat) simp
  have e: "(2::rat) powi (int (bit_length n) - 1) = 2 ^ bit_length n / 2"
    by (simp add: power_int_diff)
  show ?thesis using fl up lo by (simp add: il e)
next
  case False
  define m where "m = nat (\<lceil>1 / q\<rceil> - 1)"
  have inv: "1 < 1 / q" using assms False by simp
  then have c: "1 < \<lceil>1 / q\<rceil>" by linarith
  have up: "1 / q \<le> of_nat m + 1" and lo: "of_nat m < 1 / q" and m1: "1 \<le> m"
    using c unfolding m_def by (simp_all add: le_nat_iff) linarith+
  have il: "ilog2 q = - int (bit_length m)" using False by (simp add: ilog2_def m_def)
  have u: "of_nat m + 1 \<le> (2::rat) ^ bit_length m"
    by (rule bit_length_upper_rat)
  have l: "(2::rat) ^ bit_length m \<le> 2 * of_nat m"
    using m1 by (intro bit_length_lower_rat) simp
  have "1 / q \<le> 2 ^ bit_length m" using up u by linarith
  then have a: "1 / 2 ^ bit_length m \<le> q" using assms by (simp add: field_simps)
  have "2 ^ bit_length m < 2 / q" using l lo by (simp add: field_simps)
  then have b: "q < 2 / 2 ^ bit_length m" using assms by (simp add: field_simps)
  have e: "(2::rat) powi (- int (bit_length m)) = 1 / 2 ^ bit_length m"
    by (simp add: power_int_minus field_simps)
  have e2: "(2::rat) powi (- int (bit_length m) + 1) = 2 / 2 ^ bit_length m"
    using power_int_add [of "2::rat" "- int (bit_length m)" 1] by (simp add: e)
  show ?thesis using a b by (simp only: il e e2 simp_thms)
qed

definition round_half_even :: "rat \<Rightarrow> int" where
  "round_half_even q =
     (let f = \<lfloor>q\<rfloor>; r = q - of_int f
      in if r < 1 / 2 then f else if 1 / 2 < r then f + 1 else if even f then f else f + 1)"

lemma round_half_even_of_int [simp]: "round_half_even (of_int n) = n"
  by (simp add: round_half_even_def)

lemma round_half_even_mono: "p \<le> q \<Longrightarrow> round_half_even p \<le> round_half_even q"
proof -
  assume pq: "p \<le> q"
  then have f: "\<lfloor>p\<rfloor> \<le> \<lfloor>q\<rfloor>" by (rule floor_mono)
  show ?thesis
  proof (cases "\<lfloor>p\<rfloor> = \<lfloor>q\<rfloor>")
    case True
    then show ?thesis using pq by (auto simp: round_half_even_def Let_def)
  next
    case False
    with f have "\<lfloor>p\<rfloor> + 1 \<le> \<lfloor>q\<rfloor>" by simp
    then show ?thesis by (auto simp: round_half_even_def Let_def)
  qed
qed

lemma round_half_even_minus: "round_half_even (- q) = - round_half_even q"
proof (cases "q = of_int \<lfloor>q\<rfloor>")
  case True
  then show ?thesis by (metis of_int_minus round_half_even_of_int)
next
  case False
  then have fl: "\<lfloor>- q\<rfloor> = - \<lfloor>q\<rfloor> - 1" by linarith
  show ?thesis by (auto simp: round_half_even_def Let_def fl)
qed

definition ulp_exp :: "rat \<Rightarrow> int" where
  "ulp_exp q = max (ilog2 \<bar>q\<bar>) (- 1022) - 52"

definition round_rat :: "rat \<Rightarrow> rat" where
  "round_rat q =
     (if q = 0 then 0
      else of_int (round_half_even (q / 2 powi ulp_exp q)) * 2 powi ulp_exp q)"

lemma round_rat_0 [simp]: "round_rat 0 = 0" by (simp add: round_rat_def)

lemma round_rat_minus: "round_rat (- q) = - round_rat q"
  by (simp add: round_rat_def ulp_exp_def round_half_even_minus)

lemma powi2_pos [simp]: "0 < (2::rat) powi k" by (simp add: zero_less_power_int)

lemma round_rat_mono_same:
  assumes "0 < p" "p \<le> q" "ulp_exp p = ulp_exp q"
  shows "round_rat p \<le> round_rat q"
proof -
  have "p / 2 powi ulp_exp q \<le> q / 2 powi ulp_exp q"
    using assms(2) by (simp add: divide_right_mono less_imp_le)
  then have "round_half_even (p / 2 powi ulp_exp q) \<le> round_half_even (q / 2 powi ulp_exp q)"
    by (rule round_half_even_mono)
  then show ?thesis using assms by (simp add: round_rat_def mult_right_mono less_imp_le)
qed

lemma round_rat_le_grid:
  assumes "0 < q" "q \<le> of_int n * 2 powi ulp_exp q"
  shows "round_rat q \<le> of_int n * 2 powi ulp_exp q"
proof -
  have "q / 2 powi ulp_exp q \<le> of_int n" using assms(2) by (simp add: divide_le_eq)
  then have "round_half_even (q / 2 powi ulp_exp q) \<le> n"
    by (metis round_half_even_mono round_half_even_of_int)
  then have "(of_int (round_half_even (q / 2 powi ulp_exp q)) :: rat) \<le> of_int n" by simp
  then show ?thesis using assms by (simp add: round_rat_def mult_right_mono less_imp_le)
qed

lemma round_rat_ge_grid:
  assumes "0 < q" "of_int n * 2 powi ulp_exp q \<le> q"
  shows "of_int n * 2 powi ulp_exp q \<le> round_rat q"
proof -
  have "of_int n \<le> q / 2 powi ulp_exp q" using assms(2) by (simp add: le_divide_eq)
  then have "n \<le> round_half_even (q / 2 powi ulp_exp q)"
    by (metis round_half_even_mono round_half_even_of_int)
  then have "(of_int n :: rat) \<le> of_int (round_half_even (q / 2 powi ulp_exp q))" by simp
  then show ?thesis using assms by (simp add: round_rat_def mult_right_mono less_imp_le)
qed

lemma powi2_split: "l \<le> k \<Longrightarrow> (2::rat) powi k = of_int (2 ^ nat (k - l)) * 2 powi l"
  by (simp add: power_int_add [symmetric] flip: power_int_of_nat)

lemma ilog2_mono: "0 < p \<Longrightarrow> p \<le> q \<Longrightarrow> ilog2 p \<le> ilog2 q"
proof (rule ccontr)
  assume p: "0 < p" and pq: "p \<le> q" and "\<not> ilog2 p \<le> ilog2 q"
  then have "ilog2 q + 1 \<le> ilog2 p" by simp
  then have "(2::rat) powi (ilog2 q + 1) \<le> 2 powi ilog2 p" by (intro power_int_increasing) auto
  with ilog2_bounds [of q] ilog2_bounds [of p] p pq show False by linarith
qed

lemma round_rat_mono_pos:
  assumes "0 < p" "p \<le> q"
  shows "round_rat p \<le> round_rat q"
proof (cases "ulp_exp p = ulp_exp q")
  case True
  with assms show ?thesis by (rule round_rat_mono_same)
next
  case False
  have q: "0 < q" using assms by simp
  have "ilog2 p \<le> ilog2 q" using assms by (rule ilog2_mono)
  with False have lt: "ulp_exp p < ulp_exp q" using assms by (auto simp: ulp_exp_def)
  define k where "k = ulp_exp p + 53"
  have kq: "k \<le> ilog2 q" using lt assms by (auto simp: ulp_exp_def k_def)
  have kp: "ilog2 p + 1 \<le> k" using assms by (auto simp: ulp_exp_def k_def)
  have "p \<le> 2 powi k"
    using ilog2_bounds [OF assms(1)] power_int_increasing [OF kp, of "2::rat"] by simp
  then have "round_rat p \<le> 2 powi k"
    using round_rat_le_grid [OF assms(1), of "2 ^ nat (k - ulp_exp p)"] powi2_split [of "ulp_exp p" k]
    by (simp add: k_def)
  also have "2 powi k \<le> round_rat q"
  proof -
    have a: "2 powi k \<le> q" using ilog2_bounds [OF q] power_int_increasing [OF kq, of "2::rat"] by simp
    have "ulp_exp q \<le> ilog2 q" using lt assms q kq by (auto simp: ulp_exp_def k_def)
    have "2 powi ilog2 q \<le> round_rat q"
      using round_rat_ge_grid [OF q, of "2 ^ nat (ilog2 q - ulp_exp q)"]
        powi2_split [OF \<open>ulp_exp q \<le> ilog2 q\<close>] ilog2_bounds [OF q] by simp
    then show ?thesis using power_int_increasing [OF kq, of "2::rat"] by simp
  qed
  finally show ?thesis .
qed

lemma round_rat_nonneg: "0 \<le> q \<Longrightarrow> 0 \<le> round_rat q"
  using round_rat_ge_grid [of q 0] by (cases "q = 0") auto

lemma round_rat_mono: "p \<le> q \<Longrightarrow> round_rat p \<le> round_rat q"
proof -
  assume pq: "p \<le> q"
  consider "0 < p" | "p \<le> 0" "0 \<le> q" | "q < 0" by linarith
  then show ?thesis
  proof cases
    case 1 then show ?thesis using pq by (rule round_rat_mono_pos)
  next
    case 2
    then have "0 \<le> round_rat (- p)" "0 \<le> round_rat q" by (simp_all only: round_rat_nonneg neg_0_le_iff_le)
    then show ?thesis by (simp add: round_rat_minus)
  next
    case 3
    then have "round_rat (- q) \<le> round_rat (- p)" using pq by (intro round_rat_mono_pos) auto
    then show ?thesis by (simp add: round_rat_minus)
  qed
qed

text \<open>Values on the grid of representable numbers are not changed.\<close>

lemma round_rat_exact_pos:
  assumes "0 < n" "n \<le> 2 ^ 53" "- 1074 \<le> e"
  shows "round_rat (of_int n * 2 powi e) = of_int n * 2 powi e"
proof -
  define q where "q = of_int n * (2::rat) powi e"
  have q: "0 < q" using assms by (simp add: q_def)
  show ?thesis
  proof (cases "n = 2 ^ 53")
    case True
    then have qe: "q = 2 powi (e + 53)" by (simp add: q_def power_int_add)
    have "ilog2 q \<le> e + 53"
    proof (rule ccontr)
      assume "\<not> ilog2 q \<le> e + 53"
      then have "(2::rat) powi (e + 53) < 2 powi ilog2 q" by (intro power_int_strict_increasing) auto
      with ilog2_bounds [OF q] qe show False by simp
    qed
    then have u: "ulp_exp q \<le> e + 53" using assms q by (auto simp: ulp_exp_def)
    have "q = of_int (2 ^ nat (e + 53 - ulp_exp q)) * 2 powi ulp_exp q"
      using powi2_split [OF u] qe by simp
    then show ?thesis using round_rat_le_grid [OF q] round_rat_ge_grid [OF q] q_def
      by (metis order_antisym order_refl)
  next
    case False
    with assms have "n < 2 ^ 53" by simp
    then have "(of_int n :: rat) < of_int (2 ^ 53)" by (simp only: of_int_less_iff)
    then have "q < of_int (2 ^ 53) * 2 powi e" by (simp add: q_def)
    also have "\<dots> = 2 powi (e + 53)" by (simp add: power_int_add)
    finally have "q < 2 powi (e + 53)" .
    then have "ilog2 q < e + 53"
      using ilog2_bounds [OF q] power_int_increasing [of "e + 53" "ilog2 q" "2::rat"] by fastforce
    then have u: "ulp_exp q \<le> e" using assms q by (auto simp: ulp_exp_def)
    have "q = of_int (n * 2 ^ nat (e - ulp_exp q)) * 2 powi ulp_exp q"
      using powi2_split [OF u] by (simp add: q_def)
    then show ?thesis using round_rat_le_grid [OF q] round_rat_ge_grid [OF q] q_def
      by (metis order_antisym order_refl)
  qed
qed

lemma round_rat_exact:
  assumes "\<bar>n\<bar> \<le> 2 ^ 53" "- 1074 \<le> e"
  shows "round_rat (of_int n * 2 powi e) = of_int n * 2 powi e"
proof -
  consider "n = 0" | "0 < n" | "n < 0" by linarith
  then show ?thesis
  proof cases
    case 2 then show ?thesis using assms by (intro round_rat_exact_pos) auto
  next
    case 3
    then have "round_rat (of_int (- n) * 2 powi e) = of_int (- n) * 2 powi e"
      using assms by (intro round_rat_exact_pos) auto
    then show ?thesis using round_rat_minus [of "of_int n * 2 powi e"] by simp
  qed simp
qed

lemma round_rat_int [simp]: "\<bar>n\<bar> \<le> 2 ^ 53 \<Longrightarrow> round_rat (of_int n) = of_int n"
  using round_rat_exact [of n 0] by simp

lemma round_half_even_scaled_bound:
  assumes "0 < q" shows "\<bar>round_half_even (q / 2 powi ulp_exp q)\<bar> \<le> 2 ^ 53"
proof -
  have "ilog2 q + 1 \<le> ulp_exp q + 53" using assms by (auto simp: ulp_exp_def)
  then have "q \<le> 2 powi (ulp_exp q + 53)"
    using ilog2_bounds [OF assms] power_int_increasing [of "ilog2 q + 1" "ulp_exp q + 53" "2::rat"]
    by simp
  then have "q / 2 powi ulp_exp q \<le> of_int (2 ^ 53)" by (simp add: power_int_add divide_le_eq)
  then have "round_half_even (q / 2 powi ulp_exp q) \<le> 2 ^ 53"
    by (metis round_half_even_mono round_half_even_of_int)
  moreover have "of_int 0 \<le> q / 2 powi ulp_exp q" using assms by simp
  then have "0 \<le> round_half_even (q / 2 powi ulp_exp q)"
    by (metis round_half_even_mono round_half_even_of_int)
  ultimately show ?thesis by simp
qed

lemma round_rat_idem: "round_rat (round_rat q) = round_rat q"
proof -
  have pos: "round_rat (round_rat q) = round_rat q" if "0 < q" for q
    using that round_rat_exact [OF round_half_even_scaled_bound [OF that], of "ulp_exp q"]
    by (simp add: round_rat_def [of q] ulp_exp_def)
  consider "0 < q" | "q = 0" | "0 < - q" by linarith
  then show ?thesis
  proof cases
    case 3
    then show ?thesis using pos [OF 3] by (simp add: round_rat_minus)
  qed (simp_all add: pos)
qed

subsection \<open>Doubles, their order and their arithmetic\<close>

datatype dbl = Fin rat | PInf | NInf | NaN

definition to_dbl :: "rat \<Rightarrow> dbl" where
  "to_dbl q =
     (let r = round_rat q
      in if 2 ^ 1024 \<le> r then PInf else if r \<le> - (2 ^ 1024) then NInf else Fin r)"

text \<open>\<^verbatim>\<open>static_cast<double>\<close> of an integer.\<close>

abbreviation dbl_of_int :: "int \<Rightarrow> dbl" where
  "dbl_of_int n \<equiv> to_dbl (of_int n)"

fun dbl_less :: "dbl \<Rightarrow> dbl \<Rightarrow> bool" where
  "dbl_less (Fin a) (Fin b) = (a < b)"
| "dbl_less (Fin _) PInf = True"
| "dbl_less NInf (Fin _) = True"
| "dbl_less NInf PInf = True"
| "dbl_less _ _ = False"

fun dbl_eq :: "dbl \<Rightarrow> dbl \<Rightarrow> bool" where
  "dbl_eq NaN _ = False"
| "dbl_eq x y = (x = y)"

fun dbl_add :: "dbl \<Rightarrow> dbl \<Rightarrow> dbl" where
  "dbl_add (Fin a) (Fin b) = to_dbl (a + b)"
| "dbl_add NaN _ = NaN"
| "dbl_add _ NaN = NaN"
| "dbl_add PInf NInf = NaN"
| "dbl_add NInf PInf = NaN"
| "dbl_add PInf _ = PInf"
| "dbl_add _ PInf = PInf"
| "dbl_add NInf _ = NInf"
| "dbl_add _ NInf = NInf"

fun dbl_neg :: "dbl \<Rightarrow> dbl" where
  "dbl_neg (Fin a) = Fin (- a)"
| "dbl_neg PInf = NInf"
| "dbl_neg NInf = PInf"
| "dbl_neg NaN = NaN"

text \<open>The infinity with the sign of the product of a finite and an infinite factor.\<close>

definition signed_inf :: "rat \<Rightarrow> dbl \<Rightarrow> dbl" where
  "signed_inf a i = (if a = 0 then NaN else if 0 < a then i else dbl_neg i)"

fun dbl_mult :: "dbl \<Rightarrow> dbl \<Rightarrow> dbl" where
  "dbl_mult (Fin a) (Fin b) = to_dbl (a * b)"
| "dbl_mult NaN _ = NaN"
| "dbl_mult _ NaN = NaN"
| "dbl_mult (Fin a) i = signed_inf a i"
| "dbl_mult i (Fin b) = signed_inf b i"
| "dbl_mult PInf i = i"
| "dbl_mult NInf i = dbl_neg i"

fun dbl_div :: "dbl \<Rightarrow> dbl \<Rightarrow> dbl" where
  "dbl_div (Fin a) (Fin b) =
     (if b = 0 then signed_inf a PInf else to_dbl (a / b))"
| "dbl_div NaN _ = NaN"
| "dbl_div _ NaN = NaN"
| "dbl_div (Fin _) _ = Fin 0"
| "dbl_div i (Fin b) = (if 0 \<le> b then i else dbl_neg i)"
| "dbl_div _ _ = NaN"

fun dbl_abs :: "dbl \<Rightarrow> dbl" where
  "dbl_abs (Fin a) = Fin \<bar>a\<bar>"
| "dbl_abs NaN = NaN"
| "dbl_abs _ = PInf"

text \<open>\<^verbatim>\<open>std::isfinite\<close>.\<close>

fun is_finite :: "dbl \<Rightarrow> bool" where
  "is_finite (Fin _) = True"
| "is_finite _ = False"

instantiation dbl :: "{ord, plus, minus, times, inverse, uminus, zero, one}"
begin
definition less_dbl :: "dbl \<Rightarrow> dbl \<Rightarrow> bool" where "less_dbl = dbl_less"
definition less_eq_dbl :: "dbl \<Rightarrow> dbl \<Rightarrow> bool" where
  "less_eq_dbl x y = (dbl_less x y \<or> dbl_eq x y)"
definition plus_dbl :: "dbl \<Rightarrow> dbl \<Rightarrow> dbl" where "plus_dbl = dbl_add"
definition minus_dbl :: "dbl \<Rightarrow> dbl \<Rightarrow> dbl" where "minus_dbl x y = dbl_add x (dbl_neg y)"
definition times_dbl :: "dbl \<Rightarrow> dbl \<Rightarrow> dbl" where "times_dbl = dbl_mult"
definition divide_dbl :: "dbl \<Rightarrow> dbl \<Rightarrow> dbl" where "divide_dbl = dbl_div"
definition inverse_dbl :: "dbl \<Rightarrow> dbl" where "inverse_dbl x = dbl_div (Fin 1) x"
definition uminus_dbl :: "dbl \<Rightarrow> dbl" where "uminus_dbl = dbl_neg"
definition zero_dbl :: dbl where "zero_dbl = Fin 0"
definition one_dbl :: dbl where "one_dbl = Fin 1"
instance ..
end

lemmas dbl_order_defs = less_dbl_def less_eq_dbl_def
lemmas dbl_arith_defs =
  plus_dbl_def minus_dbl_def times_dbl_def divide_dbl_def uminus_dbl_def zero_dbl_def one_dbl_def

text \<open>\<^verbatim>\<open>std::min\<close>, \<^verbatim>\<open>std::max\<close> and \<^verbatim>\<open>std::clamp\<close>, argument order and all: with a \<open>NaN\<close>
  the first argument is returned.\<close>

definition std_min :: "dbl \<Rightarrow> dbl \<Rightarrow> dbl" where
  "std_min a b = (if b < a then b else a)"

definition std_max :: "dbl \<Rightarrow> dbl \<Rightarrow> dbl" where
  "std_max a b = (if a < b then b else a)"

definition std_clamp :: "dbl \<Rightarrow> dbl \<Rightarrow> dbl \<Rightarrow> dbl" where
  "std_clamp v lo hi = (if v < lo then lo else if hi < v then hi else v)"

text \<open>\<^verbatim>\<open>std::chrono::duration<double>(d).count()\<close>: the nanoseconds as a double, divided by \<open>10\<^sup>9\<close>.\<close>

definition seconds_of :: "duration \<Rightarrow> dbl" where
  "seconds_of d = dbl_of_int d / dbl_of_int 1000000000"

text \<open>\<^verbatim>\<open>std::sqrt\<close>, correctly rounded: the integer root of the argument scaled to 110 bits or more
  has at least two bits more than a double, and a half stands for the part of the root that
  is cut off.\<close>

function isqrt :: "int \<Rightarrow> int" where
  "isqrt n =
     (if n \<le> 0 then 0
      else let r = 2 * isqrt (n div 4) in if (r + 1) * (r + 1) \<le> n then r + 1 else r)"
  by pat_completeness auto
termination by (relation "measure nat") auto

declare isqrt.simps [simp del]

lemma isqrt_bounds: "0 \<le> n \<Longrightarrow> 0 \<le> isqrt n \<and> isqrt n * isqrt n \<le> n \<and> n < (isqrt n + 1) * (isqrt n + 1)"
proof (induction n rule: isqrt.induct)
  case (1 n)
  show ?case
  proof (cases "n \<le> 0")
    case True
    with 1(2) have "n = 0" by simp
    then show ?thesis by (subst (1 2 3 4 5) isqrt.simps) simp
  next
    case False
    define s where "s = isqrt (n div 4)"
    have s: "0 \<le> s" "s * s \<le> n div 4" "n div 4 < (s + 1) * (s + 1)"
      using 1(1) [OF False] False by (auto simp: s_def)
    have r: "isqrt n = (if (2 * s + 1) * (2 * s + 1) \<le> n then 2 * s + 1 else 2 * s)"
      using False by (subst isqrt.simps) (simp add: s_def Let_def)
    have "4 * (s * s) \<le> n" using s(2) by linarith
    moreover have "n < 4 * ((s + 1) * (s + 1))" using s(3) by linarith
    ultimately show ?thesis using s(1) by (auto simp: r algebra_simps)
  qed
qed

fun dbl_sqrt :: "dbl \<Rightarrow> dbl" where
  "dbl_sqrt (Fin q) =
     (if q < 0 then NaN else if q = 0 then Fin 0
      else let k = 55 - ilog2 q div 2; x = q * 4 powi k; s = isqrt \<lfloor>x\<rfloor>
           in to_dbl ((of_int s + (if of_int (s * s) = x then 0 else 1 / 2)) * 2 powi (- k)))"
| "dbl_sqrt PInf = PInf"
| "dbl_sqrt NInf = NaN"
| "dbl_sqrt NaN = NaN"

text \<open>\<^verbatim>\<open>static_cast<std::int64_t>\<close> and \<^verbatim>\<open>std::llround\<close>.  Outside the range of the integer
  type C++ leaves the result open; the model takes the saturating conversion of the
  flight computer's AArch64 (\<^verbatim>\<open>fcvtzs\<close>, \<^verbatim>\<open>fcvtas\<close>), which maps \<open>NaN\<close> to 0.\<close>

definition sat_i64 :: "int \<Rightarrow> int" where
  "sat_i64 n = max (- (2 ^ 63)) (min (2 ^ 63 - 1) n)"

definition rat_trunc :: "rat \<Rightarrow> int" where
  "rat_trunc q = (if 0 \<le> q then \<lfloor>q\<rfloor> else \<lceil>q\<rceil>)"

definition rat_round_away :: "rat \<Rightarrow> int" where
  "rat_round_away q = (if 0 \<le> q then \<lfloor>q + 1 / 2\<rfloor> else \<lceil>q - 1 / 2\<rceil>)"

fun dbl_to_i64 :: "dbl \<Rightarrow> int" where
  "dbl_to_i64 (Fin q) = sat_i64 (rat_trunc q)"
| "dbl_to_i64 PInf = 2 ^ 63 - 1"
| "dbl_to_i64 NInf = - (2 ^ 63)"
| "dbl_to_i64 NaN = 0"

fun llround :: "dbl \<Rightarrow> int" where
  "llround (Fin q) = sat_i64 (rat_round_away q)"
| "llround PInf = 2 ^ 63 - 1"
| "llround NInf = - (2 ^ 63)"
| "llround NaN = 0"

subsection \<open>Comparisons\<close>

lemma dbl_simps [simp]:
  "(Fin a < Fin b) = (a < b)" "(Fin a \<le> Fin b) = (a \<le> b)"
  "Fin a < PInf" "Fin a \<le> PInf" "NInf < Fin a" "NInf \<le> Fin a" "NInf < PInf" "NInf \<le> PInf"
  "\<not> PInf < x" "\<not> x < NInf" "PInf \<le> PInf" "NInf \<le> NInf"
  "\<not> PInf \<le> Fin a" "\<not> Fin a \<le> NInf" "\<not> PInf \<le> NInf"
  "\<not> NaN < x" "\<not> x < NaN" "\<not> NaN \<le> x" "\<not> x \<le> NaN"
  by (cases x; auto simp: dbl_order_defs)+

lemma zero_one_dbl: "(0::dbl) = Fin 0" "(1::dbl) = Fin 1"
  by (simp_all add: zero_dbl_def one_dbl_def)

lemma dbl_le_refl [simp]: "(x::dbl) \<le> x \<longleftrightarrow> x \<noteq> NaN"
  by (cases x) auto

lemma dbl_le_trans [trans]: "(x::dbl) \<le> y \<Longrightarrow> y \<le> z \<Longrightarrow> x \<le> z"
  by (cases x; cases y; cases z) auto

lemma dbl_less_imp_le: "(x::dbl) < y \<Longrightarrow> x \<le> y"
  by (cases x; cases y) auto

lemma dbl_less_irrefl [simp]: "\<not> (x::dbl) < x"
  by (cases x) auto

lemma dbl_not_less: "x \<noteq> NaN \<Longrightarrow> y \<noteq> NaN \<Longrightarrow> (\<not> (x::dbl) < y) \<longleftrightarrow> y \<le> x"
  by (cases x; cases y) auto

lemma dbl_le_imp_not_less: "(x::dbl) \<le> y \<Longrightarrow> \<not> y < x"
  by (cases x; cases y) auto

lemma dbl_le_not_NaN: "(x::dbl) \<le> y \<Longrightarrow> x \<noteq> NaN \<and> y \<noteq> NaN"
  by (cases x; cases y) auto

lemma dbl_antisym: "(x::dbl) \<le> y \<Longrightarrow> y \<le> x \<Longrightarrow> x = y"
  by (cases x; cases y) auto

lemma dbl_less_le_trans: "(x::dbl) < y \<Longrightarrow> y \<le> z \<Longrightarrow> x < z"
  by (cases x; cases y; cases z) auto

lemma dbl_le_less_trans: "(x::dbl) \<le> y \<Longrightarrow> y < z \<Longrightarrow> x < z"
  by (cases x; cases y; cases z) auto

lemma std_clamp_bounds:
  "v \<noteq> NaN \<Longrightarrow> lo \<le> hi \<Longrightarrow> lo \<le> std_clamp v lo hi \<and> std_clamp v lo hi \<le> hi"
  by (cases v; cases lo; cases hi) (auto simp: std_clamp_def)

lemma std_clamp_NaN_iff:
  "lo \<le> hi \<Longrightarrow> std_clamp v lo hi = NaN \<longleftrightarrow> v = NaN"
  by (cases v; cases lo; cases hi) (auto simp: std_clamp_def)

lemma std_min_le: "b \<noteq> NaN \<Longrightarrow> a \<noteq> NaN \<Longrightarrow> std_min a b \<le> a \<and> std_min a b \<le> b"
  by (cases a; cases b) (auto simp: std_min_def)

lemma std_max_ge: "b \<noteq> NaN \<Longrightarrow> a \<noteq> NaN \<Longrightarrow> a \<le> std_max a b \<and> b \<le> std_max a b"
  by (cases a; cases b) (auto simp: std_max_def)

subsection \<open>Rounding as an interface\<close>

locale rounding =
  fixes rnd :: "rat \<Rightarrow> dbl"
  assumes rnd_mono: "p \<le> q \<Longrightarrow> rnd p \<le> rnd q"
    and rnd_0: "rnd 0 = Fin 0"
    and rnd_1: "rnd 1 = Fin 1"
begin

lemma rnd_not_NaN: "rnd q \<noteq> NaN"
  using rnd_mono [of q q] by auto

lemma rnd_nonneg: "0 \<le> q \<Longrightarrow> Fin 0 \<le> rnd q"
  using rnd_mono [of 0 q] by (simp add: rnd_0)

lemma rnd_nonpos: "q \<le> 0 \<Longrightarrow> rnd q \<le> Fin 0"
  using rnd_mono [of q 0] by (simp add: rnd_0)

lemma rnd_le_1: "q \<le> 1 \<Longrightarrow> rnd q \<le> Fin 1"
  using rnd_mono [of q 1] by (simp add: rnd_1)

lemma rnd_unit: "0 \<le> q \<Longrightarrow> q \<le> 1 \<Longrightarrow> \<exists>r. rnd q = Fin r \<and> 0 \<le> r \<and> r \<le> 1"
  using rnd_nonneg [of q] rnd_le_1 [of q] by (cases "rnd q") auto

end

lemma to_dbl_mono: "p \<le> q \<Longrightarrow> to_dbl p \<le> to_dbl q"
proof -
  assume "p \<le> q"
  then have "round_rat p \<le> round_rat q" by (rule round_rat_mono)
  moreover have "\<not> (2::rat) ^ 1024 \<le> - (2 ^ 1024)" by simp
  ultimately show ?thesis by (auto simp: to_dbl_def Let_def)
qed

lemma to_dbl_int:
  assumes "\<bar>n\<bar> \<le> 2 ^ 53" shows "to_dbl (of_int n) = Fin (of_int n)"
proof -
  have "(of_int \<bar>n\<bar> :: rat) \<le> of_int (2 ^ 53)" using assms by (simp only: of_int_le_iff)
  then have "\<bar>of_int n :: rat\<bar> \<le> 2 ^ 53" by simp
  moreover have "(2::rat) ^ 53 < 2 ^ 1024" by (rule power_strict_increasing) auto
  ultimately have "\<bar>of_int n :: rat\<bar> < 2 ^ 1024" by linarith
  then show ?thesis using assms by (auto simp: to_dbl_def Let_def)
qed

lemma to_dbl_0 [simp]: "to_dbl 0 = Fin 0" using to_dbl_int [of 0] by simp

lemma to_dbl_1 [simp]: "to_dbl 1 = Fin 1" using to_dbl_int [of 1] by simp

lemma to_dbl_numeral [simp]:
  "(numeral k :: int) \<le> 2 ^ 53 \<Longrightarrow> to_dbl (numeral k) = Fin (numeral k)"
  using to_dbl_int [of "numeral k"] by simp

lemma to_dbl_idem: "to_dbl q = Fin r \<Longrightarrow> to_dbl r = Fin r"
  by (auto simp: to_dbl_def Let_def round_rat_idem split: if_splits)

interpretation b64: rounding to_dbl
  by unfold_locales (simp_all add: to_dbl_mono)

subsection \<open>Ranges of results\<close>

text \<open>A duty cycle: a double between 0 and 1, so not \<open>NaN\<close>.\<close>

definition in_unit :: "dbl \<Rightarrow> bool" where
  "in_unit d \<longleftrightarrow> Fin 0 \<le> d \<and> d \<le> Fin 1"

lemma in_unit_iff: "in_unit d \<longleftrightarrow> (\<exists>r. d = Fin r \<and> 0 \<le> r \<and> r \<le> 1)"
  by (cases d) (auto simp: in_unit_def)

lemma in_unit_0 [simp]: "in_unit 0" "in_unit (Fin 0)"
  by (simp_all add: in_unit_def zero_one_dbl)

lemma in_unit_mult: "in_unit a \<Longrightarrow> in_unit b \<Longrightarrow> in_unit (a * b)"
proof -
  assume "in_unit a" "in_unit b"
  then obtain p q where pq: "a = Fin p" "b = Fin q" "0 \<le> p" "p \<le> 1" "0 \<le> q" "q \<le> 1"
    by (auto simp: in_unit_iff)
  then have "0 \<le> p * q" "p * q \<le> 1" by (simp_all add: mult_le_one)
  then show ?thesis using b64.rnd_unit [of "p * q"] pq
    by (auto simp: times_dbl_def in_unit_iff)
qed

lemma in_unit_clamp: "v \<noteq> NaN \<Longrightarrow> in_unit (std_clamp v 0 1)"
  using std_clamp_bounds [of v "Fin 0" "Fin 1"] by (simp add: in_unit_def zero_one_dbl)

lemma dbl_add_nonneg: "Fin 0 \<le> a \<Longrightarrow> Fin 0 \<le> b \<Longrightarrow> Fin 0 \<le> a + b"
  by (cases a; cases b) (auto simp: plus_dbl_def intro: b64.rnd_nonneg)

lemma dbl_add_mono_right: "to_dbl r = Fin r \<Longrightarrow> Fin 0 \<le> b \<Longrightarrow> Fin r \<le> Fin r + b"
proof -
  assume r: "to_dbl r = Fin r" and b: "Fin 0 \<le> b"
  show ?thesis
  proof (cases b)
    case (Fin x)
    then have "to_dbl r \<le> to_dbl (r + x)" using b by (intro to_dbl_mono) simp
    then show ?thesis using Fin r by (simp add: plus_dbl_def)
  qed (use b in \<open>simp_all add: plus_dbl_def\<close>)
qed

lemma dbl_mult_nonneg:
  "Fin 0 \<le> a \<Longrightarrow> Fin 0 \<le> b \<Longrightarrow> a * b = NaN \<or> Fin 0 \<le> a * b"
  by (cases a; cases b) (auto simp: times_dbl_def signed_inf_def intro: b64.rnd_nonneg)

lemma dbl_div_unit: "Fin 0 \<le> a \<Longrightarrow> a < b \<Longrightarrow> in_unit (a / b)"
proof (cases a; cases b)
  fix p q
  assume "Fin 0 \<le> a" "a < b" "a = Fin p" "b = Fin q"
  then have pq: "0 \<le> p" "p < q" by auto
  then have "0 \<le> p / q" "p / q \<le> 1" by (simp_all add: divide_le_eq)
  then show "in_unit (a / b)" using b64.rnd_unit [of "p / q"] pq \<open>a = Fin p\<close> \<open>b = Fin q\<close>
    by (auto simp: divide_dbl_def in_unit_iff)
qed (auto simp: divide_dbl_def)

text \<open>A representable value: what arithmetic returns.\<close>

definition is_dbl :: "dbl \<Rightarrow> bool" where
  "is_dbl d \<longleftrightarrow> (case d of Fin r \<Rightarrow> to_dbl r = Fin r | _ \<Rightarrow> True)"

lemma is_dbl_to_dbl [simp]: "is_dbl (to_dbl q)"
  by (auto simp: is_dbl_def split: dbl.splits dest: to_dbl_idem)

lemma is_dbl_add [simp]: "is_dbl (a + b)"
  by (cases a; cases b) (simp_all add: plus_dbl_def, simp_all add: is_dbl_def)

lemma is_dbl_0 [simp]: "is_dbl 0" "is_dbl (Fin 0)"
  by (simp_all add: is_dbl_def zero_one_dbl)

lemma dbl_add_increases:
  "is_dbl a \<Longrightarrow> Fin 0 \<le> a \<Longrightarrow> Fin 0 \<le> b \<Longrightarrow> a \<le> a + b"
proof (cases a)
  case (Fin r)
  assume "is_dbl a" "Fin 0 \<le> b"
  then show ?thesis using Fin dbl_add_mono_right [of r b] by (simp add: is_dbl_def)
next
  case PInf
  assume "Fin 0 \<le> b"
  then show ?thesis using PInf by (cases b) (simp_all add: plus_dbl_def)
qed simp_all

lemma dbl_mult_pos_nonneg: "Fin 0 \<le> a \<Longrightarrow> 0 < b \<Longrightarrow> b \<noteq> PInf \<Longrightarrow> Fin 0 \<le> a * b"
  by (cases a; cases b)
    (auto simp: times_dbl_def signed_inf_def zero_one_dbl intro: b64.rnd_nonneg)

end
