(* ===== verification/Config.thy ===== *)
theory Config
  imports Doubles
begin

text \<open>
  The sections of \<^verbatim>\<open>OnboardConfig\<close> (\<^verbatim>\<open>onboard/include/coatheal/config.hpp\<close>) the modelled
  components read, each with its defaults.  \<^verbatim>\<open>SIZE_MAX\<close>, the code's "no such heater", is
  \<open>size_max\<close>.
\<close>

definition size_max :: nat where
  "size_max = 2 ^ 64 - 1"

record transition_config =
  pre_float_mbar :: dbl
  ascent_to_float_mbar :: dbl
  float_to_descent_mbar :: dbl
  descent_to_landed_mbar :: dbl
  debounce_samples :: int

definition transition_default :: transition_config where
  "transition_default =
     \<lparr>pre_float_mbar = Fin 150, ascent_to_float_mbar = Fin 100, float_to_descent_mbar = Fin 300,
      descent_to_landed_mbar = Fin 800, debounce_samples = 5\<rparr>"

record phase_config =
  sample_floor_c :: dbl
  uniformity_tolerance_c :: dbl

definition phase_default :: phase_config where
  "phase_default = \<lparr>sample_floor_c = Fin 5, uniformity_tolerance_c = Fin 2\<rparr>"

record heater_safety_config =
  max_sample_temp_c :: dbl
  target_min_c :: dbl
  target_max_c :: dbl

definition heater_safety_default :: heater_safety_config where
  "heater_safety_default =
     \<lparr>max_sample_temp_c = Fin 80, target_min_c = Fin 0, target_max_c = Fin 75\<rparr>"

record power_config =
  max_active_heaters :: nat
  max_thermal_w :: dbl
  max_system_w :: dbl
  heater_nominal_w :: dbl
  energy_budget_wh :: dbl
  logic_regulator_v :: dbl
  stepper_regulator_v :: dbl

definition power_default :: power_config where
  "power_default =
     \<lparr>max_active_heaters = 3, max_thermal_w = Fin 15, max_system_w = to_dbl (4823 / 100),
      heater_nominal_w = Fin 5, energy_budget_wh = Fin 0, logic_regulator_v = Fin 5,
      stepper_regulator_v = Fin 12\<rparr>"

record pid_gains =
  kp :: dbl
  ki :: dbl
  kd :: dbl

definition pid_default :: pid_gains where
  "pid_default = \<lparr>kp = to_dbl (20 / 100), ki = to_dbl (2 / 100), kd = to_dbl (3 / 100)\<rparr>"

record hardware_config =
  sample_count :: nat
  heater_count :: nat
  electronics_heater_index :: nat

definition hardware_default :: hardware_config where
  "hardware_default =
     \<lparr>sample_count = 8, heater_count = 6, electronics_heater_index = size_max\<rparr>"

record heater_output_config =
  output_lines :: "nat list"
  temperature_channels :: "nat list"
  pwm_frequency_hz :: dbl
  active_high :: bool
  debug_max_duty :: dbl
  debug_max_seconds :: dbl
  max_duty :: dbl

definition heater_output_default :: heater_output_config where
  "heater_output_default =
     \<lparr>output_lines = [], temperature_channels = [], pwm_frequency_hz = Fin 1, active_high = True,
      debug_max_duty = Fin (1 / 4), debug_max_seconds = Fin 10, max_duty = Fin 1\<rparr>"

text \<open>The sections the thermal control loop is constructed from.\<close>

record onboard_config =
  oc_phase :: phase_config
  oc_pid :: pid_gains
  oc_hardware :: hardware_config
  oc_heaters :: heater_output_config
  oc_heater_safety :: heater_safety_config

definition onboard_default :: onboard_config where
  "onboard_default =
     \<lparr>oc_phase = phase_default, oc_pid = pid_default, oc_hardware = hardware_default,
      oc_heaters = heater_output_default, oc_heater_safety = heater_safety_default\<rparr>"

end
