(* ===== verification/Text.thy ===== *)
theory Text
  imports Doubles "HOL-Library.Char_ord"
begin

text \<open>
  The parts of the C++ string library the components use: character classes, trimming and
  splitting, printing integers (\<^verbatim>\<open>std::to_string\<close>, \<^verbatim>\<open>operator<<\<close>) and reading them back
  (\<^verbatim>\<open>std::stoll\<close>, \<^verbatim>\<open>std::stoull\<close>).  A \<^verbatim>\<open>std::string\<close> is a list of bytes.  Where the library
  throws (\<^verbatim>\<open>invalid_argument\<close>, \<^verbatim>\<open>out_of_range\<close>) the model returns \<open>None\<close>.
\<close>

subsection \<open>Characters\<close>

definition char_code :: "char \<Rightarrow> nat" where
  "char_code c = of_char c"

text \<open>\<^verbatim>\<open>std::isspace\<close>, \<^verbatim>\<open>std::isdigit\<close> and \<^verbatim>\<open>std::toupper\<close> in the C locale.\<close>

definition is_space :: "char \<Rightarrow> bool" where
  "is_space c \<longleftrightarrow> char_code c = 32 \<or> 9 \<le> char_code c \<and> char_code c \<le> 13"

definition is_digit :: "char \<Rightarrow> bool" where
  "is_digit c \<longleftrightarrow> 48 \<le> char_code c \<and> char_code c \<le> 57"

definition to_upper_char :: "char \<Rightarrow> char" where
  "to_upper_char c =
     (if 97 \<le> char_code c \<and> char_code c \<le> 122 then char_of (char_code c - 32) else c)"

definition digit_char :: "nat \<Rightarrow> char" where
  "digit_char d = char_of (48 + d)"

definition digit_val :: "char \<Rightarrow> nat" where
  "digit_val c = char_code c - 48"

lemma char_code_digit [simp]: "d < 10 \<Longrightarrow> char_code (digit_char d) = 48 + d"
  by (simp add: char_code_def digit_char_def of_char_of)

lemma is_digit_digit_char [simp]: "d < 10 \<Longrightarrow> is_digit (digit_char d)"
  by (simp add: is_digit_def)

lemma digit_val_digit_char [simp]: "d < 10 \<Longrightarrow> digit_val (digit_char d) = d"
  by (simp add: digit_val_def)

lemma digit_not_space: "is_digit c \<Longrightarrow> \<not> is_space c"
  by (auto simp: is_digit_def is_space_def)

lemma digit_not_sign: "is_digit c \<Longrightarrow> c \<noteq> CHR ''-'' \<and> c \<noteq> CHR ''+''"
  by (auto simp: is_digit_def char_code_def)

lemma is_digit_cases: "is_digit c \<Longrightarrow> \<exists>d<10. c = digit_char d"
proof -
  assume "is_digit c"
  then have b: "48 \<le> (of_char c :: nat)" "(of_char c :: nat) \<le> 57"
    by (auto simp: is_digit_def char_code_def)
  then have "c = digit_char (of_char c - 48)"
    by (simp add: digit_char_def)
  with b show ?thesis by (intro exI [of _ "of_char c - 48"]) auto
qed

subsection \<open>Printing and reading integers\<close>

fun show_nat :: "nat \<Rightarrow> string" where
  "show_nat n = (if n < 10 then [digit_char n] else show_nat (n div 10) @ [digit_char (n mod 10)])"

declare show_nat.simps [simp del]

definition show_int :: "int \<Rightarrow> string" where
  "show_int n = (if n < 0 then CHR ''-'' # show_nat (nat (- n)) else show_nat (nat n))"

definition digits_value :: "string \<Rightarrow> nat" where
  "digits_value ds = foldl (\<lambda>a c. 10 * a + digit_val c) 0 ds"

text \<open>The part of \<^verbatim>\<open>strtoll\<close> and \<^verbatim>\<open>strtoull\<close> that finds the number: leading white space, an
  optional sign, the digits; the sign, the digits and the number of characters used.\<close>

definition scan_int :: "string \<Rightarrow> (bool \<times> string \<times> nat) option" where
  "scan_int s =
     (let sp = length (takeWhile is_space s); r = dropWhile is_space s;
          neg = (case r of c # _ \<Rightarrow> c = CHR ''-'' | [] \<Rightarrow> False);
          sgn = (case r of c # _ \<Rightarrow> c = CHR ''-'' \<or> c = CHR ''+'' | [] \<Rightarrow> False);
          ds = takeWhile is_digit (if sgn then tl r else r)
      in if ds = [] then None
         else Some (neg, ds, sp + (if sgn then 1 else 0) + length ds))"

definition stoll :: "string \<Rightarrow> (int \<times> nat) option" where
  "stoll s =
     (case scan_int s of None \<Rightarrow> None
      | Some (neg, ds, used) \<Rightarrow>
          (let v = (if neg then - int (digits_value ds) else int (digits_value ds))
           in if - (2 ^ 63) \<le> v \<and> v < 2 ^ 63 then Some (v, used) else None))"

definition stoull :: "string \<Rightarrow> (nat \<times> nat) option" where
  "stoull s =
     (case scan_int s of None \<Rightarrow> None
      | Some (neg, ds, used) \<Rightarrow>
          (let v = digits_value ds
           in if 2 ^ 64 \<le> v then None
              else Some (if neg then (2 ^ 64 - v) mod 2 ^ 64 else v, used)))"

lemma show_nat_digits: "\<forall>c \<in> set (show_nat n). is_digit c"
proof (induction n rule: show_nat.induct)
  case (1 n)
  then show ?case by (subst show_nat.simps) auto
qed

lemma show_nat_nonempty [simp]: "show_nat n \<noteq> []"
  by (subst show_nat.simps) simp

lemma digits_value_snoc: "digits_value (ds @ [c]) = 10 * digits_value ds + digit_val c"
  by (simp add: digits_value_def)

lemma digits_value_show_nat [simp]: "digits_value (show_nat n) = n"
proof (induction n rule: show_nat.induct)
  case (1 n)
  show ?case
  proof (cases "n < 10")
    case True
    then show ?thesis by (subst show_nat.simps) (simp add: digits_value_def)
  next
    case False
    with 1 show ?thesis by (subst show_nat.simps) (simp add: digits_value_snoc)
  qed
qed

text \<open>What follows a printed number must not continue it.\<close>

definition no_digit_first :: "string \<Rightarrow> bool" where
  "no_digit_first s \<longleftrightarrow> (case s of [] \<Rightarrow> True | c # _ \<Rightarrow> \<not> is_digit c)"

lemma takeWhile_digits:
  "\<forall>c \<in> set ds. is_digit c \<Longrightarrow> no_digit_first r \<Longrightarrow> takeWhile is_digit (ds @ r) = ds"
  by (induction ds) (auto simp: no_digit_first_def split: list.splits)

lemma scan_int_show_nat:
  assumes "no_digit_first r"
  shows "scan_int (show_nat n @ r) = Some (False, show_nat n, length (show_nat n))"
proof -
  obtain c cs where c: "show_nat n = c # cs" by (meson show_nat_nonempty list.exhaust)
  with show_nat_digits [of n] have "is_digit c" by simp
  moreover have "takeWhile is_digit (show_nat n @ r) = show_nat n"
    using show_nat_digits assms by (rule takeWhile_digits)
  ultimately show ?thesis using digit_not_space [of c] digit_not_sign [of c]
    by (simp add: scan_int_def c Let_def)
qed

lemma scan_int_minus_show_nat:
  assumes "no_digit_first r"
  shows "scan_int (CHR ''-'' # show_nat n @ r) = Some (True, show_nat n, Suc (length (show_nat n)))"
proof -
  have "takeWhile is_digit (show_nat n @ r) = show_nat n"
    using show_nat_digits assms by (rule takeWhile_digits)
  moreover have "\<not> is_space CHR ''-''" by (simp add: is_space_def char_code_def)
  ultimately show ?thesis by (simp add: scan_int_def Let_def)
qed

lemma stoll_show_int:
  assumes "- (2 ^ 63) \<le> n" "n < 2 ^ 63" "no_digit_first r"
  shows "stoll (show_int n @ r) = Some (n, length (show_int n))"
  using assms by (simp add: stoll_def show_int_def scan_int_show_nat scan_int_minus_show_nat nat_le_iff nat_less_iff)

lemma stoull_show_nat:
  assumes "n < 2 ^ 64" "no_digit_first r"
  shows "stoull (show_nat n @ r) = Some (n, length (show_nat n))"
  using assms by (simp add: stoull_def scan_int_show_nat)

subsection \<open>Printing doubles\<close>

text \<open>\<^verbatim>\<open>operator<<\<close> on a \<^verbatim>\<open>double\<close> with the default format (\<^verbatim>\<open>%g\<close>, six significant digits): the
  decimal exponent, the six digits rounded to nearest even, positional or scientific form, trailing
  zeros removed.\<close>

definition dec_exp :: "rat \<Rightarrow> int" where
  "dec_exp q =
     (if 1 \<le> q then int (length (show_nat (nat \<lfloor>q\<rfloor>))) - 1
      else - int (length (show_nat (nat (\<lceil>1 / q\<rceil> - 1)))))"

definition strip_zeros :: "string \<Rightarrow> string" where
  "strip_zeros s = rev (dropWhile (\<lambda>c. c = CHR ''0'') (rev s))"

definition with_fraction :: "string \<Rightarrow> string \<Rightarrow> string" where
  "with_fraction whole decimals =
     (let f = strip_zeros decimals in if f = [] then whole else whole @ CHR ''.'' # f)"

definition show_pos_rat :: "rat \<Rightarrow> string" where
  "show_pos_rat q =
     (let x = dec_exp q;
          m = round_half_even (q / 10 powi (x - 5));
          (m, x) = (if m = 1000000 then (100000, x + 1) else (m, x));
          ds = show_nat (nat m)
      in if - 4 \<le> x \<and> x < 6
         then (if 0 \<le> x then with_fraction (take (nat (x + 1)) ds) (drop (nat (x + 1)) ds)
               else with_fraction ''0'' (replicate (nat (- x - 1)) CHR ''0'' @ ds))
         else with_fraction (take 1 ds) (drop 1 ds) @
              (if x < 0 then ''e-'' else ''e+'') @
              (if \<bar>x\<bar> < 10 then ''0'' else []) @ show_nat (nat \<bar>x\<bar>))"

fun show_double :: "dbl \<Rightarrow> string" where
  "show_double (Fin q) =
     (if q = 0 then ''0'' else if q < 0 then CHR ''-'' # show_pos_rat (- q) else show_pos_rat q)"
| "show_double PInf = ''inf''"
| "show_double NInf = ''-inf''"
| "show_double NaN = ''nan''"

subsection \<open>Reading doubles\<close>

text \<open>\<^verbatim>\<open>std::stod\<close>: white space, an optional sign, then an infinity, a not-a-number, a hexadecimal or a
  decimal number; the value and the number of characters used.  \<open>None\<close> is an exception: no number, or a number
  that is not zero and whose double is infinite, or below the normal range and inexact.\<close>

definition lower_char :: "char \<Rightarrow> char" where
  "lower_char c = (if 65 \<le> char_code c \<and> char_code c \<le> 90 then char_of (char_code c + 32) else c)"

definition begins_with :: "string \<Rightarrow> string \<Rightarrow> bool" where
  "begins_with p s \<longleftrightarrow> map lower_char (take (length p) s) = p"

definition is_hex :: "char \<Rightarrow> bool" where
  "is_hex c \<longleftrightarrow> is_digit c \<or> 97 \<le> char_code (lower_char c) \<and> char_code (lower_char c) \<le> 102"

definition hex_val :: "char \<Rightarrow> nat" where
  "hex_val c = (if is_digit c then digit_val c else char_code (lower_char c) - 87)"

text \<open>Digits, and a fraction after a point: the digits before, those after, and the characters used.\<close>

definition scan_mantissa :: "(char \<Rightarrow> bool) \<Rightarrow> string \<Rightarrow> (string \<times> string \<times> nat) option" where
  "scan_mantissa isd s =
     (let ip = takeWhile isd s; r = dropWhile isd s;
          (fp, n) =
            (case r of c # r' \<Rightarrow>
               (if c = CHR ''.'' then (takeWhile isd r', length ip + 1 + length (takeWhile isd r')) else ([], length ip))
             | [] \<Rightarrow> ([], length ip))
      in if ip = [] \<and> fp = [] then None else Some (ip, fp, n))"

text \<open>An exponent, when its letter is followed by digits.\<close>

definition scan_exponent :: "char \<Rightarrow> string \<Rightarrow> int \<times> nat" where
  "scan_exponent e s =
     (case s of
        [] \<Rightarrow> (0, 0)
      | c # r \<Rightarrow>
          (if lower_char c \<noteq> e then (0, 0)
           else
             (let sgn = (case r of x # _ \<Rightarrow> x = CHR ''-'' \<or> x = CHR ''+'' | [] \<Rightarrow> False);
                  neg = (case r of x # _ \<Rightarrow> x = CHR ''-'' | [] \<Rightarrow> False);
                  ds = takeWhile is_digit (if sgn then tl r else r)
              in if ds = [] then (0, 0)
                 else ((if neg then - int (digits_value ds) else int (digits_value ds)),
                       1 + (if sgn then 1 else 0) + length ds))))"

definition scan_number :: "string \<Rightarrow> (rat \<times> nat) option" where
  "scan_number s =
     (let hex = (if begins_with ''0x'' s then scan_mantissa is_hex (drop 2 s) else None) in
      case hex of
        Some (ip, fp, n) \<Rightarrow>
          (let (x, m) = scan_exponent (CHR ''p'') (drop (2 + n) s) in
           Some (of_nat (foldl (\<lambda>a c. 16 * a + hex_val c) 0 (ip @ fp)) * 2 powi (x - 4 * int (length fp)), 2 + n + m))
      | None \<Rightarrow>
          (case scan_mantissa is_digit s of
             None \<Rightarrow> None
           | Some (ip, fp, n) \<Rightarrow>
               (let (x, m) = scan_exponent (CHR ''e'') (drop n s) in
                Some (of_nat (digits_value (ip @ fp)) * 10 powi (x - int (length fp)), n + m))))"

definition is_name_char :: "char \<Rightarrow> bool" where
  "is_name_char c \<longleftrightarrow>
     is_digit c \<or> c = CHR ''_'' \<or> 97 \<le> char_code (lower_char c) \<and> char_code (lower_char c) \<le> 122"

definition nan_length :: "string \<Rightarrow> nat" where
  "nan_length s =
     (let r = drop 3 s; w = takeWhile is_name_char (tl r) in
      if r \<noteq> [] \<and> hd r = CHR ''('' \<and> drop (Suc (length w)) r \<noteq> [] \<and> drop (Suc (length w)) r ! 0 = CHR '')''
      then 3 + length w + 2 else 3)"

definition in_range :: "rat \<Rightarrow> dbl \<Rightarrow> bool" where
  "in_range q d \<longleftrightarrow> (case d of Fin r \<Rightarrow> \<bar>r\<bar> < 2 powi (- 1022) \<longrightarrow> r = q | _ \<Rightarrow> False)"

definition stod :: "string \<Rightarrow> (dbl \<times> nat) option" where
  "stod s =
     (let sp = length (takeWhile is_space s); r = dropWhile is_space s;
          neg = (case r of c # _ \<Rightarrow> c = CHR ''-'' | [] \<Rightarrow> False);
          sgn = (case r of c # _ \<Rightarrow> c = CHR ''-'' \<or> c = CHR ''+'' | [] \<Rightarrow> False);
          t = (if sgn then tl r else r); used = sp + (if sgn then 1 else 0)
      in if begins_with ''infinity'' t then Some (if neg then NInf else PInf, used + 8)
         else if begins_with ''inf'' t then Some (if neg then NInf else PInf, used + 3)
         else if begins_with ''nan'' t then Some (NaN, used + nan_length t)
         else case scan_number t of
           None \<Rightarrow> None
         | Some (q, n) \<Rightarrow>
             (let q = (if neg then - q else q); d = to_dbl q
              in if in_range q d then Some (d, used + n) else None))"

subsection \<open>Splitting\<close>

text \<open>\<^verbatim>\<open>std::string::find(c)\<close> and the two \<^verbatim>\<open>substr\<close> around it: the text before the first
  occurrence and the text after it.\<close>

fun split_first :: "char \<Rightarrow> string \<Rightarrow> (string \<times> string) option" where
  "split_first c [] = None"
| "split_first c (x # xs) =
     (if x = c then Some ([], xs)
      else map_option (\<lambda>(a, b). (x # a, b)) (split_first c xs))"

text \<open>\<^verbatim>\<open>std::getline(in, field, c)\<close> until the stream ends: a separator at the very end does not
  open another field.\<close>

function split_fields :: "char \<Rightarrow> string \<Rightarrow> string list" where
  "split_fields c s =
     (if s = [] then []
      else takeWhile (\<lambda>x. x \<noteq> c) s # split_fields c (tl (dropWhile (\<lambda>x. x \<noteq> c) s)))"
  by pat_completeness auto
termination
proof (relation "measure (\<lambda>(c, s). length s)", simp)
  fix c :: char and s :: string
  assume "s \<noteq> []"
  have "length (dropWhile (\<lambda>x. x \<noteq> c) s) \<le> length s" by (rule length_dropWhile_le)
  moreover have "0 < length s" using \<open>s \<noteq> []\<close> by simp
  ultimately have "length (tl (dropWhile (\<lambda>x. x \<noteq> c) s)) < length s"
    unfolding length_tl by linarith
  then show "((c, tl (dropWhile (\<lambda>x. x \<noteq> c) s)), c, s) \<in> measure (\<lambda>(c, s). length s)" by simp
qed

declare split_fields.simps [simp del]

lemma split_first_append: "c \<notin> set a \<Longrightarrow> split_first c (a @ c # b) = Some (a, b)"
  by (induction a) auto

lemma split_first_Some: "split_first c s = Some (a, b) \<Longrightarrow> s = a @ c # b \<and> c \<notin> set a"
  by (induction c s arbitrary: a rule: split_first.induct) (auto split: if_splits)

lemma split_first_None: "split_first c s = None \<longleftrightarrow> c \<notin> set s"
  by (induction c s rule: split_first.induct) auto

lemma split_fields_cons: "c \<notin> set a \<Longrightarrow> split_fields c (a @ c # b) = a # split_fields c b"
proof -
  assume "c \<notin> set a"
  then have "takeWhile (\<lambda>x. x \<noteq> c) (a @ c # b) = a" "dropWhile (\<lambda>x. x \<noteq> c) (a @ c # b) = c # b"
    by (induction a) auto
  then show ?thesis by (subst split_fields.simps) simp
qed

text \<open>The prefix test \<^verbatim>\<open>s.rfind(p, 0) == 0\<close>.\<close>

definition starts_with :: "string \<Rightarrow> string \<Rightarrow> bool" where
  "starts_with p s \<longleftrightarrow> take (length p) s = p"

end
