(* ===== verification/Phase.thy ===== *)
theory Phase
  imports Config Text
begin

text \<open>
  Mission phases (\<^verbatim>\<open>onboard/include/coatheal/phase.hpp\<close>): the label the operator sets, and
  its text form in commands and telemetry.
\<close>

datatype mission_phase = Boot | Ascent | PreFloat | Float | Descent | Landed | Stopped

fun phase_to_string :: "mission_phase \<Rightarrow> string" where
  "phase_to_string Boot = ''BOOT''"
| "phase_to_string Ascent = ''ASCENT''"
| "phase_to_string PreFloat = ''PRE_FLOAT''"
| "phase_to_string Float = ''FLOAT''"
| "phase_to_string Descent = ''DESCENT''"
| "phase_to_string Landed = ''LANDED''"
| "phase_to_string Stopped = ''STOPPED''"

definition parse_mission_phase :: "string \<Rightarrow> mission_phase option" where
  "parse_mission_phase text =
     (if text = ''BOOT'' then Some Boot
      else if text = ''ASCENT'' then Some Ascent
      else if text = ''PRE_FLOAT'' then Some PreFloat
      else if text = ''FLOAT'' then Some Float
      else if text = ''DESCENT'' then Some Descent
      else if text = ''LANDED'' then Some Landed
      else if text = ''STOPPED'' then Some Stopped
      else None)"

text \<open>The order in which a flight goes through the phases, as the library's linear order.\<close>

fun phase_rank :: "mission_phase \<Rightarrow> nat" where
  "phase_rank Boot = 0"
| "phase_rank Ascent = 1"
| "phase_rank PreFloat = 2"
| "phase_rank Float = 3"
| "phase_rank Descent = 4"
| "phase_rank Landed = 5"
| "phase_rank Stopped = 6"

lemma phase_rank_inj: "phase_rank a = phase_rank b \<Longrightarrow> a = b"
  by (cases a; cases b) auto

instantiation mission_phase :: linorder
begin
definition less_eq_mission_phase :: "mission_phase \<Rightarrow> mission_phase \<Rightarrow> bool" where
  "less_eq_mission_phase a b = (phase_rank a \<le> phase_rank b)"
definition less_mission_phase :: "mission_phase \<Rightarrow> mission_phase \<Rightarrow> bool" where
  "less_mission_phase a b = (phase_rank a < phase_rank b)"
instance
  by standard (auto simp: less_eq_mission_phase_def less_mission_phase_def dest: phase_rank_inj)
end

lemma parse_phase_iff: "parse_mission_phase s = Some p \<longleftrightarrow> s = phase_to_string p"
  by (cases p) (auto simp: parse_mission_phase_def)

end
