(* ===== verification/StateManager.thy ===== *)
theory StateManager
  imports Phase
begin

text \<open>
  The fallback phase tracker (\<^verbatim>\<open>state_manager.cpp\<close>): while the link is lost it follows the
  flight from the ambient pressure alone.  A phase is left only after
  \<^verbatim>\<open>transition.debounce_samples\<close> consecutive samples on the other side of a threshold.
\<close>

record state_overrides =
  force_start :: bool
  force_stop :: bool
  reset_control :: bool
  shutdown_safe :: bool

definition no_overrides :: state_overrides where
  "no_overrides =
     \<lparr>force_start = False, force_stop = False, reset_control = False, shutdown_safe = False\<rparr>"

record state_manager =
  sm_transition :: transition_config
  sm_phase :: mission_phase
  debounce_pre_float :: int
  debounce_float :: int
  debounce_descent :: int
  debounce_landed :: int

definition new_state_manager :: "transition_config \<Rightarrow> state_manager" where
  "new_state_manager cfg =
     \<lparr>sm_transition = cfg, sm_phase = Boot, debounce_pre_float = 0, debounce_float = 0,
      debounce_descent = 0, debounce_landed = 0\<rparr>"

definition reset_debounce :: "state_manager \<Rightarrow> state_manager" where
  "reset_debounce s =
     s\<lparr>debounce_pre_float := 0, debounce_float := 0, debounce_descent := 0, debounce_landed := 0\<rparr>"

definition sm_reset :: "state_manager \<Rightarrow> state_manager" where
  "sm_reset s = reset_debounce (s\<lparr>sm_phase := Boot\<rparr>)"

definition sm_set_phase :: "mission_phase \<Rightarrow> state_manager \<Rightarrow> state_manager" where
  "sm_set_phase p s = reset_debounce (s\<lparr>sm_phase := p\<rparr>)"

definition required_samples :: "state_manager \<Rightarrow> int" where
  "required_samples s = max 1 (debounce_samples (sm_transition s))"

text \<open>The \<^verbatim>\<open>switch (phase_)\<close> of \<^verbatim>\<open>Update\<close>.\<close>

definition sm_track :: "dbl \<Rightarrow> state_manager \<Rightarrow> state_manager" where
  "sm_track p s =
     (let t = sm_transition s; required = required_samples s in
      case sm_phase s of
        Boot \<Rightarrow> s\<lparr>sm_phase := Ascent\<rparr>
      | Ascent \<Rightarrow>
          if p \<le> pre_float_mbar t then
            (let n = debounce_pre_float s + 1 in
             if n \<ge> required then s\<lparr>sm_phase := PreFloat, debounce_pre_float := 0\<rparr>
             else s\<lparr>debounce_pre_float := n\<rparr>)
          else s\<lparr>debounce_pre_float := 0\<rparr>
      | PreFloat \<Rightarrow>
          if float_to_descent_mbar t \<le> p then
            (let n = debounce_descent s + 1 in
             if n \<ge> required
             then s\<lparr>sm_phase := Descent, debounce_descent := 0, debounce_float := 0\<rparr>
             else s\<lparr>debounce_descent := n\<rparr>)
          else
            (let s = s\<lparr>debounce_descent := 0\<rparr> in
             if p \<le> ascent_to_float_mbar t then
               (let n = debounce_float s + 1 in
                if n \<ge> required then s\<lparr>sm_phase := Float, debounce_float := 0\<rparr>
                else s\<lparr>debounce_float := n\<rparr>)
             else s\<lparr>debounce_float := 0\<rparr>)
      | Float \<Rightarrow>
          if float_to_descent_mbar t \<le> p then
            (let n = debounce_descent s + 1 in
             if n \<ge> required then s\<lparr>sm_phase := Descent, debounce_descent := 0\<rparr>
             else s\<lparr>debounce_descent := n\<rparr>)
          else s\<lparr>debounce_descent := 0\<rparr>
      | Descent \<Rightarrow>
          if descent_to_landed_mbar t \<le> p then
            (let n = debounce_landed s + 1 in
             if n \<ge> required then s\<lparr>sm_phase := Landed, debounce_landed := 0\<rparr>
             else s\<lparr>debounce_landed := n\<rparr>)
          else s\<lparr>debounce_landed := 0\<rparr>
      | Landed \<Rightarrow> s
      | Stopped \<Rightarrow> s)"

definition sm_update :: "dbl \<Rightarrow> state_overrides \<Rightarrow> state_manager \<Rightarrow> state_manager" where
  "sm_update p ov s =
     (let s = (if reset_control ov then sm_reset s else s) in
      if shutdown_safe ov then s\<lparr>sm_phase := Stopped\<rparr>
      else if force_stop ov
      then s\<lparr>sm_phase := Descent, debounce_pre_float := 0, debounce_descent := 0\<rparr>
      else sm_track p
             (if force_start ov \<and> sm_phase s = Boot then s\<lparr>sm_phase := Ascent\<rparr> else s))"

lemmas sm_defs = sm_update_def sm_track_def sm_reset_def sm_set_phase_def reset_debounce_def
  required_samples_def Let_def

subsection \<open>The counters\<close>

text \<open>Between two calls no counter has reached the number of samples that commits it.\<close>

definition sm_inv :: "state_manager \<Rightarrow> bool" where
  "sm_inv s \<longleftrightarrow>
     (\<forall>c \<in> {debounce_pre_float s, debounce_float s, debounce_descent s, debounce_landed s}.
        0 \<le> c \<and> c < required_samples s)"

lemma required_pos: "1 \<le> required_samples s"
  by (simp add: required_samples_def)

lemma sm_inv_new [inv_intros]: "sm_inv (new_state_manager cfg)"
  by (simp add: sm_inv_def new_state_manager_def required_samples_def)

lemma sm_inv_set_phase [inv_intros]: "sm_inv s \<Longrightarrow> sm_inv (sm_set_phase p s)"
  by (auto simp: sm_inv_def sm_defs)

lemma sm_inv_reset [inv_intros]: "sm_inv s \<Longrightarrow> sm_inv (sm_reset s)"
  by (auto simp: sm_inv_def sm_defs)

lemma sm_inv_phase [inv_intros]: "sm_inv s \<Longrightarrow> sm_inv (s\<lparr>sm_phase := p\<rparr>)"
  by (auto simp: sm_inv_def sm_defs)

lemma sm_inv_track [inv_intros]: "sm_inv s \<Longrightarrow> sm_inv (sm_track p s)"
  by (cases "sm_phase s") (auto simp: sm_inv_def sm_track_def required_samples_def Let_def)

lemma sm_inv_update [inv_intros]: "sm_inv s \<Longrightarrow> sm_inv (sm_update p ov s)"
proof -
  assume inv: "sm_inv s"
  define s1 where "s1 = (if reset_control ov then sm_reset s else s)"
  have s1: "sm_inv s1" using inv by (simp add: s1_def sm_inv_reset)
  then have "sm_inv (s1\<lparr>sm_phase := Descent, debounce_pre_float := 0, debounce_descent := 0\<rparr>)"
    by (auto simp: sm_inv_def required_samples_def)
  then show ?thesis using s1
    by (simp add: sm_update_def Let_def s1_def [symmetric] sm_inv_phase sm_inv_track)
qed

lemma sm_transition_track [simp, frame_simps]: "sm_transition (sm_track p s) = sm_transition s"
  by (cases "sm_phase s") (simp_all add: sm_track_def Let_def)

lemma sm_transition_update [simp, frame_simps]:
  "sm_transition (sm_update p ov s) = sm_transition s"
  by (simp add: sm_update_def Let_def sm_reset_def reset_debounce_def)

lemma required_track [simp, frame_simps]: "required_samples (sm_track p s) = required_samples s"
  by (simp add: required_samples_def)

lemma required_update [simp, frame_simps]:
  "required_samples (sm_update p ov s) = required_samples s"
  by (simp add: required_samples_def)

lemma sm_update_plain: "sm_update p no_overrides s = sm_track p s"
  by (simp add: sm_update_def no_overrides_def)

subsection \<open>Phases never go backwards on their own\<close>

lemma sm_track_mono: "sm_phase s \<le> sm_phase (sm_track p s)"
  by (cases "sm_phase s") (simp_all add: sm_track_def Let_def less_eq_mission_phase_def)

fun sm_run :: "state_manager \<Rightarrow> dbl list \<Rightarrow> state_manager" where
  "sm_run s [] = s"
| "sm_run s (p # ps) = sm_run (sm_update p no_overrides s) ps"

lemma sm_run_mono: "sm_phase s \<le> sm_phase (sm_run s ps)"
proof (induction ps arbitrary: s)
  case (Cons p ps)
  have "sm_phase s \<le> sm_phase (sm_track p s)" by (rule sm_track_mono)
  also have "\<dots> \<le> sm_phase (sm_run (sm_track p s) ps)" by (rule Cons.IH)
  finally show ?case by (simp add: sm_update_plain)
qed simp

subsection \<open>Debouncing as an interface\<close>

text \<open>\<open>has_run n P xs\<close>: some \<open>n\<close> consecutive elements of \<open>xs\<close> satisfy \<open>P\<close>.\<close>

definition has_run :: "nat \<Rightarrow> ('a \<Rightarrow> bool) \<Rightarrow> 'a list \<Rightarrow> bool" where
  "has_run n P xs \<longleftrightarrow> (\<exists>i \<in> {..length xs}. i + n \<le> length xs \<and> list_all P (take n (drop i xs)))"

lemma has_run_prefix: "n \<le> length xs \<Longrightarrow> list_all P (take n xs) \<Longrightarrow> has_run n P xs"
  unfolding has_run_def by (rule bexI [of _ 0]) auto

text \<open>The same with \<open>c\<close> satisfying elements just before the list: what a counter sees.\<close>

fun run_pending :: "nat \<Rightarrow> ('a \<Rightarrow> bool) \<Rightarrow> nat \<Rightarrow> 'a list \<Rightarrow> bool" where
  "run_pending n P c [] = (n \<le> c)"
| "run_pending n P c (x # xs) = (n \<le> c \<or> run_pending n P (if P x then Suc c else 0) xs)"

lemma has_run_Cons:
  "has_run n P (x # xs) \<longleftrightarrow> (n \<le> Suc (length xs) \<and> list_all P (take n (x # xs))) \<or> has_run n P xs"
proof -
  have "has_run n P (x # xs) \<longleftrightarrow>
      (\<exists>i. i + n \<le> Suc (length xs) \<and> list_all P (take n (drop i (x # xs))))"
    by (auto simp: has_run_def)
  also have "\<dots> \<longleftrightarrow> (n \<le> Suc (length xs) \<and> list_all P (take n (x # xs)))
      \<or> (\<exists>i. Suc i + n \<le> Suc (length xs) \<and> list_all P (take n (drop (Suc i) (x # xs))))"
    by (metis add_0 drop_0 not0_implies_Suc)
  also have "\<dots> \<longleftrightarrow> (n \<le> Suc (length xs) \<and> list_all P (take n (x # xs))) \<or> has_run n P xs"
    by (auto simp: has_run_def)
  finally show ?thesis .
qed

lemma run_pending_iff:
  "run_pending n P c xs \<longleftrightarrow>
     n \<le> c \<or> (n - c \<le> length xs \<and> list_all P (take (n - c) xs)) \<or> has_run n P xs"
proof (induction xs arbitrary: c)
  case Nil
  then show ?case by (auto simp: has_run_def)
next
  case (Cons x xs)
  show ?case
  proof (cases "n \<le> c")
    case False
    then obtain k where k: "n - c = Suc k" "n - Suc c = k" by (cases "n - c") auto
    show ?thesis
    proof (cases "P x")
      case True
      have "list_all P (take n (x # xs)) \<Longrightarrow> list_all P (take k xs)"
        using k by (cases n) (auto simp: list_all_iff
            dest: set_take_subset_set_take [of "nat - c" "nat" for nat, THEN subsetD, rotated])
      then show ?thesis using True False k by (auto simp: Cons.IH has_run_Cons)
    next
      case False': False
      then have "\<not> list_all P (take n (x # xs))" using False by (cases n) auto
      then show ?thesis using False False' k
        by (auto simp: Cons.IH has_run_Cons intro: has_run_prefix)
    qed
  qed simp
qed

lemma run_pending_0: "0 < n \<Longrightarrow> run_pending n P 0 xs \<longleftrightarrow> has_run n P xs"
  by (auto simp: run_pending_iff has_run_def intro: bexI [of _ 0])

text \<open>The samples \<open>ps\<close> are processed without ever leaving \<open>inside\<close>.\<close>

fun stays :: "('p \<Rightarrow> 's \<Rightarrow> 's) \<Rightarrow> ('s \<Rightarrow> bool) \<Rightarrow> 's \<Rightarrow> 'p list \<Rightarrow> bool" where
  "stays step inside s [] = inside s"
| "stays step inside s (p # ps) = (inside s \<and> stays step inside (step p s) ps)"

text \<open>
  A phase left by a debounced counter: \<open>count\<close> consecutive samples satisfied \<open>out\<close>, and the
  phase is left when the count reaches \<open>req\<close>.
\<close>

locale debounced_exit =
  fixes step :: "'p \<Rightarrow> 's \<Rightarrow> 's" and inside :: "'s \<Rightarrow> bool" and count :: "'s \<Rightarrow> int"
    and req :: "'s \<Rightarrow> int" and out :: "'s \<Rightarrow> 'p \<Rightarrow> bool"
  assumes hit_more: "inside s \<Longrightarrow> out s p \<Longrightarrow> count s + 1 < req s \<Longrightarrow>
      inside (step p s) \<and> count (step p s) = count s + 1"
    and hit_last: "inside s \<Longrightarrow> out s p \<Longrightarrow> req s \<le> count s + 1 \<Longrightarrow> \<not> inside (step p s)"
    and miss: "inside s \<Longrightarrow> \<not> out s p \<Longrightarrow> inside (step p s) \<and> count (step p s) = 0"
    and req_step: "req (step p s) = req s"
    and out_step: "out (step p s) = out s"
begin

lemma stays_iff_pending:
  "inside s \<Longrightarrow> 0 \<le> count s \<Longrightarrow> count s < req s \<Longrightarrow>
   stays step inside s ps \<longleftrightarrow> \<not> run_pending (nat (req s)) (out s) (nat (count s)) ps"
proof (induction ps arbitrary: s)
  case Nil
  then show ?case by simp
next
  case (Cons p ps)
  have lt: "\<not> nat (req s) \<le> nat (count s)" using Cons.prems by simp
  consider "out s p" "count s + 1 < req s" | "out s p" "req s \<le> count s + 1" | "\<not> out s p"
    by linarith
  then show ?case
  proof cases
    case 1
    with Cons.prems hit_more [of s p] have *: "inside (step p s)" "count (step p s) = count s + 1"
      by auto
    have "stays step inside (step p s) ps \<longleftrightarrow>
        \<not> run_pending (nat (req s)) (out s) (nat (count s + 1)) ps"
      using Cons.IH [of "step p s"] Cons.prems 1 * by (simp add: req_step out_step)
    then show ?thesis using Cons.prems 1 lt by (simp add: nat_add_distrib)
  next
    case 2
    with Cons.prems have "\<not> inside (step p s)" by (simp add: hit_last)
    then have "\<not> stays step inside (step p s) ps" by (cases ps) auto
    moreover have "run_pending (nat (req s)) (out s) (Suc (nat (count s))) ps"
    proof -
      have "nat (req s) \<le> Suc (nat (count s))" using 2 Cons.prems by linarith
      then show ?thesis by (cases ps) auto
    qed
    ultimately show ?thesis using 2 by simp
  next
    case 3
    with Cons.prems miss [of s p] have *: "inside (step p s)" "count (step p s) = 0" by auto
    have "stays step inside (step p s) ps \<longleftrightarrow> \<not> run_pending (nat (req s)) (out s) 0 ps"
      using Cons.IH [of "step p s"] Cons.prems 3 * by (simp add: req_step out_step)
    then show ?thesis using Cons.prems 3 lt by simp
  qed
qed

lemma stays_iff_no_run:
  "inside s \<Longrightarrow> count s = 0 \<Longrightarrow> 0 < req s \<Longrightarrow>
   stays step inside s ps \<longleftrightarrow> \<not> has_run (nat (req s)) (out s) ps"
  using stays_iff_pending [of s ps] run_pending_0 [of "nat (req s)" "out s" ps] by simp

end

lemma sm_track_Ascent:
  "sm_phase s = Ascent \<Longrightarrow> sm_track p s =
     (if p \<le> pre_float_mbar (sm_transition s) then
        (if debounce_pre_float s + 1 \<ge> required_samples s
         then s\<lparr>sm_phase := PreFloat, debounce_pre_float := 0\<rparr>
         else s\<lparr>debounce_pre_float := debounce_pre_float s + 1\<rparr>)
      else s\<lparr>debounce_pre_float := 0\<rparr>)"
  by (simp add: sm_track_def Let_def)

lemma sm_track_Float:
  "sm_phase s = Float \<Longrightarrow> sm_track p s =
     (if float_to_descent_mbar (sm_transition s) \<le> p then
        (if debounce_descent s + 1 \<ge> required_samples s
         then s\<lparr>sm_phase := Descent, debounce_descent := 0\<rparr>
         else s\<lparr>debounce_descent := debounce_descent s + 1\<rparr>)
      else s\<lparr>debounce_descent := 0\<rparr>)"
  by (simp add: sm_track_def Let_def)

lemma sm_track_Descent:
  "sm_phase s = Descent \<Longrightarrow> sm_track p s =
     (if descent_to_landed_mbar (sm_transition s) \<le> p then
        (if debounce_landed s + 1 \<ge> required_samples s
         then s\<lparr>sm_phase := Landed, debounce_landed := 0\<rparr>
         else s\<lparr>debounce_landed := debounce_landed s + 1\<rparr>)
      else s\<lparr>debounce_landed := 0\<rparr>)"
  by (simp add: sm_track_def Let_def)

abbreviation sm_step :: "dbl \<Rightarrow> state_manager \<Rightarrow> state_manager" where
  "sm_step p s \<equiv> sm_update p no_overrides s"

interpretation ascent: debounced_exit sm_step "\<lambda>s. sm_phase s = Ascent" debounce_pre_float
    required_samples "\<lambda>s p. p \<le> pre_float_mbar (sm_transition s)"
  by unfold_locales
    (auto simp: sm_update_plain sm_track_Ascent required_track)

interpretation float: debounced_exit sm_step "\<lambda>s. sm_phase s = Float" debounce_descent
    required_samples "\<lambda>s p. float_to_descent_mbar (sm_transition s) \<le> p"
  by unfold_locales
    (auto simp: sm_update_plain sm_track_Float required_track)

interpretation descent: debounced_exit sm_step "\<lambda>s. sm_phase s = Descent" debounce_landed
    required_samples "\<lambda>s p. descent_to_landed_mbar (sm_transition s) \<le> p"
  by unfold_locales
    (auto simp: sm_update_plain sm_track_Descent required_track)

text \<open>Phases only move forward, so being in a phase at the end is having stayed in it.\<close>

lemma stays_iff_run:
  "sm_phase s = ph \<Longrightarrow> stays sm_step (\<lambda>s. sm_phase s = ph) s ps \<longleftrightarrow> sm_phase (sm_run s ps) = ph"
proof (induction ps arbitrary: s)
  case (Cons p ps)
  show ?case
  proof (cases "sm_phase (sm_step p s) = ph")
    case True
    with Cons show ?thesis by simp
  next
    case False
    have "ph \<le> sm_phase (sm_step p s)" using Cons.prems sm_track_mono [of s p]
      by (simp add: sm_update_plain)
    with False have "ph < sm_phase (sm_step p s)" by simp
    also have "\<dots> \<le> sm_phase (sm_run (sm_step p s) ps)" by (rule sm_run_mono)
    finally have "sm_phase (sm_run (sm_step p s) ps) \<noteq> ph" by simp
    moreover have "\<not> stays sm_step (\<lambda>s. sm_phase s = ph) (sm_step p s) ps"
      using False by (cases ps) auto
    ultimately show ?thesis using Cons.prems by simp
  qed
qed simp

subsection \<open>The flight profile as a specification\<close>

text \<open>One step of the flight profile at pressure \<open>p\<close>: the phase graph with its guards.\<close>

inductive flight_profile :: "transition_config \<Rightarrow> dbl \<Rightarrow> mission_phase \<Rightarrow> mission_phase \<Rightarrow> bool"
  for t p where
  stay: "ph \<noteq> Boot \<Longrightarrow> flight_profile t p ph ph"
| launch: "flight_profile t p Boot Ascent"
| approach: "p \<le> pre_float_mbar t \<Longrightarrow> flight_profile t p Ascent PreFloat"
| float: "p \<le> ascent_to_float_mbar t \<Longrightarrow> flight_profile t p PreFloat Float"
| cut_early: "float_to_descent_mbar t \<le> p \<Longrightarrow> flight_profile t p PreFloat Descent"
| cut: "float_to_descent_mbar t \<le> p \<Longrightarrow> flight_profile t p Float Descent"
| land: "descent_to_landed_mbar t \<le> p \<Longrightarrow> flight_profile t p Descent Landed"

inductive_cases flight_profile_fromE: "flight_profile t p ph ph'"

inductive_simps flight_profile_Landed: "flight_profile t p Landed ph"
inductive_simps flight_profile_Stopped: "flight_profile t p Stopped ph"

lemma sm_track_profile: "flight_profile (sm_transition s) p (sm_phase s) (sm_phase (sm_track p s))"
  by (cases "sm_phase s") (auto simp: sm_track_def Let_def intro: flight_profile.intros)

subsection \<open>Properties\<close>


lemma sm_run_final: "sm_phase s \<in> {Landed, Stopped} \<Longrightarrow> sm_phase (sm_run s ps) = sm_phase s"
  by (induction ps arbitrary: s) (auto simp: sm_update_plain sm_track_def Let_def)

lemma sm_inv_run [inv_intros]: "sm_inv s \<Longrightarrow> sm_inv (sm_run s ps)"
  by (induction ps arbitrary: s) (auto intro: inv_intros)

text \<open>C15. Refinement of the flight profile. Every update without an override is a step of the
  phase graph whose pressure guard holds for this very sample; phases never go backwards on
  their own, LANDED and STOPPED are final, and from boot on the debounce counters stay below
  the number of samples that commits a transition.\<close>

theorem tracker_refines_flight_profile:
  "flight_profile (sm_transition s) p (sm_phase s) (sm_phase (sm_update p no_overrides s))
   \<and> sm_phase s \<le> sm_phase (sm_run s ps)
   \<and> sm_phase (sm_run (sm_set_phase Landed s) ps) = Landed
   \<and> sm_phase (sm_run (sm_set_phase Stopped s) ps) = Stopped
   \<and> sm_inv (sm_run (new_state_manager cfg) ps)"
  using sm_track_profile [of s p] sm_run_mono [of s ps] sm_run_final [of "sm_set_phase Landed s" ps]
    sm_run_final [of "sm_set_phase Stopped s" ps] sm_inv_run [OF sm_inv_new, of cfg ps]
  by (simp add: sm_update_plain sm_set_phase_def reset_debounce_def)

end
