(* ===== verification/MotionLock.thy ===== *)
theory MotionLock
  imports Prelude
begin

text \<open>
  The motion lock (\<^verbatim>\<open>motion_lock.cpp\<close>): at most one motor moves at a time, and the heaters
  are off while one does.  The state is the holder's id, \<open>- 1\<close> when the lock is free.  Every
  method runs under the object's mutex, so a call is one step.
\<close>

record motion_lock =
  ml_holder :: int

definition new_motion_lock :: motion_lock where
  "new_motion_lock = \<lparr>ml_holder = - 1\<rparr>"

definition try_acquire :: "int \<Rightarrow> motion_lock \<Rightarrow> bool \<times> motion_lock" where
  "try_acquire motor_id l =
     (if ml_holder l \<noteq> - 1 then (False, l) else (True, l\<lparr>ml_holder := motor_id\<rparr>))"

definition release :: "int \<Rightarrow> motion_lock \<Rightarrow> motion_lock" where
  "release motor_id l = (if ml_holder l = motor_id then l\<lparr>ml_holder := - 1\<rparr> else l)"

definition lock_holder :: "motion_lock \<Rightarrow> int" where
  "lock_holder l = ml_holder l"

definition lock_active :: "motion_lock \<Rightarrow> bool" where
  "lock_active l \<longleftrightarrow> ml_holder l \<noteq> - 1"

subsection \<open>The lock as an interface\<close>

datatype lock_op = TryAcquire int | Release int

fun lock_apply :: "(int \<Rightarrow> 'l \<Rightarrow> bool \<times> 'l) \<Rightarrow> (int \<Rightarrow> 'l \<Rightarrow> 'l) \<Rightarrow> 'l \<Rightarrow> lock_op list \<Rightarrow> 'l" where
  "lock_apply acq rel l [] = l"
| "lock_apply acq rel l (TryAcquire m # ops) = lock_apply acq rel (snd (acq m l)) ops"
| "lock_apply acq rel l (Release m # ops) = lock_apply acq rel (rel m l) ops"

locale motion_mutex =
  fixes acq :: "int \<Rightarrow> 'l \<Rightarrow> bool \<times> 'l" and rel :: "int \<Rightarrow> 'l \<Rightarrow> 'l"
    and held_by :: "'l \<Rightarrow> int" and active :: "'l \<Rightarrow> bool"
  assumes acquire_free: "\<not> active l \<Longrightarrow> m \<noteq> - 1 \<Longrightarrow>
      fst (acq m l) \<and> held_by (snd (acq m l)) = m \<and> active (snd (acq m l))"
    and acquire_held: "active l \<Longrightarrow> acq m l = (False, l)"
    and release_holder: "held_by l = m \<Longrightarrow> \<not> active (rel m l)"
    and release_other: "held_by l \<noteq> m \<Longrightarrow> rel m l = l"
begin

text \<open>Only the holder ends its hold, whatever the others try.\<close>

lemma hold_stable:
  "active l \<Longrightarrow> held_by l = m \<Longrightarrow> Release m \<notin> set ops \<Longrightarrow> lock_apply acq rel l ops = l"
proof (induction ops)
  case (Cons x ops)
  then show ?case by (cases x) (auto simp: acquire_held release_other)
qed simp

lemma second_acquire_fails:
  "\<not> active l \<Longrightarrow> m \<noteq> - 1 \<Longrightarrow> Release m \<notin> set ops \<Longrightarrow>
   \<not> fst (acq n (lock_apply acq rel (snd (acq m l)) ops))"
  using acquire_free [of l m] hold_stable [of "snd (acq m l)" m ops] by (simp add: acquire_held)

end

interpretation ml: motion_mutex try_acquire release lock_holder lock_active
  by unfold_locales (auto simp: try_acquire_def release_def lock_holder_def lock_active_def)

lemma lock_active_iff: "lock_active l \<longleftrightarrow> lock_holder l \<noteq> - 1"
  by (simp add: lock_active_def lock_holder_def)

text \<open>C7. Mutual exclusion of motion. Once a motor took the free lock, every further attempt
  (its own included) fails and the holder stays the same, whatever sequence of attempts and of
  releases by other motors comes in between; its own release frees the lock.\<close>

theorem motion_lock_excludes:
  assumes "\<not> lock_active l" and "m \<noteq> - 1" and "Release m \<notin> set ops"
  shows "let l' = lock_apply try_acquire release (snd (try_acquire m l)) ops in
     fst (try_acquire m l) \<and> lock_holder l' = m \<and> \<not> fst (try_acquire n l')
     \<and> \<not> lock_active (release m l')"
  using ml.acquire_free [OF assms(1,2)] ml.second_acquire_fails [OF assms, of n]
    ml.hold_stable [of "snd (try_acquire m l)" m ops] assms(3)
    ml.release_holder [of "snd (try_acquire m l)" m]
  by (simp add: Let_def)

theorem motion_lock_excludes_witness:
  "let l' = lock_apply try_acquire release (snd (try_acquire 0 new_motion_lock))
       [TryAcquire 1, Release 1, TryAcquire 0] in
     fst (try_acquire 0 new_motion_lock) \<and> lock_holder l' = 0 \<and> \<not> fst (try_acquire 1 l')
     \<and> \<not> lock_active (release 0 l')"
  by (rule motion_lock_excludes) (simp_all add: lock_active_def new_motion_lock_def)

end
