(* ===== verification/HeaterScheduler.thy ===== *)
theory HeaterScheduler
  imports Config MotionLock "HOL-Library.Multiset"
begin

text \<open>
  The heater scheduler (\<^verbatim>\<open>heater_scheduler.cpp\<close>): from the duties the control loop asks for it
  makes the duties that are output, within the limit on simultaneously active heaters, the
  thermal power limit and the energy budget, and all zero while a motor holds the motion lock.

  \<open>std_sort\<close> is \<^verbatim>\<open>std::sort\<close> as libstdc++ runs it on at most 16 elements (an insertion sort
  that takes a new minimum straight to the front); there are six heaters.  The log messages
  and the scratch buffers, whose contents never outlive a call, are not modelled.
\<close>

subsection \<open>Sorting\<close>

text \<open>\<open>before a b\<close>: \<open>a\<close> goes before \<open>b\<close>.  The sorted part is held reversed while an element is
  moved towards its place from the right.\<close>

fun linear_insert :: "('a \<Rightarrow> 'a \<Rightarrow> bool) \<Rightarrow> 'a \<Rightarrow> 'a list \<Rightarrow> 'a list" where
  "linear_insert before v [] = [v]"
| "linear_insert before v (x # xs) =
     (if before v x then x # linear_insert before v xs else v # x # xs)"

definition insertion_step :: "('a \<Rightarrow> 'a \<Rightarrow> bool) \<Rightarrow> 'a list \<Rightarrow> 'a \<Rightarrow> 'a list" where
  "insertion_step before xs v =
     (if xs \<noteq> [] \<and> before v (hd xs) then v # xs else rev (linear_insert before v (rev xs)))"

definition std_sort :: "('a \<Rightarrow> 'a \<Rightarrow> bool) \<Rightarrow> 'a list \<Rightarrow> 'a list" where
  "std_sort before xs = foldl (insertion_step before) [] xs"

lemma mset_linear_insert [simp]: "mset (linear_insert before v xs) = add_mset v (mset xs)"
  by (induction xs) auto

lemma mset_insertion_step [simp]: "mset (insertion_step before xs v) = add_mset v (mset xs)"
  by (simp add: insertion_step_def)

lemma mset_std_sort [simp]: "mset (std_sort before xs) = mset xs"
proof -
  have "mset (foldl (insertion_step before) ys xs) = mset ys + mset xs" for ys
    by (induction xs arbitrary: ys) auto
  then show ?thesis by (simp add: std_sort_def)
qed

text \<open>With a strict weak order the result is sorted: no element goes before an earlier one.\<close>

definition ranks :: "('a \<Rightarrow> 'a \<Rightarrow> bool) \<Rightarrow> 'a set \<Rightarrow> bool" where
  "ranks before A \<longleftrightarrow>
     (\<forall>x\<in>A. \<forall>y\<in>A. before x y \<longrightarrow> \<not> before y x)
     \<and> (\<forall>x\<in>A. \<forall>y\<in>A. \<forall>z\<in>A. \<not> before x y \<longrightarrow> \<not> before y z \<longrightarrow> \<not> before x z)"

abbreviation in_order :: "('a \<Rightarrow> 'a \<Rightarrow> bool) \<Rightarrow> 'a list \<Rightarrow> bool" where
  "in_order before \<equiv> sorted_wrt (\<lambda>a b. \<not> before b a)"

lemma set_linear_insert [simp]: "set (linear_insert before v xs) = insert v (set xs)"
  by (induction xs) auto

lemma ranks_asym:
  "ranks before A \<Longrightarrow> x \<in> A \<Longrightarrow> y \<in> A \<Longrightarrow> before x y \<Longrightarrow> \<not> before y x"
  unfolding ranks_def by blast

lemma ranks_trans:
  "ranks before A \<Longrightarrow> x \<in> A \<Longrightarrow> y \<in> A \<Longrightarrow> z \<in> A \<Longrightarrow> \<not> before x y \<Longrightarrow> \<not> before y z \<Longrightarrow>
   \<not> before x z"
  unfolding ranks_def by blast

lemma ranks_subset: "ranks before A \<Longrightarrow> B \<subseteq> A \<Longrightarrow> ranks before B"
  unfolding ranks_def by blast

lemma linear_insert_order:
  "ranks before (insert v (set xs)) \<Longrightarrow> sorted_wrt (\<lambda>a b. \<not> before a b) xs \<Longrightarrow>
   sorted_wrt (\<lambda>a b. \<not> before a b) (linear_insert before v xs)"
proof (induction xs)
  case (Cons x xs)
  have r: "ranks before (insert v (set xs))" using Cons.prems(1) by (rule ranks_subset) auto
  have xs: "\<forall>y \<in> set xs. \<not> before x y" "sorted_wrt (\<lambda>a b. \<not> before a b) xs"
    using Cons.prems(2) by simp_all
  show ?case
  proof (cases "before v x")
    case True
    have "\<not> before x v" using ranks_asym [OF Cons.prems(1) _ _ True] by simp
    moreover have "sorted_wrt (\<lambda>a b. \<not> before a b) (linear_insert before v xs)"
      using r xs(2) by (rule Cons.IH)
    ultimately show ?thesis using True xs(1) by simp
  next
    case False
    have "\<forall>y \<in> set xs. \<not> before v y"
      using ranks_trans [OF Cons.prems(1), of v x] False xs(1) by simp
    then show ?thesis using False xs by simp
  qed
qed simp

lemma insertion_step_order:
  assumes r: "ranks before (insert v (set xs))" and s: "in_order before xs"
  shows "in_order before (insertion_step before xs v)"
proof (cases "xs \<noteq> [] \<and> before v (hd xs)")
  case True
  then obtain x ys where x: "xs = x # ys" "before v x" by (cases xs) auto
  have xv: "\<not> before x v" using ranks_asym [OF r _ _ x(2)] x(1) by simp
  have "\<not> before y v" if "y \<in> set ys" for y
    using ranks_trans [OF r, of y x v] s x(1) xv that by simp
  then have "in_order before (v # xs)" using s x(1) xv by simp
  then show ?thesis unfolding insertion_step_def if_P [OF True] .
next
  case False
  have "sorted_wrt (\<lambda>a b. \<not> before a b) (linear_insert before v (rev xs))"
    using r s by (intro linear_insert_order) (simp_all add: sorted_wrt_rev)
  then have "in_order before (rev (linear_insert before v (rev xs)))"
    by (simp add: sorted_wrt_rev)
  then show ?thesis unfolding insertion_step_def if_not_P [OF False] .
qed

lemma set_insertion_step [simp]: "set (insertion_step before xs v) = insert v (set xs)"
  by (auto simp: insertion_step_def)

lemma foldl_insertion_order:
  "ranks before (set ys \<union> set xs) \<Longrightarrow> in_order before ys \<Longrightarrow>
   in_order before (foldl (insertion_step before) ys xs)"
proof (induction xs arbitrary: ys)
  case (Cons x xs)
  have "ranks before (insert x (set ys))" using Cons.prems(1) by (rule ranks_subset) auto
  then have "in_order before (insertion_step before ys x)"
    using Cons.prems(2) by (rule insertion_step_order)
  moreover have "ranks before (set (insertion_step before ys x) \<union> set xs)"
    using Cons.prems(1) by (rule ranks_subset) auto
  ultimately show ?case using Cons.IH by simp
qed simp

lemma std_sort_order: "ranks before (set xs) \<Longrightarrow> in_order before (std_sort before xs)"
  using foldl_insertion_order [of before "[]" xs] by (simp add: std_sort_def)

subsection \<open>State and operations\<close>

record heater_scheduler =
  hs_power :: power_config
  hs_electronics_index :: nat
  energy_consumed_wh :: dbl
  hs_budget_exhausted :: bool
  hs_last_inhibited :: bool

definition new_heater_scheduler :: "power_config \<Rightarrow> nat \<Rightarrow> heater_scheduler" where
  "new_heater_scheduler pw idx =
     \<lparr>hs_power = pw, hs_electronics_index = idx, energy_consumed_wh = 0,
      hs_budget_exhausted = False, hs_last_inhibited = False\<rparr>"

definition hs_reset :: "heater_scheduler \<Rightarrow> heater_scheduler" where
  "hs_reset s = s\<lparr>energy_consumed_wh := 0, hs_budget_exhausted := False, hs_last_inhibited := False\<rparr>"

text \<open>The ranking: every heater with its score, the electronics box (if there is one) last
  when it is deprioritised.\<close>

definition heater_scores :: "nat \<Rightarrow> bool \<Rightarrow> dbl list \<Rightarrow> (nat \<times> dbl) list" where
  "heater_scores electronics deprioritize clamped =
     map (\<lambda>i. (i, if deprioritize \<and> electronics \<noteq> size_max \<and> i = electronics
                  then clamped ! i * to_dbl (1 / 10) else clamped ! i))
       [0..<length clamped]"

definition heater_ranking :: "nat \<Rightarrow> bool \<Rightarrow> dbl list \<Rightarrow> (nat \<times> dbl) list" where
  "heater_ranking electronics deprioritize clamped =
     std_sort (\<lambda>a b. snd b < snd a) (heater_scores electronics deprioritize clamped)"

text \<open>The loop over the ranking: the first \<open>max_active\<close> heaters with a positive duty get it.\<close>

fun grant_duties :: "nat \<Rightarrow> dbl list \<Rightarrow> (nat \<times> dbl) list \<Rightarrow> nat \<Rightarrow> dbl list \<Rightarrow> dbl list" where
  "grant_duties max_active clamped [] enabled scheduled = scheduled"
| "grant_duties max_active clamped (entry # rest) enabled scheduled =
     (if max_active \<le> enabled then scheduled
      else if clamped ! fst entry \<le> 0
      then grant_duties max_active clamped rest enabled scheduled
      else grant_duties max_active clamped rest (Suc enabled)
             (scheduled[fst entry := clamped ! fst entry]))"

definition thermal_power :: "power_config \<Rightarrow> dbl list \<Rightarrow> dbl" where
  "thermal_power pw duties = foldl (\<lambda>acc duty. acc + duty * heater_nominal_w pw) 0 duties"

text \<open>The proportional clamp to the thermal limit: the duties and the power they draw.\<close>

definition limit_power :: "power_config \<Rightarrow> dbl list \<Rightarrow> dbl list \<times> dbl" where
  "limit_power pw scheduled =
     (let tp = thermal_power pw scheduled in
      if max_thermal_w pw < tp \<and> to_dbl (1 / 1000000000) < tp
      then (let scale = max_thermal_w pw / tp
            in (map (\<lambda>duty. duty * scale) scheduled, max_thermal_w pw))
      else (scheduled, tp))"

definition hs_schedule ::
  "motion_lock option \<Rightarrow> dbl list \<Rightarrow> bool \<Rightarrow> dbl \<Rightarrow> heater_scheduler \<Rightarrow> dbl list \<times> heater_scheduler"
  where
  "hs_schedule lock requested deprioritize dt s =
     (let motion_active = (case lock of None \<Rightarrow> False | Some l \<Rightarrow> lock_active l);
          off = replicate (length requested) 0;
          pw = hs_power s in
      if motion_active then (off, s\<lparr>hs_last_inhibited := True\<rparr>)
      else
        (let s = s\<lparr>hs_last_inhibited := False\<rparr> in
         if hs_budget_exhausted s then (off, s)
         else
           (let clamped = map (\<lambda>v. std_clamp v 0 1) requested;
                ranked = heater_ranking (hs_electronics_index s) deprioritize clamped;
                granted = grant_duties (max_active_heaters pw) clamped ranked 0 off;
                (scheduled, tp) = limit_power pw granted
            in if 0 < energy_budget_wh pw \<and> 0 < dt then
                 (let consumed = energy_consumed_wh s + tp * (dt / Fin 3600);
                      s = s\<lparr>energy_consumed_wh := consumed\<rparr>
                  in if energy_budget_wh pw \<le> consumed
                     then (off, s\<lparr>hs_budget_exhausted := True\<rparr>)
                     else (scheduled, s))
               else (scheduled, s))))"

text \<open>The entry point without energy accounting.\<close>

definition hs_schedule_plain ::
  "motion_lock option \<Rightarrow> dbl list \<Rightarrow> bool \<Rightarrow> heater_scheduler \<Rightarrow> dbl list \<times> heater_scheduler" where
  "hs_schedule_plain lock requested deprioritize s = hs_schedule lock requested deprioritize 0 s"

subsection \<open>The duties that are granted\<close>

definition active_heaters :: "dbl list \<Rightarrow> nat" where
  "active_heaters ds = length (filter (\<lambda>d. 0 < d) ds)"

lemma active_heaters_off [simp]: "active_heaters (replicate n 0) = 0"
  by (simp add: active_heaters_def)

lemma active_heaters_update: "active_heaters (ds[i := x]) \<le> Suc (active_heaters ds)"
proof (induction ds arbitrary: i)
  case (Cons d ds)
  then show ?case by (cases i) (simp_all add: active_heaters_def)
qed (simp add: active_heaters_def)

lemma length_grant [simp]: "length (grant_duties m cl rk e sch) = length sch"
  by (induction m cl rk e sch rule: grant_duties.induct) auto

lemma grant_active:
  "active_heaters sch \<le> e \<Longrightarrow> e \<le> m \<Longrightarrow> active_heaters (grant_duties m cl rk e sch) \<le> m"
proof (induction m cl rk e sch rule: grant_duties.induct)
  case (2 m cl x rk e sch)
  have "active_heaters (sch[fst x := cl ! fst x]) \<le> Suc e"
    using active_heaters_update [of sch "fst x" "cl ! fst x"] 2 by linarith
  with 2 show ?case by auto
qed auto

lemma grant_unit:
  "list_all in_unit sch \<Longrightarrow> list_all in_unit cl \<Longrightarrow> \<forall>x \<in> set rk. fst x < length cl \<Longrightarrow>
   list_all in_unit (grant_duties m cl rk e sch)"
proof (induction m cl rk e sch rule: grant_duties.induct)
  case (2 m cl x rk e sch)
  have "in_unit (cl ! fst x)" using 2 by (auto simp: list_all_length)
  then have "list_all in_unit (sch[fst x := cl ! fst x])"
    using 2 by (auto simp: list_all_iff dest: set_update_subset_insert [THEN subsetD])
  with 2 show ?case by auto
qed auto

lemma heater_ranking_index: "x \<in> set (heater_ranking el dep cl) \<Longrightarrow> fst x < length cl"
proof -
  assume "x \<in> set (heater_ranking el dep cl)"
  then have "x \<in># mset (heater_scores el dep cl)" by (simp add: heater_ranking_def flip: set_mset_mset)
  then show ?thesis by (auto simp: heater_scores_def)
qed

lemma thermal_power_nonneg_fold:
  "Fin 0 \<le> acc \<Longrightarrow> Fin 0 \<le> w \<Longrightarrow> w \<noteq> PInf \<Longrightarrow> list_all in_unit ds \<Longrightarrow>
   Fin 0 \<le> foldl (\<lambda>acc d. acc + d * w) acc ds"
proof (induction ds arbitrary: acc)
  case (Cons d ds)
  obtain r where d: "d = Fin r" using Cons.prems by (auto simp: in_unit_iff)
  have "d * w \<noteq> NaN"
    using Cons.prems d b64.rnd_not_NaN by (cases w) (auto simp: times_dbl_def)
  then have "Fin 0 \<le> d * w"
    using dbl_mult_nonneg [of d w] Cons.prems by (auto simp: in_unit_def)
  then have "Fin 0 \<le> acc + d * w" using Cons.prems by (intro dbl_add_nonneg)
  with Cons show ?case by simp
qed simp

lemma thermal_power_nonneg:
  "Fin 0 \<le> heater_nominal_w pw \<Longrightarrow> heater_nominal_w pw \<noteq> PInf \<Longrightarrow> list_all in_unit ds \<Longrightarrow>
   Fin 0 \<le> thermal_power pw ds"
  unfolding thermal_power_def by (rule thermal_power_nonneg_fold) (simp_all add: zero_one_dbl)

lemma limit_power_unit:
  assumes "list_all in_unit ds" "Fin 0 \<le> max_thermal_w pw"
  shows "list_all in_unit (fst (limit_power pw ds))
    \<and> active_heaters (fst (limit_power pw ds)) \<le> active_heaters ds
    \<and> length (fst (limit_power pw ds)) = length ds"
proof (cases "max_thermal_w pw < thermal_power pw ds")
  case True
  define k where "k = max_thermal_w pw / thermal_power pw ds"
  have k: "in_unit k" using dbl_div_unit [OF assms(2) True] by (simp add: k_def)
  have u: "list_all in_unit (map (\<lambda>d. d * k) ds)"
    using assms(1) k by (auto simp: list_all_iff intro: in_unit_mult)
  have "0 < d" if "0 < d * k" "in_unit d" for d
    using that k by (auto simp: in_unit_iff zero_one_dbl times_dbl_def)
      (metis dbl_simps(1) le_less mult_zero_left to_dbl_0)
  then have "active_heaters (map (\<lambda>d. d * k) ds) \<le> active_heaters ds"
    using assms(1) by (induction ds) (auto simp: active_heaters_def)
  with u show ?thesis using assms(1) by (simp add: limit_power_def Let_def k_def)
next
  case False
  with assms(1) show ?thesis by (simp add: limit_power_def Let_def)
qed

text \<open>The loop picks the first heaters of the ranking that want power.\<close>

lemma grant_duties_eq:
  "grant_duties m cl rk e sch =
     foldl (\<lambda>s x. s[fst x := cl ! fst x]) sch
       (take (m - e) (filter (\<lambda>x. \<not> cl ! fst x \<le> 0) rk))"
proof (induction m cl rk e sch rule: grant_duties.induct)
  case (2 m cl x rk e sch)
  show ?case
  proof (cases "m \<le> e")
    case False
    then have "m - e = Suc (m - Suc e)" by simp
    with False 2 show ?thesis by auto
  qed simp
qed simp

lemma foldl_updates_nth:
  "i < length sch \<Longrightarrow>
   foldl (\<lambda>s x. s[fst x := cl ! fst x]) sch ps ! i = (if i \<in> fst ` set ps then cl ! i else sch ! i)"
  by (induction ps arbitrary: sch) (auto simp: nth_list_update)

lemma length_heater_scores [simp]: "length (heater_scores el dep cl) = length cl"
  by (simp add: heater_scores_def)

lemma fst_heater_scores [simp]: "i < length cl \<Longrightarrow> fst (heater_scores el dep cl ! i) = i"
  by (simp add: heater_scores_def)

lemma set_heater_ranking: "set (heater_ranking el dep cl) = set (heater_scores el dep cl)"
  unfolding heater_ranking_def by (rule mset_eq_setD) simp

lemma heater_ranking_order:
  assumes "list_all (\<lambda>d. d \<noteq> NaN) (map snd (heater_scores el dep cl))"
  shows "in_order (\<lambda>a b. snd b < snd a) (heater_ranking el dep cl)"
  unfolding heater_ranking_def
proof (rule std_sort_order, unfold ranks_def, intro conjI ballI impI)
  fix x y z :: "nat \<times> dbl"
  assume "x \<in> set (heater_scores el dep cl)" "y \<in> set (heater_scores el dep cl)"
    "z \<in> set (heater_scores el dep cl)"
  then have n: "snd x \<noteq> NaN" "snd y \<noteq> NaN" "snd z \<noteq> NaN" using assms by (auto simp: list_all_iff)
  show "\<not> snd z < snd x" if "\<not> snd y < snd x" "\<not> snd z < snd y"
    using that n dbl_le_trans [of "snd x" "snd y" "snd z"] by (simp add: dbl_not_less)
next
  fix x y :: "nat \<times> dbl"
  assume "snd y < snd x"
  then show "\<not> snd x < snd y" using dbl_less_imp_le dbl_le_imp_not_less by blast
qed

lemma heater_ranking_perm: "mset (map fst (heater_ranking el dep cl)) = mset [0..<length cl]"
proof -
  have "mset (map fst (heater_ranking el dep cl)) = image_mset fst (mset (heater_scores el dep cl))"
    by (simp add: heater_ranking_def)
  also have "\<dots> = mset (map fst (heater_scores el dep cl))" by simp
  also have "map fst (heater_scores el dep cl) = [0..<length cl]"
    by (simp add: heater_scores_def o_def)
  finally show ?thesis .
qed

lemma grant_priority:
  assumes nn: "list_all (\<lambda>d. d \<noteq> NaN) (map snd (heater_scores el dep cl))"
    and ij: "i < length cl" "j < length cl"
    and g: "grant_duties m cl (heater_ranking el dep cl) 0 (replicate (length cl) 0) = g"
    and gi: "0 < g ! i" and gj: "g ! j = 0" and cj: "0 < cl ! j"
  shows "snd (heater_scores el dep cl ! j) \<le> snd (heater_scores el dep cl ! i)"
proof -
  define rk where "rk = heater_ranking el dep cl"
  define wants where "wants = filter (\<lambda>x. \<not> cl ! fst x \<le> 0) rk"
  define sc where "sc = heater_scores el dep cl"
  have rk_sc: "set rk = set sc" by (simp add: rk_def sc_def set_heater_ranking)
  have rk_in: "x \<in> set rk \<Longrightarrow> x = sc ! fst x" for x
    unfolding rk_sc by (auto simp: sc_def in_set_conv_nth)
  have mem: "k < length cl \<Longrightarrow> sc ! k \<in> set rk \<and> fst (sc ! k) = k" for k
    unfolding rk_sc by (simp add: sc_def)
  have picks: "g ! k = (if k \<in> fst ` set (take m wants) then cl ! k else 0)"
    if "k < length cl" for k
    using foldl_updates_nth [of k "replicate (length cl) 0" cl "take m wants"] that
    by (simp add: g [symmetric] grant_duties_eq wants_def rk_def)
  obtain x where x: "x \<in> set (take m wants)" "fst x = i"
    using picks [OF ij(1)] gi by (auto split: if_splits)
  have "x \<in> set rk" using x(1) by (auto simp: wants_def dest: in_set_takeD)
  then have x_sc: "x = sc ! i" using rk_in [of x] x(2) by simp
  have "\<not> cl ! j \<le> 0" using cj dbl_le_imp_not_less by blast
  then have "sc ! j \<in> set wants" using mem [OF ij(2)] by (simp add: wants_def)
  moreover have "sc ! j \<notin> set (take m wants)"
    using picks [OF ij(2)] gj cj mem [OF ij(2)] by (metis dbl_less_irrefl image_eqI)
  ultimately have y: "sc ! j \<in> set (drop m wants)"
    by (metis UnE append_take_drop_id set_append)
  have "in_order (\<lambda>a b. snd b < snd a) wants"
    using heater_ranking_order [OF nn] by (simp add: wants_def rk_def sorted_wrt_filter)
  then have "in_order (\<lambda>a b. snd b < snd a) (take m wants @ drop m wants)" by simp
  then have "\<not> snd x < snd (sc ! j)" using x y unfolding sorted_wrt_append by blast
  moreover have "snd x \<noteq> NaN" "snd (sc ! j) \<noteq> NaN"
    using nn ij x_sc by (auto simp: sc_def list_all_length heater_scores_def)
  ultimately show ?thesis using x_sc by (simp add: dbl_not_less sc_def)
qed

subsection \<open>Energy accounting\<close>

lemma hs_schedule_free:
  "(case lock of None \<Rightarrow> False | Some l \<Rightarrow> lock_active l) = False \<Longrightarrow> hs_budget_exhausted s = False \<Longrightarrow>
   limit_power (hs_power s)
     (grant_duties (max_active_heaters (hs_power s)) (map (\<lambda>v. std_clamp v 0 1) requested)
       (heater_ranking (hs_electronics_index s) dep (map (\<lambda>v. std_clamp v 0 1) requested)) 0
       (replicate (length requested) 0)) = (scheduled, tp) \<Longrightarrow>
   hs_schedule lock requested dep dt s =
     (if 0 < energy_budget_wh (hs_power s) \<and> 0 < dt then
        (let consumed = energy_consumed_wh s + tp * (dt / Fin 3600) in
         if energy_budget_wh (hs_power s) \<le> consumed
         then (replicate (length requested) 0,
               s\<lparr>hs_last_inhibited := False, energy_consumed_wh := consumed,
                 hs_budget_exhausted := True\<rparr>)
         else (scheduled, s\<lparr>hs_last_inhibited := False, energy_consumed_wh := consumed\<rparr>))
      else (scheduled, s\<lparr>hs_last_inhibited := False\<rparr>))"
  by (simp add: hs_schedule_def Let_def)

lemma hs_schedule_exhausted:
  "hs_budget_exhausted s \<Longrightarrow>
   fst (hs_schedule lock requested dep dt s) = replicate (length requested) 0
   \<and> hs_budget_exhausted (snd (hs_schedule lock requested dep dt s))
   \<and> energy_consumed_wh (snd (hs_schedule lock requested dep dt s)) = energy_consumed_wh s"
  by (simp add: hs_schedule_def Let_def split: option.splits)

lemma hs_schedule_inhibited:
  "lock_active l \<Longrightarrow> hs_schedule (Some l) requested dep dt s =
     (replicate (length requested) 0, s\<lparr>hs_last_inhibited := True\<rparr>)"
  by (simp add: hs_schedule_def Let_def)

lemma hs_power_schedule [simp, frame_simps]:
  "hs_power (snd (hs_schedule lock requested dep dt s)) = hs_power s"
  by (simp add: hs_schedule_def Let_def split: prod.splits)

text \<open>The duties of one call, before the budget decides.\<close>

lemma hs_schedule_duties:
  assumes "list_all (\<lambda>d. d \<noteq> NaN) requested" "Fin 0 \<le> max_thermal_w (hs_power s)"
  shows "length (fst (hs_schedule lock requested dep dt s)) = length requested
    \<and> list_all in_unit (fst (hs_schedule lock requested dep dt s))
    \<and> active_heaters (fst (hs_schedule lock requested dep dt s)) \<le> max_active_heaters (hs_power s)"
proof -
  let ?cl = "map (\<lambda>v. std_clamp v 0 1) requested"
  let ?off = "replicate (length requested) (0::dbl)"
  define g where "g = grant_duties (max_active_heaters (hs_power s)) ?cl
    (heater_ranking (hs_electronics_index s) dep ?cl) 0 ?off"
  obtain scheduled tp where lp: "limit_power (hs_power s) g = (scheduled, tp)" by fastforce
  have cl: "list_all in_unit ?cl" using assms(1) by (auto simp: list_all_iff intro: in_unit_clamp)
  have off: "list_all in_unit ?off" by (simp add: list_all_iff)
  have "list_all in_unit g" unfolding g_def
    using off cl by (intro grant_unit) (auto dest!: heater_ranking_index)
  moreover have "active_heaters g \<le> max_active_heaters (hs_power s)" unfolding g_def
    by (rule grant_active) simp_all
  ultimately have sch: "list_all in_unit scheduled"
    "active_heaters scheduled \<le> max_active_heaters (hs_power s)"
    "length scheduled = length requested"
    using limit_power_unit [of g "hs_power s"] assms(2) lp by (simp_all add: g_def)
  show ?thesis
  proof (cases "(case lock of None \<Rightarrow> False | Some l \<Rightarrow> lock_active l) \<or> hs_budget_exhausted s")
    case True
    then show ?thesis using off hs_schedule_exhausted [of s lock requested dep dt]
      by (auto simp: hs_schedule_inhibited split: option.splits)
  next
    case False
    then have "hs_schedule lock requested dep dt s =
     (if 0 < energy_budget_wh (hs_power s) \<and> 0 < dt then
        (let consumed = energy_consumed_wh s + tp * (dt / Fin 3600) in
         if energy_budget_wh (hs_power s) \<le> consumed
         then (?off, s\<lparr>hs_last_inhibited := False, energy_consumed_wh := consumed,
                 hs_budget_exhausted := True\<rparr>)
         else (scheduled, s\<lparr>hs_last_inhibited := False, energy_consumed_wh := consumed\<rparr>))
      else (scheduled, s\<lparr>hs_last_inhibited := False\<rparr>))"
      using lp by (intro hs_schedule_free) (simp_all add: g_def)
    then show ?thesis using sch off by (simp add: Let_def)
  qed
qed

text \<open>A run of the scheduler over successive ticks.\<close>

record hs_input =
  in_lock :: "motion_lock option"
  in_requested :: "dbl list"
  in_deprioritize :: bool
  in_dt :: dbl

fun hs_run :: "heater_scheduler \<Rightarrow> hs_input list \<Rightarrow> dbl list list \<times> heater_scheduler" where
  "hs_run s [] = ([], s)"
| "hs_run s (x # xs) =
     (let (out, s1) = hs_schedule (in_lock x) (in_requested x) (in_deprioritize x) (in_dt x) s;
          (outs, s2) = hs_run s1 xs
      in (out # outs, s2))"

text \<open>A tick's input: real requests, and a finite tick length whose hours do not round to zero.\<close>

definition hs_input_ok :: "hs_input \<Rightarrow> bool" where
  "hs_input_ok x \<longleftrightarrow> list_all (\<lambda>d. d \<noteq> NaN) (in_requested x)
     \<and> (0 < in_dt x \<longrightarrow> 0 < in_dt x / Fin 3600 \<and> in_dt x / Fin 3600 \<noteq> PInf)"

definition power_ok :: "power_config \<Rightarrow> bool" where
  "power_ok pw \<longleftrightarrow> Fin 0 \<le> max_thermal_w pw \<and> Fin 0 \<le> heater_nominal_w pw
     \<and> heater_nominal_w pw \<noteq> PInf"

definition hs_inv :: "heater_scheduler \<Rightarrow> bool" where
  "hs_inv s \<longleftrightarrow> power_ok (hs_power s) \<and> Fin 0 \<le> energy_consumed_wh s \<and> is_dbl (energy_consumed_wh s)
     \<and> (hs_budget_exhausted s \<longleftrightarrow>
          0 < energy_budget_wh (hs_power s) \<and> energy_budget_wh (hs_power s) \<le> energy_consumed_wh s)"

lemma hs_inv_new: "power_ok pw \<Longrightarrow> hs_inv (new_heater_scheduler pw idx)"
  using dbl_le_imp_not_less by (auto simp: hs_inv_def new_heater_scheduler_def zero_one_dbl)

lemma limit_power_nonneg:
  assumes "power_ok pw" "list_all in_unit ds"
  shows "Fin 0 \<le> snd (limit_power pw ds)"
  using assms thermal_power_nonneg [of pw ds] by (simp add: power_ok_def limit_power_def Let_def)

lemma hs_inv_step:
  assumes inv: "hs_inv s" and ok: "hs_input_ok x"
    and step: "hs_schedule (in_lock x) (in_requested x) (in_deprioritize x) (in_dt x) s = (out, s')"
  shows "hs_inv s' \<and> energy_consumed_wh s \<le> energy_consumed_wh s'"
proof (cases "(case in_lock x of None \<Rightarrow> False | Some l \<Rightarrow> lock_active l) \<or> hs_budget_exhausted s")
  case True
  have "energy_consumed_wh s \<noteq> NaN" using inv by (auto simp: hs_inv_def)
  with True show ?thesis using inv step
    by (auto simp: hs_schedule_def hs_inv_def Let_def split: if_splits)
next
  case False
  let ?cl = "map (\<lambda>v. std_clamp v 0 1) (in_requested x)"
  define g where "g = grant_duties (max_active_heaters (hs_power s)) ?cl
    (heater_ranking (hs_electronics_index s) (in_deprioritize x) ?cl) 0
    (replicate (length (in_requested x)) 0)"
  obtain scheduled tp where lp: "limit_power (hs_power s) g = (scheduled, tp)" by fastforce
  have "list_all in_unit g" unfolding g_def using ok
    by (intro grant_unit)
      (auto simp: hs_input_ok_def list_all_iff intro: in_unit_clamp dest!: heater_ranking_index)
  then have tp: "Fin 0 \<le> tp" using limit_power_nonneg [of "hs_power s" g] inv lp
    by (simp add: hs_inv_def)
  define c where "c = energy_consumed_wh s + tp * (in_dt x / Fin 3600)"
  have up: "energy_consumed_wh s \<le> c" if "0 < in_dt x"
    unfolding c_def using inv ok that tp
    by (intro dbl_add_increases) (auto simp: hs_inv_def hs_input_ok_def intro: dbl_mult_pos_nonneg)
  have c0: "Fin 0 \<le> c" if "0 < in_dt x"
    using up [OF that] inv dbl_le_trans by (auto simp: hs_inv_def)
  have same: "energy_consumed_wh s \<le> energy_consumed_wh s" using inv by (auto simp: hs_inv_def)
  have "hs_schedule (in_lock x) (in_requested x) (in_deprioritize x) (in_dt x) s =
     (if 0 < energy_budget_wh (hs_power s) \<and> 0 < in_dt x then
        (let consumed = c in
         if energy_budget_wh (hs_power s) \<le> consumed
         then (replicate (length (in_requested x)) 0,
               s\<lparr>hs_last_inhibited := False, energy_consumed_wh := consumed,
                 hs_budget_exhausted := True\<rparr>)
         else (scheduled, s\<lparr>hs_last_inhibited := False, energy_consumed_wh := consumed\<rparr>))
      else (scheduled, s\<lparr>hs_last_inhibited := False\<rparr>))"
    unfolding c_def using False lp by (intro hs_schedule_free) (simp_all add: g_def)
  then show ?thesis using inv step up c0 same False
    by (auto simp: hs_inv_def Let_def c_def split: if_splits)
qed

lemma hs_inv_run:
  "hs_inv s \<Longrightarrow> list_all hs_input_ok xs \<Longrightarrow>
   hs_inv (snd (hs_run s xs)) \<and> energy_consumed_wh s \<le> energy_consumed_wh (snd (hs_run s xs))"
proof (induction xs arbitrary: s)
  case Nil
  then show ?case by (auto simp: hs_inv_def)
next
  case (Cons x xs)
  obtain out s1 where s1: "hs_schedule (in_lock x) (in_requested x) (in_deprioritize x) (in_dt x) s
    = (out, s1)" by fastforce
  with Cons.prems hs_inv_step [of s x out s1] have "hs_inv s1" and
    up: "energy_consumed_wh s \<le> energy_consumed_wh s1" by auto
  with Cons.IH [of s1] Cons.prems(2) have "hs_inv (snd (hs_run s1 xs))"
    "energy_consumed_wh s1 \<le> energy_consumed_wh (snd (hs_run s1 xs))" by auto
  with up s1 show ?case by (auto intro: dbl_le_trans simp: split_beta)
qed

lemma hs_run_exhausted:
  "hs_budget_exhausted s \<Longrightarrow>
   fst (hs_run s xs) = map (\<lambda>x. replicate (length (in_requested x)) 0) xs
   \<and> hs_budget_exhausted (snd (hs_run s xs))
   \<and> energy_consumed_wh (snd (hs_run s xs)) = energy_consumed_wh s"
proof (induction xs arbitrary: s)
  case (Cons x xs)
  have "fst (hs_schedule (in_lock x) (in_requested x) (in_deprioritize x) (in_dt x) s) =
      replicate (length (in_requested x)) 0
    \<and> hs_budget_exhausted (snd (hs_schedule (in_lock x) (in_requested x) (in_deprioritize x) (in_dt x) s))
    \<and> energy_consumed_wh (snd (hs_schedule (in_lock x) (in_requested x) (in_deprioritize x) (in_dt x) s))
      = energy_consumed_wh s"
    by (rule hs_schedule_exhausted [OF Cons.prems])
  with Cons.IH show ?case by (simp add: split_beta)
qed simp

subsection \<open>The thermal power that is drawn\<close>

lemma thermal_power_bound_fold:
  assumes "list_all in_unit ds" "Fin 0 \<le> acc" "acc \<le> Fin (of_int (k * w))" "0 \<le> k" "0 \<le> w"
    "(k + int (active_heaters ds)) * w \<le> 2 ^ 53"
  shows "foldl (\<lambda>acc d. acc + d * Fin (of_int w)) acc ds
    \<le> Fin (of_int ((k + int (active_heaters ds)) * w))"
  using assms
proof (induction ds arbitrary: acc k)
  case (Cons d ds)
  obtain r where r: "d = Fin r" "0 \<le> r" "r \<le> 1" using Cons.prems by (auto simp: in_unit_iff)
  obtain a where a: "acc = Fin a" "0 \<le> a" "a \<le> of_int (k * w)"
    using Cons.prems by (cases acc) auto
  define j where "j = (if 0 < d then k + 1 else k)"
  have j: "k + int (active_heaters (d # ds)) = j + int (active_heaters ds)" "0 \<le> j"
    using Cons.prems by (simp_all add: j_def active_heaters_def)
  have "j * w \<le> (j + int (active_heaters ds)) * w" using Cons.prems by (simp add: mult_right_mono)
  then have jw: "0 \<le> j * w" "j * w \<le> 2 ^ 53" using Cons.prems j by auto
  have "0 \<le> w" using Cons.prems by simp
  have "w \<le> 2 ^ 53" if "0 < d"
  proof -
    have "w \<le> j * w" using that Cons.prems by (simp add: j_def mult_le_cancel_right1)
    with jw show ?thesis by simp
  qed
  have dw: "Fin 0 \<le> d * Fin (of_int w)" "d * Fin (of_int w) \<le> Fin (of_int ((j - k) * w))"
  proof -
    show "Fin 0 \<le> d * Fin (of_int w)" using r \<open>0 \<le> w\<close> by (simp add: times_dbl_def b64.rnd_nonneg)
    show "d * Fin (of_int w) \<le> Fin (of_int ((j - k) * w))"
    proof (cases "0 < d")
      case True
      have "r * of_int w \<le> of_int w" using r \<open>0 \<le> w\<close> by (simp add: mult_left_le_one_le)
      then have "to_dbl (r * of_int w) \<le> to_dbl (of_int w)" by (rule to_dbl_mono)
      also have "\<dots> = Fin (of_int w)" using \<open>0 < d \<Longrightarrow> w \<le> 2 ^ 53\<close> True \<open>0 \<le> w\<close>
        by (intro to_dbl_int) simp
      finally show ?thesis using True r by (simp add: j_def times_dbl_def)
    next
      case False
      then have "r = 0" using r by (simp add: zero_one_dbl)
      then show ?thesis using r False by (simp add: j_def times_dbl_def)
    qed
  qed
  then obtain p where p: "d * Fin (of_int w) = Fin p" "0 \<le> p" "p \<le> of_int ((j - k) * w)"
    by (cases "d * Fin (of_int w)") auto
  have "a + p \<le> of_int (j * w)" using a p by (simp add: algebra_simps)
  then have "to_dbl (a + p) \<le> to_dbl (of_int (j * w))" by (rule to_dbl_mono)
  also have "\<dots> = Fin (of_int (j * w))" using jw by (intro to_dbl_int) simp
  finally have "acc + d * Fin (of_int w) \<le> Fin (of_int (j * w))" using a p by (simp add: plus_dbl_def)
  moreover have "Fin 0 \<le> acc + d * Fin (of_int w)" using a p
    by (simp add: plus_dbl_def b64.rnd_nonneg)
  ultimately show ?case using Cons.IH [of "acc + d * Fin (of_int w)" j] Cons.prems j by simp
qed (simp add: active_heaters_def)

lemma thermal_power_bound:
  assumes "list_all in_unit ds" "heater_nominal_w pw = Fin (of_int w)" "0 \<le> w"
    "int (active_heaters ds) * w \<le> 2 ^ 53"
  shows "thermal_power pw ds \<le> Fin (of_int (int (active_heaters ds) * w))"
  using thermal_power_bound_fold [of ds 0 0 w] assms
  by (simp add: thermal_power_def zero_one_dbl)

subsection \<open>Properties\<close>



text \<open>The power budget of the flight: when the heaters that may be on together draw no more
  than the thermal limit at full duty (3 of 5 W under 15 W), the output never draws more than
  the limit, rounding of the sum included.\<close>

theorem schedule_power_within_limit:
  assumes "list_all (\<lambda>d. d \<noteq> NaN) requested"
    and "heater_nominal_w (hs_power s) = Fin (of_int w)" and "0 \<le> w"
    and "max_thermal_w (hs_power s) = Fin (of_int m)" and "m \<le> 2 ^ 53"
    and "int (max_active_heaters (hs_power s)) * w \<le> m"
  shows "thermal_power (hs_power s) (fst (hs_schedule lock requested deprioritize dt s))
     \<le> max_thermal_w (hs_power s)"
proof -
  let ?out = "fst (hs_schedule lock requested deprioritize dt s)"
  have "0 \<le> int (max_active_heaters (hs_power s)) * w" using assms(3) by simp
  then have "Fin 0 \<le> max_thermal_w (hs_power s)" using assms(4,6) by simp
  then have out: "list_all in_unit ?out" "active_heaters ?out \<le> max_active_heaters (hs_power s)"
    using hs_schedule_duties [OF assms(1)] by auto
  then have le: "int (active_heaters ?out) * w \<le> m"
    using assms(3,6) by (smt (verit) mult_right_mono of_nat_mono)
  then have "thermal_power (hs_power s) ?out \<le> Fin (of_int (int (active_heaters ?out) * w))"
    using thermal_power_bound [OF out(1) assms(2,3)] assms(5) by linarith
  also have "\<dots> \<le> Fin (of_int m)" using le by (simp only: dbl_simps of_int_le_iff)
  finally show ?thesis by (simp add: assms(4))
qed

theorem schedule_power_within_limit_witness:
  "thermal_power (hs_power (new_heater_scheduler power_default size_max))
     (fst (hs_schedule None [Fin 1, Fin 1, Fin (1 / 2), Fin 1] True (Fin 1)
        (new_heater_scheduler power_default size_max)))
   \<le> max_thermal_w (hs_power (new_heater_scheduler power_default size_max))"
  by (rule schedule_power_within_limit [where w = 5 and m = 15])
    (simp_all add: new_heater_scheduler_def power_default_def)

text \<open>The heaters that get power are the ones that ask for most: no heater with a positive
  request is left out in favour of one with a lower score, the score being the clamped request
  (a tenth of it for a deprioritised electronics heater).\<close>

theorem granted_heaters_rank_highest:
  assumes "list_all (\<lambda>d. d \<noteq> NaN) (map snd (heater_scores electronics deprioritize clamped))"
    and "i < length clamped" and "j < length clamped" and "0 < clamped ! j"
    and "0 < grant_duties m clamped (heater_ranking electronics deprioritize clamped) 0
           (replicate (length clamped) 0) ! i"
    and "grant_duties m clamped (heater_ranking electronics deprioritize clamped) 0
           (replicate (length clamped) 0) ! j = 0"
  shows "snd (heater_scores electronics deprioritize clamped ! j)
     \<le> snd (heater_scores electronics deprioritize clamped ! i)"
  by (rule grant_priority [OF assms(1-3) refl assms(5,6,4)])

theorem granted_heaters_rank_highest_witness:
  "snd (heater_scores size_max False [Fin (1 / 4), Fin 1] ! 0)
     \<le> snd (heater_scores size_max False [Fin (1 / 4), Fin 1] ! 1)"
  by (rule granted_heaters_rank_highest [where m = 1])
    (simp_all add: heater_scores_def heater_ranking_def std_sort_def insertion_step_def
      zero_one_dbl upt_rec numeral_2_eq_2)

text \<open>C6. The energy budget. Along any run of ticks from boot the accounted energy never
  decreases; the budget is exhausted exactly when it is enforced and the accounted energy has
  reached it; and from then on every output is all zero and nothing more is accounted.\<close>

theorem energy_budget_enforced:
  assumes "power_ok pw" and "list_all hs_input_ok xs" and "list_all hs_input_ok ys"
  shows "let s = snd (hs_run (new_heater_scheduler pw idx) xs); (outs, s') = hs_run s ys in
     energy_consumed_wh s \<le> energy_consumed_wh s'
     \<and> (hs_budget_exhausted s \<longleftrightarrow>
          0 < energy_budget_wh (hs_power s) \<and> energy_budget_wh (hs_power s) \<le> energy_consumed_wh s)
     \<and> (hs_budget_exhausted s \<longrightarrow>
          outs = map (\<lambda>x. replicate (length (in_requested x)) 0) ys \<and> hs_budget_exhausted s'
          \<and> energy_consumed_wh s' = energy_consumed_wh s)"
proof -
  let ?s = "snd (hs_run (new_heater_scheduler pw idx) xs)"
  have inv: "hs_inv ?s" using hs_inv_run [OF hs_inv_new [OF assms(1)] assms(2)] by simp
  then show ?thesis
    using hs_inv_run [OF inv assms(3)] hs_run_exhausted [of ?s ys]
    by (auto simp: Let_def split_beta hs_inv_def)
qed

theorem energy_budget_enforced_witness:
  "let s = snd (hs_run (new_heater_scheduler (power_default\<lparr>energy_budget_wh := Fin 4\<rparr>) size_max)
          [\<lparr>in_lock = None, in_requested = [Fin 1], in_deprioritize = False, in_dt = Fin 3600\<rparr>]);
       (outs, s') = hs_run s
          [\<lparr>in_lock = None, in_requested = [Fin 1], in_deprioritize = False, in_dt = Fin 3600\<rparr>] in
     energy_consumed_wh s \<le> energy_consumed_wh s'
     \<and> (hs_budget_exhausted s \<longleftrightarrow>
          0 < energy_budget_wh (hs_power s) \<and> energy_budget_wh (hs_power s) \<le> energy_consumed_wh s)
     \<and> (hs_budget_exhausted s \<longrightarrow>
          outs = map (\<lambda>x. replicate (length (in_requested x)) 0)
            [\<lparr>in_lock = None, in_requested = [Fin 1], in_deprioritize = False, in_dt = Fin 3600\<rparr>]
          \<and> hs_budget_exhausted s' \<and> energy_consumed_wh s' = energy_consumed_wh s)"
  by (rule energy_budget_enforced)
    (simp_all add: power_ok_def power_default_def hs_input_ok_def divide_dbl_def zero_one_dbl)

end
