(* ===== verification/PidController.thy ===== *)
theory PidController
  imports Config
begin

text \<open>
  The PID loop of one heater (\<^verbatim>\<open>pid_controller.cpp\<close>): a discrete PID with a clamped output, a
  clamped integral, and an integral that is frozen while the output is saturated in the
  direction of the error.
\<close>

record pid_controller =
  pid_gains_of :: pid_gains
  output_min :: dbl
  output_max :: dbl
  integral_min :: dbl
  integral_max :: dbl
  pid_integral :: dbl
  prev_error :: dbl
  has_prev :: bool

definition new_pid :: "pid_gains \<Rightarrow> dbl \<Rightarrow> dbl \<Rightarrow> dbl \<Rightarrow> dbl \<Rightarrow> pid_controller" where
  "new_pid gains out_min out_max int_min int_max =
     \<lparr>pid_gains_of = gains, output_min = out_min, output_max = out_max, integral_min = int_min,
      integral_max = int_max, pid_integral = 0, prev_error = 0, has_prev = False\<rparr>"

definition pid_set_gains :: "pid_gains \<Rightarrow> pid_controller \<Rightarrow> pid_controller" where
  "pid_set_gains gains c = c\<lparr>pid_gains_of := gains\<rparr>"

definition pid_reset :: "pid_controller \<Rightarrow> pid_controller" where
  "pid_reset c = c\<lparr>pid_integral := 0, prev_error := 0, has_prev := False\<rparr>"

definition pid_terms :: "pid_gains \<Rightarrow> dbl \<Rightarrow> dbl \<Rightarrow> dbl \<Rightarrow> dbl" where
  "pid_terms g error integral derivative =
     kp g * error + ki g * integral + kd g * derivative"

definition pid_update :: "dbl \<Rightarrow> dbl \<Rightarrow> dbl \<Rightarrow> pid_controller \<Rightarrow> dbl \<times> pid_controller" where
  "pid_update setpoint measured dt c =
     (let g = pid_gains_of c;
          safe_dt = (if dt \<le> to_dbl (1 / 1000000) then to_dbl (1 / 1000) else dt);
          error = setpoint - measured;
          derivative = (if has_prev c then (error - prev_error c) / safe_dt else 0);
          tentative = pid_terms g error (pid_integral c + error * safe_dt) derivative;
          saturating_high = (output_max c < tentative \<and> 0 < error);
          saturating_low = (tentative < output_min c \<and> error < 0);
          integral =
            (if \<not> saturating_high \<and> \<not> saturating_low
             then std_clamp (pid_integral c + error * safe_dt) (integral_min c) (integral_max c)
             else pid_integral c);
          out = std_clamp (pid_terms g error integral derivative) (output_min c) (output_max c)
      in (out, c\<lparr>pid_integral := integral, prev_error := error, has_prev := True\<rparr>))"

definition pid_within :: "dbl \<Rightarrow> dbl \<Rightarrow> dbl \<Rightarrow> bool" where
  "pid_within lo hi v \<longleftrightarrow> v = NaN \<or> lo \<le> v \<and> v \<le> hi"

lemma pid_within_clamp: "lo \<le> hi \<Longrightarrow> pid_within lo hi (std_clamp v lo hi)"
  using std_clamp_bounds [of v lo hi] std_clamp_NaN_iff [of lo hi v]
  by (cases "v = NaN") (auto simp: pid_within_def)

lemma pid_update_out:
  "output_min c \<le> output_max c \<Longrightarrow>
   pid_within (output_min c) (output_max c) (fst (pid_update sp m dt c))"
  by (simp add: pid_update_def Let_def pid_within_clamp)

lemma pid_update_integral:
  "integral_min c \<le> integral_max c \<Longrightarrow> pid_within (integral_min c) (integral_max c) (pid_integral c) \<Longrightarrow>
   pid_within (integral_min c) (integral_max c) (pid_integral (snd (pid_update sp m dt c)))"
  by (simp add: pid_update_def Let_def pid_within_clamp)

lemma pid_frame [simp, frame_simps]:
  "output_min (snd (pid_update sp m dt c)) = output_min c"
  "output_max (snd (pid_update sp m dt c)) = output_max c"
  "integral_min (snd (pid_update sp m dt c)) = integral_min c"
  "integral_max (snd (pid_update sp m dt c)) = integral_max c"
  "pid_gains_of (snd (pid_update sp m dt c)) = pid_gains_of c"
  "output_min (pid_reset c) = output_min c" "output_max (pid_reset c) = output_max c"
  "integral_min (pid_reset c) = integral_min c" "integral_max (pid_reset c) = integral_max c"
  "output_min (pid_set_gains g c) = output_min c" "output_max (pid_set_gains g c) = output_max c"
  "integral_min (pid_set_gains g c) = integral_min c"
  "integral_max (pid_set_gains g c) = integral_max c"
  "pid_integral (pid_set_gains g c) = pid_integral c"
  by (simp_all add: pid_update_def Let_def pid_reset_def pid_set_gains_def)

text \<open>A run of the loop: one update per tick.\<close>

fun pid_run :: "pid_controller \<Rightarrow> (dbl \<times> dbl \<times> dbl) list \<Rightarrow> dbl list \<times> pid_controller" where
  "pid_run c [] = ([], c)"
| "pid_run c ((sp, m, dt) # xs) =
     (let (out, c1) = pid_update sp m dt c; (outs, c2) = pid_run c1 xs in (out # outs, c2))"

lemma pid_run_frame:
  "output_min (snd (pid_run c xs)) = output_min c \<and> output_max (snd (pid_run c xs)) = output_max c
   \<and> integral_min (snd (pid_run c xs)) = integral_min c
   \<and> integral_max (snd (pid_run c xs)) = integral_max c"
proof (induction xs arbitrary: c)
  case (Cons x xs)
  then show ?case by (cases x) (simp add: split_beta)
qed simp

lemma pid_run_out:
  "output_min c \<le> output_max c \<Longrightarrow>
   list_all (pid_within (output_min c) (output_max c)) (fst (pid_run c xs))"
proof (induction xs arbitrary: c)
  case (Cons x xs)
  obtain sp m dt where x: "x = (sp, m, dt)" by (cases x)
  show ?case using Cons.IH [of "snd (pid_update sp m dt c)"] Cons.prems
      pid_update_out [of c sp m dt] by (simp add: x split_beta)
qed simp

lemma pid_run_integral:
  "integral_min c \<le> integral_max c \<Longrightarrow> pid_within (integral_min c) (integral_max c) (pid_integral c) \<Longrightarrow>
   pid_within (integral_min c) (integral_max c) (pid_integral (snd (pid_run c xs)))"
proof (induction xs arbitrary: c)
  case (Cons x xs)
  obtain sp m dt where x: "x = (sp, m, dt)" by (cases x)
  show ?case using Cons.IH [of "snd (pid_update sp m dt c)"] Cons.prems
      pid_update_integral [of c sp m dt] by (simp add: x split_beta)
qed simp

subsection \<open>Properties\<close>



end
