(* ===== verification/ThermalController.thy ===== *)
theory ThermalController
  imports Phase PidController
begin

text \<open>
  The thermal control law (\<^verbatim>\<open>thermal_controller.cpp\<close>): one PID loop per heater towards an
  explicit target, a hysteresis floor controller during link-loss fallback, operator overrides
  on top, and last the over-temperature latch, the validity of the reading and the global duty
  ceiling, which bind every path.

  A heater reads the sample \<^verbatim>\<open>heaters.temperature_channels\<close> assigns to it.  The vectors keep
  one entry per heater; a resize at the start of a call (which never happens after the
  constructor) is \<open>assign_if\<close>.  The minimum and maximum of the valid readings are those of
  \<^verbatim>\<open>std::minmax_element\<close> for readings that are not \<open>NaN\<close>.
\<close>

subsection \<open>Inputs and state\<close>

record sensor_temps =
  sample_temps_c :: "dbl list"
  sample_temp_valid :: "bool list"

record control_overrides =
  heaters_off :: bool
  floor_control_enabled :: bool
  single_heater_override :: "(nat \<times> dbl) option"
  all_heaters_override :: "dbl option"
  heater_duty_overrides :: "dbl option list"
  temp_targets_c :: "dbl option list"
  pid_overrides :: "pid_gains option list"
  pid_override :: "pid_gains option"
  bench_open_loop_heaters :: bool

definition no_control_overrides :: control_overrides where
  "no_control_overrides =
     \<lparr>heaters_off = False, floor_control_enabled = True, single_heater_override = None,
      all_heaters_override = None, heater_duty_overrides = [], temp_targets_c = [],
      pid_overrides = [], pid_override = None, bench_open_loop_heaters = False\<rparr>"

record thermal_controller =
  tc_config :: onboard_config
  sample_pids :: "pid_controller list"
  channel_latched :: "bool list"
  sample_heating :: "bool list"
  active_targets_c :: "dbl option list"
  overtemp_latched :: bool
  uniformity_ok :: bool

definition floor_hysteresis_c :: dbl where
  "floor_hysteresis_c = Fin (1 / 2)"

abbreviation tc_heaters :: "thermal_controller \<Rightarrow> nat" where
  "tc_heaters t \<equiv> heater_count (oc_hardware (tc_config t))"

definition new_thermal_controller :: "onboard_config \<Rightarrow> thermal_controller" where
  "new_thermal_controller cfg =
     (let n = heater_count (oc_hardware cfg) in
      \<lparr>tc_config = cfg,
       sample_pids = replicate n (new_pid (oc_pid cfg) 0 (max_duty (oc_heaters cfg))
         (Fin (- 1000)) (Fin 1000)),
       channel_latched = replicate n False, sample_heating = replicate n False,
       active_targets_c = replicate n None, overtemp_latched = False, uniformity_ok = True\<rparr>)"

definition tc_reset :: "thermal_controller \<Rightarrow> thermal_controller" where
  "tc_reset t =
     t\<lparr>sample_pids := map pid_reset (sample_pids t),
       channel_latched := map (\<lambda>_. False) (channel_latched t),
       sample_heating := map (\<lambda>_. False) (sample_heating t),
       active_targets_c := map (\<lambda>_. None) (active_targets_c t),
       overtemp_latched := False, uniformity_ok := True\<rparr>"

definition tc_update_pid_all :: "pid_gains \<Rightarrow> thermal_controller \<Rightarrow> thermal_controller" where
  "tc_update_pid_all g t = t\<lparr>sample_pids := map (pid_set_gains g) (sample_pids t)\<rparr>"

definition tc_update_pid :: "nat \<Rightarrow> pid_gains \<Rightarrow> thermal_controller \<Rightarrow> thermal_controller" where
  "tc_update_pid ch g t =
     (if ch < length (sample_pids t)
      then t\<lparr>sample_pids := (sample_pids t)[ch := pid_set_gains g (sample_pids t ! ch)]\<rparr> else t)"

definition should_heat_phase :: "mission_phase \<Rightarrow> bool" where
  "should_heat_phase ph \<longleftrightarrow> ph = Ascent \<or> ph = PreFloat \<or> ph = Float \<or> ph = Descent"

definition tc_sensor_channel :: "onboard_config \<Rightarrow> nat \<Rightarrow> nat" where
  "tc_sensor_channel cfg heater =
     (if heater < length (temperature_channels (oc_heaters cfg))
      then temperature_channels (oc_heaters cfg) ! heater else heater)"

definition temp_valid_for :: "onboard_config \<Rightarrow> sensor_temps \<Rightarrow> nat \<Rightarrow> bool" where
  "temp_valid_for cfg sensors heater =
     (let sample = tc_sensor_channel cfg heater in
      sample < length (sample_temps_c sensors)
      \<and> (sample_temp_valid sensors = []
          \<or> (sample < length (sample_temp_valid sensors) \<and> sample_temp_valid sensors ! sample)))"

abbreviation temp_of :: "onboard_config \<Rightarrow> sensor_temps \<Rightarrow> nat \<Rightarrow> dbl" where
  "temp_of cfg sensors heater \<equiv> sample_temps_c sensors ! tc_sensor_channel cfg heater"

subsection \<open>One tick\<close>

definition assign_if :: "nat \<Rightarrow> 'a \<Rightarrow> 'a list \<Rightarrow> 'a list" where
  "assign_if n v xs = (if length xs \<noteq> n then replicate n v else xs)"

text \<open>The over-temperature latch of every channel.\<close>

definition tc_latch :: "sensor_temps \<Rightarrow> thermal_controller \<Rightarrow> thermal_controller" where
  "tc_latch sensors t =
     (let cfg = tc_config t; n = tc_heaters t;
          latched = map (\<lambda>i. assign_if n False (channel_latched t) ! i
              \<or> (temp_valid_for cfg sensors i
                  \<and> max_sample_temp_c (oc_heater_safety cfg) < temp_of cfg sensors i)) [0..<n]
      in t\<lparr>channel_latched := latched, overtemp_latched := list_ex (\<lambda>v. v) latched,
           sample_heating := assign_if n False (sample_heating t),
           active_targets_c := assign_if n None (active_targets_c t)\<rparr>)"

definition list_min :: "dbl \<Rightarrow> dbl list \<Rightarrow> dbl" where
  "list_min x xs = foldl (\<lambda>m v. if v < m then v else m) x xs"

definition list_max :: "dbl \<Rightarrow> dbl list \<Rightarrow> dbl" where
  "list_max x xs = foldl (\<lambda>m v. if v < m then m else v) x xs"

definition tc_uniformity :: "mission_phase \<Rightarrow> sensor_temps \<Rightarrow> onboard_config \<Rightarrow> bool" where
  "tc_uniformity ph sensors cfg =
     (let n = heater_count (oc_hardware cfg);
          valid = map (temp_of cfg sensors) (filter (temp_valid_for cfg sensors) [0..<n])
      in \<not> (should_heat_phase ph \<and> sample_temps_c sensors \<noteq> [] \<and> 0 < n \<and> 1 < length valid
            \<and> uniformity_tolerance_c (oc_phase cfg)
                < list_max (hd valid) (tl valid) - list_min (hd valid) (tl valid)))"

definition tc_pid_overrides :: "control_overrides \<Rightarrow> thermal_controller \<Rightarrow> thermal_controller" where
  "tc_pid_overrides ov t =
     (let pids = (case pid_override ov of None \<Rightarrow> sample_pids t
                  | Some g \<Rightarrow> map (pid_set_gains g) (sample_pids t));
          one = (\<lambda>i c. if i < length (pid_overrides ov)
                       then (case pid_overrides ov ! i of None \<Rightarrow> c | Some g \<Rightarrow> pid_set_gains g c)
                       else c)
      in t\<lparr>sample_pids := map (\<lambda>i. one i (pids ! i)) [0..<length pids]\<rparr>)"

definition explicit_target :: "control_overrides \<Rightarrow> nat \<Rightarrow> dbl option" where
  "explicit_target ov i = (if i < length (temp_targets_c ov) then temp_targets_c ov ! i else None)"

text \<open>The body of the control loop for heater \<open>i\<close>.\<close>

definition tc_control_channel ::
  "mission_phase \<Rightarrow> sensor_temps \<Rightarrow> dbl \<Rightarrow> control_overrides \<Rightarrow> nat
   \<Rightarrow> thermal_controller \<times> dbl list \<Rightarrow> thermal_controller \<times> dbl list" where
  "tc_control_channel ph sensors dt ov i = (\<lambda>(t, duty).
     let cfg = tc_config t;
         heat = (\<lambda>b t. t\<lparr>sample_heating := (sample_heating t)[i := b]\<rparr>);
         reset_pid = (\<lambda>t. t\<lparr>sample_pids := (sample_pids t)[i := pid_reset (sample_pids t ! i)]\<rparr>)
     in if \<not> temp_valid_for cfg sensors i then (reset_pid (heat False t), duty[i := 0])
        else
          (case explicit_target ov i of
             Some target \<Rightarrow>
               (let (out, pid) = pid_update target (temp_of cfg sensors i) dt (sample_pids t ! i);
                    t = t\<lparr>active_targets_c := (active_targets_c t)[i := Some target],
                          sample_pids := (sample_pids t)[i := pid]\<rparr>
                in (heat (0 < out) t, duty[i := out]))
           | None \<Rightarrow>
               if \<not> floor_control_enabled ov \<or> \<not> should_heat_phase ph then (heat False t, duty)
               else
                 (let target = sample_floor_c (oc_phase cfg);
                      measured = temp_of cfg sensors i;
                      t = t\<lparr>active_targets_c := (active_targets_c t)[i := Some target]\<rparr>
                  in if sample_heating t ! i \<and> target \<le> measured
                     then (reset_pid (heat False t), duty[i := 0])
                     else
                       (let t = (if \<not> sample_heating t ! i \<and> measured < target - floor_hysteresis_c
                                 then heat True t else t)
                        in if sample_heating t ! i
                           then (let (out, pid) = pid_update target measured dt (sample_pids t ! i)
                                 in (t\<lparr>sample_pids := (sample_pids t)[i := pid]\<rparr>, duty[i := out]))
                           else (t, duty[i := 0])))))"

definition tc_control ::
  "mission_phase \<Rightarrow> sensor_temps \<Rightarrow> dbl \<Rightarrow> control_overrides
   \<Rightarrow> thermal_controller \<times> dbl list \<Rightarrow> thermal_controller \<times> dbl list" where
  "tc_control ph sensors dt ov td =
     fold (tc_control_channel ph sensors dt ov)
       [0..<min (length (sample_pids (fst td))) (tc_heaters (fst td))] td"

text \<open>The operator's open-loop duties.\<close>

definition tc_duty_overrides :: "control_overrides \<Rightarrow> dbl list \<Rightarrow> dbl list" where
  "tc_duty_overrides ov duty =
     (let duty = (case all_heaters_override ov of None \<Rightarrow> duty
                  | Some v \<Rightarrow> map (\<lambda>_. std_clamp v 0 1) duty);
          duty = (case single_heater_override ov of None \<Rightarrow> duty
                  | Some (idx, v) \<Rightarrow> if idx < length duty then duty[idx := std_clamp v 0 1] else duty)
      in map (\<lambda>i. if i < length (heater_duty_overrides ov)
                  then (case heater_duty_overrides ov ! i of
                          None \<Rightarrow> duty ! i | Some v \<Rightarrow> std_clamp v 0 1)
                  else duty ! i) [0..<length duty])"

text \<open>What binds every path.\<close>

definition tc_enforce ::
  "sensor_temps \<Rightarrow> control_overrides \<Rightarrow> thermal_controller \<Rightarrow> dbl list \<Rightarrow> dbl list" where
  "tc_enforce sensors ov t duty =
     map (\<lambda>i. std_min
           (if (\<not> temp_valid_for (tc_config t) sensors i \<and> \<not> bench_open_loop_heaters ov)
               \<or> channel_latched t ! i then 0 else duty ! i)
           (max_duty (oc_heaters (tc_config t)))) [0..<tc_heaters t]"

definition compute_requested_duty ::
  "mission_phase \<Rightarrow> sensor_temps \<Rightarrow> dbl \<Rightarrow> control_overrides \<Rightarrow> thermal_controller
   \<Rightarrow> dbl list \<times> thermal_controller" where
  "compute_requested_duty ph sensors dt ov t =
     (let n = tc_heaters t;
          t = tc_latch sensors t;
          t = t\<lparr>uniformity_ok := tc_uniformity ph sensors (tc_config t)\<rparr>;
          duty = replicate n 0;
          has_direct = (all_heaters_override ov \<noteq> None \<or> single_heater_override ov \<noteq> None
            \<or> list_ex (\<lambda>v. v \<noteq> None) (heater_duty_overrides ov));
          has_targets = list_ex (\<lambda>v. v \<noteq> None) (temp_targets_c ov)
      in if heaters_off ov
         then (duty, t\<lparr>sample_heating := map (\<lambda>_. False) (sample_heating t),
                       active_targets_c := map (\<lambda>_. None) (active_targets_c t)\<rparr>)
         else
           (let t = tc_pid_overrides ov t;
                t = t\<lparr>active_targets_c := replicate n None\<rparr>
            in if has_targets \<or> (floor_control_enabled ov \<and> should_heat_phase ph)
               then (let (t, duty) = tc_control ph sensors dt ov (t, duty)
                     in (tc_enforce sensors ov t (tc_duty_overrides ov duty), t))
               else
                 (let t = t\<lparr>sample_heating := map (\<lambda>_. False) (sample_heating t)\<rparr>
                  in if \<not> has_direct then (duty, t)
                     else (tc_enforce sensors ov t (tc_duty_overrides ov duty), t))))"

subsection \<open>What a tick keeps\<close>

text \<open>One entry per heater in every vector, and every loop limited to \<open>[0, max_duty]\<close>.\<close>

definition loop_ok :: "dbl \<Rightarrow> pid_controller \<Rightarrow> bool" where
  "loop_ok cap c \<longleftrightarrow> output_min c = 0 \<and> output_max c = cap"

definition tc_inv :: "thermal_controller \<Rightarrow> bool" where
  "tc_inv t \<longleftrightarrow> length (sample_pids t) = tc_heaters t \<and> length (channel_latched t) = tc_heaters t
     \<and> length (sample_heating t) = tc_heaters t \<and> length (active_targets_c t) = tc_heaters t
     \<and> list_all (loop_ok (max_duty (oc_heaters (tc_config t)))) (sample_pids t)"

lemma loop_ok_simps [simp]:
  "loop_ok m (pid_reset c) = loop_ok m c" "loop_ok m (pid_set_gains g c) = loop_ok m c"
  "loop_ok m (snd (pid_update sp v dt c)) = loop_ok m c"
  by (simp_all add: loop_ok_def)

lemma list_all_update: "list_all P xs \<Longrightarrow> (i < length xs \<Longrightarrow> P v) \<Longrightarrow> list_all P (xs[i := v])"
  by (cases "i < length xs") (auto simp: list_all_length nth_list_update)

lemma tc_inv_new [inv_intros]: "tc_inv (new_thermal_controller cfg)"
  by (simp add: tc_inv_def new_thermal_controller_def Let_def loop_ok_def new_pid_def list_all_iff)

lemma tc_inv_reset [inv_intros]: "tc_inv t \<Longrightarrow> tc_inv (tc_reset t)"
  by (simp add: tc_inv_def tc_reset_def list_all_iff)

lemma tc_inv_update_pid [inv_intros]: "tc_inv t \<Longrightarrow> tc_inv (tc_update_pid ch g t)"
  by (auto simp: tc_inv_def tc_update_pid_def list_all_length intro!: list_all_update)
    (auto simp: nth_list_update)

lemma tc_inv_update_pid_all [inv_intros]: "tc_inv t \<Longrightarrow> tc_inv (tc_update_pid_all g t)"
  by (simp add: tc_inv_def tc_update_pid_all_def list_all_iff)

lemma tc_inv_latch [inv_intros]: "tc_inv t \<Longrightarrow> tc_inv (tc_latch sensors t)"
  by (simp add: tc_inv_def tc_latch_def Let_def assign_if_def)

lemma tc_inv_fields [inv_intros]:
  "tc_inv t \<Longrightarrow> tc_inv (t\<lparr>uniformity_ok := b\<rparr>)"
  "tc_inv t \<Longrightarrow> tc_inv (t\<lparr>sample_heating := map f (sample_heating t)\<rparr>)"
  "tc_inv t \<Longrightarrow> tc_inv (t\<lparr>active_targets_c := replicate (tc_heaters t) None\<rparr>)"
  "tc_inv t \<Longrightarrow> tc_inv (t\<lparr>active_targets_c := map h (active_targets_c t)\<rparr>)"
  by (simp_all add: tc_inv_def)

lemma tc_inv_pid_overrides [inv_intros]: "tc_inv t \<Longrightarrow> tc_inv (tc_pid_overrides ov t)"
  by (auto simp: tc_inv_def tc_pid_overrides_def Let_def list_all_length split: option.splits)

lemma tc_config_frame [simp, frame_simps]:
  "tc_config (tc_latch sensors t) = tc_config t" "tc_config (tc_pid_overrides ov t) = tc_config t"
  "channel_latched (tc_pid_overrides ov t) = channel_latched t"
  "overtemp_latched (tc_pid_overrides ov t) = overtemp_latched t"
  by (simp_all add: tc_latch_def tc_pid_overrides_def Let_def)

text \<open>The state a loop iteration works on: the controller and the duties so far.\<close>

definition nonneg_or_nan :: "dbl \<Rightarrow> bool" where
  "nonneg_or_nan d \<longleftrightarrow> d = NaN \<or> Fin 0 \<le> d"

lemma nonneg_or_nan_simps [simp]: "nonneg_or_nan 0" "nonneg_or_nan (std_clamp v 0 1)"
  using std_clamp_bounds [of v "Fin 0" "Fin 1"] std_clamp_NaN_iff [of "Fin 0" "Fin 1" v]
  by (auto simp: nonneg_or_nan_def zero_one_dbl)

lemma pid_out_nonneg: "loop_ok m c \<Longrightarrow> Fin 0 \<le> m \<Longrightarrow> nonneg_or_nan (fst (pid_update sp v dt c))"
  using pid_update_out [of c sp v dt]
  by (auto simp: loop_ok_def nonneg_or_nan_def pid_within_def zero_one_dbl)

definition td_inv :: "thermal_controller \<Rightarrow> thermal_controller \<times> dbl list \<Rightarrow> bool" where
  "td_inv t0 td \<longleftrightarrow> tc_inv (fst td) \<and> tc_config (fst td) = tc_config t0
     \<and> channel_latched (fst td) = channel_latched t0
     \<and> length (snd td) = tc_heaters t0 \<and> list_all nonneg_or_nan (snd td)"

lemma td_inv_channel:
  assumes inv: "td_inv t0 td" and i: "i < tc_heaters t0"
    and m: "Fin 0 \<le> max_duty (oc_heaters (tc_config t0))"
  shows "td_inv t0 (tc_control_channel ph sensors dt ov i td)"
proof -
  obtain t duty where td: "td = (t, duty)" by fastforce
  have pid: "loop_ok (max_duty (oc_heaters (tc_config t0))) (sample_pids t ! i)"
    using inv i by (auto simp: td_inv_def tc_inv_def td list_all_length)
  note out = pid_out_nonneg [OF pid m]
  show ?thesis using inv i pid out
    by (auto simp: td_inv_def tc_inv_def td tc_control_channel_def Let_def split_beta
        intro!: list_all_update split: option.splits)
qed

lemma td_inv_control:
  assumes "td_inv t0 td" and "Fin 0 \<le> max_duty (oc_heaters (tc_config t0))"
  shows "td_inv t0 (tc_control ph sensors dt ov td)"
proof -
  have "td_inv t0 (fold (tc_control_channel ph sensors dt ov) is td)"
    if "\<forall>i \<in> set is. i < tc_heaters t0" for "is"
    using that assms(1)
  proof (induction "is" arbitrary: td)
    case (Cons i "is")
    show ?case using Cons.prems
      by (simp add: Cons.IH td_inv_channel [OF _ _ assms(2)])
  qed simp
  moreover have "tc_heaters (fst td) = tc_heaters t0" using assms(1) by (simp add: td_inv_def)
  ultimately show ?thesis by (simp add: tc_control_def)
qed

lemma tc_control_channel_frame [simp, frame_simps]:
  "tc_config (fst (tc_control_channel ph sensors dt ov i td)) = tc_config (fst td)"
  "channel_latched (fst (tc_control_channel ph sensors dt ov i td)) = channel_latched (fst td)"
  "overtemp_latched (fst (tc_control_channel ph sensors dt ov i td)) = overtemp_latched (fst td)"
  by (simp_all add: tc_control_channel_def Let_def split_beta split: option.splits)

lemma tc_control_frame [simp, frame_simps]:
  "tc_config (fst (tc_control ph sensors dt ov td)) = tc_config (fst td)"
  "channel_latched (fst (tc_control ph sensors dt ov td)) = channel_latched (fst td)"
  "overtemp_latched (fst (tc_control ph sensors dt ov td)) = overtemp_latched (fst td)"
proof -
  let ?keeps = "\<lambda>u td. tc_config u = tc_config (fst td) \<and> channel_latched u = channel_latched (fst td)
      \<and> overtemp_latched u = overtemp_latched (fst td)"
  have "?keeps (fst (fold (tc_control_channel ph sensors dt ov) is td)) td" for "is"
    by (induction "is" arbitrary: td) simp_all
  then show "tc_config (fst (tc_control ph sensors dt ov td)) = tc_config (fst td)"
    "channel_latched (fst (tc_control ph sensors dt ov td)) = channel_latched (fst td)"
    "overtemp_latched (fst (tc_control ph sensors dt ov td)) = overtemp_latched (fst td)"
    by (simp_all add: tc_control_def)
qed

lemma compute_frame [simp, frame_simps]:
  "tc_config (snd (compute_requested_duty ph sensors dt ov t)) = tc_config t"
  "channel_latched (snd (compute_requested_duty ph sensors dt ov t))
     = channel_latched (tc_latch sensors t)"
  "overtemp_latched (snd (compute_requested_duty ph sensors dt ov t))
     = overtemp_latched (tc_latch sensors t)"
  by (simp_all add: compute_requested_duty_def Let_def split_beta)

lemma tc_duty_overrides_ok:
  "list_all nonneg_or_nan duty \<Longrightarrow> list_all nonneg_or_nan (tc_duty_overrides ov duty)
     \<and> length (tc_duty_overrides ov duty) = length duty"
  by (auto simp: tc_duty_overrides_def Let_def list_all_length nth_list_update
      split: option.splits)

text \<open>What the last block of a tick guarantees of one duty.\<close>

definition duty_ok :: "sensor_temps \<Rightarrow> control_overrides \<Rightarrow> thermal_controller \<Rightarrow> nat \<Rightarrow> dbl \<Rightarrow> bool" where
  "duty_ok sensors ov t i d \<longleftrightarrow>
     (d = NaN \<or> (Fin 0 \<le> d \<and> d \<le> max_duty (oc_heaters (tc_config t))))
     \<and> (channel_latched t ! i \<longrightarrow> d = 0)
     \<and> (\<not> temp_valid_for (tc_config t) sensors i \<and> \<not> bench_open_loop_heaters ov \<longrightarrow> d = 0)"

lemma duty_ok_zero: "Fin 0 \<le> max_duty (oc_heaters (tc_config t)) \<Longrightarrow> duty_ok sensors ov t i 0"
  by (simp add: duty_ok_def zero_one_dbl)

lemma std_min_nonneg:
  assumes "nonneg_or_nan d" and "Fin 0 \<le> m"
  shows "std_min d m = NaN \<or> Fin 0 \<le> std_min d m \<and> std_min d m \<le> m" "std_min 0 m = 0"
  using assms by (cases d; cases m; auto simp: nonneg_or_nan_def std_min_def dbl_order_defs
      zero_one_dbl split: if_splits)+

lemma tc_enforce_ok:
  assumes "Fin 0 \<le> max_duty (oc_heaters (tc_config t))" and "list_all nonneg_or_nan duty"
    and "length duty = tc_heaters t" and "i < tc_heaters t"
  shows "duty_ok sensors ov t i (tc_enforce sensors ov t duty ! i)"
  using assms std_min_nonneg [of "duty ! i" "max_duty (oc_heaters (tc_config t))"]
    std_min_nonneg [of 0 "max_duty (oc_heaters (tc_config t))"]
  by (auto simp: tc_enforce_def duty_ok_def list_all_length zero_one_dbl)

lemma tc_enforce_length [simp]: "length (tc_enforce sensors ov t duty) = tc_heaters t"
  by (simp add: tc_enforce_def)

text \<open>A tick in two parts: the state the control loop starts from, and the four ways it ends.\<close>

definition tc_base :: "mission_phase \<Rightarrow> sensor_temps \<Rightarrow> thermal_controller \<Rightarrow> thermal_controller" where
  "tc_base ph sensors t =
     (tc_latch sensors t)\<lparr>uniformity_ok := tc_uniformity ph sensors (tc_config t)\<rparr>"

definition tc_start ::
  "mission_phase \<Rightarrow> sensor_temps \<Rightarrow> control_overrides \<Rightarrow> thermal_controller \<Rightarrow> thermal_controller" where
  "tc_start ph sensors ov t =
     (tc_pid_overrides ov (tc_base ph sensors t))\<lparr>active_targets_c := replicate (tc_heaters t) None\<rparr>"

lemma compute_cases:
  obtains (off) "compute_requested_duty ph sensors dt ov t = (replicate (tc_heaters t) 0,
      (tc_base ph sensors t)\<lparr>sample_heating := map (\<lambda>_. False) (sample_heating (tc_base ph sensors t)),
        active_targets_c := map (\<lambda>_. None) (active_targets_c (tc_base ph sensors t))\<rparr>)"
      "heaters_off ov"
  | (idle) "compute_requested_duty ph sensors dt ov t = (replicate (tc_heaters t) 0,
      (tc_start ph sensors ov t)\<lparr>sample_heating := map (\<lambda>_. False) (sample_heating (tc_start ph sensors ov t))\<rparr>)"
  | (direct) u where "compute_requested_duty ph sensors dt ov t =
        (tc_enforce sensors ov u (tc_duty_overrides ov (replicate (tc_heaters t) 0)), u)"
      "u = (tc_start ph sensors ov t)\<lparr>sample_heating := map (\<lambda>_. False) (sample_heating (tc_start ph sensors ov t))\<rparr>"
  | (control) u duty where "compute_requested_duty ph sensors dt ov t =
        (tc_enforce sensors ov u (tc_duty_overrides ov duty), u)"
      "(u, duty) = tc_control ph sensors dt ov (tc_start ph sensors ov t, replicate (tc_heaters t) 0)"
proof -
  note [simp] = compute_requested_duty_def Let_def split_beta tc_start_def tc_base_def
  show ?thesis
  proof (cases "heaters_off ov")
    case True
    show ?thesis by (rule off) (use True in simp_all)
  next
    case False
    show ?thesis
    proof (cases "list_ex (\<lambda>v. v \<noteq> None) (temp_targets_c ov)
        \<or> (floor_control_enabled ov \<and> should_heat_phase ph)")
      case True
      show ?thesis by (rule control [OF _ prod.collapse]) (use False True in simp)
    next
      case False': False
      show ?thesis
      proof (cases "all_heaters_override ov = None \<and> single_heater_override ov = None
          \<and> \<not> list_ex (\<lambda>v. v \<noteq> None) (heater_duty_overrides ov)")
        case True
        show ?thesis by (rule idle) (use False False' True in \<open>auto\<close>)
      next
        case False'': False
        show ?thesis by (rule direct [OF _ refl]) (use False False' False'' in \<open>auto\<close>)
      qed
    qed
  qed
qed

lemma tc_inv_start:
  assumes "tc_inv t"
  shows "tc_inv (tc_base ph sensors t)" "tc_inv (tc_start ph sensors ov t)"
proof -
  show base: "tc_inv (tc_base ph sensors t)" unfolding tc_base_def using assms by (intro inv_intros)
  show "tc_inv (tc_start ph sensors ov t)"
    using tc_inv_fields(3) [OF tc_inv_pid_overrides [OF base]] by (simp add: tc_start_def tc_base_def)
qed

lemma tc_start_config [simp]:
  "tc_config (tc_base ph sensors t) = tc_config t" "tc_config (tc_start ph sensors ov t) = tc_config t"
  by (simp_all add: tc_base_def tc_start_def)

lemma td_inv_run:
  assumes inv: "tc_inv t" and m: "Fin 0 \<le> max_duty (oc_heaters (tc_config t))"
    and eq: "(u, duty) = tc_control ph sensors dt ov (tc_start ph sensors ov t, replicate (tc_heaters t) 0)"
  shows "tc_inv u \<and> tc_config u = tc_config t \<and> length duty = tc_heaters t
    \<and> list_all nonneg_or_nan duty"
proof -
  have "td_inv (tc_start ph sensors ov t) (tc_start ph sensors ov t, replicate (tc_heaters t) 0)"
    using tc_inv_start(2) [OF inv] by (simp add: td_inv_def list_all_length)
  from td_inv_control [OF this] m have "td_inv (tc_start ph sensors ov t) (u, duty)"
    by (simp add: eq)
  then show ?thesis by (simp add: td_inv_def)
qed

lemma compute_ok:
  assumes inv: "tc_inv t" and m: "Fin 0 \<le> max_duty (oc_heaters (tc_config t))"
  shows "tc_inv (snd (compute_requested_duty ph sensors dt ov t))
    \<and> length (fst (compute_requested_duty ph sensors dt ov t)) = tc_heaters t
    \<and> (\<forall>i < tc_heaters t. duty_ok sensors ov (snd (compute_requested_duty ph sensors dt ov t)) i
        (fst (compute_requested_duty ph sensors dt ov t) ! i))"
proof -
  note inv' = tc_inv_start(1) [OF inv, of ph sensors] tc_inv_start(2) [OF inv, of ph sensors ov]
  have enforce: "duty_ok sensors ov u i (tc_enforce sensors ov u (tc_duty_overrides ov duty) ! i)"
    if "tc_config u = tc_config t" "length duty = tc_heaters t" "list_all nonneg_or_nan duty"
      "i < tc_heaters t" for u duty i
    using tc_enforce_ok [of u "tc_duty_overrides ov duty" i sensors ov]
      tc_duty_overrides_ok [of duty ov] that m by simp
  show ?thesis
  proof (cases rule: compute_cases [of ph sensors dt ov t])
    case off
    then show ?thesis using inv' m
      by (auto intro!: duty_ok_zero tc_inv_fields) (simp add: tc_inv_def)
  next
    case idle
    then show ?thesis using inv' m by (auto intro!: duty_ok_zero tc_inv_fields)
  next
    case (direct u)
    have "tc_inv u" "tc_config u = tc_config t"
      using inv' direct(2) by (auto intro: tc_inv_fields)
    then show ?thesis using direct(1) by (auto intro!: enforce simp: list_all_length)
  next
    case (control u duty)
    show ?thesis using td_inv_run [OF inv m control(2)] control(1) by (auto intro!: enforce)
  qed
qed

lemmas tc_inv_compute [inv_intros] = compute_ok [THEN conjunct1]

subsection \<open>Runs\<close>

datatype tc_event =
    ControlTick mission_phase sensor_temps dbl control_overrides
  | ResetControl
  | SetChannelPid nat pid_gains
  | SetPid pid_gains

fun tc_step :: "thermal_controller \<Rightarrow> tc_event \<Rightarrow> thermal_controller" where
  "tc_step t (ControlTick ph sensors dt ov) = snd (compute_requested_duty ph sensors dt ov t)"
| "tc_step t ResetControl = tc_reset t"
| "tc_step t (SetChannelPid ch g) = tc_update_pid ch g t"
| "tc_step t (SetPid g) = tc_update_pid_all g t"

definition tc_run :: "onboard_config \<Rightarrow> tc_event list \<Rightarrow> thermal_controller" where
  "tc_run cfg evs = foldl tc_step (new_thermal_controller cfg) evs"

lemma tc_run_snoc [simp]: "tc_run cfg (evs @ [e]) = tc_step (tc_run cfg evs) e"
  by (simp add: tc_run_def)

lemma tc_reset_frame [simp, frame_simps]:
  "tc_config (tc_reset t) = tc_config t" "tc_config (tc_update_pid ch g t) = tc_config t"
  "tc_config (tc_update_pid_all g t) = tc_config t"
  "channel_latched (tc_update_pid ch g t) = channel_latched t"
  "channel_latched (tc_update_pid_all g t) = channel_latched t"
  by (simp_all add: tc_reset_def tc_update_pid_def tc_update_pid_all_def)

lemma tc_run_config [simp]: "tc_config (tc_run cfg evs) = cfg"
proof (induction evs rule: rev_induct)
  case (snoc e evs)
  then show ?case by (cases e) (simp_all add: tc_run_def)
qed (simp add: tc_run_def new_thermal_controller_def Let_def)

lemma tc_run_inv: "Fin 0 \<le> max_duty (oc_heaters cfg) \<Longrightarrow> tc_inv (tc_run cfg evs)"
proof (induction evs rule: rev_induct)
  case (snoc e evs)
  have "tc_config (foldl tc_step (new_thermal_controller cfg) evs) = cfg"
    using tc_run_config by (simp add: tc_run_def)
  then show ?case using snoc by (cases e) (auto simp: tc_run_def intro: inv_intros)
qed (simp add: tc_run_def tc_inv_new)

text \<open>The specification of the latch: the heaters some tick since the last reset saw too hot.\<close>

fun too_hot :: "onboard_config \<Rightarrow> nat \<Rightarrow> tc_event \<Rightarrow> bool" where
  "too_hot cfg i (ControlTick ph sensors dt ov) \<longleftrightarrow> temp_valid_for cfg sensors i
     \<and> max_sample_temp_c (oc_heater_safety cfg) < temp_of cfg sensors i"
| "too_hot cfg i _ \<longleftrightarrow> False"

definition since_reset :: "tc_event list \<Rightarrow> tc_event list" where
  "since_reset evs = takeWhile (\<lambda>e. e \<noteq> ResetControl) (rev evs)"

lemma since_reset_simps [simp]:
  "since_reset [] = []"
  "since_reset (evs @ [e]) = (if e = ResetControl then [] else e # since_reset evs)"
  by (simp_all add: since_reset_def)

subsection \<open>Properties\<close>

lemma tc_latch_run:
  "length (channel_latched t) = tc_heaters t \<Longrightarrow> channel_latched (tc_latch sensors t)
     = map (\<lambda>i. channel_latched t ! i \<or> too_hot (tc_config t) i (ControlTick ph sensors dt ov))
         [0..<tc_heaters t]"
  by (simp add: tc_latch_def Let_def assign_if_def)

text \<open>C4. The over-temperature latch is exact: after any sequence of control ticks, gain changes and
  \<^verbatim>\<open>RESET_CONTROL\<close>, a heater is latched just when some tick since the last reset had a valid reading
  of it above \<^verbatim>\<open>max_sample_temp_c\<close>, and the summary flag is set at the end of a tick just when some
  heater is latched.\<close>

theorem overtemp_latch_exact:
  "channel_latched (tc_run cfg evs)
     = map (\<lambda>i. list_ex (too_hot cfg i) (since_reset evs)) [0..<heater_count (oc_hardware cfg)]
   \<and> overtemp_latched (tc_run cfg (evs @ [ControlTick ph sensors dt ov]))
     = list_ex (\<lambda>b. b) (channel_latched (tc_run cfg (evs @ [ControlTick ph sensors dt ov])))"
proof
  show "channel_latched (tc_run cfg evs)
     = map (\<lambda>i. list_ex (too_hot cfg i) (since_reset evs)) [0..<heater_count (oc_hardware cfg)]"
  proof (induction evs rule: rev_induct)
    case Nil
    then show ?case
      by (simp add: tc_run_def new_thermal_controller_def Let_def map_replicate_const)
  next
    case (snoc e evs)
    show ?case
    proof (cases e)
      case (ControlTick ph sensors dt ov)
      then show ?thesis
        using tc_latch_run [of "tc_run cfg evs" sensors ph dt ov]
        by (auto simp: snoc.IH)
    qed (simp_all add: tc_reset_def snoc.IH map_replicate_const)
  qed
  show "overtemp_latched (tc_run cfg (evs @ [ControlTick ph sensors dt ov]))
     = list_ex (\<lambda>b. b) (channel_latched (tc_run cfg (evs @ [ControlTick ph sensors dt ov])))"
    by (simp add: tc_latch_def Let_def)
qed

text \<open>C3. The safety limits bind every path: after any history, whatever the phase, the targets and the
  operator overrides of a tick are, the tick returns one duty per heater, and each duty is within
  \<^verbatim>\<open>[0, max_duty]\<close> (or a NaN of the loop's arithmetic), is zero for a latched heater, and is zero for
  a heater without a valid reading unless the bench flag is set.\<close>

theorem duty_respects_safety_limits:
  assumes "Fin 0 \<le> max_duty (oc_heaters cfg)"
  shows "let (duty, t) = compute_requested_duty ph sensors dt ov (tc_run cfg evs) in
    length duty = heater_count (oc_hardware cfg)
    \<and> list_all (\<lambda>i. (duty ! i = NaN \<or> Fin 0 \<le> duty ! i \<and> duty ! i \<le> max_duty (oc_heaters cfg))
         \<and> (channel_latched t ! i \<or> \<not> temp_valid_for cfg sensors i \<and> \<not> bench_open_loop_heaters ov
             \<longrightarrow> duty ! i = 0)) [0..<length duty]"
  using compute_ok [OF tc_run_inv [OF assms], of evs ph sensors dt ov] assms
  by (auto simp: split_beta list_all_iff duty_ok_def)

theorem duty_respects_safety_limits_witness:
  "let (duty, t) = compute_requested_duty Float
        \<lparr>sample_temps_c = [Fin 20], sample_temp_valid = [True]\<rparr> 1 no_control_overrides
        (tc_run onboard_default []) in
    length duty = heater_count (oc_hardware onboard_default)
    \<and> list_all (\<lambda>i. (duty ! i = NaN
           \<or> Fin 0 \<le> duty ! i \<and> duty ! i \<le> max_duty (oc_heaters onboard_default))
         \<and> (channel_latched t ! i
             \<or> \<not> temp_valid_for onboard_default
                   \<lparr>sample_temps_c = [Fin 20], sample_temp_valid = [True]\<rparr> i
               \<and> \<not> bench_open_loop_heaters no_control_overrides
             \<longrightarrow> duty ! i = 0)) [0..<length duty]"
  by (rule duty_respects_safety_limits) (simp add: onboard_default_def heater_output_default_def)

end
