(* ===== verification/PidAutoTuner.thy ===== *)
theory PidAutoTuner
  imports PidController
begin

text \<open>
  The relay auto-tuner (\<^verbatim>\<open>pid_autotuner.cpp\<close>): a heater is switched between zero and
  \<^verbatim>\<open>relay_duty\<close> around the setpoint until \<^verbatim>\<open>cycles\<close> full limit cycles are measured; the
  amplitude and the period of the cycle give the gains.  The reasons of a failure are the
  constructors of \<open>tune_error\<close> (the source keeps their texts); an abort carries the caller's text.
\<close>

subsection \<open>State\<close>

record tuner_config =
  setpoint_c :: dbl
  relay_duty :: dbl
  hysteresis_c :: dbl
  tune_cycles :: int
  timeout_s :: dbl
  abort_ceiling_c :: dbl

definition tuner_config_default :: tuner_config where
  "tuner_config_default =
     \<lparr>setpoint_c = Fin 40, relay_duty = Fin (1 / 2), hysteresis_c = Fin 1, tune_cycles = 4,
      timeout_s = Fin 1500, abort_ceiling_c = Fin 80\<rparr>"

record tuner_result =
  res_ku :: dbl
  res_tu_s :: dbl
  res_amplitude_c :: dbl
  res_cycles_used :: int
  res_gains :: pid_gains
  res_zn_gains :: pid_gains

definition no_result :: tuner_result where
  "no_result =
     \<lparr>res_ku = 0, res_tu_s = 0, res_amplitude_c = 0, res_cycles_used = 0,
      res_gains = \<lparr>kp = 0, ki = 0, kd = 0\<rparr>, res_zn_gains = \<lparr>kp = 0, ki = 0, kd = 0\<rparr>\<rparr>"

datatype tuner_state = TunerIdle | TunerRunning | TunerDone | TunerFailed

datatype tune_error =
    NoError
  | Aborted string
  | ReadingInvalid
  | CeilingExceeded
  | TimedOut
  | AmplitudeTooSmall
  | PeriodTooShort

record pid_autotuner =
  tuner_state :: tuner_state
  tuner_cfg :: tuner_config
  tuner_result :: tuner_result
  tuner_error :: tune_error
  start_s :: dbl
  relay_on :: bool
  first_on_phase :: bool
  have_on_switch :: bool
  last_on_switch_s :: dbl
  trough_c :: dbl
  peak_c :: dbl
  peaks_c :: "dbl list"
  troughs_c :: "dbl list"
  periods_s :: "dbl list"

definition new_autotuner :: pid_autotuner where
  "new_autotuner =
     \<lparr>tuner_state = TunerIdle, tuner_cfg = tuner_config_default, tuner_result = no_result,
      tuner_error = NoError, start_s = 0, relay_on = True, first_on_phase = True,
      have_on_switch = False, last_on_switch_s = 0, trough_c = 0, peak_c = 0, peaks_c = [],
      troughs_c = [], periods_s = []\<rparr>"

subsection \<open>Operations\<close>

definition dbl_max_value :: dbl where
  "dbl_max_value = Fin ((2 - 1 / 2 ^ 52) * 2 ^ 1023)"

definition k_pi :: dbl where
  "k_pi = to_dbl (314159265358979323846 / 100000000000000000000)"

definition mean_dbl :: "dbl list \<Rightarrow> dbl" where
  "mean_dbl v = (if v = [] then 0 else foldl (+) 0 v / dbl_of_int (int (length v)))"

definition tuner_start :: "tuner_config \<Rightarrow> dbl \<Rightarrow> pid_autotuner \<Rightarrow> pid_autotuner" where
  "tuner_start cfg now t =
     t\<lparr>tuner_cfg := cfg, tuner_result := no_result, tuner_error := NoError, start_s := now,
       relay_on := True, first_on_phase := True, have_on_switch := False, last_on_switch_s := 0,
       trough_c := dbl_max_value, peak_c := - dbl_max_value, peaks_c := [], troughs_c := [],
       periods_s := [], tuner_state := TunerRunning\<rparr>"

definition tuner_fail :: "tune_error \<Rightarrow> pid_autotuner \<Rightarrow> pid_autotuner" where
  "tuner_fail e t = t\<lparr>tuner_state := TunerFailed, tuner_error := e\<rparr>"

definition tuner_abort :: "string \<Rightarrow> pid_autotuner \<Rightarrow> pid_autotuner" where
  "tuner_abort reason t =
     (if tuner_state t = TunerRunning then tuner_fail (Aborted reason) t else t)"

definition tuner_finish :: "pid_autotuner \<Rightarrow> pid_autotuner" where
  "tuner_finish t =
     (let amplitude = (mean_dbl (peaks_c t) - mean_dbl (troughs_c t)) / Fin 2;
          tu = mean_dbl (periods_s t)
      in if amplitude < to_dbl (5 / 100) then tuner_fail AmplitudeTooSmall t
         else if tu < Fin 5 then tuner_fail PeriodTooShort t
         else
           (let d = relay_duty (tuner_cfg t) / Fin 2;
                ku = Fin 4 * d / (k_pi * amplitude);
                kp = ku / to_dbl (32 / 10);
                zn_kp = to_dbl (6 / 10) * ku
            in t\<lparr>tuner_result :=
                   \<lparr>res_ku = ku, res_tu_s = tu, res_amplitude_c = amplitude,
                    res_cycles_used = int (length (periods_s t)),
                    res_gains = \<lparr>kp = kp, ki = kp / (to_dbl (22 / 10) * tu),
                                 kd = kp * (tu / to_dbl (63 / 10))\<rparr>,
                    res_zn_gains = \<lparr>kp = zn_kp, ki = zn_kp / (tu / Fin 2),
                                    kd = zn_kp * (tu / Fin 8)\<rparr>\<rparr>,
                 tuner_state := TunerDone\<rparr>))"

definition cycles_needed :: "pid_autotuner \<Rightarrow> int" where
  "cycles_needed t = max 1 (tune_cycles (tuner_cfg t))"

definition enough_cycles :: "pid_autotuner \<Rightarrow> bool" where
  "enough_cycles t \<longleftrightarrow> cycles_needed t \<le> int (length (periods_s t))
     \<and> cycles_needed t \<le> int (length (troughs_c t)) \<and> cycles_needed t \<le> int (length (peaks_c t))"

text \<open>The two halves of a tick: the heater on, and the heater off.\<close>

definition tuner_on_sample :: "dbl \<Rightarrow> pid_autotuner \<Rightarrow> pid_autotuner" where
  "tuner_on_sample temp t =
     (let t = t\<lparr>trough_c := std_min (trough_c t) temp\<rparr>
      in if setpoint_c (tuner_cfg t) + hysteresis_c (tuner_cfg t) \<le> temp
         then t\<lparr>troughs_c := (if first_on_phase t then troughs_c t else troughs_c t @ [trough_c t]),
                first_on_phase := False, relay_on := False, peak_c := temp\<rparr>
         else t)"

definition tuner_off_sample :: "dbl \<Rightarrow> dbl \<Rightarrow> pid_autotuner \<Rightarrow> pid_autotuner" where
  "tuner_off_sample temp now t =
     (let t = t\<lparr>peak_c := std_max (peak_c t) temp\<rparr>
      in if temp \<le> setpoint_c (tuner_cfg t) - hysteresis_c (tuner_cfg t)
         then
           (let t = t\<lparr>peaks_c := peaks_c t @ [peak_c t],
                      periods_s := (if have_on_switch t
                                    then periods_s t @ [now - last_on_switch_s t]
                                    else periods_s t),
                      have_on_switch := True, last_on_switch_s := now, relay_on := True,
                      trough_c := temp\<rparr>
            in if enough_cycles t then tuner_finish t else t)
         else t)"

definition tuner_tick :: "bool \<Rightarrow> dbl \<Rightarrow> dbl \<Rightarrow> pid_autotuner \<Rightarrow> dbl \<times> pid_autotuner" where
  "tuner_tick temp_valid temp now t =
     (if tuner_state t \<noteq> TunerRunning then (0, t)
      else if \<not> temp_valid then (0, tuner_fail ReadingInvalid t)
      else if abort_ceiling_c (tuner_cfg t) \<le> temp then (0, tuner_fail CeilingExceeded t)
      else if timeout_s (tuner_cfg t) < now - start_s t then (0, tuner_fail TimedOut t)
      else
        (let t = (if relay_on t then tuner_on_sample temp t else tuner_off_sample temp now t)
         in if tuner_state t \<noteq> TunerRunning then (0, t)
            else (if relay_on t then relay_duty (tuner_cfg t) else 0, t)))"

subsection \<open>Runs\<close>

datatype tuner_event = TunerStart tuner_config dbl | TunerAbort string | TunerTick bool dbl dbl

fun tuner_step :: "pid_autotuner \<Rightarrow> tuner_event \<Rightarrow> pid_autotuner" where
  "tuner_step t (TunerStart cfg now) = tuner_start cfg now t"
| "tuner_step t (TunerAbort reason) = tuner_abort reason t"
| "tuner_step t (TunerTick v temp now) = snd (tuner_tick v temp now t)"

definition tuner_run :: "tuner_event list \<Rightarrow> pid_autotuner" where
  "tuner_run evs = foldl tuner_step new_autotuner evs"

lemma tuner_run_simps [simp]:
  "tuner_run [] = new_autotuner" "tuner_run (evs @ [e]) = tuner_step (tuner_run evs) e"
  by (simp_all add: tuner_run_def)

text \<open>The shape of the measurement while it runs: the approach has no trough, every switch back on
  closes one peak and, from the second on, one period, and every later switch off one trough.\<close>

definition tuner_counts :: "pid_autotuner \<Rightarrow> bool" where
  "tuner_counts t \<longleftrightarrow>
     length (periods_s t) = length (peaks_c t) - 1
     \<and> (have_on_switch t \<longleftrightarrow> peaks_c t \<noteq> [])
     \<and> (first_on_phase t \<longrightarrow> relay_on t \<and> peaks_c t = [])
     \<and> (relay_on t \<and> \<not> first_on_phase t \<longrightarrow> peaks_c t \<noteq> [])
     \<and> length (troughs_c t) = (if relay_on t then length (peaks_c t) - 1 else length (peaks_c t))"

definition band_low :: "pid_autotuner \<Rightarrow> dbl" where
  "band_low t = setpoint_c (tuner_cfg t) - hysteresis_c (tuner_cfg t)"

definition band_high :: "pid_autotuner \<Rightarrow> dbl" where
  "band_high t = setpoint_c (tuner_cfg t) + hysteresis_c (tuner_cfg t)"

definition tuner_extremes :: "pid_autotuner \<Rightarrow> bool" where
  "tuner_extremes t \<longleftrightarrow> list_all (\<lambda>p. band_high t \<le> p) (peaks_c t)
     \<and> list_all (\<lambda>p. p \<le> band_low t) (troughs_c t)
     \<and> (\<not> relay_on t \<longrightarrow> band_high t \<le> peak_c t)
     \<and> (relay_on t \<and> \<not> first_on_phase t \<longrightarrow> trough_c t \<le> band_low t)"

lemma tuner_finish_cases:
  obtains (failed) e where "tuner_finish t = tuner_fail e t"
  | (done_) r where "tuner_finish t = t\<lparr>tuner_result := r, tuner_state := TunerDone\<rparr>"
      "res_cycles_used r = int (length (periods_s t))"
  by (cases "(mean_dbl (peaks_c t) - mean_dbl (troughs_c t)) / Fin 2 < to_dbl (5 / 100)";
      cases "mean_dbl (periods_s t) < Fin 5") (auto simp: tuner_finish_def Let_def)

lemma tuner_finish_frame [simp, frame_simps]:
  "tuner_cfg (tuner_finish t) = tuner_cfg t" "peaks_c (tuner_finish t) = peaks_c t"
  "troughs_c (tuner_finish t) = troughs_c t" "periods_s (tuner_finish t) = periods_s t"
  "relay_on (tuner_finish t) = relay_on t" "first_on_phase (tuner_finish t) = first_on_phase t"
  "have_on_switch (tuner_finish t) = have_on_switch t" "peak_c (tuner_finish t) = peak_c t"
  "trough_c (tuner_finish t) = trough_c t" "start_s (tuner_finish t) = start_s t"
  by (cases rule: tuner_finish_cases [of t]; simp add: tuner_fail_def)+

lemma tuner_fail_frame [simp, frame_simps]:
  "tuner_cfg (tuner_fail e t) = tuner_cfg t" "peaks_c (tuner_fail e t) = peaks_c t"
  "troughs_c (tuner_fail e t) = troughs_c t" "periods_s (tuner_fail e t) = periods_s t"
  "tuner_state (tuner_fail e t) = TunerFailed"
  by (simp_all add: tuner_fail_def)

lemma tuner_finish_state [simp]: "tuner_state (tuner_finish t) \<noteq> TunerRunning"
  by (cases rule: tuner_finish_cases [of t]; simp)

lemma tuner_finish_done:
  "tuner_state (tuner_finish t) = TunerDone
     \<Longrightarrow> res_cycles_used (tuner_result (tuner_finish t)) = int (length (periods_s t))"
  by (cases rule: tuner_finish_cases [of t]; simp)

text \<open>The whole invariant of a run.\<close>

definition tuner_inv :: "pid_autotuner \<Rightarrow> bool" where
  "tuner_inv t \<longleftrightarrow>
     (tuner_state t = TunerRunning \<longrightarrow>
        tuner_counts t \<and> tuner_extremes t \<and> int (length (periods_s t)) < cycles_needed t)
     \<and> (tuner_state t = TunerDone \<longrightarrow>
        int (length (periods_s t)) = cycles_needed t
        \<and> length (troughs_c t) = length (periods_s t)
        \<and> length (peaks_c t) = length (periods_s t) + 1
        \<and> list_all (\<lambda>p. band_high t \<le> p) (peaks_c t) \<and> list_all (\<lambda>p. p \<le> band_low t) (troughs_c t)
        \<and> res_cycles_used (tuner_result t) = cycles_needed t)"

lemma std_min_le_left: "u \<le> m \<Longrightarrow> std_min u v \<le> m"
  by (cases u; cases v; cases m) (auto simp: std_min_def dbl_order_defs split: if_splits)

lemma std_max_ge_left: "m \<le> u \<Longrightarrow> m \<le> std_max u v"
  by (cases u; cases v; cases m) (auto simp: std_max_def dbl_order_defs split: if_splits)

lemma tuner_inv_on_sample:
  assumes "tuner_inv t" and "tuner_state t = TunerRunning" and "relay_on t"
  shows "tuner_inv (tuner_on_sample temp t)"
  using assms
  by (cases "first_on_phase t")
    (auto simp: tuner_inv_def tuner_counts_def tuner_extremes_def tuner_on_sample_def Let_def
      cycles_needed_def band_low_def band_high_def intro: std_min_le_left)

lemma tuner_inv_off_sample:
  assumes "tuner_inv t" and "tuner_state t = TunerRunning" and "\<not> relay_on t"
  shows "tuner_inv (tuner_off_sample temp now t)"
proof -
  let ?t = "t\<lparr>peak_c := std_max (peak_c t) temp\<rparr>"
  let ?u = "?t\<lparr>peaks_c := peaks_c t @ [std_max (peak_c t) temp],
      periods_s := (if have_on_switch t then periods_s t @ [now - last_on_switch_s t] else periods_s t),
      have_on_switch := True, last_on_switch_s := now, relay_on := True, trough_c := temp\<rparr>"
  have low: "tuner_inv ?t" using assms
    by (auto simp: tuner_inv_def tuner_counts_def tuner_extremes_def cycles_needed_def
        band_low_def band_high_def intro: std_max_ge_left)
  have counts: "tuner_counts ?u" using assms
    by (cases "peaks_c t") (auto simp: tuner_inv_def tuner_counts_def)
  have ext: "tuner_extremes ?u" if "temp \<le> band_low t" using assms that
    by (auto simp: tuner_inv_def tuner_extremes_def band_low_def band_high_def
        intro: std_max_ge_left)
  have run: "int (length (periods_s ?u)) \<le> cycles_needed ?u"
    using assms by (auto simp: tuner_inv_def cycles_needed_def)
  have enough: "enough_cycles ?u \<longleftrightarrow> cycles_needed ?u \<le> int (length (periods_s ?u))"
    using counts by (auto simp: enough_cycles_def tuner_counts_def)
  show ?thesis
  proof (cases "temp \<le> band_low t")
    case False
    then show ?thesis using low by (simp add: tuner_off_sample_def Let_def band_low_def)
  next
    case True
    have eq: "tuner_off_sample temp now t = (if enough_cycles ?u then tuner_finish ?u else ?u)"
      using True by (simp add: tuner_off_sample_def Let_def band_low_def)
    show ?thesis
    proof (cases "enough_cycles ?u")
      case False
      then show ?thesis unfolding eq using counts ext [OF True] enough assms(2)
        by (simp add: tuner_inv_def)
    next
      case True': True
      have len: "int (length (periods_s ?u)) = cycles_needed ?u" using True' enough run by linarith
      moreover have "1 \<le> cycles_needed ?u" by (simp add: cycles_needed_def)
      moreover have "length (troughs_c ?u) = length (periods_s ?u)"
        "length (periods_s ?u) = length (peaks_c ?u) - 1" using counts by (simp_all add: tuner_counts_def)
      moreover note ext [OF True] tuner_finish_done [of ?u]
      moreover have "cycles_needed (tuner_finish ?u) = cycles_needed ?u"
        "band_high (tuner_finish ?u) = band_high ?u" "band_low (tuner_finish ?u) = band_low ?u"
        by (simp_all add: cycles_needed_def band_high_def band_low_def)
      ultimately show ?thesis unfolding eq using True'
        by (simp add: tuner_inv_def tuner_extremes_def)
    qed
  qed
qed

lemma tuner_inv_run: "tuner_inv (tuner_run evs)"
proof (induction evs rule: rev_induct)
  case Nil
  then show ?case by (simp add: tuner_inv_def new_autotuner_def)
next
  case (snoc e evs)
  show ?case
  proof (cases e)
    case (TunerStart cfg now)
    then show ?thesis
      by (simp add: tuner_inv_def tuner_start_def tuner_counts_def tuner_extremes_def cycles_needed_def)
  next
    case (TunerAbort reason)
    then show ?thesis using snoc by (simp add: tuner_abort_def) (simp add: tuner_inv_def)
  next
    case (TunerTick v temp now)
    have fail: "tuner_inv (tuner_fail e t)" for e t by (simp add: tuner_inv_def)
    show ?thesis using snoc fail TunerTick tuner_inv_on_sample [of "tuner_run evs" temp]
        tuner_inv_off_sample [of "tuner_run evs" temp now]
      by (auto simp: tuner_tick_def Let_def)
  qed
qed

subsection \<open>Properties\<close>

text \<open>What a finished tune has measured: when any history of starts, aborts and ticks ends in
  \<^verbatim>\<open>kDone\<close>, exactly the configured number of cycles (at least one) was measured: as many periods
  and troughs, one peak more (the approach has a peak but no trough), every peak at or above the
  upper edge of the switching band and every trough at or below the lower edge; and a tune that
  is still running has measured fewer periods.\<close>

theorem tuner_measures_whole_cycles:
  "case tuner_state (tuner_run evs) of
     TunerDone \<Rightarrow>
       (let t = tuner_run evs; n = max 1 (tune_cycles (tuner_cfg t)) in
        res_cycles_used (tuner_result t) = n \<and> int (length (periods_s t)) = n
        \<and> int (length (troughs_c t)) = n \<and> int (length (peaks_c t)) = n + 1
        \<and> list_all (\<lambda>p. setpoint_c (tuner_cfg t) + hysteresis_c (tuner_cfg t) \<le> p) (peaks_c t)
        \<and> list_all (\<lambda>p. p \<le> setpoint_c (tuner_cfg t) - hysteresis_c (tuner_cfg t)) (troughs_c t))
   | TunerRunning \<Rightarrow>
       int (length (periods_s (tuner_run evs))) < max 1 (tune_cycles (tuner_cfg (tuner_run evs)))
   | _ \<Rightarrow> True"
  using tuner_inv_run [of evs]
  by (auto simp: tuner_inv_def Let_def cycles_needed_def band_high_def band_low_def
      split: tuner_state.splits)

text \<open>The heater is never driven outside a healthy tune: a tick commands zero, or it commands the
  configured relay duty with the tune still running, the reading valid and below the abort ceiling, the
  timeout not exceeded, and the relay on; and a tick that finds an invalid reading, a reading at
  the ceiling or the timeout passed ends a running tune as failed with that reason.\<close>

theorem tuner_tick_safe:
  "(case tuner_tick temp_valid temp now t of (duty, u) \<Rightarrow>
      duty = 0
      \<or> (duty = relay_duty (tuner_cfg t) \<and> tuner_state t = TunerRunning
          \<and> tuner_state u = TunerRunning \<and> relay_on u \<and> temp_valid
          \<and> \<not> abort_ceiling_c (tuner_cfg t) \<le> temp
          \<and> \<not> timeout_s (tuner_cfg t) < now - start_s t))
   \<and> (tuner_state t = TunerRunning
        \<and> (\<not> temp_valid \<or> abort_ceiling_c (tuner_cfg t) \<le> temp
            \<or> timeout_s (tuner_cfg t) < now - start_s t)
      \<longrightarrow> (case tuner_tick temp_valid temp now t of (duty, u) \<Rightarrow>
            duty = 0 \<and> tuner_state u = TunerFailed
            \<and> tuner_error u = (if \<not> temp_valid then ReadingInvalid
                 else if abort_ceiling_c (tuner_cfg t) \<le> temp then CeilingExceeded else TimedOut)))"
proof -
  have cfg: "tuner_cfg (tuner_on_sample temp t) = tuner_cfg t"
    "tuner_cfg (tuner_off_sample temp now t) = tuner_cfg t"
    by (simp_all add: tuner_on_sample_def tuner_off_sample_def Let_def)
  show ?thesis
    by (simp add: tuner_tick_def Let_def cfg tuner_fail_def)
qed

theorem tuner_tick_safe_witness:
  "tuner_error (snd (tuner_tick False 0 0 (tuner_start tuner_config_default 0 new_autotuner)))
     = ReadingInvalid"
  using tuner_tick_safe [where temp_valid = False and temp = 0 and now = 0
      and t = "tuner_start tuner_config_default 0 new_autotuner"]
  by (simp add: tuner_start_def split_beta)

end
