(* ===== verification/Containers.thy ===== *)
theory Containers
  imports Prelude "HOL-Library.Product_Lexorder"
begin

text \<open>
  \<^verbatim>\<open>std::map\<close> and \<^verbatim>\<open>std::set\<close> where the program iterates over them: a map is an association list
  with strictly increasing keys, a set a strictly increasing list.  The operations are those the
  components call, and the laws the components use are stated by the locale \<open>ordered_map\<close>.
\<close>

subsection \<open>Ordered maps\<close>

type_synonym ('k, 'v) omap = "('k \<times> 'v) list"

fun map_put :: "'k::linorder \<Rightarrow> 'v \<Rightarrow> ('k, 'v) omap \<Rightarrow> ('k, 'v) omap" where
  "map_put k v [] = [(k, v)]"
| "map_put k v (p # m) =
     (if k < fst p then (k, v) # p # m else if k = fst p then (k, v) # m else p # map_put k v m)"

definition map_emplace :: "'k::linorder \<Rightarrow> 'v \<Rightarrow> ('k, 'v) omap \<Rightarrow> ('k, 'v) omap" where
  "map_emplace k v m = (case map_of m k of None \<Rightarrow> map_put k v m | Some _ \<Rightarrow> m)"

definition map_erase :: "'k \<Rightarrow> ('k, 'v) omap \<Rightarrow> ('k, 'v) omap" where
  "map_erase k m = filter (\<lambda>p. fst p \<noteq> k) m"

text \<open>\<^verbatim>\<open>std::prev(m.upper_bound(k))\<close>: the last entry whose key is at most \<open>k\<close>.\<close>

definition map_pred :: "'k::linorder \<Rightarrow> ('k, 'v) omap \<Rightarrow> ('k \<times> 'v) option" where
  "map_pred k m =
     (let below = takeWhile (\<lambda>p. fst p \<le> k) m in if below = [] then None else Some (last below))"

definition omap_ok :: "('k::linorder, 'v) omap \<Rightarrow> bool" where
  "omap_ok m \<longleftrightarrow> sorted_wrt (<) (map fst m)"

lemma omap_ok_simps [simp]:
  "omap_ok []" "omap_ok (p # m) \<longleftrightarrow> (\<forall>q \<in> set m. fst p < fst q) \<and> omap_ok m"
  by (auto simp: omap_ok_def)

lemma omap_ok_distinct: "omap_ok m \<Longrightarrow> distinct (map fst m)"
  by (induction m) auto

lemma map_of_map_put [simp]: "map_of (map_put k v m) = (map_of m)(k \<mapsto> v)"
  by (induction m) (auto simp: fun_eq_iff)

lemma set_map_put_subset: "set (map_put k v m) \<subseteq> insert (k, v) (set m)"
  by (induction m) auto

lemma omap_ok_map_put [simp]: "omap_ok m \<Longrightarrow> omap_ok (map_put k v m)"
proof (induction m)
  case (Cons p m)
  show ?case using Cons set_map_put_subset [of k v m] by (auto dest: order.strict_trans)
qed simp

lemma omap_ok_map_emplace [simp]: "omap_ok m \<Longrightarrow> omap_ok (map_emplace k v m)"
  by (simp add: map_emplace_def split: option.split)

lemma map_put_end: "\<forall>q \<in> set m. fst q < k \<Longrightarrow> map_put k v m = m @ [(k, v)]"
  by (induction m) auto

lemma map_of_map_erase [simp]: "map_of (map_erase k m) = (map_of m)(k := None)"
  by (induction m) (auto simp: map_erase_def fun_eq_iff)

lemma omap_ok_map_erase [simp]: "omap_ok m \<Longrightarrow> omap_ok (map_erase k m)"
  by (induction m) (auto simp: map_erase_def)

lemma set_map_erase: "set (map_erase k m) = {p \<in> set m. fst p \<noteq> k}"
  by (auto simp: map_erase_def)

lemma omap_lookup_iff: "omap_ok m \<Longrightarrow> map_of m k = Some v \<longleftrightarrow> (k, v) \<in> set m"
  by (meson map_of_eq_Some_iff omap_ok_distinct)

lemma set_map_put:
  assumes "omap_ok m" shows "set (map_put k v m) = insert (k, v) {p \<in> set m. fst p \<noteq> k}"
proof (rule set_eqI)
  fix p :: "'a \<times> 'b"
  show "p \<in> set (map_put k v m) \<longleftrightarrow> p \<in> insert (k, v) {p \<in> set m. fst p \<noteq> k}"
    using omap_lookup_iff [OF omap_ok_map_put [OF assms], of k v "fst p" "snd p"]
      omap_lookup_iff [OF assms, of "fst p" "snd p"]
    by (cases p) (auto split: if_splits)
qed

lemma map_pred_Some:
  assumes "omap_ok m" and "map_pred k m = Some (a, b)"
  shows "(a, b) \<in> set m \<and> a \<le> k \<and> (\<forall>q \<in> set m. fst q \<le> k \<longrightarrow> fst q \<le> a)"
  using assms
proof (induction m)
  case (Cons p m)
  have rest: "takeWhile (\<lambda>q. fst q \<le> k) m = [] \<Longrightarrow> \<forall>q \<in> set m. \<not> fst q \<le> k"
    using Cons.prems(1) by (cases m) (auto split: if_splits dest: order.strict_trans2)
  show ?case using Cons rest by (auto simp: map_pred_def Let_def split: if_splits)
qed (simp add: map_pred_def)

lemma map_pred_None: "omap_ok m \<Longrightarrow> map_pred k m = None \<Longrightarrow> \<forall>q \<in> set m. k < fst q"
  by (cases m) (auto simp: map_pred_def Let_def split: if_splits)

lemma omap_last: "omap_ok m \<Longrightarrow> m \<noteq> [] \<Longrightarrow> last m \<in> set m \<and> (\<forall>q \<in> set m. fst q \<le> fst (last m))"
  by (induction m) (auto simp: order.strict_implies_order)

subsection \<open>The interface of a map\<close>

locale ordered_map =
  fixes put :: "'k \<Rightarrow> 'v \<Rightarrow> 'm \<Rightarrow> 'm" and del :: "'k \<Rightarrow> 'm \<Rightarrow> 'm"
    and look :: "'m \<Rightarrow> 'k \<Rightarrow> 'v option" and ok :: "'m \<Rightarrow> bool"
  assumes look_put: "ok m \<Longrightarrow> look (put k v m) = (look m)(k \<mapsto> v)"
    and look_del: "ok m \<Longrightarrow> look (del k m) = (look m)(k := None)"
    and ok_put: "ok m \<Longrightarrow> ok (put k v m)" and ok_del: "ok m \<Longrightarrow> ok (del k m)"
begin

text \<open>Replacing a key by others, as the queue does when it splits a run.\<close>

lemma look_split:
  "ok m \<Longrightarrow> look (put a x (put b y (del k m))) = (look m)(k := None, b \<mapsto> y, a \<mapsto> x)"
  by (simp add: look_put look_del ok_put ok_del)

lemma del_absent: "ok m \<Longrightarrow> look m k = None \<Longrightarrow> look (del k m) = look m"
  by (simp add: look_del fun_upd_idem)

end

interpretation omap: ordered_map map_put map_erase map_of omap_ok
  by unfold_locales auto

subsection \<open>Ordered sets\<close>

definition set_put :: "'a::linorder \<Rightarrow> 'a list \<Rightarrow> 'a list" where
  "set_put x s = insort_insert x s"

definition set_erase :: "'a \<Rightarrow> 'a list \<Rightarrow> 'a list" where
  "set_erase x s = filter (\<lambda>y. y \<noteq> x) s"

abbreviation oset_ok :: "'a::linorder list \<Rightarrow> bool" where
  "oset_ok s \<equiv> sorted_wrt (<) s"

lemma oset_ok_iff: "oset_ok s \<longleftrightarrow> sorted s \<and> distinct s"
  by (simp add: strict_sorted_iff)

lemma set_set_put [simp]: "set (set_put x s) = insert x (set s)"
  by (simp add: set_put_def set_insort_insert)

lemma oset_ok_set_put [simp]: "oset_ok s \<Longrightarrow> oset_ok (set_put x s)"
  by (simp add: set_put_def oset_ok_iff sorted_insort_insert distinct_insort_insert)

lemma set_set_erase [simp]: "set (set_erase x s) = set s - {x}"
  by (auto simp: set_erase_def)

lemma oset_ok_set_erase [simp]: "oset_ok s \<Longrightarrow> oset_ok (set_erase x s)"
  by (simp add: set_erase_def sorted_wrt_filter)

lemma oset_hd: "oset_ok s \<Longrightarrow> s \<noteq> [] \<Longrightarrow> hd s \<in> set s \<and> (\<forall>y \<in> set s. hd s \<le> y)"
  by (cases s) auto

end
