(* ===== verification/PendingRuns.thy ===== *)
theory PendingRuns
  imports Prelude
begin

text \<open>
  Maximal runs of consecutive members of a set of numbers, the specification of the run index of
  the telemetry queue, and how they change when the set grows at its end and when it loses a
  member.
\<close>

definition maximal_run :: "nat set \<Rightarrow> nat \<Rightarrow> nat \<Rightarrow> bool" where
  "maximal_run P s e \<longleftrightarrow> s \<le> e \<and> (\<forall>i. s \<le> i \<and> i \<le> e \<longrightarrow> i \<in> P) \<and> Suc e \<notin> P
     \<and> (\<forall>j. s = Suc j \<longrightarrow> j \<notin> P)"

lemma maximal_runD:
  assumes "maximal_run P s e"
  shows "s \<le> e" "s \<in> P" "e \<in> P" "Suc e \<notin> P" "s \<le> i \<Longrightarrow> i \<le> e \<Longrightarrow> i \<in> P" "s = Suc j \<Longrightarrow> j \<notin> P"
  using assms by (auto simp: maximal_run_def)

lemma maximal_run_not_extends:
  assumes "maximal_run P s e" and "maximal_run P s' e'" and "s < s'" and "s' \<le> Suc e"
  shows False
proof -
  obtain j where j: "s' = Suc j" using assms(3) by (cases s') auto
  then have "s \<le> j" "j \<le> e" using assms(3,4) by auto
  then have "j \<in> P" by (rule maximal_runD(5) [OF assms(1)])
  with maximal_runD(6) [OF assms(2) j] show False by simp
qed

lemma maximal_run_end_unique:
  assumes "maximal_run P s e" and "maximal_run P s e'"
  shows "e = e'"
proof (rule ccontr)
  have *: False if "maximal_run P s a" "maximal_run P s b" "a < b" for a b
    using maximal_runD(1,4) [OF that(1)] maximal_runD(5) [OF that(2), of "Suc a"] that(3) by auto
  assume "e \<noteq> e'"
  then show False using * [OF assms] * [OF assms(2,1)] by linarith
qed

lemma maximal_run_overlap:
  assumes "maximal_run P s e" and "maximal_run P s' e'" and "s' \<le> Suc e" and "s \<le> Suc e'"
  shows "s = s' \<and> e = e'"
proof -
  have "s = s'"
    using maximal_run_not_extends [OF assms(1,2)] maximal_run_not_extends [OF assms(2,1)] assms(3,4)
    by (meson linorder_neqE_nat)
  then show ?thesis using maximal_run_end_unique assms(1,2) by blast
qed

lemma maximal_run_start: "i \<in> P \<Longrightarrow> \<exists>s \<le> i. (\<forall>k. s \<le> k \<and> k \<le> i \<longrightarrow> k \<in> P) \<and> (\<forall>j. s = Suc j \<longrightarrow> j \<notin> P)"
proof (induction i)
  case 0
  then show ?case by (intro exI [of _ 0]) auto
next
  case (Suc i)
  show ?case
  proof (cases "i \<in> P")
    case True
    then obtain s where "s \<le> i" "\<forall>k. s \<le> k \<and> k \<le> i \<longrightarrow> k \<in> P" "\<forall>j. s = Suc j \<longrightarrow> j \<notin> P"
      using Suc.IH by blast
    with Suc.prems show ?thesis by (intro exI [of _ s]) (auto simp: le_Suc_eq)
  next
    case False
    with Suc.prems show ?thesis by (intro exI [of _ "Suc i"]) (auto simp: le_antisym)
  qed
qed

lemma maximal_run_exists:
  assumes "finite P" and "i \<in> P"
  shows "\<exists>s e. maximal_run P s e \<and> s \<le> i \<and> i \<le> e"
proof -
  obtain s where s: "s \<le> i" "\<forall>k. s \<le> k \<and> k \<le> i \<longrightarrow> k \<in> P" "\<forall>j. s = Suc j \<longrightarrow> j \<notin> P"
    using maximal_run_start [OF assms(2)] by blast
  have ex: "\<exists>n. i \<le> n \<and> Suc n \<notin> P"
  proof -
    have "Suc (max i (Max P)) \<notin> P" using Max_ge [OF assms(1)] by fastforce
    then show ?thesis by (intro exI [of _ "max i (Max P)"]) simp
  qed
  define e where "e = (LEAST n. i \<le> n \<and> Suc n \<notin> P)"
  have e: "i \<le> e" "Suc e \<notin> P" using LeastI_ex [OF ex] by (simp_all add: e_def)
  have "k \<in> P" if "i < k" "k \<le> e" for k
    using not_less_Least [of "k - 1" "\<lambda>n. i \<le> n \<and> Suc n \<notin> P"] that by (cases k) (auto simp: e_def)
  then have "maximal_run P s e" using s e assms(2)
    unfolding maximal_run_def by (metis le_trans not_le_imp_less nat_le_linear)
  then show ?thesis using s(1) e(1) by blast
qed

text \<open>A new member beyond all others either extends the last run or is a run of its own.\<close>

lemma maximal_run_add_extends:
  assumes above: "\<forall>p \<in> P. p \<le> n" and run: "maximal_run P s n"
  shows "maximal_run (insert (Suc n) P) a b \<longleftrightarrow>
    a = s \<and> b = Suc n \<or> maximal_run P a b \<and> \<not> (a = s \<and> b = n)"
proof
  assume m: "maximal_run (insert (Suc n) P) a b"
  show "a = s \<and> b = Suc n \<or> maximal_run P a b \<and> \<not> (a = s \<and> b = n)"
  proof (cases "b \<le> n")
    case True
    then have "b < n" using maximal_runD(4) [OF m] by (cases "b = n") auto
    then have "maximal_run P a b" using m by (auto simp: maximal_run_def)
    with \<open>b < n\<close> show ?thesis by auto
  next
    case False
    then have b: "b = Suc n" using maximal_runD(3) [OF m] above by auto
    have new: "maximal_run (insert (Suc n) P) s (Suc n)"
      using run above by (auto simp: maximal_run_def le_Suc_eq)
    have "a = s" using maximal_run_overlap [OF m new] b maximal_runD(1) [OF m] maximal_runD(1) [OF new]
      by auto
    with b show ?thesis by simp
  qed
next
  assume "a = s \<and> b = Suc n \<or> maximal_run P a b \<and> \<not> (a = s \<and> b = n)"
  then show "maximal_run (insert (Suc n) P) a b"
  proof
    assume "a = s \<and> b = Suc n"
    then show ?thesis using run above by (auto simp: maximal_run_def le_Suc_eq)
  next
    assume m: "maximal_run P a b \<and> \<not> (a = s \<and> b = n)"
    then have "b \<le> n" using above maximal_runD(3) by blast
    moreover have "b \<noteq> n" using maximal_run_overlap [OF _ run, of a b] m maximal_runD(1) [OF run]
        maximal_runD(1) [of P a b] by auto
    moreover have "a \<le> b" using m maximal_runD(1) by blast
    ultimately show ?thesis using m by (auto simp: maximal_run_def)
  qed
qed

lemma maximal_run_add_fresh:
  assumes above: "\<forall>p \<in> P. p < n" and gap: "\<forall>j. n = Suc j \<longrightarrow> j \<notin> P"
  shows "maximal_run (insert n P) a b \<longleftrightarrow> a = n \<and> b = n \<or> maximal_run P a b"
proof
  assume m: "maximal_run (insert n P) a b"
  have "maximal_run (insert n P) n n" using above gap by (auto simp: maximal_run_def)
  show "a = n \<and> b = n \<or> maximal_run P a b"
  proof (cases "b = n")
    case True
    then show ?thesis using maximal_run_overlap [OF m \<open>maximal_run (insert n P) n n\<close>]
        maximal_runD(1) [OF m] by auto
  next
    case False
    then have "b < n" using maximal_runD(3) [OF m] above by auto
    then show ?thesis using m by (auto simp: maximal_run_def)
  qed
next
  assume "a = n \<and> b = n \<or> maximal_run P a b"
  then show "maximal_run (insert n P) a b"
  proof
    assume "a = n \<and> b = n"
    then show ?thesis using above gap by (auto simp: maximal_run_def)
  next
    assume m: "maximal_run P a b"
    then have "b < n" using above maximal_runD(3) by blast
    moreover have "Suc b \<noteq> n" using gap maximal_runD(3) [OF m] by blast
    ultimately show ?thesis using m maximal_runD(1) [OF m] by (auto simp: maximal_run_def)
  qed
qed

text \<open>Losing a member splits the run it was in.\<close>

lemma maximal_run_remove:
  assumes run: "maximal_run P s e" and i: "s \<le> i" "i \<le> e"
  shows "maximal_run (P - {i}) a b \<longleftrightarrow>
    maximal_run P a b \<and> \<not> (a = s \<and> b = e) \<or> s < i \<and> a = s \<and> Suc b = i \<or> i < e \<and> a = Suc i \<and> b = e"
    (is "?new \<longleftrightarrow> ?other \<or> ?left \<or> ?right")
proof
  have left: "maximal_run (P - {i}) s (i - 1)" if "s < i" using run i that
    by (auto simp: maximal_run_def)
  have right: "maximal_run (P - {i}) (Suc i) e" if "i < e" using run i that
    by (auto simp: maximal_run_def)
  {
    assume m: ?new
    note ab = maximal_runD(1) [OF m]
    consider "Suc b < s" | "e < a" | "Suc b \<ge> s" "a \<le> e" by linarith
    then show "?other \<or> ?left \<or> ?right"
    proof cases
      case 1
      then have "maximal_run P a b" using m i ab by (auto simp: maximal_run_def)
      with 1 show ?thesis using ab by auto
    next
      case 2
      have "a \<noteq> Suc e" using maximal_runD(2) [OF m] maximal_runD(4) [OF run] by auto
      then have "Suc i < a" using 2 i by linarith
      then have "maximal_run P a b" using m ab by (auto simp: maximal_run_def)
      with 2 show ?thesis using ab maximal_runD(1) [OF run] by auto
    next
      case 3
      have b_not: "b \<noteq> i" "a \<noteq> i" using maximal_runD(2,3) [OF m] by auto
      have no_cover: "\<not> (a < i \<and> i < b)" using maximal_runD(5) [OF m, of i] by auto
      consider "b < i" | "i < a" using b_not no_cover ab by linarith
      then show ?thesis
      proof cases
        case 1
        show ?thesis
        proof (cases "s < i")
          case True
          then show ?thesis using maximal_run_overlap [OF m left [OF True]] 3 1 ab by auto
        next
          case False
          then have "Suc b = s" using 1 3 i by linarith
          then have "b \<notin> P" using maximal_runD(6) [OF run, of b] by simp
          then show ?thesis using maximal_runD(3) [OF m] by simp
        qed
      next
        case 2
        then have "i < e" using 3 by linarith
        then show ?thesis using maximal_run_overlap [OF m right [OF \<open>i < e\<close>]] 3 2 ab by auto
      qed
    qed
  }
  assume "?other \<or> ?left \<or> ?right"
  then consider ?other | ?left | ?right by blast
  then show ?new
  proof cases
    case 1
    then have "Suc b < s \<or> Suc e < a"
      using maximal_run_overlap [OF _ run, of a b] by (meson not_less)
    then show ?thesis using 1 i maximal_runD(1) [of P a b] by (auto simp: maximal_run_def)
  qed (use left right in auto)
qed

end
