(* ===== verification/TelemetryQueue.thy ===== *)
theory TelemetryQueue
  imports Text Containers PendingRuns
begin

text \<open>
  The durable retransmission buffer (\<^verbatim>\<open>telemetry_queue.cpp\<close>): the frames not acknowledged yet, by
  arrival index; the index of every (session, sequence) key; the indices of the event frames; the
  maximal runs of consecutive pending indices, by start and by length; the byte counts that decide
  a compaction; and the file \<^verbatim>\<open>pending.queue\<close> as the bytes it holds.

  What a call finds outside the process, the two clocks and the outcomes of its file operations,
  is its argument \<open>queue_env\<close>: any of them may fail, an append may leave a torn line, a failed
  rename may leave the old file or lose it.  The counters are unbounded numbers (the source's are
  64 bits wide and would take \<open>2 ^ 64\<close> frames to wrap).  The mutex makes each method one step.
\<close>

subsection \<open>Frames and lines\<close>

record queued_frame =
  queued_epoch_s :: int
  qf_session :: string
  qf_seq :: nat
  qf_text :: string
  qf_index :: nat

definition is_event_frame :: "queued_frame \<Rightarrow> bool" where
  "is_event_frame f \<longleftrightarrow> starts_with ''EVT,'' (qf_text f)"

definition tab_char :: char where
  "tab_char = CHR 0x09"

definition newline_char :: char where
  "newline_char = CHR 0x0A"

definition format_line :: "queued_frame \<Rightarrow> string" where
  "format_line f =
     show_int (queued_epoch_s f) @ [tab_char] @ qf_session f @ [tab_char]
     @ show_nat (qf_seq f) @ [tab_char] @ qf_text f"

definition parse_line :: "string \<Rightarrow> queued_frame option" where
  "parse_line line =
     (case split_first tab_char line of None \<Rightarrow> None
      | Some (epoch, rest1) \<Rightarrow>
        (case split_first tab_char rest1 of None \<Rightarrow> None
         | Some (session, rest2) \<Rightarrow>
           (case split_first tab_char rest2 of None \<Rightarrow> None
            | Some (seq, text) \<Rightarrow>
              (case stoll epoch of None \<Rightarrow> None
               | Some (e, _) \<Rightarrow>
                 (case stoull seq of None \<Rightarrow> None
                  | Some (n, _) \<Rightarrow>
                      if session \<noteq> [] \<and> text \<noteq> []
                      then Some \<lparr>queued_epoch_s = e, qf_session = session, qf_seq = n,
                                 qf_text = text, qf_index = 0\<rparr>
                      else None)))))"

definition line_bytes :: "queued_frame \<Rightarrow> nat" where
  "line_bytes f = length (format_line f) + 1"

subsection \<open>State\<close>

record telemetry_queue =
  queue_dir :: string
  retention_hours :: dbl
  max_bytes :: nat
  compact_min_dead_bytes :: nat
  compact_max_live_bytes :: nat
  compact_cheap_live_bytes :: nat
  frames :: "(nat, queued_frame) omap"
  by_key :: "string \<times> nat \<rightharpoonup> nat"
  events :: "nat list"
  runs :: "(nat, nat) omap"
  runs_by_length :: "(int \<times> nat) list"
  next_index :: nat
  live_bytes :: nat
  dead_bytes :: nat
  persistence_enabled :: bool
  next_persistence_retry :: time_point
  queue_file :: "string option"

definition new_queue :: "string \<Rightarrow> dbl \<Rightarrow> nat \<Rightarrow> nat \<Rightarrow> nat \<Rightarrow> nat \<Rightarrow> string option \<Rightarrow> telemetry_queue" where
  "new_queue dir hours max_b min_dead max_live cheap file =
     \<lparr>queue_dir = dir, retention_hours = hours, max_bytes = max_b, compact_min_dead_bytes = min_dead,
      compact_max_live_bytes = max_live, compact_cheap_live_bytes = cheap, frames = [],
      by_key = Map.empty, events = [], runs = [], runs_by_length = [], next_index = 0,
      live_bytes = 0, dead_bytes = 0, persistence_enabled = True, next_persistence_retry = 0,
      queue_file = file\<rparr>"

datatype append_outcome = AppendOk | AppendFails string
datatype compact_outcome = CompactOk | NoTempFile | WriteFails | CommitFails bool

record queue_env =
  env_epoch :: int
  env_steady :: time_point
  env_mkdir_ok :: bool
  env_open_ok :: bool
  env_create_ok :: bool
  env_retry_compact :: compact_outcome
  env_append :: append_outcome
  env_compact :: compact_outcome

text \<open>\<^verbatim>\<open>queue_dir / "pending.queue"\<close>.\<close>

definition queue_path :: "telemetry_queue \<Rightarrow> string" where
  "queue_path q =
     queue_dir q @ (if queue_dir q = [] \<or> last (queue_dir q) = CHR ''/'' then [] else ''/'')
     @ ''pending.queue''"

definition retention_s :: "telemetry_queue \<Rightarrow> int" where
  "retention_s q = dbl_to_i64 (retention_hours q * Fin 3600)"

subsection \<open>The runs of pending indices\<close>

definition length_key_base :: int where
  "length_key_base = 2 ^ 64 - 1"

definition length_key :: "nat \<Rightarrow> nat \<Rightarrow> int \<times> nat" where
  "length_key s e = (length_key_base - int (e - s + 1), s)"

definition add_run :: "nat \<Rightarrow> nat \<Rightarrow> telemetry_queue \<Rightarrow> telemetry_queue" where
  "add_run s e q =
     q\<lparr>runs := map_put s e (runs q), runs_by_length := set_put (length_key s e) (runs_by_length q)\<rparr>"

definition erase_run :: "nat \<times> nat \<Rightarrow> telemetry_queue \<Rightarrow> telemetry_queue" where
  "erase_run r q =
     q\<lparr>runs_by_length := set_erase (length_key (fst r) (snd r)) (runs_by_length q),
       runs := map_erase (fst r) (runs q)\<rparr>"

definition insert_frame :: "queued_frame \<Rightarrow> telemetry_queue \<Rightarrow> telemetry_queue" where
  "insert_frame frame q =
     (let index = next_index q;
          frame = frame\<lparr>qf_index := index\<rparr>;
          q = q\<lparr>next_index := index + 1, live_bytes := live_bytes q + line_bytes frame,
                by_key := (by_key q)((qf_session frame, qf_seq frame) \<mapsto> index),
                events := (if is_event_frame frame then set_put index (events q) else events q)\<rparr>
      in if runs q \<noteq> [] \<and> snd (last (runs q)) + 1 = index
         then
           (let r = last (runs q); q = add_run (fst r) index (erase_run r q)
            in q\<lparr>frames := map_emplace index frame (frames q)\<rparr>)
         else
           (let q = add_run index index q in q\<lparr>frames := map_emplace index frame (frames q)\<rparr>))"

definition split_run :: "nat \<Rightarrow> telemetry_queue \<Rightarrow> telemetry_queue" where
  "split_run index q =
     (case map_pred index (runs q) of None \<Rightarrow> q
      | Some (s, e) \<Rightarrow>
          if e < index then q
          else
            (let q = erase_run (s, e) q;
                 q = (if s < index then add_run s (index - 1) q else q)
             in if index < e then add_run (index + 1) e q else q))"

definition remove_frame :: "nat \<Rightarrow> telemetry_queue \<Rightarrow> telemetry_queue" where
  "remove_frame index q =
     (case map_of (frames q) index of None \<Rightarrow> q
      | Some f \<Rightarrow>
          (let b = line_bytes f; key = (qf_session f, qf_seq f)
           in split_run index
                (q\<lparr>live_bytes := live_bytes q - b, dead_bytes := dead_bytes q + b,
                   by_key := (if by_key q key = Some index then (by_key q)(key := None) else by_key q),
                   events := set_erase index (events q),
                   frames := map_erase index (frames q)\<rparr>)))"

subsection \<open>The file\<close>

definition file_bytes :: "telemetry_queue \<Rightarrow> string" where
  "file_bytes q = (case queue_file q of None \<Rightarrow> [] | Some c \<Rightarrow> c)"

definition append_to_file :: "append_outcome \<Rightarrow> queued_frame \<Rightarrow> telemetry_queue \<Rightarrow> bool \<times> telemetry_queue" where
  "append_to_file outcome frame q =
     (case outcome of
        AppendOk \<Rightarrow> (True, q\<lparr>queue_file := Some (file_bytes q @ format_line frame @ [newline_char])\<rparr>)
      | AppendFails torn \<Rightarrow> (False, q\<lparr>queue_file := Some (file_bytes q @ torn)\<rparr>))"

definition file_image :: "(nat, queued_frame) omap \<Rightarrow> string" where
  "file_image m = concat (map (\<lambda>p. format_line (snd p) @ [newline_char]) m)"

text \<open>The rewrite of the file; \<open>None\<close> is success, otherwise the text of the error.  When the rename
  over the old file fails, the old file is removed before the second attempt, so a failure there
  may lose it.\<close>

definition compact :: "compact_outcome \<Rightarrow> telemetry_queue \<Rightarrow> string option \<times> telemetry_queue" where
  "compact outcome q =
     (case outcome of
        CompactOk \<Rightarrow> (None, q\<lparr>queue_file := Some (file_image (frames q)), dead_bytes := 0\<rparr>)
      | NoTempFile \<Rightarrow> (Some ''unable to write temporary queue file'', q)
      | WriteFails \<Rightarrow> (Some ''failed to persist queue frame'', q)
      | CommitFails lost \<Rightarrow>
          (Some ''unable to commit queue file'', if lost then q\<lparr>queue_file := None\<rparr> else q))"

definition maybe_compact :: "compact_outcome \<Rightarrow> telemetry_queue \<Rightarrow> telemetry_queue" where
  "maybe_compact outcome q =
     (if \<not> persistence_enabled q then q
      else if dead_bytes q = 0 then q
      else
        (let rewrite_is_cheap = live_bytes q \<le> compact_cheap_live_bytes q;
             dead_weight_worth_dropping =
               (compact_min_dead_bytes q \<le> dead_bytes q \<and> live_bytes q \<le> compact_max_live_bytes q)
         in if \<not> rewrite_is_cheap \<and> \<not> dead_weight_worth_dropping then q
            else
              (let (err, q) = compact outcome q
               in if err = None then q else q\<lparr>persistence_enabled := False\<rparr>)))"

definition retry_persistence :: "queue_env \<Rightarrow> telemetry_queue \<Rightarrow> telemetry_queue" where
  "retry_persistence env q =
     (if persistence_enabled q then q
      else if next_persistence_retry q \<noteq> 0 \<and> env_steady env < next_persistence_retry q then q
      else
        (let q = q\<lparr>next_persistence_retry := env_steady env + seconds 5\<rparr>
         in if \<not> env_mkdir_ok env then q
            else
              (let (err, q) = compact (env_retry_compact env) (q\<lparr>persistence_enabled := True\<rparr>)
               in if err = None then q else q\<lparr>persistence_enabled := False\<rparr>)))"

subsection \<open>The operations\<close>

function prune_while :: "(telemetry_queue \<Rightarrow> bool) \<Rightarrow> telemetry_queue \<Rightarrow> telemetry_queue" where
  "prune_while cond q =
     (if frames q \<noteq> [] \<and> cond q then prune_while cond (remove_frame (fst (hd (frames q))) q) else q)"
  by pat_completeness auto

definition too_old :: "int \<Rightarrow> telemetry_queue \<Rightarrow> bool" where
  "too_old now q \<longleftrightarrow> retention_s q < now - queued_epoch_s (snd (hd (frames q)))"

definition prune :: "int \<Rightarrow> telemetry_queue \<Rightarrow> telemetry_queue" where
  "prune now q =
     (let q = (if 0 < retention_s q then prune_while (too_old now) q else q)
      in if max_bytes q = 0 then q else prune_while (\<lambda>q. max_bytes q < live_bytes q) q)"

definition enqueue :: "queue_env \<Rightarrow> queued_frame \<Rightarrow> telemetry_queue \<Rightarrow> string option \<times> nat \<times> telemetry_queue" where
  "enqueue env frame q =
     (let assigned = next_index q;
          q = retry_persistence env (prune (env_epoch env) (insert_frame frame q))
      in if \<not> persistence_enabled q then (None, assigned, q)
         else
           (let (ok, q) = append_to_file (env_append env) frame q
            in if \<not> ok
               then (Some ''failed to persist queue frame'', assigned, q\<lparr>persistence_enabled := False\<rparr>)
               else (None, assigned, maybe_compact (env_compact env) q)))"

definition acknowledge :: "queue_env \<Rightarrow> string \<Rightarrow> nat \<Rightarrow> telemetry_queue \<Rightarrow> telemetry_queue" where
  "acknowledge env session seq q =
     (let acked = map fst (filter (\<lambda>(_, f). qf_session f = session \<and> qf_seq f \<le> seq) (frames q))
      in if acked = [] then q
         else maybe_compact (env_compact env) (retry_persistence env (fold remove_frame acked q)))"

definition acknowledge_exact :: "queue_env \<Rightarrow> queued_frame \<Rightarrow> telemetry_queue \<Rightarrow> telemetry_queue" where
  "acknowledge_exact env frame q =
     (case by_key q (qf_session frame, qf_seq frame) of None \<Rightarrow> q
      | Some index \<Rightarrow>
          (case map_of (frames q) index of None \<Rightarrow> q
           | Some pending \<Rightarrow>
               if qf_text pending \<noteq> qf_text frame then q
               else maybe_compact (env_compact env) (retry_persistence env (remove_frame index q))))"

definition pending_frames :: "nat \<Rightarrow> telemetry_queue \<Rightarrow> queued_frame list" where
  "pending_frames n q = take n (map snd (frames q))"

definition frame_at :: "nat \<Rightarrow> telemetry_queue \<Rightarrow> queued_frame option" where
  "frame_at index q = map_of (frames q) index"

definition pending_events :: "nat \<Rightarrow> telemetry_queue \<Rightarrow> queued_frame list" where
  "pending_events n q = map (\<lambda>i. the (map_of (frames q) i)) (take n (events q))"

definition next_replay :: "telemetry_queue \<Rightarrow> queued_frame option" where
  "next_replay q =
     (case runs_by_length q of [] \<Rightarrow> None
      | (_, s) # _ \<Rightarrow>
          (let e = the (map_of (runs q) s) in map_of (frames q) (s + (e - s) div 2)))"

definition queue_size :: "telemetry_queue \<Rightarrow> nat" where
  "queue_size q = length (frames q)"

text \<open>Loading the file: every line that parses and is not past its retention.\<close>

definition load_line :: "int \<Rightarrow> string \<Rightarrow> nat \<times> nat \<times> telemetry_queue \<Rightarrow> nat \<times> nat \<times> telemetry_queue" where
  "load_line now line = (\<lambda>(skipped, expired, q).
     if line = [] then (skipped, expired, q)
     else
       (case parse_line line of None \<Rightarrow> (skipped + 1, expired, q)
        | Some f \<Rightarrow>
            if 0 < retention_s q \<and> retention_s q < now - queued_epoch_s f
            then (skipped, expired + 1, q)
            else (skipped, expired, insert_frame f q)))"

definition cleared :: "telemetry_queue \<Rightarrow> telemetry_queue" where
  "cleared q =
     q\<lparr>frames := [], by_key := Map.empty, events := [], runs := [], runs_by_length := [],
       next_index := 0, live_bytes := 0, dead_bytes := 0\<rparr>"

definition initialize :: "queue_env \<Rightarrow> telemetry_queue \<Rightarrow> bool \<times> string option \<times> telemetry_queue" where
  "initialize env q =
     (if \<not> env_mkdir_ok env
      then (False, Some (''unable to create queue directory: '' @ queue_dir q),
            q\<lparr>persistence_enabled := False\<rparr>)
      else
        (let q = cleared q in
         if queue_file q = None \<or> \<not> env_open_ok env
         then
           (if \<not> env_create_ok env
            then (False, Some (''unable to initialize queue file: '' @ queue_path q),
                  q\<lparr>persistence_enabled := False\<rparr>)
            else (True, None, q\<lparr>queue_file := Some (file_bytes q)\<rparr>))
         else
           (let (skipped, expired, q) =
                  fold (load_line (env_epoch env)) (split_fields newline_char (file_bytes q)) (0, 0, q);
                (err, q) = compact (env_compact env) q
            in if err \<noteq> None then (False, err, q\<lparr>persistence_enabled := False\<rparr>)
               else (True,
                     if 0 < skipped \<or> 0 < expired
                     then Some (''queue loaded with '' @ show_nat skipped @ '' unparseable and ''
                                @ show_nat expired @ '' expired line(s) dropped'')
                     else None, q))))"

subsection \<open>Termination of the pruning loops\<close>

lemma runs_frame [simp, frame_simps]:
  "frames (add_run s e q) = frames q" "frames (erase_run r q) = frames q"
  "frames (split_run i q) = frames q"
  by (simp_all add: add_run_def erase_run_def split_run_def Let_def split: option.split prod.split)

lemma frames_remove [simp, frame_simps]: "frames (remove_frame i q) = map_erase i (frames q)"
proof (cases "map_of (frames q) i")
  case None
  then have "i \<notin> fst ` set (frames q)" by (simp add: map_of_eq_None_iff)
  then show ?thesis using None
    by (auto simp: remove_frame_def map_erase_def intro!: filter_True [symmetric])
qed (simp add: remove_frame_def Let_def)

termination prune_while
proof (relation "measure (\<lambda>(cond, q). length (frames q))", simp)
  fix cond and q :: telemetry_queue assume "frames q \<noteq> [] \<and> cond q"
  then show "((cond, remove_frame (fst (hd (frames q))) q), cond, q)
      \<in> measure (\<lambda>(cond, q). length (frames q))"
    by (cases "frames q") (simp_all add: map_erase_def le_imp_less_Suc)
qed

declare prune_while.simps [simp del]

subsection \<open>The invariant\<close>

definition pending :: "telemetry_queue \<Rightarrow> nat set" where
  "pending q = fst ` set (frames q)"

definition frames_ok :: "telemetry_queue \<Rightarrow> bool" where
  "frames_ok q \<longleftrightarrow> omap_ok (frames q)
     \<and> (\<forall>i f. (i, f) \<in> set (frames q) \<longrightarrow> i < next_index q \<and> qf_index f = i)
     \<and> live_bytes q = sum_list (map (\<lambda>p. line_bytes (snd p)) (frames q))"

definition runs_ok :: "telemetry_queue \<Rightarrow> bool" where
  "runs_ok q \<longleftrightarrow> omap_ok (runs q) \<and> (\<forall>s e. (s, e) \<in> set (runs q) \<longleftrightarrow> maximal_run (pending q) s e)
     \<and> oset_ok (runs_by_length q)
     \<and> set (runs_by_length q) = (\<lambda>(s, e). length_key s e) ` set (runs q)"

definition events_ok :: "telemetry_queue \<Rightarrow> bool" where
  "events_ok q \<longleftrightarrow> oset_ok (events q)
     \<and> (\<forall>i. i \<in> set (events q) \<longleftrightarrow> (\<exists>f. (i, f) \<in> set (frames q) \<and> is_event_frame f))"

abbreviation frame_key :: "queued_frame \<Rightarrow> string \<times> nat" where
  "frame_key f \<equiv> (qf_session f, qf_seq f)"

definition keys_ok :: "telemetry_queue \<Rightarrow> bool" where
  "keys_ok q \<longleftrightarrow>
     (\<forall>k i. by_key q k = Some i \<longrightarrow> (\<exists>f. (i, f) \<in> set (frames q) \<and> frame_key f = k))"

definition queue_inv :: "telemetry_queue \<Rightarrow> bool" where
  "queue_inv q \<longleftrightarrow> frames_ok q \<and> runs_ok q \<and> events_ok q \<and> keys_ok q"

text \<open>The invariant reads these fields only.\<close>

lemma queue_inv_cong:
  assumes "frames q' = frames q" "by_key q' = by_key q" "events q' = events q" "runs q' = runs q"
    "runs_by_length q' = runs_by_length q" "next_index q' = next_index q" "live_bytes q' = live_bytes q"
  shows "queue_inv q' = queue_inv q"
  by (simp add: queue_inv_def frames_ok_def runs_ok_def events_ok_def keys_ok_def pending_def assms)

lemma length_key_inj:
  "s \<le> e \<Longrightarrow> s' \<le> e' \<Longrightarrow> length_key s e = length_key s' e' \<longleftrightarrow> s = s' \<and> e = e'"
  by (auto simp: length_key_def)

subsection \<open>The run index\<close>

text \<open>A run index holds a relation when it lists it by start and by length.\<close>

definition indexes :: "telemetry_queue \<Rightarrow> (nat \<Rightarrow> nat \<Rightarrow> bool) \<Rightarrow> bool" where
  "indexes q R \<longleftrightarrow> omap_ok (runs q) \<and> (\<forall>s e. (s, e) \<in> set (runs q) \<longleftrightarrow> R s e)
     \<and> oset_ok (runs_by_length q)
     \<and> set (runs_by_length q) = (\<lambda>(s, e). length_key s e) ` set (runs q)"

lemma runs_ok_indexes: "runs_ok q \<longleftrightarrow> indexes q (maximal_run (pending q))"
  by (simp add: runs_ok_def indexes_def)

lemma indexes_cong: "indexes q R \<Longrightarrow> (\<And>s e. R s e \<longleftrightarrow> R' s e) \<Longrightarrow> indexes q R'"
  by (simp add: indexes_def)

lemma indexes_add_run:
  assumes "indexes q R" and "\<forall>b. \<not> R s b"
  shows "indexes (add_run s e q) (\<lambda>a b. a = s \<and> b = e \<or> R a b)"
proof -
  have "set (map_put s e (runs q)) = insert (s, e) (set (runs q))"
    using assms by (auto simp: indexes_def set_map_put)
  then show ?thesis using assms(1) by (auto simp: indexes_def add_run_def)
qed

lemma indexes_erase_run:
  assumes ix: "indexes q R" and "R s e" and le: "\<And>a b. R a b \<Longrightarrow> a \<le> b"
    and uniq: "\<And>b. R s b \<Longrightarrow> b = e"
  shows "indexes (erase_run (s, e) q) (\<lambda>a b. R a b \<and> \<not> (a = s \<and> b = e))"
proof -
  have runs: "set (map_erase s (runs q)) = {p \<in> set (runs q). p \<noteq> (s, e)}"
  proof -
    have "fst p \<noteq> s \<longleftrightarrow> p \<noteq> (s, e)" if "p \<in> set (runs q)" for p
    proof -
      have "R (fst p) (snd p)" using that ix unfolding indexes_def by (metis prod.collapse)
      then show ?thesis using uniq [of "snd p"] by (metis fst_conv prod.collapse)
    qed
    then show ?thesis by (auto simp: set_map_erase)
  qed
  have mem: "(s, e) \<in> set (runs q)" using ix assms(2) by (simp add: indexes_def)
  have "inj_on (\<lambda>(s, e). length_key s e) (set (runs q))"
  proof (rule inj_onI, clarify)
    fix a b a' b'
    assume "(a, b) \<in> set (runs q)" "(a', b') \<in> set (runs q)" "length_key a b = length_key a' b'"
    then show "a = a' \<and> b = b'" using ix le [of a b] le [of a' b'] length_key_inj [of a b a' b']
      by (simp add: indexes_def)
  qed
  from inj_on_image_set_diff [OF this Diff_subset, of "{(s, e)}"] mem
  have image: "(\<lambda>(s, e). length_key s e) ` set (runs q) - {length_key s e}
      = (\<lambda>(s, e). length_key s e) ` (set (runs q) - {(s, e)})" by simp
  have erase: "set (map_erase s (runs q)) = set (runs q) - {(s, e)}" using runs by auto
  then show ?thesis using ix by (auto simp: indexes_def erase_run_def erase image)
qed

lemma indexes_fields:
  "runs q' = runs q \<Longrightarrow> runs_by_length q' = runs_by_length q \<Longrightarrow> indexes q' R = indexes q R"
  by (simp add: indexes_def)

lemma pending_erase: "frames q' = map_erase i (frames q) \<Longrightarrow> pending q' = pending q - {i}"
  by (auto simp: pending_def set_map_erase)

lemma finite_pending [simp]: "finite (pending q)"
  by (simp add: pending_def)

lemma indexes_split_run:
  assumes ix: "indexes q (maximal_run P)" and P: "finite P" "i \<in> P"
  shows "indexes (split_run i q) (maximal_run (P - {i}))"
proof -
  obtain s e where run: "maximal_run P s e" "s \<le> i" "i \<le> e" using maximal_run_exists [OF P] by blast
  then have mem: "(s, e) \<in> set (runs q)" using ix by (simp add: indexes_def)
  have ok: "omap_ok (runs q)" using ix by (simp add: indexes_def)
  obtain a b where pred: "map_pred i (runs q) = Some (a, b)"
  proof -
    have "map_pred i (runs q) \<noteq> None" using map_pred_None [OF ok, of i] mem run(2) by fastforce
    then show ?thesis using that by fastforce
  qed
  from map_pred_Some [OF ok this] have ab: "(a, b) \<in> set (runs q)" "a \<le> i" "s \<le> a"
    using mem run(2) by fastforce+
  have "maximal_run P a b" using ix ab(1) by (simp add: indexes_def)
  from maximal_run_overlap [OF run(1) this] ab run(3) maximal_runD(1) [OF this]
  have [simp]: "a = s" "b = e" by auto
  let ?q1 = "erase_run (s, e) q"
  let ?R1 = "\<lambda>a b. maximal_run P a b \<and> \<not> (a = s \<and> b = e)"
  let ?q2 = "if s < i then add_run s (i - 1) ?q1 else ?q1"
  let ?R2 = "\<lambda>a b. s < i \<and> a = s \<and> b = i - 1 \<or> ?R1 a b"
  let ?q3 = "if i < e then add_run (i + 1) e ?q2 else ?q2"
  have ix1: "indexes ?q1 ?R1"
    by (rule indexes_erase_run [OF ix run(1)]) (auto dest: maximal_runD(1) maximal_run_end_unique [OF run(1)])
  have no_s: "\<forall>b. \<not> ?R1 s b" using maximal_run_end_unique [OF run(1)] by blast
  have ix2: "indexes ?q2 ?R2"
    using indexes_add_run [OF ix1 no_s, of "i - 1"] ix1 by (auto elim: indexes_cong)
  have no_i: "\<forall>b. \<not> ?R2 (i + 1) b" if "i < e"
    using maximal_run_overlap [OF run(1), of "i + 1"] that run(2) maximal_runD(1) [of P "i + 1"]
    by fastforce
  have "indexes ?q3 (\<lambda>a b. i < e \<and> a = i + 1 \<and> b = e \<or> ?R2 a b)"
    using indexes_add_run [OF ix2 no_i, of e] ix2 by (auto elim: indexes_cong)
  moreover have "split_run i q = ?q3"
    using run(3) by (simp add: split_run_def pred Let_def)
  moreover have "(i < e \<and> a = i + 1 \<and> b = e \<or> ?R2 a b) \<longleftrightarrow> maximal_run (P - {i}) a b" for a b
    unfolding maximal_run_remove [OF run] by auto
  ultimately show ?thesis by (auto elim: indexes_cong)
qed

lemma indexes_insert:
  assumes ix: "indexes q (maximal_run P)" and P: "finite P" "\<forall>p \<in> P. p < n"
  shows "indexes (if runs q \<noteq> [] \<and> snd (last (runs q)) + 1 = n
       then add_run (fst (last (runs q))) n (erase_run (last (runs q)) q) else add_run n n q)
     (maximal_run (insert n P))"
proof -
  have ok: "omap_ok (runs q)" and mem: "(s, e) \<in> set (runs q) \<longleftrightarrow> maximal_run P s e" for s e
    using ix by (simp_all add: indexes_def)
  show ?thesis
  proof (cases "runs q \<noteq> [] \<and> snd (last (runs q)) + 1 = n")
    case True
    obtain s e where last: "last (runs q) = (s, e)" by fastforce
    then have run: "maximal_run P s e" using omap_last [OF ok] True mem by simp
    have n: "n = Suc e" using True last by simp
    have above: "\<forall>p \<in> P. p \<le> e" using P(2) n by (simp add: less_Suc_eq_le)
    let ?R = "\<lambda>a b. maximal_run P a b \<and> \<not> (a = s \<and> b = e)"
    have "indexes (erase_run (s, e) q) ?R"
      by (rule indexes_erase_run [OF ix run])
        (auto dest: maximal_runD(1) maximal_run_end_unique [OF run])
    then have "indexes (add_run s n (erase_run (s, e) q)) (\<lambda>a b. a = s \<and> b = n \<or> ?R a b)"
      by (rule indexes_add_run) (use maximal_run_end_unique [OF run] in blast)
    then show ?thesis using True last n
      by (auto elim!: indexes_cong simp: maximal_run_add_extends [OF above run])
  next
    case False
    have gap: "j \<notin> P" if n: "n = Suc j" for j
    proof
      assume "j \<in> P"
      then obtain a b where ab: "maximal_run P a b" "a \<le> j" "j \<le> b"
        using maximal_run_exists [OF P(1)] by blast
      have "b = j" using ab(3) maximal_runD(3) [OF ab(1)] P(2) n by fastforce
      have ne: "runs q \<noteq> []" using ab(1) mem by force
      obtain s e where last: "last (runs q) = (s, e)" by fastforce
      then have run: "maximal_run P s e" and "a \<le> s"
        using omap_last [OF ok ne] mem ab(1) by fastforce+
      have "e \<le> j" using maximal_runD(3) [OF run] P(2) n by fastforce
      then have "e = j" using maximal_run_overlap [OF ab(1) run] \<open>a \<le> s\<close> \<open>b = j\<close> maximal_runD(1) [OF run]
        by auto
      then show False using False ne last n by simp
    qed
    have fresh: "\<forall>b. \<not> maximal_run P n b" using P(2) maximal_runD(2) by blast
    have "indexes (add_run n n q) (\<lambda>a b. a = n \<and> b = n \<or> maximal_run P a b)"
      by (rule indexes_add_run [OF ix fresh])
    then show ?thesis using False gap
      by (auto elim!: indexes_cong simp: maximal_run_add_fresh [OF P(2)])
  qed
qed

subsection \<open>The invariant is kept\<close>

lemma keys_okD:
  "keys_ok q \<Longrightarrow> by_key q k = Some i \<Longrightarrow> \<exists>f. (i, f) \<in> set (frames q) \<and> frame_key f = k"
  unfolding keys_ok_def by blast

lemma run_fields [simp, frame_simps]:
  "by_key (add_run s e q) = by_key q" "events (add_run s e q) = events q"
  "next_index (add_run s e q) = next_index q" "live_bytes (add_run s e q) = live_bytes q"
  "dead_bytes (add_run s e q) = dead_bytes q" "queue_file (add_run s e q) = queue_file q"
  "persistence_enabled (add_run s e q) = persistence_enabled q"
  "by_key (erase_run r q) = by_key q" "events (erase_run r q) = events q"
  "next_index (erase_run r q) = next_index q" "live_bytes (erase_run r q) = live_bytes q"
  "dead_bytes (erase_run r q) = dead_bytes q" "queue_file (erase_run r q) = queue_file q"
  "persistence_enabled (erase_run r q) = persistence_enabled q"
  by (simp_all add: add_run_def erase_run_def)

lemma split_run_fields [simp, frame_simps]:
  "by_key (split_run i q) = by_key q" "events (split_run i q) = events q"
  "next_index (split_run i q) = next_index q" "live_bytes (split_run i q) = live_bytes q"
  "dead_bytes (split_run i q) = dead_bytes q" "queue_file (split_run i q) = queue_file q"
  "persistence_enabled (split_run i q) = persistence_enabled q"
  by (simp_all add: split_run_def Let_def split: option.split prod.split)

lemma queue_inv_empty [inv_intros]: "queue_inv (new_queue dir h mb md ml c file)"
  by (simp add: queue_inv_def frames_ok_def runs_ok_def events_ok_def keys_ok_def pending_def
      new_queue_def maximal_run_def) auto

lemma queue_inv_cleared [inv_intros]: "queue_inv (cleared q)"
  by (simp add: queue_inv_def frames_ok_def runs_ok_def events_ok_def keys_ok_def pending_def
      cleared_def maximal_run_def) auto

text \<open>What an insertion does to the fields.\<close>

abbreviation indexed :: "queued_frame \<Rightarrow> nat \<Rightarrow> queued_frame" where
  "indexed f i \<equiv> f\<lparr>qf_index := i\<rparr>"

lemma line_bytes_indexed [simp]: "line_bytes (indexed f i) = line_bytes f"
  by (simp add: line_bytes_def format_line_def)

lemma is_event_indexed [simp]: "is_event_frame (indexed f i) = is_event_frame f"
  by (simp add: is_event_frame_def)

lemma insert_frame_fields [simp]:
  "by_key (insert_frame f q) = (by_key q)(frame_key f \<mapsto> next_index q)"
  "events (insert_frame f q) = (if is_event_frame f then set_put (next_index q) (events q) else events q)"
  "next_index (insert_frame f q) = next_index q + 1"
  "live_bytes (insert_frame f q) = live_bytes q + line_bytes f"
  "dead_bytes (insert_frame f q) = dead_bytes q" "queue_file (insert_frame f q) = queue_file q"
  "persistence_enabled (insert_frame f q) = persistence_enabled q"
  by (simp_all add: insert_frame_def Let_def)

lemma insert_frame_frames:
  assumes "frames_ok q"
  shows "frames (insert_frame f q) = frames q @ [(next_index q, indexed f (next_index q))]"
proof -
  have below: "\<forall>p \<in> set (frames q). fst p < next_index q" using assms by (auto simp: frames_ok_def)
  then have "map_of (frames q) (next_index q) = None" by (auto simp: map_of_eq_None_iff)
  then show ?thesis using map_put_end [OF below]
    by (simp add: insert_frame_def Let_def map_emplace_def)
qed

lemma insert_frame_runs:
  "runs (insert_frame f q) = runs (if runs q \<noteq> [] \<and> snd (last (runs q)) + 1 = next_index q
       then add_run (fst (last (runs q))) (next_index q) (erase_run (last (runs q)) q)
       else add_run (next_index q) (next_index q) q)"
  "runs_by_length (insert_frame f q) = runs_by_length (if runs q \<noteq> [] \<and> snd (last (runs q)) + 1 = next_index q
       then add_run (fst (last (runs q))) (next_index q) (erase_run (last (runs q)) q)
       else add_run (next_index q) (next_index q) q)"
  by (simp_all add: insert_frame_def Let_def add_run_def erase_run_def)

lemma pending_insert [simp]:
  "frames_ok q \<Longrightarrow> pending (insert_frame f q) = insert (next_index q) (pending q)"
  by (auto simp: pending_def insert_frame_frames)

lemma queue_inv_insert [inv_intros]:
  assumes inv: "queue_inv q" shows "queue_inv (insert_frame f q)"
proof -
  have fr: "frames_ok q" and ru: "runs_ok q" and ev: "events_ok q" and ke: "keys_ok q"
    using inv by (simp_all add: queue_inv_def)
  have below: "\<forall>p \<in> pending q. p < next_index q" using fr by (auto simp: pending_def frames_ok_def)
  have "frames_ok (insert_frame f q)" using fr
    by (auto simp: frames_ok_def insert_frame_frames [OF fr] omap_ok_def sorted_wrt_append
        less_Suc_eq)
  moreover have "runs_ok (insert_frame f q)"
    unfolding runs_ok_indexes pending_insert [OF fr]
    by (rule iffD2 [OF indexes_fields [OF insert_frame_runs]],
        rule indexes_insert [OF _ finite_pending below]) (use ru in \<open>simp add: runs_ok_indexes\<close>)
  moreover have "events_ok (insert_frame f q)" using ev below
    by (auto simp: events_ok_def insert_frame_frames [OF fr] pending_def)
  moreover have "keys_ok (insert_frame f q)" unfolding keys_ok_def
  proof (intro allI impI)
    fix k i assume k: "by_key (insert_frame f q) k = Some i"
    show "\<exists>g. (i, g) \<in> set (frames (insert_frame f q)) \<and> frame_key g = k"
    proof (cases "k = frame_key f")
      case True
      with k show ?thesis by (auto simp: insert_frame_frames [OF fr])
    next
      case False
      with k have "by_key q k = Some i" by simp
      from keys_okD [OF ke this] show ?thesis by (auto simp: insert_frame_frames [OF fr])
    qed
  qed
  ultimately show ?thesis by (simp add: queue_inv_def)
qed

lemma remove_frame_fields:
  assumes "map_of (frames q) i = Some f"
  shows "live_bytes (remove_frame i q) = live_bytes q - line_bytes f"
    "dead_bytes (remove_frame i q) = dead_bytes q + line_bytes f"
    "events (remove_frame i q) = set_erase i (events q)"
    "by_key (remove_frame i q)
       = (if by_key q (frame_key f) = Some i then (by_key q)(frame_key f := None) else by_key q)"
  using assms by (simp_all add: remove_frame_def Let_def)

lemma remove_frame_frame [simp, frame_simps]:
  "next_index (remove_frame i q) = next_index q" "queue_file (remove_frame i q) = queue_file q"
  "persistence_enabled (remove_frame i q) = persistence_enabled q"
  by (simp_all add: remove_frame_def Let_def split: option.split)

lemma sum_map_erase:
  "omap_ok m \<Longrightarrow> map_of m i = Some f \<Longrightarrow>
   sum_list (map (\<lambda>p. g (snd p)) m) = g f + sum_list (map (\<lambda>p. g (snd p)) (map_erase i m))"
  for g :: "'v \<Rightarrow> nat"
proof (induction m)
  case (Cons p m)
  show ?case
  proof (cases "fst p = i")
    case True
    then have "\<forall>q \<in> set m. fst q \<noteq> i" using Cons.prems(1) by auto
    then have "map_erase i m = m" by (simp add: map_erase_def)
    with True Cons.prems show ?thesis by (cases p) (simp add: map_erase_def)
  next
    case False
    with Cons show ?thesis by (cases p) (simp add: map_erase_def)
  qed
qed simp

lemma queue_inv_remove [inv_intros]:
  assumes inv: "queue_inv q" shows "queue_inv (remove_frame i q)"
proof (cases "map_of (frames q) i")
  case None
  then show ?thesis using inv by (simp add: remove_frame_def)
next
  case (Some f)
  have fr: "frames_ok q" and ru: "runs_ok q" and ev: "events_ok q" and ke: "keys_ok q"
    using inv by (simp_all add: queue_inv_def)
  have ok: "omap_ok (frames q)" using fr by (simp add: frames_ok_def)
  have i: "i \<in> pending q" using map_of_SomeD [OF Some] by (force simp: pending_def)
  have "frames_ok (remove_frame i q)" using fr sum_map_erase [OF ok Some, of line_bytes]
    by (auto simp: frames_ok_def remove_frame_fields [OF Some] set_map_erase)
  moreover have "runs_ok (remove_frame i q)"
  proof -
    let ?q = "q\<lparr>live_bytes := live_bytes q - line_bytes f, dead_bytes := dead_bytes q + line_bytes f,
        by_key := (if by_key q (frame_key f) = Some i then (by_key q)(frame_key f := None) else by_key q),
        events := set_erase i (events q), frames := map_erase i (frames q)\<rparr>"
    have "indexes ?q (maximal_run (pending q))"
      using ru by (simp add: runs_ok_indexes indexes_def)
    from indexes_split_run [OF this finite_pending i]
    have "indexes (remove_frame i q) (maximal_run (pending q - {i}))"
      by (simp add: remove_frame_def Some Let_def)
    then show ?thesis unfolding runs_ok_indexes using pending_erase [OF frames_remove] by simp
  qed
  moreover have "events_ok (remove_frame i q)" using ev
    by (auto simp: events_ok_def remove_frame_fields [OF Some] set_map_erase)
  moreover have "keys_ok (remove_frame i q)"
  proof -
    have "\<exists>g. (j, g) \<in> set (frames (remove_frame i q)) \<and> frame_key g = k"
      if k: "by_key (remove_frame i q) k = Some j" for k j
    proof -
      have j: "by_key q k = Some j" "\<not> (by_key q (frame_key f) = Some i \<and> k = frame_key f)"
        using k by (auto simp: remove_frame_fields [OF Some] split: if_splits)
      obtain g where g: "(j, g) \<in> set (frames q)" "frame_key g = k" using keys_okD [OF ke j(1)] by blast
      have "j \<noteq> i"
      proof
        assume "j = i"
        then have "g = f" using omap_lookup_iff [OF ok, of i g] g(1) Some \<open>j = i\<close> by simp
        with j g \<open>j = i\<close> show False by auto
      qed
      with g show ?thesis by (auto simp: set_map_erase)
    qed
    then show ?thesis by (simp add: keys_ok_def)
  qed
  ultimately show ?thesis by (simp add: queue_inv_def)
qed

lemma prune_while_keeps:
  assumes "P q" and "\<And>i q. P q \<Longrightarrow> P (remove_frame i q)"
  shows "P (prune_while c q)"
  using assms(1)
proof (induction c q rule: prune_while.induct)
  case (1 c q)
  show ?case using 1 assms(2) by (subst prune_while.simps) auto
qed

lemma prune_while_stops: "frames (prune_while c q) = [] \<or> \<not> c (prune_while c q)"
proof (induction c q rule: prune_while.induct)
  case (1 c q)
  then show ?case by (subst (1 2) prune_while.simps) auto
qed

lemma prune_while_drops: "omap_ok (frames q) \<Longrightarrow> \<exists>n. frames (prune_while c q) = drop n (frames q)"
proof (induction c q rule: prune_while.induct)
  case (1 c q)
  show ?case
  proof (cases "frames q \<noteq> [] \<and> c q")
    case True
    then obtain p m where m: "frames q = p # m" by (cases "frames q") auto
    then have "map_erase (fst p) (frames q) = m"
      using "1.prems" by (auto simp: map_erase_def intro!: filter_True)
    moreover have "prune_while c q = prune_while c (remove_frame (fst p) q)"
      using True m by (subst prune_while.simps) simp
    moreover have "omap_ok m" using "1.prems" m by simp
    ultimately obtain n where "frames (prune_while c q) = drop n m" using "1.IH" [OF True] m by auto
    then show ?thesis by (intro exI [of _ "Suc n"]) (simp add: m)
  next
    case False
    then show ?thesis by (intro exI [of _ 0]) (subst prune_while.simps, auto)
  qed
qed

lemma prune_keeps:
  assumes "P q" and "\<And>i q. P q \<Longrightarrow> P (remove_frame i q)"
  shows "P (prune now q)"
  using assms by (simp add: prune_def Let_def prune_while_keeps)

lemma queue_inv_prune [inv_intros]: "queue_inv q \<Longrightarrow> queue_inv (prune now q)"
  by (rule prune_keeps [of queue_inv]) (simp_all add: queue_inv_remove)

text \<open>The file operations write the file, the dead bytes and the persistence state only.\<close>

definition same_queue :: "telemetry_queue \<Rightarrow> telemetry_queue \<Rightarrow> bool" where
  "same_queue q' q \<longleftrightarrow> frames q' = frames q \<and> by_key q' = by_key q \<and> events q' = events q
     \<and> runs q' = runs q \<and> runs_by_length q' = runs_by_length q \<and> next_index q' = next_index q
     \<and> live_bytes q' = live_bytes q \<and> retention_hours q' = retention_hours q
     \<and> max_bytes q' = max_bytes q \<and> compact_cheap_live_bytes q' = compact_cheap_live_bytes q"

lemma same_queue_inv: "same_queue q' q \<Longrightarrow> queue_inv q' = queue_inv q"
  by (rule queue_inv_cong) (simp_all add: same_queue_def)

lemma same_queue_trans: "same_queue a b \<Longrightarrow> same_queue b c \<Longrightarrow> same_queue a c"
  by (simp add: same_queue_def)

lemma same_queue_compact: "same_queue (snd (compact out q)) q"
  by (simp add: same_queue_def compact_def split: compact_outcome.split)

lemma same_queue_maybe_compact: "same_queue (maybe_compact out q) q"
  using same_queue_compact [of out q]
  by (simp add: maybe_compact_def Let_def split_beta same_queue_def)

lemma same_queue_retry: "same_queue (retry_persistence env q) q"
  by (simp add: retry_persistence_def Let_def split_beta same_queue_def compact_def
      split: compact_outcome.split)

lemma same_queue_append: "same_queue (snd (append_to_file out f q)) q"
  by (simp add: append_to_file_def same_queue_def split: append_outcome.split)

lemma same_queue_enqueue:
  "same_queue (snd (snd (enqueue env f q))) (prune (env_epoch env) (insert_frame f q))"
  using same_queue_retry [of env "prune (env_epoch env) (insert_frame f q)"]
    same_queue_append [of "env_append env" f "retry_persistence env (prune (env_epoch env) (insert_frame f q))"]
    same_queue_maybe_compact [of "env_compact env"
      "snd (append_to_file (env_append env) f (retry_persistence env (prune (env_epoch env) (insert_frame f q))))"]
  by (simp add: enqueue_def Let_def split_beta same_queue_def)

lemma same_queue_after_ack:
  "same_queue (maybe_compact out (retry_persistence env q)) q"
  by (rule same_queue_trans [OF same_queue_maybe_compact same_queue_retry])

lemma queue_inv_enqueue [inv_intros]: "queue_inv q \<Longrightarrow> queue_inv (snd (snd (enqueue env f q)))"
  by (simp add: same_queue_inv [OF same_queue_enqueue] inv_intros)

lemma queue_inv_fold_remove: "queue_inv q \<Longrightarrow> queue_inv (fold remove_frame is q)"
  by (induction "is" arbitrary: q) (simp_all add: inv_intros)

lemma queue_inv_acknowledge [inv_intros]: "queue_inv q \<Longrightarrow> queue_inv (acknowledge env session seq q)"
  by (simp add: acknowledge_def Let_def same_queue_inv [OF same_queue_after_ack] queue_inv_fold_remove)

lemma queue_inv_acknowledge_exact [inv_intros]: "queue_inv q \<Longrightarrow> queue_inv (acknowledge_exact env f q)"
  by (simp add: acknowledge_exact_def same_queue_inv [OF same_queue_after_ack] inv_intros
      split: option.split)

lemma queue_inv_load_line: "queue_inv (snd (snd st)) \<Longrightarrow> queue_inv (snd (snd (load_line now line st)))"
  by (cases st) (simp add: load_line_def inv_intros split: option.split)

lemma queue_inv_load_lines:
  "queue_inv (snd (snd st)) \<Longrightarrow> queue_inv (snd (snd (fold (load_line now) lines st)))"
  by (induction lines arbitrary: st) (simp_all add: queue_inv_load_line)

lemma queue_inv_persistence [simp]:
  "queue_inv (q\<lparr>persistence_enabled := b\<rparr>) = queue_inv q" "queue_inv (q\<lparr>queue_file := c\<rparr>) = queue_inv q"
  by (rule queue_inv_cong; simp)+

lemma queue_inv_initialize [inv_intros]:
  assumes "queue_inv q" shows "queue_inv (snd (snd (initialize env q)))"
proof -
  let ?st = "fold (load_line (env_epoch env)) (split_fields newline_char (file_bytes (cleared q)))
      (0, 0, cleared q)"
  have "queue_inv (snd (snd ?st))" by (rule queue_inv_load_lines) (simp add: inv_intros)
  then have "queue_inv (snd (compact (env_compact env) (snd (snd ?st))))"
    using same_queue_inv [OF same_queue_compact] by blast
  then show ?thesis using assms queue_inv_cleared [of q]
    by (simp add: initialize_def Let_def split_beta)
qed

subsection \<open>Runs of the queue\<close>

datatype queue_op =
    Enqueue queue_env queued_frame
  | AckUpTo queue_env string nat
  | AckExact queue_env queued_frame
  | Reload queue_env

fun queue_step :: "telemetry_queue \<Rightarrow> queue_op \<Rightarrow> telemetry_queue" where
  "queue_step q (Enqueue env f) = snd (snd (enqueue env f q))"
| "queue_step q (AckUpTo env session seq) = acknowledge env session seq q"
| "queue_step q (AckExact env f) = acknowledge_exact env f q"
| "queue_step q (Reload env) = snd (snd (initialize env q))"

definition queue_run :: "telemetry_queue \<Rightarrow> queue_op list \<Rightarrow> telemetry_queue" where
  "queue_run q ops = foldl queue_step q ops"

lemma queue_run_simps [simp]:
  "queue_run q [] = q" "queue_run q (ops @ [x]) = queue_step (queue_run q ops) x"
  by (simp_all add: queue_run_def)

lemma queue_inv_step [inv_intros]: "queue_inv q \<Longrightarrow> queue_inv (queue_step q x)"
  by (cases x) (simp_all add: inv_intros)

lemma queue_inv_run [inv_intros]: "queue_inv q \<Longrightarrow> queue_inv (queue_run q ops)"
  by (induction ops rule: rev_induct) (simp_all add: inv_intros)

end
