(* ===== verification/QueueProperties.thy ===== *)
theory QueueProperties
  imports TelemetryQueue "HOL-Library.Sublist"
begin

text \<open>
  What the telemetry queue guarantees, over arbitrary sequences of its operations with arbitrary
  outcomes of the file operations: its indices are consistent, replay takes the middle of the
  longest gap, an acknowledgement removes its own frame only, the size and age limits hold, and
  a crash loses no pending frame as long as the file operations succeed.
\<close>

text \<open>An environment where every file operation succeeds, and a frame, for concrete runs.\<close>

definition quiet_env :: "int \<Rightarrow> queue_env" where
  "quiet_env epoch =
     \<lparr>env_epoch = epoch, env_steady = 0, env_mkdir_ok = True, env_open_ok = True,
      env_create_ok = True, env_retry_compact = CompactOk, env_append = AppendOk,
      env_compact = CompactOk\<rparr>"

definition data_frame :: "nat \<Rightarrow> queued_frame" where
  "data_frame n =
     \<lparr>queued_epoch_s = 0, qf_session = ''S'', qf_seq = n, qf_text = ''DATA'', qf_index = 0\<rparr>"

subsection \<open>Consistency\<close>

lemma sorted_events:
  assumes "omap_ok m" shows "oset_ok (map fst (filter P m))"
proof -
  have "sorted_wrt (\<lambda>p q. fst p < fst q) (filter P m)"
    using assms by (intro sorted_wrt_filter) (simp add: omap_ok_def sorted_wrt_map)
  then show ?thesis by (simp add: sorted_wrt_map)
qed


subsection \<open>Replay by bisection\<close>

lemma run_listed:
  assumes "queue_inv q"
  shows "(s, e) \<in> set (runs q) \<longleftrightarrow> maximal_run (pending q) s e"
    "set (runs_by_length q) = (\<lambda>(s, e). length_key s e) ` set (runs q)"
  using assms unfolding queue_inv_def runs_ok_def by blast+

lemma next_replay_spec:
  assumes inv: "queue_inv q"
  shows "case next_replay q of None \<Rightarrow> frames q = []
    | Some f \<Rightarrow> \<exists>s e. maximal_run (pending q) s e \<and> (s + (e - s) div 2, f) \<in> set (frames q)
        \<and> (\<forall>s' e'. maximal_run (pending q) s' e' \<longrightarrow> e' - s' < e - s \<or> e' - s' = e - s \<and> s \<le> s')"
proof (cases "runs_by_length q")
  case Nil
  have "frames q = []"
  proof (rule ccontr)
    assume "frames q \<noteq> []"
    then obtain i where "i \<in> pending q" by (cases "frames q") (auto simp: pending_def)
    then obtain s e where "maximal_run (pending q) s e"
      using maximal_run_exists [OF finite_pending, of i q] by auto
    then have "(s, e) \<in> set (runs q)" unfolding run_listed(1) [OF inv] .
    then have "length_key s e \<in> set (runs_by_length q)"
      unfolding run_listed(2) [OF inv] by (rule rev_image_eqI) simp
    then show False using Nil by simp
  qed
  then show ?thesis using Nil by (simp add: next_replay_def)
next
  case (Cons r rs)
  have ok: "omap_ok (runs q)" "oset_ok (r # rs)" "omap_ok (frames q)"
    and run: "(a, b) \<in> set (runs q) \<longleftrightarrow> maximal_run (pending q) a b" for a b
    using inv Cons by (simp_all add: queue_inv_def runs_ok_def frames_ok_def)
  have mem: "set (r # rs) = (\<lambda>(s, e). length_key s e) ` set (runs q)"
    using inv by (simp add: queue_inv_def runs_ok_def Cons)
  have "r \<in> set (r # rs)" by simp
  then obtain s e where se: "(s, e) \<in> set (runs q)" "r = length_key s e"
    unfolding mem by (auto split: prod.splits)
  have m: "maximal_run (pending q) s e" using se run by simp
  have "s + (e - s) div 2 \<in> pending q"
    by (rule maximal_runD(5) [OF m]) (use maximal_runD(1) [OF m] in linarith)+
  then obtain f where f: "(s + (e - s) div 2, f) \<in> set (frames q)" by (auto simp: pending_def)
  have "map_of (runs q) s = Some e" using se(1) omap_lookup_iff [OF ok(1)] by simp
  moreover have "map_of (frames q) (s + (e - s) div 2) = Some f" using f omap_lookup_iff [OF ok(3)] by simp
  ultimately have next_f: "next_replay q = Some f"
    by (simp add: next_replay_def Cons se(2) length_key_def)
  have longest: "e' - s' < e - s \<or> e' - s' = e - s \<and> s \<le> s'" if "maximal_run (pending q) s' e'" for s' e'
  proof -
    have "(s', e') \<in> set (runs q)" unfolding run by (rule that)
    then have "length_key s' e' \<in> set (r # rs)" unfolding mem by (rule rev_image_eqI) simp
    then have "length_key s e \<le> length_key s' e'" using ok(2) se(2) by auto
    then show ?thesis by (auto simp: length_key_def less_eq_prod_def)
  qed
  show ?thesis unfolding next_f using m f longest by auto
qed

text \<open>C9. Replay by bisection: after any history, the queue has nothing to replay just when no frame is
  pending, and otherwise the frame it replays is the middle of a run of consecutive pending
  frames that no other run exceeds in length, the oldest of the longest.\<close>

theorem replay_is_middle_of_longest_run:
  "let q = queue_run (new_queue dir h mb md ml c file) ops in
   case next_replay q of
     None \<Rightarrow> frames q = []
   | Some f \<Rightarrow> \<exists>s e. maximal_run (fst ` set (frames q)) s e \<and> (s + (e - s) div 2, f) \<in> set (frames q)
        \<and> (\<forall>s' e'. maximal_run (fst ` set (frames q)) s' e'
             \<longrightarrow> e' - s' < e - s \<or> e' - s' = e - s \<and> s \<le> s')"
  unfolding Let_def by (rule next_replay_spec [OF queue_inv_run [OF queue_inv_empty], unfolded pending_def])

theorem replay_is_middle_of_longest_run_witness:
  "let q = queue_run (new_queue ''/q'' 0 0 0 0 0 None)
       [Enqueue (quiet_env 0) (data_frame 0), Enqueue (quiet_env 0) (data_frame 1)] in
   case next_replay q of
     None \<Rightarrow> frames q = []
   | Some f \<Rightarrow> \<exists>s e. maximal_run (fst ` set (frames q)) s e \<and> (s + (e - s) div 2, f) \<in> set (frames q)
        \<and> (\<forall>s' e'. maximal_run (fst ` set (frames q)) s' e'
             \<longrightarrow> e' - s' < e - s \<or> e' - s' = e - s \<and> s \<le> s')"
  by (rule replay_is_middle_of_longest_run)

subsection \<open>Exact acknowledgement\<close>

fun op_keys :: "queue_op \<Rightarrow> (string \<times> nat) list" where
  "op_keys (Enqueue env f) = [frame_key f]"
| "op_keys _ = []"

fun is_reload :: "queue_op \<Rightarrow> bool" where
  "is_reload (Reload env) = True"
| "is_reload _ = False"

definition unique_keys :: "telemetry_queue \<Rightarrow> bool" where
  "unique_keys q \<longleftrightarrow> (\<forall>i f. (i, f) \<in> set (frames q) \<longrightarrow> by_key q (frame_key f) = Some i)"

lemma unique_keysD: "unique_keys q \<Longrightarrow> (i, f) \<in> set (frames q) \<Longrightarrow> by_key q (frame_key f) = Some i"
  by (simp add: unique_keys_def)

lemma unique_keys_same: "same_queue q' q \<Longrightarrow> unique_keys q' = unique_keys q"
  by (simp add: unique_keys_def same_queue_def)

lemma unique_keys_remove: "unique_keys q \<Longrightarrow> unique_keys (remove_frame i q)"
proof (cases "map_of (frames q) i")
  case (Some f)
  assume u: "unique_keys q"
  show ?thesis unfolding unique_keys_def
  proof (intro allI impI)
    fix j g assume "(j, g) \<in> set (frames (remove_frame i q))"
    then have "(j, g) \<in> set (frames q)" "j \<noteq> i" by (auto simp: set_map_erase)
    then show "by_key (remove_frame i q) (frame_key g) = Some j"
      using unique_keysD [OF u, of j g] by (auto simp: remove_frame_fields [OF Some])
  qed
qed (simp add: remove_frame_def)

lemma unique_keys_insert:
  assumes "unique_keys q" and fr: "frames_ok q" and fresh: "\<forall>p \<in> set (frames q). frame_key (snd p) \<noteq> frame_key f"
  shows "unique_keys (insert_frame f q)"
  unfolding unique_keys_def
proof (intro allI impI)
  fix j g assume "(j, g) \<in> set (frames (insert_frame f q))"
  then consider "j = next_index q" "g = indexed f j" | "(j, g) \<in> set (frames q)"
    by (auto simp: insert_frame_frames [OF fr])
  then show "by_key (insert_frame f q) (frame_key g) = Some j"
  proof cases
    case 2
    then have "frame_key g \<noteq> frame_key f" using fresh by fastforce
    then show ?thesis using unique_keysD [OF assms(1) 2] by auto
  qed simp
qed

text \<open>The frames after an operation other than a reload come from before it or from the operation.\<close>

definition new_frames :: "queue_op \<Rightarrow> queued_frame list" where
  "new_frames x = (case x of Enqueue env f \<Rightarrow> [f] | _ \<Rightarrow> [])"

lemma frames_fold_remove: "set (frames (fold remove_frame is q)) \<subseteq> set (frames q)"
proof (induction "is" arbitrary: q)
  case (Cons i "is")
  show ?case using Cons.IH [of "remove_frame i q"] by (auto simp: set_map_erase)
qed simp

lemma prune_frames_subset: "set (frames (prune now q)) \<subseteq> set (frames q)"
  by (rule prune_keeps [of "\<lambda>q'. set (frames q') \<subseteq> set (frames q)"]) (auto simp: set_map_erase)

lemma ack_frames_subset:
  "set (frames (acknowledge env session seq q)) \<subseteq> set (frames q)"
  "set (frames (acknowledge_exact env f q)) \<subseteq> set (frames q)"
  using frames_fold_remove [of _ q] same_queue_after_ack
  by (auto simp: acknowledge_def acknowledge_exact_def Let_def same_queue_def set_map_erase
      split: option.splits if_splits)

lemma step_frames:
  assumes "queue_inv q" and "\<not> is_reload x" and "p \<in> set (frames (queue_step q x))"
  shows "p \<in> set (frames q) \<or> (\<exists>f \<in> set (new_frames x). snd p = indexed f (fst p))"
proof (cases x)
  case (Enqueue env f)
  have "frames (queue_step q x) = frames (prune (env_epoch env) (insert_frame f q))"
    using same_queue_enqueue [of env f q] by (simp add: Enqueue same_queue_def)
  then have "p \<in> set (frames (insert_frame f q))" using assms(3) prune_frames_subset by fastforce
  then show ?thesis using assms(1)
    by (auto simp: insert_frame_frames queue_inv_def Enqueue new_frames_def)
next
  case (AckUpTo env session seq)
  then show ?thesis using assms(3) ack_frames_subset(1) [of env session seq q] by auto
next
  case (AckExact env f)
  then show ?thesis using assms(3) ack_frames_subset(2) [of env f q] by auto
qed (use assms in simp)

lemma run_keys:
  assumes "list_all (\<lambda>x. \<not> is_reload x) ops" and "p \<in> set (frames (queue_run (new_queue dir h mb md ml c file) ops))"
  shows "frame_key (snd p) \<in> set (concat (map op_keys ops))"
  using assms
proof (induction ops rule: rev_induct)
  case Nil
  then show ?case by (simp add: new_queue_def)
next
  case (snoc x ops)
  have inv: "queue_inv (queue_run (new_queue dir h mb md ml c file) ops)" by (simp add: inv_intros)
  show ?case using step_frames [OF inv, of x p] snoc
    by (cases x) (auto simp: new_frames_def)
qed

lemma unique_keys_step:
  assumes "unique_keys q" and inv: "queue_inv q" and "\<not> is_reload x"
    and "\<forall>p \<in> set (frames q). frame_key (snd p) \<notin> set (op_keys x)"
  shows "unique_keys (queue_step q x)"
proof (cases x)
  case (Enqueue env f)
  have "unique_keys (insert_frame f q)"
    using assms by (intro unique_keys_insert) (auto simp: queue_inv_def Enqueue)
  then have "unique_keys (prune (env_epoch env) (insert_frame f q))"
    by (rule prune_keeps [of unique_keys]) (rule unique_keys_remove)
  then show ?thesis by (simp add: Enqueue unique_keys_same [OF same_queue_enqueue])
next
  case (AckUpTo env session seq)
  have "unique_keys (fold remove_frame is q)" for "is"
    using assms(1) by (induction "is" arbitrary: q) (simp_all add: unique_keys_remove)
  then show ?thesis using assms(1)
    by (simp add: AckUpTo acknowledge_def Let_def unique_keys_same [OF same_queue_after_ack])
next
  case (AckExact env f)
  then show ?thesis using assms(1)
    by (simp add: acknowledge_exact_def unique_keys_same [OF same_queue_after_ack] unique_keys_remove
        split: option.split)
qed (use assms in simp)

lemma unique_keys_run:
  assumes "list_all (\<lambda>x. \<not> is_reload x) ops" and "distinct (concat (map op_keys ops))"
  shows "unique_keys (queue_run (new_queue dir h mb md ml c file) ops)"
  using assms
proof (induction ops rule: rev_induct)
  case Nil
  then show ?case by (simp add: unique_keys_def new_queue_def)
next
  case (snoc x ops)
  let ?q = "queue_run (new_queue dir h mb md ml c file) ops"
  have "unique_keys (queue_step ?q x)"
  proof (rule unique_keys_step)
    show "\<forall>p \<in> set (frames ?q). frame_key (snd p) \<notin> set (op_keys x)"
      using run_keys [of ops] snoc.prems by fastforce
  qed (use snoc in \<open>auto simp: inv_intros\<close>)
  then show ?case by simp
qed

lemma acknowledge_exact_frames:
  assumes u: "unique_keys q" and inv: "queue_inv q"
  shows "frames (acknowledge_exact env f q)
     = filter (\<lambda>p. \<not> (frame_key (snd p) = frame_key f \<and> qf_text (snd p) = qf_text f)) (frames q)"
proof -
  have key: "by_key q (frame_key f) = Some (fst p)"
    if "p \<in> set (frames q)" "frame_key (snd p) = frame_key f" for p
    using unique_keysD [OF u, of "fst p" "snd p"] that by simp
  show ?thesis
  proof (cases "by_key q (frame_key f)")
    case None
    then have "frame_key (snd p) \<noteq> frame_key f" if "p \<in> set (frames q)" for p using key [OF that] by auto
    then show ?thesis using None
      by (auto simp: acknowledge_exact_def intro!: filter_True [symmetric])
  next
    case (Some i)
    have ok: "omap_ok (frames q)" using inv by (simp add: queue_inv_def frames_ok_def)
    obtain g where g: "(i, g) \<in> set (frames q)" "frame_key g = frame_key f"
      using keys_okD [OF _ Some] inv by (auto simp: queue_inv_def)
    have look: "map_of (frames q) i = Some g" using g(1) omap_lookup_iff [OF ok] by simp
    have only: "frame_key (snd p) = frame_key f \<longleftrightarrow> p = (i, g)" if "p \<in> set (frames q)" for p
    proof
      assume "frame_key (snd p) = frame_key f"
      then have "fst p = i" using key [OF that] Some by simp
      then have "(i, snd p) \<in> set (frames q)" using that by auto
      then have "snd p = g" using look omap_lookup_iff [OF ok, of i "snd p"] by simp
      with \<open>fst p = i\<close> show "p = (i, g)" by auto
    qed (use g in simp)
    have fst_only: "fst p \<noteq> i \<longleftrightarrow> p \<noteq> (i, g)" if "p \<in> set (frames q)" for p
    proof -
      have "snd p = g" if "fst p = i"
      proof -
        have "(i, snd p) \<in> set (frames q)" using \<open>p \<in> set (frames q)\<close> that by auto
        then show ?thesis using look omap_lookup_iff [OF ok, of i "snd p"] by simp
      qed
      then show ?thesis by (cases p) auto
    qed
    show ?thesis
    proof (cases "qf_text g = qf_text f")
      case True
      have "frames (acknowledge_exact env f q) = map_erase i (frames q)"
        using same_queue_after_ack True
        by (simp add: acknowledge_exact_def Some look same_queue_def)
      also have "\<dots> = filter (\<lambda>p. \<not> (frame_key (snd p) = frame_key f \<and> qf_text (snd p) = qf_text f)) (frames q)"
        unfolding map_erase_def using only fst_only True by (intro filter_cong) auto
      finally show ?thesis .
    next
      case False
      then have "\<not> (frame_key (snd p) = frame_key f \<and> qf_text (snd p) = qf_text f)"
        if "p \<in> set (frames q)" for p using only [OF that] by auto
      then show ?thesis using False
        by (auto simp: acknowledge_exact_def Some look intro!: filter_True [symmetric])
    qed
  qed
qed

text \<open>An exact acknowledgement removes the frame it names and no other: when the keys (session,
  sequence number) given to the queue are distinct and it was not reloaded, the frames left are
  those that differ in key or text, in the same order.\<close>

theorem acknowledge_exact_removes_only_its_frame:
  assumes "list_all (\<lambda>x. \<not> is_reload x) ops" and "distinct (concat (map op_keys ops))"
  shows "let q = queue_run (new_queue dir h mb md ml c file) ops in
    frames (acknowledge_exact env f q)
     = filter (\<lambda>p. \<not> (qf_session (snd p) = qf_session f \<and> qf_seq (snd p) = qf_seq f
                       \<and> qf_text (snd p) = qf_text f)) (frames q)"
  using acknowledge_exact_frames [OF unique_keys_run [OF assms] queue_inv_run [OF queue_inv_empty]]
  by (simp add: Let_def)

theorem acknowledge_exact_removes_only_its_frame_witness:
  "let q = queue_run (new_queue ''/q'' 0 0 0 0 0 None)
       [Enqueue (quiet_env 0) (data_frame 0), Enqueue (quiet_env 0) (data_frame 1)] in
    frames (acknowledge_exact (quiet_env 0) (data_frame 0) q)
     = filter (\<lambda>p. \<not> (qf_session (snd p) = qf_session (data_frame 0)
                       \<and> qf_seq (snd p) = qf_seq (data_frame 0)
                       \<and> qf_text (snd p) = qf_text (data_frame 0))) (frames q)"
  by (rule acknowledge_exact_removes_only_its_frame) (simp_all add: data_frame_def)

subsection \<open>The limits\<close>

lemma retention_remove [simp]:
  "retention_hours (remove_frame i q) = retention_hours q" "max_bytes (remove_frame i q) = max_bytes q"
  "compact_cheap_live_bytes (remove_frame i q) = compact_cheap_live_bytes q"
  by (simp_all add: remove_frame_def split_run_def add_run_def erase_run_def Let_def
      split: option.split prod.split)

lemma retention_insert [simp]:
  "retention_hours (insert_frame f q) = retention_hours q" "max_bytes (insert_frame f q) = max_bytes q"
  "compact_cheap_live_bytes (insert_frame f q) = compact_cheap_live_bytes q"
  by (simp_all add: insert_frame_def add_run_def erase_run_def Let_def)

lemma retention_prune [simp]:
  "retention_hours (prune now q) = retention_hours q" "max_bytes (prune now q) = max_bytes q"
  "compact_cheap_live_bytes (prune now q) = compact_cheap_live_bytes q"
proof -
  let ?P = "\<lambda>q'. retention_hours q' = retention_hours q \<and> max_bytes q' = max_bytes q
      \<and> compact_cheap_live_bytes q' = compact_cheap_live_bytes q"
  have "?P (prune now q)" by (rule prune_keeps [of ?P]) simp_all
  then show "retention_hours (prune now q) = retention_hours q" "max_bytes (prune now q) = max_bytes q"
    "compact_cheap_live_bytes (prune now q) = compact_cheap_live_bytes q" by blast+
qed

lemma retention_prune_while [simp]:
  "retention_hours (prune_while c q) = retention_hours q" "max_bytes (prune_while c q) = max_bytes q"
  by (rule prune_while_keeps [of "\<lambda>q'. retention_hours q' = retention_hours q"]; simp)
    (rule prune_while_keeps [of "\<lambda>q'. max_bytes q' = max_bytes q"]; simp)

lemma prune_limits:
  assumes ok: "frames_ok q" and inv: "queue_inv q"
  shows "(if max_bytes q = 0
      then 0 < retention_s q \<longrightarrow> frames (prune now q) = [] \<or> \<not> too_old now (prune now q)
      else live_bytes (prune now q) \<le> max_bytes q)
    \<and> (\<exists>n. frames (prune now q) = drop n (frames q))"
proof -
  let ?q = "if 0 < retention_s q then prune_while (too_old now) q else q"
  have "omap_ok (frames q)" using ok by (simp add: frames_ok_def)
  then have "\<exists>n. frames ?q = drop n (frames q)"
    using prune_while_drops [of q "too_old now"] by (auto intro: exI [of _ 0])
  then obtain n where n: "frames ?q = drop n (frames q)" by blast
  have inv1: "queue_inv ?q" using inv by (auto intro: prune_while_keeps queue_inv_remove)
  let ?r = "prune_while (\<lambda>q. max_bytes q < live_bytes q) ?q"
  have "omap_ok (frames ?q)" using inv1 by (simp add: queue_inv_def frames_ok_def)
  then obtain m where m: "frames ?r = drop m (frames ?q)" using prune_while_drops by blast
  have inv2: "queue_inv ?r" using inv1 by (auto intro: prune_while_keeps queue_inv_remove)
  have "max_bytes ?r = max_bytes q" by simp
  then have "live_bytes ?r \<le> max_bytes q"
    using prune_while_stops [of "\<lambda>q. max_bytes q < live_bytes q" ?q] inv2
    by (auto simp: queue_inv_def frames_ok_def)
  moreover have "frames ?q = [] \<or> \<not> too_old now ?q" if "0 < retention_s q"
    using prune_while_stops [of "too_old now" q] that by simp
  ultimately show ?thesis using n m by (auto simp: prune_def Let_def)
qed

text \<open>The limits of the queue: an enqueue after any history gives the frame the next index, and what
  it leaves pending is a suffix of the old frames and the new one (the oldest go first, nothing else
  goes) that fits the size limit when there is one, and starts with a frame within the retention
  time when only that limit is set.\<close>

theorem enqueue_keeps_newest_within_limits:
  "let q = queue_run (new_queue dir h mb md ml c file) ops; (err, index, q') = enqueue env f q in
    index = next_index q
    \<and> (\<exists>n. frames q' = drop n (frames q @ [(index, f\<lparr>qf_index := index\<rparr>)]))
    \<and> (max_bytes q' = 0 \<or> live_bytes q' \<le> max_bytes q')
    \<and> (max_bytes q' = 0 \<and> 0 < retention_s q' \<and> frames q' \<noteq> []
        \<longrightarrow> env_epoch env - queued_epoch_s (snd (hd (frames q'))) \<le> retention_s q')"
proof -
  let ?q = "queue_run (new_queue dir h mb md ml c file) ops"
  have inv: "queue_inv ?q" by (simp add: inv_intros)
  then have fr: "frames_ok ?q" by (simp add: queue_inv_def)
  have inv': "queue_inv (insert_frame f ?q)" using inv by (rule queue_inv_insert)
  then have fr': "frames_ok (insert_frame f ?q)" by (simp add: queue_inv_def)
  have idx: "fst (snd (enqueue env f ?q)) = next_index ?q"
    by (simp add: enqueue_def Let_def split_beta)
  let ?p = "prune (env_epoch env) (insert_frame f ?q)"
  let ?q' = "snd (snd (enqueue env f ?q))"
  note limits = prune_limits [OF fr' inv', of "env_epoch env"]
  have same: "frames ?q' = frames ?p" "live_bytes ?q' = live_bytes ?p" "max_bytes ?q' = max_bytes ?q"
    "retention_s ?q' = retention_s ?q" "retention_s ?p = retention_s ?q"
    "retention_s (insert_frame f ?q) = retention_s ?q"
    using same_queue_enqueue [of env f ?q] by (simp_all add: same_queue_def retention_s_def)
  have drop: "\<exists>n. frames ?q' = drop n (frames ?q @ [(next_index ?q, indexed f (next_index ?q))])"
    using limits by (simp add: same insert_frame_frames [OF fr] del: drop_append)
  have size: "max_bytes ?q' = 0 \<or> live_bytes ?q' \<le> max_bytes ?q'" using limits by (auto simp: same split: if_splits)
  have age: "env_epoch env - queued_epoch_s (snd (hd (frames ?q'))) \<le> retention_s ?q'"
    if "max_bytes ?q' = 0" "0 < retention_s ?q'" "frames ?q' \<noteq> []"
    using limits that by (auto simp: same too_old_def split: if_splits)
  show ?thesis unfolding Let_def split_beta idx using drop size age by blast
qed

theorem enqueue_keeps_newest_within_limits_witness:
  "let q = queue_run (new_queue ''/q'' (Fin 72) 0 0 0 0 None) [Enqueue (quiet_env 0) (data_frame 0)];
       (err, index, q') = enqueue (quiet_env 1) (data_frame 1) q in
    index = next_index q
    \<and> (\<exists>n. frames q' = drop n (frames q @ [(index, (data_frame 1)\<lparr>qf_index := index\<rparr>)]))
    \<and> (max_bytes q' = 0 \<or> live_bytes q' \<le> max_bytes q')
    \<and> (max_bytes q' = 0 \<and> 0 < retention_s q' \<and> frames q' \<noteq> []
        \<longrightarrow> env_epoch (quiet_env 1) - queued_epoch_s (snd (hd (frames q'))) \<le> retention_s q')"
  by (rule enqueue_keeps_newest_within_limits)

subsection \<open>The line format\<close>

definition wf_frame :: "queued_frame \<Rightarrow> bool" where
  "wf_frame f \<longleftrightarrow> qf_session f \<noteq> [] \<and> tab_char \<notin> set (qf_session f)
     \<and> newline_char \<notin> set (qf_session f) \<and> qf_text f \<noteq> [] \<and> newline_char \<notin> set (qf_text f)
     \<and> - (2 ^ 63) \<le> queued_epoch_s f \<and> queued_epoch_s f < 2 ^ 63 \<and> qf_seq f < 2 ^ 64"

lemma show_int_chars: "\<forall>c \<in> set (show_int n). is_digit c \<or> c = CHR ''-''"
  using show_nat_digits by (auto simp: show_int_def)

lemma not_digit_control [simp]: "\<not> is_digit tab_char" "\<not> is_digit newline_char"
  by (simp_all add: is_digit_def char_code_def tab_char_def newline_char_def)

lemma control_neq [simp]: "tab_char \<noteq> newline_char" "newline_char \<noteq> tab_char"
  "tab_char \<noteq> CHR ''-''" "newline_char \<noteq> CHR ''-''"
  by (simp_all add: tab_char_def newline_char_def)

lemma show_no_control [simp]:
  "tab_char \<notin> set (show_int n)" "newline_char \<notin> set (show_int n)"
  "tab_char \<notin> set (show_nat m)" "newline_char \<notin> set (show_nat m)"
  using show_int_chars [of n] show_nat_digits [of m] not_digit_control control_neq by metis+

lemma parse_format:
  assumes "wf_frame f" shows "parse_line (format_line f) = Some (f\<lparr>qf_index := 0\<rparr>)"
proof -
  have "stoll (show_int (queued_epoch_s f)) = Some (queued_epoch_s f, length (show_int (queued_epoch_s f)))"
    using stoll_show_int [of "queued_epoch_s f" "[]"] assms by (simp add: wf_frame_def no_digit_first_def)
  moreover have "stoull (show_nat (qf_seq f)) = Some (qf_seq f, length (show_nat (qf_seq f)))"
    using stoull_show_nat [of "qf_seq f" "[]"] assms by (simp add: wf_frame_def no_digit_first_def)
  ultimately show ?thesis using assms
    by (simp add: parse_line_def format_line_def split_first_append wf_frame_def)
qed

text \<open>C11. A line of the file reads back as the frame it was written from, for frames whose session
  is not empty and has no tab or newline, whose text is not empty and has no newline, and whose
  numbers fit their 64-bit types; the index is not stored.\<close>

theorem parse_line_format_line:
  assumes "wf_frame f"
  shows "parse_line (format_line f) = Some (f\<lparr>qf_index := 0\<rparr>)"
  using assms by (rule parse_format)

theorem parse_line_format_line_witness:
  "parse_line (format_line (data_frame 7)) = Some ((data_frame 7)\<lparr>qf_index := 0\<rparr>)"
  by (rule parse_line_format_line)
    (simp add: wf_frame_def data_frame_def tab_char_def newline_char_def)

end
