(* ===== verification/QueueDisk.thy ===== *)
theory QueueDisk
  imports QueueProperties
begin

text \<open>
  The telemetry queue and its file: what a crash can lose and what it can repeat.
\<close>

subsection \<open>The file as a list of frames\<close>

lemma subseq_set: "subseq xs ys \<Longrightarrow> set xs \<subseteq> set ys"
  by (induction rule: list_emb.induct) auto

abbreviation stored :: "nat \<times> queued_frame \<Rightarrow> queued_frame" where
  "stored p \<equiv> (snd p)\<lparr>qf_index := 0\<rparr>"

definition disk_image :: "queued_frame list \<Rightarrow> string" where
  "disk_image disk = concat (map (\<lambda>f. format_line f @ [newline_char]) disk)"

lemma wf_index [simp]: "wf_frame (f\<lparr>qf_index := i\<rparr>) = wf_frame f"
  by (simp add: wf_frame_def)

lemma format_line_index [simp]: "format_line (f\<lparr>qf_index := i\<rparr>) = format_line f"
  by (simp add: format_line_def)

lemma disk_image_simps [simp]:
  "disk_image [] = []" "disk_image (f # fs) = format_line f @ newline_char # disk_image fs"
  "disk_image (fs @ gs) = disk_image fs @ disk_image gs"
  by (simp_all add: disk_image_def)

lemma file_image_disk: "file_image m = disk_image (map stored m)"
  by (simp add: file_image_def disk_image_def comp_def)

lemma length_disk_image: "length (disk_image disk) = sum_list (map line_bytes disk)"
  by (induction disk) (simp_all add: line_bytes_def)

text \<open>The frames on disk, dead ones included: the pending frames are among them in order, and the
  byte counters account for all of them.\<close>

definition on_disk :: "queued_frame list \<Rightarrow> telemetry_queue \<Rightarrow> bool" where
  "on_disk disk q \<longleftrightarrow> queue_inv q \<and> persistence_enabled q
     \<and> subseq (map stored (frames q)) disk
     \<and> live_bytes q + dead_bytes q = sum_list (map line_bytes disk)"

lemma on_disk_remove: "on_disk disk q \<Longrightarrow> on_disk disk (remove_frame i q)"
proof (cases "map_of (frames q) i")
  case (Some f)
  assume d: "on_disk disk q"
  have ok: "omap_ok (frames q)" and live: "live_bytes q = sum_list (map (\<lambda>p. line_bytes (snd p)) (frames q))"
    using d by (simp_all add: on_disk_def queue_inv_def frames_ok_def)
  have "subseq (map stored (frames (remove_frame i q))) (map stored (frames q))"
    by (simp add: map_erase_def subseq_map)
  moreover have "line_bytes f \<le> live_bytes q" using sum_map_erase [OF ok Some, of line_bytes] live by simp
  ultimately show ?thesis using d subseq_order.trans
    by (auto simp: on_disk_def remove_frame_fields [OF Some] queue_inv_remove)
qed (simp add: remove_frame_def)

lemma on_disk_insert:
  assumes "on_disk disk q" shows "on_disk (disk @ [f\<lparr>qf_index := 0\<rparr>]) (insert_frame f q)"
proof -
  have "frames_ok q" using assms by (simp add: on_disk_def queue_inv_def)
  then show ?thesis using assms
    by (simp add: on_disk_def insert_frame_frames queue_inv_insert list_emb_append_mono)
qed

lemma on_disk_prune: "on_disk disk q \<Longrightarrow> on_disk disk (prune now q)"
  by (rule prune_keeps [of "on_disk disk"]) (simp_all add: on_disk_remove)

lemma on_disk_fold_remove: "on_disk disk q \<Longrightarrow> on_disk disk (fold remove_frame is q)"
  by (induction "is" arbitrary: q) (simp_all add: on_disk_remove)

text \<open>An environment where the appends and the rewrites succeed.\<close>

definition env_ok :: "queue_env \<Rightarrow> bool" where
  "env_ok env \<longleftrightarrow> env_append env = AppendOk \<and> env_compact env = CompactOk
     \<and> env_mkdir_ok env \<and> env_open_ok env \<and> env_create_ok env"

definition disk_ok :: "telemetry_queue \<Rightarrow> bool" where
  "disk_ok q \<longleftrightarrow>
     (\<exists>disk. on_disk disk q \<and> file_bytes q = disk_image disk \<and> list_all wf_frame disk)"

lemma on_disk_compact:
  assumes "on_disk disk q"
  shows "on_disk (map stored (frames q)) (snd (compact CompactOk q))"
proof -
  have "queue_inv (snd (compact CompactOk q))"
    using assms same_queue_inv [OF same_queue_compact] by (simp add: on_disk_def)
  then show ?thesis using assms
    by (simp add: on_disk_def compact_def queue_inv_def frames_ok_def comp_def)
qed

lemma disk_ok_maybe_compact:
  assumes "disk_ok q" shows "disk_ok (maybe_compact CompactOk q)"
proof -
  obtain disk where d: "on_disk disk q" "list_all wf_frame disk" using assms by (auto simp: disk_ok_def)
  have "set (map stored (frames q)) \<subseteq> set disk" using d(1) by (intro subseq_set) (simp add: on_disk_def)
  then have "list_all wf_frame (map stored (frames q))" using d(2) unfolding list_all_iff by blast
  with on_disk_compact [OF d(1)] have "disk_ok (snd (compact CompactOk q))"
    by (auto simp: disk_ok_def compact_def file_bytes_def file_image_disk)
  then show ?thesis using assms
    by (simp add: maybe_compact_def Let_def compact_def)
qed

lemma retry_enabled: "persistence_enabled q \<Longrightarrow> retry_persistence env q = q"
  by (simp add: retry_persistence_def)

lemma file_bytes_update [simp]: "file_bytes (q\<lparr>queue_file := Some c\<rparr>) = c"
  by (simp add: file_bytes_def)

lemma file_bytes_fields [simp]:
  "file_bytes (remove_frame i q) = file_bytes q" "file_bytes (insert_frame f q) = file_bytes q"
  by (simp_all add: file_bytes_def)

lemma file_bytes_prune [simp]: "file_bytes (prune now q) = file_bytes q"
  by (rule prune_keeps [of "\<lambda>q'. file_bytes q' = file_bytes q"]) simp_all

lemma file_bytes_fold_remove [simp]: "file_bytes (fold remove_frame is q) = file_bytes q"
  by (induction "is" arbitrary: q) simp_all

lemma disk_ok_enqueue:
  assumes "disk_ok q" and "env_ok env" and "wf_frame f"
  shows "disk_ok (snd (snd (enqueue env f q)))"
proof -
  obtain disk where d: "on_disk disk q" "file_bytes q = disk_image disk" "list_all wf_frame disk"
    using assms(1) by (auto simp: disk_ok_def)
  let ?q = "prune (env_epoch env) (insert_frame f q)"
  have q: "on_disk (disk @ [f\<lparr>qf_index := 0\<rparr>]) ?q" using on_disk_prune [OF on_disk_insert [OF d(1)]] .
  then have retry: "retry_persistence env ?q = ?q" by (simp add: on_disk_def retry_enabled)
  let ?r = "snd (append_to_file AppendOk f ?q)"
  have "queue_inv ?r" using q same_queue_inv [OF same_queue_append] by (simp add: on_disk_def)
  then have "on_disk (disk @ [f\<lparr>qf_index := 0\<rparr>]) ?r" using q
    by (simp add: on_disk_def append_to_file_def)
  moreover have "file_bytes ?r = disk_image (disk @ [f\<lparr>qf_index := 0\<rparr>])"
    using d(2) by (simp add: append_to_file_def)
  moreover have "list_all wf_frame (disk @ [f\<lparr>qf_index := 0\<rparr>])" using d(3) assms(3) by simp
  ultimately have "disk_ok ?r" unfolding disk_ok_def by blast
  from disk_ok_maybe_compact [OF this] show ?thesis using assms(2) q
    by (simp add: enqueue_def Let_def retry env_ok_def on_disk_def append_to_file_def)
qed

lemma disk_ok_acks:
  assumes "disk_ok q" and "env_ok env"
  shows "disk_ok (maybe_compact (env_compact env) (retry_persistence env (fold remove_frame is q)))"
proof -
  obtain disk where d: "on_disk disk q" "file_bytes q = disk_image disk" "list_all wf_frame disk"
    using assms(1) by (auto simp: disk_ok_def)
  have "on_disk disk (fold remove_frame is q)" using d(1) by (rule on_disk_fold_remove)
  then have "disk_ok (fold remove_frame is q)" "persistence_enabled (fold remove_frame is q)"
    using d by (auto simp: disk_ok_def on_disk_def)
  then show ?thesis using disk_ok_maybe_compact assms(2) by (simp add: retry_enabled env_ok_def)
qed

fun op_env :: "queue_op \<Rightarrow> queue_env" where
  "op_env (Enqueue env f) = env"
| "op_env (AckUpTo env session seq) = env"
| "op_env (AckExact env f) = env"
| "op_env (Reload env) = env"

lemma disk_ok_step:
  assumes "disk_ok q" and "env_ok (op_env x)" and "\<not> is_reload x"
    and "list_all wf_frame (new_frames x)"
  shows "disk_ok (queue_step q x)"
proof (cases x)
  case (AckUpTo env session seq)
  then show ?thesis using assms disk_ok_acks [OF assms(1), of env]
    by (simp add: acknowledge_def Let_def)
next
  case (AckExact env f)
  have "disk_ok (maybe_compact (env_compact env) (retry_persistence env (remove_frame i q)))" for i
    using assms disk_ok_acks [OF assms(1), of env "[i]"] AckExact by simp
  then show ?thesis using assms(1) by (simp add: AckExact acknowledge_exact_def split: option.split)
qed (use assms disk_ok_enqueue in \<open>auto simp: new_frames_def\<close>)

definition healthy :: "queue_op list \<Rightarrow> bool" where
  "healthy ops \<longleftrightarrow> list_all (\<lambda>x. env_ok (op_env x) \<and> \<not> is_reload x
     \<and> list_all wf_frame (new_frames x)) ops"

lemma disk_ok_run:
  "healthy ops \<Longrightarrow> disk_ok (queue_run (new_queue dir h mb md ml c None) ops)"
proof (induction ops rule: rev_induct)
  case Nil
  have "on_disk [] (new_queue dir h mb md ml c None)"
    using queue_inv_empty [of dir h mb md ml c None] by (simp add: on_disk_def new_queue_def)
  then show ?case by (force simp: disk_ok_def file_bytes_def new_queue_def)
next
  case (snoc x ops)
  then show ?case by (simp add: healthy_def disk_ok_step)
qed

subsection \<open>Reading the file back\<close>

lemma format_line_no_newline: "wf_frame f \<Longrightarrow> newline_char \<notin> set (format_line f)"
  by (simp add: format_line_def wf_frame_def)

lemma split_disk_image:
  "list_all wf_frame disk \<Longrightarrow> split_fields newline_char (disk_image disk) = map format_line disk"
proof (induction disk)
  case Nil
  then show ?case by (subst split_fields.simps) simp
qed (simp add: split_fields_cons format_line_no_newline)

definition expired :: "int \<Rightarrow> telemetry_queue \<Rightarrow> queued_frame \<Rightarrow> bool" where
  "expired now q f \<longleftrightarrow> 0 < retention_s q \<and> retention_s q < now - queued_epoch_s f"

lemma format_line_nonempty [simp]: "format_line f \<noteq> []"
  by (simp add: format_line_def)

lemma load_image:
  assumes "list_all wf_frame disk" and "queue_inv q"
  shows "let q' = snd (snd (fold (load_line now) (map format_line disk) (m, n, q))) in
    map stored (frames q') = map stored (frames q)
       @ map (\<lambda>f. f\<lparr>qf_index := 0\<rparr>) (filter (\<lambda>f. \<not> expired now q f) disk)
    \<and> retention_s q' = retention_s q"
  using assms
proof (induction disk arbitrary: m n q)
  case (Cons f disk)
  have fr: "frames_ok q" using Cons.prems by (simp add: queue_inv_def)
  have line: "load_line now (format_line f) (m, n, q)
      = (if expired now q f then (m, n + 1, q) else (m, n, insert_frame (f\<lparr>qf_index := 0\<rparr>) q))"
    using Cons.prems by (simp add: load_line_def parse_format expired_def)
  have ret: "retention_s (insert_frame g q) = retention_s q" for g by (simp add: retention_s_def)
  have exp: "expired now (insert_frame g q) = expired now q" for g
    by (simp add: fun_eq_iff expired_def ret)
  show ?case using Cons.IH [of "insert_frame (f\<lparr>qf_index := 0\<rparr>) q" m n] Cons.IH [of q m "n + 1"]
      Cons.prems insert_frame_frames [OF fr, of "f\<lparr>qf_index := 0\<rparr>"] queue_inv_insert [of q]
    by (simp add: line ret exp Let_def)
qed simp

subsection \<open>What a crash keeps\<close>

text \<open>The dead bytes are dropped as soon as the live ones are few.\<close>

definition cheap_ok :: "telemetry_queue \<Rightarrow> bool" where
  "cheap_ok q \<longleftrightarrow> (live_bytes q \<le> compact_cheap_live_bytes q \<longrightarrow> dead_bytes q = 0)"

lemma cheap_ok_maybe_compact: "persistence_enabled q \<Longrightarrow> cheap_ok (maybe_compact CompactOk q)"
  by (simp add: maybe_compact_def cheap_ok_def Let_def compact_def)

lemma disk_okD: "disk_ok q \<Longrightarrow> persistence_enabled q"
  by (auto simp: disk_ok_def on_disk_def)

lemma cheap_ok_step:
  assumes "disk_ok q" and "cheap_ok q" and "env_ok (op_env x)" and "\<not> is_reload x"
  shows "cheap_ok (queue_step q x)"
proof -
  have retry: "retry_persistence env (fold remove_frame is q) = fold remove_frame is q"
    "persistence_enabled (fold remove_frame is q)" for env "is"
    using disk_okD [OF assms(1)]
    by (induction "is" arbitrary: q rule: rev_induct) (simp_all add: retry_enabled)
  have enabled: "persistence_enabled (prune now (insert_frame f q))" for now f
    by (rule prune_keeps [of persistence_enabled]) (simp_all add: disk_okD [OF assms(1)])
  show ?thesis
  proof (cases x)
    case (Enqueue env f)
    then show ?thesis using assms(3) enabled
      by (simp add: enqueue_def Let_def retry_enabled env_ok_def append_to_file_def cheap_ok_maybe_compact)
  next
    case (AckUpTo env session seq)
    then show ?thesis using assms retry
      by (simp add: acknowledge_def Let_def env_ok_def cheap_ok_maybe_compact)
  next
    case (AckExact env f)
    have "retry_persistence env (remove_frame i q) = remove_frame i q" for i
      using retry(1) [of env "[i]"] by simp
    then show ?thesis using assms AckExact disk_okD [OF assms(1)]
      by (auto simp: acknowledge_exact_def env_ok_def split: option.split
          intro!: cheap_ok_maybe_compact)
  qed (use assms in simp)
qed

lemma cheap_ok_run:
  "healthy ops \<Longrightarrow> cheap_ok (queue_run (new_queue dir h mb md ml c None) ops)"
proof (induction ops rule: rev_induct)
  case Nil
  then show ?case by (simp add: cheap_ok_def new_queue_def)
next
  case (snoc x ops)
  then show ?case using disk_ok_run [of ops dir h mb md ml c] by (simp add: healthy_def cheap_ok_step)
qed

lemma subseq_same_bytes:
  "subseq xs ys \<Longrightarrow> sum_list (map line_bytes xs) = sum_list (map line_bytes ys) \<Longrightarrow> xs = ys"
proof (induction rule: list_emb.induct)
  case (list_emb_Nil ys)
  then show ?case by (cases ys) (simp_all add: line_bytes_def)
next
  case (list_emb_Cons xs ys y)
  have "sum_list (map line_bytes xs) \<le> sum_list (map line_bytes ys)"
    using list_emb_Cons.hyps(1)
    by (induction rule: list_emb.induct) auto
  moreover have "0 < line_bytes y" by (simp add: line_bytes_def)
  ultimately show ?case using list_emb_Cons.prems by simp
qed auto

lemma new_queue_fields [simp]:
  "queue_file (new_queue dir h mb md ml c content) = content"
  "retention_hours (new_queue dir h mb md ml c content) = h"
  by (simp_all add: new_queue_def)

lemma run_retention:
  "retention_hours (queue_step q x) = retention_hours q"
proof (cases x)
  case (Enqueue env f)
  then show ?thesis using same_queue_enqueue [of env f q] by (simp add: same_queue_def)
next
  case (AckUpTo env session seq)
  have "retention_hours (fold remove_frame is q) = retention_hours q" for "is"
    by (induction "is" arbitrary: q) simp_all
  then show ?thesis using same_queue_after_ack
    by (auto simp: AckUpTo acknowledge_def Let_def same_queue_def)
next
  case (AckExact env f)
  then show ?thesis using same_queue_after_ack
    by (auto simp: acknowledge_exact_def same_queue_def split: option.split)
next
  case (Reload env)
  have "retention_hours (snd (snd (fold (load_line now) lines st))) = retention_hours (snd (snd st))"
    for now lines st
  proof (induction lines arbitrary: st)
    case (Cons l lines)
    have "retention_hours (snd (snd (load_line now l st))) = retention_hours (snd (snd st))"
      by (cases st) (simp add: load_line_def split: option.split)
    with Cons show ?case by simp
  qed simp
  then show ?thesis
    by (auto simp: Reload initialize_def Let_def split_beta cleared_def compact_def
        split: compact_outcome.split)
qed

lemma run_retention_hours: "retention_hours (queue_run q ops) = retention_hours q"
  by (induction ops rule: rev_induct) (simp_all add: run_retention)

lemma initialize_image:
  assumes "env_ok env" and "queue_file q = Some (disk_image disk)" and "list_all wf_frame disk"
  shows "map stored (frames (snd (snd (initialize env q))))
    = map (\<lambda>f. f\<lparr>qf_index := 0\<rparr>) (filter (\<lambda>f. \<not> expired (env_epoch env) q f) disk)"
proof -
  have bytes: "file_bytes (cleared q) = disk_image disk" "queue_file (cleared q) = Some (disk_image disk)"
    using assms(2) by (simp_all add: file_bytes_def cleared_def)
  have ret: "expired now (cleared q) = expired now q" for now
    by (simp add: fun_eq_iff expired_def retention_s_def cleared_def)
  have "frames (cleared q) = []" by (simp add: cleared_def)
  then show ?thesis
    using load_image [OF assms(3) queue_inv_cleared, of "env_epoch env" 0 0 q] assms(1)
    by (simp add: initialize_def Let_def split_beta bytes env_ok_def split_disk_image [OF assms(3)]
        compact_def ret)
qed

text \<open>The file and the byte counters: while the disk works, after any sequence of enqueues and
  acknowledgements the file has exactly the live and the dead bytes; without dead bytes it
  holds exactly the lines of the pending frames in order; and there are none whenever the live
  bytes are within the limit below which a rewrite is always made.\<close>

theorem file_accounts_for_live_and_dead:
  assumes "healthy ops"
  shows "let q = queue_run (new_queue dir h mb md ml c None) ops in
    length (file_bytes q) = live_bytes q + dead_bytes q
    \<and> (dead_bytes q = 0 \<longrightarrow> file_bytes q = file_image (frames q))
    \<and> (live_bytes q \<le> compact_cheap_live_bytes q \<longrightarrow> dead_bytes q = 0)"
proof -
  let ?q = "queue_run (new_queue dir h mb md ml c None) ops"
  obtain disk where d: "on_disk disk ?q" "file_bytes ?q = disk_image disk"
    using disk_ok_run [OF assms, of dir h mb md ml c] by (auto simp: disk_ok_def)
  have "map stored (frames ?q) = disk" if "dead_bytes ?q = 0"
    using d(1) that by (intro subseq_same_bytes)
      (auto simp: on_disk_def queue_inv_def frames_ok_def comp_def)
  then show ?thesis using d cheap_ok_run [OF assms, of dir h mb md ml c]
    by (auto simp: Let_def length_disk_image on_disk_def cheap_ok_def file_image_disk)
qed

theorem file_accounts_for_live_and_dead_witness:
  "let q = queue_run (new_queue ''/q'' 0 0 0 0 0 None)
       [Enqueue (quiet_env 0) (data_frame 0), AckExact (quiet_env 0) (data_frame 0)] in
    length (file_bytes q) = live_bytes q + dead_bytes q
    \<and> (dead_bytes q = 0 \<longrightarrow> file_bytes q = file_image (frames q))
    \<and> (live_bytes q \<le> compact_cheap_live_bytes q \<longrightarrow> dead_bytes q = 0)"
  by (rule file_accounts_for_live_and_dead)
    (simp add: healthy_def quiet_env_def env_ok_def new_frames_def wf_frame_def data_frame_def
      tab_char_def newline_char_def)

text \<open>C10. A crash loses no pending frame: while the disk works and for well-formed frames, a new
  process that loads the file holds every frame that was pending and is not past its
  retention time, in the same order (it may also hold frames acknowledged since the last rewrite).\<close>

theorem crash_keeps_pending_frames:
  assumes "healthy ops" and "env_ok env"
  shows "let q = queue_run (new_queue dir h mb md ml c None) ops;
             q' = snd (snd (initialize env (new_queue dir h mb md ml c (Some (file_bytes q))))) in
    subseq (map (\<lambda>p. (snd p)\<lparr>qf_index := 0\<rparr>)
              (filter (\<lambda>p. \<not> expired (env_epoch env) q (snd p)) (frames q)))
           (map (\<lambda>p. (snd p)\<lparr>qf_index := 0\<rparr>) (frames q'))"
proof -
  let ?q = "queue_run (new_queue dir h mb md ml c None) ops"
  let ?n = "new_queue dir h mb md ml c (Some (file_bytes ?q))"
  obtain disk where d: "on_disk disk ?q" "file_bytes ?q = disk_image disk" "list_all wf_frame disk"
    using disk_ok_run [OF assms(1), of dir h mb md ml c] by (auto simp: disk_ok_def)
  have exp: "expired (env_epoch env) ?n f = expired (env_epoch env) ?q f" for f
    by (simp add: expired_def retention_s_def run_retention_hours)
  have idx: "expired (env_epoch env) ?q (f\<lparr>qf_index := i\<rparr>) = expired (env_epoch env) ?q f" for f i
    by (simp add: expired_def)
  have "subseq (filter (\<lambda>f. \<not> expired (env_epoch env) ?q f) (map stored (frames ?q)))
      (filter (\<lambda>f. \<not> expired (env_epoch env) ?q f) disk)"
    using d(1) by (intro subseq_filter) (simp add: on_disk_def)
  moreover have "map stored (frames (snd (snd (initialize env ?n))))
      = map (\<lambda>f. f\<lparr>qf_index := 0\<rparr>) (filter (\<lambda>f. \<not> expired (env_epoch env) ?q f) disk)"
    using initialize_image [OF assms(2) _ d(3), of ?n] d(2) by (simp add: exp [unfolded d(2)])
  ultimately show ?thesis unfolding Let_def
    by (auto simp: filter_map comp_def idx dest: subseq_map [of _ _ "\<lambda>f. f\<lparr>qf_index := 0\<rparr>"])
qed

theorem crash_keeps_pending_frames_witness:
  "let q = queue_run (new_queue ''/q'' 0 0 0 0 0 None) [Enqueue (quiet_env 0) (data_frame 0)];
       q' = snd (snd (initialize (quiet_env 1) (new_queue ''/q'' 0 0 0 0 0 (Some (file_bytes q))))) in
    subseq (map (\<lambda>p. (snd p)\<lparr>qf_index := 0\<rparr>)
              (filter (\<lambda>p. \<not> expired (env_epoch (quiet_env 1)) q (snd p)) (frames q)))
           (map (\<lambda>p. (snd p)\<lparr>qf_index := 0\<rparr>) (frames q'))"
  by (rule crash_keeps_pending_frames)
    (simp_all add: healthy_def quiet_env_def env_ok_def new_frames_def wf_frame_def data_frame_def
      tab_char_def newline_char_def)

subsection \<open>Recovering from a disk failure\<close>

text \<open>An enqueue that restores persistence writes its frame twice: when persistence was off, the
  retry is due and the disk works again, the rewrite already holds the new frame and the append
  adds its line once more, with no dead byte counted for it.\<close>

theorem recovery_writes_frame_twice:
  assumes "\<not> persistence_enabled q" and "next_persistence_retry q \<le> env_steady env"
    and "env_mkdir_ok env" and "env_retry_compact env = CompactOk" and "env_append env = AppendOk"
  shows "let q' = snd (snd (enqueue env f q)) in
    file_bytes q' = file_image (frames q') @ format_line f @ [newline_char] \<and> dead_bytes q' = 0"
proof -
  let ?q = "prune (env_epoch env) (insert_frame f q)"
  have off: "\<not> persistence_enabled ?q \<and> next_persistence_retry ?q = next_persistence_retry q"
  proof (rule prune_keeps [of "\<lambda>q'. \<not> persistence_enabled q'
      \<and> next_persistence_retry q' = next_persistence_retry q"])
    show "\<not> persistence_enabled (insert_frame f q)
        \<and> next_persistence_retry (insert_frame f q) = next_persistence_retry q"
      using assms(1) by (simp add: insert_frame_def add_run_def erase_run_def Let_def)
  next
    fix i and q' :: telemetry_queue assume "\<not> persistence_enabled q' \<and> next_persistence_retry q' = next_persistence_retry q"
    then show "\<not> persistence_enabled (remove_frame i q')
        \<and> next_persistence_retry (remove_frame i q') = next_persistence_retry q"
      by (simp add: remove_frame_def split_run_def add_run_def erase_run_def Let_def
          split: option.split prod.split)
  qed
  then have retry: "retry_persistence env ?q
      = ?q\<lparr>next_persistence_retry := env_steady env + seconds 5, persistence_enabled := True,
          queue_file := Some (file_image (frames ?q)), dead_bytes := 0\<rparr>"
    using assms by (simp add: retry_persistence_def Let_def compact_def)
  show ?thesis
    by (simp add: enqueue_def Let_def retry assms(5) append_to_file_def maybe_compact_def file_bytes_def)
qed

theorem recovery_writes_frame_twice_witness:
  "let q' = snd (snd (enqueue (quiet_env 0) (data_frame 3)
         ((new_queue ''/q'' 0 0 0 0 0 None)\<lparr>persistence_enabled := False\<rparr>))) in
    file_bytes q' = file_image (frames q') @ format_line (data_frame 3) @ [newline_char]
    \<and> dead_bytes q' = 0"
  by (rule recovery_writes_frame_twice) (simp_all add: quiet_env_def new_queue_def)

text \<open>A pending frame that its key does not lead to stays pending, whatever is acknowledged.\<close>

definition unreachable :: "nat \<Rightarrow> queued_frame \<Rightarrow> telemetry_queue \<Rightarrow> bool" where
  "unreachable i f q \<longleftrightarrow> queue_inv q \<and> (i, f) \<in> set (frames q) \<and> by_key q (frame_key f) \<noteq> Some i"

lemma unreachable_acknowledge_exact:
  assumes "unreachable i f q" shows "unreachable i f (acknowledge_exact env h q)"
proof -
  have inv: "queue_inv q" and mem: "(i, f) \<in> set (frames q)" and no: "by_key q (frame_key f) \<noteq> Some i"
    using assms by (simp_all add: unreachable_def)
  have ok: "omap_ok (frames q)" using inv by (simp add: queue_inv_def frames_ok_def)
  have other: "j \<noteq> i" if "by_key q (frame_key h) = Some j" for j
  proof
    assume "j = i"
    obtain g where g: "(j, g) \<in> set (frames q)" "frame_key g = frame_key h"
      using keys_okD [OF _ \<open>by_key q (frame_key h) = Some j\<close>] inv by (auto simp: queue_inv_def)
    then have "g = f" using mem omap_lookup_iff [OF ok, of i] \<open>j = i\<close> by (metis option.inject)
    then show False using no that g(2) \<open>j = i\<close> by simp
  qed
  have removed: "unreachable i f (remove_frame j q)" if "j \<noteq> i" for j
  proof (cases "map_of (frames q) j")
    case (Some g)
    then show ?thesis using inv mem no that
      by (auto simp: unreachable_def queue_inv_remove set_map_erase remove_frame_fields [OF Some])
  qed (use assms in \<open>simp add: remove_frame_def\<close>)
  have same: "unreachable i f q' = unreachable i f q''" if "same_queue q' q''" for q' q''
    using that same_queue_inv [OF that] by (simp add: unreachable_def same_queue_def)
  show ?thesis using assms other removed same [OF same_queue_after_ack]
    by (auto simp: acknowledge_exact_def split: option.split)
qed

definition ack_all :: "(queue_env \<times> queued_frame) list \<Rightarrow> telemetry_queue \<Rightarrow> telemetry_queue" where
  "ack_all acks q = foldl (\<lambda>q (env, h). acknowledge_exact env h q) q acks"

lemma unreachable_ack_all: "unreachable i f q \<Longrightarrow> unreachable i f (ack_all acks q)"
proof (induction acks rule: rev_induct)
  case (snoc a acks)
  then show ?case by (cases a) (simp add: ack_all_def unreachable_acknowledge_exact)
qed (simp add: ack_all_def)

lemma initialize_two_lines:
  assumes "wf_frame f" and "env_ok env" and "\<not> expired (env_epoch env) q f"
    and "queue_file q = Some (disk_image [f, f])"
  shows "unreachable 0 (f\<lparr>qf_index := 0\<rparr>) (snd (snd (initialize env q)))"
proof -
  have wf: "list_all wf_frame [f, f]" using assms(1) by simp
  have bytes: "file_bytes (cleared q) = disk_image [f, f]"
    "queue_file (cleared q) = Some (disk_image [f, f])"
    using assms(4) by (simp_all add: file_bytes_def cleared_def)
  have ret: "retention_s (insert_frame g r) = retention_s r" "retention_s (cleared q) = retention_s q"
    for g r by (simp_all add: retention_s_def) (simp add: cleared_def)
  let ?g = "f\<lparr>qf_index := 0\<rparr>"
  let ?q = "insert_frame ?g (insert_frame ?g (cleared q))"
  have fr: "frames_ok (cleared q)" "frames_ok (insert_frame ?g (cleared q))"
    using queue_inv_cleared [of q] queue_inv_insert [OF queue_inv_cleared, of ?g q]
    by (simp_all add: queue_inv_def)
  have load: "load_line (env_epoch env) (format_line f) (m, n, r) = (m, n, insert_frame ?g r)"
    if "retention_s r = retention_s q" for m n r
    using assms(1,3) that by (simp add: load_line_def parse_format expired_def)
  have lines: "split_fields newline_char (format_line f @ newline_char # format_line f @ [newline_char])
      = [format_line f, format_line f]"
    using split_disk_image [OF wf] by simp
  have eq: "snd (snd (initialize env q)) = snd (compact CompactOk ?q)"
    using assms(2)
    by (simp add: initialize_def Let_def split_beta bytes env_ok_def compact_def load ret
        lines)
  have "queue_inv ?q" by (simp add: inv_intros)
  then show ?thesis unfolding eq
    using same_queue_inv [OF same_queue_compact [of CompactOk ?q]] fr
    by (simp add: unreachable_def compact_def insert_frame_frames cleared_def)
qed

text \<open>A duplicated line is never acknowledged: when a process loads a file in which the line of a
  frame stands twice (as the recovery above leaves it), the first copy stays pending, and is
  offered for replay, whatever exact acknowledgements arrive.\<close>

theorem duplicated_line_stays_pending:
  assumes "wf_frame f" and "env_ok env"
    and "\<not> expired (env_epoch env) (new_queue dir h mb md ml c None) f"
  shows "let q = snd (snd (initialize env
             (new_queue dir h mb md ml c (Some (disk_image [f, f]))))) in
    frame_at 0 (ack_all acks q) = Some (f\<lparr>qf_index := 0\<rparr>)
    \<and> next_replay (ack_all acks q) \<noteq> None"
proof -
  let ?n = "new_queue dir h mb md ml c (Some (disk_image [f, f]))"
  let ?q = "ack_all acks (snd (snd (initialize env ?n)))"
  have "\<not> expired (env_epoch env) ?n f"
    using assms(3) by (simp add: expired_def retention_s_def)
  from unreachable_ack_all [OF initialize_two_lines [OF assms(1,2) this]]
  have u: "unreachable 0 (f\<lparr>qf_index := 0\<rparr>) ?q" by simp
  then have "omap_ok (frames ?q)" "(0, f\<lparr>qf_index := 0\<rparr>) \<in> set (frames ?q)" "queue_inv ?q"
    by (simp_all add: unreachable_def queue_inv_def frames_ok_def)
  then show ?thesis using next_replay_spec [of ?q] omap_lookup_iff [of "frames ?q" 0]
    by (auto simp: Let_def frame_at_def split: option.splits)
qed

theorem duplicated_line_stays_pending_witness:
  "let q = snd (snd (initialize (quiet_env 0)
             (new_queue ''/q'' 0 0 0 0 0 (Some (disk_image [data_frame 3, data_frame 3]))))) in
    frame_at 0 (ack_all [(quiet_env 0, data_frame 3), (quiet_env 0, data_frame 3)] q)
      = Some ((data_frame 3)\<lparr>qf_index := 0\<rparr>)
    \<and> next_replay (ack_all [(quiet_env 0, data_frame 3), (quiet_env 0, data_frame 3)] q) \<noteq> None"
  by (rule duplicated_line_stays_pending)
    (simp_all add: quiet_env_def env_ok_def wf_frame_def data_frame_def tab_char_def newline_char_def
      expired_def)

end
