(* ===== verification/LinkBudget.thy ===== *)
theory LinkBudget
  imports Doubles
begin

text \<open>
  The ledger of the on-board share of the 24 kbps link (\<^verbatim>\<open>link_budget.cpp\<close>): the size of a
  message on the wire, the sliding window of charges, the queue of waiting senders and the model
  of the kernel's token bucket.  Byte counts are unsigned 32-bit numbers in the source; sums are made
  in 64 bits there and saturate, so they are plain numbers here with the saturation written out.
  The clock is an argument of every operation.

  \<open>WaitHold\<close> holds the mutex except while it sleeps, so a call is a first round and one more round per
  wake-up, each one step.
\<close>

subsection \<open>Bytes on the wire\<close>

definition frame_overhead :: nat where "frame_overhead = 24"
definition tcp_headers :: nat where "tcp_headers = 66"
definition udp_headers :: nat where "udp_headers = 42"
definition min_frame :: nat where "min_frame = 60"
definition link_mtu :: nat where "link_mtu = 576"
definition mss :: nat where "mss = link_mtu - 52"
definition onboard_share_bytes :: nat where "onboard_share_bytes = 1600"

definition tcp_segment_count :: "nat \<Rightarrow> nat" where
  "tcp_segment_count payload =
     (if payload = 0 then 1 else ((payload + mss - 1) mod 2 ^ 64 div mss) mod 2 ^ 32)"

definition tcp_bytes :: "nat \<Rightarrow> nat" where
  "tcp_bytes payload =
     (tcp_segment_count payload * (tcp_headers + frame_overhead) + payload mod 2 ^ 32) mod 2 ^ 32"

definition udp_bytes :: "nat \<Rightarrow> nat" where
  "udp_bytes payload =
     (max min_frame ((udp_headers + payload mod 2 ^ 32) mod 2 ^ 32) + frame_overhead) mod 2 ^ 32"

subsection \<open>The ledger\<close>

datatype link_priority = CommandReply | Live | Discovery | Replay

fun priority_rank :: "link_priority \<Rightarrow> nat" where
  "priority_rank CommandReply = 0" | "priority_rank Live = 1"
| "priority_rank Discovery = 2" | "priority_rank Replay = 3"

text \<open>An entry counts until one window after its end; without an end (\<^verbatim>\<open>time_point::max()\<close>) it is open.\<close>

record entry =
  entry_id :: nat
  entry_end :: "time_point option"
  entry_bytes :: nat

record link_budget =
  share :: nat
  lb_window :: duration
  entries :: "entry list"
  waiting :: "nat list"
  next_id :: nat
  egress_burst :: dbl
  egress_rate :: dbl
  egress_tokens :: dbl
  egress_stamp :: time_point

definition new_link_budget :: "nat \<Rightarrow> duration \<Rightarrow> link_budget" where
  "new_link_budget share_bytes window =
     \<lparr>share = share_bytes, lb_window = window, entries = [], waiting = [], next_id = 1,
      egress_burst = 0, egress_rate = 0, egress_tokens = 0, egress_stamp = 0\<rparr>"

definition counts_at :: "duration \<Rightarrow> time_point \<Rightarrow> time_point option \<Rightarrow> bool" where
  "counts_at window now e \<longleftrightarrow> (case e of None \<Rightarrow> True | Some t \<Rightarrow> \<not> t + window \<le> now)"

definition in_window :: "time_point \<Rightarrow> link_budget \<Rightarrow> nat \<times> link_budget" where
  "in_window now b =
     (let es = filter (\<lambda>e. counts_at (lb_window b) now (entry_end e)) (entries b)
      in (min (sum_list (map entry_bytes es)) (2 ^ 32 - 1), b\<lparr>entries := es\<rparr>))"

definition more_urgent_waiting :: "link_priority \<Rightarrow> link_budget \<Rightarrow> bool" where
  "more_urgent_waiting p b \<longleftrightarrow> list_ex (\<lambda>w. w < priority_rank p) (waiting b)"

definition refill_egress :: "time_point \<Rightarrow> link_budget \<Rightarrow> link_budget" where
  "refill_egress now b =
     (if egress_stamp b < now
      then b\<lparr>egress_tokens :=
               std_min (egress_burst b)
                 (egress_tokens b + egress_rate b * seconds_of (now - egress_stamp b)),
             egress_stamp := now\<rparr>
      else b)"

definition set_egress_shaper :: "nat \<Rightarrow> nat \<Rightarrow> time_point \<Rightarrow> link_budget \<Rightarrow> link_budget" where
  "set_egress_shaper burst rate now b =
     b\<lparr>egress_burst := dbl_of_int (int burst), egress_rate := dbl_of_int (int rate),
       egress_tokens := dbl_of_int (int burst), egress_stamp := now\<rparr>"

definition debit_egress :: "nat \<Rightarrow> time_point \<Rightarrow> link_budget \<Rightarrow> link_budget" where
  "debit_egress n now b =
     (if egress_burst b \<le> 0 then b
      else
        (let b = refill_egress now b
         in b\<lparr>egress_tokens :=
                std_max (egress_tokens b - dbl_of_int (int n)) (- egress_burst b)\<rparr>))"

definition refund_egress :: "nat \<Rightarrow> time_point \<Rightarrow> link_budget \<Rightarrow> link_budget" where
  "refund_egress n now b =
     (if egress_burst b \<le> 0 then b
      else
        (let b = refill_egress now b
         in b\<lparr>egress_tokens :=
                std_min (egress_burst b) (egress_tokens b + dbl_of_int (int n))\<rparr>))"

text \<open>\<^verbatim>\<open>static_cast<int64_t>(std::floor(tokens))\<close>.\<close>

fun floor_i64 :: "dbl \<Rightarrow> int" where
  "floor_i64 (Fin q) = sat_i64 \<lfloor>q\<rfloor>"
| "floor_i64 x = dbl_to_i64 x"

definition egress_tokens_now :: "time_point \<Rightarrow> link_budget \<Rightarrow> int \<times> link_budget" where
  "egress_tokens_now now b =
     (if egress_burst b \<le> 0 then (0, b)
      else (let b = refill_egress now b in (floor_i64 (egress_tokens b), b)))"

subsection \<open>Admission\<close>

definition admit ::
  "nat \<Rightarrow> link_priority \<Rightarrow> time_point \<Rightarrow> bool \<Rightarrow> nat \<Rightarrow> link_budget \<Rightarrow> nat option \<times> link_budget" where
  "admit n p now is_open tx b =
     (if share b < n then (None, b)
      else if more_urgent_waiting p b then (None, b)
      else
        (let (sum, b) = in_window now b in
         if share b < sum + n then (None, b)
         else
           (let shaped = (0 < egress_burst b \<and> 0 < tx);
                b = (if shaped then refill_egress now b else b)
            in if shaped \<and> egress_tokens b < std_min (dbl_of_int (int tx)) (egress_burst b)
               then (None, b)
               else
                 (let b = (if shaped
                           then b\<lparr>egress_tokens := egress_tokens b - dbl_of_int (int tx)\<rparr> else b);
                      ticket = next_id b
                  in (Some ticket,
                      b\<lparr>next_id := ticket + 1,
                        entries := entries b
                          @ [\<lparr>entry_id = ticket, entry_end = (if is_open then None else Some now),
                              entry_bytes = n\<rparr>]\<rparr>)))))"

definition try_charge :: "nat \<Rightarrow> link_priority \<Rightarrow> nat \<Rightarrow> time_point \<Rightarrow> link_budget \<Rightarrow> bool \<times> link_budget" where
  "try_charge n p tx now b = (let (t, b) = admit n p now False tx b in (t \<noteq> None, b))"

definition try_hold ::
  "nat \<Rightarrow> link_priority \<Rightarrow> nat \<Rightarrow> time_point \<Rightarrow> link_budget \<Rightarrow> nat option \<times> link_budget" where
  "try_hold n p tx now b = admit n p now True tx b"

datatype wait_outcome = Admitted nat | GaveUp | Blocked

definition wait_round ::
  "nat \<Rightarrow> link_priority \<Rightarrow> time_point \<Rightarrow> nat \<Rightarrow> time_point \<Rightarrow> link_budget \<Rightarrow> wait_outcome \<times> link_budget" where
  "wait_round n p deadline tx now b =
     (case admit n p now True tx (b\<lparr>waiting := remove1 (priority_rank p) (waiting b)\<rparr>) of
        (Some ticket, b) \<Rightarrow> (Admitted ticket, b)
      | (None, b) \<Rightarrow>
          if deadline \<le> now then (GaveUp, b)
          else (Blocked, b\<lparr>waiting := waiting b @ [priority_rank p]\<rparr>))"

definition wait_hold ::
  "nat \<Rightarrow> link_priority \<Rightarrow> time_point \<Rightarrow> nat \<Rightarrow> time_point \<Rightarrow> link_budget \<Rightarrow> wait_outcome \<times> link_budget" where
  "wait_hold n p deadline tx now b =
     (if share b < n then (GaveUp, b)
      else wait_round n p deadline tx now (b\<lparr>waiting := waiting b @ [priority_rank p]\<rparr>))"

text \<open>The first entry with the ticket's id is changed (ids are unique).\<close>

fun update_entry ::
  "nat \<Rightarrow> ('a entry_scheme \<Rightarrow> 'a entry_scheme) \<Rightarrow> 'a entry_scheme list \<Rightarrow> 'a entry_scheme list" where
  "update_entry i g [] = []"
| "update_entry i g (e # es) = (if entry_id e = i then g e # es else e # update_entry i g es)"

definition release_at :: "nat \<Rightarrow> time_point \<Rightarrow> link_budget \<Rightarrow> link_budget" where
  "release_at ticket when b = b\<lparr>entries := update_entry ticket (entry_end_update (\<lambda>_. Some when)) (entries b)\<rparr>"

definition release_part :: "nat \<Rightarrow> nat \<Rightarrow> time_point \<Rightarrow> link_budget \<Rightarrow> link_budget" where
  "release_part ticket n when b =
     (case find (\<lambda>e. entry_id e = ticket) (entries b) of None \<Rightarrow> b
      | Some e \<Rightarrow>
          (let part = min n (entry_bytes e)
           in b\<lparr>entries := update_entry ticket (entry_bytes_update (\<lambda>k. k - part)) (entries b)
                  @ [\<lparr>entry_id = next_id b, entry_end = Some when, entry_bytes = part\<rparr>],
                next_id := next_id b + 1\<rparr>))"

definition refund :: "nat \<Rightarrow> nat \<Rightarrow> link_budget \<Rightarrow> link_budget" where
  "refund ticket n b =
     b\<lparr>entries := update_entry ticket (entry_bytes_update (\<lambda>k. k - min n k)) (entries b)\<rparr>"

subsection \<open>Runs\<close>

datatype budget_op =
    TryCharge nat link_priority nat
  | TryHold nat link_priority nat
  | WaitHold nat link_priority time_point nat
  | WaitWake nat link_priority time_point nat
  | ReleaseAt nat time_point
  | ReleasePart nat nat time_point
  | Refund nat nat
  | InWindow
  | SetEgressShaper nat nat
  | DebitEgress nat
  | RefundEgress nat
  | EgressTokens

fun budget_step :: "time_point \<Rightarrow> budget_op \<Rightarrow> link_budget \<Rightarrow> link_budget" where
  "budget_step now (TryCharge n p tx) b = snd (try_charge n p tx now b)"
| "budget_step now (TryHold n p tx) b = snd (try_hold n p tx now b)"
| "budget_step now (WaitHold n p deadline tx) b = snd (wait_hold n p deadline tx now b)"
| "budget_step now (WaitWake n p deadline tx) b = snd (wait_round n p deadline tx now b)"
| "budget_step now (ReleaseAt i when) b = release_at i when b"
| "budget_step now (ReleasePart i n when) b = release_part i n when b"
| "budget_step now (Refund i n) b = refund i n b"
| "budget_step now InWindow b = snd (in_window now b)"
| "budget_step now (SetEgressShaper burst rate) b = set_egress_shaper burst rate now b"
| "budget_step now (DebitEgress n) b = debit_egress n now b"
| "budget_step now (RefundEgress n) b = refund_egress n now b"
| "budget_step now EgressTokens b = snd (egress_tokens_now now b)"

text \<open>
  The history of the charges, which the ledger itself does not keep: every charge ever admitted with the
  moment it was placed.  A part split off a hold was placed with the hold.  An entry the ledger
  has dropped is no longer changed.
\<close>

record charge = entry +
  placed :: time_point

definition has_entry :: "nat \<Rightarrow> link_budget \<Rightarrow> bool" where
  "has_entry i b \<longleftrightarrow> i \<in> entry_id ` set (entries b)"

fun log_step ::
  "time_point \<Rightarrow> budget_op \<Rightarrow> link_budget \<Rightarrow> charge list \<Rightarrow> charge list" where
  "log_step now (ReleaseAt i when) b hist =
     (if has_entry i b then update_entry i (entry_end_update (\<lambda>_. Some when)) hist else hist)"
| "log_step now (Refund i n) b hist =
     (if has_entry i b then update_entry i (entry_bytes_update (\<lambda>k. k - min n k)) hist else hist)"
| "log_step now (ReleasePart i n when) b hist =
     (if has_entry i b
      then (case find (\<lambda>c. entry_id c = i) hist of None \<Rightarrow> hist
            | Some c \<Rightarrow>
                (let part = min n (entry_bytes c)
                 in update_entry i (entry_bytes_update (\<lambda>k. k - part)) hist
                    @ [\<lparr>entry_id = next_id b, entry_end = Some when, entry_bytes = part,
                        placed = placed c\<rparr>]))
      else hist)"
| "log_step now op b hist =
     (let b' = budget_step now op b
      in if next_id b' = next_id b then hist
         else hist @ [entry.extend (last (entries b')) \<lparr>placed = now\<rparr>])"

text \<open>Time does not go back, and a release never moves the end of a charge to a later time.\<close>

fun op_ok :: "budget_op \<Rightarrow> link_budget \<Rightarrow> bool" where
  "op_ok (ReleaseAt i when) b \<longleftrightarrow> list_all (\<lambda>e. entry_id e = i \<longrightarrow>
     (case entry_end e of None \<Rightarrow> True | Some t \<Rightarrow> when \<le> t)) (entries b)"
| "op_ok (ReleasePart i n when) b \<longleftrightarrow> list_all (\<lambda>e. entry_id e = i \<longrightarrow>
     (case entry_end e of None \<Rightarrow> True | Some t \<Rightarrow> when \<le> t)) (entries b)"
| "op_ok _ b \<longleftrightarrow> True"

fun ledger_run ::
  "time_point \<Rightarrow> (time_point \<times> budget_op) list \<Rightarrow> link_budget \<times> charge list
   \<Rightarrow> (link_budget \<times> charge list) option" where
  "ledger_run t0 [] (b, hist) = Some (b, hist)"
| "ledger_run t0 ((now, op) # ops) (b, hist) =
     (if t0 \<le> now \<and> op_ok op b
      then ledger_run now ops (budget_step now op b, log_step now op b hist) else None)"

definition on_wire :: "duration \<Rightarrow> time_point \<Rightarrow> charge \<Rightarrow> bool" where
  "on_wire window t c \<longleftrightarrow> placed c \<le> t \<and> counts_at window t (entry_end c)"

definition wire_load :: "duration \<Rightarrow> time_point \<Rightarrow> charge list \<Rightarrow> nat" where
  "wire_load window t hist = sum_list (map entry_bytes (filter (on_wire window t) hist))"

subsection \<open>The window invariant\<close>

definition kept :: "nat set \<Rightarrow> charge list \<Rightarrow> entry list" where
  "kept K hist = map entry.truncate (filter (\<lambda>c. entry_id c \<in> K) hist)"

definition ledger_inv :: "time_point \<Rightarrow> nat set \<Rightarrow> link_budget \<Rightarrow> charge list \<Rightarrow> bool" where
  "ledger_inv now K b hist \<longleftrightarrow> entries b = kept K hist \<and> distinct (map entry_id hist)
     \<and> (\<forall>c \<in> set hist. placed c \<le> now \<and> entry_id c < next_id b
          \<and> (counts_at (lb_window b) now (entry_end c) \<longrightarrow> entry_id c \<in> K))
     \<and> (\<forall>t. wire_load (lb_window b) t hist \<le> share b)"

lemma truncate_simps [simp]:
  "entry_id (entry.truncate c) = entry_id c" "entry_end (entry.truncate c) = entry_end c"
  "entry_bytes (entry.truncate c) = entry_bytes c"
  by (simp_all add: entry.truncate_def)

lemma counts_at_mono: "counts_at w t e \<Longrightarrow> now \<le> t \<Longrightarrow> counts_at w now e"
  by (auto simp: counts_at_def split: option.splits)

lemma sum_filter_mono:
  fixes f :: "'a \<Rightarrow> nat"
  assumes "\<And>x. x \<in> set xs \<Longrightarrow> P x \<Longrightarrow> Q x"
  shows "sum_list (map f (filter P xs)) \<le> sum_list (map f (filter Q xs))"
  using assms by (induction xs) (auto intro: le_SucI trans_le_add2)

lemma ledger_inv_later: "ledger_inv t0 K b hist \<Longrightarrow> t0 \<le> now \<Longrightarrow> ledger_inv now K b hist"
  unfolding ledger_inv_def using counts_at_mono order_trans by metis

text \<open>Pruning the entries that no longer count.\<close>

lemma ledger_inv_prune:
  assumes inv: "ledger_inv now K b hist"
  defines "b' \<equiv> snd (in_window now b)"
  shows "ledger_inv now {i \<in> K. \<exists>c \<in> set hist. entry_id c = i \<and> counts_at (lb_window b) now (entry_end c)} b' hist
    \<and> fst (in_window now b) = min (sum_list (map entry_bytes (filter (\<lambda>c. entry_id c \<in> K
          \<and> counts_at (lb_window b) now (entry_end c)) hist))) (2 ^ 32 - 1)"
proof -
  let ?K = "{i \<in> K. \<exists>c \<in> set hist. entry_id c = i \<and> counts_at (lb_window b) now (entry_end c)}"
  have same: "c = d" if "c \<in> set hist" "d \<in> set hist" "entry_id c = entry_id d" for c d
    using inv that by (auto simp: ledger_inv_def distinct_map inj_on_def)
  have K: "entry_id c \<in> ?K \<longleftrightarrow> entry_id c \<in> K \<and> counts_at (lb_window b) now (entry_end c)"
    if "c \<in> set hist" for c using that same by auto
  have filt: "filter (\<lambda>c. entry_id c \<in> ?K) hist = filter (\<lambda>c. entry_id c \<in> K
      \<and> counts_at (lb_window b) now (entry_end c)) hist"
    using K by (rule filter_cong [OF refl])
  have "entries b = kept K hist" using inv by (simp add: ledger_inv_def)
  then have "filter (\<lambda>e. counts_at (lb_window b) now (entry_end e)) (entries b) = kept ?K hist"
    unfolding kept_def filt by (simp add: filter_map comp_def)
  then have entries: "entries b' = kept ?K hist"
    "fst (in_window now b) = min (sum_list (map entry_bytes (kept ?K hist))) (2 ^ 32 - 1)"
    by (simp_all add: b'_def in_window_def Let_def)
  have kept: "map entry_bytes (kept ?K hist) = map entry_bytes (filter (\<lambda>c. entry_id c \<in> K
          \<and> counts_at (lb_window b) now (entry_end c)) hist)"
    unfolding kept_def filt by (simp add: comp_def)
  have "share b' = share b" "lb_window b' = lb_window b" "next_id b' = next_id b"
    by (simp_all add: b'_def in_window_def Let_def)
  moreover have "counts_at (lb_window b) now (entry_end c) \<longrightarrow> entry_id c \<in> ?K" if "c \<in> set hist" for c
    using that inv unfolding ledger_inv_def by blast
  ultimately show ?thesis using inv entries kept by (simp add: ledger_inv_def)
qed

text \<open>The invariant does not read the waiting senders and the egress model.\<close>

lemma ledger_inv_cong:
  assumes "entries b' = entries b" "next_id b' = next_id b" "share b' = share b" "lb_window b' = lb_window b"
  shows "ledger_inv now K b' hist = ledger_inv now K b hist"
  by (simp add: ledger_inv_def assms)

lemma refill_fields [simp, frame_simps]:
  "entries (refill_egress now b) = entries b" "next_id (refill_egress now b) = next_id b"
  "share (refill_egress now b) = share b" "lb_window (refill_egress now b) = lb_window b"
  "waiting (refill_egress now b) = waiting b"
  by (simp_all add: refill_egress_def)

lemma in_window_fields [simp, frame_simps]:
  "next_id (snd (in_window now b)) = next_id b" "share (snd (in_window now b)) = share b"
  "lb_window (snd (in_window now b)) = lb_window b"
  by (simp_all add: in_window_def Let_def)

lemma wire_load_snoc:
  "wire_load w t (hist @ [c]) = wire_load w t hist + (if on_wire w t c then entry_bytes c else 0)"
  by (simp add: wire_load_def)

lemma ledger_inv_place:
  assumes inv: "ledger_inv now K b hist" and w: "w = lb_window b"
    and room: "sum_list (map entry_bytes (filter (\<lambda>c. entry_id c \<in> K \<and> counts_at w now (entry_end c)) hist))
      + n \<le> share b"
    and c: "c = \<lparr>entry_id = next_id b, entry_end = e, entry_bytes = n, placed = now\<rparr>"
  shows "ledger_inv now (insert (next_id b) K)
     (b\<lparr>next_id := next_id b + 1, entries := entries b @ [entry.truncate c]\<rparr>) (hist @ [c])"
proof -
  have below: "\<forall>d \<in> set hist. entry_id d < next_id b" using inv by (simp add: ledger_inv_def)
  have K: "filter (\<lambda>d. entry_id d = next_id b \<or> entry_id d \<in> K) hist = filter (\<lambda>d. entry_id d \<in> K) hist"
    using below by (intro filter_cong [OF refl]) auto
  have "wire_load w t (hist @ [c]) \<le> share b" for t
  proof (cases "now \<le> t")
    case True
    have "wire_load w t hist \<le> sum_list (map entry_bytes (filter (\<lambda>c. entry_id c \<in> K
        \<and> counts_at w now (entry_end c)) hist))"
      unfolding wire_load_def
    proof (rule sum_filter_mono)
      fix d assume d: "d \<in> set hist" "on_wire w t d"
      then have "counts_at w now (entry_end d)" using counts_at_mono True by (auto simp: on_wire_def)
      then show "entry_id d \<in> K \<and> counts_at w now (entry_end d)"
        using inv d(1) unfolding ledger_inv_def w by blast
    qed
    then show ?thesis using room by (simp add: wire_load_snoc c)
  next
    case False
    then have "\<not> on_wire w t c" by (simp add: on_wire_def c)
    then show ?thesis using inv by (simp add: wire_load_snoc ledger_inv_def w)
  qed
  then show ?thesis using inv below K
    by (auto simp: ledger_inv_def kept_def c w less_Suc_eq entry.truncate_def)
qed

definition ledger_ok :: "time_point \<Rightarrow> link_budget \<Rightarrow> charge list \<Rightarrow> bool" where
  "ledger_ok now b hist \<longleftrightarrow> share b < 2 ^ 32 \<and> (\<exists>K. ledger_inv now K b hist)"

lemma ledger_ok_cong:
  assumes "entries b' = entries b" "next_id b' = next_id b" "share b' = share b" "lb_window b' = lb_window b"
  shows "ledger_ok now b' hist = ledger_ok now b hist"
  by (simp add: ledger_ok_def ledger_inv_cong [OF assms] assms)

text \<open>The charge a state change adds, if it adds one.\<close>

definition admitted :: "time_point \<Rightarrow> link_budget \<Rightarrow> link_budget \<Rightarrow> charge list \<Rightarrow> charge list" where
  "admitted now b b' hist =
     (if next_id b' = next_id b then hist
      else hist @ [entry.extend (last (entries b')) \<lparr>placed = now\<rparr>])"

lemma ledger_ok_admit:
  assumes ok: "ledger_ok now b hist"
  shows "ledger_ok now (snd (admit n p now op tx b)) (admitted now b (snd (admit n p now op tx b)) hist)"
proof -
  obtain K where inv: "ledger_inv now K b hist" and small: "share b < 2 ^ 32"
    using ok by (auto simp: ledger_ok_def)
  let ?b = "snd (in_window now b)"
  obtain K' where inv': "ledger_inv now K' ?b hist"
    and sum: "fst (in_window now b) = min (sum_list (map entry_bytes (filter (\<lambda>c. entry_id c \<in> K
          \<and> counts_at (lb_window b) now (entry_end c)) hist))) (2 ^ 32 - 1)"
    using ledger_inv_prune [OF inv] by blast
  have load: "sum_list (map entry_bytes (filter (\<lambda>c. entry_id c \<in> K
      \<and> counts_at (lb_window b) now (entry_end c)) hist)) \<le> wire_load (lb_window b) now hist"
    unfolding wire_load_def
    by (rule sum_filter_mono) (use inv in \<open>auto simp: on_wire_def ledger_inv_def\<close>)
  also have "\<dots> \<le> share b" using inv by (simp add: ledger_inv_def)
  finally have sum_eq: "fst (in_window now b) = sum_list (map entry_bytes (filter (\<lambda>c. entry_id c \<in> K
          \<and> counts_at (lb_window b) now (entry_end c)) hist))"
    using sum small by simp
  have le: "sum_list (map entry_bytes (filter (\<lambda>c. entry_id c \<in> K'
      \<and> counts_at (lb_window b) now (entry_end c)) hist)) \<le> fst (in_window now b)"
    unfolding sum_eq by (rule sum_filter_mono) (use inv in \<open>auto simp: ledger_inv_def\<close>)
  have idle: "ledger_ok now c (admitted now b c hist)"
    if "entries c = entries ?b" "next_id c = next_id b" "share c = share b" "lb_window c = lb_window b" for c
    using inv' small that ledger_inv_cong [of c ?b] by (auto simp: ledger_ok_def admitted_def)
  show ?thesis
  proof (cases "fst (admit n p now op tx b)")
    case None
    show ?thesis
    proof (cases "share b < n \<or> more_urgent_waiting p b")
      case True
      then have "snd (admit n p now op tx b) = b" by (auto simp: admit_def)
      then show ?thesis using ok by (simp add: admitted_def)
    next
      case False
      then have "entries (snd (admit n p now op tx b)) = entries ?b"
        "next_id (snd (admit n p now op tx b)) = next_id b"
        "share (snd (admit n p now op tx b)) = share b"
        "lb_window (snd (admit n p now op tx b)) = lb_window b"
        using None by (auto simp: admit_def Let_def split_beta split: if_splits)
      then show ?thesis by (rule idle)
    qed
  next
    case (Some i)
    let ?e = "if op then None else Some now"
    let ?c = "\<lparr>entry_id = next_id b, entry_end = ?e, entry_bytes = n, placed = now\<rparr>"
    have room: "fst (in_window now b) + n \<le> share b"
      using Some by (auto simp: admit_def Let_def split_beta split: if_splits)
    have after: "entries (snd (admit n p now op tx b)) = entries ?b @ [entry.truncate ?c]"
      "next_id (snd (admit n p now op tx b)) = next_id b + 1"
      "share (snd (admit n p now op tx b)) = share b"
      "lb_window (snd (admit n p now op tx b)) = lb_window b"
      using Some by (auto simp: admit_def Let_def split_beta entry.truncate_def split: if_splits)
    have "ledger_inv now (insert (next_id b) K')
        (?b\<lparr>next_id := next_id b + 1, entries := entries ?b @ [entry.truncate ?c]\<rparr>) (hist @ [?c])"
      using ledger_inv_place [OF inv', of "lb_window b" n ?c ?e] le room by simp
    then have "ledger_inv now (insert (next_id b) K') (snd (admit n p now op tx b)) (hist @ [?c])"
      by (rule iffD1 [OF ledger_inv_cong, rotated -1]) (simp_all add: after)
    moreover have "admitted now b (snd (admit n p now op tx b)) hist = hist @ [?c]"
      by (simp add: admitted_def after entry.extend_def entry.truncate_def)
    ultimately show ?thesis using small after(3) by (auto simp: ledger_ok_def)
  qed
qed

text \<open>Changing one charge.\<close>

lemma update_entry_ids [simp]:
  "(\<And>c. entry_id (g c) = entry_id c) \<Longrightarrow> map entry_id (update_entry i g xs) = map entry_id xs"
  by (induction xs) auto

lemma update_entry_set:
  "c \<in> set (update_entry i g xs) \<Longrightarrow> c \<in> set xs \<or> (\<exists>d \<in> set xs. entry_id d = i \<and> c = g d)"
  by (induction xs) (auto split: if_splits)

lemma update_entry_absent: "i \<notin> entry_id ` set xs \<Longrightarrow> update_entry i g xs = xs"
  by (induction xs) auto

lemma kept_update:
  assumes "\<And>c. entry.truncate (g c) = g' (entry.truncate c)" and "\<And>c. entry_id (g c) = entry_id c"
    and "i \<in> K"
  shows "kept K (update_entry i g hist) = update_entry i g' (kept K hist)"
  by (induction hist) (auto simp: kept_def assms)

lemma wire_load_update:
  assumes "distinct (map entry_id hist)" and "c \<in> set hist" and "entry_id c = i"
  shows "wire_load w t (update_entry i g hist) + (if on_wire w t c then entry_bytes c else 0)
    = wire_load w t hist + (if on_wire w t (g c) then entry_bytes (g c) else 0)"
  using assms
proof (induction hist)
  case (Cons d hist)
  show ?case
  proof (cases "entry_id d = i")
    case True
    then have "d = c" using Cons.prems by (auto simp: image_iff)
    then show ?thesis using Cons.prems by (simp add: wire_load_def)
  next
    case False
    then show ?thesis using Cons by (auto simp: wire_load_def)
  qed
qed simp

lemma has_entry_charge:
  assumes inv: "ledger_inv now K b hist" and "has_entry i b"
  obtains c where "c \<in> set hist" "entry_id c = i" "i \<in> K" "entry.truncate c \<in> set (entries b)"
    "find (\<lambda>c. entry_id c = i) hist = Some c"
    "find (\<lambda>e. entry_id e = i) (entries b) = Some (entry.truncate c)"
proof -
  have ids: "distinct (map entry_id hist)" and eq: "entries b = kept K hist"
    using inv by (simp_all add: ledger_inv_def)
  obtain c where c: "c \<in> set hist" "entry_id c = i" "i \<in> K" "entry.truncate c \<in> set (entries b)"
    using assms(2) by (auto simp: has_entry_def eq kept_def)
  have "find (\<lambda>c. entry_id c = i) hist = Some c"
    using ids c by (induction hist) (auto simp: image_iff)
  moreover have "find (\<lambda>e. entry_id e = i) (kept K hist) = Some (entry.truncate c)"
    using ids c(1,2,3) by (induction hist) (auto simp: kept_def image_iff)
  ultimately show ?thesis using c that eq by simp
qed

lemma ledger_inv_change:
  assumes inv: "ledger_inv now K b hist" and i: "has_entry i b"
    and g: "\<And>c. entry.truncate (g c) = g' (entry.truncate c)" "\<And>c. entry_id (g c) = entry_id c"
      "\<And>c. placed (g c) = placed c"
    and less: "\<And>c t. c \<in> set hist \<Longrightarrow> entry_id c = i \<Longrightarrow> entry.truncate c \<in> set (entries b) \<Longrightarrow>
      on_wire (lb_window b) t (g c) \<Longrightarrow> on_wire (lb_window b) t c \<and> entry_bytes (g c) \<le> entry_bytes c"
  shows "ledger_inv now K (b\<lparr>entries := update_entry i g' (entries b)\<rparr>) (update_entry i g hist)"
proof -
  obtain c where c: "c \<in> set hist" "entry_id c = i" "i \<in> K" "entry.truncate c \<in> set (entries b)"
    using has_entry_charge [OF inv i] by blast
  have ids: "distinct (map entry_id hist)" using inv by (simp add: ledger_inv_def)
  have "wire_load (lb_window b) t (update_entry i g hist) \<le> wire_load (lb_window b) t hist" for t
    using wire_load_update [OF ids c(1,2), of "lb_window b" t g] less [OF c(1,2,4), of t]
    by (auto split: if_splits)
  then have "\<forall>t. wire_load (lb_window b) t (update_entry i g hist) \<le> share b"
    using inv by (auto simp: ledger_inv_def intro: order_trans)
  moreover have "placed d \<le> now \<and> entry_id d < next_id b
      \<and> (counts_at (lb_window b) now (entry_end d) \<longrightarrow> entry_id d \<in> K)"
    if "d \<in> set (update_entry i g hist)" for d
    using update_entry_set [OF that]
  proof
    assume "\<exists>e \<in> set hist. entry_id e = i \<and> d = g e"
    then show ?thesis using inv g c(3) by (auto simp: ledger_inv_def)
  qed (use inv in \<open>simp add: ledger_inv_def\<close>)
  ultimately show ?thesis using inv kept_update [OF g(1,2) c(3), of hist] g(2) ids
    by (simp add: ledger_inv_def)
qed

lemma no_entry_update: "\<not> has_entry i b \<Longrightarrow> update_entry i g (entries b) = entries b"
  by (rule update_entry_absent) (simp add: has_entry_def)

lemma same_entries [simp]: "b\<lparr>entries := entries b\<rparr> = b"
  by simp

lemma ledger_ok_release:
  assumes ok: "ledger_ok now b hist" and "op_ok (ReleaseAt i when) b"
  shows "ledger_ok now (release_at i when b) (log_step now (ReleaseAt i when) b hist)"
proof (cases "has_entry i b")
  case True
  obtain K where inv: "ledger_inv now K b hist" using ok by (auto simp: ledger_ok_def)
  have "ledger_inv now K (release_at i when b) (update_entry i (entry_end_update (\<lambda>_. Some when)) hist)"
    unfolding release_at_def
  proof (rule ledger_inv_change [OF inv True])
    fix c :: charge and t
    assume c: "entry_id c = i" "entry.truncate c \<in> set (entries b)"
      "on_wire (lb_window b) t (entry_end_update (\<lambda>_. Some when) c)"
    then have "case entry_end c of None \<Rightarrow> True | Some t \<Rightarrow> when \<le> t"
      using assms(2) by (auto simp: list_all_iff dest: bspec [where x = "entry.truncate c"])
    then show "on_wire (lb_window b) t c
        \<and> entry_bytes (entry_end_update (\<lambda>_. Some when) c) \<le> entry_bytes c"
      using c(3) by (auto simp: on_wire_def counts_at_def split: option.splits)
  qed (simp_all add: entry.truncate_def)
  then show ?thesis using ok True by (auto simp: ledger_ok_def release_at_def)
next
  case False
  then show ?thesis using ok by (simp add: release_at_def no_entry_update)
qed

lemma ledger_ok_refund:
  assumes ok: "ledger_ok now b hist"
  shows "ledger_ok now (refund i n b) (log_step now (Refund i n) b hist)"
proof (cases "has_entry i b")
  case True
  obtain K where inv: "ledger_inv now K b hist" using ok by (auto simp: ledger_ok_def)
  have "ledger_inv now K (refund i n b) (update_entry i (entry_bytes_update (\<lambda>k. k - min n k)) hist)"
    unfolding refund_def
    by (rule ledger_inv_change [OF inv True]) (simp_all add: entry.truncate_def on_wire_def)
  then show ?thesis using ok True by (auto simp: ledger_ok_def refund_def)
next
  case False
  then show ?thesis using ok by (simp add: refund_def no_entry_update)
qed

lemma ledger_ok_release_part:
  assumes ok: "ledger_ok now b hist" and op: "op_ok (ReleasePart i n when) b"
  shows "ledger_ok now (release_part i n when b) (log_step now (ReleasePart i n when) b hist)"
proof (cases "has_entry i b")
  case True
  obtain K where inv: "ledger_inv now K b hist" using ok by (auto simp: ledger_ok_def)
  obtain c where c: "c \<in> set hist" "entry_id c = i" "i \<in> K" "entry.truncate c \<in> set (entries b)"
    and look: "find (\<lambda>c. entry_id c = i) hist = Some c"
      "find (\<lambda>e. entry_id e = i) (entries b) = Some (entry.truncate c)"
    using has_entry_charge [OF inv True] by blast
  let ?part = "min n (entry_bytes c)"
  let ?g = "entry_bytes_update (\<lambda>k. k - ?part) :: charge \<Rightarrow> charge"
  let ?b = "b\<lparr>entries := update_entry i (entry_bytes_update (\<lambda>k. k - ?part)) (entries b)\<rparr>"
  let ?hist = "update_entry i ?g hist"
  let ?new = "\<lparr>entry_id = next_id b, entry_end = Some when, entry_bytes = ?part, placed = placed c\<rparr>"
  have ids: "distinct (map entry_id hist)" using inv by (simp add: ledger_inv_def)
  have inv1: "ledger_inv now K ?b ?hist"
    by (rule ledger_inv_change [OF inv True]) (simp_all add: entry.truncate_def on_wire_def)
  have "case entry_end c of None \<Rightarrow> True | Some t \<Rightarrow> when \<le> t"
    using op c(2,4) by (auto simp: list_all_iff dest: bspec [where x = "entry.truncate c"])
  then have sub: "on_wire (lb_window b) t ?new \<Longrightarrow> on_wire (lb_window b) t c" for t
    by (auto simp: on_wire_def counts_at_def split: option.splits)
  have "wire_load (lb_window b) t (?hist @ [?new]) \<le> wire_load (lb_window b) t hist" for t
  proof -
    have "on_wire (lb_window b) t (?g c) = on_wire (lb_window b) t c" by (simp add: on_wire_def)
    then show ?thesis using wire_load_update [OF ids c(1,2), of "lb_window b" t ?g] sub [of t]
      by (auto simp: wire_load_snoc split: if_splits)
  qed
  then have load: "\<forall>t. wire_load (lb_window b) t (?hist @ [?new]) \<le> share b"
    using inv by (auto simp: ledger_inv_def intro: order_trans)
  have below: "\<forall>d \<in> set ?hist. entry_id d < next_id b" using inv1 by (simp add: ledger_inv_def)
  have K: "filter (\<lambda>d. entry_id d = next_id b \<or> entry_id d \<in> K) ?hist = filter (\<lambda>d. entry_id d \<in> K) ?hist"
    using below by (intro filter_cong [OF refl]) auto
  have "placed c \<le> now" using inv c(1) by (simp add: ledger_inv_def)
  moreover have "next_id b \<notin> entry_id ` set hist" using inv by (fastforce simp: ledger_inv_def)
  ultimately have "ledger_inv now (insert (next_id b) K) (release_part i n when b) (?hist @ [?new])"
    using inv1 load below K
    by (auto simp: ledger_inv_def kept_def release_part_def look Let_def entry.truncate_def less_Suc_eq)
  moreover have "log_step now (ReleasePart i n when) b hist = ?hist @ [?new]"
    using True by (simp add: look Let_def)
  moreover have "share (release_part i n when b) = share b"
    by (simp add: release_part_def Let_def split: option.split)
  ultimately show ?thesis using ok by (auto simp: ledger_ok_def)
next
  case False
  then have "find (\<lambda>e. entry_id e = i) (entries b) = None"
    by (auto simp: has_entry_def find_None_iff)
  then show ?thesis using ok False by (simp add: release_part_def)
qed

lemma ledger_ok_waiting: "ledger_ok now (b\<lparr>waiting := ws\<rparr>) hist = ledger_ok now b hist"
  by (rule ledger_ok_cong) simp_all

lemma ledger_ok_wait_round:
  assumes "ledger_ok now b hist"
  shows "ledger_ok now (snd (wait_round n p deadline tx now b))
    (admitted now b (snd (wait_round n p deadline tx now b)) hist)"
proof -
  let ?b = "b\<lparr>waiting := remove1 (priority_rank p) (waiting b)\<rparr>"
  have "ledger_ok now ?b hist" using assms by (simp add: ledger_ok_waiting)
  from ledger_ok_admit [OF this, of n p True tx]
  have "ledger_ok now (snd (admit n p now True tx ?b)) (admitted now b (snd (admit n p now True tx ?b)) hist)"
    by (simp add: admitted_def)
  then show ?thesis
    by (auto simp: wait_round_def split_beta admitted_def ledger_ok_waiting split: option.split)
qed

lemma ledger_ok_step:
  assumes ok: "ledger_ok t0 b hist" and "t0 \<le> now" and op: "op_ok op b"
  shows "ledger_ok now (budget_step now op b) (log_step now op b hist)"
proof -
  have now: "ledger_ok now b hist" using ok ledger_inv_later [OF _ assms(2)] unfolding ledger_ok_def by blast
  have idle: "ledger_ok now c (admitted now b c hist)"
    if "entries c = entries b" "next_id c = next_id b" "share c = share b" "lb_window c = lb_window b" for c
    using now that ledger_ok_cong [OF that] by (simp add: admitted_def Let_def)
  show ?thesis
  proof (cases op)
    case (TryCharge n p tx)
    then show ?thesis using ledger_ok_admit [OF now, of n p False tx]
      by (simp add: try_charge_def split_beta admitted_def Let_def)
  next
    case (TryHold n p tx)
    then show ?thesis using ledger_ok_admit [OF now, of n p True tx]
      by (simp add: try_hold_def admitted_def Let_def)
  next
    case (WaitHold n p deadline tx)
    have "ledger_ok now (b\<lparr>waiting := waiting b @ [priority_rank p]\<rparr>) hist"
      using now by (simp add: ledger_ok_waiting)
    from ledger_ok_wait_round [OF this, of n p deadline tx] now show ?thesis
      by (auto simp: WaitHold wait_hold_def admitted_def Let_def)
  next
    case (WaitWake n p deadline tx)
    then show ?thesis using ledger_ok_wait_round [OF now, of n p deadline tx] by (simp add: admitted_def Let_def)
  next
    case (ReleaseAt i u)
    then show ?thesis using ledger_ok_release [OF now] op by simp
  next
    case (ReleasePart i n u)
    then show ?thesis using ledger_ok_release_part [OF now] op by simp
  next
    case (Refund i n)
    then show ?thesis using ledger_ok_refund [OF now] by simp
  next
    case InWindow
    obtain K where "ledger_inv now K b hist" using now by (auto simp: ledger_ok_def)
    from conjunct1 [OF ledger_inv_prune [OF this]] now show ?thesis
      by (auto simp: InWindow ledger_ok_def)
  next
    case (SetEgressShaper burst rate)
    then show ?thesis using idle [of "set_egress_shaper burst rate now b"]
      by (simp add: set_egress_shaper_def admitted_def Let_def)
  next
    case (DebitEgress n)
    then show ?thesis using idle [of "debit_egress n now b"]
      by (simp add: debit_egress_def Let_def admitted_def)
  next
    case (RefundEgress n)
    then show ?thesis using idle [of "refund_egress n now b"]
      by (simp add: refund_egress_def Let_def admitted_def)
  next
    case EgressTokens
    then show ?thesis using idle [of "snd (egress_tokens_now now b)"]
      by (simp add: egress_tokens_now_def Let_def admitted_def)
  qed
qed

lemma ledger_run_ok:
  "ledger_ok t0 b hist \<Longrightarrow> ledger_run t0 ops (b, hist) = Some (b', hist') \<Longrightarrow>
   \<exists>now. ledger_ok now b' hist'"
proof (induction ops arbitrary: t0 b hist)
  case (Cons x ops)
  then show ?case using ledger_ok_step by (cases x) (fastforce split: if_splits)
qed auto

lemma step_share: "share (budget_step now op b) = share b \<and> lb_window (budget_step now op b) = lb_window b"
proof -
  have admit: "share (snd (admit n p now op tx b)) = share b
      \<and> lb_window (snd (admit n p now op tx b)) = lb_window b" for n p op tx b
    by (simp add: admit_def Let_def split_beta)
  have round: "share (snd (wait_round n p d tx now b)) = share b
      \<and> lb_window (snd (wait_round n p d tx now b)) = lb_window b" for n p d tx b
    using admit [of n p True tx] by (simp add: wait_round_def split_beta split: option.split)
  show ?thesis
    by (cases op) (simp_all add: try_charge_def try_hold_def split_beta admit round wait_hold_def
        release_at_def release_part_def refund_def set_egress_shaper_def debit_egress_def
        refund_egress_def egress_tokens_now_def Let_def split: option.split)
qed

lemma run_share:
  "ledger_run t0 ops (b, hist) = Some (b', hist') \<Longrightarrow> share b' = share b \<and> lb_window b' = lb_window b"
  by (induction ops arbitrary: t0 b hist) (auto simp: step_share split: if_splits)

subsection \<open>Properties\<close>

text \<open>C12. No window on the wire carries more than the share: take any interleaving of the ledger's
  operations by any number of senders in which time does not go back and no release moves the end of
  a charge to a later time.  Then for every moment the charges that may have bytes on the wire in the window
  before it (placed by then, and not ended a window ago or earlier) sum to at most the share,
  refunded bytes excepted.\<close>

theorem window_never_exceeds_share:
  assumes "share_bytes < 2 ^ 32"
    and "ledger_run t0 ops (new_link_budget share_bytes window, []) = Some (b, hist)"
  shows "sum_list (map entry_bytes
      (filter (\<lambda>c. placed c \<le> t \<and> (case entry_end c of None \<Rightarrow> True | Some e \<Rightarrow> t < e + window)) hist))
    \<le> share_bytes"
proof -
  have "ledger_inv t0 {} (new_link_budget share_bytes window) []"
    by (simp add: ledger_inv_def new_link_budget_def kept_def wire_load_def)
  then have "ledger_ok t0 (new_link_budget share_bytes window) []"
    using assms(1) by (auto simp: ledger_ok_def new_link_budget_def)
  from ledger_run_ok [OF this assms(2)] obtain now K where "ledger_inv now K b hist"
    by (auto simp: ledger_ok_def)
  then have "wire_load (lb_window b) t hist \<le> share b" by (simp add: ledger_inv_def)
  moreover have "share b = share_bytes" "lb_window b = window"
    using run_share [OF assms(2)] by (simp_all add: new_link_budget_def)
  moreover have "on_wire window t
      = (\<lambda>c. placed c \<le> t \<and> (case entry_end c of None \<Rightarrow> True | Some e \<Rightarrow> t < e + window))"
    by (auto simp: fun_eq_iff on_wire_def counts_at_def not_le split: option.splits)
  ultimately show ?thesis by (simp add: wire_load_def)
qed

theorem window_never_exceeds_share_witness:
  "sum_list (map entry_bytes
      (filter (\<lambda>c. placed c \<le> 5 \<and> (case entry_end c of None \<Rightarrow> True | Some e \<Rightarrow> 5 < e + 10))
        (snd (the (ledger_run 0 [(0, TryHold 60 Live 0), (1, TryCharge 60 Live 0), (2, ReleaseAt 1 2),
           (20, TryCharge 60 Live 0)] (new_link_budget 100 10, []))))))
    \<le> 100"
proof -
  let ?run = "ledger_run 0 [(0, TryHold 60 Live 0), (1, TryCharge 60 Live 0), (2, ReleaseAt 1 2),
           (20, TryCharge 60 Live 0)] (new_link_budget 100 10, [])"
  have "?run \<noteq> None"
    by (simp add: try_hold_def try_charge_def admit_def new_link_budget_def in_window_def
        more_urgent_waiting_def counts_at_def zero_one_dbl release_at_def has_entry_def Let_def
        split_beta)
  then have "?run = Some (fst (the ?run), snd (the ?run))" by auto
  from window_never_exceeds_share [OF _ this] show ?thesis by simp
qed

subsection \<open>The egress model\<close>

abbreviation nat_dbl :: "nat \<Rightarrow> dbl" where
  "nat_dbl n \<equiv> Fin (of_nat n)"

lemma to_dbl_nat: "n < 2 ^ 32 \<Longrightarrow> to_dbl (of_nat n) = nat_dbl n" "n < 2 ^ 32 \<Longrightarrow> to_dbl (- of_nat n) = Fin (- of_nat n)"
  using to_dbl_int [of "int n"] to_dbl_int [of "- int n"] by simp_all

definition egress_inv :: "nat \<Rightarrow> nat \<Rightarrow> link_budget \<Rightarrow> bool" where
  "egress_inv burst rate b \<longleftrightarrow> burst < 2 ^ 32 \<and> rate < 2 ^ 32 \<and> egress_burst b = nat_dbl burst
     \<and> egress_rate b = nat_dbl rate \<and> is_dbl (egress_tokens b)
     \<and> Fin (- of_nat burst) \<le> egress_tokens b \<and> egress_tokens b \<le> nat_dbl burst"

lemma egress_inv_cong:
  assumes "egress_burst b' = egress_burst b" "egress_rate b' = egress_rate b" "egress_tokens b' = egress_tokens b"
  shows "egress_inv burst rate b' = egress_inv burst rate b"
  by (simp add: egress_inv_def assms)

lemma seconds_nonneg: "0 \<le> d \<Longrightarrow> Fin 0 \<le> seconds_of d"
proof -
  assume "0 \<le> d"
  then have "Fin 0 \<le> dbl_of_int d" using b64.rnd_nonneg [of "of_int d"] by simp
  moreover have "dbl_of_int 1000000000 = Fin 1000000000" using to_dbl_int [of 1000000000] by simp
  ultimately show ?thesis
    by (cases "dbl_of_int d") (auto simp: seconds_of_def divide_dbl_def signed_inf_def intro: b64.rnd_nonneg)
qed

lemma tokens_min:
  assumes "burst < 2 ^ 32" and "is_dbl x" and "Fin (- of_nat burst) \<le> x"
  shows "is_dbl (std_min (nat_dbl burst) x) \<and> Fin (- of_nat burst) \<le> std_min (nat_dbl burst) x
    \<and> std_min (nat_dbl burst) x \<le> nat_dbl burst"
  using assms to_dbl_nat(1) [OF assms(1)]
  by (cases x) (auto simp: std_min_def is_dbl_def dbl_order_defs)

lemma tokens_add:
  assumes "is_dbl a" and "Fin 0 \<le> b" and "Fin l \<le> a"
  shows "Fin l \<le> a + b"
proof (cases a)
  case (Fin r)
  then have "Fin r \<le> Fin r + b" "Fin l \<le> Fin r"
    using dbl_add_mono_right [of r b] assms by (auto simp: is_dbl_def)
  then show ?thesis unfolding Fin by (rule dbl_le_trans [rotated])
next
  case PInf
  then show ?thesis using assms by (cases b) (auto simp: plus_dbl_def)
qed (use assms in auto)

lemma egress_inv_refill:
  assumes inv: "egress_inv burst rate b" shows "egress_inv burst rate (refill_egress now b)"
proof (cases "egress_stamp b < now")
  case True
  let ?dt = "seconds_of (now - egress_stamp b)"
  have dt: "Fin 0 \<le> ?dt" using True by (simp add: seconds_nonneg)
  have rate: "Fin 0 \<le> nat_dbl rate * ?dt \<or> nat_dbl rate * ?dt = NaN"
    using dbl_mult_nonneg [of "nat_dbl rate" ?dt] dt by auto
  have dt_finite: "?dt \<noteq> NaN" using dt by auto
  show ?thesis
  proof (cases "nat_dbl rate * ?dt = NaN")
    case True': True
    then have "egress_tokens b + nat_dbl rate * ?dt = NaN" by (cases "egress_tokens b") (simp_all add: plus_dbl_def)
    then show ?thesis using inv True to_dbl_nat(1) [of burst]
      by (auto simp: egress_inv_def refill_egress_def std_min_def is_dbl_def)
  next
    case False
    then have "Fin (- of_nat burst) \<le> egress_tokens b + nat_dbl rate * ?dt"
      using inv rate tokens_add by (auto simp: egress_inv_def)
    then show ?thesis using inv True tokens_min [of burst "egress_tokens b + nat_dbl rate * ?dt"]
      by (auto simp: egress_inv_def refill_egress_def)
  qed
qed (use inv in \<open>simp add: refill_egress_def\<close>)

lemma tokens_minus:
  assumes "burst < 2 ^ 32" and "x \<le> nat_dbl burst" and "n < 2 ^ 32" and "x \<noteq> NInf"
  shows "is_dbl (x - nat_dbl n) \<and> x - nat_dbl n \<le> nat_dbl burst"
proof (cases x)
  case (Fin r)
  then have "to_dbl (r - of_nat n) \<le> to_dbl (of_nat burst)" using assms(2) by (intro to_dbl_mono) simp
  then show ?thesis using Fin to_dbl_nat(1) [OF assms(1)] by (simp add: minus_dbl_def)
qed (use assms in auto)

lemma minus_lower:
  assumes "burst < 2 ^ 32" and "Fin l \<le> x" and "l - of_nat n \<ge> - of_nat burst" and "x \<le> nat_dbl m"
  shows "Fin (- of_nat burst) \<le> x - nat_dbl n"
proof (cases x)
  case (Fin r)
  then have "to_dbl (- of_nat burst) \<le> to_dbl (r - of_nat n)" using assms(2,3) by (intro to_dbl_mono) simp
  then show ?thesis using Fin to_dbl_nat(2) [OF assms(1)] by (simp add: minus_dbl_def)
qed (use assms in auto)

text \<open>Every sender names at most two buckets of its own bytes in one charge.\<close>

fun op_tx :: "budget_op \<Rightarrow> nat" where
  "op_tx (TryCharge n p tx) = tx" | "op_tx (TryHold n p tx) = tx"
| "op_tx (WaitHold n p deadline tx) = tx" | "op_tx (WaitWake n p deadline tx) = tx"
| "op_tx _ = 0"

fun op_bytes :: "budget_op \<Rightarrow> nat" where
  "op_bytes (DebitEgress n) = n" | "op_bytes (RefundEgress n) = n" | "op_bytes _ = 0"

definition egress_op_ok :: "nat \<Rightarrow> budget_op \<Rightarrow> bool" where
  "egress_op_ok burst op \<longleftrightarrow> op_tx op \<le> 2 * burst \<and> op_tx op < 2 ^ 32 \<and> op_bytes op < 2 ^ 32
     \<and> (case op of SetEgressShaper _ _ \<Rightarrow> False | _ \<Rightarrow> True)"

lemma egress_inv_admit:
  assumes inv: "egress_inv burst rate b" and tx: "tx \<le> 2 * burst" "tx < 2 ^ 32"
  shows "egress_inv burst rate (snd (admit n p now op tx b))"
proof -
  let ?b = "snd (in_window now b)"
  have inv1: "egress_inv burst rate ?b" using inv by (simp add: egress_inv_def in_window_def Let_def)
  let ?r = "refill_egress now ?b"
  have inv2: "egress_inv burst rate ?r" using inv1 by (rule egress_inv_refill)
  have spend: "egress_inv burst rate (?r\<lparr>egress_tokens := egress_tokens ?r - nat_dbl tx\<rparr>)"
    if "\<not> egress_tokens ?r < std_min (nat_dbl tx) (nat_dbl burst)"
  proof -
    let ?t = "egress_tokens ?r"
    have t: "?t \<noteq> NaN" "?t \<noteq> NInf" "?t \<le> nat_dbl burst" "burst < 2 ^ 32"
      using inv2 by (auto simp: egress_inv_def)
    then have "std_min (nat_dbl tx) (nat_dbl burst) \<le> ?t"
      using that dbl_not_less [of ?t "std_min (nat_dbl tx) (nat_dbl burst)"]
      by (auto simp: std_min_def split: if_splits)
    then have "nat_dbl (min tx burst) \<le> ?t" by (auto simp: std_min_def min_def split: if_splits)
    from minus_lower [OF t(4) this, of tx burst] tx(1) t(3)
    have "Fin (- of_nat burst) \<le> ?t - nat_dbl tx" by (simp add: min_def split: if_splits)
    then show ?thesis using inv2 tokens_minus [OF t(4) t(3) tx(2) t(2)] by (simp add: egress_inv_def)
  qed
  have burst: "egress_burst ?r = nat_dbl burst" using inv2 by (simp add: egress_inv_def)
  have tx_dbl: "to_dbl (of_nat tx) = nat_dbl tx" using to_dbl_nat(1) [OF tx(2)] .
  have cong: "egress_inv burst rate (c\<lparr>next_id := i, entries := es\<rparr>) = egress_inv burst rate c" for c i es
    by (rule egress_inv_cong) simp_all
  show ?thesis using inv inv1 inv2 spend burst
    by (simp add: admit_def Let_def split_beta tx_dbl cong)
qed

lemma egress_inv_wait_round:
  assumes "egress_inv burst rate b" and "tx \<le> 2 * burst" "tx < 2 ^ 32"
  shows "egress_inv burst rate (snd (wait_round n p deadline tx now b))"
proof -
  have waiting: "egress_inv burst rate (c\<lparr>waiting := ws\<rparr>) = egress_inv burst rate c" for c ws
    by (rule egress_inv_cong) simp_all
  have "egress_inv burst rate (snd (admit n p now True tx (b\<lparr>waiting := remove1 (priority_rank p) (waiting b)\<rparr>)))"
    using assms by (intro egress_inv_admit) (simp_all add: waiting)
  then show ?thesis by (auto simp: wait_round_def split_beta waiting split: option.split)
qed

lemma egress_inv_step:
  assumes inv: "egress_inv burst rate b" and op: "egress_op_ok burst op"
  shows "egress_inv burst rate (budget_step now op b)"
proof -
  have same: "egress_inv burst rate c" if "egress_burst c = egress_burst b" "egress_rate c = egress_rate b"
    "egress_tokens c = egress_tokens b" for c using inv egress_inv_cong [OF that] by simp
  have r: "egress_inv burst rate (refill_egress now b)" using inv by (rule egress_inv_refill)
  let ?t = "egress_tokens (refill_egress now b)"
  have t: "?t \<noteq> NaN" "?t \<noteq> NInf" "?t \<le> nat_dbl burst" "burst < 2 ^ 32" "is_dbl ?t" "Fin (- of_nat burst) \<le> ?t"
    "egress_burst (refill_egress now b) = nat_dbl burst"
    using r by (auto simp: egress_inv_def)
  show ?thesis
  proof (cases op)
    case (TryCharge n p tx)
    then show ?thesis using egress_inv_admit [OF inv] op
      by (simp add: try_charge_def split_beta egress_op_ok_def)
  next
    case (TryHold n p tx)
    then show ?thesis using egress_inv_admit [OF inv] op by (simp add: try_hold_def egress_op_ok_def)
  next
    case (WaitHold n p deadline tx)
    then show ?thesis using inv egress_inv_wait_round [OF same] op
      by (simp add: wait_hold_def egress_op_ok_def)
  next
    case (WaitWake n p deadline tx)
    then show ?thesis using egress_inv_wait_round [OF inv] op by (simp add: egress_op_ok_def)
  next
    case (DebitEgress n)
    have n: "to_dbl (of_nat n) = nat_dbl n" "n < 2 ^ 32"
      using op to_dbl_nat(1) [of n] by (simp_all add: DebitEgress egress_op_ok_def)
    have "is_dbl (?t - nat_dbl n) \<and> ?t - nat_dbl n \<le> nat_dbl burst"
      using tokens_minus [OF t(4,3) n(2) t(2)] .
    then have "egress_inv burst rate ((refill_egress now b)\<lparr>egress_tokens :=
        std_max (?t - nat_dbl n) (Fin (- of_nat burst))\<rparr>)"
      using r to_dbl_nat(2) [OF t(4)]
      by (cases "?t - nat_dbl n") (auto simp: egress_inv_def std_max_def is_dbl_def dbl_order_defs)
    moreover have "- egress_burst (refill_egress now b) = Fin (- of_nat burst)" by (simp add: t(7) uminus_dbl_def)
    ultimately show ?thesis using inv by (simp add: DebitEgress debit_egress_def Let_def n(1))
  next
    case (RefundEgress n)
    have n: "to_dbl (of_nat n) = nat_dbl n" "n < 2 ^ 32"
      using op to_dbl_nat(1) [of n] by (simp_all add: RefundEgress egress_op_ok_def)
    have "Fin (- of_nat burst) \<le> ?t + nat_dbl n" by (rule tokens_add [OF t(5) _ t(6)]) simp
    then show ?thesis using inv r tokens_min [OF t(4) is_dbl_add, of ?t "nat_dbl n"]
      by (simp add: RefundEgress refund_egress_def Let_def n(1) t(7)) (simp add: egress_inv_def)
  next
    case EgressTokens
    then show ?thesis using inv r by (simp add: egress_tokens_now_def Let_def)
  qed (use op same in \<open>auto simp: release_at_def release_part_def refund_def in_window_def Let_def
      egress_op_ok_def split: option.split\<close>)
qed

text \<open>The modelled kernel bucket stays within one bucket of its range: from the moment the shaper is set,
  whatever the order of charges (of at most two buckets each), debits, refunds and refills, in
  double-precision arithmetic, the tokens are never a NaN, never above the bucket, and the debt is at
  most one bucket.\<close>

theorem egress_tokens_within_bucket:
  assumes "burst < 2 ^ 32" and "rate < 2 ^ 32" and "list_all (\<lambda>x. egress_op_ok burst (snd x)) ops"
  shows "let b = foldl (\<lambda>b x. budget_step (fst x) (snd x) b) (set_egress_shaper burst rate now b0) ops in
    Fin (- of_nat burst) \<le> egress_tokens b \<and> egress_tokens b \<le> Fin (of_nat burst)"
proof -
  have "egress_inv burst rate (foldl (\<lambda>b x. budget_step (fst x) (snd x) b) (set_egress_shaper burst rate now b0) ops)"
    using assms(3)
  proof (induction ops rule: rev_induct)
    case Nil
    show ?case using assms(1,2) to_dbl_nat(1) [OF assms(1)] to_dbl_nat(1) [OF assms(2)]
      by (simp add: egress_inv_def set_egress_shaper_def is_dbl_def)
  next
    case (snoc x ops)
    then show ?case by (simp add: egress_inv_step)
  qed
  then show ?thesis by (simp add: egress_inv_def Let_def)
qed

theorem egress_tokens_within_bucket_witness:
  "let b = foldl (\<lambda>b x. budget_step (fst x) (snd x) b)
       (set_egress_shaper 1000 800 0 (new_link_budget 1600 1000000000))
       [(0, TryHold 600 Live 600), (5, DebitEgress 900), (1000000000, RefundEgress 10)] in
    Fin (- of_nat 1000) \<le> egress_tokens b \<and> egress_tokens b \<le> Fin (of_nat 1000)"
  by (rule egress_tokens_within_bucket) (simp_all add: egress_op_ok_def)

end
