(* ===== verification/TelemetryDrain.thy ===== *)
theory TelemetryDrain
  imports LinkBudget QueueProperties
begin

text \<open>
  One tick of telemetry delivery (\<^verbatim>\<open>telemetry_drain.cpp\<close>): this tick's frame, the pending events,
  then the backlog by bisection until the replay deadline.  The sender (the abstract class
  \<^verbatim>\<open>FrameSender\<close>), the clock and the disk under the queue are the fields of \<open>link_env\<close>,
  functions on a world state of any type.  The replay loop asks the clock and the queue before each
  frame; nothing in its code bounds it, so it is a partial function, and that it ends is proved
  from what the queue promises.
\<close>

datatype send_status = Sent | NoBudget | NotConnected | Silent | SendFailed

record telemetry_ack =
  ack_session :: string
  ack_seq :: nat

record 'w link_env =
  send_frame :: "string \<Rightarrow> link_priority \<Rightarrow> time_point \<Rightarrow> 'w \<Rightarrow> send_status \<times> telemetry_ack \<times> 'w"
  is_connected :: "'w \<Rightarrow> bool"
  clock_now :: "'w \<Rightarrow> time_point \<times> 'w"
  disk_env :: "'w \<Rightarrow> queue_env \<times> 'w"

record drain_result =
  link_ok :: bool
  drain_error :: bool
  error_text :: string
  sent :: nat
  replayed :: nat

definition new_drain_result :: drain_result where
  "new_drain_result = \<lparr>link_ok = False, drain_error = False, error_text = [], sent = 0, replayed = 0\<rparr>"

definition no_live_frame :: nat where
  "no_live_frame = 2 ^ 64 - 1"

definition max_events_per_tick :: nat where
  "max_events_per_tick = 8"

definition live_frame_slack :: duration where
  "live_frame_slack = ms 150"

definition replay_deadline :: "time_point \<Rightarrow> duration \<Rightarrow> time_point" where
  "replay_deadline tick_start period =
     min (tick_start + trunc_div (period * 7) 10)
       (tick_start + period - seconds 1 + live_frame_slack)"

definition tag_frame_for_transmit :: "string \<Rightarrow> int \<Rightarrow> int \<Rightarrow> string" where
  "tag_frame_for_transmit frame queued now =
     (if \<not> starts_with ''DATA,'' frame then frame
      else frame @ '',TX='' @ show_int (if queued < now then now - queued else 0))"

type_synonym 'w drain_state = "'w \<times> telemetry_queue \<times> drain_result"

definition send_one ::
  "'w link_env \<Rightarrow> queued_frame \<Rightarrow> link_priority \<Rightarrow> int \<Rightarrow> time_point \<Rightarrow> 'w drain_state
   \<Rightarrow> send_status \<times> 'w drain_state" where
  "send_one env frame p now_epoch deadline = (\<lambda>(w, q, r).
     let (status, ack, w) =
           send_frame env (tag_frame_for_transmit (qf_text frame) (queued_epoch_s frame) now_epoch)
             p deadline w
     in if status \<noteq> Sent then (status, w, q, r)
        else
          (let expected = (if starts_with ''EVT,'' (qf_text frame) then 0 else qf_seq frame)
           in if ack_session ack \<noteq> qf_session frame \<or> ack_seq ack \<noteq> expected
              then (SendFailed, w, q,
                    r\<lparr>drain_error := True, error_text := ''received mismatched telemetry ACK''\<rparr>)
              else
                (let (d, w) = disk_env env w
                 in (Sent, w, acknowledge_exact d frame q, r\<lparr>link_ok := True, sent := sent r + 1\<rparr>))))"

definition drain_finish :: "'w link_env \<Rightarrow> send_status \<Rightarrow> 'w drain_state \<Rightarrow> 'w drain_state" where
  "drain_finish env status = (\<lambda>(w, q, r).
     (w, q,
      case status of
        NoBudget \<Rightarrow> r\<lparr>link_ok := (link_ok r \<or> is_connected env w)\<rparr>
      | NotConnected \<Rightarrow> r\<lparr>drain_error := True, error_text := ''no ground station connection''\<rparr>
      | SendFailed \<Rightarrow>
          r\<lparr>drain_error := True,
            error_text := (if error_text r = [] then ''failed to send telemetry frame'' else error_text r)\<rparr>
      | Silent \<Rightarrow> r
      | Sent \<Rightarrow> r))"

text \<open>The events of the tick: the list is read once, and the first failure ends the drain.\<close>

fun send_events ::
  "'w link_env \<Rightarrow> int \<Rightarrow> time_point \<Rightarrow> queued_frame list \<Rightarrow> 'w drain_state
   \<Rightarrow> send_status \<times> 'w drain_state" where
  "send_events env now_epoch deadline [] s = (Sent, s)"
| "send_events env now_epoch deadline (f # fs) s =
     (let (status, s) = send_one env f Live now_epoch deadline s
      in if status \<noteq> Sent then (status, s) else send_events env now_epoch deadline fs s)"

partial_function (option) drain_replay ::
  "'w link_env \<Rightarrow> int \<Rightarrow> time_point \<Rightarrow> 'w drain_state \<Rightarrow> (send_status \<times> 'w drain_state) option" where
  "drain_replay env now_epoch deadline s =
     (case s of (w, q, r) \<Rightarrow>
        (case clock_now env w of (now, w) \<Rightarrow>
           if \<not> now < deadline then Some (Sent, w, q, r)
           else
             (case next_replay q of None \<Rightarrow> Some (Sent, w, q, r)
              | Some f \<Rightarrow>
                  (case send_one env f Replay now_epoch deadline (w, q, r) of
                     (status, w, q, r) \<Rightarrow>
                       if status \<noteq> Sent then Some (status, w, q, r)
                       else drain_replay env now_epoch deadline
                              (w, q, r\<lparr>replayed := replayed r + 1\<rparr>)))))"

declare drain_replay.simps [code]

definition drain ::
  "'w link_env \<Rightarrow> nat \<Rightarrow> int \<Rightarrow> time_point \<Rightarrow> time_point \<Rightarrow> 'w \<times> telemetry_queue
   \<Rightarrow> ('w \<times> telemetry_queue \<times> drain_result) option" where
  "drain env live_index now_epoch live_deadline replay_until = (\<lambda>(w, q).
     let (status, s) =
           (case (if live_index \<noteq> no_live_frame then frame_at live_index q else None) of
              None \<Rightarrow> (Sent, w, q, new_drain_result)
            | Some f \<Rightarrow> send_one env f Live now_epoch live_deadline (w, q, new_drain_result))
     in if status \<noteq> Sent then Some (drain_finish env status s)
        else
          (let (status, s) =
                 send_events env now_epoch live_deadline
                   (pending_events max_events_per_tick (fst (snd s))) s
           in if status \<noteq> Sent then Some (drain_finish env status s)
              else
                (case drain_replay env now_epoch replay_until s of None \<Rightarrow> None
                 | Some (status, w, q, r) \<Rightarrow>
                     if status \<noteq> Sent then Some (drain_finish env status (w, q, r))
                     else Some (w, q, if sent r = 0 then r\<lparr>link_ok := is_connected env w\<rparr> else r))))"

subsection \<open>What the drain needs of the queue\<close>

text \<open>A source of frames to replay: acknowledging the frame it offers makes it smaller.\<close>

locale replay_source =
  fixes offer :: "'q \<Rightarrow> 'f option" and ack :: "'e \<Rightarrow> 'f \<Rightarrow> 'q \<Rightarrow> 'q"
    and left :: "'q \<Rightarrow> nat" and ok :: "'q \<Rightarrow> bool"
  assumes ack_ok: "ok q \<Longrightarrow> ok (ack e f q)"
    and ack_less: "ok q \<Longrightarrow> offer q = Some f \<Longrightarrow> Suc (left (ack e f q)) = left q"
    and offer_None: "ok q \<Longrightarrow> offer q = None \<longleftrightarrow> left q = 0"
begin

text \<open>The induction of every loop that replays the offered frame until none is left.\<close>

lemma replay_induct [consumes 1, case_names replay]:
  assumes "ok q" and "\<And>q. ok q \<Longrightarrow> (\<And>e f. offer q = Some f \<Longrightarrow> P (ack e f q)) \<Longrightarrow> P q"
  shows "P q"
  using assms(1)
proof (induction "left q" arbitrary: q rule: less_induct)
  case less
  show ?case
  proof (rule assms(2) [OF less.prems])
    fix e f assume "offer q = Some f"
    then have "left (ack e f q) < left q" using ack_less [OF less.prems, of f e] by simp
    then show "P (ack e f q)" by (rule less.hyps) (rule ack_ok [OF less.prems])
  qed
qed

end

definition queue_ok :: "telemetry_queue \<Rightarrow> bool" where
  "queue_ok q \<longleftrightarrow> queue_inv q \<and> unique_keys q"

lemma queue_ok_acknowledge: "queue_ok q \<Longrightarrow> queue_ok (acknowledge_exact env f q)"
  using unique_keys_step [of q "AckExact env f"] by (simp add: queue_ok_def queue_inv_acknowledge_exact)

lemma one_removed:
  assumes "distinct xs" and "y \<in> set xs" and "\<And>x. x \<in> set xs \<Longrightarrow> P x \<longleftrightarrow> x = y"
  shows "Suc (length (filter (\<lambda>x. \<not> P x) xs)) = length xs"
proof -
  have "filter (\<lambda>x. \<not> P x) xs = remove1 y xs"
    using assms by (auto simp: distinct_remove1_removeAll removeAll_filter_not_eq intro!: filter_cong)
  then show ?thesis using assms(2) by (simp add: length_remove1) (metis Suc_pred length_pos_if_in_set)
qed

lemma acknowledge_pending:
  assumes ok: "queue_ok q" and f: "(i, f) \<in> set (frames q)"
  shows "Suc (queue_size (acknowledge_exact env f q)) = queue_size q"
proof -
  have u: "unique_keys q" and inv: "queue_inv q" using ok by (simp_all add: queue_ok_def)
  have om: "omap_ok (frames q)" using inv by (simp add: queue_inv_def frames_ok_def)
  have only: "frame_key (snd p) = frame_key f \<and> qf_text (snd p) = qf_text f \<longleftrightarrow> p = (i, f)"
    if "p \<in> set (frames q)" for p
  proof
    assume "frame_key (snd p) = frame_key f \<and> qf_text (snd p) = qf_text f"
    then have "by_key q (frame_key f) = Some (fst p)"
      using unique_keysD [OF u, of "fst p" "snd p"] that by simp
    then have "fst p = i" using unique_keysD [OF u f] by simp
    then have "(i, snd p) \<in> set (frames q)" using that by auto
    then have "snd p = f" using f omap_lookup_iff [OF om, of i] by (metis option.inject)
    with \<open>fst p = i\<close> show "p = (i, f)" by auto
  qed simp
  have "distinct (frames q)" using omap_ok_distinct [OF om] by (simp add: distinct_map)
  from one_removed [OF this f only] show ?thesis
    by (simp add: queue_size_def acknowledge_exact_frames [OF u inv])
qed

lemma offered_pending:
  assumes "queue_inv q"
  shows "next_replay q = None \<longleftrightarrow> queue_size q = 0"
    "next_replay q = Some f \<Longrightarrow> \<exists>i. (i, f) \<in> set (frames q)"
proof -
  note spec = next_replay_spec [OF assms]
  show "next_replay q = Some f \<Longrightarrow> \<exists>i. (i, f) \<in> set (frames q)" using spec by auto
  show "next_replay q = None \<longleftrightarrow> queue_size q = 0"
    using spec by (cases "next_replay q") (auto simp: queue_size_def)
qed

interpretation rq: replay_source next_replay acknowledge_exact queue_size queue_ok
proof unfold_locales
  fix q :: telemetry_queue and e f
  assume ok: "queue_ok q"
  show "queue_ok (acknowledge_exact e f q)" using ok by (rule queue_ok_acknowledge)
  show "next_replay q = None \<longleftrightarrow> queue_size q = 0"
    using ok offered_pending(1) by (simp add: queue_ok_def)
  assume "next_replay q = Some f"
  then obtain i where "(i, f) \<in> set (frames q)" using ok offered_pending(2) by (auto simp: queue_ok_def)
  then show "Suc (queue_size (acknowledge_exact e f q)) = queue_size q"
    by (rule acknowledge_pending [OF ok])
qed

subsection \<open>One tick\<close>

lemma acknowledge_pending_frames:
  assumes ok: "queue_ok q" and f: "(i, f) \<in> set (frames q)"
  shows "frames (acknowledge_exact env f q) = filter (\<lambda>p. p \<noteq> (i, f)) (frames q)"
proof -
  have u: "unique_keys q" and inv: "queue_inv q" using ok by (simp_all add: queue_ok_def)
  have om: "omap_ok (frames q)" using inv by (simp add: queue_inv_def frames_ok_def)
  have "\<not> (frame_key (snd p) = frame_key f \<and> qf_text (snd p) = qf_text f) \<longleftrightarrow> p \<noteq> (i, f)"
    if "p \<in> set (frames q)" for p
  proof -
    have "p = (i, f)" if "frame_key (snd p) = frame_key f"
    proof -
      have "by_key q (frame_key f) = Some (fst p)"
        using unique_keysD [OF u, of "fst p" "snd p"] \<open>p \<in> set (frames q)\<close> that by simp
      then have "fst p = i" using unique_keysD [OF u f] by simp
      then have "(i, snd p) \<in> set (frames q)" using \<open>p \<in> set (frames q)\<close> by auto
      then have "snd p = f" using f omap_lookup_iff [OF om, of i] by (metis option.inject)
      with \<open>fst p = i\<close> show ?thesis by auto
    qed
    then show ?thesis by auto
  qed
  then show ?thesis unfolding acknowledge_exact_frames [OF u inv] by (rule filter_cong [OF refl])
qed

definition drain_inv :: "telemetry_queue \<Rightarrow> 'w drain_state \<Rightarrow> bool" where
  "drain_inv q0 = (\<lambda>(w, q, r). queue_ok q \<and> subseq (frames q) (frames q0)
     \<and> queue_size q + sent r = queue_size q0 \<and> replayed r \<le> sent r \<and> (0 < sent r \<longrightarrow> link_ok r))"

text \<open>A frame leaves the queue with a matching acknowledgement and in no other way.\<close>

lemma send_one_cases:
  obtains (kept) status w' r' where "send_one env f p e d (w, q, r) = (status, w', q, r')" "status \<noteq> Sent"
      "link_ok r' = link_ok r" "sent r' = sent r" "replayed r' = replayed r"
  | (acked) w' denv where "send_one env f p e d (w, q, r)
      = (Sent, w', acknowledge_exact denv f q, r\<lparr>link_ok := True, sent := sent r + 1\<rparr>)"
proof -
  obtain status ack w1 where s: "send_frame env (tag_frame_for_transmit (qf_text f) (queued_epoch_s f) e) p d w
      = (status, ack, w1)" by (metis prod_cases3)
  obtain denv w2 where d: "disk_env env w1 = (denv, w2)" by fastforce
  consider "status \<noteq> Sent"
    | "status = Sent" "ack_session ack \<noteq> qf_session f
        \<or> ack_seq ack \<noteq> (if starts_with ''EVT,'' (qf_text f) then 0 else qf_seq f)"
    | "status = Sent" "\<not> (ack_session ack \<noteq> qf_session f
        \<or> ack_seq ack \<noteq> (if starts_with ''EVT,'' (qf_text f) then 0 else qf_seq f))"
    by blast
  then show thesis
  proof cases
    case 1
    then show ?thesis by (intro kept) (simp_all add: send_one_def s)
  next
    case 2
    have "send_one env f p e d (w, q, r) = (SendFailed, w1, q,
        r\<lparr>drain_error := True, error_text := ''received mismatched telemetry ACK''\<rparr>)"
      using 2 by (simp add: send_one_def s Let_def)
    then show ?thesis by (rule kept) simp_all
  next
    case 3
    have "send_one env f p e d (w, q, r)
        = (Sent, w2, acknowledge_exact denv f q, r\<lparr>link_ok := True, sent := sent r + 1\<rparr>)"
      using 3 by (simp add: send_one_def s d Let_def)
    then show ?thesis by (rule acked)
  qed
qed

lemma drain_inv_send:
  assumes "drain_inv q0 (w, q, r)" and "(i, f) \<in> set (frames q)"
    and "send_one env f p e d (w, q, r) = (status, w', q', r')"
  shows "drain_inv q0 (w', q', r') \<and> replayed r' = replayed r
    \<and> (status = Sent \<longrightarrow> frames q' = filter (\<lambda>p. p \<noteq> (i, f)) (frames q) \<and> sent r' = Suc (sent r))"
proof (cases rule: send_one_cases [of env f p e d w q r])
  case (kept status1 w1 r1)
  then show ?thesis using assms by (simp add: drain_inv_def)
next
  case (acked w1 denv)
  have ok: "queue_ok q" using assms(1) by (simp add: drain_inv_def)
  note fr = acknowledge_pending_frames [OF ok assms(2), of denv]
  have "subseq (frames (acknowledge_exact denv f q)) (frames q0)"
    unfolding fr
    by (rule subseq_order.trans [OF subseq_filter_left]) (use assms(1) in \<open>simp add: drain_inv_def\<close>)
  then show ?thesis using assms acked acknowledge_pending [OF ok assms(2), of denv]
    by (auto simp: drain_inv_def fr queue_ok_acknowledge)
qed

lemma drain_inv_events:
  assumes "drain_inv q0 s" and "\<forall>f \<in> set fs. \<exists>i. (i, f) \<in> set (frames (fst (snd s)))" and "distinct fs"
  shows "drain_inv q0 (snd (send_events env e d fs s))"
  using assms
proof (induction fs arbitrary: s)
  case (Cons f fs)
  obtain w q r where s: "s = (w, q, r)" by (cases s)
  obtain i where i: "(i, f) \<in> set (frames q)" using Cons.prems(2) by (auto simp: s)
  obtain status w' q' r' where one: "send_one env f Live e d (w, q, r) = (status, w', q', r')"
    by (metis prod_cases4)
  note inv = drain_inv_send [OF Cons.prems(1) [unfolded s] i one]
  show ?case
  proof (cases "status = Sent")
    case True
    have "\<exists>j. (j, g) \<in> set (frames q')" if g: "g \<in> set fs" for g
    proof -
      have "g \<noteq> f" using g Cons.prems(3) by auto
      moreover obtain j where "(j, g) \<in> set (frames q)" using Cons.prems(2) g by (auto simp: s)
      ultimately show ?thesis using inv True by auto
    qed
    then show ?thesis using Cons.IH [of "(w', q', r')"] inv True Cons.prems(3) by (simp add: s one)
  next
    case False
    then show ?thesis using inv by (simp add: s one)
  qed
qed simp

lemma drain_inv_replay:
  assumes "drain_inv q0 (w, q, r)"
  shows "\<exists>status w' q' r'. drain_replay env e d (w, q, r) = Some (status, w', q', r')
    \<and> drain_inv q0 (w', q', r')"
proof -
  have "queue_ok q" using assms by (simp add: drain_inv_def)
  then show ?thesis using assms
  proof (induction q arbitrary: w r rule: rq.replay_induct)
    case (replay q)
    obtain now w1 where clock: "clock_now env w = (now, w1)" by fastforce
    have inv1: "drain_inv q0 (w1, q, r)" using replay.prems by (simp add: drain_inv_def)
    show ?case
    proof (cases "now < d \<and> next_replay q \<noteq> None")
      case False
      then show ?thesis using inv1 by (subst drain_replay.simps) (auto simp: clock)
    next
      case True
      then obtain f where f: "next_replay q = Some f" by blast
      then obtain i where i: "(i, f) \<in> set (frames q)"
        using offered_pending(2) replay.hyps(1) by (auto simp: queue_ok_def)
      show ?thesis
      proof (cases rule: send_one_cases [of env f Replay e d w1 q r])
        case (kept status w' r')
        then have "drain_inv q0 (w', q, r')" using drain_inv_send [OF inv1 i kept(1)] by simp
        then show ?thesis using True f kept
          by (subst drain_replay.simps) (auto simp: clock)
      next
        case (acked w' denv)
        let ?q = "acknowledge_exact denv f q"
        let ?r = "r\<lparr>link_ok := True, sent := sent r + 1\<rparr>"
        have "drain_inv q0 (w', ?q, ?r)" "sent ?r = Suc (sent r)" "replayed ?r = replayed r"
          using drain_inv_send [OF inv1 i acked] by simp_all
        then have "drain_inv q0 (w', ?q, ?r\<lparr>replayed := replayed ?r + 1\<rparr>)"
          using replay.prems by (simp add: drain_inv_def)
        from replay.IH [OF f this] show ?thesis using True f
          by (subst drain_replay.simps) (simp add: clock acked)
      qed
    qed
  qed
qed

lemma drain_inv_finish: "drain_inv q0 s \<Longrightarrow> drain_inv q0 (drain_finish env status s)"
  by (cases s; cases status) (auto simp: drain_finish_def drain_inv_def)

lemma pending_events_pending:
  assumes "queue_inv q"
  shows "\<forall>f \<in> set (pending_events n q). \<exists>i. (i, f) \<in> set (frames q)" "distinct (pending_events n q)"
proof -
  have om: "omap_ok (frames q)" using assms by (simp add: queue_inv_def frames_ok_def)
  have idx: "(i, f) \<in> set (frames q) \<Longrightarrow> qf_index f = i" for i f
    using assms by (simp add: queue_inv_def frames_ok_def)
  have ev: "\<exists>f. map_of (frames q) i = Some f \<and> (i, f) \<in> set (frames q)" if "i \<in> set (take n (events q))" for i
    using that assms omap_lookup_iff [OF om, of i] in_set_takeD [of i n "events q"]
    unfolding queue_inv_def events_ok_def by blast
  then show "\<forall>f \<in> set (pending_events n q). \<exists>i. (i, f) \<in> set (frames q)"
    by (force simp: pending_events_def)
  have "inj_on (\<lambda>i. the (map_of (frames q) i)) (set (take n (events q)))"
  proof (rule inj_onI)
    fix i j assume ij: "i \<in> set (take n (events q))" "j \<in> set (take n (events q))"
      "the (map_of (frames q) i) = the (map_of (frames q) j)"
    obtain f g where "map_of (frames q) i = Some f \<and> (i, f) \<in> set (frames q)"
      "map_of (frames q) j = Some g \<and> (j, g) \<in> set (frames q)" using ev ij by meson
    then show "i = j" using ij(3) idx [of i f] idx [of j g] by simp
  qed
  moreover have "distinct (take n (events q))"
    using assms by (simp add: queue_inv_def events_ok_def strict_sorted_iff)
  ultimately show "distinct (pending_events n q)" by (simp add: pending_events_def distinct_map)
qed

lemma drain_total:
  assumes ok: "queue_ok q"
  shows "\<exists>w' q' r. drain env live e d1 d2 (w, q) = Some (w', q', r) \<and> drain_inv q (w', q', r)"
proof -
  have inv0: "drain_inv q (w, q, new_drain_result)"
    using ok by (simp add: drain_inv_def new_drain_result_def)
  let ?first = "case (if live \<noteq> no_live_frame then frame_at live q else None) of
              None \<Rightarrow> (Sent, w, q, new_drain_result)
            | Some f \<Rightarrow> send_one env f Live e d1 (w, q, new_drain_result)"
  obtain st1 w1 q1 r1 where first: "?first = (st1, w1, q1, r1)" by (metis prod_cases4)
  have inv1: "drain_inv q (w1, q1, r1)"
  proof (cases "if live \<noteq> no_live_frame then frame_at live q else None")
    case None
    then show ?thesis using first inv0 by simp
  next
    case (Some f)
    then have "(live, f) \<in> set (frames q)"
      by (auto simp: frame_at_def dest: map_of_SomeD split: if_splits)
    from drain_inv_send [OF inv0 this] first Some show ?thesis by simp
  qed
  then have "queue_inv q1" by (simp add: drain_inv_def queue_ok_def)
  note events = pending_events_pending [OF this, of max_events_per_tick]
  obtain st2 w2 q2 r2 where second:
    "send_events env e d1 (pending_events max_events_per_tick q1) (w1, q1, r1) = (st2, w2, q2, r2)"
    by (metis prod_cases4)
  have inv2: "drain_inv q (w2, q2, r2)"
    using drain_inv_events [OF inv1, of "pending_events max_events_per_tick q1" env e d1] events second
    by simp
  obtain st3 w3 q3 r3 where third: "drain_replay env e d2 (w2, q2, r2) = Some (st3, w3, q3, r3)"
    "drain_inv q (w3, q3, r3)" using drain_inv_replay [OF inv2] by blast
  have "drain env live e d1 d2 (w, q)
      = Some (if st1 \<noteq> Sent then drain_finish env st1 (w1, q1, r1)
              else if st2 \<noteq> Sent then drain_finish env st2 (w2, q2, r2)
              else if st3 \<noteq> Sent then drain_finish env st3 (w3, q3, r3)
              else (w3, q3, if sent r3 = 0 then r3\<lparr>link_ok := is_connected env w3\<rparr> else r3))"
    unfolding drain_def prod.case first Let_def fst_conv snd_conv second third(1) by simp
  moreover have "drain_inv q (if st1 \<noteq> Sent then drain_finish env st1 (w1, q1, r1)
              else if st2 \<noteq> Sent then drain_finish env st2 (w2, q2, r2)
              else if st3 \<noteq> Sent then drain_finish env st3 (w3, q3, r3)
              else (w3, q3, if sent r3 = 0 then r3\<lparr>link_ok := is_connected env w3\<rparr> else r3))"
    using inv1 inv2 third(2) drain_inv_finish [of q _ env] by (simp add: drain_inv_def)
  ultimately show ?thesis by (metis prod_cases3)
qed

subsection \<open>Properties\<close>

text \<open>C13. A tick of delivery ends and accounts for every frame: for a queue filled in any way with frames
  of distinct keys, whatever the sender answers and however the clock behaves (even one that never
  reaches the deadline), the drain returns; the frames left are those there were, in order, less
  exactly as many as were counted as sent, no more were replayed than sent, and once one was
  acknowledged the link is reported as up.\<close>

theorem drain_ends_and_accounts:
  fixes env :: "'w link_env"
  assumes "list_all (\<lambda>x. \<not> is_reload x) ops" and "distinct (concat (map op_keys ops))"
  shows "let q = queue_run (new_queue dir h mb md ml c file) ops in
    \<exists>w' q' r. drain env live e d1 d2 (w, q) = Some (w', q', r)
      \<and> subseq (frames q') (frames q) \<and> queue_size q' + sent r = queue_size q
      \<and> replayed r \<le> sent r \<and> (sent r = 0 \<or> link_ok r)"
proof -
  let ?q = "queue_run (new_queue dir h mb md ml c file) ops"
  have "queue_ok ?q" using unique_keys_run [OF assms] by (simp add: queue_ok_def inv_intros)
  from drain_total [OF this, of env live e d1 d2 w] show ?thesis
    by (auto simp: drain_inv_def Let_def)
qed

theorem drain_ends_and_accounts_witness:
  "let q = queue_run (new_queue ''/q'' 0 0 0 0 0 None)
             [Enqueue (quiet_env 0) (data_frame 0), Enqueue (quiet_env 0) (data_frame 1)];
       env = \<lparr>send_frame = (\<lambda>line p d w. (Sent, \<lparr>ack_session = ''S'', ack_seq = w\<rparr>, w + 1)),
              is_connected = (\<lambda>w. True), clock_now = (\<lambda>w. (0, w)),
              disk_env = (\<lambda>w. (quiet_env 0, w))\<rparr> in
    \<exists>w' q' r. drain env 1 0 5 10 (0 :: nat, q) = Some (w', q', r)
      \<and> subseq (frames q') (frames q) \<and> queue_size q' + sent r = queue_size q
      \<and> replayed r \<le> sent r \<and> (sent r = 0 \<or> link_ok r)"
  using drain_ends_and_accounts [of "[Enqueue (quiet_env 0) (data_frame 0),
      Enqueue (quiet_env 0) (data_frame 1)]" "''/q''" 0 0 0 0 0 None
      "\<lparr>send_frame = (\<lambda>line p d w. (Sent, \<lparr>ack_session = ''S'', ack_seq = w\<rparr>, w + 1)),
        is_connected = (\<lambda>w. True), clock_now = (\<lambda>w. (0, w)),
        disk_env = (\<lambda>w. (quiet_env 0, w))\<rparr>" 1 0 5 10 0]
  by (simp add: Let_def data_frame_def)

end
