(* ===== verification/CommandParser.thy ===== *)
theory CommandParser
  imports Text Prelude
begin

text \<open>
  The command parser (\<^verbatim>\<open>onboard/src/command_parser.cpp\<close>): the command types and their names
  (\<^verbatim>\<open>command.hpp\<close>), the splitting of a line into tokens, the match of the longest command name, the
  optional motor id and the number of arguments.  A failed parse is \<open>Inl\<close> with its error text,
  a parsed command is \<open>Inr\<close>.
\<close>

subsection \<open>Command types\<close>

datatype (plugins only: code) command_type =
    KPing | KStatus | KForceStart | KForceStop | KHeatersOff | KResetCtrl | KShutdownSafe
    | KCheck | KComponents | KArm | KDisarm | KEnterSafe | KExitSafe | KArmDebug | KDisarmDebug
    | KSetHeaterDuty | KSetAllDuty | KHeaterTest | KSetPid | KPidTuneStart | KPidTuneAbort
    | KPidTuneStatus | KSetTempTarget | KSetAllTempTargets | KClearTempTarget
    | KClearTempTargets | KGetThermal | KGetLayout | KClearOverrides | KSetBenchMode
    | KSetTickHz | KRadioSilence | KRadioResume | KSetPhase | KStepperMove | KStepperMoveTo
    | KStepperMoveMm | KStepperMoveToMm | KStepperRotate | KStepperHome | KStepperStop
    | KStepperSetSpeed | KStepperSetAccel | KStepperSetCurrent | KStepperSetMicrostep
    | KStepperEnable | KStepperDisable | KStepperBend | KSetPositionZero | KStepLossAck
    | KBendSeqLoad | KBendSeqRun | KBendSeqPause | KBendSeqResume | KBendSeqStop
    | KBendSeqStatus | KBendSeqClear | KPullArm | KPullExecute | KFallbackPlan | KFallbackArm
    | KFallbackDisarm | KFallbackStatus | KMotorDebug | KUnknown

fun command_type_to_string :: "command_type \<Rightarrow> string" where
  "command_type_to_string KPing = ''PING''"
| "command_type_to_string KStatus = ''STATUS''"
| "command_type_to_string KForceStart = ''FORCE_START''"
| "command_type_to_string KForceStop = ''FORCE_STOP''"
| "command_type_to_string KHeatersOff = ''HEATERS_OFF''"
| "command_type_to_string KResetCtrl = ''RESET_CTRL''"
| "command_type_to_string KShutdownSafe = ''SHUTDOWN_SAFE''"
| "command_type_to_string KCheck = ''CHECK''"
| "command_type_to_string KComponents = ''COMPONENTS''"
| "command_type_to_string KArm = ''ARM''"
| "command_type_to_string KDisarm = ''DISARM''"
| "command_type_to_string KEnterSafe = ''ENTER_SAFE''"
| "command_type_to_string KExitSafe = ''EXIT_SAFE''"
| "command_type_to_string KArmDebug = ''ARM_DEBUG''"
| "command_type_to_string KDisarmDebug = ''DISARM_DEBUG''"
| "command_type_to_string KSetHeaterDuty = ''SET_HEATER_DUTY''"
| "command_type_to_string KSetAllDuty = ''SET_ALL_DUTY''"
| "command_type_to_string KHeaterTest = ''HEATER_TEST''"
| "command_type_to_string KSetPid = ''SET_PID''"
| "command_type_to_string KPidTuneStart = ''PID_TUNE_START''"
| "command_type_to_string KPidTuneAbort = ''PID_TUNE_ABORT''"
| "command_type_to_string KPidTuneStatus = ''PID_TUNE_STATUS''"
| "command_type_to_string KSetTempTarget = ''SET_TEMP_TARGET''"
| "command_type_to_string KSetAllTempTargets = ''SET_ALL_TEMP_TARGETS''"
| "command_type_to_string KClearTempTarget = ''CLEAR_TEMP_TARGET''"
| "command_type_to_string KClearTempTargets = ''CLEAR_TEMP_TARGETS''"
| "command_type_to_string KGetThermal = ''GET_THERMAL''"
| "command_type_to_string KGetLayout = ''GET_LAYOUT''"
| "command_type_to_string KClearOverrides = ''CLEAR_OVERRIDES''"
| "command_type_to_string KSetBenchMode = ''SET_BENCH_MODE''"
| "command_type_to_string KSetTickHz = ''SET_TICK_HZ''"
| "command_type_to_string KRadioSilence = ''RADIO_SILENCE''"
| "command_type_to_string KRadioResume = ''RADIO_RESUME''"
| "command_type_to_string KSetPhase = ''SET_PHASE''"
| "command_type_to_string KStepperMove = ''STEPPER_MOVE''"
| "command_type_to_string KStepperMoveTo = ''STEPPER_MOVETO''"
| "command_type_to_string KStepperMoveMm = ''STEPPER_MOVE_MM''"
| "command_type_to_string KStepperMoveToMm = ''STEPPER_MOVETO_MM''"
| "command_type_to_string KStepperRotate = ''STEPPER_ROTATE''"
| "command_type_to_string KStepperHome = ''STEPPER_HOME''"
| "command_type_to_string KStepperStop = ''STEPPER_STOP''"
| "command_type_to_string KStepperSetSpeed = ''STEPPER_SET_SPEED''"
| "command_type_to_string KStepperSetAccel = ''STEPPER_SET_ACCEL''"
| "command_type_to_string KStepperSetCurrent = ''STEPPER_SET_CURRENT''"
| "command_type_to_string KStepperSetMicrostep = ''STEPPER_SET_MICROSTEP''"
| "command_type_to_string KStepperEnable = ''STEPPER_ENABLE''"
| "command_type_to_string KStepperDisable = ''STEPPER_DISABLE''"
| "command_type_to_string KStepperBend = ''STEPPER_BEND''"
| "command_type_to_string KSetPositionZero = ''SET_POSITION_ZERO''"
| "command_type_to_string KStepLossAck = ''STEPLOSS_ACK''"
| "command_type_to_string KBendSeqLoad = ''BENDSEQ_LOAD''"
| "command_type_to_string KBendSeqRun = ''BENDSEQ_RUN''"
| "command_type_to_string KBendSeqPause = ''BENDSEQ_PAUSE''"
| "command_type_to_string KBendSeqResume = ''BENDSEQ_RESUME''"
| "command_type_to_string KBendSeqStop = ''BENDSEQ_STOP''"
| "command_type_to_string KBendSeqStatus = ''BENDSEQ_STATUS''"
| "command_type_to_string KBendSeqClear = ''BENDSEQ_CLEAR''"
| "command_type_to_string KPullArm = ''PULL_ARM''"
| "command_type_to_string KPullExecute = ''PULL_EXECUTE''"
| "command_type_to_string KFallbackPlan = ''FALLBACK_PLAN''"
| "command_type_to_string KFallbackArm = ''FALLBACK_ARM''"
| "command_type_to_string KFallbackDisarm = ''FALLBACK_DISARM''"
| "command_type_to_string KFallbackStatus = ''FALLBACK_STATUS''"
| "command_type_to_string KMotorDebug = ''MOTOR_DEBUG''"
| "command_type_to_string KUnknown = ''UNKNOWN''"

definition is_extended_command :: "command_type \<Rightarrow> bool" where
  "is_extended_command t =
     (case t of KSetBenchMode \<Rightarrow> True | KDisarmDebug \<Rightarrow> True | _ \<Rightarrow> False)"

record command =
  cmd_type :: command_type
  cmd_name :: string
  cmd_args :: "string list"
  is_extended :: bool
  motor_id :: nat

subsection \<open>Tokens\<close>

definition trim :: "string \<Rightarrow> string" where
  "trim s = rev (dropWhile is_space (rev (dropWhile is_space s)))"

definition to_upper :: "string \<Rightarrow> string" where
  "to_upper s = map to_upper_char s"

text \<open>\<^verbatim>\<open>while (iss >> token) tokens.push_back(token)\<close>.\<close>

function read_tokens :: "string \<Rightarrow> string list" where
  "read_tokens s =
     (if dropWhile is_space s = [] then []
      else takeWhile (\<lambda>c. \<not> is_space c) (dropWhile is_space s) #
           read_tokens (dropWhile (\<lambda>c. \<not> is_space c) (dropWhile is_space s)))"
  by pat_completeness auto
termination
proof (relation "measure length", simp)
  fix s
  assume r: "dropWhile is_space s \<noteq> []"
  then obtain c r where c: "dropWhile is_space s = c # r" by (meson list.exhaust)
  then have "\<not> is_space c" by (metis hd_dropWhile list.sel(1) r)
  then have "length (dropWhile (\<lambda>c. \<not> is_space c) (dropWhile is_space s)) \<le> length r"
    by (simp add: c length_dropWhile_le)
  moreover have "length (c # r) \<le> length s" by (metis c length_dropWhile_le)
  ultimately show "(dropWhile (\<lambda>c. \<not> is_space c) (dropWhile is_space s), s) \<in> measure length" by simp
qed

declare read_tokens.simps [simp del]

definition comma_to_space :: "char \<Rightarrow> char" where
  "comma_to_space c = (if c = CHR '','' then CHR '' '' else c)"

fun join_words :: "string list \<Rightarrow> string" where
  "join_words [] = []"
| "join_words [w] = to_upper w"
| "join_words (w # ws) = to_upper w @ CHR ''_'' # join_words ws"

subsection \<open>The longest command name\<close>

definition command_map :: "(string \<times> command_type) list" where
  "command_map =
    [
     (''PING'', KPing), (''STATUS'', KStatus), (''FORCE_START'', KForceStart)
     , (''ON'', KForceStart), (''FORCE_STOP'', KForceStop), (''OFF'', KForceStop)
     , (''HEATERS_OFF'', KHeatersOff), (''RESET_CTRL'', KResetCtrl), (''RESET'', KResetCtrl)
     , (''SHUTDOWN_SAFE'', KShutdownSafe), (''CHECK'', KCheck), (''COMPONENTS'', KComponents)
     , (''ARM'', KArm), (''DISARM'', KDisarm), (''ENTER_SAFE'', KEnterSafe)
     , (''EXIT_SAFE'', KExitSafe), (''ARM_DEBUG'', KArmDebug), (''DISARM_DEBUG'', KDisarmDebug)
     , (''SET_HEATER_DUTY'', KSetHeaterDuty), (''SET_ALL_DUTY'', KSetAllDuty)
     , (''HEATER_TEST'', KHeaterTest), (''SET_PID'', KSetPid)
     , (''PID_TUNE_START'', KPidTuneStart), (''PID_TUNE_ABORT'', KPidTuneAbort)
     , (''PID_TUNE_STATUS'', KPidTuneStatus), (''SET_TEMP_TARGET'', KSetTempTarget)
     , (''SET_ALL_TEMP_TARGETS'', KSetAllTempTargets), (''CLEAR_TEMP_TARGET'', KClearTempTarget)
     , (''CLEAR_TEMP_TARGETS'', KClearTempTargets), (''GET_THERMAL'', KGetThermal)
     , (''GET_LAYOUT'', KGetLayout), (''CLEAR_OVERRIDES'', KClearOverrides)
     , (''SET_BENCH_MODE'', KSetBenchMode), (''SET_TICK_HZ'', KSetTickHz)
     , (''RADIO_SILENCE'', KRadioSilence), (''RADIO_RESUME'', KRadioResume)
     , (''SET_PHASE'', KSetPhase), (''STEPPER_MOVE'', KStepperMove)
     , (''STEPPER_MOVETO'', KStepperMoveTo), (''STEPPER_MOVE_MM'', KStepperMoveMm)
     , (''STEPPER_MOVETO_MM'', KStepperMoveToMm), (''STEPPER_ROTATE'', KStepperRotate)
     , (''STEPPER_HOME'', KStepperHome), (''STEPPER_STOP'', KStepperStop)
     , (''STEPPER_SET_SPEED'', KStepperSetSpeed), (''STEPPER_SET_ACCEL'', KStepperSetAccel)
     , (''STEPPER_SET_CURRENT'', KStepperSetCurrent)
     , (''STEPPER_SET_MICROSTEP'', KStepperSetMicrostep), (''STEPPER_ENABLE'', KStepperEnable)
     , (''STEPPER_DISABLE'', KStepperDisable), (''STEPPER_BEND'', KStepperBend)
     , (''SET_POSITION_ZERO'', KSetPositionZero), (''STEPLOSS_ACK'', KStepLossAck)
     , (''BENDSEQ_LOAD'', KBendSeqLoad), (''BENDSEQ_RUN'', KBendSeqRun)
     , (''BENDSEQ_PAUSE'', KBendSeqPause), (''BENDSEQ_RESUME'', KBendSeqResume)
     , (''BENDSEQ_STOP'', KBendSeqStop), (''BENDSEQ_STATUS'', KBendSeqStatus)
     , (''BENDSEQ_CLEAR'', KBendSeqClear), (''PULL_ARM'', KPullArm)
     , (''PULL_EXECUTE'', KPullExecute), (''FALLBACK_PLAN'', KFallbackPlan)
     , (''FALLBACK_ARM'', KFallbackArm), (''FALLBACK_DISARM'', KFallbackDisarm)
     , (''FALLBACK_STATUS'', KFallbackStatus), (''MOTOR_DEBUG'', KMotorDebug)]"

fun match_words :: "string list \<Rightarrow> nat \<Rightarrow> (string \<times> nat) option" where
  "match_words tokens 0 = None"
| "match_words tokens (Suc n) =
     (let key = join_words (take (Suc n) tokens) in
      if map_of command_map key \<noteq> None then Some (key, Suc n) else match_words tokens n)"

subsection \<open>Arguments\<close>

definition arg_count_error :: "command \<Rightarrow> string" where
  "arg_count_error c = ''invalid argument count for '' @ cmd_name c"

definition require_args :: "nat \<Rightarrow> command \<Rightarrow> string + command" where
  "require_args n c = (if length (cmd_args c) \<noteq> n then Inl (arg_count_error c) else Inr c)"

definition args_between :: "nat \<Rightarrow> nat \<Rightarrow> command \<Rightarrow> string + command" where
  "args_between lo hi c =
     (if length (cmd_args c) < lo \<or> hi < length (cmd_args c) then Inl (arg_count_error c) else Inr c)"

definition is_plausible_motor_id :: "nat \<Rightarrow> string \<Rightarrow> bool" where
  "is_plausible_motor_id motor_count tok \<longleftrightarrow>
     tok \<noteq> [] \<and> length tok \<le> 9 \<and> list_all is_digit tok \<and> digits_value tok < motor_count"

definition maybe_extract_id :: "nat \<Rightarrow> nat \<Rightarrow> nat \<Rightarrow> command \<Rightarrow> command" where
  "maybe_extract_id motor_count legacy_min legacy_max c =
     (case cmd_args c of
        [] \<Rightarrow> c
      | tok # rest \<Rightarrow>
          (let n = length (cmd_args c) in
           if legacy_min + 1 \<le> n \<and> n \<le> legacy_max + 1 \<and> is_plausible_motor_id motor_count tok
           then c\<lparr>motor_id := digits_value tok, cmd_args := rest\<rparr> else c))"

definition join_component :: "command \<Rightarrow> command" where
  "join_component c =
     (if 1 < length (cmd_args c) then c\<lparr>cmd_args := [join_words (cmd_args c)]\<rparr>
      else c\<lparr>cmd_args := map to_upper (cmd_args c)\<rparr>)"

definition upper_first :: "command \<Rightarrow> command" where
  "upper_first c = c\<lparr>cmd_args := (cmd_args c)[0 := to_upper (cmd_args c ! 0)]\<rparr>"

definition upper_all :: "command \<Rightarrow> command" where
  "upper_all c =
     (if to_upper (cmd_args c ! 0) = ''ALL'' then c\<lparr>cmd_args := (cmd_args c)[0 := ''ALL'']\<rparr> else c)"

definition check_args :: "nat \<Rightarrow> command \<Rightarrow> string + command" where
  "check_args motor_count c =
    (case cmd_type c of
      KPing \<Rightarrow> require_args 0 c
    | KStatus \<Rightarrow> require_args 0 c
    | KForceStart \<Rightarrow> require_args 0 c
    | KForceStop \<Rightarrow> require_args 0 c
    | KHeatersOff \<Rightarrow> require_args 0 c
    | KResetCtrl \<Rightarrow> require_args 0 c
    | KShutdownSafe \<Rightarrow> require_args 0 c
    | KArm \<Rightarrow> require_args 0 c
    | KDisarm \<Rightarrow> require_args 0 c
    | KEnterSafe \<Rightarrow> require_args 0 c
    | KExitSafe \<Rightarrow> require_args 0 c
    | KDisarmDebug \<Rightarrow> require_args 0 c
    | KClearOverrides \<Rightarrow> require_args 0 c
    | KClearTempTargets \<Rightarrow> require_args 0 c
    | KGetThermal \<Rightarrow> require_args 0 c
    | KGetLayout \<Rightarrow> require_args 0 c
    | KRadioSilence \<Rightarrow> require_args 0 c
    | KRadioResume \<Rightarrow> require_args 0 c
    | KFallbackArm \<Rightarrow> require_args 0 c
    | KFallbackDisarm \<Rightarrow> require_args 0 c
    | KFallbackStatus \<Rightarrow> require_args 0 c
    | KPidTuneAbort \<Rightarrow> require_args 0 c
    | KPidTuneStatus \<Rightarrow> require_args 0 c
    | KPidTuneStart \<Rightarrow> args_between 2 4 c
    | KFallbackPlan \<Rightarrow> args_between 3 4 c
    | KSetPositionZero \<Rightarrow> require_args 1 c
    | KStepLossAck \<Rightarrow> require_args 1 c
    | KBendSeqPause \<Rightarrow> require_args 1 c
    | KBendSeqResume \<Rightarrow> require_args 1 c
    | KBendSeqStop \<Rightarrow> require_args 1 c
    | KBendSeqStatus \<Rightarrow> require_args 1 c
    | KMotorDebug \<Rightarrow> require_args 1 c
    | KComponents \<Rightarrow> require_args 0 c
    | KCheck \<Rightarrow> Inr (join_component c)
    | KBendSeqRun \<Rightarrow> require_args 2 c
    | KBendSeqLoad \<Rightarrow> (if length (cmd_args c) < 3 then Inl (arg_count_error c) else Inr c)
    | KBendSeqClear \<Rightarrow> args_between 1 2 c
    | KSetPhase \<Rightarrow> map_sum id upper_first (require_args 1 c)
    | KStepperHome \<Rightarrow> require_args 0 (maybe_extract_id motor_count 0 0 c)
    | KStepperStop \<Rightarrow> require_args 0 (maybe_extract_id motor_count 0 0 c)
    | KStepperEnable \<Rightarrow> require_args 0 (maybe_extract_id motor_count 0 0 c)
    | KStepperDisable \<Rightarrow> require_args 0 (maybe_extract_id motor_count 0 0 c)
    | KPullArm \<Rightarrow> require_args 0 (maybe_extract_id motor_count 0 0 c)
    | KPullExecute \<Rightarrow> require_args 0 (maybe_extract_id motor_count 0 0 c)
    | KStepperMove \<Rightarrow> require_args 1 (maybe_extract_id motor_count 1 1 c)
    | KStepperMoveMm \<Rightarrow> require_args 1 (maybe_extract_id motor_count 1 1 c)
    | KStepperRotate \<Rightarrow> require_args 1 (maybe_extract_id motor_count 1 1 c)
    | KStepperSetSpeed \<Rightarrow> require_args 1 (maybe_extract_id motor_count 1 1 c)
    | KStepperSetAccel \<Rightarrow> require_args 1 (maybe_extract_id motor_count 1 1 c)
    | KStepperSetCurrent \<Rightarrow> require_args 1 (maybe_extract_id motor_count 1 1 c)
    | KStepperSetMicrostep \<Rightarrow> require_args 1 (maybe_extract_id motor_count 1 1 c)
    | KStepperMoveTo \<Rightarrow> args_between 1 2 (maybe_extract_id motor_count 1 2 c)
    | KStepperMoveToMm \<Rightarrow> args_between 1 2 (maybe_extract_id motor_count 1 2 c)
    | KStepperBend \<Rightarrow> args_between 1 2 (maybe_extract_id motor_count 1 2 c)
    | KArmDebug \<Rightarrow> require_args 1 c
    | KSetHeaterDuty \<Rightarrow> require_args 2 c
    | KSetAllDuty \<Rightarrow> require_args 1 c
    | KHeaterTest \<Rightarrow> require_args 3 c
    | KSetPid \<Rightarrow> map_sum id upper_all (require_args 4 c)
    | KSetTempTarget \<Rightarrow> require_args 2 c
    | KSetAllTempTargets \<Rightarrow> require_args 1 c
    | KClearTempTarget \<Rightarrow> require_args 1 c
    | KSetBenchMode \<Rightarrow> require_args 1 c
    | KSetTickHz \<Rightarrow> require_args 1 c
    | KUnknown \<Rightarrow> Inl ''unknown command'')"

definition parse_tokens :: "nat \<Rightarrow> string list \<Rightarrow> string + command" where
  "parse_tokens motor_count tokens =
     (if tokens = [] then Inl ''empty command''
      else case match_words tokens (min 4 (length tokens)) of
        None \<Rightarrow> Inl (''unknown command: '' @ to_upper (hd tokens))
      | Some (cmd, consumed) \<Rightarrow>
          (case map_of command_map cmd of
             None \<Rightarrow> Inl (''unknown command: '' @ cmd)
           | Some t \<Rightarrow>
               check_args motor_count
                 \<lparr>cmd_type = t, cmd_name = command_type_to_string t, cmd_args = drop consumed tokens,
                  is_extended = is_extended_command t, motor_id = 0\<rparr>))"

definition parse_command_line :: "nat \<Rightarrow> string \<Rightarrow> string + command" where
  "parse_command_line motor_count line =
     (if trim line = [] then Inl ''empty command''
      else parse_tokens motor_count (read_tokens (map comma_to_space (trim line))))"

end
