(* ===== verification/CommandProperties.thy ===== *)
theory CommandProperties
  imports CommandParser
begin

text \<open>
  What the command parser promises: every parsed command is well formed (\<open>wf_command\<close>), and the
  printed form of every well-formed command parses to it, whatever the letter case of its name and
  the separators between its words.
\<close>

subsection \<open>Well-formed commands\<close>

text \<open>What the dispatcher relies on: the canonical name, a number of arguments its type allows, arguments
  that are tokens, upper case where the dispatcher compares, and a motor id only on motor commands.\<close>

definition takes_motor :: "command_type \<Rightarrow> bool" where
  "takes_motor t \<longleftrightarrow>
     t \<in> set [KStepperHome, KStepperStop, KStepperEnable, KStepperDisable, KPullArm, KPullExecute,
       KStepperMove, KStepperMoveMm, KStepperRotate, KStepperSetSpeed, KStepperSetAccel,
       KStepperSetCurrent, KStepperSetMicrostep, KStepperMoveTo, KStepperMoveToMm, KStepperBend]"

definition arity_ok :: "command_type \<Rightarrow> nat \<Rightarrow> bool" where
  "arity_ok t n =
     (if t \<in> set [KSetPositionZero, KStepLossAck, KBendSeqPause, KBendSeqResume, KBendSeqStop,
          KBendSeqStatus, KMotorDebug, KArmDebug, KSetAllDuty, KSetAllTempTargets, KClearTempTarget,
          KSetBenchMode, KSetTickHz, KSetPhase, KStepperMove, KStepperMoveMm, KStepperRotate,
          KStepperSetSpeed, KStepperSetAccel, KStepperSetCurrent, KStepperSetMicrostep] then n = 1
      else if t \<in> set [KBendSeqRun, KSetHeaterDuty, KSetTempTarget] then n = 2
      else if t = KHeaterTest then n = 3
      else if t = KSetPid then n = 4
      else if t = KPidTuneStart then 2 \<le> n \<and> n \<le> 4
      else if t = KFallbackPlan then 3 \<le> n \<and> n \<le> 4
      else if t = KBendSeqLoad then 3 \<le> n
      else if t \<in> set [KBendSeqClear, KStepperMoveTo, KStepperMoveToMm, KStepperBend] then 1 \<le> n \<and> n \<le> 2
      else if t = KCheck then n \<le> 1
      else n = 0)"

definition token_ok :: "string \<Rightarrow> bool" where
  "token_ok w \<longleftrightarrow> w \<noteq> [] \<and> list_all (\<lambda>c. \<not> is_space c \<and> c \<noteq> CHR '','') w"

definition normal_args :: "command_type \<Rightarrow> string list \<Rightarrow> bool" where
  "normal_args t as \<longleftrightarrow>
     (if t = KCheck \<or> t = KSetPhase then list_all (\<lambda>a. to_upper a = a) as
      else if t = KSetPid then to_upper (as ! 0) = ''ALL'' \<longrightarrow> as ! 0 = ''ALL'' else True)"

definition wf_command :: "nat \<Rightarrow> command \<Rightarrow> bool" where
  "wf_command motor_count c \<longleftrightarrow>
     cmd_type c \<noteq> KUnknown \<and> cmd_name c = command_type_to_string (cmd_type c) \<and>
     is_extended c = is_extended_command (cmd_type c) \<and>
     arity_ok (cmd_type c) (length (cmd_args c)) \<and> list_all token_ok (cmd_args c) \<and>
     normal_args (cmd_type c) (cmd_args c) \<and>
     (if takes_motor (cmd_type c) then motor_id c < motor_count else motor_id c = 0)"

subsection \<open>Facts about the names\<close>

definition command_types :: "command_type list" where
  "command_types = map snd command_map"

lemma command_types_all: "t \<noteq> KUnknown \<Longrightarrow> t \<in> set command_types"
  by (cases t) (simp_all add: command_types_def command_map_def)

lemma names_found_all:
  "list_all (\<lambda>t. map_of command_map (command_type_to_string t) = Some t \<and> t \<noteq> KUnknown) command_types"
  by code_simp

text \<open>The characters of the names: capital letters and the underscore.\<close>

definition letter :: "char \<Rightarrow> bool" where
  "letter c \<longleftrightarrow> to_upper_char c = c \<and> \<not> is_digit c \<and> \<not> is_space c \<and> c \<noteq> CHR '',''"

lemma letters:
  "letter CHR ''A''" "letter CHR ''B''" "letter CHR ''C''" "letter CHR ''D''"
  "letter CHR ''E''" "letter CHR ''F''" "letter CHR ''G''" "letter CHR ''H''"
  "letter CHR ''I''" "letter CHR ''J''" "letter CHR ''K''" "letter CHR ''L''"
  "letter CHR ''M''" "letter CHR ''N''" "letter CHR ''O''" "letter CHR ''P''"
  "letter CHR ''Q''" "letter CHR ''R''" "letter CHR ''S''" "letter CHR ''T''"
  "letter CHR ''U''" "letter CHR ''V''" "letter CHR ''W''" "letter CHR ''X''"
  "letter CHR ''Y''" "letter CHR ''Z''" "letter CHR ''_''"
  by code_simp+

lemma names_letters: "list_all (\<lambda>t. list_all letter (command_type_to_string t)) command_types"
  by (simp add: command_types_def command_map_def letters)

lemma names_upper:
  "t \<in> set command_types \<Longrightarrow> to_upper (command_type_to_string t) = command_type_to_string t"
  using names_letters by (auto simp: list_all_iff letter_def to_upper_def intro: map_idI)

lemma keys_letters: "list_all (\<lambda>k. list_all letter (fst k)) command_map"
  by (simp add: command_map_def letters)

lemma keys_no_digit: "list_all (\<lambda>k. list_all (\<lambda>c. \<not> is_digit c) (fst k)) command_map"
  using keys_letters by (auto simp: list_all_iff letter_def)

definition argument_types :: "command_type list" where
  "argument_types =
    [KCheck, KSetHeaterDuty, KSetAllDuty, KHeaterTest, KSetPid, KPidTuneStart, KArmDebug,
     KSetTempTarget, KSetAllTempTargets, KClearTempTarget, KSetBenchMode, KSetTickHz, KSetPhase,
     KSetPositionZero, KStepLossAck, KBendSeqLoad, KBendSeqRun, KBendSeqPause, KBendSeqResume,
     KBendSeqStop, KBendSeqStatus, KBendSeqClear, KFallbackPlan, KMotorDebug]"

lemma no_longer_name:
  "list_all (\<lambda>t. list_all (\<lambda>k. \<not> starts_with (command_type_to_string t @ ''_'') (fst k)) command_map)
     argument_types"
  by code_simp

lemma argument_types_all: "t \<noteq> KUnknown \<Longrightarrow> \<not> takes_motor t \<Longrightarrow> arity_ok t (Suc n) \<Longrightarrow> t \<in> set argument_types"
  by (cases t) (simp_all add: argument_types_def takes_motor_def arity_ok_def)

lemma char_code_inj: "char_code a = char_code b \<longleftrightarrow> a = b"
  by (simp add: char_code_def)

lemma char_code_upper:
  "char_code (to_upper_char c) =
     (if 97 \<le> char_code c \<and> char_code c \<le> 122 then char_code c - 32 else char_code c)"
proof -
  have "of_char c < (256 :: nat)" by simp
  then show ?thesis by (auto simp: to_upper_char_def char_code_def)
qed

lemma to_upper_char_idem [simp]: "to_upper_char (to_upper_char c) = to_upper_char c"
  by (auto simp: char_code_upper simp flip: char_code_inj)

lemma to_upper_idem [simp]: "to_upper (to_upper s) = to_upper s"
  by (simp add: to_upper_def)

lemma to_upper_char_space [simp]: "is_space (to_upper_char c) = is_space c"
  by (auto simp: is_space_def char_code_upper)

lemma to_upper_char_comma [simp]: "to_upper_char c = CHR '','' \<longleftrightarrow> c = CHR '',''"
proof -
  have "char_code (CHR '','') = 44" by (simp add: char_code_def)
  then show ?thesis by (auto simp: char_code_upper simp flip: char_code_inj)
qed

lemma token_ok_upper [simp]: "token_ok (to_upper w) = token_ok w"
  by (auto simp: token_ok_def to_upper_def list_all_iff)

lemma token_ok_join: "ws \<noteq> [] \<Longrightarrow> list_all token_ok ws \<Longrightarrow> token_ok (join_words ws)"
proof (induction ws rule: join_words.induct)
  case (3 w v vs)
  have "\<not> is_space CHR ''_''" by (simp add: is_space_def char_code_def)
  moreover have "token_ok (to_upper w)" using 3 by simp
  ultimately show ?case using 3 by (simp add: token_ok_def)
qed simp_all

lemma upper_join [simp]: "to_upper (join_words ws) = join_words ws"
proof (induction ws rule: join_words.induct)
  case (3 w v vs)
  moreover have "to_upper_char CHR ''_'' = CHR ''_''" by (simp add: to_upper_char_def char_code_def)
  ultimately show ?case by (simp add: to_upper_def)
qed (simp_all add: to_upper_def)

lemma read_tokens_cases:
  "(if dropWhile is_space s = [] then read_tokens s = []
    else read_tokens s = takeWhile (\<lambda>c. \<not> is_space c) (dropWhile is_space s) #
           read_tokens (dropWhile (\<lambda>c. \<not> is_space c) (dropWhile is_space s)))"
  by (subst (1 2) read_tokens.simps) simp

lemma first_token_ok:
  assumes "dropWhile is_space s \<noteq> []" and "list_all (\<lambda>c. c \<noteq> CHR '','') s"
  shows "token_ok (takeWhile (\<lambda>c. \<not> is_space c) (dropWhile is_space s))"
proof -
  obtain c r where c: "dropWhile is_space s = c # r" using assms(1) by (meson list.exhaust)
  then have "\<not> is_space c" by (metis assms(1) hd_dropWhile list.sel(1))
  moreover have "list_all (\<lambda>x. x \<noteq> CHR '','') (c # r)"
    unfolding c [symmetric] using assms(2) by (auto simp: list_all_iff dest: set_dropWhileD)
  ultimately show ?thesis
    unfolding c token_ok_def by (auto simp: list_all_iff dest: set_takeWhileD)
qed

lemma read_tokens_ok:
  "list_all (\<lambda>c. c \<noteq> CHR '','') s \<Longrightarrow> list_all token_ok (read_tokens s)"
proof (induction s rule: read_tokens.induct)
  case (1 s)
  show ?case
  proof (cases "dropWhile is_space s = []")
    case False
    have "list_all (\<lambda>c. c \<noteq> CHR '','') (dropWhile (\<lambda>c. \<not> is_space c) (dropWhile is_space s))"
      using 1(2) unfolding list_all_iff by (blast dest: set_dropWhileD)
    then have "list_all token_ok (read_tokens (dropWhile (\<lambda>c. \<not> is_space c) (dropWhile is_space s)))"
      by (rule 1(1) [OF False])
    then show ?thesis
      using read_tokens_cases [of s] first_token_ok [OF False 1(2)] False by simp
  qed (use read_tokens_cases [of s] in simp)
qed

lemma match_words_found:
  "match_words tokens n = Some (key, k) \<Longrightarrow>
     \<exists>t. map_of command_map key = Some t \<and> t \<noteq> KUnknown"
proof (induction n)
  case (Suc n)
  have "(key', t) \<in> set command_map \<Longrightarrow> t \<noteq> KUnknown" for key' t
    by (auto simp: command_map_def)
  with Suc show ?case by (fastforce simp: Let_def split: if_splits dest: map_of_SomeD)
qed simp

lemma require_args_Inr: "require_args n c = Inr d \<longleftrightarrow> d = c \<and> length (cmd_args c) = n"
  by (auto simp: require_args_def)

lemma args_between_Inr:
  "args_between lo hi c = Inr d \<longleftrightarrow> d = c \<and> lo \<le> length (cmd_args c) \<and> length (cmd_args c) \<le> hi"
  by (auto simp: args_between_def)

lemma extract_id_frame:
  "cmd_type (maybe_extract_id mc lo hi c) = cmd_type c"
  "cmd_name (maybe_extract_id mc lo hi c) = cmd_name c"
  "is_extended (maybe_extract_id mc lo hi c) = is_extended c"
  by (auto simp: maybe_extract_id_def Let_def split: list.splits)

lemma extract_id_args:
  "list_all token_ok (cmd_args c) \<Longrightarrow> list_all token_ok (cmd_args (maybe_extract_id mc lo hi c))"
  "motor_id c < mc \<Longrightarrow> motor_id (maybe_extract_id mc lo hi c) < mc"
  by (auto simp: maybe_extract_id_def is_plausible_motor_id_def Let_def split: list.splits)

lemma length1_list: "length xs = Suc 0 \<longleftrightarrow> (\<exists>a. xs = [a])"
  by (cases xs) auto

lemma map_sum_Inr: "map_sum id f x = Inr d \<longleftrightarrow> (\<exists>c. x = Inr c \<and> d = f c)"
  by (cases x) auto

lemmas args_simps = require_args_Inr args_between_Inr extract_id_frame map_sum_Inr

lemma join_component_ok:
  "list_all token_ok (cmd_args c) \<Longrightarrow>
     length (cmd_args (join_component c)) \<le> Suc 0 \<and> list_all token_ok (cmd_args (join_component c)) \<and>
     list_all (\<lambda>a. to_upper a = a) (cmd_args (join_component c))"
proof -
  assume a: "list_all token_ok (cmd_args c)"
  show ?thesis
  proof (cases "1 < length (cmd_args c)")
    case True
    then have "cmd_args c \<noteq> []" by auto
    with True a show ?thesis by (simp add: join_component_def token_ok_join)
  next
    case False
    with a show ?thesis by (auto simp: join_component_def list_all_iff)
  qed
qed

lemma join_component_frame:
  "cmd_type (join_component c) = cmd_type c" "cmd_name (join_component c) = cmd_name c"
  "is_extended (join_component c) = is_extended c" "motor_id (join_component c) = motor_id c"
  by (simp_all add: join_component_def)

lemma check_args_cases:
  assumes "check_args mc c = Inr d" and "cmd_type c \<noteq> KUnknown"
  shows "d = c \<and> arity_ok (cmd_type c) (length (cmd_args c)) \<and> normal_args (cmd_type c) (cmd_args c) \<and>
       \<not> takes_motor (cmd_type c)
    \<or> (\<exists>lo hi. d = maybe_extract_id mc lo hi c \<and> takes_motor (cmd_type c) \<and>
       arity_ok (cmd_type c) (length (cmd_args d)) \<and> normal_args (cmd_type c) (cmd_args d))
    \<or> cmd_type c = KCheck \<and> d = join_component c
    \<or> cmd_type c = KSetPhase \<and> d = upper_first c \<and> length (cmd_args c) = 1
    \<or> cmd_type c = KSetPid \<and> d = upper_all c \<and> length (cmd_args c) = 4"
  using assms
  by (cases "cmd_type c")
    (auto simp: check_args_def args_simps arity_ok_def normal_args_def takes_motor_def split: if_splits)

lemma token_ok_ALL [simp]: "token_ok ''ALL''"
  by (simp add: token_ok_def is_space_def char_code_def)

lemma to_upper_ALL [simp]: "to_upper ''ALL'' = ''ALL''"
  by (simp add: to_upper_def to_upper_char_def char_code_def)

lemma check_args_wf:
  assumes c: "check_args mc c = Inr d" and tok: "list_all token_ok (cmd_args c)"
    and "cmd_type c \<noteq> KUnknown" and "cmd_name c = command_type_to_string (cmd_type c)"
    and "is_extended c = is_extended_command (cmd_type c)" and "motor_id c = 0" and "0 < mc"
  shows "wf_command mc d"
  using check_args_cases [OF c assms(3)] assms
proof (elim disjE conjE exE)
  assume "cmd_type c = KCheck" "d = join_component c"
  with join_component_ok [OF tok] assms show ?thesis
    by (simp add: wf_command_def join_component_frame arity_ok_def normal_args_def takes_motor_def)
next
  assume "cmd_type c = KSetPhase" "d = upper_first c" "length (cmd_args c) = 1"
  with assms show ?thesis
    by (auto simp: length1_list upper_first_def wf_command_def arity_ok_def normal_args_def takes_motor_def)
next
  assume "cmd_type c = KSetPid" "d = upper_all c" "length (cmd_args c) = 4"
  with assms show ?thesis
    by (auto simp: upper_all_def wf_command_def arity_ok_def normal_args_def takes_motor_def
        list_all_length nth_list_update)
qed (auto simp: wf_command_def extract_id_frame extract_id_args)

lemma parse_tokens_wf:
  assumes "parse_tokens mc tokens = Inr d" and "list_all token_ok tokens" and "0 < mc"
  shows "wf_command mc d"
proof -
  obtain key k where m: "match_words tokens (min 4 (length tokens)) = Some (key, k)"
    using assms(1) by (auto simp: parse_tokens_def split: if_splits option.splits)
  obtain t where t: "map_of command_map key = Some t" "t \<noteq> KUnknown"
    using match_words_found [OF m] by auto
  have "list_all token_ok (drop k tokens)"
    using assms(2) by (auto simp: list_all_iff dest: in_set_dropD)
  with assms m t show ?thesis
    by (auto simp: parse_tokens_def split: if_splits intro!: check_args_wf)
qed

subsection \<open>Printing\<close>

definition print_command :: "command \<Rightarrow> string list" where
  "print_command c =
     command_type_to_string (cmd_type c) #
     (if takes_motor (cmd_type c) then [show_nat (motor_id c)] else []) @ cmd_args c"

lemma name_known:
  assumes "t \<noteq> KUnknown"
  shows "map_of command_map (command_type_to_string t) = Some t"
    and "to_upper (command_type_to_string t) = command_type_to_string t"
    and "token_ok (command_type_to_string t)"
proof -
  have t: "t \<in> set command_types" by (rule command_types_all [OF assms])
  show "map_of command_map (command_type_to_string t) = Some t"
    using t names_found_all by (simp add: list_all_iff)
  show "to_upper (command_type_to_string t) = command_type_to_string t" by (rule names_upper [OF t])
  have "command_type_to_string t \<noteq> []" using assms by (cases t) simp_all
  then show "token_ok (command_type_to_string t)"
    using t names_letters by (simp add: token_ok_def list_all_iff letter_def)
qed

lemma join_words_prefix: "ws \<noteq> [] \<Longrightarrow> join_words (w # ws) = to_upper w @ ''_'' @ join_words ws"
  by (cases ws) simp_all

lemma match_words_first:
  assumes "map_of command_map (to_upper w) \<noteq> None"
    and "\<And>m. map_of command_map (to_upper w @ ''_'' @ join_words (take (Suc m) ws)) = None"
    and "0 < n" and "n \<le> Suc (length ws)"
  shows "match_words (w # ws) n = Some (to_upper w, 1)"
  using assms(3,4)
proof (induction n)
  case (Suc n)
  show ?case
  proof (cases n)
    case 0
    with assms(1) show ?thesis by simp
  next
    case (Suc m)
    with Suc.prems have "ws \<noteq> []" by auto
    then have "join_words (take (Suc n) (w # ws)) = to_upper w @ ''_'' @ join_words (take (Suc m) ws)"
      using Suc by (simp add: join_words_prefix)
    moreover have "match_words (w # ws) n = Some (to_upper w, 1)" using Suc Suc.IH Suc.prems by simp
    ultimately show ?thesis using assms(2) [of m] by (simp add: Let_def)
  qed
qed simp

lemma not_key_starts:
  assumes "list_all (\<lambda>k. \<not> starts_with p (fst k)) command_map"
  shows "map_of command_map (p @ s) = None"
  using assms by (fastforce simp: map_of_eq_None_iff list_all_iff starts_with_def)

lemma not_key_digit:
  assumes "is_digit c" and "c \<in> set s"
  shows "map_of command_map s = None"
  using assms keys_no_digit by (fastforce simp: map_of_eq_None_iff list_all_iff)

lemma digit_upper [simp]: "is_digit c \<Longrightarrow> to_upper_char c = c"
  by (auto simp: to_upper_char_def is_digit_def)

lemma join_number_digit: "\<exists>c \<in> set (join_words (take (Suc m) (show_nat n # ws))). is_digit c"
proof -
  obtain c cs where c: "show_nat n = c # cs" by (meson show_nat_nonempty list.exhaust)
  with show_nat_digits [of n] have "is_digit c" by simp
  moreover have "c \<in> set (join_words (take (Suc m) (show_nat n # ws)))"
    using c \<open>is_digit c\<close> by (cases "take m ws") (auto simp: to_upper_def)
  ultimately show ?thesis ..
qed

lemma length_show_nat: "n < 10 ^ k \<Longrightarrow> 0 < k \<Longrightarrow> length (show_nat n) \<le> k"
proof (induction n arbitrary: k rule: show_nat.induct)
  case (1 n)
  show ?case
  proof (cases "n < 10")
    case True
    with 1(3) show ?thesis by (subst show_nat.simps) simp
  next
    case False
    then obtain j where j: "k = Suc j" "0 < j" using 1(2,3) by (cases k; cases "k - 1") auto
    moreover have "n div 10 < 10 ^ j" using 1(2) j by (simp add: div_less_iff_less_mult mult.commute)
    ultimately have "length (show_nat (n div 10)) \<le> j" using 1(1) False by simp
    with j False show ?thesis by (subst show_nat.simps) simp
  qed
qed

lemma plausible_show:
  "is_plausible_motor_id mc (show_nat m) \<longleftrightarrow> m < mc" if "mc \<le> 10 ^ 9"
  using that show_nat_digits [of m] length_show_nat [of m 9]
  by (auto simp: is_plausible_motor_id_def list_all_iff)

lemma check_args_printed:
  assumes "wf_command mc c" and "mc \<le> 10 ^ 9"
  shows "check_args mc (c\<lparr>motor_id := 0, cmd_args := tl (print_command c)\<rparr>) = Inr c"
proof (cases "takes_motor (cmd_type c)")
  case True
  have "maybe_extract_id mc lo hi (c\<lparr>motor_id := 0, cmd_args := show_nat (motor_id c) # cmd_args c\<rparr>) = c"
    if "lo \<le> length (cmd_args c)" "length (cmd_args c) \<le> hi" for lo hi
    using assms True that plausible_show [OF assms(2), of "motor_id c"]
    by (simp add: maybe_extract_id_def wf_command_def)
  then show ?thesis using True assms(1)
    by (cases "cmd_type c")
      (auto simp: takes_motor_def print_command_def check_args_def wf_command_def arity_ok_def require_args_def args_between_def)
next
  case False
  have t: "tl (print_command c) = cmd_args c" using False by (simp add: print_command_def)
  have m: "c\<lparr>motor_id := 0, cmd_args := cmd_args c\<rparr> = c"
    using assms(1) False by (simp add: wf_command_def)
  have "join_component c = c" if "length (cmd_args c) \<le> 1" "list_all (\<lambda>a. to_upper a = a) (cmd_args c)"
    using that by (auto simp: join_component_def list_all_iff map_idI)
  moreover have "upper_first c = c" if "length (cmd_args c) = 1" "list_all (\<lambda>a. to_upper a = a) (cmd_args c)"
    using that by (auto simp: upper_first_def length1_list)
  moreover have "upper_all c = c"
    if "length (cmd_args c) = 4" "to_upper (cmd_args c ! 0) = ''ALL'' \<longrightarrow> cmd_args c ! 0 = ''ALL''"
    using that by (cases "cmd_args c") (auto simp: upper_all_def)
  ultimately show ?thesis using assms(1) False unfolding t m
    by (cases "cmd_type c")
      (auto simp: takes_motor_def check_args_def wf_command_def arity_ok_def normal_args_def require_args_def args_between_def)
qed

subsection \<open>Lines\<close>

text \<open>A line: words, each with the separators (white space or commas) that follow it.\<close>

definition separator :: "char \<Rightarrow> bool" where
  "separator c \<longleftrightarrow> is_space c \<or> c = CHR '',''"

fun spaced :: "(string \<times> string) list \<Rightarrow> string" where
  "spaced [] = []"
| "spaced ((w, s) # ps) = w @ s @ spaced ps"

lemma dropWhile_spaces: "list_all is_space a \<Longrightarrow> dropWhile is_space (a @ x) = dropWhile is_space x"
  by (induction a) auto

lemma read_tokens_space_left: "list_all is_space a \<Longrightarrow> read_tokens (a @ x) = read_tokens x"
  using read_tokens_cases [of "a @ x"] read_tokens_cases [of x] by (simp add: dropWhile_spaces split: if_splits)

lemma read_tokens_spaces: "list_all is_space a \<Longrightarrow> read_tokens a = []"
  using read_tokens_space_left [of a "[]"] read_tokens_cases [of "[]"] by simp

lemma read_tokens_space_right: "list_all is_space b \<Longrightarrow> read_tokens (x @ b) = read_tokens x"
proof (induction x rule: read_tokens.induct)
  case (1 x)
  show ?case
  proof (cases "dropWhile is_space x = []")
    case True
    then have "list_all is_space (x @ b)" using 1(2) by (auto simp: list_all_iff)
    then show ?thesis using read_tokens_cases [of x] read_tokens_spaces [of "x @ b"] True by simp
  next
    case False
    let ?r = "dropWhile is_space x"
    have r: "dropWhile is_space (x @ b) = ?r @ b"
      using False by (auto simp: dropWhile_append)
    have n: "takeWhile (\<lambda>c. \<not> is_space c) b = [] \<and> dropWhile (\<lambda>c. \<not> is_space c) b = b"
      using 1(2) by (cases b) auto
    have "takeWhile (\<lambda>c. \<not> is_space c) (?r @ b) = takeWhile (\<lambda>c. \<not> is_space c) ?r"
      using n by (simp add: takeWhile_append) (metis takeWhile_eq_all_conv)
    moreover have "dropWhile (\<lambda>c. \<not> is_space c) (?r @ b) = dropWhile (\<lambda>c. \<not> is_space c) ?r @ b"
      using n by (auto simp: dropWhile_append)
    ultimately show ?thesis
      using read_tokens_cases [of x] read_tokens_cases [of "x @ b"] False 1(1) [OF False 1(2)]
      by (simp add: r)
  qed
qed

lemma trim_split: "\<exists>a b. s = a @ trim s @ b \<and> list_all is_space a \<and> list_all is_space b"
proof -
  let ?r = "dropWhile is_space s"
  have "s = takeWhile is_space s @ trim s @ rev (takeWhile is_space (rev ?r))"
    unfolding trim_def by (metis rev_append rev_rev_ident takeWhile_dropWhile_id)
  then show ?thesis by (intro exI conjI) (auto simp: list_all_iff dest: set_takeWhileD)
qed

lemma comma_to_space_simps:
  "is_space (comma_to_space c) = separator c" "is_space c \<Longrightarrow> comma_to_space c = c"
  "comma_to_space c \<noteq> CHR '',''"
  by (auto simp: comma_to_space_def separator_def is_space_def char_code_def)

lemma comma_to_space_spaces: "list_all is_space a \<Longrightarrow> map comma_to_space a = a"
  by (induction a) (auto simp: comma_to_space_simps)

lemma separators_to_spaces: "list_all separator s \<Longrightarrow> list_all is_space (map comma_to_space s)"
  by (induction s) (auto simp: comma_to_space_simps)

lemma comma_to_space_word: "token_ok w \<Longrightarrow> map comma_to_space w = w"
  by (rule map_idI) (auto simp: token_ok_def list_all_iff comma_to_space_def)

lemma read_tokens_trim: "read_tokens (map comma_to_space (trim s)) = read_tokens (map comma_to_space s)"
proof -
  obtain a b where s: "s = a @ trim s @ b" "list_all is_space a" "list_all is_space b"
    using trim_split by blast
  have "map comma_to_space s = map comma_to_space (a @ trim s @ b)" using s(1) by (rule arg_cong)
  also have "\<dots> = a @ map comma_to_space (trim s) @ b" using s(2,3) by (simp add: comma_to_space_spaces)
  finally have "map comma_to_space s = a @ map comma_to_space (trim s) @ b" .
  then show ?thesis
    using read_tokens_space_left [OF s(2)] read_tokens_space_right [OF s(3)] by simp
qed

lemma read_tokens_word:
  assumes "token_ok w" and "list_all is_space s" and "s \<noteq> [] \<or> x = []"
  shows "read_tokens (w @ s @ x) = w # read_tokens x"
proof -
  have w: "\<forall>c \<in> set w. \<not> is_space c" "w \<noteq> []" using assms(1) by (auto simp: token_ok_def list_all_iff)
  then have d: "dropWhile is_space (w @ s @ x) = w @ s @ x" by (cases w) auto
  have n: "takeWhile (\<lambda>c. \<not> is_space c) (s @ x) = [] \<and> dropWhile (\<lambda>c. \<not> is_space c) (s @ x) = s @ x"
    using assms(2,3) by (cases s) auto
  have "takeWhile (\<lambda>c. \<not> is_space c) (w @ s @ x) = w"
    using w(1) n by (simp add: takeWhile_append2)
  moreover have "dropWhile (\<lambda>c. \<not> is_space c) (w @ s @ x) = s @ x"
    using w(1) n by (simp add: dropWhile_append2)
  ultimately show ?thesis
    using read_tokens_cases [of "w @ s @ x"] w(2) read_tokens_space_left [OF assms(2)] by (simp add: d)
qed

lemma read_tokens_spaced:
  assumes "list_all (\<lambda>(w, s). token_ok w \<and> list_all separator s) ps"
    and "list_all (\<lambda>p. snd p \<noteq> []) (butlast ps)"
  shows "read_tokens (map comma_to_space (spaced ps)) = map fst ps"
  using assms
proof (induction ps)
  case (Cons p ps)
  obtain w s where p: "p = (w, s)" by (cases p)
  with Cons.prems have ok: "token_ok w" "list_all separator s" by simp_all
  have "map comma_to_space s \<noteq> [] \<or> map comma_to_space (spaced ps) = []"
    using Cons.prems(2) p by (cases ps) auto
  then have "read_tokens (map comma_to_space (spaced (p # ps))) =
      w # read_tokens (map comma_to_space (spaced ps))"
    using read_tokens_word [OF ok(1) separators_to_spaces [OF ok(2)]] comma_to_space_word [OF ok(1)]
    by (simp add: p)
  moreover have "list_all (\<lambda>p. snd p \<noteq> []) (butlast ps)" using Cons.prems(2) by (cases ps) auto
  ultimately show ?case using Cons p by simp
qed (simp add: read_tokens_spaces)

lemma parse_line_tokens:
  assumes "read_tokens (map comma_to_space line) \<noteq> []"
  shows "parse_command_line mc line = parse_tokens mc (read_tokens (map comma_to_space line))"
proof -
  have "trim line \<noteq> []" using assms read_tokens_trim [of line] by (auto simp: read_tokens_spaces)
  then show ?thesis by (simp add: parse_command_line_def read_tokens_trim)
qed

lemma no_comma: "list_all (\<lambda>c. c \<noteq> CHR '','') (map comma_to_space s)"
  by (auto simp: comma_to_space_simps list_all_iff)

lemma parse_printed_tokens:
  assumes c: "wf_command mc c" and mc: "mc \<le> 10 ^ 9"
    and w: "to_upper w = command_type_to_string (cmd_type c)"
  shows "parse_tokens mc (w # tl (print_command c)) = Inr c"
proof -
  let ?ws = "tl (print_command c)" and ?t = "cmd_type c"
  have t: "?t \<noteq> KUnknown" using c by (simp add: wf_command_def)
  have found: "map_of command_map (to_upper w) = Some ?t" using w name_known(1) [OF t] by simp
  have "match_words (w # ?ws) (min 4 (length (w # ?ws))) = Some (to_upper w, 1)"
  proof (cases "?ws = []")
    case True
    with found show ?thesis by (simp add: Let_def numeral_eq_Suc)
  next
    case False
    have "map_of command_map (to_upper w @ ''_'' @ join_words (take (Suc m) ?ws)) = None" for m
    proof (cases "takes_motor ?t")
      case True
      then have "?ws = show_nat (motor_id c) # cmd_args c" by (simp add: print_command_def)
      then obtain d where "is_digit d" "d \<in> set (join_words (take (Suc m) ?ws))"
        using join_number_digit by metis
      then show ?thesis by (intro not_key_digit [of d]) auto
    next
      case no: False
      then have "?ws = cmd_args c" by (simp add: print_command_def)
      with False obtain n where "length (cmd_args c) = Suc n" by (cases "cmd_args c") auto
      with c have "arity_ok ?t (Suc n)" by (simp add: wf_command_def)
      then have "?t \<in> set argument_types" by (rule argument_types_all [OF t no])
      then show ?thesis unfolding w append_assoc [symmetric]
        using no_longer_name by (intro not_key_starts) (simp add: list_all_iff)
    qed
    with found show ?thesis by (intro match_words_first) auto
  qed
  moreover have "\<lparr>cmd_type = ?t, cmd_name = command_type_to_string ?t, cmd_args = ?ws,
      is_extended = is_extended_command ?t, motor_id = 0\<rparr> = c\<lparr>motor_id := 0, cmd_args := ?ws\<rparr>"
    using c by (simp add: wf_command_def)
  ultimately show ?thesis
    using found check_args_printed [OF c mc] by (simp add: parse_tokens_def)
qed

lemma print_tokens_ok: "wf_command mc c \<Longrightarrow> list_all token_ok (tl (print_command c))"
proof -
  assume c: "wf_command mc c"
  have "token_ok (show_nat n)" for n
    using show_nat_digits [of n] digit_not_space
    by (auto simp: token_ok_def list_all_iff is_digit_def char_code_def)
  with c show ?thesis by (simp add: print_command_def wf_command_def)
qed

text \<open>C17. Every line gives an error with a text or a well-formed command: the canonical name of a known
  type, as many arguments as the type allows (so the dispatcher never reads past them), no argument
  empty or with a separator in it, component and phase names in upper case, and a motor id that
  exists, or zero for the commands that have none.\<close>

theorem parsed_command_well_formed:
  assumes "0 < motor_count"
  shows "case parse_command_line motor_count line of
    Inl e \<Rightarrow> e \<noteq> [] | Inr c \<Rightarrow> wf_command motor_count c"
proof (cases "parse_command_line motor_count line")
  case (Inl e)
  have "check_args motor_count c = Inl e \<Longrightarrow> e \<noteq> []" for c
    by (cases "cmd_type c")
      (auto simp: check_args_def require_args_def args_between_def arg_count_error_def split: if_splits)
  with Inl show ?thesis
    by (auto simp: parse_command_line_def parse_tokens_def split: if_splits option.splits)
next
  case (Inr c)
  with assms read_tokens_ok [OF no_comma] show ?thesis
    by (auto simp: parse_command_line_def split: if_splits intro: parse_tokens_wf)
qed

text \<open>C18. Round trip: a well-formed command, printed as its name in any letter case, the motor id for a
  motor command, and its arguments, separated by any mix of white space and commas, parses to itself.\<close>

theorem printed_command_parses:
  assumes "wf_command motor_count c" and "motor_count \<le> 10 ^ 9"
    and "map fst ps = w # tl (print_command c)" and "to_upper w = hd (print_command c)"
    and "list_all separator lead" and "list_all (list_all separator \<circ> snd) ps"
    and "list_all (\<lambda>p. snd p \<noteq> []) (butlast ps)"
  shows "parse_command_line motor_count (lead @ spaced ps) = Inr c"
proof -
  have name: "to_upper w = command_type_to_string (cmd_type c)" using assms(4) by (simp add: print_command_def)
  have "cmd_type c \<noteq> KUnknown" using assms(1) by (simp add: wf_command_def)
  then have "token_ok w" using name name_known(3) token_ok_upper by metis
  then have "list_all token_ok (map fst ps)" using assms(1,3) print_tokens_ok by simp
  with assms(6) have "list_all (\<lambda>(w, s). token_ok w \<and> list_all separator s) ps"
    by (auto simp: list_all_iff)
  with assms(7) have "read_tokens (map comma_to_space (spaced ps)) = w # tl (print_command c)"
    by (simp add: read_tokens_spaced assms(3))
  with separators_to_spaces [OF assms(5)] show ?thesis
    using parse_printed_tokens [OF assms(1,2) name] by (simp add: parse_line_tokens read_tokens_space_left)
qed

theorem parsed_command_well_formed_witness:
  "case parse_command_line 2 ''stepper moveto 1, 800'' of Inl e \<Rightarrow> e \<noteq> [] | Inr c \<Rightarrow> wf_command 2 c"
  by (rule parsed_command_well_formed) simp

definition example_command :: command where
  "example_command =
     \<lparr>cmd_type = KStepperMove, cmd_name = ''STEPPER_MOVE'', cmd_args = [''400''], is_extended = False,
      motor_id = 1\<rparr>"

theorem printed_command_parses_witness:
  "parse_command_line 2 '' Stepper_Move,1  400'' = Inr example_command"
proof -
  let ?ps = "[(''Stepper_Move'', '',''), (''1'', ''  ''), (''400'', [])]"
  have wf: "wf_command 2 example_command" by code_simp
  have words: "map fst ?ps = ''Stepper_Move'' # tl (print_command example_command)" by code_simp
  have name: "to_upper ''Stepper_Move'' = hd (print_command example_command)" by code_simp
  have seps: "list_all separator '' ''" "list_all (list_all separator \<circ> snd) ?ps" by code_simp+
  have "parse_command_line 2 ('' '' @ spaced ?ps) = Inr example_command"
    by (rule printed_command_parses [OF wf _ words name seps]) simp_all
  then show ?thesis by simp
qed

end
