(* ===== verification/StepperDriver.thy ===== *)
theory StepperDriver
  imports Prelude Doubles
begin

text \<open>
  The motor driver interface (\<^verbatim>\<open>hal/stepper_driver.hpp\<close>): the virtual methods of
  \<^verbatim>\<open>StepperDriver\<close> as the fields of a record over a driver state \<open>'d\<close>, the defaults the base
  class gives, and the simulated driver (\<^verbatim>\<open>simulated_stepper_driver.cpp\<close>).  What a channel relies on
  when it counts pulses is the locale \<open>pulse_driver\<close>, interpreted on the simulated driver here and on the motor chip's driver in Tmc5160Laws.

  A method that fails with a text returns \<open>Some\<close> of it, one that succeeds \<open>None\<close>.  The count of
  step-loss events is a \<^verbatim>\<open>std::uint64_t\<close>, a 64-bit word.
\<close>

record 'd driver_ops =
  drv_enable :: "bool \<Rightarrow> 'd \<Rightarrow> bool \<times> 'd"
  drv_step :: "bool \<Rightarrow> 'd \<Rightarrow> bool \<times> 'd"
  drv_set_microstep :: "int \<Rightarrow> 'd \<Rightarrow> 'd"
  drv_healthy :: "'d \<Rightarrow> bool"
  drv_active_check :: "'d \<Rightarrow> bool \<times> 'd"
  drv_set_run_current :: "dbl \<Rightarrow> 'd \<Rightarrow> string option \<times> 'd"
  drv_run_current :: "'d \<Rightarrow> dbl"
  drv_thermal_state :: "'d \<Rightarrow> int"
  drv_spi_bus_ok :: "'d \<Rightarrow> bool"
  drv_last_error :: "'d \<Rightarrow> string"
  drv_warning :: "'d \<Rightarrow> string"
  drv_poll :: "'d \<Rightarrow> bool \<times> 'd"
  drv_pulses_issued :: "'d \<Rightarrow> 64 word"
  drv_step_loss_events :: "'d \<Rightarrow> 64 word"
  drv_step_loss_reason :: "'d \<Rightarrow> string"
  drv_take_step_loss_stop :: "'d \<Rightarrow> bool \<times> 'd"
  drv_confirm_target :: "'d \<Rightarrow> bool \<times> 'd"
  drv_note_step_rate :: "dbl \<Rightarrow> bool \<Rightarrow> 'd \<Rightarrow> 'd"

subsection \<open>The simulated driver\<close>

record simulated_driver =
  sim_enabled :: bool
  sim_last_dir :: bool
  sim_microstep :: int
  sim_run_current :: dbl
  sim_pulses :: "64 word"

definition new_simulated_driver :: simulated_driver where
  "new_simulated_driver =
     \<lparr>sim_enabled = False, sim_last_dir = True, sim_microstep = 1, sim_run_current = 0, sim_pulses = 0\<rparr>"

definition sim_enable :: "bool \<Rightarrow> simulated_driver \<Rightarrow> bool \<times> simulated_driver" where
  "sim_enable en d = (True, d\<lparr>sim_enabled := en\<rparr>)"

definition sim_step :: "bool \<Rightarrow> simulated_driver \<Rightarrow> bool \<times> simulated_driver" where
  "sim_step forward d =
     (if \<not> sim_enabled d then (False, d)
      else (True, d\<lparr>sim_last_dir := forward, sim_pulses := sim_pulses d + 1\<rparr>))"

definition sim_set_microstep :: "int \<Rightarrow> simulated_driver \<Rightarrow> simulated_driver" where
  "sim_set_microstep divisor d = (if 0 < divisor then d\<lparr>sim_microstep := divisor\<rparr> else d)"

definition sim_set_run_current :: "dbl \<Rightarrow> simulated_driver \<Rightarrow> string option \<times> simulated_driver" where
  "sim_set_run_current a d =
     (if a \<le> 0 then (Some ''run current must be > 0'', d) else (None, d\<lparr>sim_run_current := a\<rparr>))"

text \<open>The methods it does not override keep the defaults of the base class.\<close>

definition simulated_ops :: "simulated_driver driver_ops" where
  "simulated_ops =
     \<lparr>drv_enable = sim_enable, drv_step = sim_step, drv_set_microstep = sim_set_microstep,
      drv_healthy = (\<lambda>d. True), drv_active_check = (\<lambda>d. (True, d)),
      drv_set_run_current = sim_set_run_current, drv_run_current = sim_run_current,
      drv_thermal_state = (\<lambda>d. 0), drv_spi_bus_ok = (\<lambda>d. True), drv_last_error = (\<lambda>d. []),
      drv_warning = (\<lambda>d. []), drv_poll = (\<lambda>d. (True, d)), drv_pulses_issued = sim_pulses,
      drv_step_loss_events = (\<lambda>d. 0), drv_step_loss_reason = (\<lambda>d. []),
      drv_take_step_loss_stop = (\<lambda>d. (False, d)), drv_confirm_target = (\<lambda>d. (True, d)),
      drv_note_step_rate = (\<lambda>hz steady d. d)\<rparr>"

lemmas sim_defs = sim_enable_def sim_step_def sim_set_microstep_def sim_set_run_current_def
  simulated_ops_def new_simulated_driver_def

subsection \<open>The pulse count as an interface\<close>

text \<open>What the pulse counter promises: a step that succeeds adds one, a step that is refused adds one
  (the pulse went out and the check after it failed) or nothing, every other method leaves it.\<close>

locale pulse_driver =
  fixes ops :: "'d driver_ops"
  assumes step_counts: "drv_step ops fwd d = (ok, d') \<Longrightarrow>
      drv_pulses_issued ops d' = drv_pulses_issued ops d + 1 \<or>
      \<not> ok \<and> drv_pulses_issued ops d' = drv_pulses_issued ops d"
    and enable_keeps: "drv_pulses_issued ops (snd (drv_enable ops en d)) = drv_pulses_issued ops d"
    and microstep_keeps: "drv_pulses_issued ops (drv_set_microstep ops n d) = drv_pulses_issued ops d"
    and check_keeps: "drv_pulses_issued ops (snd (drv_active_check ops d)) = drv_pulses_issued ops d"
    and poll_keeps: "drv_pulses_issued ops (snd (drv_poll ops d)) = drv_pulses_issued ops d"
    and stop_keeps: "drv_pulses_issued ops (snd (drv_take_step_loss_stop ops d)) = drv_pulses_issued ops d"
    and confirm_keeps: "drv_pulses_issued ops (snd (drv_confirm_target ops d)) = drv_pulses_issued ops d"
    and rate_keeps: "drv_pulses_issued ops (drv_note_step_rate ops hz st d) = drv_pulses_issued ops d"
begin

fun steps :: "bool list \<Rightarrow> 'd \<Rightarrow> bool list \<times> 'd" where
  "steps [] d = ([], d)"
| "steps (f # fs) d =
     (let (ok, d') = drv_step ops f d; (oks, d'') = steps fs d' in (ok # oks, d''))"

lemma steps_count:
  "\<exists>k. length (filter (\<lambda>ok. ok) (fst (steps fs d))) \<le> k \<and> k \<le> length fs \<and>
     drv_pulses_issued ops (snd (steps fs d)) = drv_pulses_issued ops d + of_nat k"
proof (induction fs d rule: steps.induct)
  case (2 f fs d)
  obtain ok d1 where s: "drv_step ops f d = (ok, d1)" by fastforce
  obtain k where k: "length (filter (\<lambda>ok. ok) (fst (steps fs d1))) \<le> k" "k \<le> length fs"
    "drv_pulses_issued ops (snd (steps fs d1)) = drv_pulses_issued ops d1 + of_nat k"
    using 2 [OF s [symmetric] refl] by blast
  have c: "length (filter (\<lambda>ok. ok) (fst (steps (f # fs) d))) =
      length (filter (\<lambda>ok. ok) (fst (steps fs d1))) + (if ok then 1 else 0)"
    "snd (steps (f # fs) d) = snd (steps fs d1)"
    by (simp_all add: s split: prod.splits)
  show ?case
  proof (cases "drv_pulses_issued ops d1 = drv_pulses_issued ops d + 1")
    case True
    with k c show ?thesis by (intro exI [of _ "Suc k"]) (simp add: ac_simps)
  next
    case False
    with step_counts [OF s] k c show ?thesis by (intro exI [of _ k]) simp
  qed
qed simp

end

interpretation sim: pulse_driver simulated_ops
  by unfold_locales (auto simp: sim_defs split: if_splits)

end
