(* ===== verification/StepperChannel.thy ===== *)
theory StepperChannel
  imports StepperDriver MotionLock Text
begin

text \<open>
  One motor (\<^verbatim>\<open>stepper_channel.cpp\<close>): its driver, position, target, ramp and mode, the commands that
  start and stop a motion, and the tick (or the pulse thread) that carries it out.

  The driver is a parameter (\<open>ops\<close>, state \<open>'d\<close>); \<open>None\<close> is the null pointer.  The motion lock is
  shared by the channels; \<open>ch_lock\<close> is the lock a channel points to, as it is at the start of a call
  and as the call leaves it (\<open>None\<close>: a channel built without one).  Every method runs
  under the channel's mutex, so a call is one step.  A command that succeeds returns \<open>None\<close>, one that
  fails \<open>Some\<close> of its error text.  Positions are in microsteps; \<^verbatim>\<open>std::int64_t\<close> arithmetic is on
  integers (an overflow would be undefined in C++).  Log output is left out.
\<close>

record channel_config =
  channel_id :: int
  full_steps_per_rev :: int
  max_step_hz :: dbl
  default_step_hz :: dbl
  accel_steps_per_s2 :: dbl
  max_accel_steps_per_s2 :: dbl
  lead_mm_per_rev :: dbl
  cfg_microstep :: int
  max_position_steps :: int
  ch_samples :: "nat list"
  pull_travel_full_steps :: int
  pull_hold_s :: dbl
  enable_on_boot :: bool
  use_pulse_thread :: bool
  driver_retry_ms :: int

definition channel_default :: channel_config where
  "channel_default =
     \<lparr>channel_id = 0, full_steps_per_rev = 200, max_step_hz = Fin 100, default_step_hz = Fin 100,
      accel_steps_per_s2 = Fin 200, max_accel_steps_per_s2 = Fin 5000, lead_mm_per_rev = Fin 2,
      cfg_microstep = 4, max_position_steps = 200000, ch_samples = [0, 1, 2, 3],
      pull_travel_full_steps = 200, pull_hold_s = Fin 5, enable_on_boot = False,
      use_pulse_thread = False, driver_retry_ms = 2000\<rparr>"

datatype channel_mode = Idle | Moving | Holding | Retracting

record 'd stepper_channel =
  ch_cfg :: channel_config
  ch_driver :: "'d option"
  ch_lock :: "motion_lock option"
  position :: int
  target :: int
  step_hz :: dbl
  current_step_hz :: dbl
  microstep :: int
  enabled :: bool
  moving :: bool
  hold_remaining_s :: dbl
  last_source :: string
  mode :: channel_mode
  lock_held :: bool
  retract_target :: int
  retract_after_hold :: bool
  fractional_steps :: dbl
  last_driver_retry :: time_point
  missed_deadlines :: nat
  driver_loss_seen :: "64 word"
  step_loss_events :: "64 word"
  position_uncertain :: bool
  step_loss_reason :: string

subsection \<open>Construction\<close>

definition is_supported_microstep :: "int \<Rightarrow> bool" where
  "is_supported_microstep n \<longleftrightarrow> n \<in> {1, 2, 4, 8, 16, 32, 64, 128, 256}"

definition clamped_default_hz :: "channel_config \<Rightarrow> dbl" where
  "clamped_default_hz cfg =
     (let hz = (if max_step_hz cfg < default_step_hz cfg then max_step_hz cfg else default_step_hz cfg)
      in if hz \<le> 0 then max_step_hz cfg else hz)"

definition new_channel ::
  "'d driver_ops \<Rightarrow> channel_config \<Rightarrow> 'd option \<Rightarrow> motion_lock option \<Rightarrow> 'd stepper_channel" where
  "new_channel ops cfg drv lock =
     (let cfg = cfg\<lparr>default_step_hz := clamped_default_hz cfg\<rparr>;
          m = (if is_supported_microstep (cfg_microstep cfg) then cfg_microstep cfg else 4);
          (en, drv) =
            (case drv of None \<Rightarrow> (False, None)
             | Some d \<Rightarrow>
                 (let d = drv_set_microstep ops m d
                  in if enable_on_boot cfg
                     then (let (ok, d) = drv_enable ops True d in (ok, Some d))
                     else (False, Some d)))
      in \<lparr>ch_cfg = cfg, ch_driver = drv, ch_lock = lock, position = 0, target = 0,
          step_hz = default_step_hz cfg, current_step_hz = 0, microstep = m, enabled = en,
          moving = False, hold_remaining_s = 0, last_source = ''init'', mode = Idle,
          lock_held = False, retract_target = 0, retract_after_hold = False, fractional_steps = 0,
          last_driver_retry = 0, missed_deadlines = 0, driver_loss_seen = 0, step_loss_events = 0,
          position_uncertain = False, step_loss_reason = []\<rparr>)"

subsection \<open>The lock\<close>

definition release_lock_if_held :: "'d stepper_channel \<Rightarrow> 'd stepper_channel" where
  "release_lock_if_held c =
     (case ch_lock c of
        Some l \<Rightarrow>
          (if lock_held c
           then c\<lparr>ch_lock := Some (release (channel_id (ch_cfg c)) l), lock_held := False\<rparr> else c)
      | None \<Rightarrow> c)"

definition acquire_lock_for_motion :: "'d stepper_channel \<Rightarrow> string option \<times> 'd stepper_channel" where
  "acquire_lock_for_motion c =
     (case ch_lock c of
        None \<Rightarrow> (None, c)
      | Some l \<Rightarrow>
          (if lock_held c then (None, c)
           else case try_acquire (channel_id (ch_cfg c)) l of
             (False, l) \<Rightarrow> (Some ''motion lock held by another motor'', c\<lparr>ch_lock := Some l\<rparr>)
           | (True, l) \<Rightarrow> (None, c\<lparr>ch_lock := Some l, lock_held := True\<rparr>)))"

subsection \<open>The ramp\<close>

definition clamp_hz :: "channel_config \<Rightarrow> dbl \<Rightarrow> dbl" where
  "clamp_hz cfg hz =
     (let hz = (if hz < 0 then 0 else hz) in if max_step_hz cfg < hz then max_step_hz cfg else hz)"

definition brake_hz :: "'d stepper_channel \<Rightarrow> int \<Rightarrow> dbl" where
  "brake_hz c remaining =
     dbl_sqrt (std_max 0 (Fin 2 * accel_steps_per_s2 (ch_cfg c) *
       (dbl_of_int remaining / dbl_of_int (max 1 (microstep c)))))"

definition update_ramp_speed :: "dbl \<Rightarrow> int \<Rightarrow> 'd stepper_channel \<Rightarrow> 'd stepper_channel" where
  "update_ramp_speed dt remaining c =
     (if dt \<le> 0 then c
      else if mode c = Idle \<or> mode c = Holding then c\<lparr>current_step_hz := 0\<rparr>
      else
        (let goal = std_min (step_hz c) (brake_hz c remaining);
             cur = current_step_hz c;
             slope = accel_steps_per_s2 (ch_cfg c) * dt;
             cur =
               (if cur < goal then (if goal < cur + slope then goal else cur + slope)
                else if goal < cur then (if cur - slope < goal then goal else cur - slope)
                else cur);
             cur = (if cur < 0 then 0 else cur);
             cur = (if max_step_hz (ch_cfg c) < cur then max_step_hz (ch_cfg c) else cur)
         in c\<lparr>current_step_hz := cur\<rparr>))"

subsection \<open>Step loss\<close>

definition latch_step_loss :: "string \<Rightarrow> 'd stepper_channel \<Rightarrow> 'd stepper_channel" where
  "latch_step_loss reason c =
     c\<lparr>step_loss_events := step_loss_events c + 1, position_uncertain := True, step_loss_reason := reason\<rparr>"

definition absorb_driver_step_loss :: "'d driver_ops \<Rightarrow> 'd stepper_channel \<Rightarrow> bool \<times> 'd stepper_channel" where
  "absorb_driver_step_loss ops c =
     (case ch_driver c of
        None \<Rightarrow> (False, c)
      | Some d \<Rightarrow>
          (let events = drv_step_loss_events ops d;
               c = (if events \<noteq> driver_loss_seen c
                    then c\<lparr>step_loss_events := step_loss_events c + (events - driver_loss_seen c),
                           driver_loss_seen := events, position_uncertain := True,
                           step_loss_reason := drv_step_loss_reason ops d\<rparr>
                    else c);
               (stop, d) = drv_take_step_loss_stop ops d
           in (stop, c\<lparr>ch_driver := Some d\<rparr>)))"

definition abort_move_for_step_loss :: "'d stepper_channel \<Rightarrow> 'd stepper_channel" where
  "abort_move_for_step_loss c =
     release_lock_if_held
       (c\<lparr>target := position c, retract_target := position c, moving := False, mode := Idle,
          hold_remaining_s := 0, retract_after_hold := False, current_step_hz := 0,
          fractional_steps := 0, last_source := ''safety:STEPLOSS''\<rparr>)"

definition report_step_rate :: "'d driver_ops \<Rightarrow> 'd stepper_channel \<Rightarrow> 'd stepper_channel" where
  "report_step_rate ops c =
     (case ch_driver c of
        None \<Rightarrow> c
      | Some d \<Rightarrow>
          (let steady = (0 < current_step_hz c \<and>
                 dbl_abs (current_step_hz c - step_hz c) \<le>
                   to_dbl (1 / 1000000000) * std_max 1 (step_hz c))
           in c\<lparr>ch_driver := Some (drv_note_step_rate ops (current_step_hz c) steady d)\<rparr>))"

definition acknowledge_step_loss :: "'d stepper_channel \<Rightarrow> 'd stepper_channel" where
  "acknowledge_step_loss c = c\<lparr>position_uncertain := False, step_loss_reason := []\<rparr>"

subsection \<open>Pulses\<close>

text \<open>A step the driver refused: the channel is disabled where it is.\<close>

definition refused_step :: "'d driver_ops \<Rightarrow> 64 word \<Rightarrow> 'd stepper_channel \<Rightarrow> 'd stepper_channel" where
  "refused_step ops events_before c =
     (case ch_driver c of
        None \<Rightarrow> c
      | Some d \<Rightarrow>
          (let why = drv_last_error ops d;
               c = (if step_loss_events c = events_before
                    then latch_step_loss (''motor disabled mid-move: '' @
                           (if why = [] then ''the driver refused a step'' else why)) c
                    else c)
           in release_lock_if_held
                (c\<lparr>ch_driver := Some (snd (drv_enable ops False d)), enabled := False,
                   target := position c, moving := False, mode := Idle, hold_remaining_s := 0,
                   retract_after_hold := False, last_source := ''safety:STEPLOSS''\<rparr>)))"

fun issue_loop :: "'d driver_ops \<Rightarrow> bool \<Rightarrow> nat \<Rightarrow> nat \<Rightarrow> 'd stepper_channel \<Rightarrow> nat \<times> 'd stepper_channel" where
  "issue_loop ops forward 0 issued c = (issued, c)"
| "issue_loop ops forward (Suc n) issued c =
     (case ch_driver c of
        None \<Rightarrow> (issued, c)
      | Some d \<Rightarrow>
          (let before = step_loss_events c;
               (stepped, d) = drv_step ops forward d;
               (stop, c) = absorb_driver_step_loss ops (c\<lparr>ch_driver := Some d\<rparr>);
               (issued, c) =
                 (if stepped
                  then (issued + 1, c\<lparr>position := position c + (if forward then 1 else - 1)\<rparr>)
                  else (issued, c))
           in if stop then (issued, abort_move_for_step_loss c)
              else if \<not> stepped then (issued, refused_step ops before c)
              else issue_loop ops forward n issued c))"

definition confirm_target :: "'d driver_ops \<Rightarrow> 'd stepper_channel \<Rightarrow> 'd stepper_channel" where
  "confirm_target ops c =
     (case ch_driver c of
        None \<Rightarrow> c
      | Some d \<Rightarrow>
          snd (absorb_driver_step_loss ops (c\<lparr>ch_driver := Some (snd (drv_confirm_target ops d))\<rparr>)))"

definition issue_pulses :: "'d driver_ops \<Rightarrow> int \<Rightarrow> 'd stepper_channel \<Rightarrow> nat \<times> 'd stepper_channel" where
  "issue_pulses ops allowed c =
     (if ch_driver c = None \<or> \<not> enabled c \<or> allowed \<le> 0 then (0, c)
      else if position c = target c then (0, c)
      else
        (let forward = (position c < target c);
             remaining = \<bar>target c - position c\<bar>;
             allowed = (if remaining < allowed then remaining else allowed);
             (issued, c) = issue_loop ops forward (nat allowed) 0 c
         in (issued,
             if 0 < issued \<and> enabled c \<and> position c = target c then confirm_target ops c else c)))"

subsection \<open>The tick\<close>

definition tick_retry :: "'d driver_ops \<Rightarrow> time_point \<Rightarrow> 'd \<Rightarrow> 'd stepper_channel \<Rightarrow> 'd stepper_channel" where
  "tick_retry ops now d c =
     (if last_driver_retry c = 0 \<or>
         driver_retry_ms (ch_cfg c) \<le> trunc_div (now - last_driver_retry c) (ms 1)
      then
        (let c = c\<lparr>last_driver_retry := now\<rparr>;
             (ok, d) = drv_active_check ops d;
             c = (if ok
                  then (let d = drv_set_microstep ops (microstep c) d
                        in if enabled c
                           then (let (en, d) = drv_enable ops True d
                                 in c\<lparr>ch_driver := Some d, enabled := en\<rparr>)
                           else c\<lparr>ch_driver := Some d\<rparr>)
                  else c\<lparr>ch_driver := Some d\<rparr>)
         in snd (absorb_driver_step_loss ops c))
      else c)"

text \<open>The first part of a tick: the driver is retried or polled.  The flag tells that a step loss
  ended a hold, which ends the tick.\<close>

definition tick_driver :: "'d driver_ops \<Rightarrow> time_point \<Rightarrow> 'd stepper_channel \<Rightarrow> bool \<times> 'd stepper_channel" where
  "tick_driver ops now c =
     (case ch_driver c of
        None \<Rightarrow> (False, c)
      | Some d \<Rightarrow>
          (if \<not> drv_healthy ops d \<and> mode c = Idle then (False, tick_retry ops now d c)
           else if enabled c \<and> (mode c = Idle \<or> mode c = Holding)
           then (let d = snd (drv_poll ops (drv_note_step_rate ops 0 False d));
                     (stop, c) = absorb_driver_step_loss ops (c\<lparr>ch_driver := Some d\<rparr>)
                 in if stop \<and> mode c = Holding then (True, abort_move_for_step_loss c) else (False, c))
           else (False, c)))"

definition overtemp_stop :: "'d driver_ops \<Rightarrow> 'd \<Rightarrow> 'd stepper_channel \<Rightarrow> 'd stepper_channel" where
  "overtemp_stop ops d c =
     (let c = latch_step_loss ''driver over-temperature shutdown: the chip cut its power stage'' c
      in release_lock_if_held
           (c\<lparr>ch_driver := Some (snd (drv_enable ops False d)), enabled := False,
              target := position c, retract_target := position c, moving := False, mode := Idle,
              hold_remaining_s := 0, retract_after_hold := False, current_step_hz := 0,
              fractional_steps := 0, last_source := ''safety:OVERTEMP''\<rparr>))"

definition tick_hold :: "dbl \<Rightarrow> 'd stepper_channel \<Rightarrow> 'd stepper_channel" where
  "tick_hold dt c =
     (let c = c\<lparr>hold_remaining_s := std_max 0 (hold_remaining_s c - dt)\<rparr> in
      if \<not> hold_remaining_s c \<le> 0 then c
      else if retract_after_hold c
      then
        (let c = c\<lparr>target := retract_target c\<rparr>;
             c = c\<lparr>mode := (if position c \<noteq> target c then Retracting else Idle)\<rparr>;
             c = c\<lparr>moving := (mode c \<noteq> Idle), fractional_steps := 0, current_step_hz := 0\<rparr>
         in if mode c = Idle then release_lock_if_held (c\<lparr>retract_after_hold := False\<rparr>) else c)
      else
        release_lock_if_held
          (c\<lparr>mode := Idle, moving := False, fractional_steps := 0, current_step_hz := 0\<rparr>))"

definition tick_terminus :: "'d stepper_channel \<Rightarrow> 'd stepper_channel" where
  "tick_terminus c =
     (if mode c = Moving \<and> 0 < hold_remaining_s c
      then c\<lparr>mode := Holding, moving := False, current_step_hz := 0\<rparr>
      else if mode c = Retracting
      then release_lock_if_held
             (c\<lparr>mode := Idle, moving := False, current_step_hz := 0, retract_after_hold := False\<rparr>)
      else release_lock_if_held (c\<lparr>mode := Idle, moving := False, current_step_hz := 0\<rparr>))"

text \<open>The end of a leg that this tick's pulses reached.\<close>

definition tick_arrived :: "'d stepper_channel \<Rightarrow> 'd stepper_channel" where
  "tick_arrived c =
     (let c = c\<lparr>fractional_steps := 0, current_step_hz := 0\<rparr> in
      if mode c = Moving \<and> 0 < hold_remaining_s c then c\<lparr>mode := Holding\<rparr>
      else if mode c = Retracting
      then release_lock_if_held (c\<lparr>mode := Idle, retract_after_hold := False\<rparr>)
      else release_lock_if_held (c\<lparr>mode := Idle\<rparr>))"

definition tick_pulses :: "'d driver_ops \<Rightarrow> dbl \<Rightarrow> 'd stepper_channel \<Rightarrow> 'd stepper_channel" where
  "tick_pulses ops dt c =
     (let c = report_step_rate ops (update_ramp_speed dt \<bar>target c - position c\<bar> c);
          rate = current_step_hz c * dbl_of_int (microstep c);
          frac = fractional_steps c + rate * dt;
          n = dbl_to_i64 frac;
          to_issue = (if n < 0 then 0 else n);
          c = c\<lparr>fractional_steps := frac - dbl_of_int to_issue\<rparr>;
          c = snd (issue_pulses ops to_issue c);
          c = c\<lparr>moving := (position c \<noteq> target c)\<rparr>
      in if moving c then c else tick_arrived c)"

definition tick_motion :: "'d driver_ops \<Rightarrow> dbl \<Rightarrow> 'd stepper_channel \<Rightarrow> 'd stepper_channel" where
  "tick_motion ops dt c =
     (if mode c = Holding then tick_hold dt c
      else if mode c \<noteq> Moving \<and> mode c \<noteq> Retracting then c\<lparr>moving := False, current_step_hz := 0\<rparr>
      else if position c = target c then tick_terminus c
      else if use_pulse_thread (ch_cfg c) then c\<lparr>moving := True\<rparr>
      else tick_pulses ops dt c)"

definition channel_tick :: "'d driver_ops \<Rightarrow> time_point \<Rightarrow> dbl \<Rightarrow> 'd stepper_channel \<Rightarrow> 'd stepper_channel" where
  "channel_tick ops now dt c =
     (if dt \<le> 0 then c
      else
        (let (ended, c) = tick_driver ops now c in
         if ended then c
         else case ch_driver c of
           Some d \<Rightarrow>
             (if enabled c \<and> 2 \<le> drv_thermal_state ops d then overtemp_stop ops d c
              else tick_motion ops dt c)
         | None \<Rightarrow> tick_motion ops dt c))"

subsection \<open>The pulse thread\<close>

text \<open>One round of the loop of \<^verbatim>\<open>PulseThreadBody\<close>; \<open>elapsed\<close> is the time since the last ramp update.\<close>

definition pulse_round :: "'d driver_ops \<Rightarrow> dbl \<Rightarrow> 'd stepper_channel \<Rightarrow> 'd stepper_channel" where
  "pulse_round ops elapsed c =
     (if mode c \<noteq> Moving \<and> mode c \<noteq> Retracting then c
      else
        (let remaining = \<bar>target c - position c\<bar> in
         if remaining = 0 then c
         else
           (let dt = (if elapsed < 0 then 0 else elapsed);
                dt = (if to_dbl (5 / 100) < dt then to_dbl (5 / 100) else dt);
                c = update_ramp_speed dt remaining c;
                rate = current_step_hz c * dbl_of_int (microstep c)
            in if rate < 1 then c
               else snd (issue_pulses ops 1 (report_step_rate ops c)))))"

definition note_missed_deadline :: "'d stepper_channel \<Rightarrow> 'd stepper_channel" where
  "note_missed_deadline c = c\<lparr>missed_deadlines := missed_deadlines c + 1\<rparr>"

subsection \<open>Commands\<close>

definition move_steps :: "int \<Rightarrow> 'd stepper_channel \<Rightarrow> string option \<times> 'd stepper_channel" where
  "move_steps delta c =
     (if \<not> enabled c then (Some ''channel disabled'', c)
      else
        (let new_target = target c + delta in
         if max_position_steps (ch_cfg c) < \<bar>new_target\<bar> then (Some ''target exceeds max_position_steps'', c)
         else case (if new_target \<noteq> position c then acquire_lock_for_motion c else (None, c)) of
           (Some e, c) \<Rightarrow> (Some e, c)
         | (None, c) \<Rightarrow>
             (let c = c\<lparr>target := new_target, hold_remaining_s := 0, retract_target := position c,
                        retract_after_hold := False\<rparr>;
                  c = c\<lparr>mode := (if position c \<noteq> target c then Moving else Idle)\<rparr>
              in (None, c\<lparr>moving := (mode c = Moving), last_source := ''cmd:MOVE''\<rparr>))))"

definition move_to_steps :: "int \<Rightarrow> dbl \<Rightarrow> 'd stepper_channel \<Rightarrow> string option \<times> 'd stepper_channel" where
  "move_to_steps goal hold c =
     (if \<not> enabled c then (Some ''channel disabled'', c)
      else if max_position_steps (ch_cfg c) < \<bar>goal\<bar> then (Some ''target exceeds max_position_steps'', c)
      else if hold < 0 then (Some ''hold must be >= 0'', c)
      else case (if position c \<noteq> goal \<or> 0 < hold then acquire_lock_for_motion c else (None, c)) of
        (Some e, c) \<Rightarrow> (Some e, c)
      | (None, c) \<Rightarrow>
          (let c = c\<lparr>target := goal, hold_remaining_s := hold, retract_target := position c,
                     retract_after_hold := False\<rparr>;
               c = c\<lparr>mode := (if position c \<noteq> target c then Moving else if 0 < hold then Holding else Idle)\<rparr>
           in (None, c\<lparr>moving := (mode c = Moving), last_source := ''cmd:BEND''\<rparr>)))"

definition usteps_per_mm :: "'d stepper_channel \<Rightarrow> dbl" where
  "usteps_per_mm c =
     dbl_of_int (full_steps_per_rev (ch_cfg c)) * dbl_of_int (microstep c) / lead_mm_per_rev (ch_cfg c)"

definition too_many_usteps :: "dbl \<Rightarrow> bool" where
  "too_many_usteps u \<longleftrightarrow> Fin 9000000000000000 < dbl_abs u"

definition with_source :: "string \<Rightarrow> string option \<times> 'd stepper_channel \<Rightarrow> string option \<times> 'd stepper_channel" where
  "with_source s r = (case r of (None, c) \<Rightarrow> (None, c\<lparr>last_source := s\<rparr>) | (Some e, c) \<Rightarrow> (Some e, c))"

definition move_millimeters :: "dbl \<Rightarrow> 'd stepper_channel \<Rightarrow> string option \<times> 'd stepper_channel" where
  "move_millimeters delta c =
     (if \<not> is_finite delta then (Some ''distance must be finite'', c)
      else
        (let usteps = delta * usteps_per_mm c in
         if too_many_usteps usteps then (Some ''distance too large'', c)
         else with_source ''cmd:MOVE_MM'' (move_steps (llround usteps) c)))"

definition move_to_millimeters ::
  "dbl \<Rightarrow> dbl \<Rightarrow> 'd stepper_channel \<Rightarrow> string option \<times> 'd stepper_channel" where
  "move_to_millimeters goal hold c =
     (if \<not> is_finite goal then (Some ''distance must be finite'', c)
      else
        (let usteps = goal * usteps_per_mm c in
         if too_many_usteps usteps then (Some ''distance too large'', c)
         else with_source ''cmd:BEND_MM'' (move_to_steps (llround usteps) hold c)))"

definition rotate_motor :: "dbl \<Rightarrow> 'd stepper_channel \<Rightarrow> string option \<times> 'd stepper_channel" where
  "rotate_motor revolutions c =
     (if full_steps_per_rev (ch_cfg c) \<le> 0 then (Some ''full_steps_per_rev invalid'', c)
      else
        move_steps
          (llround (revolutions * dbl_of_int (full_steps_per_rev (ch_cfg c)) * dbl_of_int (microstep c))) c)"

definition home :: "'d stepper_channel \<Rightarrow> string option \<times> 'd stepper_channel" where
  "home c =
     (if \<not> enabled c then (Some ''channel disabled'', c)
      else case (if position c \<noteq> 0 then acquire_lock_for_motion c else (None, c)) of
        (Some e, c) \<Rightarrow> (Some e, c)
      | (None, c) \<Rightarrow>
          (let c = c\<lparr>target := 0, hold_remaining_s := 0, retract_target := 0, retract_after_hold := False\<rparr>;
               c = c\<lparr>mode := (if position c \<noteq> 0 then Moving else Idle)\<rparr>
           in (None, c\<lparr>moving := (mode c = Moving), last_source := ''cmd:HOME''\<rparr>)))"

definition set_position_zero :: "'d stepper_channel \<Rightarrow> 'd stepper_channel" where
  "set_position_zero c =
     release_lock_if_held
       (c\<lparr>position := 0, target := 0, retract_target := 0, hold_remaining_s := 0, fractional_steps := 0,
          current_step_hz := 0, moving := False, mode := Idle, retract_after_hold := False,
          last_source := ''cmd:ZERO'', position_uncertain := False, step_loss_reason := []\<rparr>)"

definition stop_motion :: "'d stepper_channel \<Rightarrow> 'd stepper_channel" where
  "stop_motion c =
     release_lock_if_held
       (c\<lparr>target := position c, retract_target := position c, hold_remaining_s := 0, moving := False,
          fractional_steps := 0, current_step_hz := 0, mode := Idle, retract_after_hold := False,
          last_source := ''cmd:STOP''\<rparr>)"

definition set_speed :: "dbl \<Rightarrow> 'd stepper_channel \<Rightarrow> string option \<times> 'd stepper_channel" where
  "set_speed hz c =
     (if hz \<le> 0 then (Some ''step_hz must be > 0'', c)
      else (None, c\<lparr>step_hz := clamp_hz (ch_cfg c) hz\<rparr>))"

definition set_accel :: "dbl \<Rightarrow> 'd stepper_channel \<Rightarrow> string option \<times> 'd stepper_channel" where
  "set_accel a c =
     (if \<not> is_finite a \<or> a \<le> 0 then (Some ''accel must be > 0 full-steps/s^2'', c)
      else if max_accel_steps_per_s2 (ch_cfg c) < a
      then (Some (''accel exceeds stepper.max_accel_steps_per_s2 ('' @
              show_double (max_accel_steps_per_s2 (ch_cfg c)) @ '')''), c)
      else (None, c\<lparr>ch_cfg := (ch_cfg c)\<lparr>accel_steps_per_s2 := a\<rparr>\<rparr>))"

definition set_run_current :: "'d driver_ops \<Rightarrow> dbl \<Rightarrow> 'd stepper_channel \<Rightarrow> string option \<times> 'd stepper_channel" where
  "set_run_current ops a c =
     (case ch_driver c of
        None \<Rightarrow> (Some ''no driver'', c)
      | Some d \<Rightarrow> (let (e, d) = drv_set_run_current ops a d in (e, c\<lparr>ch_driver := Some d\<rparr>)))"

definition rescale :: "int \<Rightarrow> 'd stepper_channel \<Rightarrow> 'd stepper_channel" where
  "rescale divisor c =
     (if microstep c \<noteq> divisor \<and> 0 < microstep c
      then
        (let scale = dbl_of_int divisor / dbl_of_int (microstep c) in
         c\<lparr>position := llround (dbl_of_int (position c) * scale),
           target := llround (dbl_of_int (target c) * scale),
           retract_target := llround (dbl_of_int (retract_target c) * scale)\<rparr>)
      else c)"

definition set_microstep :: "'d driver_ops \<Rightarrow> int \<Rightarrow> 'd stepper_channel \<Rightarrow> string option \<times> 'd stepper_channel" where
  "set_microstep ops divisor c =
     (if \<not> is_supported_microstep divisor
      then (Some ''microstep must be 1, 2, 4, 8, 16, 32, 64, 128, or 256'', c)
      else
        (let c = c\<lparr>ch_driver := map_option (drv_set_microstep ops divisor) (ch_driver c)\<rparr> in
         case ch_driver c of
           Some d \<Rightarrow>
             (if \<not> drv_healthy ops d then (Some ''driver microstep configuration failed'', c)
              else (None, (rescale divisor c)\<lparr>microstep := divisor\<rparr>))
         | None \<Rightarrow> (None, (rescale divisor c)\<lparr>microstep := divisor\<rparr>)))"

definition set_enabled :: "'d driver_ops \<Rightarrow> bool \<Rightarrow> 'd stepper_channel \<Rightarrow> bool \<times> 'd stepper_channel" where
  "set_enabled ops en c =
     (case ch_driver c of
        None \<Rightarrow> (False, c)
      | Some d \<Rightarrow>
          (let (ok, d) = drv_enable ops en d; c = c\<lparr>ch_driver := Some d\<rparr> in
           if \<not> en
           then
             (let c = (if mode c = Moving \<or> mode c = Retracting
                       then latch_step_loss ''motor disabled while moving'' c else c)
              in (ok, release_lock_if_held
                        (c\<lparr>enabled := False, moving := False, mode := Idle, current_step_hz := 0\<rparr>)))
           else if \<not> ok then (False, c)
           else (True, c\<lparr>enabled := True\<rparr>)))"

text \<open>The pull cycle takes the lock itself, so it fails also when this very channel holds it.\<close>

definition arm_pull_cycle :: "'d stepper_channel \<Rightarrow> string option \<times> 'd stepper_channel" where
  "arm_pull_cycle c =
     (if \<not> enabled c then (Some ''channel disabled'', c)
      else
        (let (taken, c) =
           (case ch_lock c of
              None \<Rightarrow> (True, c)
            | Some l \<Rightarrow> (let (ok, l) = try_acquire (channel_id (ch_cfg c)) l in (ok, c\<lparr>ch_lock := Some l\<rparr>)))
         in if \<not> taken then (Some ''motion lock held by another motor'', c)
            else
              (let c = c\<lparr>lock_held := (ch_lock c \<noteq> None), retract_target := 0, retract_after_hold := True\<rparr>;
                   pull = pull_travel_full_steps (ch_cfg c) * microstep c
               in if max_position_steps (ch_cfg c) < \<bar>pull\<bar>
                  then (Some ''pull target exceeds max_position_steps'', release_lock_if_held c)
                  else
                    (let c = c\<lparr>target := pull, hold_remaining_s := pull_hold_s (ch_cfg c)\<rparr>;
                         c = c\<lparr>mode := (if position c \<noteq> target c then Moving else Holding)\<rparr>
                     in (None, c\<lparr>moving := (mode c = Moving), step_hz := max_step_hz (ch_cfg c),
                                 last_source := ''cmd:PULL''\<rparr>)))))"

fun pump_ticks :: "'d driver_ops \<Rightarrow> nat \<Rightarrow> time_point list \<Rightarrow> 'd stepper_channel \<Rightarrow> 'd stepper_channel" where
  "pump_ticks ops n [] c = c"
| "pump_ticks ops 0 nows c = c"
| "pump_ticks ops (Suc n) (now # nows) c =
     (let c = channel_tick ops now (to_dbl (1 / 1000)) c in
      if mode c = Idle then c else pump_ticks ops n nows c)"

text \<open>At most 60000 ticks of 1 ms; \<open>nows\<close> are the clock readings of the ticks.\<close>

definition execute_pull_cycle ::
  "'d driver_ops \<Rightarrow> time_point list \<Rightarrow> 'd stepper_channel \<Rightarrow> string option \<times> 'd stepper_channel" where
  "execute_pull_cycle ops nows c =
     (case arm_pull_cycle c of
        (Some e, c) \<Rightarrow> (Some e, c)
      | (None, c) \<Rightarrow> (None, pump_ticks ops 60000 nows c))"

subsection \<open>The snapshot\<close>

record stepper_status =
  st_position_steps :: int
  st_target_steps :: int
  st_step_hz :: dbl
  st_microstep :: int
  st_accel :: dbl
  st_run_current :: dbl
  st_thermal_state :: int
  st_position_mm :: dbl
  st_target_mm :: dbl
  st_enabled :: bool
  st_healthy :: bool
  st_moving :: bool
  st_holding :: bool
  st_hold_remaining_s :: dbl
  st_pulses_total :: "64 word"
  st_missed_deadlines :: nat
  st_last_source :: string
  st_step_loss_events :: "64 word"
  st_position_uncertain :: bool
  st_step_loss_reason :: string

definition channel_healthy :: "'d driver_ops \<Rightarrow> 'd stepper_channel \<Rightarrow> bool" where
  "channel_healthy ops c = (case ch_driver c of None \<Rightarrow> False | Some d \<Rightarrow> drv_healthy ops d)"

definition snapshot :: "'d driver_ops \<Rightarrow> 'd stepper_channel \<Rightarrow> stepper_status" where
  "snapshot ops c =
     (let per_mm = usteps_per_mm c in
      \<lparr>st_position_steps = position c, st_target_steps = target c, st_step_hz = step_hz c,
       st_microstep = microstep c, st_accel = accel_steps_per_s2 (ch_cfg c),
       st_run_current = (case ch_driver c of None \<Rightarrow> 0 | Some d \<Rightarrow> drv_run_current ops d),
       st_thermal_state = (case ch_driver c of None \<Rightarrow> 0 | Some d \<Rightarrow> drv_thermal_state ops d),
       st_position_mm = (if 0 < per_mm then dbl_of_int (position c) / per_mm else 0),
       st_target_mm = (if 0 < per_mm then dbl_of_int (target c) / per_mm else 0),
       st_enabled = enabled c, st_healthy = channel_healthy ops c, st_moving = moving c,
       st_holding = (mode c = Holding), st_hold_remaining_s = hold_remaining_s c,
       st_pulses_total = (case ch_driver c of None \<Rightarrow> 0 | Some d \<Rightarrow> drv_pulses_issued ops d),
       st_missed_deadlines = missed_deadlines c, st_last_source = last_source c,
       st_step_loss_events = step_loss_events c, st_position_uncertain = position_uncertain c,
       st_step_loss_reason = step_loss_reason c\<rparr>)"

text \<open>\<^verbatim>\<open>FormatPullCompleteLog\<close>.\<close>

fun join_numbers :: "nat list \<Rightarrow> string" where
  "join_numbers [] = []"
| "join_numbers [n] = show_nat n"
| "join_numbers (n # ns) = show_nat n @ CHR '','' # join_numbers ns"

definition format_pull_complete_log :: "'d stepper_channel \<Rightarrow> string" where
  "format_pull_complete_log c =
     ''[pull] cycle complete id='' @ show_int (channel_id (ch_cfg c)) @ '' samples='' @
     join_numbers (ch_samples (ch_cfg c))"

end
