(* ===== verification/StepperMotion.thy ===== *)
theory StepperMotion
  imports StepperChannel
begin

text \<open>
  The motion lock and the modes of one channel: every method keeps \<open>chan_ok\<close> (the channel holds the
  lock exactly when it says so, and always while it moves or holds) and touches the lock only to
  take it when free or to give up its own hold (\<open>lock_step\<close>).
\<close>

subsection \<open>The invariant and the effect on the lock\<close>

definition chan_ok :: "'d stepper_channel \<Rightarrow> bool" where
  "chan_ok c \<longleftrightarrow>
     channel_id (ch_cfg c) \<noteq> - 1 \<and>
     (case ch_lock c of
        None \<Rightarrow> \<not> lock_held c
      | Some l \<Rightarrow> (lock_held c \<longleftrightarrow> lock_holder l = channel_id (ch_cfg c)) \<and> (mode c \<noteq> Idle \<longrightarrow> lock_held c))"

definition lock_step :: "int \<Rightarrow> motion_lock option \<Rightarrow> motion_lock option \<Rightarrow> bool" where
  "lock_step m l l' \<longleftrightarrow>
     l' = l \<or>
     (\<exists>a b. l = Some a \<and> l' = Some b \<and> {lock_holder a, lock_holder b} \<subseteq> {- 1, m})"

definition chan_step :: "'d stepper_channel \<Rightarrow> 'd stepper_channel \<Rightarrow> bool" where
  "chan_step c c' \<longleftrightarrow>
     chan_ok c \<longrightarrow>
       chan_ok c' \<and> channel_id (ch_cfg c') = channel_id (ch_cfg c) \<and>
       lock_step (channel_id (ch_cfg c)) (ch_lock c) (ch_lock c')"

lemma lock_step_refl [simp]: "lock_step m l l"
  by (simp add: lock_step_def)

lemma lock_step_trans: "lock_step m a b \<Longrightarrow> lock_step m b d \<Longrightarrow> lock_step m a d"
  by (auto simp: lock_step_def)

lemma chan_step_refl [simp]: "chan_step c c"
  by (simp add: chan_step_def)

lemma chan_step_trans: "chan_step a b \<Longrightarrow> chan_step b c \<Longrightarrow> chan_step a c"
  by (auto simp: chan_step_def intro: lock_step_trans)

text \<open>Steps that leave the lock alone.\<close>

definition same_motion :: "'d stepper_channel \<Rightarrow> 'd stepper_channel \<Rightarrow> bool" where
  "same_motion c c' \<longleftrightarrow>
     channel_id (ch_cfg c') = channel_id (ch_cfg c) \<and> ch_lock c' = ch_lock c \<and>
     lock_held c' = lock_held c \<and> mode c' = mode c"

lemma same_motion_step: "same_motion c c' \<Longrightarrow> chan_step c c'"
  by (auto simp: same_motion_def chan_step_def chan_ok_def split: option.splits)

lemma same_motion_refl [simp]: "same_motion c c" by (simp add: same_motion_def)

lemma same_motion_trans: "same_motion a b \<Longrightarrow> same_motion b c \<Longrightarrow> same_motion a c"
  by (simp add: same_motion_def)

named_theorems motion_frame "operations that leave lock and mode alone"

lemma same_absorb [motion_frame]: "same_motion c (snd (absorb_driver_step_loss ops c))"
  by (auto simp: absorb_driver_step_loss_def same_motion_def Let_def split: option.splits prod.splits)

lemma same_latch [motion_frame]: "same_motion c (latch_step_loss r c)"
  by (simp add: latch_step_loss_def same_motion_def)

lemma same_ramp [motion_frame]: "same_motion c (update_ramp_speed dt r c)"
  by (simp add: update_ramp_speed_def same_motion_def Let_def)

lemma same_report [motion_frame]: "same_motion c (report_step_rate ops c)"
  by (simp add: report_step_rate_def same_motion_def Let_def split: option.splits)

lemma same_driver: "same_motion c (c\<lparr>ch_driver := d\<rparr>)" by (simp add: same_motion_def)

lemma same_confirm [motion_frame]: "same_motion c (confirm_target ops c)"
  by (auto simp: confirm_target_def split: option.splits
      intro: same_motion_trans [OF same_driver same_absorb])

lemma same_retry [motion_frame]: "same_motion c (tick_retry ops now d c)"
proof -
  have "same_motion c (snd (absorb_driver_step_loss ops (c\<lparr>last_driver_retry := t, ch_driver := x, enabled := e\<rparr>)))"
    "same_motion c (snd (absorb_driver_step_loss ops (c\<lparr>last_driver_retry := t, ch_driver := x\<rparr>)))" for t x e
    by (rule same_motion_trans [OF _ same_absorb]; simp add: same_motion_def)+
  then show ?thesis by (simp add: tick_retry_def Let_def split: prod.splits)
qed

subsection \<open>Ending a motion\<close>

text \<open>\<open>c'\<close> differs from \<open>c\<close> by ending its motion, before the lock is released.\<close>

definition ends_motion :: "'d stepper_channel \<Rightarrow> 'd stepper_channel \<Rightarrow> bool" where
  "ends_motion c c' \<longleftrightarrow>
     channel_id (ch_cfg c') = channel_id (ch_cfg c) \<and> ch_lock c' = ch_lock c \<and>
     lock_held c' = lock_held c \<and> mode c' = Idle"

lemma release_ends: "ends_motion c c' \<Longrightarrow> chan_step c (release_lock_if_held c')"
  by (auto simp: ends_motion_def chan_step_def chan_ok_def release_lock_if_held_def release_def
      lock_holder_def lock_step_def split: option.splits)

lemma release_mode [simp]:
  "mode (release_lock_if_held c) = mode c" "position (release_lock_if_held c) = position c"
  "target (release_lock_if_held c) = target c" "enabled (release_lock_if_held c) = enabled c"
  "ch_cfg (release_lock_if_held c) = ch_cfg c" "retract_target (release_lock_if_held c) = retract_target c"
  "ch_driver (release_lock_if_held c) = ch_driver c" "moving (release_lock_if_held c) = moving c"
  "step_loss_events (release_lock_if_held c) = step_loss_events c"
  "position_uncertain (release_lock_if_held c) = position_uncertain c"
  "current_step_hz (release_lock_if_held c) = current_step_hz c"
  by (simp_all add: release_lock_if_held_def split: option.splits)

lemma release_frees:
  "chan_ok c \<Longrightarrow> ch_lock (release_lock_if_held c) = Some l \<Longrightarrow>
     lock_holder l \<noteq> channel_id (ch_cfg c) \<and> \<not> lock_held (release_lock_if_held c)"
  by (auto simp: release_lock_if_held_def chan_ok_def release_def lock_holder_def split: option.splits if_splits)

lemma step_abort: "chan_step c (abort_move_for_step_loss c)"
  unfolding abort_move_for_step_loss_def by (rule release_ends) (simp add: ends_motion_def)

lemma step_refused: "chan_step c (refused_step ops b c)"
  unfolding refused_step_def Let_def
  by (auto split: option.splits intro!: release_ends simp: ends_motion_def latch_step_loss_def)

lemma step_overtemp: "chan_step c (overtemp_stop ops d c)"
  unfolding overtemp_stop_def Let_def by (rule release_ends) (simp add: ends_motion_def latch_step_loss_def)

lemma step_issue_loop: "chan_step c (snd (issue_loop ops fwd n k c))"
proof (induction ops fwd n k c rule: issue_loop.induct)
  case (2 ops fwd n k c)
  show ?case
  proof (cases "ch_driver c")
    case (Some d)
    obtain ok d1 where s: "drv_step ops fwd d = (ok, d1)" by (cases "drv_step ops fwd d")
    obtain stop c1 where a: "absorb_driver_step_loss ops (c\<lparr>ch_driver := Some d1\<rparr>) = (stop, c1)"
      by (cases "absorb_driver_step_loss ops (c\<lparr>ch_driver := Some d1\<rparr>)")
    have "same_motion c c1"
      using same_motion_trans [OF same_driver same_absorb [of "c\<lparr>ch_driver := Some d1\<rparr>" ops]] a by simp
    define c2 where "c2 = (if ok then c1\<lparr>position := position c1 + (if fwd then 1 else - 1)\<rparr> else c1)"
    define k2 where "k2 = (if ok then k + 1 else k)"
    have c2: "chan_step c c2"
      using \<open>same_motion c c1\<close> by (intro same_motion_step) (simp add: c2_def same_motion_def)
    have eq: "issue_loop ops fwd (Suc n) k c =
        (if stop then (k2, abort_move_for_step_loss c2)
         else if \<not> ok then (k2, refused_step ops (step_loss_events c) c2)
         else issue_loop ops fwd n k2 c2)"
      by (simp add: Some s a c2_def k2_def Let_def)
    have "chan_step c2 (snd (issue_loop ops fwd n k2 c2))" if "\<not> stop" "ok"
      using 2 [OF Some refl s [symmetric] refl a [symmetric] refl _ refl, of k2 c2] that
      by (simp add: c2_def k2_def)
    then show ?thesis unfolding eq
      using chan_step_trans [OF c2 step_abort] chan_step_trans [OF c2 step_refused] chan_step_trans [OF c2]
      by simp
  qed simp
qed simp

lemma step_issue_pulses: "chan_step c (snd (issue_pulses ops n c))"
proof -
  obtain k c1 where i: "issue_loop ops (position c < target c)
      (nat (if \<bar>target c - position c\<bar> < n then \<bar>target c - position c\<bar> else n)) 0 c = (k, c1)"
    by fastforce
  then have "chan_step c c1" using step_issue_loop by (metis snd_conv)
  moreover from this have "chan_step c (confirm_target ops c1)"
    by (rule chan_step_trans [OF _ same_motion_step [OF same_confirm]])
  ultimately show ?thesis by (simp add: issue_pulses_def i Let_def)
qed

subsection \<open>The tick\<close>

text \<open>A change that neither starts a motion nor ends one.\<close>

lemma step_active:
  assumes "channel_id (ch_cfg c') = channel_id (ch_cfg c)" "ch_lock c' = ch_lock c"
    "lock_held c' = lock_held c" "mode c \<noteq> Idle"
  shows "chan_step c c'"
  using assms by (auto simp: chan_step_def chan_ok_def split: option.splits)

lemma step_tick_driver: "chan_step c (snd (tick_driver ops now c))"
proof (cases "ch_driver c")
  case (Some d)
  let ?d = "snd (drv_poll ops (drv_note_step_rate ops 0 False d))"
  obtain stop c1 where a: "absorb_driver_step_loss ops (c\<lparr>ch_driver := Some ?d\<rparr>) = (stop, c1)"
    by fastforce
  have "same_motion c c1"
    using same_motion_trans [OF same_driver same_absorb [of "c\<lparr>ch_driver := Some ?d\<rparr>" ops]] a by simp
  then have "chan_step c c1" by (rule same_motion_step)
  moreover from this have "chan_step c (abort_move_for_step_loss c1)" by (rule chan_step_trans [OF _ step_abort])
  moreover have "chan_step c (tick_retry ops now d c)" by (rule same_motion_step [OF same_retry])
  ultimately show ?thesis by (simp add: tick_driver_def Some a Let_def)
qed (simp add: tick_driver_def)

lemma step_tick_hold: "mode c = Holding \<Longrightarrow> chan_step c (tick_hold dt c)"
  by (auto simp: tick_hold_def Let_def intro!: release_ends step_active simp: ends_motion_def)

lemma step_tick_terminus: "mode c \<noteq> Idle \<Longrightarrow> chan_step c (tick_terminus c)"
  by (auto simp: tick_terminus_def intro!: release_ends step_active simp: ends_motion_def)

lemma step_tick_arrived: "chan_step c (tick_arrived c)"
  by (auto simp: tick_arrived_def Let_def intro!: release_ends step_active simp: ends_motion_def)

lemma step_tick_pulses: "chan_step c (tick_pulses ops dt c)"
proof -
  define c1 where "c1 = report_step_rate ops (update_ramp_speed dt \<bar>target c - position c\<bar> c)"
  have "chan_step c c1"
    unfolding c1_def by (intro same_motion_step same_motion_trans [OF same_ramp same_report])
  moreover have "chan_step c1 (c1\<lparr>fractional_steps := f\<rparr>)" for f
    by (rule same_motion_step) (simp add: same_motion_def)
  ultimately have p: "chan_step c (snd (issue_pulses ops n (c1\<lparr>fractional_steps := f\<rparr>)))" for n f
    by (blast intro: chan_step_trans step_issue_pulses)
  have m: "chan_step c (x\<lparr>moving := m\<rparr>)" if "chan_step c x" for x m
    using that by (rule chan_step_trans) (rule same_motion_step, simp add: same_motion_def)
  have "chan_step c (let x = x\<lparr>moving := m x\<rparr> in if moving x then x else tick_arrived x)"
    if "chan_step c x" for x m
    using m [OF that] chan_step_trans [OF m [OF that] step_tick_arrived] by (simp add: Let_def)
  from this [OF p] show ?thesis
    unfolding tick_pulses_def Let_def c1_def [symmetric] .
qed

lemma step_tick_motion: "chan_step c (tick_motion ops dt c)"
proof -
  have "chan_step c (c\<lparr>moving := m, current_step_hz := h\<rparr>)" "chan_step c (c\<lparr>moving := m\<rparr>)" for m h
    by (rule same_motion_step; simp add: same_motion_def)+
  then show ?thesis
    by (auto simp: tick_motion_def step_tick_hold step_tick_terminus step_tick_pulses)
qed

lemma step_channel_tick: "chan_step c (channel_tick ops now dt c)"
proof -
  obtain e c1 where t: "tick_driver ops now c = (e, c1)" by fastforce
  then have c1: "chan_step c c1" using step_tick_driver by (metis snd_conv)
  have "chan_step c (overtemp_stop ops d c1)" "chan_step c (tick_motion ops dt c1)" for d
    by (rule chan_step_trans [OF c1 step_overtemp], rule chan_step_trans [OF c1 step_tick_motion])
  with c1 show ?thesis by (simp add: channel_tick_def t split: option.splits)
qed

lemma step_pulse_round: "chan_step c (pulse_round ops dt c)"
proof -
  have "chan_step c (snd (issue_pulses ops 1 (report_step_rate ops (update_ramp_speed d r c))))" for d r
    by (rule chan_step_trans [OF same_motion_step [OF same_motion_trans [OF same_ramp same_report]] step_issue_pulses])
  moreover have "chan_step c (update_ramp_speed d r c)" for d r by (rule same_motion_step [OF same_ramp])
  ultimately show ?thesis by (simp add: pulse_round_def Let_def)
qed

lemma step_pump: "chan_step c (pump_ticks ops n nows c)"
proof (induction ops n nows c rule: pump_ticks.induct)
  case (3 ops n now nows c)
  let ?c = "channel_tick ops now (to_dbl (1 / 1000)) c"
  have "chan_step c ?c" by (rule step_channel_tick)
  moreover from this have "chan_step c (pump_ticks ops n nows ?c)" if "mode ?c \<noteq> Idle"
    using 3 [OF refl that] by (rule chan_step_trans)
  ultimately show ?case by (simp add: Let_def)
qed simp_all

subsection \<open>Commands\<close>

lemma acquire_cases:
  "acquire_lock_for_motion c = (r, c1) \<Longrightarrow>
     chan_step c c1 \<and> (r = None \<longrightarrow> ch_lock c1 = None \<or> lock_held c1)"
  by (auto simp: acquire_lock_for_motion_def try_acquire_def chan_step_def chan_ok_def lock_step_def
      lock_holder_def split: option.splits if_splits)

lemma acquire_fields:
  assumes "acquire_lock_for_motion c = (r, c1)"
  shows "position c1 = position c" "target c1 = target c" "mode c1 = mode c" "ch_cfg c1 = ch_cfg c"
    "enabled c1 = enabled c" "retract_target c1 = retract_target c" "ch_driver c1 = ch_driver c"
    "step_loss_events c1 = step_loss_events c" "position_uncertain c1 = position_uncertain c"
    "moving c1 = moving c" "ch_lock c = None \<longleftrightarrow> ch_lock c1 = None"
  using assms by (auto simp: acquire_lock_for_motion_def split: option.splits prod.splits bool.splits if_splits)

text \<open>After a lock was taken (or none is needed) any mode may be entered.\<close>

lemma step_start:
  assumes "ch_lock c = None \<or> lock_held c" "channel_id (ch_cfg c') = channel_id (ch_cfg c)"
    "ch_lock c' = ch_lock c" "lock_held c' = lock_held c"
  shows "chan_step c c'"
  using assms by (auto simp: chan_step_def chan_ok_def split: option.splits)

lemma step_idle:
  assumes "channel_id (ch_cfg c') = channel_id (ch_cfg c)"
    "ch_lock c' = ch_lock c" "lock_held c' = lock_held c" "mode c' = Idle"
  shows "chan_step c c'"
  using assms by (auto simp: chan_step_def chan_ok_def split: option.splits)

lemma step_command:
  assumes "(if b then acquire_lock_for_motion c else (None, c)) = (r, c1)"
    and "r \<noteq> None \<longrightarrow> c' = c1"
    and "r = None \<longrightarrow> channel_id (ch_cfg c') = channel_id (ch_cfg c1) \<and> ch_lock c' = ch_lock c1 \<and>
      lock_held c' = lock_held c1 \<and> (\<not> b \<longrightarrow> mode c' = Idle)"
  shows "chan_step c c'"
proof (cases b)
  case True
  with assms(1) have a: "acquire_lock_for_motion c = (r, c1)" by simp
  show ?thesis
  proof (cases "r = None")
    case True
    with acquire_cases [OF a] assms(3) have "chan_step c1 c'" by (intro step_start) auto
    with acquire_cases [OF a] show ?thesis by (blast intro: chan_step_trans)
  qed (use acquire_cases [OF a] assms(2) in simp)
next
  case False
  with assms show ?thesis by (intro step_idle) auto
qed

lemma step_move_steps: "chan_step c (snd (move_steps d c))"
proof -
  obtain r c1 where a: "(if target c + d \<noteq> position c then acquire_lock_for_motion c else (None, c)) = (r, c1)"
    by fastforce
  have "position c1 = position c" using a acquire_fields(1) [of c r c1] by (auto split: if_splits)
  then have "chan_step c (case (r, c1) of (Some e, c) \<Rightarrow> c
      | (None, c) \<Rightarrow> (let c = c\<lparr>target := t, hold_remaining_s := 0, retract_target := position c,
                        retract_after_hold := False\<rparr>;
                  c = c\<lparr>mode := (if position c \<noteq> target c then Moving else Idle)\<rparr>
              in c\<lparr>moving := (mode c = Moving), last_source := ''cmd:MOVE''\<rparr>))" if "t = target c + d" for t
    using that by (intro step_command [OF a]) (auto simp: Let_def split: option.splits)
  then show ?thesis
    unfolding move_steps_def Let_def a by (auto split: option.splits)
qed

lemma step_move_to_steps: "chan_step c (snd (move_to_steps g h c))"
proof -
  obtain r c1 where a: "(if position c \<noteq> g \<or> 0 < h then acquire_lock_for_motion c else (None, c)) = (r, c1)"
    by fastforce
  have "position c1 = position c" using a acquire_fields(1) [of c r c1] by (auto split: if_splits)
  then have "chan_step c (case (r, c1) of (Some e, c) \<Rightarrow> c
      | (None, c) \<Rightarrow> (let c = c\<lparr>target := g, hold_remaining_s := h, retract_target := position c,
                        retract_after_hold := False\<rparr>;
                  c = c\<lparr>mode := (if position c \<noteq> target c then Moving else if 0 < h then Holding else Idle)\<rparr>
              in c\<lparr>moving := (mode c = Moving), last_source := ''cmd:BEND''\<rparr>))"
    by (intro step_command [OF a]) (auto simp: Let_def split: option.splits)
  then show ?thesis
    unfolding move_to_steps_def Let_def a by (auto split: option.splits)
qed

lemma step_home: "chan_step c (snd (home c))"
proof -
  obtain r c1 where a: "(if position c \<noteq> 0 then acquire_lock_for_motion c else (None, c)) = (r, c1)"
    by fastforce
  have "position c1 = position c" using a acquire_fields(1) [of c r c1] by (auto split: if_splits)
  then have "chan_step c (case (r, c1) of (Some e, c) \<Rightarrow> c
      | (None, c) \<Rightarrow> (let c = c\<lparr>target := 0, hold_remaining_s := 0, retract_target := 0,
                        retract_after_hold := False\<rparr>;
                  c = c\<lparr>mode := (if position c \<noteq> 0 then Moving else Idle)\<rparr>
              in c\<lparr>moving := (mode c = Moving), last_source := ''cmd:HOME''\<rparr>))"
    by (intro step_command [OF a]) (auto simp: Let_def split: option.splits)
  then show ?thesis
    unfolding home_def Let_def a by (auto split: option.splits)
qed

lemma step_with_source: "chan_step c (snd r) \<Longrightarrow> chan_step c (snd (with_source s r))"
proof -
  assume "chan_step c (snd r)"
  moreover have "chan_step x (x\<lparr>last_source := s\<rparr>)" for x :: "'a stepper_channel"
    by (rule same_motion_step) (simp add: same_motion_def)
  ultimately show ?thesis
    by (auto simp: with_source_def split: prod.splits option.splits intro: chan_step_trans)
qed

lemma step_move_millimeters: "chan_step c (snd (move_millimeters d c))"
  by (simp add: move_millimeters_def Let_def step_with_source step_move_steps)

lemma step_move_to_millimeters: "chan_step c (snd (move_to_millimeters g h c))"
  by (simp add: move_to_millimeters_def Let_def step_with_source step_move_to_steps)

lemma step_rotate: "chan_step c (snd (rotate_motor r c))"
  by (simp add: rotate_motor_def step_move_steps)

lemma step_set_position_zero: "chan_step c (set_position_zero c)"
  unfolding set_position_zero_def by (rule release_ends) (simp add: ends_motion_def)

lemma step_stop_motion: "chan_step c (stop_motion c)"
  unfolding stop_motion_def by (rule release_ends) (simp add: ends_motion_def)

lemma step_settings:
  "chan_step c (snd (set_speed hz c))" "chan_step c (snd (set_accel a c))"
  "chan_step c (snd (set_run_current ops a c))" "chan_step c (acknowledge_step_loss c)"
  "chan_step c (note_missed_deadline c)"
  by (auto simp: set_speed_def set_accel_def set_run_current_def acknowledge_step_loss_def note_missed_deadline_def
      same_motion_def Let_def split: option.splits prod.splits intro!: same_motion_step)

lemma step_set_microstep: "chan_step c (snd (set_microstep ops n c))"
  by (auto simp: set_microstep_def rescale_def same_motion_def Let_def split: option.splits intro!: same_motion_step)

lemma step_set_enabled: "chan_step c (snd (set_enabled ops en c))"
proof (cases "ch_driver c")
  case (Some d)
  obtain ok d1 where e: "drv_enable ops en d = (ok, d1)" by fastforce
  have "chan_step c (release_lock_if_held
      (c1\<lparr>enabled := False, moving := False, mode := Idle, current_step_hz := 0\<rparr>))"
    if "same_motion (c\<lparr>ch_driver := Some d1\<rparr>) c1" for c1
    using that by (intro release_ends) (simp add: ends_motion_def same_motion_def)
  moreover have "chan_step c (c\<lparr>ch_driver := Some d1\<rparr>)" "chan_step c (c\<lparr>ch_driver := Some d1, enabled := True\<rparr>)"
    by (rule same_motion_step; simp add: same_motion_def)+
  ultimately show ?thesis by (simp add: set_enabled_def Some e Let_def same_latch)
qed (simp add: set_enabled_def)

lemma step_arm_pull: "chan_step c (snd (arm_pull_cycle c))"
proof (cases "\<not> enabled c")
  case False
  define l' where "l' = map_option (\<lambda>l. snd (try_acquire (channel_id (ch_cfg c)) l)) (ch_lock c)"
  define ok where "ok = (case ch_lock c of None \<Rightarrow> True | Some l \<Rightarrow> fst (try_acquire (channel_id (ch_cfg c)) l))"
  have eq: "(case ch_lock c of None \<Rightarrow> (True, c)
      | Some l \<Rightarrow> (let (ok, l) = try_acquire (channel_id (ch_cfg c)) l in (ok, c\<lparr>ch_lock := Some l\<rparr>))) =
      (ok, c\<lparr>ch_lock := l'\<rparr>)"
    by (simp add: l'_def ok_def split: option.splits prod.splits)
  have taken: "chan_step c c'"
    if "ok" "ch_lock c' = l'" "lock_held c' = (l' \<noteq> None)" "channel_id (ch_cfg c') = channel_id (ch_cfg c)" for c'
    using that by (auto simp: chan_step_def chan_ok_def l'_def ok_def try_acquire_def lock_holder_def
        lock_step_def split: option.splits if_splits)
  have refused: "\<not> ok \<Longrightarrow> chan_step c (c\<lparr>ch_lock := l'\<rparr>)"
    by (auto simp: chan_step_def chan_ok_def l'_def ok_def try_acquire_def lock_holder_def
        lock_step_def split: option.splits if_splits)
  have released: "chan_step c (release_lock_if_held (c\<lparr>ch_lock := l', lock_held := (l' \<noteq> None),
      retract_target := 0, retract_after_hold := True\<rparr>))" if ok
    using that
    by (auto simp: chan_step_def chan_ok_def l'_def ok_def try_acquire_def lock_holder_def release_def
        release_lock_if_held_def lock_step_def split: option.splits if_splits)
  show ?thesis
    unfolding arm_pull_cycle_def eq using False refused released taken by (simp add: Let_def)
qed (simp add: arm_pull_cycle_def)

lemma step_execute_pull: "chan_step c (snd (execute_pull_cycle ops nows c))"
proof -
  obtain r c1 where a: "arm_pull_cycle c = (r, c1)" by fastforce
  with step_arm_pull [of c] have "chan_step c c1" by simp
  moreover from this have "chan_step c (pump_ticks ops 60000 nows c1)" by (rule chan_step_trans [OF _ step_pump])
  ultimately show ?thesis by (simp add: execute_pull_cycle_def a split: option.splits)
qed

end
