(* ===== verification/StepperController.thy ===== *)
theory StepperController
  imports StepperMotion
begin

text \<open>
  The motors together (\<^verbatim>\<open>stepper_controller.cpp\<close>): the channels, the one motion lock they share,
  and the commands dispatched by motor id.  A call lends the shared lock to the channel and takes it
  back.  The commands without a motor id are those of motor 0.
\<close>

record stepper_config =
  steps_per_rev :: int
  legacy_microstep :: int
  legacy_default_step_hz :: dbl
  legacy_max_step_hz :: dbl
  legacy_max_position_steps :: int
  legacy_enable_on_boot :: bool

record 'd stepper_controller =
  shared_lock :: motion_lock
  channels :: "'d stepper_channel list"

definition build_legacy_channel_config :: "stepper_config \<Rightarrow> channel_config" where
  "build_legacy_channel_config cfg =
     (let m = max 1 (legacy_microstep cfg); ratio = dbl_of_int m in
      channel_default
        \<lparr>channel_id := 0, full_steps_per_rev := steps_per_rev cfg, cfg_microstep := m,
         default_step_hz := legacy_default_step_hz cfg / ratio, max_step_hz := legacy_max_step_hz cfg / ratio,
         accel_steps_per_s2 := Fin 1000000000000, max_position_steps := legacy_max_position_steps cfg,
         ch_samples := [0, 1, 2, 3], enable_on_boot := legacy_enable_on_boot cfg,
         use_pulse_thread := False\<rparr>)"

definition new_legacy_controller ::
  "'d driver_ops \<Rightarrow> stepper_config \<Rightarrow> 'd option \<Rightarrow> 'd stepper_controller" where
  "new_legacy_controller ops cfg drv =
     \<lparr>shared_lock = new_motion_lock,
      channels = [new_channel ops (build_legacy_channel_config cfg) drv (Some new_motion_lock)]\<rparr>"

definition new_controller ::
  "'d driver_ops \<Rightarrow> channel_config list \<Rightarrow> 'd option list \<Rightarrow> string + 'd stepper_controller" where
  "new_controller ops cfgs drvs =
     (if length cfgs \<noteq> length drvs
      then Inl ''StepperController: channel config / driver count mismatch''
      else Inr \<lparr>shared_lock = new_motion_lock,
        channels = map (\<lambda>(cfg, drv). new_channel ops cfg drv (Some new_motion_lock)) (zip cfgs drvs)\<rparr>)"

subsection \<open>Dispatch\<close>

fun find_motor :: "int \<Rightarrow> 'd stepper_channel list \<Rightarrow> nat option" where
  "find_motor m [] = None"
| "find_motor m (c # cs) =
     (if channel_id (ch_cfg c) = m then Some 0 else map_option Suc (find_motor m cs))"

definition channel_by_id :: "int \<Rightarrow> 'd stepper_controller \<Rightarrow> 'd stepper_channel option" where
  "channel_by_id m t = map_option (\<lambda>i. channels t ! i) (find_motor m (channels t))"

definition lend :: "motion_lock \<Rightarrow> 'd stepper_channel \<Rightarrow> 'd stepper_channel" where
  "lend l c = c\<lparr>ch_lock := Some l\<rparr>"

text \<open>The call \<open>f\<close> on channel \<open>i\<close>, and on the channel of a motor, with the value \<open>other\<close> when there is none.\<close>

definition call_channel ::
  "nat \<Rightarrow> ('d stepper_channel \<Rightarrow> 'r \<times> 'd stepper_channel) \<Rightarrow> 'd stepper_controller \<Rightarrow> 'r \<times> 'd stepper_controller" where
  "call_channel i f t =
     (let (r, c) = f (lend (shared_lock t) (channels t ! i))
      in (r, t\<lparr>shared_lock := the (ch_lock c), channels := (channels t)[i := c]\<rparr>))"

definition on_motor ::
  "int \<Rightarrow> 'r \<Rightarrow> ('d stepper_channel \<Rightarrow> 'r \<times> 'd stepper_channel) \<Rightarrow> 'd stepper_controller \<Rightarrow> 'r \<times> 'd stepper_controller" where
  "on_motor m other f t =
     (case find_motor m (channels t) of None \<Rightarrow> (other, t) | Some i \<Rightarrow> call_channel i f t)"

abbreviation unknown_motor :: "string option" where
  "unknown_motor \<equiv> Some ''unknown motor id''"

text \<open>A method without a result succeeds.\<close>

definition always :: "('d stepper_channel \<Rightarrow> 'd stepper_channel) \<Rightarrow> 'd stepper_channel \<Rightarrow> string option \<times> 'd stepper_channel" where
  "always f c = (None, f c)"

definition ctl_move_steps :: "int \<Rightarrow> int \<Rightarrow> 'd stepper_controller \<Rightarrow> string option \<times> 'd stepper_controller" where
  "ctl_move_steps m d = on_motor m unknown_motor (move_steps d)"

definition ctl_move_to_steps :: "int \<Rightarrow> int \<Rightarrow> dbl \<Rightarrow> 'd stepper_controller \<Rightarrow> string option \<times> 'd stepper_controller" where
  "ctl_move_to_steps m goal hold = on_motor m unknown_motor (move_to_steps goal hold)"

definition ctl_move_millimeters :: "int \<Rightarrow> dbl \<Rightarrow> 'd stepper_controller \<Rightarrow> string option \<times> 'd stepper_controller" where
  "ctl_move_millimeters m d = on_motor m unknown_motor (move_millimeters d)"

definition ctl_move_to_millimeters ::
  "int \<Rightarrow> dbl \<Rightarrow> dbl \<Rightarrow> 'd stepper_controller \<Rightarrow> string option \<times> 'd stepper_controller" where
  "ctl_move_to_millimeters m goal hold = on_motor m unknown_motor (move_to_millimeters goal hold)"

definition ctl_rotate :: "int \<Rightarrow> dbl \<Rightarrow> 'd stepper_controller \<Rightarrow> string option \<times> 'd stepper_controller" where
  "ctl_rotate m r = on_motor m unknown_motor (rotate_motor r)"

definition ctl_home :: "int \<Rightarrow> 'd stepper_controller \<Rightarrow> string option \<times> 'd stepper_controller" where
  "ctl_home m = on_motor m unknown_motor home"

definition ctl_set_position_zero ::
  "'d driver_ops \<Rightarrow> int \<Rightarrow> 'd stepper_controller \<Rightarrow> string option \<times> 'd stepper_controller" where
  "ctl_set_position_zero ops m =
     on_motor m unknown_motor
       (\<lambda>c. let s = snapshot ops c in
         if st_moving s \<or> st_holding s then (Some ''motor must be idle before zeroing'', c)
         else always set_position_zero c)"

definition ctl_acknowledge_step_loss :: "int \<Rightarrow> 'd stepper_controller \<Rightarrow> string option \<times> 'd stepper_controller" where
  "ctl_acknowledge_step_loss m = on_motor m unknown_motor (always acknowledge_step_loss)"

definition ctl_stop :: "int \<Rightarrow> 'd stepper_controller \<Rightarrow> string option \<times> 'd stepper_controller" where
  "ctl_stop m = on_motor m unknown_motor (always stop_motion)"

definition ctl_set_speed :: "int \<Rightarrow> dbl \<Rightarrow> 'd stepper_controller \<Rightarrow> string option \<times> 'd stepper_controller" where
  "ctl_set_speed m hz = on_motor m unknown_motor (set_speed hz)"

definition ctl_set_accel :: "int \<Rightarrow> dbl \<Rightarrow> 'd stepper_controller \<Rightarrow> string option \<times> 'd stepper_controller" where
  "ctl_set_accel m a = on_motor m unknown_motor (set_accel a)"

definition ctl_set_run_current ::
  "'d driver_ops \<Rightarrow> int \<Rightarrow> dbl \<Rightarrow> 'd stepper_controller \<Rightarrow> string option \<times> 'd stepper_controller" where
  "ctl_set_run_current ops m a = on_motor m unknown_motor (set_run_current ops a)"

definition ctl_set_microstep ::
  "'d driver_ops \<Rightarrow> int \<Rightarrow> int \<Rightarrow> 'd stepper_controller \<Rightarrow> string option \<times> 'd stepper_controller" where
  "ctl_set_microstep ops m n = on_motor m unknown_motor (set_microstep ops n)"

text \<open>A failed enable carries the text of the driver, empty when it has none.\<close>

definition ctl_set_enabled ::
  "'d driver_ops \<Rightarrow> int \<Rightarrow> bool \<Rightarrow> 'd stepper_controller \<Rightarrow> string option \<times> 'd stepper_controller" where
  "ctl_set_enabled ops m en =
     on_motor m unknown_motor
       (\<lambda>c. let (ok, c) = set_enabled ops en c in
         (if ok then None else Some (case ch_driver c of None \<Rightarrow> [] | Some d \<Rightarrow> drv_last_error ops d), c))"

definition ctl_arm_pull :: "int \<Rightarrow> 'd stepper_controller \<Rightarrow> string option \<times> 'd stepper_controller" where
  "ctl_arm_pull m = on_motor m unknown_motor arm_pull_cycle"

definition ctl_execute_pull ::
  "'d driver_ops \<Rightarrow> int \<Rightarrow> time_point list \<Rightarrow> 'd stepper_controller \<Rightarrow> string option \<times> 'd stepper_controller" where
  "ctl_execute_pull ops m nows = on_motor m unknown_motor (execute_pull_cycle ops nows)"

text \<open>\<^verbatim>\<open>Tick\<close>: every channel in order; \<open>now i\<close> is the clock as channel \<open>i\<close> reads it.\<close>

definition ctl_tick ::
  "'d driver_ops \<Rightarrow> (nat \<Rightarrow> time_point) \<Rightarrow> dbl \<Rightarrow> 'd stepper_controller \<Rightarrow> 'd stepper_controller" where
  "ctl_tick ops now dt t =
     fold (\<lambda>i t. snd (call_channel i (always (channel_tick ops (now i) dt)) t)) [0..<length (channels t)] t"

text \<open>The pulse thread of a channel.\<close>

definition ctl_pulse_round :: "'d driver_ops \<Rightarrow> int \<Rightarrow> dbl \<Rightarrow> 'd stepper_controller \<Rightarrow> 'd stepper_controller" where
  "ctl_pulse_round ops m elapsed t = snd (on_motor m None (always (pulse_round ops elapsed)) t)"

subsection \<open>Health\<close>

definition ctl_active_check_channel :: "'d driver_ops \<Rightarrow> 'd stepper_channel \<Rightarrow> bool \<times> 'd stepper_channel" where
  "ctl_active_check_channel ops c =
     (case ch_driver c of
        None \<Rightarrow> (False, c)
      | Some d \<Rightarrow> (let (ok, d) = drv_active_check ops d in (ok, c\<lparr>ch_driver := Some d\<rparr>)))"

definition ctl_active_check_motor :: "'d driver_ops \<Rightarrow> int \<Rightarrow> 'd stepper_controller \<Rightarrow> bool \<times> 'd stepper_controller" where
  "ctl_active_check_motor ops m =
     on_motor m False
       (\<lambda>c. let s = snapshot ops c in
         if st_moving s \<or> st_holding s then (False, c) else ctl_active_check_channel ops c)"

fun check_channels :: "'d driver_ops \<Rightarrow> bool \<Rightarrow> 'd stepper_channel list \<Rightarrow> bool \<times> 'd stepper_channel list" where
  "check_channels ops healthy [] = (healthy, [])"
| "check_channels ops healthy (c # cs) =
     (let s = snapshot ops c in
      if st_moving s \<or> st_holding s then (False, c # cs)
      else
        (let (ok, c) = ctl_active_check_channel ops c;
             (h, cs) = check_channels ops (ok \<and> healthy) cs
         in (h, c # cs)))"

definition ctl_active_check :: "'d driver_ops \<Rightarrow> 'd stepper_controller \<Rightarrow> bool \<times> 'd stepper_controller" where
  "ctl_active_check ops t =
     (if channels t = [] then (False, t)
      else let (h, cs) = check_channels ops True (channels t) in (h, t\<lparr>channels := cs\<rparr>))"

definition ctl_healthy :: "'d driver_ops \<Rightarrow> int \<Rightarrow> 'd stepper_controller \<Rightarrow> bool" where
  "ctl_healthy ops m t = (case channel_by_id m t of None \<Rightarrow> False | Some c \<Rightarrow> channel_healthy ops c)"

definition ctl_all_healthy :: "'d driver_ops \<Rightarrow> 'd stepper_controller \<Rightarrow> bool" where
  "ctl_all_healthy ops t \<longleftrightarrow> channels t \<noteq> [] \<and> list_all (channel_healthy ops) (channels t)"

definition ctl_spi_bus_ok :: "'d driver_ops \<Rightarrow> 'd stepper_controller \<Rightarrow> bool" where
  "ctl_spi_bus_ok ops t \<longleftrightarrow>
     list_all (\<lambda>c. case ch_driver c of None \<Rightarrow> True | Some d \<Rightarrow> drv_spi_bus_ok ops d) (channels t)"

definition ctl_samples_for_motor :: "int \<Rightarrow> 'd stepper_controller \<Rightarrow> nat list" where
  "ctl_samples_for_motor m t = (case channel_by_id m t of None \<Rightarrow> [] | Some c \<Rightarrow> ch_samples (ch_cfg c))"

subsection \<open>Histories\<close>

datatype motor_op =
    MoveSteps int | MoveToSteps int dbl | MoveMillimeters dbl | MoveToMillimeters dbl dbl | Rotate dbl
  | Home | SetPositionZero | AcknowledgeStepLoss | Stop | SetSpeed dbl | SetAccel dbl | SetRunCurrent dbl
  | SetMicrostep int | SetEnabled bool | ArmPull | ExecutePull "time_point list" | ActiveCheck | PulseRound dbl

datatype ctl_op = Motor int motor_op | Tick "nat \<Rightarrow> time_point" dbl

fun motor_command ::
  "'d driver_ops \<Rightarrow> int \<Rightarrow> motor_op \<Rightarrow> 'd stepper_controller \<Rightarrow> 'd stepper_controller" where
  "motor_command ops m (MoveSteps d) t = snd (ctl_move_steps m d t)"
| "motor_command ops m (MoveToSteps g h) t = snd (ctl_move_to_steps m g h t)"
| "motor_command ops m (MoveMillimeters d) t = snd (ctl_move_millimeters m d t)"
| "motor_command ops m (MoveToMillimeters g h) t = snd (ctl_move_to_millimeters m g h t)"
| "motor_command ops m (Rotate r) t = snd (ctl_rotate m r t)"
| "motor_command ops m Home t = snd (ctl_home m t)"
| "motor_command ops m SetPositionZero t = snd (ctl_set_position_zero ops m t)"
| "motor_command ops m AcknowledgeStepLoss t = snd (ctl_acknowledge_step_loss m t)"
| "motor_command ops m Stop t = snd (ctl_stop m t)"
| "motor_command ops m (SetSpeed hz) t = snd (ctl_set_speed m hz t)"
| "motor_command ops m (SetAccel a) t = snd (ctl_set_accel m a t)"
| "motor_command ops m (SetRunCurrent a) t = snd (ctl_set_run_current ops m a t)"
| "motor_command ops m (SetMicrostep n) t = snd (ctl_set_microstep ops m n t)"
| "motor_command ops m (SetEnabled en) t = snd (ctl_set_enabled ops m en t)"
| "motor_command ops m ArmPull t = snd (ctl_arm_pull m t)"
| "motor_command ops m (ExecutePull nows) t = snd (ctl_execute_pull ops m nows t)"
| "motor_command ops m ActiveCheck t = snd (ctl_active_check_motor ops m t)"
| "motor_command ops m (PulseRound dt) t = ctl_pulse_round ops m dt t"

fun ctl_step :: "'d driver_ops \<Rightarrow> ctl_op \<Rightarrow> 'd stepper_controller \<Rightarrow> 'd stepper_controller" where
  "ctl_step ops (Motor m x) t = motor_command ops m x t"
| "ctl_step ops (Tick now dt) t = ctl_tick ops now dt t"

definition ctl_run :: "'d driver_ops \<Rightarrow> 'd stepper_controller \<Rightarrow> ctl_op list \<Rightarrow> 'd stepper_controller" where
  "ctl_run ops t xs = fold (ctl_step ops) xs t"

end
