(* ===== verification/MotionProperties.thy ===== *)
theory MotionProperties
  imports StepperController
begin

text \<open>
  What the motors promise over any history of commands, ticks and pulse rounds: one motor at a time,
  travel and speed within their limits, the step-loss latch, and the lock given up by the commands
  that end a motion.
\<close>

subsection \<open>A command as a change of one channel\<close>

fun chan_op :: "'d driver_ops \<Rightarrow> motor_op \<Rightarrow> 'd stepper_channel \<Rightarrow> 'd stepper_channel" where
  "chan_op ops (MoveSteps d) c = snd (move_steps d c)"
| "chan_op ops (MoveToSteps g h) c = snd (move_to_steps g h c)"
| "chan_op ops (MoveMillimeters d) c = snd (move_millimeters d c)"
| "chan_op ops (MoveToMillimeters g h) c = snd (move_to_millimeters g h c)"
| "chan_op ops (Rotate r) c = snd (rotate_motor r c)"
| "chan_op ops Home c = snd (home c)"
| "chan_op ops SetPositionZero c = (if moving c \<or> mode c = Holding then c else set_position_zero c)"
| "chan_op ops AcknowledgeStepLoss c = acknowledge_step_loss c"
| "chan_op ops Stop c = stop_motion c"
| "chan_op ops (SetSpeed hz) c = snd (set_speed hz c)"
| "chan_op ops (SetAccel a) c = snd (set_accel a c)"
| "chan_op ops (SetRunCurrent a) c = snd (set_run_current ops a c)"
| "chan_op ops (SetMicrostep n) c = snd (set_microstep ops n c)"
| "chan_op ops (SetEnabled en) c = snd (set_enabled ops en c)"
| "chan_op ops ArmPull c = snd (arm_pull_cycle c)"
| "chan_op ops (ExecutePull nows) c = snd (execute_pull_cycle ops nows c)"
| "chan_op ops ActiveCheck c =
     (if moving c \<or> mode c = Holding then c else snd (ctl_active_check_channel ops c))"
| "chan_op ops (PulseRound dt) c = pulse_round ops dt c"

definition change_channel ::
  "nat \<Rightarrow> ('d stepper_channel \<Rightarrow> 'd stepper_channel) \<Rightarrow> 'd stepper_controller \<Rightarrow> 'd stepper_controller" where
  "change_channel i f t =
     (let c = f (lend (shared_lock t) (channels t ! i))
      in t\<lparr>shared_lock := the (ch_lock c), channels := (channels t)[i := c]\<rparr>)"

lemma snd_call_channel: "snd (call_channel i f t) = change_channel i (snd \<circ> f) t"
  by (simp add: call_channel_def change_channel_def Let_def split: prod.splits)

lemma snd_on_motor:
  "snd (on_motor m r f t) =
     (case find_motor m (channels t) of None \<Rightarrow> t | Some i \<Rightarrow> change_channel i (snd \<circ> f) t)"
  by (simp add: on_motor_def snd_call_channel split: option.splits)

lemma motor_command_eq:
  "motor_command ops m x t =
     (case find_motor m (channels t) of None \<Rightarrow> t | Some i \<Rightarrow> change_channel i (chan_op ops x) t)"
proof -
  have eq: "snd (on_motor m r f t) =
      (case find_motor m (channels t) of None \<Rightarrow> t | Some i \<Rightarrow> change_channel i g t)"
    if "\<And>c. snd (f c) = g c" for r :: "string option" and f g
    unfolding snd_on_motor comp_def that ..
  have eqb: "snd (on_motor m r f t) =
      (case find_motor m (channels t) of None \<Rightarrow> t | Some i \<Rightarrow> change_channel i g t)"
    if "\<And>c. snd (f c) = g c" for r :: bool and f g
    unfolding snd_on_motor comp_def that ..
  show ?thesis
    by (cases x)
      (simp_all add: ctl_move_steps_def ctl_move_to_steps_def ctl_move_millimeters_def
        ctl_move_to_millimeters_def ctl_rotate_def ctl_home_def ctl_set_position_zero_def
        ctl_acknowledge_step_loss_def ctl_stop_def ctl_set_speed_def ctl_set_accel_def ctl_set_run_current_def
        ctl_set_microstep_def ctl_set_enabled_def ctl_arm_pull_def ctl_execute_pull_def
        ctl_active_check_motor_def ctl_pulse_round_def,
       (rule eq eqb; simp add: always_def snapshot_def Let_def split: prod.splits)+)
qed

lemma find_motor_bound: "find_motor m cs = Some i \<Longrightarrow> i < length cs"
  by (induction cs arbitrary: i) (auto split: if_splits)

lemma find_motor_id: "find_motor m cs = Some i \<Longrightarrow> channel_id (ch_cfg (cs ! i)) = m"
  by (induction cs arbitrary: i) (auto split: if_splits)

subsection \<open>Relations along a history\<close>

lemma length_change [simp]: "length (channels (change_channel i f t)) = length (channels t)"
  by (simp add: change_channel_def Let_def)

lemma change_rel:
  assumes "\<And>c. R c c" and "\<And>l c. R c (lend l c)" and "\<And>a b c. R a b \<Longrightarrow> R b c \<Longrightarrow> R a c"
    and "\<And>c. R c (f c)" and "i < length (channels t)"
  shows "R (channels t ! i) (channels (change_channel j f t) ! i)"
proof (cases "i = j")
  case True
  have "R (channels t ! i) (f (lend (shared_lock t) (channels t ! i)))" by (rule assms(3) [OF assms(2) assms(4)])
  with True assms(5) show ?thesis by (simp add: change_channel_def Let_def)
qed (use assms(1) in \<open>simp add: change_channel_def Let_def\<close>)

lemma ctl_tick_induct:
  assumes "P t" and "\<And>i t. P t \<Longrightarrow> i < n \<Longrightarrow> P (change_channel i (channel_tick ops (now i) dt) t)"
    and "n = length (channels t)"
  shows "P (ctl_tick ops now dt t)"
proof -
  have "P (fold (\<lambda>i t. snd (call_channel i (always (channel_tick ops (now i) dt)) t)) is t)"
    if "set is \<subseteq> {..<n}" "P t" for "is" t
    using that
  proof (induction "is" arbitrary: t)
    case (Cons i "is")
    have "snd \<circ> always (channel_tick ops (now i) dt) = channel_tick ops (now i) dt"
      by (simp add: always_def fun_eq_iff)
    with Cons assms(2) show ?case by (simp add: snd_call_channel)
  qed simp
  from this [of "[0..<n]" t] assms(1) show ?thesis
    unfolding ctl_tick_def assms(3) by (simp add: atLeast0LessThan)
qed

lemma length_ctl_step [simp]: "length (channels (ctl_step ops x t)) = length (channels t)"
proof (cases x)
  case (Tick now dt)
  show ?thesis unfolding Tick ctl_step.simps
    by (rule ctl_tick_induct [where P = "\<lambda>u. length (channels u) = length (channels t)"]) simp_all
qed (simp add: motor_command_eq split: option.splits)

text \<open>A relation that every tick and the given commands respect relates a channel before and after a
  history.\<close>

lemma ctl_run_rel:
  assumes R: "\<And>c. R c c" "\<And>l c. R c (lend l c)" "\<And>a b c. R a b \<Longrightarrow> R b c \<Longrightarrow> R a c"
    and tick: "\<And>now dt c. R c (channel_tick ops now dt c)"
    and cmd: "\<And>m x c. Motor m x \<in> set xs \<Longrightarrow> R c (chan_op ops x c)"
    and i: "i < length (channels t)"
  shows "R (channels t ! i) (channels (ctl_run ops t xs) ! i)"
  using cmd i
proof (induction xs arbitrary: t)
  case (Cons y ys)
  have "R (channels t ! i) (channels (ctl_step ops y t) ! i)"
  proof (cases y)
    case (Motor m x)
    then have "R c (chan_op ops x c)" for c by (intro Cons.prems(1) [of m]) simp
    with Motor show ?thesis
      using change_rel [of R, OF R, where f = "chan_op ops x" and t = t] Cons.prems(2) R(1)
      by (simp add: motor_command_eq split: option.splits)
  next
    case (Tick now dt)
    have "R (channels t ! i) (channels (ctl_tick ops now dt t) ! i) \<and>
        length (channels (ctl_tick ops now dt t)) = length (channels t)"
      by (rule ctl_tick_induct [where P = "\<lambda>u. R (channels t ! i) (channels u ! i) \<and>
            length (channels u) = length (channels t)" and n = "length (channels t)"])
        (use R(1) Cons.prems(2) in simp,
         use Cons.prems(2) in \<open>force intro: R(3) change_rel [of R, OF R tick]\<close>, simp)
    with Tick show ?thesis by simp
  qed
  moreover have "R (channels (ctl_step ops y t) ! i) (channels (ctl_run ops (ctl_step ops y t) ys) ! i)"
    by (rule Cons.IH) (auto intro: Cons.prems(1) simp: Cons.prems(2))
  ultimately show ?case using R(3) by (simp add: ctl_run_def)
qed (simp add: ctl_run_def R)

subsection \<open>One motor at a time\<close>

definition ctl_ok :: "'d stepper_controller \<Rightarrow> bool" where
  "ctl_ok t \<longleftrightarrow>
     distinct (map (\<lambda>c. channel_id (ch_cfg c)) (channels t)) \<and>
     list_all (\<lambda>c. chan_ok (lend (shared_lock t) c)) (channels t)"

lemma step_check_channel: "chan_step c (snd (ctl_active_check_channel ops c))"
  by (auto simp: ctl_active_check_channel_def same_motion_def split: option.splits prod.splits
      intro!: same_motion_step)

lemma step_chan_op: "chan_step c (chan_op ops x c)"
  by (cases x)
    (simp_all add: step_move_steps step_move_to_steps step_move_millimeters step_move_to_millimeters
      step_rotate step_home step_set_position_zero step_settings step_stop_motion step_set_microstep
      step_set_enabled step_arm_pull step_execute_pull step_pulse_round step_check_channel)

lemma change_ok:
  assumes t: "ctl_ok t" and i: "i < length (channels t)" and f: "\<And>c. chan_step c (f c)"
  shows "ctl_ok (change_channel i f t)"
proof -
  let ?c = "lend (shared_lock t) (channels t ! i)"
  let ?id = "channel_id (ch_cfg (channels t ! i))"
  have ok: "chan_ok ?c" using t i by (simp add: ctl_ok_def list_all_length)
  with f [of ?c] have new: "chan_ok (f ?c)" "channel_id (ch_cfg (f ?c)) = ?id"
    "lock_step ?id (Some (shared_lock t)) (ch_lock (f ?c))"
    by (simp_all add: chan_step_def lend_def)
  then obtain l where l: "ch_lock (f ?c) = Some l" by (auto simp: lock_step_def)
  have ids: "map (\<lambda>c. channel_id (ch_cfg c)) ((channels t)[i := f ?c]) =
      map (\<lambda>c. channel_id (ch_cfg c)) (channels t)"
    using i new(2) by (simp add: map_update list_update_same_conv)
  have others: "chan_ok (lend l (channels t ! j))" if "j < length (channels t)" "j \<noteq> i" for j
  proof -
    have d: "channel_id (ch_cfg (channels t ! j)) \<noteq> ?id"
      using t i that by (auto simp: ctl_ok_def distinct_conv_nth)
    have "chan_ok (lend (shared_lock t) (channels t ! j))"
      using t that by (simp add: ctl_ok_def list_all_length)
    moreover have "l = shared_lock t \<or> {lock_holder (shared_lock t), lock_holder l} \<subseteq> {- 1, ?id}"
      using new(3) by (auto simp: lock_step_def l)
    ultimately show ?thesis using d by (auto simp: chan_ok_def lend_def)
  qed
  have "lend l (f ?c) = f ?c" by (simp add: lend_def flip: l)
  with new(1) others i ids t show ?thesis
    by (auto simp: ctl_ok_def change_channel_def Let_def l list_all_length nth_list_update)
qed

lemma ctl_ok_step: "ctl_ok t \<Longrightarrow> ctl_ok (ctl_step ops x t)"
proof (cases x)
  case (Tick now dt)
  assume "ctl_ok t"
  then have "ctl_ok (ctl_tick ops now dt t) \<and> length (channels (ctl_tick ops now dt t)) = length (channels t)"
    by (intro ctl_tick_induct [where P = "\<lambda>u. ctl_ok u \<and> length (channels u) = length (channels t)"])
      (auto intro: change_ok step_channel_tick)
  with Tick show ?thesis by simp
qed (auto simp: motor_command_eq split: option.splits intro: change_ok step_chan_op find_motor_bound)

lemma ctl_ok_run: "ctl_ok t \<Longrightarrow> ctl_ok (ctl_run ops t xs)"
  by (induction xs arbitrary: t) (simp_all add: ctl_run_def ctl_ok_step)

lemma new_channel_fields:
  "ch_lock (new_channel ops cfg drv l) = l" "lock_held (new_channel ops cfg drv l) = False"
  "mode (new_channel ops cfg drv l) = Idle" "channel_id (ch_cfg (new_channel ops cfg drv l)) = channel_id cfg"
  "position (new_channel ops cfg drv l) = 0" "target (new_channel ops cfg drv l) = 0"
  "retract_target (new_channel ops cfg drv l) = 0" "current_step_hz (new_channel ops cfg drv l) = 0"
  "max_position_steps (ch_cfg (new_channel ops cfg drv l)) = max_position_steps cfg"
  "max_step_hz (ch_cfg (new_channel ops cfg drv l)) = max_step_hz cfg"
  "position_uncertain (new_channel ops cfg drv l) = False"
  by (simp_all add: new_channel_def Let_def split: option.splits prod.splits)

lemma ctl_ok_new:
  assumes "new_controller ops cfgs drvs = Inr t" and "distinct (map channel_id cfgs)"
    and "list_all (\<lambda>c. channel_id c \<noteq> - 1) cfgs"
  shows "ctl_ok t"
proof -
  have len: "length cfgs = length drvs" using assms(1) by (simp add: new_controller_def split: if_splits)
  with assms(1) have t: "t = \<lparr>shared_lock = new_motion_lock,
      channels = map (\<lambda>(cfg, drv). new_channel ops cfg drv (Some new_motion_lock)) (zip cfgs drvs)\<rparr>"
    by (simp add: new_controller_def)
  have "map (\<lambda>c. channel_id (ch_cfg c)) (channels t) = map channel_id cfgs"
    using len by (simp add: t list_eq_iff_nth_eq new_channel_fields)
  moreover have "chan_ok (lend new_motion_lock (new_channel ops cfg drv (Some new_motion_lock)))"
    if "cfg \<in> set cfgs" for cfg drv
    using assms(3) that by (auto simp: list_all_iff chan_ok_def lend_def new_channel_fields new_motion_lock_def lock_holder_def)
  ultimately show ?thesis using assms(2)
    by (auto simp: ctl_ok_def t list_all_iff dest!: set_zip_leftD)
qed

lemma ctl_ok_moving:
  assumes "ctl_ok t" and "i < length (channels t)" and "mode (channels t ! i) \<noteq> Idle"
  shows "lock_holder (shared_lock t) = channel_id (ch_cfg (channels t ! i)) \<and> lock_active (shared_lock t)"
proof -
  have "chan_ok (lend (shared_lock t) (channels t ! i))" using assms by (simp add: ctl_ok_def list_all_length)
  with assms(3) show ?thesis by (auto simp: chan_ok_def lend_def lock_active_iff)
qed

text \<open>C19. One motor at a time. Over any history of commands to any motors, ticks and pulse rounds, with
  any behaviour of the drivers: a motor that is moving, holding or retracting holds the motion lock,
  so no second motor is, and the lock is active while one is.\<close>

theorem one_motor_at_a_time:
  assumes "new_controller ops cfgs drvs = Inr t" and "distinct (map channel_id cfgs)"
    and "list_all (\<lambda>c. channel_id c \<noteq> - 1) cfgs"
  shows "let t' = ctl_run ops t xs in
    \<forall>i < length (channels t'). mode (channels t' ! i) \<noteq> Idle \<longrightarrow>
      lock_active (shared_lock t') \<and>
      lock_holder (shared_lock t') = channel_id (ch_cfg (channels t' ! i)) \<and>
      (\<forall>j < length (channels t'). mode (channels t' ! j) \<noteq> Idle \<longrightarrow> j = i)"
proof -
  have ok: "ctl_ok (ctl_run ops t xs)" by (intro ctl_ok_run ctl_ok_new [OF assms])
  then have "distinct (map (\<lambda>c. channel_id (ch_cfg c)) (channels (ctl_run ops t xs)))"
    by (simp add: ctl_ok_def)
  then have "j = i" if "j < length (channels (ctl_run ops t xs))" "i < length (channels (ctl_run ops t xs))"
    "channel_id (ch_cfg (channels (ctl_run ops t xs) ! j)) = channel_id (ch_cfg (channels (ctl_run ops t xs) ! i))"
    for i j
    using that nth_eq_iff_index_eq [of "map (\<lambda>c. channel_id (ch_cfg c)) (channels (ctl_run ops t xs))" j i]
    by simp
  with ctl_ok_moving [OF ok] show ?thesis unfolding Let_def by metis
qed

lemma ends_frees:
  assumes "chan_ok c" and "ends_motion c c1" and "\<not> moving c1" and "ch_lock c = Some l"
    and "channel_id (ch_cfg c) = m"
  shows "mode (release_lock_if_held c1) = Idle \<and> \<not> moving (release_lock_if_held c1) \<and>
    (\<exists>l. ch_lock (release_lock_if_held c1) = Some l \<and> lock_holder l \<noteq> m)"
proof -
  have "chan_ok c1" using assms(1,2) by (auto simp: chan_ok_def ends_motion_def split: option.splits)
  moreover obtain l' where l': "ch_lock (release_lock_if_held c1) = Some l'"
    using assms(2,4) by (cases "lock_held c1") (auto simp: ends_motion_def release_lock_if_held_def)
  ultimately have "lock_holder l' \<noteq> channel_id (ch_cfg c1)" by (blast dest: release_frees)
  with l' assms(2,3,5) show ?thesis by (simp add: ends_motion_def)
qed

text \<open>The commands that end a motion free the lock. After any history, \<^verbatim>\<open>STEPPER_STOP\<close>, and
  \<^verbatim>\<open>STEPPER_DISABLE\<close> of a motor with a driver whatever the driver answers, leave the motor idle and the
  lock held by no one or by another motor.\<close>

theorem stop_and_disable_free_lock:
  assumes "new_controller ops cfgs drvs = Inr t" and "distinct (map channel_id cfgs)"
    and "list_all (\<lambda>c. channel_id c \<noteq> - 1) cfgs" and "find_motor m (channels (ctl_run ops t xs)) = Some i"
    and "x = Stop \<or> x = SetEnabled False \<and> ch_driver (channels (ctl_run ops t xs) ! i) \<noteq> None"
  shows "let t' = ctl_step ops (Motor m x) (ctl_run ops t xs) in
    mode (channels t' ! i) = Idle \<and> \<not> moving (channels t' ! i) \<and> lock_holder (shared_lock t') \<noteq> m"
proof -
  define u where "u = ctl_run ops t xs"
  let ?c = "lend (shared_lock u) (channels u ! i)"
  have ok: "ctl_ok u" unfolding u_def by (intro ctl_ok_run ctl_ok_new [OF assms(1-3)])
  have f: "find_motor m (channels u) = Some i" using assms(4) by (simp add: u_def)
  then have i: "i < length (channels u)" and m: "channel_id (ch_cfg (channels u ! i)) = m"
    by (auto simp: find_motor_bound find_motor_id)
  have cok: "chan_ok ?c" using ok i by (simp add: ctl_ok_def list_all_length)
  have "mode (chan_op ops x ?c) = Idle \<and> \<not> moving (chan_op ops x ?c) \<and>
      (\<exists>l. ch_lock (chan_op ops x ?c) = Some l \<and> lock_holder l \<noteq> m)"
  proof (cases "x = Stop")
    case True
    show ?thesis unfolding True chan_op.simps stop_motion_def
      by (rule ends_frees [OF cok, where l = "shared_lock u"])
        (simp_all add: ends_motion_def lend_def m)
  next
    case False
    with assms(5) obtain d where x: "x = SetEnabled False" and d: "ch_driver (channels u ! i) = Some d"
      by (auto simp: u_def)
    obtain ok d1 where e: "drv_enable ops False d = (ok, d1)" by fastforce
    have "chan_op ops x ?c = release_lock_if_held
        ((if mode ?c = Moving \<or> mode ?c = Retracting then latch_step_loss ''motor disabled while moving''
            (?c\<lparr>ch_driver := Some d1\<rparr>) else ?c\<lparr>ch_driver := Some d1\<rparr>)
          \<lparr>enabled := False, moving := False, mode := Idle, current_step_hz := 0\<rparr>)"
      using d by (simp add: x set_enabled_def lend_def e Let_def)
    then show ?thesis
      by (simp only:) (rule ends_frees [OF cok, where l = "shared_lock u"];
        simp add: ends_motion_def lend_def m latch_step_loss_def)
  qed
  then obtain l where c1: "mode (chan_op ops x ?c) = Idle" "\<not> moving (chan_op ops x ?c)"
    "ch_lock (chan_op ops x ?c) = Some l" "lock_holder l \<noteq> m" by blast
  with f i show ?thesis
    by (simp add: motor_command_eq change_channel_def Let_def flip: u_def)
qed

subsection \<open>A rig with two simulated motors\<close>

definition example_cfgs :: "channel_config list" where
  "example_cfgs = [channel_default, channel_default\<lparr>channel_id := 1\<rparr>]"

definition example_controller :: "simulated_driver stepper_controller" where
  "example_controller =
     projr (new_controller simulated_ops example_cfgs [Some new_simulated_driver, Some new_simulated_driver])"

lemma example_new:
  "new_controller simulated_ops example_cfgs [Some new_simulated_driver, Some new_simulated_driver] = Inr example_controller"
  by (simp add: example_controller_def new_controller_def example_cfgs_def)

lemma example_ids: "distinct (map channel_id example_cfgs)" "list_all (\<lambda>c. channel_id c \<noteq> - 1) example_cfgs"
  "length example_cfgs = 2"
  by (simp_all add: example_cfgs_def channel_default_def)

lemma example_motor: "find_motor 0 (channels example_controller) = Some 0" "length (channels example_controller) = 2"
  by (simp_all add: example_controller_def new_controller_def example_cfgs_def new_channel_fields channel_default_def)

theorem one_motor_at_a_time_witness:
  "let t' = ctl_run simulated_ops example_controller [Motor 0 (SetEnabled True), Motor 0 (MoveToSteps 400 0)] in
    \<forall>i < length (channels t'). mode (channels t' ! i) \<noteq> Idle \<longrightarrow>
      lock_active (shared_lock t') \<and>
      lock_holder (shared_lock t') = channel_id (ch_cfg (channels t' ! i)) \<and>
      (\<forall>j < length (channels t'). mode (channels t' ! j) \<noteq> Idle \<longrightarrow> j = i)"
  by (rule one_motor_at_a_time [OF example_new example_ids(1,2)])

theorem stop_and_disable_free_lock_witness:
  "let t' = ctl_step simulated_ops (Motor 0 Stop) (ctl_run simulated_ops example_controller []) in
    mode (channels t' ! 0) = Idle \<and> \<not> moving (channels t' ! 0) \<and> lock_holder (shared_lock t') \<noteq> 0"
  by (rule stop_and_disable_free_lock [OF example_new example_ids(1,2)]) (simp_all add: ctl_run_def example_motor)


end
