(* ===== verification/MotionLimits.thy ===== *)
theory MotionLimits
  imports MotionProperties
begin

text \<open>
  The limits of the motors: each pulse moves one microstep towards the target, travel and speed stay within
  the configuration, a step loss is latched; and two ways in which the state left behind by a command
  misleads the next one (the lock kept by a cancelled move, the target kept by a disabled one).
\<close>

subsection \<open>Travel, step loss and speed of one channel\<close>

definition travel_ok :: "'d stepper_channel \<Rightarrow> bool" where
  "travel_ok c \<longleftrightarrow>
     \<bar>position c\<bar> \<le> max_position_steps (ch_cfg c) \<and> \<bar>target c\<bar> \<le> max_position_steps (ch_cfg c) \<and>
     \<bar>retract_target c\<bar> \<le> max_position_steps (ch_cfg c)"

definition travel_step :: "'d stepper_channel \<Rightarrow> 'd stepper_channel \<Rightarrow> bool" where
  "travel_step c c' \<longleftrightarrow>
     max_position_steps (ch_cfg c') = max_position_steps (ch_cfg c) \<and> (travel_ok c \<longrightarrow> travel_ok c')"

definition loss_step :: "'d stepper_channel \<Rightarrow> 'd stepper_channel \<Rightarrow> bool" where
  "loss_step c c' \<longleftrightarrow>
     (position_uncertain c \<or> step_loss_events c' \<noteq> step_loss_events c \<longrightarrow> position_uncertain c')"

definition rate_ok :: "'d stepper_channel \<Rightarrow> bool" where
  "rate_ok c \<longleftrightarrow> 0 \<le> max_step_hz (ch_cfg c) \<and> \<not> current_step_hz c < 0 \<and> \<not> max_step_hz (ch_cfg c) < current_step_hz c"

definition rate_step :: "'d stepper_channel \<Rightarrow> 'd stepper_channel \<Rightarrow> bool" where
  "rate_step c c' \<longleftrightarrow>
     max_step_hz (ch_cfg c') = max_step_hz (ch_cfg c) \<and> (rate_ok c \<longrightarrow> rate_ok c')"

lemmas steps_defs = travel_step_def travel_ok_def loss_step_def rate_step_def rate_ok_def

text \<open>Steps that leave position and target alone, and do not raise the speed.\<close>

definition still :: "'d stepper_channel \<Rightarrow> 'd stepper_channel \<Rightarrow> bool" where
  "still c c' \<longleftrightarrow>
     max_position_steps (ch_cfg c') = max_position_steps (ch_cfg c) \<and>
     max_step_hz (ch_cfg c') = max_step_hz (ch_cfg c) \<and>
     (position c' = position c \<and> target c' \<in> {target c, position c, retract_target c} \<or> position c' = 0 \<and> target c' = 0) \<and>
     retract_target c' \<in> {retract_target c, position c, 0} \<and>
     (current_step_hz c' = current_step_hz c \<or> current_step_hz c' = 0)"

lemma still_steps: "still c c' \<Longrightarrow> travel_step c c' \<and> rate_step c c'"
  by (auto simp: still_def steps_defs dbl_le_imp_not_less)

definition tame :: "'d stepper_channel \<Rightarrow> 'd stepper_channel \<Rightarrow> bool" where
  "tame c c' \<longleftrightarrow> travel_step c c' \<and> loss_step c c' \<and> rate_step c c'"

lemma tame_refl [simp]: "tame c c" by (simp add: tame_def steps_defs)

lemma tame_trans: "tame a b \<Longrightarrow> tame b c \<Longrightarrow> tame a c"
  by (auto simp: tame_def travel_step_def loss_step_def rate_step_def)

lemma tame_still: "still c c' \<Longrightarrow> loss_step c c' \<Longrightarrow> tame c c'"
  using still_steps by (simp add: tame_def)

lemma still_fields:
  assumes "ch_cfg c' = ch_cfg c" "position c' = position c" "target c' = target c"
    "retract_target c' = retract_target c" "current_step_hz c' = current_step_hz c"
    "loss_step c c'"
  shows "tame c c'"
  using assms by (intro tame_still) (simp_all add: still_def)

lemma tame_release: "tame c c' \<Longrightarrow> tame c (release_lock_if_held c')"
  by (erule tame_trans, rule still_fields) (simp_all add: loss_step_def)

lemma absorb_fields:
  assumes "absorb_driver_step_loss ops c = (stop, c')"
  shows "ch_cfg c' = ch_cfg c" "position c' = position c" "target c' = target c"
    "retract_target c' = retract_target c" "current_step_hz c' = current_step_hz c" "enabled c' = enabled c"
    "mode c' = mode c" "loss_step c c'"
  using assms
  by (auto simp: absorb_driver_step_loss_def loss_step_def Let_def split: option.splits prod.splits if_splits)

lemma tame_absorb: "absorb_driver_step_loss ops c = (stop, c') \<Longrightarrow> tame c c'"
  by (rule still_fields) (rule absorb_fields; assumption)+

lemma tame_driver: "tame c (c\<lparr>ch_driver := d\<rparr>)"
  by (rule still_fields) (simp_all add: loss_step_def)

lemma tame_absorb_driver: "tame c (snd (absorb_driver_step_loss ops (c\<lparr>ch_driver := d\<rparr>)))"
  by (rule tame_trans [OF tame_driver tame_absorb]) (rule surjective_pairing)

lemma tame_latch: "tame c (latch_step_loss r c)"
  by (rule still_fields) (simp_all add: loss_step_def latch_step_loss_def)

lemma tame_report: "tame c (report_step_rate ops c)"
  by (rule still_fields) (simp_all add: loss_step_def report_step_rate_def Let_def split: option.splits)

lemma tame_confirm: "tame c (confirm_target ops c)"
  by (simp add: confirm_target_def tame_absorb_driver split: option.splits)

lemma tame_ramp: "tame c (update_ramp_speed dt r c)"
proof -
  have z: "0 \<le> m \<Longrightarrow> \<not> m < (0::dbl)" for m by (rule dbl_le_imp_not_less)
  have c: "\<not> (if m < y then m else y) < 0 \<and> \<not> m < (if m < y then m else y)"
    if "0 \<le> m" "y = (if x < 0 then 0 else x)" for m x y :: dbl
    using that z by auto
  show ?thesis
    using c [of "max_step_hz (ch_cfg c)"] z
    by (simp add: tame_def steps_defs update_ramp_speed_def Let_def)
qed

lemma tame_retry: "tame c (tick_retry ops now d c)"
proof -
  have "tame c (snd (absorb_driver_step_loss ops (c\<lparr>last_driver_retry := t, ch_driver := x, enabled := e\<rparr>)))"
    "tame c (snd (absorb_driver_step_loss ops (c\<lparr>last_driver_retry := t, ch_driver := x\<rparr>)))" for t x e
    by (rule tame_trans [OF still_fields tame_absorb [OF surjective_pairing]]; simp add: loss_step_def)+
  then show ?thesis by (simp add: tick_retry_def Let_def split: prod.splits)
qed

lemma tame_abort: "tame c (abort_move_for_step_loss c)"
  unfolding abort_move_for_step_loss_def
  by (intro tame_release tame_still) (simp_all add: still_def loss_step_def)

lemma tame_refused: "tame c (refused_step ops b c)"
  by (auto simp: refused_step_def Let_def latch_step_loss_def split: option.splits
      intro!: tame_release tame_still simp: still_def loss_step_def)

lemma tame_overtemp: "tame c (overtemp_stop ops d c)"
  unfolding overtemp_stop_def Let_def
  by (intro tame_release tame_still) (simp_all add: still_def loss_step_def latch_step_loss_def)

subsection \<open>Pulses\<close>

text \<open>Each pulse moves one microstep in the direction of the target.\<close>

lemma issue_loop_spec:
  "issue_loop ops fwd n k c = (k', c') \<Longrightarrow> ch_driver c \<noteq> None \<Longrightarrow>
     \<exists>j \<le> n. k' = k + j \<and> position c' = position c + (if fwd then int j else - int j) \<and>
       ch_cfg c' = ch_cfg c \<and> target c' \<in> {target c, position c'} \<and>
       retract_target c' \<in> {retract_target c, position c'} \<and>
       current_step_hz c' \<in> {current_step_hz c, 0} \<and> loss_step c c' \<and>
       (j = n \<and> target c' = target c \<or> mode c' = Idle)"
proof (induction ops fwd n k c arbitrary: k' c' rule: issue_loop.induct)
  case (2 ops fwd n k c)
  show ?case
  proof (cases "ch_driver c")
    case None
    with 2(3) show ?thesis by simp
  next
    case (Some d)
    obtain ok d1 where s: "drv_step ops fwd d = (ok, d1)" by fastforce
    obtain stop c1 where a: "absorb_driver_step_loss ops (c\<lparr>ch_driver := Some d1\<rparr>) = (stop, c1)" by fastforce
    note af = absorb_fields [OF a, simplified]
    define c2 where "c2 = (if ok then c1\<lparr>position := position c1 + (if fwd then 1 else - 1)\<rparr> else c1)"
    define k2 where "k2 = (if ok then k + 1 else k)"
    have c2: "position c2 = position c + (if ok then if fwd then 1 else - 1 else 0)" "ch_cfg c2 = ch_cfg c"
      "target c2 = target c" "retract_target c2 = retract_target c" "current_step_hz c2 = current_step_hz c"
      "loss_step c c2"
      using af by (auto simp: c2_def loss_step_def)
    have d2: "ch_driver c2 \<noteq> None"
      using a by (auto simp: c2_def absorb_driver_step_loss_def Let_def split: prod.splits if_splits)
    have eq: "issue_loop ops fwd (Suc n) k c =
        (if stop then (k2, abort_move_for_step_loss c2)
         else if \<not> ok then (k2, refused_step ops (step_loss_events c) c2)
         else issue_loop ops fwd n k2 c2)"
      by (simp add: Some s a c2_def k2_def Let_def)
    show ?thesis
    proof (cases "\<not> stop \<and> ok")
      case True
      with 2(2) eq have l: "issue_loop ops fwd n k2 c2 = (k', c')" by simp
      obtain j where j: "j \<le> n" "k' = k2 + j" "position c' = position c2 + (if fwd then int j else - int j)"
        "ch_cfg c' = ch_cfg c2" "target c' \<in> {target c2, position c'}"
        "retract_target c' \<in> {retract_target c2, position c'}"
        "current_step_hz c' \<in> {current_step_hz c2, 0}" "loss_step c2 c'"
        "j = n \<and> target c' = target c2 \<or> mode c' = Idle"
        using 2(1) [OF Some refl s [symmetric] refl a [symmetric] refl _ refl, of k2 c2 k' c'] True l d2
        by (auto simp: c2_def k2_def)
      have "loss_step c c'" using c2(6) j(8) by (auto simp: loss_step_def)
      with j c2 True show ?thesis by (intro exI [of _ "Suc j"]) (auto simp: k2_def)
    next
      case False
      have "loss_step c c'"
      proof -
        have "loss_step c2 c'"
          using False 2(2) eq tame_abort [of c2] tame_refused [of c2 ops "step_loss_events c"]
          by (auto simp: tame_def split: if_splits)
        with c2(6) show ?thesis by (auto simp: loss_step_def)
      qed
      moreover have "position c' = position c2 \<and> target c' = position c2 \<and> mode c' = Idle \<and> ch_cfg c' = ch_cfg c2
          \<and> retract_target c' \<in> {retract_target c2, position c'} \<and>
          current_step_hz c' \<in> {current_step_hz c2, 0} \<or> ch_driver c2 = None"
        using False 2(2) eq
        by (auto simp: abort_move_for_step_loss_def refused_step_def latch_step_loss_def Let_def
            split: if_splits option.splits)
      moreover note d2
      moreover have "k' = k2" using False 2(2) eq by (auto split: if_splits)
      ultimately show ?thesis using c2
        by (intro exI [of _ "if ok then 1 else 0"]) (auto simp: k2_def)
    qed
  qed
qed (auto simp: loss_step_def)

definition between :: "int \<Rightarrow> int \<Rightarrow> int \<Rightarrow> bool" where
  "between a x b \<longleftrightarrow> min a b \<le> x \<and> x \<le> max a b"

lemma confirm_fields:
  "position (confirm_target ops c) = position c" "target (confirm_target ops c) = target c"
  "mode (confirm_target ops c) = mode c"
  by (simp_all add: confirm_target_def absorb_fields [OF surjective_pairing] split: option.splits)

lemma issue_pulses_spec:
  assumes "issue_pulses ops n c = (k, c')"
  shows "position c' = position c + (if position c < target c then int k else - int k) \<and>
    int k \<le> max 0 n \<and> between (position c) (position c') (target c) \<and> tame c c'"
proof (cases "ch_driver c = None \<or> \<not> enabled c \<or> n \<le> 0 \<or> position c = target c")
  case True
  with assms show ?thesis by (auto simp: issue_pulses_def between_def split: if_splits)
next
  case False
  define m where "m = (if \<bar>target c - position c\<bar> < n then \<bar>target c - position c\<bar> else n)"
  obtain k1 c1 where l: "issue_loop ops (position c < target c) (nat m) 0 c = (k1, c1)" by fastforce
  with False assms have k: "k = k1"
    and c': "c' = (if 0 < k1 \<and> enabled c1 \<and> position c1 = target c1 then confirm_target ops c1 else c1)"
    by (auto simp: issue_pulses_def Let_def m_def)
  obtain j where j: "j \<le> nat m" "k1 = j" "position c1 = position c + (if position c < target c then int j else - int j)"
    "ch_cfg c1 = ch_cfg c" "target c1 \<in> {target c, position c1}" "retract_target c1 \<in> {retract_target c, position c1}"
    "current_step_hz c1 \<in> {current_step_hz c, 0}" "loss_step c c1"
    using issue_loop_spec [OF l] False by auto
  have m: "int j \<le> \<bar>target c - position c\<bar>" "int j \<le> n" using j(1) False by (auto simp: m_def split: if_splits)
  then have b: "between (position c) (position c1) (target c)" using j(3) by (auto simp: between_def)
  have "travel_step c c1"
    using b j(4-6) by (auto simp: travel_step_def travel_ok_def between_def)
  moreover have "rate_step c c1"
    using j(4,7) by (auto simp: rate_step_def rate_ok_def dbl_le_imp_not_less)
  ultimately have t: "tame c c1" using j(8) by (simp add: tame_def)
  then have "tame c c'" unfolding c' using tame_trans [OF t tame_confirm] by simp
  moreover have "position c' = position c1" by (simp add: c' confirm_fields)
  ultimately show ?thesis using j(2,3) m b k by auto
qed

lemma tame_issue_pulses: "tame c (snd (issue_pulses ops n c))"
  using issue_pulses_spec [OF surjective_pairing] by blast

context pulse_driver
begin

lemma absorb_pulses:
  assumes "absorb_driver_step_loss ops c = (stop, c')" and "ch_driver c = Some d"
  shows "\<exists>d'. ch_driver c' = Some d' \<and> drv_pulses_issued ops d' = drv_pulses_issued ops d"
  using assms stop_keeps [of d]
  by (auto simp: absorb_driver_step_loss_def Let_def split: prod.splits if_splits)

lemma issue_loop_pulses:
  "issue_loop ops fwd n k c = (k', c') \<Longrightarrow> ch_driver c = Some d \<Longrightarrow>
     k \<le> k' \<and> (\<exists>d'. ch_driver c' = Some d' \<and>
       (drv_pulses_issued ops d' = drv_pulses_issued ops d + of_nat (k' - k) \<or>
        k' < k + n \<and> drv_pulses_issued ops d' = drv_pulses_issued ops d + of_nat (Suc (k' - k))))"
proof (induction n arbitrary: k c d)
  case (Suc n)
  obtain ok d1 where s: "drv_step ops fwd d = (ok, d1)" by fastforce
  obtain stop c1 where a: "absorb_driver_step_loss ops (c\<lparr>ch_driver := Some d1\<rparr>) = (stop, c1)" by fastforce
  then obtain d2 where d2: "ch_driver c1 = Some d2" "drv_pulses_issued ops d2 = drv_pulses_issued ops d1"
    using absorb_pulses by fastforce
  define c2 where "c2 = (if ok then c1\<lparr>position := position c1 + (if fwd then 1 else - 1)\<rparr> else c1)"
  define k2 where "k2 = (if ok then k + 1 else k)"
  have c2: "ch_driver c2 = Some d2" using d2 by (simp add: c2_def)
  have count: "drv_pulses_issued ops d2 = drv_pulses_issued ops d + of_nat (k2 - k) \<or>
      \<not> ok \<and> drv_pulses_issued ops d2 = drv_pulses_issued ops d + of_nat (Suc (k2 - k))"
    using step_counts [OF s] d2(2) by (auto simp: k2_def)
  have eq: "issue_loop ops fwd (Suc n) k c =
      (if stop then (k2, abort_move_for_step_loss c2)
       else if \<not> ok then (k2, refused_step ops (step_loss_events c) c2)
       else issue_loop ops fwd n k2 c2)"
    by (simp add: Suc.prems(2) s a c2_def k2_def Let_def)
  show ?case
  proof (cases "\<not> stop \<and> ok")
    case True
    with Suc.prems(1) eq have "issue_loop ops fwd n k2 c2 = (k', c')" by simp
    from Suc.IH [OF this c2] True count show ?thesis
      by (auto simp: k2_def Suc_le_eq of_nat_diff)
  next
    case False
    have "ch_driver (abort_move_for_step_loss c2) = Some d2"
      "\<exists>d3. ch_driver (refused_step ops (step_loss_events c) c2) = Some d3 \<and>
        drv_pulses_issued ops d3 = drv_pulses_issued ops d2"
      using c2 enable_keeps [of False d2]
      by (auto simp: abort_move_for_step_loss_def refused_step_def latch_step_loss_def Let_def)
    with False Suc.prems(1) eq count show ?thesis by (auto simp: k2_def split: if_splits)
  qed
qed simp

lemma confirm_pulses:
  "ch_driver c = Some d \<Longrightarrow>
     \<exists>d'. ch_driver (confirm_target ops c) = Some d' \<and> drv_pulses_issued ops d' = drv_pulses_issued ops d"
  using absorb_pulses [OF surjective_pairing, of "c\<lparr>ch_driver := Some (snd (drv_confirm_target ops d))\<rparr>"]
    confirm_keeps [of d]
  by (auto simp: confirm_target_def)

lemma issue_pulses_counted:
  assumes "issue_pulses ops n c = (k, c')" and "ch_driver c = Some d"
  shows "\<exists>d'. ch_driver c' = Some d' \<and>
    (drv_pulses_issued ops d' = drv_pulses_issued ops d + of_nat k \<or>
     int k < n \<and> int k < \<bar>target c - position c\<bar> \<and>
       drv_pulses_issued ops d' = drv_pulses_issued ops d + of_nat (Suc k))"
proof (cases "\<not> enabled c \<or> n \<le> 0 \<or> position c = target c")
  case True
  with assms show ?thesis by (auto simp: issue_pulses_def split: if_splits)
next
  case False
  define m where "m = (if \<bar>target c - position c\<bar> < n then \<bar>target c - position c\<bar> else n)"
  obtain k1 c1 where l: "issue_loop ops (position c < target c) (nat m) 0 c = (k1, c1)" by fastforce
  obtain d1 where d1: "ch_driver c1 = Some d1"
    "drv_pulses_issued ops d1 = drv_pulses_issued ops d + of_nat k1 \<or>
     k1 < nat m \<and> drv_pulses_issued ops d1 = drv_pulses_issued ops d + of_nat (Suc k1)"
    using issue_loop_pulses [OF l assms(2)] by auto
  from False assms l have "k = k1"
    "c' = (if 0 < k1 \<and> enabled c1 \<and> position c1 = target c1 then confirm_target ops c1 else c1)"
    by (auto simp: issue_pulses_def Let_def m_def)
  moreover have "k1 < nat m \<Longrightarrow> int k1 < n \<and> int k1 < \<bar>target c - position c\<bar>" by (auto simp: m_def split: if_splits)
  ultimately show ?thesis using d1 confirm_pulses [OF d1(1)] by fastforce
qed

end

text \<open>C20. Pulses go to the target and are all counted. A burst of pulses moves the position by one microstep
  per pulse, towards the target and never past it, by at most the allowed number, with any behaviour of the
  driver (refused steps, step losses).  With a driver that keeps the laws of its pulse counter, as the simulated one and
  the motor chip's do, the counter advances by the same number, or by one more in a burst that a refused step cut short
  of the target.\<close>

theorem pulses_counted_toward_target:
  assumes "pulse_driver ops" and "issue_pulses ops n c = (k, c')"
  shows "position c' = position c + (if position c < target c then int k else - int k) \<and>
    int k \<le> max 0 n \<and> between (position c) (position c') (target c) \<and>
    (\<forall>d. ch_driver c = Some d \<longrightarrow>
      (\<exists>d'. ch_driver c' = Some d' \<and>
        (drv_pulses_issued ops d' = drv_pulses_issued ops d + of_nat k \<or>
         int k < n \<and> position c' \<noteq> target c \<and> drv_pulses_issued ops d' = drv_pulses_issued ops d + of_nat (Suc k))))"
proof -
  have "position c' = position c + (if position c < target c then int k else - int k) \<and>
      int k \<le> max 0 n \<and> between (position c) (position c') (target c)"
    using issue_pulses_spec [OF assms(2)] by blast
  moreover from this have "int k < \<bar>target c - position c\<bar> \<Longrightarrow> position c' \<noteq> target c"
    by (auto split: if_splits)
  ultimately show ?thesis using pulse_driver.issue_pulses_counted [OF assms] by blast
qed

subsection \<open>Ticks and commands stay within the limits\<close>

lemma tame_tick_driver: "tame c (snd (tick_driver ops now c))"
proof (cases "ch_driver c")
  case (Some d)
  let ?d = "snd (drv_poll ops (drv_note_step_rate ops 0 False d))"
  obtain stop c1 where a: "absorb_driver_step_loss ops (c\<lparr>ch_driver := Some ?d\<rparr>) = (stop, c1)" by fastforce
  then have c1: "tame c c1" by (rule tame_trans [OF tame_driver tame_absorb])
  moreover have "tame c (abort_move_for_step_loss c1)" by (rule tame_trans [OF c1 tame_abort])
  ultimately show ?thesis by (simp add: tick_driver_def Some a Let_def tame_retry)
qed (simp add: tick_driver_def)

lemma tame_tick_hold: "tame c (tick_hold dt c)"
  by (auto simp: tick_hold_def Let_def intro!: tame_release tame_still simp: still_def loss_step_def)

lemma tame_tick_terminus: "tame c (tick_terminus c)"
  by (auto simp: tick_terminus_def intro!: tame_release tame_still simp: still_def loss_step_def)

lemma tame_tick_arrived: "tame c (tick_arrived c)"
  by (auto simp: tick_arrived_def Let_def intro!: tame_release tame_still simp: still_def loss_step_def)

lemma tame_tick_pulses: "tame c (tick_pulses ops dt c)"
proof -
  define c1 where "c1 = report_step_rate ops (update_ramp_speed dt \<bar>target c - position c\<bar> c)"
  have "tame c c1" unfolding c1_def by (rule tame_trans [OF tame_ramp tame_report])
  moreover have "tame c1 (c1\<lparr>fractional_steps := f\<rparr>)" for f
    by (rule still_fields) (simp_all add: loss_step_def)
  ultimately have p: "tame c (snd (issue_pulses ops n (c1\<lparr>fractional_steps := f\<rparr>)))" for n f
    by (blast intro: tame_trans tame_issue_pulses)
  have m: "tame c (x\<lparr>moving := m\<rparr>)" if "tame c x" for x m
    using that by (rule tame_trans) (rule still_fields, simp_all add: loss_step_def)
  have "tame c (let x = x\<lparr>moving := m x\<rparr> in if moving x then x else tick_arrived x)"
    if "tame c x" for x m
    using m [OF that] tame_trans [OF m [OF that] tame_tick_arrived] by (simp add: Let_def)
  from this [OF p] show ?thesis
    unfolding tick_pulses_def Let_def c1_def [symmetric] .
qed

lemma tame_tick_motion: "tame c (tick_motion ops dt c)"
proof -
  have "tame c (c\<lparr>moving := m, current_step_hz := 0\<rparr>)" "tame c (c\<lparr>moving := m\<rparr>)" for m
    by (rule tame_still; simp add: still_def loss_step_def)+
  then show ?thesis
    by (simp add: tick_motion_def tame_tick_hold tame_tick_terminus tame_tick_pulses)
qed

lemma tame_channel_tick: "tame c (channel_tick ops now dt c)"
proof -
  obtain e c1 where t: "tick_driver ops now c = (e, c1)" by fastforce
  then have c1: "tame c c1" using tame_tick_driver by (metis snd_conv)
  have "tame c (overtemp_stop ops d c1)" "tame c (tick_motion ops dt c1)" for d
    by (rule tame_trans [OF c1 tame_overtemp], rule tame_trans [OF c1 tame_tick_motion])
  with c1 show ?thesis by (simp add: channel_tick_def t split: option.splits)
qed

lemma tame_pulse_round: "tame c (pulse_round ops dt c)"
proof -
  have "tame c (snd (issue_pulses ops 1 (report_step_rate ops (update_ramp_speed d r c))))" for d r
    by (rule tame_trans [OF tame_trans [OF tame_ramp tame_report] tame_issue_pulses])
  then show ?thesis by (simp add: pulse_round_def Let_def tame_ramp)
qed

lemma tame_pump: "tame c (pump_ticks ops n nows c)"
proof (induction ops n nows c rule: pump_ticks.induct)
  case (3 ops n now nows c)
  let ?c = "channel_tick ops now (to_dbl (1 / 1000)) c"
  have c: "tame c ?c" by (rule tame_channel_tick)
  moreover from this have "tame c (pump_ticks ops n nows ?c)" if "mode ?c \<noteq> Idle"
    using 3 [OF refl that] by (rule tame_trans)
  ultimately show ?case by (simp add: Let_def)
qed simp_all

text \<open>A command that starts a motion: the new target is within the limit.\<close>

lemma tame_start:
  assumes "acquire_lock_for_motion c = (r, c1) \<or> c1 = c"
    and "max_position_steps (ch_cfg c') = max_position_steps (ch_cfg c1)" "max_step_hz (ch_cfg c') = max_step_hz (ch_cfg c1)"
    and "position c' = position c1" "travel_ok c \<longrightarrow> \<bar>target c'\<bar> \<le> max_position_steps (ch_cfg c)"
    and "retract_target c' \<in> {retract_target c1, position c1, 0}" "current_step_hz c' = current_step_hz c1"
    and "loss_step c1 c'"
  shows "tame c c'"
proof -
  have f: "position c1 = position c" "retract_target c1 = retract_target c" "ch_cfg c1 = ch_cfg c"
    "current_step_hz c1 = current_step_hz c" "loss_step c c1"
    using assms(1)
    by (auto simp: acquire_lock_for_motion_def loss_step_def split: option.splits prod.splits bool.splits if_splits)
  then show ?thesis using assms(2-8)
    by (auto simp: tame_def travel_step_def rate_step_def rate_ok_def loss_step_def travel_ok_def)
qed

lemma acquire_tame: "acquire_lock_for_motion c = (r, c1) \<Longrightarrow> tame c c1"
  by (rule still_fields)
    (auto simp: acquire_lock_for_motion_def loss_step_def split: option.splits prod.splits bool.splits if_splits)

lemma tame_move_steps: "tame c (snd (move_steps d c))"
proof -
  obtain r c1 where a: "(if target c + d \<noteq> position c then acquire_lock_for_motion c else (None, c)) = (r, c1)"
    by fastforce
  then have b: "acquire_lock_for_motion c = (r, c1) \<or> c1 = c" by (auto split: if_splits)
  then have "tame c c1" by (auto intro: acquire_tame)
  then show ?thesis
    unfolding move_steps_def Let_def a
    by (auto split: option.splits intro!: tame_start [OF b] simp: loss_step_def not_less)
qed

lemma tame_move_to_steps: "tame c (snd (move_to_steps g h c))"
proof -
  obtain r c1 where a: "(if position c \<noteq> g \<or> 0 < h then acquire_lock_for_motion c else (None, c)) = (r, c1)"
    by fastforce
  then have b: "acquire_lock_for_motion c = (r, c1) \<or> c1 = c" by (auto split: if_splits)
  then have "tame c c1" by (auto intro: acquire_tame)
  then show ?thesis
    unfolding move_to_steps_def Let_def a
    by (auto split: option.splits intro!: tame_start [OF b] simp: loss_step_def not_less)
qed

lemma tame_home: "tame c (snd (home c))"
proof -
  obtain r c1 where a: "(if position c \<noteq> 0 then acquire_lock_for_motion c else (None, c)) = (r, c1)"
    by fastforce
  then have b: "acquire_lock_for_motion c = (r, c1) \<or> c1 = c" by (auto split: if_splits)
  then have "tame c c1" by (auto intro: acquire_tame)
  then show ?thesis
    unfolding home_def Let_def a
    by (auto split: option.splits intro!: tame_start [OF b] simp: loss_step_def travel_ok_def)
qed

lemma tame_with_source: "tame c (snd r) \<Longrightarrow> tame c (snd (with_source s r))"
proof -
  assume "tame c (snd r)"
  moreover have "tame x (x\<lparr>last_source := s\<rparr>)" for x :: "'a stepper_channel"
    by (rule still_fields) (simp_all add: loss_step_def)
  ultimately show ?thesis
    by (auto simp: with_source_def split: prod.splits option.splits intro: tame_trans)
qed

lemma tame_arm_pull: "tame c (snd (arm_pull_cycle c))"
proof (cases "enabled c")
  case True
  define l' where "l' = map_option (\<lambda>l. snd (try_acquire (channel_id (ch_cfg c)) l)) (ch_lock c)"
  define ok where "ok = (case ch_lock c of None \<Rightarrow> True | Some l \<Rightarrow> fst (try_acquire (channel_id (ch_cfg c)) l))"
  have eq: "(case ch_lock c of None \<Rightarrow> (True, c)
      | Some l \<Rightarrow> (let (ok, l) = try_acquire (channel_id (ch_cfg c)) l in (ok, c\<lparr>ch_lock := Some l\<rparr>))) =
      (ok, c\<lparr>ch_lock := l'\<rparr>)"
    by (simp add: l'_def ok_def split: option.splits prod.splits)
  have refused: "tame c (c\<lparr>ch_lock := l'\<rparr>)" by (rule still_fields) (simp_all add: loss_step_def)
  have released: "tame c (release_lock_if_held (c\<lparr>ch_lock := l', lock_held := h, retract_target := 0,
      retract_after_hold := True\<rparr>))" for h
    by (rule tame_release, rule tame_still) (simp_all add: still_def loss_step_def)
  show ?thesis
    unfolding arm_pull_cycle_def eq using True refused released
    by (auto simp: Let_def not_less intro!: tame_start [of c None c] simp: loss_step_def)
qed (simp add: arm_pull_cycle_def)

lemma tame_execute_pull: "tame c (snd (execute_pull_cycle ops nows c))"
proof -
  obtain r c1 where a: "arm_pull_cycle c = (r, c1)" by fastforce
  with tame_arm_pull [of c] have c1: "tame c c1" by simp
  have "tame c (pump_ticks ops 60000 nows c1)" by (rule tame_trans [OF c1 tame_pump])
  with c1 show ?thesis by (simp add: execute_pull_cycle_def a split: option.splits)
qed

lemma tame_set_enabled: "tame c (snd (set_enabled ops en c))"
  by (auto simp: set_enabled_def Let_def latch_step_loss_def split: option.splits prod.splits
      intro!: tame_release tame_still simp: still_def loss_step_def)

lemma tame_settings:
  "tame c (snd (set_speed hz c))" "tame c (snd (set_accel a c))" "tame c (snd (set_run_current ops a c))"
  "tame c (stop_motion c)" "tame c (snd (ctl_active_check_channel ops c))"
  by (auto simp: set_speed_def set_accel_def set_run_current_def stop_motion_def ctl_active_check_channel_def
      Let_def split: option.splits prod.splits intro!: tame_release tame_still simp: still_def loss_step_def)

lemma tame_lend: "tame c (lend l c)"
  by (rule still_fields) (simp_all add: lend_def loss_step_def)

text \<open>The remaining commands: a change of microstep rescales the positions, a new zero and an acknowledgement
  clear the latch.\<close>

fun is_rescale :: "motor_op \<Rightarrow> bool" where
  "is_rescale (SetMicrostep n) = True"
| "is_rescale _ = False"

definition clears_latch :: "motor_op \<Rightarrow> bool" where
  "clears_latch x \<longleftrightarrow> x = SetPositionZero \<or> x = AcknowledgeStepLoss"

lemma tame_chan_op: "\<not> clears_latch x \<Longrightarrow> \<not> is_rescale x \<Longrightarrow> tame c (chan_op ops x c)"
  by (cases x)
    (simp_all add: tame_move_steps tame_move_to_steps tame_home tame_arm_pull tame_execute_pull
      tame_set_enabled tame_settings tame_pulse_round move_millimeters_def move_to_millimeters_def
      rotate_motor_def tame_with_source Let_def clears_latch_def)

lemma zero_steps: "travel_step c (set_position_zero c) \<and> rate_step c (set_position_zero c)"
  unfolding set_position_zero_def
  by (rule still_steps) (simp add: still_def)

lemma ack_steps: "travel_step c (acknowledge_step_loss c) \<and> rate_step c (acknowledge_step_loss c)"
  unfolding acknowledge_step_loss_def by (rule still_steps) (simp add: still_def)

lemma microstep_steps:
  "loss_step c (snd (set_microstep ops n c)) \<and> rate_step c (snd (set_microstep ops n c))"
  by (auto simp: set_microstep_def rescale_def Let_def loss_step_def rate_step_def rate_ok_def split: option.splits)

lemma tameD: "tame c c' \<Longrightarrow> travel_step c c'" "tame c c' \<Longrightarrow> loss_step c c'" "tame c c' \<Longrightarrow> rate_step c c'"
  by (simp_all add: tame_def)

lemma steps_refl [simp]: "travel_step c c" "loss_step c c" "rate_step c c"
  by (rule tameD [OF tame_refl])+

lemma steps_trans:
  "travel_step a b \<Longrightarrow> travel_step b c \<Longrightarrow> travel_step a c"
  "loss_step a b \<Longrightarrow> loss_step b c \<Longrightarrow> loss_step a c"
  "rate_step a b \<Longrightarrow> rate_step b c \<Longrightarrow> rate_step a c"
  by (auto simp: travel_step_def loss_step_def rate_step_def)

lemma travel_chan_op: "\<not> is_rescale x \<Longrightarrow> travel_step c (chan_op ops x c)"
  using tame_chan_op [of x c ops] zero_steps [of c] ack_steps [of c]
  by (cases "clears_latch x") (auto simp: clears_latch_def tameD)

lemma loss_chan_op: "\<not> clears_latch x \<Longrightarrow> loss_step c (chan_op ops x c)"
  using tame_chan_op [of x c ops] microstep_steps [of c ops] by (cases x) (auto simp: tame_def)

lemma rate_chan_op: "rate_step c (chan_op ops x c)"
  using tame_chan_op [of x c ops] zero_steps [of c] ack_steps [of c] microstep_steps [of c ops]
  by (cases x) (auto simp: tame_def clears_latch_def)

subsection \<open>Histories\<close>

definition cfg_limits_ok :: "channel_config \<Rightarrow> bool" where
  "cfg_limits_ok cfg \<longleftrightarrow> 0 \<le> max_position_steps cfg \<and> 0 \<le> max_step_hz cfg"

fun rescales :: "ctl_op \<Rightarrow> bool" where
  "rescales (Motor m x) = is_rescale x"
| "rescales (Tick now dt) = False"

fun clears :: "ctl_op \<Rightarrow> bool" where
  "clears (Motor m x) = clears_latch x"
| "clears (Tick now dt) = False"

lemma new_controller_channel:
  assumes "new_controller ops cfgs drvs = Inr t" and "i < length cfgs"
  shows "i < length (channels t) \<and> channels t ! i = new_channel ops (cfgs ! i) (drvs ! i) (Some new_motion_lock)"
  using assms by (auto simp: new_controller_def split: if_splits)

lemma ctl_run_limits:
  assumes "new_controller ops cfgs drvs = Inr t" and "i < length cfgs" and "cfg_limits_ok (cfgs ! i)"
  shows "let c = channels (ctl_run ops t xs) ! i in
    \<not> current_step_hz c < 0 \<and> \<not> max_step_hz (cfgs ! i) < current_step_hz c \<and>
    (list_all (\<lambda>x. \<not> rescales x) xs \<longrightarrow>
      \<bar>position c\<bar> \<le> max_position_steps (cfgs ! i) \<and> \<bar>target c\<bar> \<le> max_position_steps (cfgs ! i))"
proof -
  let ?c = "channels t ! i" and ?d = "channels (ctl_run ops t xs) ! i"
  note c = new_controller_channel [OF assms(1,2)]
  have "rate_step ?c ?d"
    by (rule ctl_run_rel)
      (simp_all add: c rate_chan_op tameD(3) [OF tame_lend] tameD(3) [OF tame_channel_tick] steps_trans(3))
  moreover have "rate_ok ?c"
    using c assms(3) by (simp add: rate_ok_def new_channel_fields cfg_limits_ok_def dbl_le_imp_not_less)
  moreover have "travel_step ?c ?d" if "list_all (\<lambda>x. \<not> rescales x) xs"
  proof (rule ctl_run_rel)
    show "travel_step a (chan_op ops x a)" if "Motor m x \<in> set xs" for m x a
      using that \<open>list_all _ xs\<close> by (intro travel_chan_op) (auto simp: list_all_iff)
  qed (simp_all add: c tameD(1) [OF tame_lend] tameD(1) [OF tame_channel_tick] steps_trans(1))
  moreover have "travel_ok ?c"
    using c assms(3) by (simp add: travel_ok_def new_channel_fields cfg_limits_ok_def)
  moreover have "max_step_hz (ch_cfg ?c) = max_step_hz (cfgs ! i)"
    "max_position_steps (ch_cfg ?c) = max_position_steps (cfgs ! i)"
    using c by (simp_all add: new_channel_fields)
  ultimately show ?thesis
    by (auto simp: Let_def rate_step_def rate_ok_def travel_step_def travel_ok_def)
qed


text \<open>C22. A step loss is never forgotten: when a motor's count of step-loss events changes at some point of
  a history, or its position was already uncertain, the position is marked uncertain at the end, unless
  the operator zeroed or acknowledged.\<close>

theorem step_loss_latched:
  assumes "i < length (channels t)" and "list_all (\<lambda>x. \<not> clears x) xs"
    and "position_uncertain (channels t ! i) \<or>
      step_loss_events (channels (ctl_run ops t xs) ! i) \<noteq> step_loss_events (channels t ! i)"
  shows "position_uncertain (channels (ctl_run ops t xs) ! i)"
proof -
  have "loss_step (channels t ! i) (channels (ctl_run ops t xs) ! i)"
  proof (rule ctl_run_rel)
    show "loss_step a (chan_op ops x a)" if "Motor m x \<in> set xs" for m x a
      using that assms(2) by (intro loss_chan_op) (auto simp: list_all_iff)
  qed (simp_all add: assms(1) tameD(2) [OF tame_lend] tameD(2) [OF tame_channel_tick] steps_trans(2))
  with assms(3) show ?thesis by (auto simp: loss_step_def)
qed

subsection \<open>A command that starts no motion keeps the lock\<close>

text \<open>Every motor idle with a simulated driver, and the lock held.\<close>

definition quiet :: "int \<Rightarrow> simulated_driver stepper_controller \<Rightarrow> bool" where
  "quiet m t \<longleftrightarrow> list_all (\<lambda>c. mode c = Idle \<and> ch_driver c \<noteq> None) (channels t) \<and> lock_holder (shared_lock t) = m"

lemma idle_tick:
  assumes "mode c = Idle" and "ch_driver c \<noteq> None"
  shows "mode (channel_tick simulated_ops now dt c) = Idle \<and>
    ch_driver (channel_tick simulated_ops now dt c) \<noteq> None \<and>
    ch_lock (channel_tick simulated_ops now dt c) = ch_lock c"
  using assms
  by (auto simp: channel_tick_def tick_driver_def simulated_ops_def absorb_driver_step_loss_def tick_motion_def
      Let_def split: option.splits)

lemma quiet_tick:
  assumes "quiet m t"
  shows "quiet m (ctl_tick simulated_ops now dt t)"
proof -
  have "quiet m (ctl_tick simulated_ops now dt t) \<and> length (channels (ctl_tick simulated_ops now dt t)) = length (channels t)"
  proof (rule ctl_tick_induct [where P = "\<lambda>u. quiet m u \<and> length (channels u) = length (channels t)"
        and n = "length (channels t)"])
    fix i u
    assume u: "quiet m u \<and> length (channels u) = length (channels t)" and i: "i < length (channels t)"
    then have "mode (channels u ! i) = Idle" "ch_driver (channels u ! i) \<noteq> None"
      by (simp_all add: quiet_def list_all_length)
    then show "quiet m (change_channel i (channel_tick simulated_ops (now i) dt) u) \<and>
        length (channels (change_channel i (channel_tick simulated_ops (now i) dt) u)) = length (channels t)"
      using u i idle_tick [of "lend (shared_lock u) (channels u ! i)" "now i" dt]
      by (auto simp: quiet_def change_channel_def Let_def list_all_length nth_list_update lend_def)
  qed (use assms in auto)
  then show ?thesis ..
qed

lemma find_motor_update:
  "channel_id (ch_cfg c) = channel_id (ch_cfg (cs ! i)) \<Longrightarrow> find_motor m (cs[i := c]) = find_motor m cs"
proof (induction cs arbitrary: i)
  case (Cons a cs)
  then show ?case by (cases i) auto
qed simp

lemma change_fields:
  assumes "i < length (channels t)" and "ch_lock (f (lend (shared_lock t) (channels t ! i))) = Some l"
  shows "shared_lock (change_channel i f t) = l"
    "channels (change_channel i f t) = (channels t)[i := f (lend (shared_lock t) (channels t ! i))]"
  using assms by (simp_all add: change_channel_def Let_def)

lemma quiet_ticks:
  "quiet m t \<Longrightarrow> quiet m (ctl_run simulated_ops t (map (\<lambda>(now, dt). Tick now dt) ticks))"
  by (induction ticks arbitrary: t) (auto simp: ctl_run_def quiet_tick)

lemma sim_set_enabled:
  "ch_driver c \<noteq> None \<Longrightarrow> \<exists>d. snd (set_enabled simulated_ops True c) = c\<lparr>ch_driver := Some d, enabled := True\<rparr>"
  by (auto simp: set_enabled_def simulated_ops_def sim_enable_def Let_def)

lemma move_away:
  assumes "enabled c" "\<bar>g\<bar> \<le> max_position_steps (ch_cfg c)" "position c \<noteq> g" "\<not> lock_held c"
    "ch_lock c = Some l" "lock_holder l = - 1"
  shows "\<exists>c'. move_to_steps g 0 c = (None, c') \<and> enabled c' \<and> ch_cfg c' = ch_cfg c \<and> position c' = position c \<and>
    lock_held c' \<and> ch_lock c' = Some \<lparr>ml_holder = channel_id (ch_cfg c)\<rparr> \<and> ch_driver c' = ch_driver c \<and> mode c' = Moving"
  using assms
  by (cases l) (simp add: move_to_steps_def acquire_lock_for_motion_def try_acquire_def lock_holder_def Let_def)

lemma move_back:
  assumes "enabled c" "\<bar>position c\<bar> \<le> max_position_steps (ch_cfg c)"
  shows "\<exists>c'. move_to_steps (position c) 0 c = (None, c') \<and> ch_cfg c' = ch_cfg c \<and> ch_lock c' = ch_lock c \<and>
    lock_held c' = lock_held c \<and> ch_driver c' = ch_driver c \<and> mode c' = Idle"
  using assms by (simp add: move_to_steps_def Let_def not_less)

text \<open>A cancelled move never gives the lock back. With simulated drivers: after a fresh motor is enabled,
  sent to a position and, before its first pulse, sent back to where it stands, every motor is idle
  and the commands have succeeded, but the motor holds the motion lock from then on, whatever the number of ticks:
  no other motor can move, and the heater scheduler, which reads this lock, stays inhibited.\<close>

theorem cancelled_move_keeps_lock:
  assumes "new_controller simulated_ops cfgs drvs = Inr t" and "list_all (\<lambda>d. d \<noteq> None) drvs"
    and "find_motor m (channels t) = Some i" and "m \<noteq> - 1"
    and "g \<noteq> 0" and "\<bar>g\<bar> \<le> max_position_steps (cfgs ! i)"
  shows "let t' = ctl_run simulated_ops t
      ([Motor m (SetEnabled True), Motor m (MoveToSteps g 0), Motor m (MoveToSteps 0 0)] @
       map (\<lambda>(now, dt). Tick now dt) ticks) in
    list_all (\<lambda>c. mode c = Idle) (channels t') \<and> lock_holder (shared_lock t') = m \<and> lock_active (shared_lock t')"
proof -
  have i: "i < length (channels t)" "channel_id (ch_cfg (channels t ! i)) = m"
    using find_motor_bound [OF assms(3)] find_motor_id [OF assms(3)] by simp_all
  have len: "length cfgs = length drvs" "length (channels t) = length cfgs" "shared_lock t = new_motion_lock"
    using assms(1) by (auto simp: new_controller_def split: if_splits)
  note new = new_controller_channel [OF assms(1)]
  have fresh: "mode (channels t ! j) = Idle \<and> ch_driver (channels t ! j) \<noteq> None" if "j < length (channels t)" for j
    using new [of j] that assms(2) len
    by (auto simp: new_channel_fields list_all_length new_channel_def simulated_ops_def sim_enable_def Let_def
        split: option.splits)
  let ?c0 = "lend new_motion_lock (channels t ! i)"
  obtain d where d: "chan_op simulated_ops (SetEnabled True) ?c0 = ?c0\<lparr>ch_driver := Some d, enabled := True\<rparr>"
    using sim_set_enabled [of ?c0] fresh [OF i(1)] by (auto simp: lend_def)
  define c1 where "c1 = ?c0\<lparr>ch_driver := Some d, enabled := True\<rparr>"
  have c1: "enabled c1" "ch_cfg c1 = ch_cfg (channels t ! i)" "position c1 = 0" "\<not> lock_held c1"
    "ch_lock c1 = Some new_motion_lock" "ch_driver c1 = Some d" "max_position_steps (ch_cfg c1) = max_position_steps (cfgs ! i)"
    using new [of i] i(1) len by (simp_all add: c1_def lend_def new_channel_fields)
  obtain c2 where c2: "move_to_steps g 0 c1 = (None, c2)" "enabled c2" "ch_cfg c2 = ch_cfg c1" "position c2 = 0"
    "lock_held c2" "ch_lock c2 = Some \<lparr>ml_holder = m\<rparr>" "ch_driver c2 = Some d"
    using move_away [of c1 g new_motion_lock] c1 assms(5,6) i(2)
    by (auto simp: lock_holder_def new_motion_lock_def)
  have limit: "0 \<le> max_position_steps (cfgs ! i)" using assms(6) by linarith
  obtain c3 where c3: "move_to_steps 0 0 c2 = (None, c3)" "ch_cfg c3 = ch_cfg c1"
    "ch_lock c3 = Some \<lparr>ml_holder = m\<rparr>" "ch_driver c3 = Some d" "mode c3 = Idle"
    using move_back [of c2] c2 c1(7) limit by auto
  have lend_same: "lend l c = c" if "ch_lock c = Some l" for l and c :: "simulated_driver stepper_channel"
    using that by (simp add: lend_def flip: that)
  define u where "u = t\<lparr>shared_lock := \<lparr>ml_holder = m\<rparr>, channels := (channels t)[i := c3]\<rparr>"
  have "ctl_run simulated_ops t [Motor m (SetEnabled True), Motor m (MoveToSteps g 0), Motor m (MoveToSteps 0 0)] = u"
    using i c1 c2 c3 assms(3) len(3) d
    by (simp add: ctl_run_def motor_command_eq change_channel_def Let_def find_motor_update lend_same u_def
        flip: c1_def)
  moreover have "quiet m u"
    using fresh i(1) c3 by (auto simp: quiet_def u_def list_all_length nth_list_update lock_holder_def)
  ultimately have "quiet m (ctl_run simulated_ops t ([Motor m (SetEnabled True), Motor m (MoveToSteps g 0),
      Motor m (MoveToSteps 0 0)] @ map (\<lambda>(now, dt). Tick now dt) ticks))"
    using quiet_ticks [of m u ticks] by (simp add: ctl_run_def)
  then show ?thesis using assms(4) by (auto simp: quiet_def Let_def list_all_iff lock_active_iff)
qed

text \<open>Disabling keeps the abandoned target. When a motor with a simulated driver is disabled while it
  moves and enabled again, the next relative move starts from the target it was on its way to, not from
  where it stands: the new target differs from the position plus the commanded steps by the whole
  travel that was left.\<close>

theorem disabled_move_keeps_stale_target:
  assumes "chan_ok c" and "ch_driver c = Some d" and "ch_lock c = Some l" and "mode c = Moving"
    and "\<bar>target c + delta\<bar> \<le> max_position_steps (ch_cfg c)"
  shows "let c1 = snd (set_enabled simulated_ops False c); c2 = snd (set_enabled simulated_ops True c1) in
    mode c1 = Idle \<and> enabled c2 \<and>
    fst (move_steps delta c2) = None \<and> target (snd (move_steps delta c2)) = target c + delta \<and>
    position (snd (move_steps delta c2)) = position c"
proof -
  define c1 where "c1 = snd (set_enabled simulated_ops False c)"
  define c2 where "c2 = snd (set_enabled simulated_ops True c1)"
  have c1: "mode c1 = Idle" "ch_driver c1 \<noteq> None" "target c1 = target c" "position c1 = position c"
    "ch_cfg c1 = ch_cfg c" "\<not> lock_held c1" "\<exists>l. ch_lock c1 = Some l \<and> lock_holder l = - 1"
    using assms(1-4)
    by (auto simp: c1_def set_enabled_def simulated_ops_def sim_enable_def Let_def latch_step_loss_def
        release_lock_if_held_def chan_ok_def release_def lock_holder_def)
  then obtain d2 where c2: "c2 = c1\<lparr>ch_driver := Some d2, enabled := True\<rparr>"
    using sim_set_enabled [of c1] by (auto simp: c2_def)
  have "fst (move_steps delta c2) = None \<and> target (snd (move_steps delta c2)) = target c + delta \<and>
      position (snd (move_steps delta c2)) = position c"
    using c1 c2 assms(5)
    by (auto simp: move_steps_def acquire_lock_for_motion_def try_acquire_def lock_holder_def Let_def not_less)
  with c1(1) c2 show ?thesis unfolding Let_def c1_def [symmetric] c2_def [symmetric] by simp
qed

subsection \<open>The rig with two simulated motors\<close>

lemma example_limits: "cfg_limits_ok (example_cfgs ! 0)" "400 \<le> max_position_steps (example_cfgs ! 0)"
  unfolding example_cfgs_def cfg_limits_ok_def channel_default_def by (simp_all add: zero_one_dbl)


theorem step_loss_latched_witness:
  "position_uncertain (channels (ctl_run simulated_ops
      (example_controller\<lparr>channels := [(channels example_controller ! 0)\<lparr>position_uncertain := True\<rparr>]\<rparr>)
      [Motor 0 Stop]) ! 0)"
  by (rule step_loss_latched) (simp_all add: clears_latch_def)

theorem cancelled_move_keeps_lock_witness:
  "let t' = ctl_run simulated_ops example_controller
      ([Motor 0 (SetEnabled True), Motor 0 (MoveToSteps 400 0), Motor 0 (MoveToSteps 0 0)] @
       map (\<lambda>(now, dt). Tick now dt) [(\<lambda>i. 1, 1), (\<lambda>i. 2, 1)]) in
    list_all (\<lambda>c. mode c = Idle) (channels t') \<and> lock_holder (shared_lock t') = 0 \<and> lock_active (shared_lock t')"
  by (rule cancelled_move_keeps_lock [OF example_new _ example_motor(1)]) (simp_all add: example_ids example_limits)

definition example_moving :: "simulated_driver stepper_channel" where
  "example_moving =
     (new_channel simulated_ops channel_default (Some new_simulated_driver) (Some \<lparr>ml_holder = 0\<rparr>))
       \<lparr>lock_held := True, enabled := True, mode := Moving, target := 400, position := 100\<rparr>"

definition example_powered :: "simulated_driver stepper_channel" where
  "example_powered = example_moving\<lparr>ch_driver := Some (new_simulated_driver\<lparr>sim_enabled := True\<rparr>)\<rparr>"

theorem pulses_counted_toward_target_witness:
  "issue_pulses simulated_ops 2 example_powered = (2, snd (issue_pulses simulated_ops 2 example_powered)) \<and>
   position (snd (issue_pulses simulated_ops 2 example_powered)) = 102"
proof -
  have k: "fst (issue_pulses simulated_ops 2 example_powered) = 2"
    by (simp add: issue_pulses_def example_powered_def example_moving_def new_channel_fields sim_defs
        absorb_driver_step_loss_def numeral_2_eq_2 Let_def split: prod.splits)
  have p: "issue_pulses simulated_ops 2 example_powered = (2, snd (issue_pulses simulated_ops 2 example_powered))"
    by (simp flip: k)
  from pulses_counted_toward_target [OF sim.pulse_driver_axioms p] p show ?thesis
    by (simp add: example_powered_def example_moving_def new_channel_fields)
qed

theorem disabled_move_keeps_stale_target_witness:
  "let c1 = snd (set_enabled simulated_ops False example_moving); c2 = snd (set_enabled simulated_ops True c1) in
    mode c1 = Idle \<and> enabled c2 \<and>
    fst (move_steps 10 c2) = None \<and> target (snd (move_steps 10 c2)) = target example_moving + 10 \<and>
    position (snd (move_steps 10 c2)) = position example_moving"
proof (rule disabled_move_keeps_stale_target)
  show "ch_driver example_moving = Some (sim_set_microstep 4 new_simulated_driver)"
    by (simp add: example_moving_def new_channel_def is_supported_microstep_def channel_default_def
        simulated_ops_def Let_def)
qed (simp_all add: example_moving_def new_channel_fields chan_ok_def channel_default_def lock_holder_def)

end
