(* ===== verification/FallbackPlanner.thy ===== *)
theory FallbackPlanner
  imports Prelude Phase
begin

text \<open>
  The link-loss bend plan (\<^verbatim>\<open>fallback_planner.cpp\<close>): the operator loads a bend per motor and arms the
  plan; while the link is lost in the right phase, a tick may return the bend to start now, and the
  caller answers with the result of the start.  The plan is kept in a text file across restarts.
  Times are nanoseconds of the steady clock.
\<close>

datatype plan_state = PNone | PArmed | PRunning | PDone | PFailed
datatype motor_state = MUnconfigured | MPending | MRunning | MDone | MSkipped | MFailed

fun plan_state_to_string :: "plan_state \<Rightarrow> string" where
  "plan_state_to_string PNone = ''none''"
| "plan_state_to_string PArmed = ''armed''"
| "plan_state_to_string PRunning = ''running''"
| "plan_state_to_string PDone = ''done''"
| "plan_state_to_string PFailed = ''failed''"

fun motor_state_to_string :: "motor_state \<Rightarrow> string" where
  "motor_state_to_string MUnconfigured = ''unconfigured''"
| "motor_state_to_string MPending = ''pending''"
| "motor_state_to_string MRunning = ''running''"
| "motor_state_to_string MDone = ''done''"
| "motor_state_to_string MSkipped = ''skipped''"
| "motor_state_to_string MFailed = ''failed''"

definition parse_plan_state :: "string \<Rightarrow> plan_state option" where
  "parse_plan_state text =
     find (\<lambda>s. text = plan_state_to_string s) [PNone, PArmed, PRunning, PDone, PFailed]"

definition parse_motor_state :: "string \<Rightarrow> motor_state option" where
  "parse_motor_state text =
     find (\<lambda>s. text = motor_state_to_string s) [MUnconfigured, MPending, MRunning, MDone, MSkipped, MFailed]"

record planner_config =
  bend_min_c :: dbl
  bend_max_c :: dbl
  bend_deadline_s :: dbl

definition planner_config_default :: planner_config where
  "planner_config_default = \<lparr>bend_min_c = Fin (- 40), bend_max_c = Fin 40, bend_deadline_s = Fin 1800\<rparr>"

record motor_plan =
  configured :: bool
  target_usteps :: int
  plan_hold_s :: dbl
  speed_hz :: dbl
  motor_state :: motor_state

definition empty_plan :: motor_plan where
  "empty_plan = \<lparr>configured = False, target_usteps = 0, plan_hold_s = 0, speed_hz = 0, motor_state = MUnconfigured\<rparr>"

record motor_input =
  in_enabled :: bool
  in_zeroed :: bool
  in_healthy :: bool
  moving_or_holding :: bool
  aborted :: bool
  abort_reason :: string
  group_temp_c :: "dbl option"

definition no_input :: motor_input where
  "no_input = \<lparr>in_enabled = False, in_zeroed = False, in_healthy = False, moving_or_holding = False, aborted = False,
     abort_reason = [], group_temp_c = None\<rparr>"

record planner_input =
  fallback_active :: bool
  tick_phase :: mission_phase
  tick_now :: time_point
  tick_motors :: "motor_input list"

record fallback_action =
  act_motor_id :: nat
  act_target_usteps :: int
  act_hold_s :: dbl
  act_speed_hz :: dbl

record fallback_planner =
  pl_cfg :: planner_config
  pl_motors :: "motor_plan list"
  ticks_since_start :: "int list"
  pl_state :: plan_state
  deadline_started :: bool
  deadline_start :: time_point
  last_error :: string
  dirty :: bool

definition new_planner :: "planner_config \<Rightarrow> nat \<Rightarrow> fallback_planner" where
  "new_planner cfg n =
     \<lparr>pl_cfg = cfg, pl_motors = replicate n empty_plan, ticks_since_start = replicate n 0, pl_state = PNone,
      deadline_started = False, deadline_start = 0, last_error = [], dirty = False\<rparr>"

definition plan_armed :: "fallback_planner \<Rightarrow> bool" where
  "plan_armed p \<longleftrightarrow> pl_state p = PArmed \<or> pl_state p = PRunning"

definition motor_of :: "int \<Rightarrow> fallback_planner \<Rightarrow> motor_plan" where
  "motor_of m p = (if m < 0 \<or> int (length (pl_motors p)) \<le> m then empty_plan else pl_motors p ! nat m)"

subsection \<open>The operator's commands\<close>

definition reset_motor :: "motor_plan \<Rightarrow> motor_plan" where
  "reset_motor m = m\<lparr>motor_state := (if configured m then MPending else MUnconfigured)\<rparr>"

definition reset_to_none :: "fallback_planner \<Rightarrow> fallback_planner" where
  "reset_to_none p =
     p\<lparr>pl_state := PNone, deadline_started := False, last_error := [],
       pl_motors := map reset_motor (pl_motors p),
       ticks_since_start := replicate (length (pl_motors p)) 0\<rparr>"

definition clear_motors :: "fallback_planner \<Rightarrow> fallback_planner" where
  "clear_motors p = p\<lparr>pl_motors := map (\<lambda>m. empty_plan) (pl_motors p)\<rparr>"

definition set_motor_plan ::
  "int \<Rightarrow> int \<Rightarrow> dbl \<Rightarrow> dbl \<Rightarrow> fallback_planner \<Rightarrow> string option \<times> fallback_planner" where
  "set_motor_plan m goal hold hz p =
     (if m < 0 \<or> int (length (pl_motors p)) \<le> m then (Some ''invalid motor id'', p)
      else if pl_state p = PRunning then (Some ''plan running'', p)
      else
        (let p = (if pl_state p = PDone \<or> pl_state p = PFailed then reset_to_none p else p);
             plan = \<lparr>configured = True, target_usteps = goal, plan_hold_s = hold, speed_hz = hz, motor_state = MPending\<rparr>
         in (None, p\<lparr>pl_motors := (pl_motors p)[nat m := plan],
                     ticks_since_start := (ticks_since_start p)[nat m := 0], dirty := True\<rparr>)))"

definition arm_plan :: "fallback_planner \<Rightarrow> string option \<times> fallback_planner" where
  "arm_plan p =
     (if \<not> list_ex configured (pl_motors p) then (Some ''no plan loaded'', p)
      else if pl_state p = PRunning then (Some ''plan running'', p)
      else if pl_state p = PDone \<or> pl_state p = PFailed
      then (Some (''plan already '' @ plan_state_to_string (pl_state p) @ '' (FALLBACK_DISARM to clear)''), p)
      else (None, p\<lparr>pl_state := PArmed, last_error := [], dirty := True\<rparr>))"

definition disarm_plan :: "fallback_planner \<Rightarrow> fallback_planner" where
  "disarm_plan p = (reset_to_none p)\<lparr>dirty := True\<rparr>"

subsection \<open>The tick\<close>

definition settled :: "motor_plan \<Rightarrow> bool" where
  "settled m \<longleftrightarrow> motor_state m = MDone \<or> motor_state m = MSkipped \<or> motor_state m = MFailed"

definition all_settled :: "fallback_planner \<Rightarrow> bool" where
  "all_settled p \<longleftrightarrow> list_all (\<lambda>m. configured m \<longrightarrow> settled m) (pl_motors p)"

definition any_failed :: "fallback_planner \<Rightarrow> bool" where
  "any_failed p \<longleftrightarrow> list_ex (\<lambda>m. configured m \<and> motor_state m = MFailed) (pl_motors p)"

definition end_state :: "fallback_planner \<Rightarrow> plan_state" where
  "end_state p = (if any_failed p then PFailed else PDone)"

definition input_of :: "planner_input \<Rightarrow> nat \<Rightarrow> motor_input" where
  "input_of t i = (if i < length (tick_motors t) then tick_motors t ! i else no_input)"

text \<open>Whether a running motor has stopped, and how it ended.\<close>

definition track_motor :: "planner_input \<Rightarrow> nat \<Rightarrow> fallback_planner \<Rightarrow> fallback_planner" where
  "track_motor t i p =
     (let m = pl_motors p ! i in
      if motor_state m \<noteq> MRunning then p
      else
        (let n = ticks_since_start p ! i + 1; p = p\<lparr>ticks_since_start := (ticks_since_start p)[i := n]\<rparr> in
         if 1 \<le> n \<and> \<not> moving_or_holding (input_of t i)
         then
           if aborted (input_of t i)
           then p\<lparr>pl_motors := (pl_motors p)[i := m\<lparr>motor_state := MFailed\<rparr>],
                  last_error := CHR ''M'' # show_nat i @ '' bend aborted'' @
                    (let r = abort_reason (input_of t i) in if r = [] then [] else '': '' @ r),
                  dirty := True\<rparr>
           else p\<lparr>pl_motors := (pl_motors p)[i := m\<lparr>motor_state := MDone\<rparr>], dirty := True\<rparr>
         else p))"

definition track_motors :: "planner_input \<Rightarrow> fallback_planner \<Rightarrow> fallback_planner" where
  "track_motors t p =
     (let p = fold (track_motor t) [0..<length (pl_motors p)] p
      in if pl_state p = PRunning \<and> all_settled p then p\<lparr>pl_state := end_state p, dirty := True\<rparr> else p)"

definition motor_ready :: "motor_input \<Rightarrow> bool" where
  "motor_ready x \<longleftrightarrow> in_enabled x \<and> in_zeroed x \<and> in_healthy x"

definition window_ok :: "planner_config \<Rightarrow> motor_input \<Rightarrow> bool" where
  "window_ok cfg x \<longleftrightarrow>
     (case group_temp_c x of None \<Rightarrow> False | Some c \<Rightarrow> bend_min_c cfg \<le> c \<and> c \<le> bend_max_c cfg)"

text \<open>The search for the motor to start, in id order: a motor that must wait ends it, one that is still not
  ready at the deadline is skipped.  The flag tells that the end of the list was reached.\<close>

fun start_next ::
  "planner_input \<Rightarrow> bool \<Rightarrow> nat list \<Rightarrow> fallback_planner \<Rightarrow> fallback_action option \<times> bool \<times> fallback_planner" where
  "start_next t late [] p = (None, True, p)"
| "start_next t late (i # is) p =
     (let m = pl_motors p ! i; x = input_of t i in
      if \<not> configured m \<or> motor_state m \<noteq> MPending then start_next t late is p
      else if motor_ready x \<and> (window_ok (pl_cfg p) x \<or> late)
      then (Some \<lparr>act_motor_id = i, act_target_usteps = target_usteps m, act_hold_s = plan_hold_s m,
                  act_speed_hz = speed_hz m\<rparr>,
            False,
            p\<lparr>pl_motors := (pl_motors p)[i := m\<lparr>motor_state := MRunning\<rparr>], pl_state := PRunning,
              ticks_since_start := (ticks_since_start p)[i := 0], dirty := True\<rparr>)
      else if \<not> motor_ready x \<and> late
      then start_next t late is
             (p\<lparr>pl_motors := (pl_motors p)[i := m\<lparr>motor_state := MSkipped\<rparr>], dirty := True\<rparr>)
      else (None, False, p))"

definition window_phase :: "planner_input \<Rightarrow> bool" where
  "window_phase t \<longleftrightarrow> fallback_active t \<and> (tick_phase t = PreFloat \<or> tick_phase t = Float)"

definition planner_tick :: "planner_input \<Rightarrow> fallback_planner \<Rightarrow> fallback_action option \<times> fallback_planner" where
  "planner_tick t p =
     (let p = track_motors t p in
      if \<not> plan_armed p then (None, p)
      else
        (let p = (if window_phase t \<and> \<not> deadline_started p
                  then p\<lparr>deadline_started := True, deadline_start := tick_now t\<rparr> else p)
         in if \<not> window_phase t then (None, p)
            else if list_ex (\<lambda>m. motor_state m = MRunning) (pl_motors p) then (None, p)
            else
              (let late = (deadline_started p \<and>
                     bend_deadline_s (pl_cfg p) \<le> seconds_of (tick_now t - deadline_start p));
                   (a, ended, p) = start_next t late [0..<length (pl_motors p)] p
               in (a, if ended \<and> all_settled p then p\<lparr>pl_state := end_state p, dirty := True\<rparr> else p))))"

datatype start_result = Accepted | RetryLater | Refused string

definition report_start_result :: "int \<Rightarrow> start_result \<Rightarrow> fallback_planner \<Rightarrow> fallback_planner" where
  "report_start_result m r p =
     (if m < 0 \<or> int (length (pl_motors p)) \<le> m then p
      else
        (let i = nat m; plan = pl_motors p ! i in
         case r of
           Accepted \<Rightarrow> p
         | RetryLater \<Rightarrow>
             (let p = p\<lparr>pl_motors := (pl_motors p)[i := plan\<lparr>motor_state := MPending\<rparr>],
                        ticks_since_start := (ticks_since_start p)[i := 0]\<rparr>
              in p\<lparr>pl_state := (if list_ex (\<lambda>m. motor_state m = MDone) (pl_motors p) then PRunning else PArmed),
                   dirty := True\<rparr>)
         | Refused e \<Rightarrow>
             p\<lparr>pl_motors := (pl_motors p)[i := plan\<lparr>motor_state := MFailed\<rparr>], pl_state := PFailed,
               last_error := (if e = [] then ''start refused'' else e), dirty := True\<rparr>))"

subsection \<open>Status and persistence\<close>

definition flag_text :: "bool \<Rightarrow> string" where
  "flag_text b = (if b then ''1'' else ''0'')"

definition plan_text :: "char \<Rightarrow> motor_plan \<Rightarrow> string" where
  "plan_text sep m =
     show_int (target_usteps m) @ sep # show_double (plan_hold_s m) @ sep # show_double (speed_hz m) @
     sep # motor_state_to_string (motor_state m)"

fun indexed :: "nat \<Rightarrow> 'a list \<Rightarrow> (nat \<times> 'a) list" where
  "indexed i [] = []"
| "indexed i (x # xs) = (i, x) # indexed (Suc i) xs"

definition status_body :: "fallback_planner \<Rightarrow> string" where
  "status_body p =
     ''state='' @ plan_state_to_string (pl_state p) @ '';armed='' @ flag_text (plan_armed p) @
     '';deadline_s='' @ show_double (bend_deadline_s (pl_cfg p)) @
     '';deadline_started='' @ flag_text (deadline_started p) @
     concat (map (\<lambda>(i, m). '';m'' @ show_nat i @ ''='' @ (if configured m then plan_text (CHR ''/'') m else ''-''))
       (indexed 0 (pl_motors p))) @
     (if last_error p = [] then [] else '';error='' @ last_error p)"

definition take_dirty :: "fallback_planner \<Rightarrow> bool \<times> fallback_planner" where
  "take_dirty p = (dirty p, p\<lparr>dirty := False\<rparr>)"

abbreviation line_end :: char where
  "line_end \<equiv> char_of (10 :: nat)"

definition motor_line :: "nat \<times> motor_plan \<Rightarrow> string" where
  "motor_line = (\<lambda>(i, m). CHR ''m'' # show_nat i @ CHR ''='' # plan_text (CHR '','') m)"

definition plan_lines :: "fallback_planner \<Rightarrow> string list" where
  "plan_lines p =
     [''armed='' @ flag_text (plan_armed p), ''state='' @ plan_state_to_string (pl_state p),
      ''deadline_s='' @ show_double (bend_deadline_s (pl_cfg p))] @
     map motor_line (filter (\<lambda>x. configured (snd x)) (indexed 0 (pl_motors p)))"

definition serialize_plan :: "fallback_planner \<Rightarrow> string" where
  "serialize_plan p = concat (map (\<lambda>l. l @ [line_end]) (plan_lines p))"

definition parse_int64_text :: "string \<Rightarrow> int option" where
  "parse_int64_text s = (case stoll s of Some (v, n) \<Rightarrow> if n \<noteq> length s then None else Some v | None \<Rightarrow> None)"

definition parse_double_text :: "string \<Rightarrow> dbl option" where
  "parse_double_text s = (case stod s of Some (v, n) \<Rightarrow> if n \<noteq> length s then None else Some v | None \<Rightarrow> None)"

definition is_line_space :: "char \<Rightarrow> bool" where
  "is_line_space c \<longleftrightarrow> char_code c \<in> {32, 9, 13, 10}"

definition trim_line :: "string \<Rightarrow> string" where
  "trim_line s = rev (dropWhile is_line_space (rev (dropWhile is_line_space s)))"

definition parse_motor_plan :: "string \<Rightarrow> motor_plan option" where
  "parse_motor_plan spec =
     (case split_fields (CHR '','') spec of
        [f0, f1, f2, f3] \<Rightarrow>
          (case (parse_int64_text f0, parse_double_text f1, parse_double_text f2, parse_motor_state f3) of
             (Some goal, Some hold, Some hz, Some st) \<Rightarrow>
               (if st = MUnconfigured then None
                else Some \<lparr>configured = True, target_usteps = goal, plan_hold_s = hold, speed_hz = hz, motor_state = st\<rparr>)
           | _ \<Rightarrow> None)
      | _ \<Rightarrow> None)"

text \<open>What a line adds to the plan read so far (the state when seen, the motors); \<open>None\<close> is a corrupt line.\<close>

definition parse_plan_line ::
  "string \<Rightarrow> plan_state option \<times> motor_plan list \<Rightarrow> (plan_state option \<times> motor_plan list) option" where
  "parse_plan_line raw = (\<lambda>(st, plans).
     let line = trim_line raw in
     if line = [] \<or> hd line = CHR ''#'' then Some (st, plans)
     else case split_first (CHR ''='') line of
       None \<Rightarrow> None
     | Some (key, val) \<Rightarrow>
         (if key = ''state''
          then (case parse_plan_state val of None \<Rightarrow> None | Some s \<Rightarrow> Some (Some s, plans))
          else if 2 \<le> length key \<and> hd key = CHR ''m''
          then (case parse_int64_text (tl key) of
                  None \<Rightarrow> None
                | Some i \<Rightarrow>
                    (if i < 0 \<or> int (length plans) \<le> i then None
                     else case parse_motor_plan val of None \<Rightarrow> None | Some m \<Rightarrow> Some (st, plans[nat i := m])))
          else Some (st, plans)))"

fun parse_plan_lines ::
  "string list \<Rightarrow> plan_state option \<times> motor_plan list \<Rightarrow> (plan_state option \<times> motor_plan list) option" where
  "parse_plan_lines [] acc = Some acc"
| "parse_plan_lines (l # ls) acc =
     (case parse_plan_line l acc of None \<Rightarrow> None | Some acc \<Rightarrow> parse_plan_lines ls acc)"

definition deserialize_plan :: "string \<Rightarrow> fallback_planner \<Rightarrow> bool \<times> fallback_planner" where
  "deserialize_plan text p =
     (let p = reset_to_none (clear_motors p) in
      case parse_plan_lines (split_fields line_end text) (None, replicate (length (pl_motors p)) empty_plan) of
        None \<Rightarrow> (False, p)
      | Some (None, plans) \<Rightarrow> (False, p)
      | Some (Some st, plans) \<Rightarrow>
          (if st \<noteq> PNone \<and> \<not> list_ex configured plans then (False, p)
           else (True, p\<lparr>pl_motors := plans, pl_state := st\<rparr>)))"

text \<open>The file: \<open>None\<close> when it cannot be opened.\<close>

definition save_plan :: "bool \<Rightarrow> bool \<Rightarrow> fallback_planner \<Rightarrow> string option \<Rightarrow> bool \<times> string option" where
  "save_plan open_ok write_ok p file =
     (if \<not> open_ok then (False, file)
      else if write_ok then (True, Some (serialize_plan p)) else (False, Some []))"

definition load_plan :: "string option \<Rightarrow> fallback_planner \<Rightarrow> bool \<times> fallback_planner" where
  "load_plan content p =
     (case content of
        None \<Rightarrow> (False, reset_to_none (clear_motors p))
      | Some text \<Rightarrow>
          (let (ok, p) = deserialize_plan text p
           in if ok then (True, p) else (False, reset_to_none (clear_motors p))))"

end
