(* ===== verification/FallbackProperties.thy ===== *)
theory FallbackProperties
  imports FallbackPlanner
begin

text \<open>
  What the link-loss bend plan guarantees: when a motor may be started, that one motor bends at a time
  under every interleaving of the command thread with the tick thread, and that a finished plan stays
  finished, restarts included.
\<close>

subsection \<open>Tracking\<close>

text \<open>\<^verbatim>\<open>q\<close> is \<^verbatim>\<open>p\<close> except that some of the motors in state \<^verbatim>\<open>s\<close> went to a state of \<^verbatim>\<open>S\<close>.\<close>

definition moved_on :: "motor_state \<Rightarrow> motor_state set \<Rightarrow> fallback_planner \<Rightarrow> fallback_planner \<Rightarrow> bool" where
  "moved_on s S p q \<longleftrightarrow>
     pl_cfg q = pl_cfg p \<and> pl_state q = pl_state p \<and> deadline_started q = deadline_started p \<and>
     deadline_start q = deadline_start p \<and> length (pl_motors q) = length (pl_motors p) \<and>
     (\<forall>i < length (pl_motors p). pl_motors q ! i = pl_motors p ! i \<or>
        motor_state (pl_motors p ! i) = s \<and>
        (\<exists>s' \<in> S. pl_motors q ! i = (pl_motors p ! i)\<lparr>motor_state := s'\<rparr>))"

lemma moved_on_refl: "moved_on s S p p"
  by (simp add: moved_on_def)

lemma moved_on_trans: "moved_on s S p q \<Longrightarrow> moved_on s S q r \<Longrightarrow> moved_on s S p r"
proof -
  assume pq: "moved_on s S p q" and qr: "moved_on s S q r"
  have "pl_motors r ! i = pl_motors p ! i \<or> motor_state (pl_motors p ! i) = s \<and>
      (\<exists>s' \<in> S. pl_motors r ! i = (pl_motors p ! i)\<lparr>motor_state := s'\<rparr>)" if "i < length (pl_motors p)" for i
  proof -
    have "i < length (pl_motors q)" using that pq by (simp add: moved_on_def)
    then have "pl_motors r ! i = pl_motors q ! i \<or> (\<exists>s' \<in> S. pl_motors r ! i = (pl_motors q ! i)\<lparr>motor_state := s'\<rparr>) \<and>
        motor_state (pl_motors q ! i) = s"
      using qr by (auto simp: moved_on_def)
    moreover have "pl_motors q ! i = pl_motors p ! i \<or> (\<exists>s' \<in> S. pl_motors q ! i = (pl_motors p ! i)\<lparr>motor_state := s'\<rparr>) \<and>
        motor_state (pl_motors p ! i) = s"
      using pq that by (auto simp: moved_on_def)
    ultimately show ?thesis by fastforce
  qed
  then show ?thesis using pq qr by (simp add: moved_on_def)
qed

lemma track_motor_moved: "i < length (pl_motors p) \<Longrightarrow> moved_on MRunning {MDone, MFailed} p (track_motor t i p)"
  by (auto simp: track_motor_def moved_on_def Let_def nth_list_update)

lemma track_fold_moved:
  "set is \<subseteq> {..<length (pl_motors p)} \<Longrightarrow> moved_on MRunning {MDone, MFailed} p (fold (track_motor t) is p)"
proof (induction "is" arbitrary: p)
  case Nil
  then show ?case by (simp add: moved_on_refl)
next
  case (Cons i "is")
  then have one: "moved_on MRunning {MDone, MFailed} p (track_motor t i p)" by (simp add: track_motor_moved)
  then have "length (pl_motors (track_motor t i p)) = length (pl_motors p)" by (simp add: moved_on_def)
  then have "moved_on MRunning {MDone, MFailed} (track_motor t i p) (fold (track_motor t) is (track_motor t i p))"
    using Cons by simp
  then show ?case using one by (simp add: moved_on_trans)
qed

definition tracked_fold :: "planner_input \<Rightarrow> fallback_planner \<Rightarrow> fallback_planner" where
  "tracked_fold t p = fold (track_motor t) [0..<length (pl_motors p)] p"

lemma tracked_moved: "moved_on MRunning {MDone, MFailed} p (tracked_fold t p)"
  unfolding tracked_fold_def by (rule track_fold_moved) auto

lemma track_motors_eq:
  "track_motors t p =
     (if pl_state p = PRunning \<and> all_settled (tracked_fold t p)
      then (tracked_fold t p)\<lparr>pl_state := end_state (tracked_fold t p), dirty := True\<rparr> else tracked_fold t p)"
  using tracked_moved [of p t] by (simp add: track_motors_def tracked_fold_def Let_def moved_on_def)

definition runs :: "fallback_planner \<Rightarrow> nat \<Rightarrow> bool" where
  "runs p i \<longleftrightarrow> motor_state (pl_motors p ! i) = MRunning"

lemma runs_moved:
  "moved_on MPending {MSkipped} p q \<Longrightarrow> i < length (pl_motors p) \<Longrightarrow> runs q i = runs p i"
  unfolding moved_on_def runs_def by fastforce

subsection \<open>The search for the motor to start\<close>

definition waiting :: "fallback_planner \<Rightarrow> nat \<Rightarrow> bool" where
  "waiting p i \<longleftrightarrow> configured (pl_motors p ! i) \<and> motor_state (pl_motors p ! i) = MPending"

definition action_of :: "nat \<Rightarrow> motor_plan \<Rightarrow> fallback_action" where
  "action_of i m = \<lparr>act_motor_id = i, act_target_usteps = target_usteps m, act_hold_s = plan_hold_s m, act_speed_hz = speed_hz m\<rparr>"

definition start_motor :: "nat \<Rightarrow> fallback_planner \<Rightarrow> fallback_planner" where
  "start_motor i p =
     p\<lparr>pl_motors := (pl_motors p)[i := (pl_motors p ! i)\<lparr>motor_state := MRunning\<rparr>], pl_state := PRunning,
       ticks_since_start := (ticks_since_start p)[i := 0], dirty := True\<rparr>"

lemma start_motor_simps [simp]:
  "pl_cfg (start_motor i p) = pl_cfg p" "length (pl_motors (start_motor i p)) = length (pl_motors p)"
  "pl_state (start_motor i p) = PRunning"
  by (simp_all add: start_motor_def)

lemma runs_start: "k < length (pl_motors p) \<Longrightarrow> runs (start_motor i p) k \<longleftrightarrow> k = i \<or> runs p k"
  by (cases "k = i") (simp_all add: runs_def start_motor_def)

definition may_start :: "planner_input \<Rightarrow> bool \<Rightarrow> fallback_planner \<Rightarrow> nat \<Rightarrow> bool" where
  "may_start t late p i \<longleftrightarrow>
     waiting p i \<and> motor_ready (input_of t i) \<and> (window_ok (pl_cfg p) (input_of t i) \<or> late)"

definition skip_motor :: "nat \<Rightarrow> fallback_planner \<Rightarrow> fallback_planner" where
  "skip_motor i p =
     p\<lparr>pl_motors := (pl_motors p)[i := (pl_motors p ! i)\<lparr>motor_state := MSkipped\<rparr>], dirty := True\<rparr>"

lemma start_next_Cons:
  "start_next t late (i # is) p =
     (if \<not> waiting p i then start_next t late is p
      else if may_start t late p i then (Some (action_of i (pl_motors p ! i)), False, start_motor i p)
      else if \<not> motor_ready (input_of t i) \<and> late then start_next t late is (skip_motor i p)
      else (None, False, p))"
  by (simp add: waiting_def may_start_def action_of_def start_motor_def skip_motor_def Let_def)

declare start_next.simps(2) [simp del]

lemma start_next_Cons_cases:
  assumes "start_next t late (i # is) p = (a, e, q)"
  shows "\<not> waiting p i \<and> start_next t late is p = (a, e, q) \<or>
    waiting p i \<and> start_next t late is (skip_motor i p) = (a, e, q) \<or>
    may_start t late p i \<and> a = Some (action_of i (pl_motors p ! i)) \<and> \<not> e \<and> q = start_motor i p \<or>
    a = None \<and> e = False \<and> q = p"
proof (cases "waiting p i")
  case True
  show ?thesis
  proof (cases "may_start t late p i")
    case True
    then show ?thesis using assms by (auto simp: start_next_Cons may_start_def)
  next
    case False
    then show ?thesis using assms True
      by (cases "\<not> motor_ready (input_of t i) \<and> late") (auto simp: start_next_Cons)
  qed
next
  case False
  then show ?thesis using assms by (simp add: start_next_Cons)
qed

lemma skip_motor_moved: "i < length (pl_motors p) \<Longrightarrow> waiting p i \<Longrightarrow> moved_on MPending {MSkipped} p (skip_motor i p)"
  by (auto simp: skip_motor_def moved_on_def waiting_def nth_list_update)

lemma skip_motor_waiting:
  "i < length (pl_motors p) \<Longrightarrow> waiting (skip_motor i p) j \<longleftrightarrow> waiting p j \<and> j \<noteq> i"
  by (auto simp: skip_motor_def waiting_def nth_list_update)

lemma skip_motor_may_start:
  "i < length (pl_motors p) \<Longrightarrow> may_start t late (skip_motor i p) j \<longleftrightarrow> may_start t late p j \<and> j \<noteq> i"
  by (auto simp: may_start_def skip_motor_waiting) (simp_all add: skip_motor_def)

lemma start_next_None:
  "start_next t late is p = (None, e, q) \<Longrightarrow> set is \<subseteq> {..<length (pl_motors p)} \<Longrightarrow>
     moved_on MPending {MSkipped} p q \<and> (e \<longrightarrow> (\<forall>i \<in> set is. \<not> waiting q i))"
proof (induction "is" arbitrary: p)
  case Nil
  then show ?case by (simp add: moved_on_refl)
next
  case (Cons i "is")
  have len: "i < length (pl_motors p)" "set is \<subseteq> {..<length (pl_motors p)}" using Cons.prems by auto
  have gone: "\<not> waiting q j" if "\<not> waiting r j" "moved_on MPending {MSkipped} r q" "j < length (pl_motors r)" for j r
    using that by (auto simp: moved_on_def waiting_def)
  consider "\<not> waiting p i" "start_next t late is p = (None, e, q)"
    | "waiting p i" "start_next t late is (skip_motor i p) = (None, e, q)"
    | "e = False" "q = p"
    using start_next_Cons_cases [OF Cons.prems(1)] by blast
  then show ?case
  proof cases
    case 1
    have IH: "moved_on MPending {MSkipped} p q" "e \<longrightarrow> (\<forall>i \<in> set is. \<not> waiting q i)"
      using Cons.IH [OF 1(2) len(2)] by blast+
    show ?thesis using IH gone [OF 1(1) IH(1) len(1)] by (simp only: list.set ball_simps simp_thms)
  next
    case 2
    have len': "length (pl_motors (skip_motor i p)) = length (pl_motors p)" by (simp add: skip_motor_def)
    have "moved_on MPending {MSkipped} (skip_motor i p) q \<and> (e \<longrightarrow> (\<forall>j \<in> set is. \<not> waiting q j))"
      using Cons.IH [OF 2(2)] len len' by simp
    then have IH: "moved_on MPending {MSkipped} (skip_motor i p) q" "e \<longrightarrow> (\<forall>j \<in> set is. \<not> waiting q j)" by blast+
    have "\<not> waiting q i"
      by (rule gone [OF _ IH(1)]) (simp_all only: skip_motor_waiting [OF len(1)] len' len(1) simp_thms)
    then show ?thesis
      using IH(2) moved_on_trans [OF skip_motor_moved [OF len(1) 2(1)] IH(1)] by (simp only: list.set ball_simps simp_thms)
  next
    case 3
    then show ?thesis by (simp add: moved_on_refl)
  qed
qed

lemma start_next_Some:
  "start_next t late is p = (Some a, e, q) \<Longrightarrow> distinct is \<Longrightarrow> set is \<subseteq> {..<length (pl_motors p)} \<Longrightarrow>
     \<exists>i pre post r. is = pre @ i # post \<and> moved_on MPending {MSkipped} p r \<and> (\<forall>j \<in> set pre. \<not> waiting r j) \<and>
       pl_motors r ! i = pl_motors p ! i \<and> may_start t late p i \<and> a = action_of i (pl_motors p ! i) \<and>
       \<not> e \<and> q = start_motor i r"
proof (induction "is" arbitrary: p)
  case Nil
  then show ?case by simp
next
  case (Cons k "is")
  have len: "k < length (pl_motors p)" "set is \<subseteq> {..<length (pl_motors p)}" "k \<notin> set is" "distinct is"
    using Cons.prems by auto
  have gone: "\<not> waiting r j" if "\<not> waiting p' j" "moved_on MPending {MSkipped} p' r" "j < length (pl_motors p')" for j r p'
    using that by (auto simp: moved_on_def waiting_def)
  consider "\<not> waiting p k" "start_next t late is p = (Some a, e, q)"
    | "waiting p k" "start_next t late is (skip_motor k p) = (Some a, e, q)"
    | "may_start t late p k" "a = action_of k (pl_motors p ! k)" "\<not> e" "q = start_motor k p"
    using start_next_Cons_cases [OF Cons.prems(1)] by blast
  then show ?case
  proof cases
    case 1
    obtain i pre post r where r: "is = pre @ i # post" "moved_on MPending {MSkipped} p r" "\<forall>j \<in> set pre. \<not> waiting r j"
        "pl_motors r ! i = pl_motors p ! i" "may_start t late p i" "a = action_of i (pl_motors p ! i)" "\<not> e" "q = start_motor i r"
      using Cons.IH [OF 1(2) len(4,2)] by blast
    have "\<forall>j \<in> set (k # pre). \<not> waiting r j" using r(3) gone [OF 1(1) r(2) len(1)] by simp
    then show ?thesis using r(1,2,4-8)
      by (intro exI [of _ i] exI [of _ "k # pre"] exI [of _ post] exI [of _ r])
        (simp only: append_Cons simp_thms)
  next
    case 2
    have len': "set is \<subseteq> {..<length (pl_motors (skip_motor k p))}" using len by (simp add: skip_motor_def)
    obtain i pre post r where r: "is = pre @ i # post" "moved_on MPending {MSkipped} (skip_motor k p) r" "\<forall>j \<in> set pre. \<not> waiting r j"
        "pl_motors r ! i = pl_motors (skip_motor k p) ! i" "may_start t late (skip_motor k p) i"
        "a = action_of i (pl_motors (skip_motor k p) ! i)" "\<not> e" "q = start_motor i r"
      using Cons.IH [OF 2(2) len(4) len'] by blast
    have "i \<noteq> k" using r(1) len(3) by auto
    then have same: "pl_motors (skip_motor k p) ! i = pl_motors p ! i" by (simp add: skip_motor_def)
    have "\<not> waiting r k"
      by (rule gone [OF _ r(2)]) (simp_all add: skip_motor_waiting [OF len(1)], simp add: skip_motor_def len(1))
    then have "\<forall>j \<in> set (k # pre). \<not> waiting r j" using r(3) by simp
    moreover have "moved_on MPending {MSkipped} p r" using moved_on_trans [OF skip_motor_moved [OF len(1) 2(1)] r(2)] .
    moreover have "may_start t late p i" using r(5) by (simp add: skip_motor_may_start [OF len(1)])
    ultimately show ?thesis using r(1,4,6-8) same
      by (intro exI [of _ i] exI [of _ "k # pre"] exI [of _ post] exI [of _ r])
        (simp only: append_Cons simp_thms)
  next
    case 3
    then show ?thesis by (intro exI [of _ k] exI [of _ "[]"] exI [of _ "is"] exI [of _ p]) (simp add: moved_on_refl)
  qed
qed

subsection \<open>The tick, case by case\<close>

definition deadline_run :: "planner_input \<Rightarrow> fallback_planner \<Rightarrow> fallback_planner" where
  "deadline_run t p =
     (if deadline_started p then p else p\<lparr>deadline_started := True, deadline_start := tick_now t\<rparr>)"

definition is_late :: "planner_input \<Rightarrow> fallback_planner \<Rightarrow> bool" where
  "is_late t p \<longleftrightarrow>
     bend_deadline_s (pl_cfg p) \<le> seconds_of (tick_now t - (if deadline_started p then deadline_start p else tick_now t))"

lemma deadline_run_simps [simp]:
  "pl_motors (deadline_run t p) = pl_motors p" "pl_cfg (deadline_run t p) = pl_cfg p"
  "pl_state (deadline_run t p) = pl_state p" "deadline_started (deadline_run t p)"
  by (simp_all add: deadline_run_def)

lemma planner_tick_eq:
  "planner_tick t p =
     (let q = track_motors t p in
      if \<not> plan_armed q \<or> \<not> window_phase t then (None, q)
      else if list_ex (\<lambda>m. motor_state m = MRunning) (pl_motors q) then (None, deadline_run t q)
      else
        (let (a, ended, r) = start_next t (is_late t q) [0..<length (pl_motors q)] (deadline_run t q)
         in (a, if ended \<and> all_settled r then r\<lparr>pl_state := end_state r, dirty := True\<rparr> else r)))"
  by (simp add: planner_tick_def Let_def deadline_run_def is_late_def)

lemma any_runs: "list_ex (\<lambda>m. motor_state m = MRunning) (pl_motors p) \<longleftrightarrow> (\<exists>i < length (pl_motors p). runs p i)"
  by (simp add: list_ex_length runs_def)

lemma tracked_fold_simps [simp]:
  "pl_cfg (tracked_fold t p) = pl_cfg p" "length (pl_motors (tracked_fold t p)) = length (pl_motors p)"
  "pl_state (tracked_fold t p) = pl_state p" "deadline_started (tracked_fold t p) = deadline_started p"
  "deadline_start (tracked_fold t p) = deadline_start p"
  using tracked_moved [of p t] by (simp_all add: moved_on_def)

lemma track_motors_simps [simp]:
  "pl_cfg (track_motors t p) = pl_cfg p" "length (pl_motors (track_motors t p)) = length (pl_motors p)"
  "deadline_started (track_motors t p) = deadline_started p" "deadline_start (track_motors t p) = deadline_start p"
  "pl_motors (track_motors t p) = pl_motors (tracked_fold t p)"
  by (simp_all add: track_motors_eq tracked_fold_simps)

lemma tracked_motor:
  "i < length (pl_motors p) \<Longrightarrow> pl_motors (tracked_fold t p) ! i = pl_motors p ! i \<or>
     runs p i \<and> (\<exists>s' \<in> {MDone, MFailed}. pl_motors (tracked_fold t p) ! i = (pl_motors p ! i)\<lparr>motor_state := s'\<rparr>)"
  using tracked_moved [of p t] by (simp add: moved_on_def runs_def)

lemma waiting_tracked: "i < length (pl_motors p) \<Longrightarrow> waiting (track_motors t p) i = waiting p i"
  using tracked_motor [of i p t] by (auto simp: waiting_def runs_def)

lemma runs_tracked: "i < length (pl_motors p) \<Longrightarrow> runs (track_motors t p) i \<Longrightarrow> runs p i"
  using tracked_motor [of i p t] by (auto simp: runs_def)

lemma plan_armed_tracked: "plan_armed (track_motors t p) \<Longrightarrow> plan_armed p"
  by (auto simp: track_motors_eq plan_armed_def tracked_fold_simps split: if_splits)

lemma upt_split: "[0..<n] = pre @ i # post \<Longrightarrow> pre = [0..<i] \<and> i < n"
proof -
  assume eq: "[0..<n] = pre @ i # post"
  have len: "length pre < n" using arg_cong [OF eq, of length] by simp
  have "[0..<n] ! length pre = i" by (simp add: eq)
  then have "i = length pre" using len by simp
  moreover have "take (length pre) [0..<n] = pre" by (simp add: eq)
  ultimately show ?thesis using len by simp
qed

lemma tick_starts:
  assumes "planner_tick t p = (Some a, p')"
  obtains i r q where
    "q = deadline_run t (track_motors t p)" "moved_on MPending {MSkipped} q r"
    "plan_armed p" "window_phase t" "i < length (pl_motors p)" "\<forall>k < length (pl_motors p). \<not> runs q k"
    "\<forall>k < i. \<not> waiting r k" "waiting p i" "motor_ready (input_of t i)"
    "window_ok (pl_cfg p) (input_of t i) \<or> is_late t p" "pl_motors r ! i = pl_motors p ! i"
    "a = action_of i (pl_motors p ! i)" "p' = start_motor i r"
proof -
  define q where "q = track_motors t p"
  have act: "plan_armed q" "window_phase t" "\<not> (\<exists>i < length (pl_motors q). runs q i)"
    using assms unfolding planner_tick_eq Let_def q_def [symmetric] any_runs by (auto split: if_splits)
  obtain e r' where sn: "start_next t (is_late t q) [0..<length (pl_motors q)] (deadline_run t q) = (Some a, e, r')"
      "p' = (if e \<and> all_settled r' then r'\<lparr>pl_state := end_state r', dirty := True\<rparr> else r')"
    using assms act unfolding planner_tick_eq Let_def q_def [symmetric] any_runs
    by (cases "start_next t (is_late t q) [0..<length (pl_motors q)] (deadline_run t q)") auto
  have sub: "set [0..<length (pl_motors q)] \<subseteq> {..<length (pl_motors (deadline_run t q))}" by auto
  obtain i pre post r where r: "[0..<length (pl_motors q)] = pre @ i # post"
      "moved_on MPending {MSkipped} (deadline_run t q) r" "\<forall>j \<in> set pre. \<not> waiting r j"
      "pl_motors r ! i = pl_motors (deadline_run t q) ! i" "may_start t (is_late t q) (deadline_run t q) i"
      "a = action_of i (pl_motors (deadline_run t q) ! i)" "\<not> e" "r' = start_motor i r"
    using start_next_Some [OF sn(1) distinct_upt sub] by blast
  have pre: "pre = [0..<i]" and i: "i < length (pl_motors q)"
    using upt_split [OF r(1)] by blast+
  have len: "length (pl_motors q) = length (pl_motors p)" by (simp add: q_def)
  have w: "waiting p i" using r(5) i len waiting_tracked [of i p t]
    by (simp add: may_start_def waiting_def q_def)
  then have same: "pl_motors q ! i = pl_motors p ! i"
    using tracked_motor [of i p t] i len by (auto simp: q_def runs_def waiting_def)
  show ?thesis
  proof (rule that [of "deadline_run t q" r i])
    show "window_ok (pl_cfg p) (input_of t i) \<or> is_late t p"
      using r(5) by (cases "deadline_started p") (simp_all add: may_start_def q_def is_late_def)
    show "plan_armed p" using act(1) by (simp add: q_def plan_armed_tracked)
  qed (use act r sn w same pre i len in \<open>auto simp: q_def may_start_def runs_def\<close>)
qed

subsection \<open>A plan and a tick for the examples\<close>

definition example_plan :: fallback_planner where
  "example_plan =
     snd (arm_plan (snd (set_motor_plan 1 600 (Fin 3) (Fin 0) (snd (set_motor_plan 0 800 (Fin 5) (Fin 50)
       (new_planner planner_config_default 2))))))"

definition example_input :: motor_input where
  "example_input = \<lparr>in_enabled = True, in_zeroed = True, in_healthy = True, moving_or_holding = False, aborted = False,
     abort_reason = [], group_temp_c = Some (Fin 5)\<rparr>"

definition example_tick :: "int \<Rightarrow> planner_input" where
  "example_tick now = \<lparr>fallback_active = True, tick_phase = Float, tick_now = now, tick_motors = [example_input, example_input]\<rparr>"

lemma example_plan_eq:
  "example_plan =
     \<lparr>pl_cfg = planner_config_default,
      pl_motors =
        [\<lparr>configured = True, target_usteps = 800, plan_hold_s = Fin 5, speed_hz = Fin 50, motor_state = MPending\<rparr>,
         \<lparr>configured = True, target_usteps = 600, plan_hold_s = Fin 3, speed_hz = Fin 0, motor_state = MPending\<rparr>],
      ticks_since_start = [0, 0], pl_state = PArmed, deadline_started = False, deadline_start = 0, last_error = [],
      dirty = True\<rparr>"
  by (simp add: example_plan_def arm_plan_def set_motor_plan_def new_planner_def numeral_2_eq_2 Let_def)

lemmas example_eval =
  planner_tick_def track_motors_def track_motor_def input_of_def plan_armed_def window_phase_def window_ok_def
  motor_ready_def planner_config_default_def example_input_def example_tick_def example_plan_eq Let_def
  disarm_plan_def reset_to_none_def reset_motor_def report_start_result_def upt_rec [of _ "Suc (Suc 0)"]
  start_next_Cons may_start_def waiting_def action_of_def start_motor_def

lemma example_action:
  "planner_tick (example_tick 0) example_plan =
     (Some \<lparr>act_motor_id = 0, act_target_usteps = 800, act_hold_s = Fin 5, act_speed_hz = Fin 50\<rparr>,
      snd (planner_tick (example_tick 0) example_plan))"
  by (simp add: example_eval)

lemma example_running:
  "map motor_state (pl_motors (snd (planner_tick (example_tick 0) example_plan))) = [MRunning, MPending]"
  by (simp add: example_eval)

text \<open>C23. A tick starts a bend only under the documented rules: link-loss fallback is active in PRE_FLOAT or FLOAT,
  the plan is armed, the motor is configured, pending, enabled, zeroed and healthy, its group temperature is in the
  window or the deadline has passed; afterwards it is the only running motor and no motor before it is pending.
  The action carries the motor's own plan.
\<close>

theorem bend_start_rules:
  assumes "planner_tick t p = (Some a, p')"
  defines "i \<equiv> act_motor_id a"
  shows "fallback_active t \<and> tick_phase t \<in> {PreFloat, Float} \<and> plan_armed p \<and> i < length (pl_motors p) \<and>
    configured (pl_motors p ! i) \<and> motor_state (pl_motors p ! i) = MPending \<and>
    in_enabled (input_of t i) \<and> in_zeroed (input_of t i) \<and> in_healthy (input_of t i) \<and>
    (window_ok (pl_cfg p) (input_of t i) \<or>
     bend_deadline_s (pl_cfg p) \<le>
       seconds_of (tick_now t - (if deadline_started p then deadline_start p else tick_now t))) \<and>
    (\<forall>k < length (pl_motors p). motor_state (pl_motors p' ! k) = MRunning \<longleftrightarrow> k = i) \<and>
    (\<forall>k < i. configured (pl_motors p' ! k) \<longrightarrow> motor_state (pl_motors p' ! k) \<noteq> MPending) \<and>
    act_target_usteps a = target_usteps (pl_motors p ! i) \<and> act_hold_s a = plan_hold_s (pl_motors p ! i) \<and>
    act_speed_hz a = speed_hz (pl_motors p ! i)"
proof -
  obtain j r q where s: "q = deadline_run t (track_motors t p)" "moved_on MPending {MSkipped} q r"
    "plan_armed p" "window_phase t" "j < length (pl_motors p)" "\<forall>k < length (pl_motors p). \<not> runs q k"
    "\<forall>k < j. \<not> waiting r k" "waiting p j" "motor_ready (input_of t j)"
    "window_ok (pl_cfg p) (input_of t j) \<or> is_late t p" "pl_motors r ! j = pl_motors p ! j"
    "a = action_of j (pl_motors p ! j)" "p' = start_motor j r"
    using tick_starts [OF assms(1)] .
  have j: "i = j" using s(12) by (simp add: i_def action_of_def)
  have len: "length (pl_motors r) = length (pl_motors p)" "length (pl_motors q) = length (pl_motors p)"
    using s(1,2) by (simp_all add: moved_on_def)
  have "runs p' k \<longleftrightarrow> k = j" if "k < length (pl_motors p)" for k
    using that s(6,13) len runs_moved [OF s(2)] by (simp add: runs_start)
  moreover have "\<not> waiting p' k" if "k < j" for k
    using that s(5,7,13) len by (simp add: waiting_def start_motor_def)
  ultimately show ?thesis
    using s(3-5,8-10,12) j
    by (auto simp: waiting_def motor_ready_def is_late_def action_of_def window_phase_def runs_def)
qed

theorem bend_start_rules_witness:
  "let p' = snd (planner_tick (example_tick 0) example_plan) in
   plan_armed example_plan \<and> configured (pl_motors example_plan ! 0) \<and>
   (\<forall>k < length (pl_motors example_plan). motor_state (pl_motors p' ! k) = MRunning \<longleftrightarrow> k = 0)"
  using bend_start_rules [OF example_action] by (simp add: Let_def)

subsection \<open>One motor at a time, whatever the interleaving\<close>

text \<open>
  The tick thread asks for an action, releases the planner, moves the motor and reports the result; the command
  thread may run any of its operations in between.  The second component is the action not yet reported.
\<close>

inductive plan_step :: "fallback_planner \<times> nat option \<Rightarrow> fallback_planner \<times> nat option \<Rightarrow> bool" where
  step_set: "plan_step (p, out) (snd (set_motor_plan m goal hold hz p), out)"
| step_arm: "plan_step (p, out) (snd (arm_plan p), out)"
| step_disarm: "plan_step (p, out) (disarm_plan p, out)"
| step_persist: "plan_step (p, out) (snd (take_dirty p), out)"
| step_tick: "plan_step (p, None) (snd (planner_tick t p), map_option act_motor_id (fst (planner_tick t p)))"
| step_report: "plan_step (p, Some i) (report_start_result (int i) r p, None)"

definition plan_wf :: "fallback_planner \<Rightarrow> bool" where
  "plan_wf p \<longleftrightarrow> (\<forall>m \<in> set (pl_motors p). motor_state m = MUnconfigured \<longleftrightarrow> \<not> configured m)"

definition only_runs :: "fallback_planner \<Rightarrow> nat set \<Rightarrow> bool" where
  "only_runs p I \<longleftrightarrow> (\<forall>i < length (pl_motors p). runs p i \<longrightarrow> i \<in> I)"

definition plan_inv :: "fallback_planner \<times> nat option \<Rightarrow> bool" where
  "plan_inv = (\<lambda>(p, out).
     plan_wf p \<and> (\<exists>i. only_runs p {i}) \<and> (pl_state p \<noteq> PRunning \<longrightarrow> only_runs p {}) \<and>
     (case out of None \<Rightarrow> True | Some i \<Rightarrow> i < length (pl_motors p) \<and> configured (pl_motors p ! i) \<and> only_runs p {i}))"

lemma nth_update_if: "xs[i := x] ! j = (if j = i \<and> i < length xs then x else xs ! j)"
  by (cases "i < length xs") (auto simp: nth_list_update list_update_beyond)

lemma only_runs_mono: "only_runs p I \<Longrightarrow> I \<subseteq> J \<Longrightarrow> only_runs p J"
  by (auto simp: only_runs_def)

lemma only_runs_cong: "pl_motors q = pl_motors p \<Longrightarrow> only_runs q I = only_runs p I"
  by (simp add: only_runs_def runs_def)

lemma plan_wf_cong: "pl_motors q = pl_motors p \<Longrightarrow> plan_wf q = plan_wf p"
  by (simp add: plan_wf_def)

lemma plan_wf_update:
  "plan_wf p \<Longrightarrow> motor_state m = MUnconfigured \<longleftrightarrow> \<not> configured m \<Longrightarrow> pl_motors q = (pl_motors p)[i := m] \<Longrightarrow> plan_wf q"
  using set_update_subset_insert [of "pl_motors p" i m] by (auto simp: plan_wf_def)

lemma only_runs_update:
  "only_runs p I \<Longrightarrow> motor_state m \<noteq> MRunning \<Longrightarrow> pl_motors q = (pl_motors p)[i := m] \<Longrightarrow> only_runs q (I - {i})"
  by (auto simp: only_runs_def runs_def nth_update_if split: if_splits)

lemma reset_inv: "plan_wf (reset_to_none p)" "only_runs (reset_to_none p) {}" "pl_state (reset_to_none p) = PNone"
  "length (pl_motors (reset_to_none p)) = length (pl_motors p)"
  "i < length (pl_motors p) \<Longrightarrow> configured (pl_motors (reset_to_none p) ! i) = configured (pl_motors p ! i)"
  by (auto simp: reset_to_none_def plan_wf_def only_runs_def runs_def reset_motor_def)

lemma plan_inv_quiet:
  "plan_wf p \<Longrightarrow> only_runs p {} \<Longrightarrow>
     (case out of None \<Rightarrow> True | Some i \<Rightarrow> i < length (pl_motors p) \<and> configured (pl_motors p ! i)) \<Longrightarrow> plan_inv (p, out)"
  by (auto simp: plan_inv_def split: option.splits intro: only_runs_mono)

lemma plan_inv_wf: "plan_inv (p, out) \<Longrightarrow> plan_wf p"
  by (simp add: plan_inv_def)

lemma plan_inv_out:
  "plan_inv (p, out) \<Longrightarrow>
     (case out of None \<Rightarrow> True | Some i \<Rightarrow> i < length (pl_motors p) \<and> configured (pl_motors p ! i))"
  by (simp add: plan_inv_def split: option.splits)

lemma plan_inv_idle: "plan_inv (p, out) \<Longrightarrow> pl_state p \<noteq> PRunning \<Longrightarrow> only_runs p {}"
  by (simp add: plan_inv_def)

lemma set_motor_plan_inv:
  assumes "plan_inv (p, out)"
  shows "plan_inv (snd (set_motor_plan m goal hold hz p), out)"
proof (cases "m < 0 \<or> int (length (pl_motors p)) \<le> m \<or> pl_state p = PRunning")
  case True
  then show ?thesis using assms by (auto simp: set_motor_plan_def)
next
  case False
  define b where "b = (if pl_state p = PDone \<or> pl_state p = PFailed then reset_to_none p else p)"
  define plan where
    "plan = \<lparr>configured = True, target_usteps = goal, plan_hold_s = hold, speed_hz = hz, motor_state = MPending\<rparr>"
  define q where "q = snd (set_motor_plan m goal hold hz p)"
  have q: "pl_motors q = (pl_motors b)[nat m := plan]"
    using False by (auto simp: q_def set_motor_plan_def b_def plan_def Let_def)
  have b: "plan_wf b" "only_runs b {}" "length (pl_motors b) = length (pl_motors p)"
    "i < length (pl_motors p) \<Longrightarrow> configured (pl_motors b ! i) = configured (pl_motors p ! i)" for i
    using plan_inv_wf [OF assms] plan_inv_idle [OF assms] False by (auto simp: b_def reset_inv)
  have "plan_wf q" by (rule plan_wf_update [OF b(1) _ q]) (simp add: plan_def)
  moreover have "only_runs q {}" using only_runs_update [OF b(2) _ q] by (simp add: plan_def)
  moreover have "case out of None \<Rightarrow> True | Some i \<Rightarrow> i < length (pl_motors q) \<and> configured (pl_motors q ! i)"
    using plan_inv_out [OF assms] b(3,4) by (auto simp: q plan_def nth_update_if split: option.splits)
  ultimately show ?thesis unfolding q_def [symmetric] by (rule plan_inv_quiet)
qed

lemma plan_inv_cong:
  "plan_inv (p, out) \<Longrightarrow> pl_motors q = pl_motors p \<Longrightarrow> pl_state p \<noteq> PRunning \<or> pl_state q = PRunning \<Longrightarrow> plan_inv (q, out)"
  by (auto simp: plan_inv_def only_runs_cong [of q p] plan_wf_cong [of q p] split: option.splits)

lemma arm_plan_inv: "plan_inv (p, out) \<Longrightarrow> plan_inv (snd (arm_plan p), out)"
  by (auto simp: arm_plan_def elim!: plan_inv_cong)

lemma disarm_plan_inv: "plan_inv (p, out) \<Longrightarrow> plan_inv (disarm_plan p, out)"
proof -
  assume inv: "plan_inv (p, out)"
  have "plan_inv (reset_to_none p, out)"
    using plan_inv_out [OF inv] by (intro plan_inv_quiet) (auto simp: reset_inv split: option.splits)
  then show ?thesis by (rule plan_inv_cong) (simp_all add: disarm_plan_def reset_inv)
qed

lemma report_inv:
  assumes "plan_inv (p, Some i)"
  shows "plan_inv (report_start_result (int i) r p, None)"
proof -
  have i: "plan_wf p" "i < length (pl_motors p)" "configured (pl_motors p ! i)" "only_runs p {i}"
    using assms by (auto simp: plan_inv_def)
  have upd: "plan_inv (q, None)"
    if "pl_motors q = (pl_motors p)[i := (pl_motors p ! i)\<lparr>motor_state := s\<rparr>]" "s = MPending \<or> s = MFailed" for q s
  proof (rule plan_inv_quiet)
    show "plan_wf q" by (rule plan_wf_update [OF i(1) _ that(1)]) (use that(2) i(3) in auto)
    have "only_runs q ({i} - {i})" by (rule only_runs_update [OF i(4) _ that(1)]) (use that(2) in auto)
    then show "only_runs q {}" by simp
  qed simp
  show ?thesis
  proof (cases r)
    case Accepted
    then show ?thesis using assms i(2) by (auto simp: report_start_result_def plan_inv_def)
  next
    case RetryLater
    then show ?thesis using i(2) by (intro upd [of _ MPending]) (simp_all add: report_start_result_def Let_def)
  next
    case (Refused e)
    then show ?thesis using i(2) by (intro upd [of _ MFailed]) (simp_all add: report_start_result_def Let_def)
  qed
qed

lemma plan_wf_nth:
  "plan_wf p \<longleftrightarrow> (\<forall>i < length (pl_motors p). motor_state (pl_motors p ! i) = MUnconfigured \<longleftrightarrow> \<not> configured (pl_motors p ! i))"
  by (simp add: plan_wf_def all_set_conv_all_nth)

lemma moved_on_wf:
  "moved_on s S p q \<Longrightarrow> plan_wf p \<Longrightarrow> s \<noteq> MUnconfigured \<Longrightarrow> MUnconfigured \<notin> S \<Longrightarrow> plan_wf q"
  unfolding plan_wf_nth moved_on_def by fastforce

lemma settled_idle: "all_settled p \<Longrightarrow> plan_wf p \<Longrightarrow> only_runs p {}"
  unfolding all_settled_def list_all_length plan_wf_nth only_runs_def runs_def settled_def
  by (metis motor_state.distinct)

lemma tracked_wf: "plan_wf p \<Longrightarrow> plan_wf (track_motors t p)"
  by (rule plan_wf_cong [THEN iffD2, OF _ moved_on_wf [OF tracked_moved [of p t]]]) simp_all

lemma tracked_only_runs: "only_runs p I \<Longrightarrow> only_runs (track_motors t p) I"
  using runs_tracked by (auto simp: only_runs_def)

lemma track_motors_inv: "plan_inv (p, None) \<Longrightarrow> plan_inv (track_motors t p, None)"
proof -
  assume inv: "plan_inv (p, None)"
  then obtain i where i: "plan_wf p" "only_runs p {i}" by (auto simp: plan_inv_def)
  have "only_runs (track_motors t p) {}" if "pl_state (track_motors t p) \<noteq> PRunning"
  proof (cases "pl_state p = PRunning")
    case True
    then have "all_settled (tracked_fold t p)" using that by (auto simp: track_motors_eq split: if_splits)
    then have "all_settled (track_motors t p)" by (simp add: all_settled_def)
    then show ?thesis by (rule settled_idle) (rule tracked_wf [OF i(1)])
  next
    case False
    then show ?thesis using tracked_only_runs plan_inv_idle [OF inv] by blast
  qed
  then show ?thesis
    using tracked_wf [OF i(1)] tracked_only_runs [OF i(2)] by (auto simp: plan_inv_def)
qed

lemma tick_waits:
  assumes "planner_tick t p = (None, p')"
  obtains (wait) "pl_motors p' = pl_motors (track_motors t p)" "pl_state p' = pl_state (track_motors t p)"
      "\<not> plan_armed (track_motors t p) \<or> \<not> window_phase t \<or> \<not> only_runs (track_motors t p) {}"
    | (search) e r where "only_runs (track_motors t p) {}"
      "start_next t (is_late t (track_motors t p)) [0..<length (pl_motors p)] (deadline_run t (track_motors t p)) = (None, e, r)"
      "moved_on MPending {MSkipped} (deadline_run t (track_motors t p)) r"
      "e \<longrightarrow> (\<forall>i < length (pl_motors p). \<not> waiting r i)"
      "p' = (if e \<and> all_settled r then r\<lparr>pl_state := end_state r, dirty := True\<rparr> else r)"
proof -
  define q where "q = track_motors t p"
  have len: "length (pl_motors q) = length (pl_motors p)" by (simp add: q_def)
  have runs: "list_ex (\<lambda>m. motor_state m = MRunning) (pl_motors q) \<longleftrightarrow> \<not> only_runs q {}"
    by (auto simp: any_runs only_runs_def)
  have eq: "(if \<not> plan_armed q \<or> \<not> window_phase t then (None, q)
      else if \<not> only_runs q {} then (None, deadline_run t q)
      else
        (let (a, ended, r) = start_next t (is_late t q) [0..<length (pl_motors p)] (deadline_run t q)
         in (a, if ended \<and> all_settled r then r\<lparr>pl_state := end_state r, dirty := True\<rparr> else r))) = (None, p')"
    using assms unfolding planner_tick_eq Let_def q_def [symmetric] runs len .
  show ?thesis
  proof (cases "\<not> plan_armed q \<or> \<not> window_phase t \<or> \<not> only_runs q {}")
    case True
    then have "p' = q \<or> p' = deadline_run t q" using eq by (auto split: if_splits)
    then show ?thesis using True by (intro wait) (auto simp: q_def)
  next
    case False
    obtain a e r where sn: "start_next t (is_late t q) [0..<length (pl_motors p)] (deadline_run t q) = (a, e, r)"
      by (cases "start_next t (is_late t q) [0..<length (pl_motors p)] (deadline_run t q)")
    have ar: "a = None" "p' = (if e \<and> all_settled r then r\<lparr>pl_state := end_state r, dirty := True\<rparr> else r)"
      using eq False by (simp_all add: sn)
    have sub: "set [0..<length (pl_motors p)] \<subseteq> {..<length (pl_motors (deadline_run t q))}" using len by auto
    have "moved_on MPending {MSkipped} (deadline_run t q) r" "e \<longrightarrow> (\<forall>i < length (pl_motors p). \<not> waiting r i)"
      using start_next_None [OF sn [unfolded ar(1)] sub] by auto
    then show ?thesis using False sn ar unfolding q_def by (intro search) auto
  qed
qed

lemma planner_tick_inv:
  assumes "plan_inv (p, None)"
  shows "plan_inv (snd (planner_tick t p), map_option act_motor_id (fst (planner_tick t p)))"
proof (cases "fst (planner_tick t p)")
  case (Some a)
  then have "planner_tick t p = (Some a, snd (planner_tick t p))" by (metis prod.collapse)
  then obtain i r q where s: "q = deadline_run t (track_motors t p)" "moved_on MPending {MSkipped} q r"
    "i < length (pl_motors p)" "\<forall>k < length (pl_motors p). \<not> runs q k" "waiting p i"
    "pl_motors r ! i = pl_motors p ! i" "a = action_of i (pl_motors p ! i)" "snd (planner_tick t p) = start_motor i r"
    by (rule tick_starts)
  have len: "length (pl_motors q) = length (pl_motors p)" "length (pl_motors r) = length (pl_motors p)"
    using s(1,2) by (simp_all add: moved_on_def)
  have "plan_wf q"
    by (rule plan_wf_cong [THEN iffD2, OF _ tracked_wf [OF plan_inv_wf [OF assms], of t]]) (simp add: s(1))
  then have "plan_wf r" by (rule moved_on_wf [OF s(2)]) simp_all
  then have "plan_wf (start_motor i r)"
    by (rule plan_wf_update [of _ "(pl_motors r ! i)\<lparr>motor_state := MRunning\<rparr>" _ i])
      (use s(5,6) in \<open>simp_all add: start_motor_def waiting_def\<close>)
  moreover have "only_runs (start_motor i r) {i}"
    using s(4) len runs_moved [OF s(2)] by (simp add: only_runs_def runs_start)
  moreover have "configured (pl_motors (start_motor i r) ! i)"
    using s(3,5,6) len by (simp add: start_motor_def waiting_def)
  ultimately show ?thesis using Some s(3,7,8) len by (auto simp: plan_inv_def action_of_def)
next
  case None
  then have "planner_tick t p = (None, snd (planner_tick t p))" by (metis prod.collapse)
  then show ?thesis
  proof (cases rule: tick_waits)
    case wait
    then show ?thesis using None plan_inv_cong [OF track_motors_inv [OF assms], of "snd (planner_tick t p)" t] by auto
  next
    case (search e r)
    have m: "pl_motors (snd (planner_tick t p)) = pl_motors r" by (subst search(5)) simp
    have "plan_wf (deadline_run t (track_motors t p))"
      by (rule plan_wf_cong [THEN iffD2, OF _ tracked_wf [OF plan_inv_wf [OF assms], of t]]) simp
    then have "plan_wf r" by (rule moved_on_wf [OF search(3)]) simp_all
    then have "plan_wf (snd (planner_tick t p))" by (rule plan_wf_cong [THEN iffD2, OF m])
    moreover have "only_runs (deadline_run t (track_motors t p)) {}"
      using search(1) by (simp add: only_runs_def runs_def)
    then have "only_runs r {}"
      using runs_moved [OF search(3)] search(3) by (auto simp: only_runs_def moved_on_def)
    then have "only_runs (snd (planner_tick t p)) {}" by (simp add: only_runs_cong [OF m])
    ultimately show ?thesis using None by (simp add: plan_inv_quiet)
  qed
qed

lemma plan_step_inv: "plan_step s s' \<Longrightarrow> plan_inv s \<Longrightarrow> plan_inv s'"
  by (induction rule: plan_step.induct)
    (simp_all add: set_motor_plan_inv arm_plan_inv disarm_plan_inv planner_tick_inv report_inv,
     auto simp: take_dirty_def elim!: plan_inv_cong)

lemma new_planner_inv: "plan_inv (new_planner cfg n, None)"
  by (rule plan_inv_quiet) (auto simp: new_planner_def plan_wf_def only_runs_def runs_def empty_plan_def)

lemma plan_reachable_inv: "plan_step\<^sup>*\<^sup>* (new_planner cfg n, None) s \<Longrightarrow> plan_inv s"
  by (induction rule: rtranclp_induct) (auto intro: new_planner_inv plan_step_inv)

lemma only_runs_filter:
  "only_runs p {i} \<Longrightarrow> length (filter (\<lambda>m. motor_state m = MRunning) (pl_motors p)) \<le> 1"
proof -
  assume "only_runs p {i}"
  then have "{k. k < length (pl_motors p) \<and> motor_state (pl_motors p ! k) = MRunning} \<subseteq> {i}"
    by (auto simp: only_runs_def runs_def)
  then have "card {k. k < length (pl_motors p) \<and> motor_state (pl_motors p ! k) = MRunning} \<le> card {i}"
    by (intro card_mono) auto
  then show ?thesis by (simp add: length_filter_conv_card)
qed

text \<open>C24. However the operator's commands, the ticks, the answers to their actions and the saves interleave, at most one
  motor of the plan is running, none is unless the plan is running, and a motor has a state exactly when it is
  configured.
\<close>

theorem one_bend_at_a_time:
  assumes "plan_step\<^sup>*\<^sup>* (new_planner cfg n, None) (p, out)"
  shows "length (filter (\<lambda>m. motor_state m = MRunning) (pl_motors p)) \<le> 1 \<and>
    (pl_state p \<noteq> PRunning \<longrightarrow> (\<forall>m \<in> set (pl_motors p). motor_state m \<noteq> MRunning)) \<and>
    (\<forall>m \<in> set (pl_motors p). motor_state m = MUnconfigured \<longleftrightarrow> \<not> configured m)"
proof -
  have inv: "plan_inv (p, out)" using assms by (rule plan_reachable_inv)
  then obtain i where "only_runs p {i}" by (auto simp: plan_inv_def)
  then show ?thesis
    using only_runs_filter plan_inv_wf [OF inv] plan_inv_idle [OF inv]
    by (auto simp: plan_wf_def only_runs_def runs_def in_set_conv_nth)
qed

lemma example_reachable:
  "plan_step\<^sup>*\<^sup>* (new_planner planner_config_default 2, None) (example_plan, None)"
  unfolding example_plan_def
  by (rule rtranclp.rtrancl_into_rtrancl, rule rtranclp.rtrancl_into_rtrancl, rule rtranclp.rtrancl_into_rtrancl,
      rule rtranclp.rtrancl_refl, rule step_set, rule step_set, rule step_arm)

theorem one_bend_at_a_time_witness:
  "let p = snd (planner_tick (example_tick 0) example_plan) in
   map motor_state (pl_motors p) = [MRunning, MPending] \<and>
   length (filter (\<lambda>m. motor_state m = MRunning) (pl_motors p)) \<le> 1"
proof -
  let ?p = "snd (planner_tick (example_tick 0) example_plan)"
  have "plan_step\<^sup>*\<^sup>* (new_planner planner_config_default 2, None)
      (?p, map_option act_motor_id (fst (planner_tick (example_tick 0) example_plan)))"
    by (rule rtranclp.rtrancl_into_rtrancl [OF example_reachable step_tick])
  then have "length (filter (\<lambda>m. motor_state m = MRunning) (pl_motors ?p)) \<le> 1"
    using one_bend_at_a_time by blast
  then show ?thesis using example_running by (simp add: Let_def)
qed

subsection \<open>An answer that comes after a DISARM\<close>

text \<open>The tick thread answers an action after it has released the planner.  When the operator disarms the plan in
  between and the start is put off, the answer arms the disarmed plan again, with the motor pending; a refused
  start leaves it failed.
\<close>

theorem late_report_undoes_disarm:
  assumes "planner_tick t p = (Some a, p')"
  defines "i \<equiv> int (act_motor_id a)"
  shows "pl_state (disarm_plan p') = PNone \<and> \<not> plan_armed (disarm_plan p') \<and>
    plan_armed (report_start_result i RetryLater (disarm_plan p')) \<and>
    motor_state (motor_of i (report_start_result i RetryLater (disarm_plan p'))) = MPending \<and>
    pl_state (report_start_result i (Refused e) (disarm_plan p')) = PFailed"
proof -
  obtain k r q where s: "q = deadline_run t (track_motors t p)" "moved_on MPending {MSkipped} q r"
    "k < length (pl_motors p)" "a = action_of k (pl_motors p ! k)" "p' = start_motor k r"
    using tick_starts [OF assms(1)] .
  have len: "k < length (pl_motors p')" using s by (simp add: moved_on_def)
  have "i = int k" using s(4) by (simp add: i_def action_of_def)
  then show ?thesis using len
    by (simp add: disarm_plan_def reset_to_none_def plan_armed_def report_start_result_def Let_def motor_of_def)
qed

theorem late_report_undoes_disarm_witness:
  "let p' = snd (planner_tick (example_tick 0) example_plan) in
   pl_state (disarm_plan p') = PNone \<and> plan_armed (report_start_result 0 RetryLater (disarm_plan p')) \<and>
   fst (planner_tick (example_tick 1) (report_start_result 0 RetryLater (disarm_plan p'))) \<noteq> None"
proof -
  let ?p = "snd (planner_tick (example_tick 0) example_plan)"
  have "fst (planner_tick (example_tick 1) (report_start_result 0 RetryLater (disarm_plan ?p))) \<noteq> None"
    by (simp add: example_eval)
  then show ?thesis using late_report_undoes_disarm [OF example_action] by (simp add: Let_def)
qed

end
