(* ===== verification/FallbackPersistence.thy ===== *)
theory FallbackPersistence
  imports FallbackProperties
begin

text \<open>
  The plan file: what is written is read back, and what a restart can do to a finished plan.
\<close>

subsection \<open>The characters of the file\<close>

definition clean :: "string \<Rightarrow> bool" where
  "clean s \<longleftrightarrow> (\<forall>c \<in> set s. \<not> is_line_space c)"

lemma clean_simps [simp]:
  "clean []" "clean (c # s) \<longleftrightarrow> \<not> is_line_space c \<and> clean s" "clean (a @ b) \<longleftrightarrow> clean a \<and> clean b"
  by (auto simp: clean_def)

lemma digit_clean: "is_digit c \<Longrightarrow> \<not> is_line_space c"
  by (auto simp: is_digit_def is_line_space_def char_code_def)

lemma clean_digits: "\<forall>c \<in> set s. is_digit c \<Longrightarrow> clean s"
  by (simp add: clean_def digit_clean)

lemma clean_show_nat [simp]: "clean (show_nat n)"
  by (rule clean_digits) (rule show_nat_digits)

lemma line_space_chars [simp]: "\<not> is_line_space CHR ''-''" "\<not> is_line_space CHR ''.''" "\<not> is_line_space CHR '',''"
    "\<not> is_line_space CHR ''=''" "\<not> is_line_space CHR ''0''" "\<not> is_line_space CHR ''e''" "\<not> is_line_space CHR ''+''"
    "\<not> is_line_space CHR ''m''"
  by (simp_all add: is_line_space_def char_code_def)

lemma clean_show_int [simp]: "clean (show_int n)"
  by (simp add: show_int_def)

lemma clean_subset: "clean s \<Longrightarrow> set t \<subseteq> set s \<Longrightarrow> clean t"
  by (auto simp: clean_def)

lemma clean_with_fraction: "clean whole \<Longrightarrow> clean decimals \<Longrightarrow> clean (with_fraction whole decimals)"
proof -
  assume "clean whole" "clean decimals"
  moreover have "set (strip_zeros decimals) \<subseteq> set decimals"
    using set_dropWhileD [of _ "\<lambda>c. c = CHR ''0''" "rev decimals"] by (auto simp: strip_zeros_def)
  ultimately show ?thesis using clean_subset by (auto simp: with_fraction_def Let_def)
qed

lemma clean_show_pos_rat: "clean (show_pos_rat q)"
proof -
  have "clean (take n (show_nat m))" for n m by (rule clean_subset [OF clean_show_nat set_take_subset])
  moreover have "clean (drop n (show_nat m))" for n m by (rule clean_subset [OF clean_show_nat set_drop_subset])
  moreover have "clean (replicate n CHR ''0'')" for n by (simp add: clean_def)
  ultimately show ?thesis
    unfolding show_pos_rat_def Let_def by (auto intro!: clean_with_fraction split: prod.splits)
qed

lemma clean_show_double [simp]: "clean (show_double d)"
  by (cases d) (auto simp: clean_show_pos_rat is_line_space_def char_code_def)

lemma clean_state_names [simp]: "clean (plan_state_to_string s)" "clean (motor_state_to_string m)"
  by (cases s, simp_all add: is_line_space_def char_code_def) (cases m, simp_all add: is_line_space_def char_code_def)

lemma clean_header_lines:
  "clean (''armed='' @ flag_text b)" "clean (''state='' @ plan_state_to_string s)" "clean (''deadline_s='' @ show_double d)"
  by (simp_all add: is_line_space_def char_code_def flag_text_def)

lemma clean_motor_line: "clean (motor_line x)"
  by (cases x) (simp add: motor_line_def plan_text_def)

lemma clean_plan_lines: "\<forall>l \<in> set (plan_lines p). clean l"
proof -
  have three: "\<forall>l \<in> set ([a, b, c] @ map motor_line xs). clean l" if "clean a" "clean b" "clean c" for a b c xs
    using that by (auto simp: clean_motor_line)
  show ?thesis
    unfolding plan_lines_def
    by (rule three [OF clean_header_lines(1) clean_header_lines(2) clean_header_lines(3)])
qed

lemma clean_no_end: "clean l \<Longrightarrow> line_end \<notin> set l"
  by (auto simp: clean_def is_line_space_def char_code_def)

lemma trim_clean: "clean l \<Longrightarrow> trim_line l = l"
proof -
  assume "clean l"
  have keep: "dropWhile is_line_space s = s" if "\<forall>c \<in> set s. \<not> is_line_space c" for s
    using that by (cases s) simp_all
  show ?thesis using \<open>clean l\<close> keep [of l] keep [of "rev l"] by (simp add: trim_line_def clean_def)
qed

lemma split_lines: "\<forall>l \<in> set ls. clean l \<Longrightarrow> split_fields line_end (concat (map (\<lambda>l. l @ [line_end]) ls)) = ls"
proof (induction ls)
  case Nil
  then show ?case by (simp add: split_fields.simps)
next
  case (Cons l ls)
  then show ?case using split_fields_cons [OF clean_no_end [of l]] by simp
qed

subsection \<open>Reading the lines back\<close>

lemma parse_names [simp]:
  "parse_plan_state (plan_state_to_string s) = Some s" "parse_motor_state (motor_state_to_string m) = Some m"
  by (cases s; simp add: parse_plan_state_def) (cases m; simp add: parse_motor_state_def)

lemma parse_header_lines [simp]:
  "parse_plan_line (''armed='' @ flag_text b) acc = Some acc"
  "parse_plan_line (''state='' @ plan_state_to_string s) (st, plans) = Some (Some s, plans)"
  "parse_plan_line (''deadline_s='' @ show_double d) acc = Some acc"
proof -
  have "trim_line (''armed='' @ flag_text b) = ''armed='' @ flag_text b"
    "trim_line (''state='' @ plan_state_to_string s) = ''state='' @ plan_state_to_string s"
    "trim_line (''deadline_s='' @ show_double d) = ''deadline_s='' @ show_double d"
    by (simp_all only: trim_clean clean_header_lines)
  then show "parse_plan_line (''armed='' @ flag_text b) acc = Some acc"
    "parse_plan_line (''state='' @ plan_state_to_string s) (st, plans) = Some (Some s, plans)"
    "parse_plan_line (''deadline_s='' @ show_double d) acc = Some acc"
    by (simp_all add: parse_plan_line_def Let_def split: prod.splits)
qed

lemma motor_line_trim: "trim_line (motor_line x) = motor_line x"
  by (rule trim_clean) (rule clean_motor_line)

lemma show_nat_no_eq: "CHR ''='' \<notin> set (show_nat n)"
  using show_nat_digits [of n] by (auto simp: is_digit_def char_code_def)

lemma motor_line_split:
  "split_first (CHR ''='') (motor_line (i, m)) = Some (CHR ''m'' # show_nat i, plan_text (CHR '','') m)"
  using split_first_append [of "CHR ''=''" "CHR ''m'' # show_nat i" "plan_text (CHR '','') m"]
  by (simp add: motor_line_def show_nat_no_eq)

lemma parse_motor_line:
  "parse_plan_line (motor_line (i, m)) (st, plans) =
     (case parse_int64_text (show_nat i) of
        None \<Rightarrow> None
      | Some j \<Rightarrow>
          (if j < 0 \<or> int (length plans) \<le> j then None
           else case parse_motor_plan (plan_text (CHR '','') m) of None \<Rightarrow> None | Some m \<Rightarrow> Some (st, plans[nat j := m])))"
proof -
  have "motor_line (i, m) \<noteq> []" "hd (motor_line (i, m)) \<noteq> CHR ''#''" by (simp_all add: motor_line_def)
  moreover have "2 \<le> length (CHR ''m'' # show_nat i)" using show_nat_nonempty [of i] by (cases "show_nat i") auto
  ultimately show ?thesis
    by (simp only: parse_plan_line_def Let_def motor_line_trim motor_line_split prod.case option.case if_False simp_thms
        list.sel list.inject char.inject if_True HOL.True_implies_equals split: if_splits)
qed

lemma parse_motor_line_state:
  "parse_plan_line (motor_line x) (st, plans) = Some (st', plans') \<Longrightarrow> st' = st"
  by (cases x) (auto simp: parse_motor_line split: option.splits if_splits)

lemma parse_motor_lines_state:
  "parse_plan_lines (map motor_line xs) (st, plans) = Some (st', plans') \<Longrightarrow> st' = st"
proof (induction xs arbitrary: plans)
  case Nil
  then show ?case by simp
next
  case (Cons x xs)
  then obtain acc where "parse_plan_line (motor_line x) (st, plans) = Some acc"
      "parse_plan_lines (map motor_line xs) acc = Some (st', plans')"
    by (auto split: option.splits)
  then show ?case using parse_motor_line_state Cons.IH by (cases acc) blast
qed

lemma parse_saved_lines:
  "parse_plan_lines (plan_lines p) (None, plans) =
     parse_plan_lines (map motor_line (filter (\<lambda>x. configured (snd x)) (indexed 0 (pl_motors p)))) (Some (pl_state p), plans)"
proof -
  have three: "parse_plan_line a (None, plans) = Some (None, plans) \<Longrightarrow> parse_plan_line b (None, plans) = Some (x, plans) \<Longrightarrow>
      parse_plan_line c (x, plans) = Some (x, plans) \<Longrightarrow>
      parse_plan_lines ([a, b, c] @ r) (None, plans) = parse_plan_lines r (x, plans)" for a b c r x
    by simp
  show ?thesis unfolding plan_lines_def by (rule three) (rule parse_header_lines)+
qed

lemma deserialize_saved:
  "deserialize_plan (serialize_plan p) q =
     (let q = reset_to_none (clear_motors q) in
      case parse_plan_lines (map motor_line (filter (\<lambda>x. configured (snd x)) (indexed 0 (pl_motors p))))
          (Some (pl_state p), replicate (length (pl_motors q)) empty_plan) of
        None \<Rightarrow> (False, q)
      | Some (None, plans) \<Rightarrow> (False, q)
      | Some (Some st, plans) \<Rightarrow>
          (if st \<noteq> PNone \<and> \<not> list_ex configured plans then (False, q)
           else (True, q\<lparr>pl_motors := plans, pl_state := st\<rparr>)))"
  unfolding deserialize_plan_def serialize_plan_def split_lines [OF clean_plan_lines] parse_saved_lines ..

subsection \<open>Whole numbers are printed exactly\<close>

lemma digit_char_0: "digit_char 0 = CHR ''0''"
  by code_simp

lemma show_nat_replicate: "0 < n \<Longrightarrow> show_nat (n * 10 ^ k) = show_nat n @ replicate k CHR ''0''"
proof (induction k)
  case 0
  then show ?case by simp
next
  case (Suc k)
  have "show_nat (n * 10 ^ Suc k) = show_nat (n * 10 ^ k) @ ''0''"
    using Suc.prems by (subst show_nat.simps) (simp add: digit_char_0)
  then show ?case using Suc by (simp add: replicate_append_same)
qed

lemma show_nat_length: "0 < n \<Longrightarrow> 10 ^ (length (show_nat n) - 1) \<le> n \<and> n < 10 ^ length (show_nat n)"
proof (induction n rule: show_nat.induct)
  case (1 n)
  show ?case
  proof (cases "n < 10")
    case True
    then show ?thesis using 1(2) by (subst (1 2) show_nat.simps) simp
  next
    case False
    obtain k where k: "length (show_nat (n div 10)) = Suc k" by (cases "show_nat (n div 10)") auto
    have "10 ^ k \<le> n div 10" "n div 10 < 10 ^ Suc k" using 1(1) False k by (simp_all add: div_greater_zero_iff)
    then have "10 ^ Suc k \<le> n" "n < 10 ^ Suc (Suc k)" by simp_all
    moreover have "length (show_nat n) = Suc (Suc k)" using False k by (subst show_nat.simps) simp
    ultimately show ?thesis by simp
  qed
qed

lemma show_double_nat:
  assumes "n < 10 ^ 6"
  shows "show_double (Fin (of_nat n)) = show_nat n"
proof (cases "n = 0")
  case True
  then show ?thesis by (subst show_nat.simps) (simp add: digit_char_0)
next
  case False
  define L where "L = length (show_nat n)"
  have L0: "0 < L" by (simp add: L_def)
  have bounds: "10 ^ (L - 1) \<le> n" "n < 10 ^ L" using show_nat_length [of n] False by (simp_all add: L_def)
  then have "(10::nat) ^ (L - 1) < 10 ^ 6" using assms by linarith
  then have "L - 1 < 6" by (rule power_less_imp_less_exp [rotated]) simp
  then have L6: "L \<le> 6" by linarith
  have x: "dec_exp (of_nat n) = int L - 1" using False by (simp add: dec_exp_def L_def)
  have "(10::rat) powi (int L - 1 - 5) = inverse (10 ^ (6 - L))"
    using L6 by (simp add: power_int_def nat_diff_distrib power_one_over inverse_eq_divide)
  then have "of_nat n / (10::rat) powi (int L - 1 - 5) = of_int (int (n * 10 ^ (6 - L)))" by (simp add: field_simps)
  then have m: "round_half_even (of_nat n / 10 powi (int L - 1 - 5)) = int (n * 10 ^ (6 - L))"
    by (simp only: round_half_even_of_int)
  have "n * 10 ^ (6 - L) < 10 ^ L * 10 ^ (6 - L)" using bounds by simp
  also have "\<dots> = 10 ^ 6" using L6 by (simp add: power_add [symmetric])
  finally have small: "n * 10 ^ (6 - L) < 1000000" by simp
  then have ne: "int (n * 10 ^ (6 - L)) \<noteq> 1000000" by linarith
  define M where "M = n * 10 ^ (6 - L)"
  have digits: "show_nat M = show_nat n @ replicate (6 - L) CHR ''0''"
    using False by (simp add: M_def show_nat_replicate)
  have "show_pos_rat (of_nat n) = show_nat n"
    unfolding show_pos_rat_def Let_def x m M_def [symmetric]
    using ne L0 L6 by (simp add: digits with_fraction_def strip_zeros_def flip: L_def M_def)
  then show ?thesis using False by simp
qed

lemma show_nat_head: "0 < n \<Longrightarrow> hd (show_nat n) \<noteq> CHR ''0''"
proof (induction n rule: show_nat.induct)
  case (1 n)
  show ?case
  proof (cases "n < 10")
    case True
    have "digit_char n \<noteq> digit_char 0"
    proof
      assume "digit_char n = digit_char 0"
      then have "digit_val (digit_char n) = digit_val (digit_char 0)" by simp
      then show False using True 1(2) by simp
    qed
    then show ?thesis using True by (subst show_nat.simps) (simp add: digit_char_0)
  next
    case False
    then have "hd (show_nat (n div 10)) \<noteq> CHR ''0''" using 1(1) by (simp add: div_greater_zero_iff)
    then show ?thesis using False by (subst show_nat.simps) (simp add: hd_append)
  qed
qed

lemma begins_with_head: "begins_with (c # p) s \<Longrightarrow> s \<noteq> [] \<and> lower_char (hd s) = c"
  by (cases s) (auto simp: begins_with_def)

lemma stod_show_nat:
  assumes "n < 10 ^ 6"
  shows "stod (show_nat n) = Some (Fin (of_nat n), length (show_nat n))"
proof -
  obtain c s where cs: "show_nat n = c # s" by (meson list.exhaust show_nat_nonempty)
  have digits: "\<forall>c \<in> set (show_nat n). is_digit c" by (rule show_nat_digits)
  then have c: "is_digit c" by (simp add: cs)
  then have low: "lower_char c = c" by (auto simp: lower_char_def is_digit_def char_code_def)
  have no_word: "\<not> begins_with (x # p) (show_nat n)" if "\<not> is_digit x" for x p
    using that begins_with_head [of x p "show_nat n"] c low by (auto simp: cs)
  have hex: "\<not> begins_with ''0x'' (show_nat n)"
  proof
    assume hex: "begins_with ''0x'' (show_nat n)"
    then have "hd (show_nat n) = CHR ''0''" using begins_with_head low by (fastforce simp: cs)
    then have "n = 0" using show_nat_head by blast
    then have "show_nat n = ''0''" by (subst show_nat.simps) (simp add: digit_char_0)
    then show False using hex by (simp add: begins_with_def)
  qed
  have tw: "takeWhile is_digit (show_nat n) = show_nat n" "dropWhile is_digit (show_nat n) = []"
    using digits by (simp_all only: takeWhile_eq_all_conv dropWhile_eq_Nil_conv)
  have num: "scan_number (show_nat n) = Some (of_nat n, length (show_nat n))"
    by (simp add: hex tw scan_number_def scan_mantissa_def scan_exponent_def Let_def)
  have "to_dbl (of_int (int n)) = Fin (of_int (int n))" by (rule to_dbl_int) (use assms in simp)
  then have val: "to_dbl (of_nat n) = Fin (of_nat n)" by simp
  have word: "\<not> is_digit CHR ''i''" "\<not> is_digit CHR ''n''" by (simp_all add: is_digit_def char_code_def)
  have sign: "c \<noteq> CHR ''-''" "c \<noteq> CHR ''+''" "\<not> is_space c" using digit_not_sign [OF c] digit_not_space [OF c] by auto
  have "takeWhile is_space (show_nat n) = []" "dropWhile is_space (show_nat n) = show_nat n"
    using sign by (simp_all add: cs)
  then show ?thesis
    using no_word [OF word(1)] no_word [OF word(2)] sign
    by (simp add: stod_def Let_def num val in_range_def) (simp add: cs)
qed

lemma parse_double_show_nat: "n < 10 ^ 6 \<Longrightarrow> parse_double_text (show_double (Fin (of_nat n))) = Some (Fin (of_nat n))"
  by (simp only: parse_double_text_def show_double_nat stod_show_nat option.case prod.case simp_thms if_False)

lemma parse_int64_show: "- (2 ^ 63) \<le> n \<Longrightarrow> n < 2 ^ 63 \<Longrightarrow> parse_int64_text (show_int n) = Some n"
  using stoll_show_int [of n "[]"] by (simp add: parse_int64_text_def no_digit_first_def)

text \<open>A motor plan that the file can hold exactly: a 64-bit target, and a hold and a speed that are whole numbers of at
  most six digits.\<close>

definition storable :: "motor_plan \<Rightarrow> bool" where
  "storable m \<longleftrightarrow>
     - (2 ^ 63) \<le> target_usteps m \<and> target_usteps m < 2 ^ 63 \<and>
     (\<exists>n < 10 ^ 6. plan_hold_s m = Fin (of_nat n)) \<and> (\<exists>n < 10 ^ 6. speed_hz m = Fin (of_nat n)) \<and>
     motor_state m \<noteq> MUnconfigured"

lemma numbers_no_comma: "CHR '','' \<notin> set (show_nat k)" "CHR '','' \<notin> set (show_int n)"
proof -
  have "\<not> is_digit CHR '',''" by (simp add: is_digit_def char_code_def)
  then have "CHR '','' \<notin> set (show_nat k)" for k using show_nat_digits [of k] by blast
  then show "CHR '','' \<notin> set (show_nat k)" "CHR '','' \<notin> set (show_int n)" by (simp_all add: show_int_def)
qed

lemma split_last_field: "c \<notin> set s \<Longrightarrow> s \<noteq> [] \<Longrightarrow> split_fields c s = [s]"
proof -
  assume "c \<notin> set s" "s \<noteq> []"
  then have tw: "takeWhile (\<lambda>x. x \<noteq> c) s = s" "dropWhile (\<lambda>x. x \<noteq> c) s = []"
    by (auto simp: takeWhile_eq_all_conv dropWhile_eq_Nil_conv)
  show ?thesis using \<open>s \<noteq> []\<close> split_fields.simps [of c "[]"] split_fields.simps [of c s] by (simp add: tw)
qed

lemma parse_plan_text:
  assumes "configured m" "storable m"
  shows "parse_motor_plan (plan_text (CHR '','') m) = Some m"
proof -
  obtain h z where hz: "h < 10 ^ 6" "z < 10 ^ 6" "plan_hold_s m = Fin (of_nat h)" "speed_hz m = Fin (of_nat z)"
    using assms(2) by (auto simp: storable_def)
  have name: "CHR '','' \<notin> set (motor_state_to_string (motor_state m))" "motor_state_to_string (motor_state m) \<noteq> []"
    by (cases "motor_state m"; simp)+
  have "split_fields (CHR '','') (plan_text (CHR '','') m) =
      [show_int (target_usteps m), show_double (plan_hold_s m), show_double (speed_hz m), motor_state_to_string (motor_state m)]"
    unfolding plan_text_def hz(3,4) show_double_nat [OF hz(1)] show_double_nat [OF hz(2)]
    by (simp only: split_fields_cons numbers_no_comma split_last_field name not_False_eq_True)
  then show ?thesis
    using assms hz(3,4) parse_double_show_nat [OF hz(1)] parse_double_show_nat [OF hz(2)]
      parse_int64_show [of "target_usteps m"]
    by (simp del: show_double.simps add: parse_motor_plan_def storable_def)
qed

lemma parse_motor_lines:
  assumes "\<forall>m \<in> set plans. if configured m then storable m else m = empty_plan" "length pre + length plans < 2 ^ 63"
  shows "parse_plan_lines (map motor_line (filter (\<lambda>x. configured (snd x)) (indexed (length pre) plans)))
      (st, pre @ replicate (length plans) empty_plan) = Some (st, pre @ plans)"
  using assms
proof (induction plans arbitrary: pre)
  case Nil
  then show ?case by simp
next
  case (Cons m plans)
  have IH: "parse_plan_lines (map motor_line (filter (\<lambda>x. configured (snd x)) (indexed (Suc (length pre)) plans)))
      (st, (pre @ [m]) @ replicate (length plans) empty_plan) = Some (st, (pre @ [m]) @ plans)"
    using Cons.IH [of "pre @ [m]"] Cons.prems by simp
  show ?case
  proof (cases "configured m")
    case True
    have "parse_int64_text (show_nat (length pre)) = Some (int (length pre))"
      using parse_int64_show [of "int (length pre)"] Cons.prems(2) by (simp add: show_int_def)
    then have "parse_plan_line (motor_line (length pre, m)) (st, pre @ replicate (length (m # plans)) empty_plan) =
        Some (st, (pre @ [m]) @ replicate (length plans) empty_plan)"
      using True Cons.prems(1) by (simp add: parse_motor_line parse_plan_text list_update_append)
    then show ?thesis using True IH by simp
  next
    case False
    then show ?thesis using IH Cons.prems(1) by simp
  qed
qed



subsection \<open>A finished plan stays finished\<close>

text \<open>A restart reads the file the planner last wrote.\<close>

definition restart :: "fallback_planner \<Rightarrow> fallback_planner" where
  "restart p = snd (load_plan (Some (serialize_plan p)) (new_planner (pl_cfg p) (length (pl_motors p))))"

datatype plan_op = Tick planner_input | Arm | Restart

fun run_ops :: "plan_op list \<Rightarrow> fallback_planner \<Rightarrow> fallback_action list \<times> fallback_planner" where
  "run_ops [] p = ([], p)"
| "run_ops (Tick t # ops) p =
     (let (a, p) = planner_tick t p; (as, p) = run_ops ops p in (case a of None \<Rightarrow> as | Some a \<Rightarrow> a # as, p))"
| "run_ops (Arm # ops) p = run_ops ops (snd (arm_plan p))"
| "run_ops (Restart # ops) p = run_ops ops (restart p)"

definition unloaded :: "fallback_planner \<Rightarrow> bool" where
  "unloaded p \<longleftrightarrow> pl_state p = PNone \<and> (\<forall>m \<in> set (pl_motors p). m = empty_plan)"

definition inert :: "fallback_planner \<Rightarrow> bool" where
  "inert p \<longleftrightarrow> pl_state p = PDone \<or> pl_state p = PFailed \<or> unloaded p"

lemma cleared_unloaded: "unloaded (reset_to_none (clear_motors p))"
  by (auto simp: unloaded_def reset_to_none_def clear_motors_def reset_motor_def empty_plan_def)

lemma unloaded_no_lines: "unloaded p \<Longrightarrow> filter (\<lambda>x. configured (snd x)) (indexed i (pl_motors p)) = []"
proof -
  have "\<forall>m \<in> set ms. m = empty_plan \<Longrightarrow> filter (\<lambda>x. configured (snd x)) (indexed i ms) = []" for ms i
    by (induction ms arbitrary: i) (auto simp: empty_plan_def)
  then show "unloaded p \<Longrightarrow> ?thesis" by (simp add: unloaded_def)
qed

lemma restart_cases:
  "unloaded (restart p) \<or> pl_state (restart p) = pl_state p \<and> \<not> unloaded p"
proof (cases "unloaded p")
  case True
  then show ?thesis
    by (auto simp: restart_def load_plan_def deserialize_saved unloaded_no_lines Let_def cleared_unloaded)
      (auto simp: unloaded_def reset_to_none_def clear_motors_def reset_motor_def new_planner_def)
next
  case False
  show ?thesis
  proof (cases "parse_plan_lines (map motor_line (filter (\<lambda>x. configured (snd x)) (indexed 0 (pl_motors p))))
          (Some (pl_state p), replicate (length (pl_motors p)) empty_plan)")
    case None
    have "length (pl_motors (reset_to_none (clear_motors (new_planner c n)))) = n" for c n
      by (simp add: reset_to_none_def clear_motors_def new_planner_def)
    then show ?thesis by (simp add: restart_def load_plan_def deserialize_saved Let_def None cleared_unloaded)
  next
    case (Some acc)
    then obtain plans where acc: "acc = (Some (pl_state p), plans)"
      using parse_motor_lines_state by (cases acc) blast
    have "length (pl_motors (reset_to_none (clear_motors (new_planner c n)))) = n" for c n
      by (simp add: reset_to_none_def clear_motors_def new_planner_def)
    then show ?thesis using False
      by (simp add: restart_def load_plan_def deserialize_saved Let_def Some acc cleared_unloaded)
  qed
qed

lemma inert_restart: "inert p \<Longrightarrow> inert (restart p)"
  using restart_cases [of p] by (auto simp: inert_def)

lemma inert_arm: "inert p \<Longrightarrow> snd (arm_plan p) = p"
  by (auto simp: arm_plan_def inert_def unloaded_def list_ex_iff empty_plan_def)

lemma inert_tick: "inert p \<Longrightarrow> fst (planner_tick t p) = None \<and> inert (snd (planner_tick t p))"
proof -
  assume "inert p"
  then have st: "pl_state p \<noteq> PRunning" "\<not> plan_armed p" by (auto simp: inert_def unloaded_def plan_armed_def)
  then have q: "track_motors t p = tracked_fold t p" "\<not> plan_armed (track_motors t p)"
    using plan_armed_tracked by (auto simp: track_motors_eq)
  have "unloaded (tracked_fold t p)" if "unloaded p"
    using that tracked_motor [of _ p t]
    by (auto simp: unloaded_def all_set_conv_all_nth runs_def empty_plan_def)
  then have "inert (tracked_fold t p)" using \<open>inert p\<close> by (auto simp: inert_def)
  then show ?thesis using q by (simp add: planner_tick_eq Let_def)
qed



end
