(* ===== verification/FallbackLiveness.thy ===== *)
theory FallbackLiveness
  imports FallbackProperties
begin

text \<open>
  The plan comes to an end: after the deadline, ticks that find no motor moving finish it in at most one tick
  more than there are motors.
\<close>

text \<open>A tick of the controller: the planner's tick, and the answer to its action.\<close>

definition drive :: "planner_input \<times> start_result \<Rightarrow> fallback_planner \<Rightarrow> fallback_planner" where
  "drive = (\<lambda>(t, r) p.
     (case planner_tick t p of
        (None, p) \<Rightarrow> p
      | (Some a, p) \<Rightarrow> report_start_result (int (act_motor_id a)) r p))"

definition ticks_ok :: "fallback_planner \<Rightarrow> bool" where
  "ticks_ok p \<longleftrightarrow> length (ticks_since_start p) = length (pl_motors p) \<and> (\<forall>n \<in> set (ticks_since_start p). 0 \<le> n)"

lemma ticks_ok_update: "ticks_ok p \<Longrightarrow> 0 \<le> n \<Longrightarrow> ticks_since_start q = (ticks_since_start p)[i := n] \<Longrightarrow>
    length (pl_motors q) = length (pl_motors p) \<Longrightarrow> ticks_ok q"
  using set_update_subset_insert [of "ticks_since_start p" i n] by (auto simp: ticks_ok_def)

lemma ticks_ok_cong: "ticks_ok p \<Longrightarrow> ticks_since_start q = ticks_since_start p \<Longrightarrow>
    length (pl_motors q) = length (pl_motors p) \<Longrightarrow> ticks_ok q"
  by (simp add: ticks_ok_def)

lemma track_motor_ticks: "ticks_ok p \<Longrightarrow> i < length (pl_motors p) \<Longrightarrow> ticks_ok (track_motor t i p)"
proof -
  assume p: "ticks_ok p" "i < length (pl_motors p)"
  then have n: "0 \<le> ticks_since_start p ! i + 1" by (auto simp: ticks_ok_def intro: add_nonneg_nonneg)
  have "ticks_since_start (track_motor t i p) =
      (if motor_state (pl_motors p ! i) = MRunning then (ticks_since_start p)[i := ticks_since_start p ! i + 1]
       else ticks_since_start p)" "length (pl_motors (track_motor t i p)) = length (pl_motors p)"
    by (simp_all add: track_motor_def Let_def)
  then show ?thesis using ticks_ok_update [OF p(1) n] ticks_ok_cong [OF p(1)] by (auto split: if_splits)
qed

lemma track_motor_stops:
  "ticks_ok p \<Longrightarrow> i < length (pl_motors p) \<Longrightarrow> \<not> moving_or_holding (input_of t i) \<Longrightarrow> \<not> runs (track_motor t i p) i"
  using nth_mem [of i "ticks_since_start p"] by (auto simp: ticks_ok_def track_motor_def runs_def Let_def)

lemma track_fold_stops:
  "ticks_ok p \<Longrightarrow> set is \<subseteq> {..<length (pl_motors p)} \<Longrightarrow> \<forall>i \<in> set is. \<not> moving_or_holding (input_of t i) \<Longrightarrow>
     ticks_ok (fold (track_motor t) is p) \<and> (\<forall>i \<in> set is. \<not> runs (fold (track_motor t) is p) i)"
proof (induction "is" arbitrary: p)
  case Nil
  then show ?case by simp
next
  case (Cons i "is")
  let ?q = "track_motor t i p"
  have i: "i < length (pl_motors p)" using Cons.prems(2) by simp
  have len: "length (pl_motors ?q) = length (pl_motors p)" using track_motor_moved [OF i] by (simp add: moved_on_def)
  have IH: "ticks_ok (fold (track_motor t) is ?q) \<and> (\<forall>i \<in> set is. \<not> runs (fold (track_motor t) is ?q) i)"
    by (rule Cons.IH) (use Cons.prems len track_motor_ticks [OF Cons.prems(1) i] in auto)
  have "moved_on MRunning {MDone, MFailed} ?q (fold (track_motor t) is ?q)"
    by (rule track_fold_moved) (use Cons.prems(2) len in auto)
  moreover have "\<not> runs ?q i" using Cons.prems(3) by (intro track_motor_stops [OF Cons.prems(1) i]) simp
  ultimately have "\<not> runs (fold (track_motor t) is ?q) i" using i len by (auto simp: moved_on_def runs_def)
  then show ?case using IH by simp
qed

lemma tracked_stops:
  assumes "ticks_ok p" "\<forall>i < length (pl_motors p). \<not> moving_or_holding (input_of t i)"
  shows "ticks_ok (track_motors t p)" "only_runs (track_motors t p) {}"
proof -
  have f: "ticks_ok (tracked_fold t p)" "\<forall>i < length (pl_motors p). \<not> runs (tracked_fold t p) i"
    using track_fold_stops [OF assms(1), of "[0..<length (pl_motors p)]" t] assms(2)
    by (simp_all add: tracked_fold_def lessThan_atLeast0 [symmetric])
  then show "ticks_ok (track_motors t p)" by (auto simp: track_motors_eq ticks_ok_def)
  show "only_runs (track_motors t p) {}" using f(2) by (simp add: only_runs_def runs_def)
qed

lemma late_search_ends:
  "start_next t True is p = (None, e, q) \<Longrightarrow> e"
proof (induction "is" arbitrary: p)
  case Nil
  then show ?case by simp
next
  case (Cons i "is")
  show ?case
  proof (cases "waiting p i \<and> motor_ready (input_of t i)")
    case True
    then show ?thesis using Cons.prems by (simp add: start_next_Cons may_start_def)
  next
    case False
    then have "start_next t True is p = (None, e, q) \<or> start_next t True is (skip_motor i p) = (None, e, q)"
      using Cons.prems by (auto simp: start_next_Cons may_start_def split: if_splits)
    then show ?thesis using Cons.IH by blast
  qed
qed

lemma start_next_ticks:
  "start_next t late is p = (a, e, q) \<Longrightarrow> ticks_ok p \<Longrightarrow> set is \<subseteq> {..<length (pl_motors p)} \<Longrightarrow> ticks_ok q"
proof (induction "is" arbitrary: p)
  case Nil
  then show ?case by simp
next
  case (Cons i "is")
  have skip: "ticks_ok (skip_motor i p)" using Cons.prems(2) by (simp add: skip_motor_def ticks_ok_def)
  have start: "ticks_ok (start_motor i p)"
    by (rule ticks_ok_update [OF Cons.prems(2), of 0]) (simp_all add: start_motor_def)
  have len: "set is \<subseteq> {..<length (pl_motors p)}" "set is \<subseteq> {..<length (pl_motors (skip_motor i p))}"
    using Cons.prems(3) by (simp_all add: skip_motor_def)
  from start_next_Cons_cases [OF Cons.prems(1)] show ?case
    using Cons.IH [OF _ Cons.prems(2) len(1)] Cons.IH [OF _ skip len(2)] start Cons.prems(2) by blast
qed

definition pending :: "fallback_planner \<Rightarrow> nat set" where
  "pending p = {i. i < length (pl_motors p) \<and> waiting p i}"

text \<open>What the environment of the last ticks gives: the window phase, the deadline, and motors that stand still.\<close>

definition last_tick :: "fallback_planner \<Rightarrow> planner_input \<Rightarrow> bool" where
  "last_tick p t \<longleftrightarrow>
     window_phase t \<and> bend_deadline_s (pl_cfg p) \<le> seconds_of (tick_now t - deadline_start p) \<and>
     (\<forall>i < length (pl_motors p). \<not> moving_or_holding (input_of t i))"

lemma idle_end:
  assumes "plan_wf r" "only_runs r {}" "\<forall>i < length (pl_motors r). \<not> waiting r i"
  shows "all_settled r"
proof -
  have "settled (pl_motors r ! i)" if "i < length (pl_motors r)" "configured (pl_motors r ! i)" for i
    using assms that
    by (cases "motor_state (pl_motors r ! i)") (auto simp: plan_wf_nth only_runs_def runs_def waiting_def settled_def)
  then show ?thesis by (auto simp: all_settled_def list_all_length)
qed

lemma end_state_finished: "end_state p \<in> {PDone, PFailed}"
  by (simp add: end_state_def)

lemma tick_finishes:
  assumes "plan_inv (p, None)" "ticks_ok p" "plan_armed p" "deadline_started p" "last_tick p t"
    and tick: "planner_tick t p = (None, q)"
  shows "pl_state q \<in> {PDone, PFailed}"
proof -
  let ?q = "track_motors t p"
  have idle: "only_runs ?q {}" by (rule tracked_stops(2) [OF assms(2)]) (use assms(5) in \<open>simp add: last_tick_def\<close>)
  have late: "is_late t ?q" using assms(4,5) by (simp add: is_late_def last_tick_def)
  from tick show ?thesis
  proof (cases rule: tick_waits)
    case wait
    then have "\<not> plan_armed ?q" using idle assms(5) by (simp add: last_tick_def)
    then have "pl_state ?q = end_state (tracked_fold t p)"
      using assms(3) by (auto simp: track_motors_eq plan_armed_def split: if_splits)
    then show ?thesis using wait(2) end_state_finished by simp
  next
    case (search e r)
    have "e" using late_search_ends search(2) late by simp
    have len: "length (pl_motors r) = length (pl_motors p)" using search(3) by (simp add: moved_on_def)
    have "plan_wf (deadline_run t ?q)"
      by (rule plan_wf_cong [THEN iffD2, OF _ tracked_wf [OF plan_inv_wf [OF assms(1)], of t]]) simp
    then have "plan_wf r" by (rule moved_on_wf [OF search(3)]) simp_all
    moreover have "only_runs r {}"
      using idle runs_moved [OF search(3)] len by (simp add: only_runs_def runs_def)
    ultimately have "all_settled r" using idle_end search(4) \<open>e\<close> len by simp
    then show ?thesis using search(5) \<open>e\<close> end_state_finished by simp
  qed
qed

lemma tick_start_progress:
  assumes "plan_inv (p, None)" "ticks_ok p" "deadline_started p" "last_tick p t"
    and tick: "planner_tick t p = (Some a, q)"
  shows "plan_inv (q, Some (act_motor_id a)) \<and> ticks_ok q \<and> pl_cfg q = pl_cfg p \<and> plan_armed q \<and>
    length (pl_motors q) = length (pl_motors p) \<and> deadline_started q \<and> deadline_start q = deadline_start p \<and>
    pending q \<subset> pending p"
proof -
  obtain i r q0 where s: "q0 = deadline_run t (track_motors t p)" "moved_on MPending {MSkipped} q0 r"
      "i < length (pl_motors p)" "waiting p i" "pl_motors r ! i = pl_motors p ! i" "q = start_motor i r"
    using tick_starts [OF tick] by metis
  have len: "length (pl_motors r) = length (pl_motors p)" using s(1,2) by (simp add: moved_on_def)
  have still: "\<forall>i < length (pl_motors p). \<not> moving_or_holding (input_of t i)" using assms(4) by (simp add: last_tick_def)
  have q0: "ticks_ok q0"
    by (rule ticks_ok_cong [OF tracked_stops(1) [OF assms(2) still]]) (simp_all add: s(1) deadline_run_def)
  obtain e r' where sn:
      "start_next t (is_late t (track_motors t p)) [0..<length (pl_motors p)] q0 = (Some a, e, r')"
      "q = (if e \<and> all_settled r' then r'\<lparr>pl_state := end_state r', dirty := True\<rparr> else r')"
    using tick unfolding planner_tick_eq s(1) by (auto simp: Let_def split: if_splits prod.splits)
  have "ticks_ok r'" by (rule start_next_ticks [OF sn(1) q0]) (use s(1) in auto)
  then have "ticks_ok q" using sn(2) by (simp add: ticks_ok_def)
  moreover have "waiting p k" if "k < length (pl_motors p)" "waiting q k" for k
  proof -
    have "waiting r k" using that(2) s(6) len that(1) by (cases "k = i") (auto simp: waiting_def start_motor_def)
    then have "waiting q0 k" using s(2) that(1) s(1) by (auto simp: moved_on_def waiting_def)
    then show ?thesis using waiting_tracked [OF that(1), of t] by (simp add: s(1) waiting_def)
  qed
  moreover have "\<not> waiting q i" using s(3,6) len by (simp add: waiting_def start_motor_def)
  ultimately show ?thesis
    using planner_tick_inv [OF assms(1), of t] tick s(1-4,6) len assms(3)
    by (auto simp: pending_def moved_on_def start_motor_def plan_armed_def deadline_run_def)
qed

lemma finished_stays: "pl_state p \<in> {PDone, PFailed} \<Longrightarrow> pl_state (drive x p) = pl_state p"
proof -
  assume fin: "pl_state p \<in> {PDone, PFailed}"
  then have "\<not> plan_armed p" by (auto simp: plan_armed_def)
  then have "planner_tick t p = (None, track_motors t p)" for t
    using plan_armed_tracked by (auto simp: planner_tick_eq Let_def)
  moreover have "pl_state (track_motors t p) = pl_state p" for t using fin by (auto simp: track_motors_eq)
  ultimately show ?thesis by (cases x) (simp add: drive_def)
qed

lemma drive_progress:
  assumes "plan_inv (p, None)" "ticks_ok p" "plan_armed p" "deadline_started p" "last_tick p t" "r \<noteq> RetryLater"
  shows "pl_state (drive (t, r) p) \<in> {PDone, PFailed} \<or>
    plan_inv (drive (t, r) p, None) \<and> ticks_ok (drive (t, r) p) \<and> plan_armed (drive (t, r) p) \<and>
    deadline_started (drive (t, r) p) \<and> deadline_start (drive (t, r) p) = deadline_start p \<and>
    pl_cfg (drive (t, r) p) = pl_cfg p \<and> length (pl_motors (drive (t, r) p)) = length (pl_motors p) \<and>
    pending (drive (t, r) p) \<subset> pending p"
proof (cases "planner_tick t p")
  case (Pair a q)
  show ?thesis
  proof (cases a)
    case None
    then show ?thesis using tick_finishes [OF assms(1-5), of q] Pair by (simp add: drive_def)
  next
    case (Some act)
    have q: "plan_inv (q, Some (act_motor_id act))" and rest: "ticks_ok q \<and> pl_cfg q = pl_cfg p \<and> plan_armed q \<and>
        length (pl_motors q) = length (pl_motors p) \<and> deadline_started q \<and> deadline_start q = deadline_start p \<and>
        pending q \<subset> pending p"
      using tick_start_progress [OF assms(1,2,4,5), of act q] Pair Some by simp_all
    have d: "drive (t, r) p = report_start_result (int (act_motor_id act)) r q" using Pair Some by (simp add: drive_def)
    have i: "act_motor_id act < length (pl_motors q)" using q by (simp add: plan_inv_def)
    show ?thesis
    proof (cases r)
      case Accepted
      then have "drive (t, r) p = q" using d i by (simp add: report_start_result_def)
      then show ?thesis using rest report_inv [OF q, of Accepted] d Accepted by simp
    next
      case RetryLater
      then show ?thesis using assms(6) by simp
    next
      case (Refused e)
      then show ?thesis using d i by (simp add: report_start_result_def Let_def)
    qed
  qed
qed

lemma finished_fold: "pl_state p \<in> {PDone, PFailed} \<Longrightarrow> pl_state (fold drive xs p) \<in> {PDone, PFailed}"
  by (induction xs arbitrary: p) (simp_all add: finished_stays)

lemma driven_to_end:
  assumes "plan_inv (p, None)" "ticks_ok p" "plan_armed p" "deadline_started p"
    "\<forall>(t, r) \<in> set xs. last_tick p t \<and> r \<noteq> RetryLater" "card (pending p) < length xs"
  shows "pl_state (fold drive xs p) \<in> {PDone, PFailed}"
  using assms
proof (induction xs arbitrary: p)
  case Nil
  then show ?case by simp
next
  case (Cons x xs)
  obtain t r where x: "x = (t, r)" by (cases x)
  let ?q = "drive (t, r) p"
  have fin: "finite (pending p)" by (simp add: pending_def)
  from drive_progress [of p t r] Cons.prems x
  have "pl_state ?q \<in> {PDone, PFailed} \<or>
    plan_inv (?q, None) \<and> ticks_ok ?q \<and> plan_armed ?q \<and> deadline_started ?q \<and> deadline_start ?q = deadline_start p \<and>
    pl_cfg ?q = pl_cfg p \<and> length (pl_motors ?q) = length (pl_motors p) \<and> pending ?q \<subset> pending p" by simp
  then show ?case
  proof
    assume "pl_state ?q \<in> {PDone, PFailed}"
    then show ?thesis using finished_fold by (simp add: x)
  next
    assume q: "plan_inv (?q, None) \<and> ticks_ok ?q \<and> plan_armed ?q \<and> deadline_started ?q \<and> deadline_start ?q = deadline_start p \<and>
      pl_cfg ?q = pl_cfg p \<and> length (pl_motors ?q) = length (pl_motors p) \<and> pending ?q \<subset> pending p"
    then have "last_tick ?q = last_tick p" by (simp add: last_tick_def fun_eq_iff)
    moreover have "card (pending ?q) < card (pending p)" using q fin by (simp add: psubset_card_mono)
    ultimately have "pl_state (fold drive xs ?q) \<in> {PDone, PFailed}"
      using q Cons.prems(5,6) by (intro Cons.IH) auto
    then show ?thesis by (simp add: x)
  qed
qed

lemma ticks_ok_step: "plan_step s s' \<Longrightarrow> ticks_ok (fst s) \<Longrightarrow> ticks_ok (fst s')"
proof (induction rule: plan_step.induct)
  case (step_tick p t)
  have tracked: "ticks_ok (track_motors t p)"
  proof -
    have "ticks_ok (fold (track_motor t) is p)" if "set is \<subseteq> {..<length (pl_motors p)}" "ticks_ok p" for "is" p
      using that
    proof (induction "is" arbitrary: p)
      case (Cons i "is")
      have len: "length (pl_motors (track_motor t i p)) = length (pl_motors p)"
        using track_motor_moved [of i p t] Cons.prems(1) by (simp add: moved_on_def)
      show ?case using Cons.prems Cons.IH [of "track_motor t i p"] track_motor_ticks [of p i t] len by simp
    qed simp
    then have "ticks_ok (tracked_fold t p)" using step_tick by (simp add: tracked_fold_def lessThan_atLeast0)
    then show ?thesis by (auto simp: track_motors_eq ticks_ok_def)
  qed
  then have run: "ticks_ok (deadline_run t (track_motors t p))" by (simp add: ticks_ok_def deadline_run_def)
  obtain a e r where sn: "start_next t (is_late t (track_motors t p)) [0..<length (pl_motors p)]
      (deadline_run t (track_motors t p)) = (a, e, r)" by (metis prod_cases3)
  have "ticks_ok r" by (rule start_next_ticks [OF sn run]) auto
  then have "ticks_ok (r\<lparr>pl_state := end_state r, dirty := True\<rparr>)" by (simp add: ticks_ok_def)
  then show ?case using tracked run sn \<open>ticks_ok r\<close> by (simp add: planner_tick_eq Let_def)
next
  case (step_set p out m goal hold hz)
  have "ticks_ok (reset_to_none p)" by (simp add: ticks_ok_def reset_to_none_def)
  then show ?case using step_set
    by (auto simp: set_motor_plan_def Let_def intro: ticks_ok_update [of p 0] ticks_ok_update [of "reset_to_none p" 0])
next
  case (step_report p i r)
  then show ?case
    by (cases r) (auto simp: report_start_result_def Let_def intro: ticks_ok_update [of p 0] ticks_ok_cong [of p])
qed (auto simp: arm_plan_def disarm_plan_def reset_to_none_def take_dirty_def ticks_ok_def)

lemma ticks_ok_reachable:
  "plan_step\<^sup>*\<^sup>* (new_planner cfg n, None) s \<Longrightarrow> ticks_ok (fst s)"
proof (induction rule: rtranclp_induct)
  case base
  show ?case by (simp add: new_planner_def ticks_ok_def)
next
  case (step s s')
  then show ?case using ticks_ok_step by blast
qed


definition unready_tick :: planner_input where
  "unready_tick = \<lparr>fallback_active = True, tick_phase = Float, tick_now = 0,
     tick_motors = [example_input\<lparr>in_zeroed := False\<rparr>, example_input]\<rparr>"

lemma example_seconds: "seconds_of 0 = Fin 0" "seconds_of 1800000000000 = Fin 1800"
  by (simp_all add: seconds_of_def divide_dbl_def)

lemma unready_waits:
  "planner_tick unready_tick example_plan = (None, example_plan\<lparr>deadline_started := True\<rparr>)"
  by (simp add: example_eval unready_tick_def example_seconds skip_motor_def)


end
