(* ===== verification/PwmController.thy ===== *)
theory PwmController
  imports Doubles
begin

text \<open>
  The heater outputs (\<^verbatim>\<open>hal/pwm_controller.cpp\<close>): a duty per channel, a GPIO line per channel that may be missing,
  and the software PWM that renders the duties in slices.  A line is present when its kernel handle is; what a request
  or a write of the kernel answers is an argument.  The simulated outputs of the bench are the same with every line present.
\<close>

record pwm_bank =
  pwm_duty :: "dbl list"
  pwm_lines :: "bool list"
  pwm_healthy :: bool

definition new_simulated_pwm :: "nat \<Rightarrow> pwm_bank" where
  "new_simulated_pwm n = \<lparr>pwm_duty = replicate n 0, pwm_lines = replicate n True, pwm_healthy = True\<rparr>"

definition new_gpio_pwm :: "nat \<Rightarrow> nat list \<Rightarrow> (nat \<Rightarrow> bool) \<Rightarrow> pwm_bank" where
  "new_gpio_pwm n output_lines granted =
     (if length output_lines \<noteq> n \<or> output_lines = []
      then \<lparr>pwm_duty = replicate n 0, pwm_lines = [], pwm_healthy = False\<rparr>
      else \<lparr>pwm_duty = replicate n 0, pwm_lines = map granted [0..<n], pwm_healthy = list_all granted [0..<n]\<rparr>)"

definition pwm_channel_healthy :: "nat \<Rightarrow> pwm_bank \<Rightarrow> bool" where
  "pwm_channel_healthy i b \<longleftrightarrow> i < length (pwm_lines b) \<and> pwm_lines b ! i"

definition pwm_healthy_channels :: "pwm_bank \<Rightarrow> nat" where
  "pwm_healthy_channels b = length (filter (\<lambda>l. l) (pwm_lines b))"

definition pwm_set_duty :: "nat \<Rightarrow> dbl \<Rightarrow> pwm_bank \<Rightarrow> bool \<times> pwm_bank" where
  "pwm_set_duty i d b =
     (if length (pwm_duty b) \<le> i \<or> \<not> pwm_channel_healthy i b then (False, b)
      else (True, b\<lparr>pwm_duty := (pwm_duty b)[i := std_clamp d 0 1]\<rparr>))"

text \<open>The level that turns a heater on or off, and a write; a failed write gives the line up.\<close>

definition pwm_level :: "bool \<Rightarrow> bool \<Rightarrow> bool" where
  "pwm_level active_high on = (if on then active_high else \<not> active_high)"

definition pwm_write_line :: "bool \<Rightarrow> nat \<Rightarrow> pwm_bank \<Rightarrow> bool \<times> pwm_bank" where
  "pwm_write_line written i b =
     (if \<not> pwm_channel_healthy i b then (False, b)
      else if written then (True, b)
      else (False, b\<lparr>pwm_lines := (pwm_lines b)[i := False], pwm_healthy := False\<rparr>))"

definition pwm_retry_missing :: "(nat \<Rightarrow> bool) \<Rightarrow> pwm_bank \<Rightarrow> pwm_bank" where
  "pwm_retry_missing granted b =
     (let lines = map (\<lambda>i. pwm_lines b ! i \<or> granted i) [0..<length (pwm_lines b)]
      in b\<lparr>pwm_lines := lines, pwm_healthy := (lines \<noteq> [] \<and> list_all (\<lambda>l. l) lines)\<rparr>)"

definition pwm_all_off :: "(nat \<Rightarrow> bool) \<Rightarrow> pwm_bank \<Rightarrow> pwm_bank" where
  "pwm_all_off written b = fold (\<lambda>i b. snd (pwm_write_line (written i) i b)) [0..<length (pwm_lines b)] b"

subsection \<open>One period of the software PWM\<close>

text \<open>\<^verbatim>\<open>std::round\<close> on a double.\<close>

fun dbl_round :: "dbl \<Rightarrow> dbl" where
  "dbl_round (Fin q) = to_dbl (of_int (rat_round_away q))"
| "dbl_round x = x"

definition slice_on :: "nat \<Rightarrow> nat \<Rightarrow> dbl \<Rightarrow> bool" where
  "slice_on slices k duty \<longleftrightarrow>
     dbl_of_int (int k) < dbl_round (duty * dbl_of_int (int slices))"

text \<open>The writes of one slice, for the duties read in it; only a change is written.\<close>

fun render_slice :: "nat \<Rightarrow> nat \<Rightarrow> nat \<Rightarrow> dbl list \<Rightarrow> bool list \<Rightarrow> (nat \<times> bool) list \<times> bool list" where
  "render_slice slices k ch (d # ds) (was # rest) =
     (let on = slice_on slices k d; (w, rest) = render_slice slices k (Suc ch) ds rest
      in ((if on \<noteq> was then (ch, on) # w else w), on # rest))"
| "render_slice slices k ch ds old = ([], old)"

text \<open>A period, for the duties read in each slice; it is cut short by the end of the list when the loop is stopped.\<close>

fun render_period :: "nat \<Rightarrow> nat \<Rightarrow> dbl list list \<Rightarrow> bool list \<Rightarrow> (nat \<times> bool) list list \<times> bool list" where
  "render_period slices k [] old = ([], old)"
| "render_period slices k (ds # dss) old =
     (if slices \<le> k then ([], old)
      else
        (let (w, old) = render_slice slices k 0 ds old; (ws, old) = render_period slices (Suc k) dss old
         in (w # ws, old)))"

definition pwm_slices :: nat where
  "pwm_slices = 100"

subsection \<open>Facts\<close>

lemma pwm_set_duty_fields [simp]:
  "length (pwm_duty (snd (pwm_set_duty i d b))) = length (pwm_duty b)"
  "pwm_lines (snd (pwm_set_duty i d b)) = pwm_lines b" "pwm_healthy (snd (pwm_set_duty i d b)) = pwm_healthy b"
  by (simp_all add: pwm_set_duty_def)

lemma pwm_set_duty_nth:
  "pwm_duty (snd (pwm_set_duty i d b)) ! j =
     (if i = j \<and> i < length (pwm_duty b) \<and> pwm_channel_healthy i b then std_clamp d 0 1 else pwm_duty b ! j)"
  by (cases "i = j") (simp_all add: pwm_set_duty_def)

text \<open>A duty of zero is off in the slice that reads it, whatever was before.\<close>

lemma zero_duty_off: "\<not> slice_on slices k 0"
proof -
  have half: "\<lfloor>1 / 2 :: rat\<rfloor> = 0" by (rule floor_unique) auto
  have "Fin 0 \<le> dbl_of_int (int k)" using to_dbl_mono [of 0 "of_int (int k)"] by simp
  moreover have "\<not> Fin 0 < dbl_round (0 * dbl_of_int (int slices))"
    by (cases "dbl_of_int (int slices)")
      (simp_all add: times_dbl_def zero_dbl_def rat_round_away_def signed_inf_def half)
  ultimately show ?thesis
    unfolding slice_on_def by (cases "dbl_round (0 * dbl_of_int (int slices))"; cases "dbl_of_int (int k)") auto
qed

text \<open>After a slice every line is at the level of the duty read in it.\<close>

lemma render_slice_levels:
  "length ds = length was \<Longrightarrow> snd (render_slice slices k ch ds was) = map (slice_on slices k) ds"
proof (induction ds arbitrary: was ch)
  case Nil
  then show ?case by simp
next
  case (Cons d ds)
  then obtain w ws where "was = w # ws" "length ds = length ws" by (cases was) auto
  then show ?case using Cons.IH [of ws "Suc ch"] by (auto simp: Let_def split: prod.splits)
qed

end
