(* ===== verification/SystemState.thy ===== *)
theory SystemState
  imports StateManager HeaterScheduler ThermalController PidAutoTuner PwmController StepperController
    CommandParser FallbackPlanner
begin

text \<open>
  The system controller (\<^verbatim>\<open>system_controller.cpp\<close>): its configuration and state, the components it owns, and
  the helpers its tick and its commands share.  The motors are there once \<^verbatim>\<open>Initialize\<close> has run; from then on
  the heater scheduler watches the lock the motors share.
\<close>

subsection \<open>Configuration\<close>

record runtime_config =
  bench_mode :: bool
  debug_arm_code :: string
  tick_hz :: dbl

record manual_config =
  manual_first :: bool
  link_loss_fallback_enabled :: bool
  link_loss_fallback_s :: dbl

record fallback_config =
  fb_bend_min_c :: dbl
  fb_bend_max_c :: dbl
  fb_bend_deadline_s :: dbl
  landed_safe :: bool

record motion_config =
  mo_steps_per_rev :: int
  mo_default_step_hz :: dbl
  mo_max_position_steps :: int
  mo_enable_on_boot :: bool
  mo_lead_mm_per_rev :: dbl
  max_speed_mm_s :: dbl
  max_direct_usteps :: int
  mo_max_accel :: dbl

record pull_config =
  pull_max_step_hz :: dbl
  pull_accel :: dbl
  pull_microstep :: int
  pull_travel :: int
  pull_hold :: dbl

record layout_config =
  max31865_samples :: "nat list"
  sequent_rtd_channels :: "nat list"

record motor_config =
  motor_accel :: dbl
  motor_retry_ms :: int
  motor_samples :: "nat list"

record system_config =
  sc_runtime :: runtime_config
  sc_simulated :: bool
  sc_manual :: manual_config
  sc_fallback :: fallback_config
  sc_onboard :: onboard_config
  sc_power :: power_config
  sc_transition :: transition_config
  sc_motion :: motion_config
  sc_pull :: pull_config
  sc_layout :: layout_config
  sc_motors :: "motor_config list"

definition linear_max_step_hz :: "motion_config \<Rightarrow> dbl" where
  "linear_max_step_hz c = max_speed_mm_s c / mo_lead_mm_per_rev c * dbl_of_int (mo_steps_per_rev c)"

definition effective_max_step_hz :: "system_config \<Rightarrow> dbl" where
  "effective_max_step_hz cfg = std_min (pull_max_step_hz (sc_pull cfg)) (linear_max_step_hz (sc_motion cfg))"

definition motor_channel_config :: "system_config \<Rightarrow> nat \<Rightarrow> channel_config" where
  "motor_channel_config cfg i =
     (let mo = sc_motion cfg; pull = sc_pull cfg; m = sc_motors cfg ! i in
      channel_default
        \<lparr>channel_id := int i, full_steps_per_rev := mo_steps_per_rev mo, max_step_hz := effective_max_step_hz cfg,
         default_step_hz := mo_default_step_hz mo,
         accel_steps_per_s2 := (if 0 < motor_accel m then motor_accel m else pull_accel pull),
         max_accel_steps_per_s2 := mo_max_accel mo, lead_mm_per_rev := mo_lead_mm_per_rev mo,
         cfg_microstep := pull_microstep pull, max_position_steps := mo_max_position_steps mo,
         ch_samples := motor_samples m, pull_travel_full_steps := pull_travel pull, pull_hold_s := pull_hold pull,
         enable_on_boot := mo_enable_on_boot mo, use_pulse_thread := \<not> sc_simulated cfg,
         driver_retry_ms := motor_retry_ms m\<rparr>)"

subsection \<open>State\<close>

datatype system_mode = Standby | Run | Safe

fun mode_to_string :: "system_mode \<Rightarrow> string" where
  "mode_to_string Standby = ''STANDBY''"
| "mode_to_string Run = ''RUN''"
| "mode_to_string Safe = ''SAFE''"

record bend_step =
  step_target :: int
  step_hold_s :: dbl
  step_speed :: "dbl option"

record bend_definition =
  def_name :: string
  def_steps :: "bend_step list"

record bend_sequence =
  definitions :: "string \<Rightarrow> bend_definition option"
  active_name :: string
  step_index :: nat
  seq_running :: bool
  seq_paused :: bool
  step_queued :: bool
  seq_fault :: string

definition new_sequence :: bend_sequence where
  "new_sequence = \<lparr>definitions = Map.empty, active_name = [], step_index = 0, seq_running = False, seq_paused = False,
     step_queued = False, seq_fault = []\<rparr>"

record heater_test =
  test_active :: bool
  test_heater :: nat
  test_duty :: dbl
  test_until :: time_point

text \<open>The edge detector of the pull events: whether the motor held the lock, and since when.\<close>

record pull_state =
  was_moving :: bool
  lock_was_held :: bool
  pull_start_ts :: string
  pull_start_pos :: int

definition no_pull :: pull_state where
  "no_pull = \<lparr>was_moving = False, lock_was_held = False, pull_start_ts = [], pull_start_pos = 0\<rparr>"

record 'd system =
  sys_cfg :: system_config
  sys_mode :: system_mode
  sys_debug_armed :: bool
  live_tick_hz :: dbl
  sys_phase :: state_manager
  sys_thermal :: thermal_controller
  sys_scheduler :: heater_scheduler
  sys_pwm :: pwm_bank
  sys_stepper :: "'d stepper_controller option"
  sys_planner :: fallback_planner
  landed_safed :: bool
  sys_state_overrides :: state_overrides
  sys_overrides :: control_overrides
  last_heater_duty :: "dbl list"
  link_seen :: bool
  link_loss_s :: dbl
  fallback_on :: bool
  fallback_was_on :: bool
  last_temps :: sensor_temps
  sequences :: "bend_sequence list"
  motor_zeroed :: "bool list"
  sys_test :: heater_test
  sys_tuner :: pid_autotuner
  tune_channel :: int
  tune_commanded_duty :: dbl
  tune_result_logged :: bool
  last_link_ok :: bool
  sys_running :: bool
  next_seq :: "64 word"
  pull_states :: "pull_state list"
  next_pull_id :: "32 word"
  transmit_enabled :: bool
  silence_flag :: bool
  plan_file :: "string option"
  storage_safe :: bool

abbreviation heaters_of :: "'d system \<Rightarrow> nat" where
  "heaters_of s \<equiv> heater_count (oc_hardware (sc_onboard (sys_cfg s)))"

text \<open>The lock the heater scheduler and the pull events watch.\<close>

definition active_lock :: "'d system \<Rightarrow> motion_lock option" where
  "active_lock s = map_option shared_lock (sys_stepper s)"

text \<open>The constructor: the flag file of a radio silence and the plan file are what an earlier run left.\<close>

definition new_system :: "system_config \<Rightarrow> bool \<Rightarrow> string option \<Rightarrow> 'd system" where
  "new_system cfg silent plan =
     (let n = heater_count (oc_hardware (sc_onboard cfg)); motors = length (sc_motors cfg);
          planner = new_planner
            \<lparr>bend_min_c = fb_bend_min_c (sc_fallback cfg), bend_max_c = fb_bend_max_c (sc_fallback cfg),
             bend_deadline_s = fb_bend_deadline_s (sc_fallback cfg)\<rparr> motors
      in \<lparr>sys_cfg = cfg, sys_mode = Standby, sys_debug_armed = False,
          live_tick_hz = std_max (to_dbl (1 / 10)) (tick_hz (sc_runtime cfg)),
          sys_phase = new_state_manager (sc_transition cfg), sys_thermal = new_thermal_controller (sc_onboard cfg),
          sys_scheduler = new_heater_scheduler (sc_power cfg)
            (electronics_heater_index (oc_hardware (sc_onboard cfg))),
          sys_pwm = new_simulated_pwm n, sys_stepper = None,
          sys_planner = (if plan = None then planner else snd (take_dirty (snd (load_plan plan planner)))),
          landed_safed = False, sys_state_overrides = no_overrides,
          sys_overrides = no_control_overrides
            \<lparr>heater_duty_overrides := replicate n None, temp_targets_c := replicate n None,
             pid_overrides := replicate n None\<rparr>,
          last_heater_duty = replicate n 0, link_seen = False, link_loss_s = 0, fallback_on = False,
          fallback_was_on = False, last_temps = \<lparr>sample_temps_c = [], sample_temp_valid = []\<rparr>,
          sequences = replicate motors new_sequence, motor_zeroed = replicate motors False,
          sys_test = \<lparr>test_active = False, test_heater = 0, test_duty = 0, test_until = 0\<rparr>,
          sys_tuner = new_autotuner, tune_channel = - 1, tune_commanded_duty = 0, tune_result_logged = False,
          last_link_ok = False, sys_running = True, next_seq = 0, pull_states = [], next_pull_id = 1,
          transmit_enabled = \<not> silent, silence_flag = silent, plan_file = plan, storage_safe = False\<rparr>)"

text \<open>\<^verbatim>\<open>Initialize\<close>: the heater outputs and the motors.\<close>

definition initialize_system :: "'d driver_ops \<Rightarrow> pwm_bank \<Rightarrow> 'd option list \<Rightarrow> 'd system \<Rightarrow> string + 'd system" where
  "initialize_system ops pwm drivers s =
     (let cfg = sys_cfg s in
      case new_controller ops (map (motor_channel_config cfg) [0..<length (sc_motors cfg)]) drivers of
        Inl e \<Rightarrow> Inl e
      | Inr t \<Rightarrow> Inr (s\<lparr>sys_pwm := pwm, sys_stepper := Some t,
                         pull_states := take (length (channels t)) (pull_states s) @
                           replicate (length (channels t) - length (pull_states s)) no_pull\<rparr>))"

subsection \<open>Shared operations\<close>

definition inhibit_heaters :: "'d system \<Rightarrow> 'd system" where
  "inhibit_heaters s =
     s\<lparr>sys_pwm := fold (\<lambda>i b. snd (pwm_set_duty i 0 b)) [0..<heaters_of s] (sys_pwm s),
       last_heater_duty := replicate (heaters_of s) 0\<rparr>"

text \<open>A call of a motor method; without motors nothing happens.\<close>

definition on_stepper ::
  "('d stepper_controller \<Rightarrow> string option \<times> 'd stepper_controller) \<Rightarrow> 'd system \<Rightarrow> string option \<times> 'd system" where
  "on_stepper f s =
     (case sys_stepper s of
        None \<Rightarrow> (None, s)
      | Some t \<Rightarrow> (let (e, t) = f t in (e, s\<lparr>sys_stepper := Some t\<rparr>)))"

definition motor_count :: "'d system \<Rightarrow> nat" where
  "motor_count s = (case sys_stepper s of None \<Rightarrow> 0 | Some t \<Rightarrow> length (channels t))"

definition stop_all_motors :: "'d system \<Rightarrow> 'd system" where
  "stop_all_motors s = fold (\<lambda>i s. snd (on_stepper (ctl_stop (int i)) s)) [0..<motor_count s] s"

definition stop_and_disable_all_motors :: "'d driver_ops \<Rightarrow> 'd system \<Rightarrow> 'd system" where
  "stop_and_disable_all_motors ops s =
     fold (\<lambda>i s. snd (on_stepper (ctl_set_enabled ops (int i) False) (snd (on_stepper (ctl_stop (int i)) s))))
       [0..<motor_count s] s"

text \<open>\<^verbatim>\<open>Snapshot\<close> of an unknown motor is the default status.\<close>

definition default_status :: stepper_status where
  "default_status =
     \<lparr>st_position_steps = 0, st_target_steps = 0, st_step_hz = 0, st_microstep = 1, st_accel = 0, st_run_current = 0,
      st_thermal_state = 0, st_position_mm = 0, st_target_mm = 0, st_enabled = False, st_healthy = False,
      st_moving = False, st_holding = False, st_hold_remaining_s = 0, st_pulses_total = 0, st_missed_deadlines = 0,
      st_last_source = [], st_step_loss_events = 0, st_position_uncertain = False, st_step_loss_reason = []\<rparr>"

definition motor_status :: "'d driver_ops \<Rightarrow> int \<Rightarrow> 'd system \<Rightarrow> stepper_status" where
  "motor_status ops m s =
     (case sys_stepper s of
        None \<Rightarrow> default_status
      | Some t \<Rightarrow> (case channel_by_id m t of None \<Rightarrow> default_status | Some c \<Rightarrow> snapshot ops c))"

text \<open>The overrides every safing sets: heaters off, no test, no open loop, no duty and no target.\<close>

definition clear_heat_overrides :: "control_overrides \<Rightarrow> control_overrides" where
  "clear_heat_overrides ov =
     ov\<lparr>heaters_off := True, bench_open_loop_heaters := False, single_heater_override := None,
        all_heaters_override := None, heater_duty_overrides := map (\<lambda>_. None) (heater_duty_overrides ov),
        temp_targets_c := map (\<lambda>_. None) (temp_targets_c ov)\<rparr>"

definition stop_heat_test :: "'d system \<Rightarrow> 'd system" where
  "stop_heat_test s = s\<lparr>sys_test := (sys_test s)\<lparr>test_active := False\<rparr>\<rparr>"

definition heaters_off_override :: "'d system \<Rightarrow> 'd system" where
  "heaters_off_override s = stop_heat_test (s\<lparr>sys_overrides := clear_heat_overrides (sys_overrides s)\<rparr>)"

text \<open>Persistence of the plan; whether its file opens and takes the text is the environment's.\<close>

definition persist_plan :: "bool \<Rightarrow> bool \<Rightarrow> 'd system \<Rightarrow> 'd system" where
  "persist_plan open_ok write_ok s =
     (let (was, p) = take_dirty (sys_planner s); s = s\<lparr>sys_planner := p\<rparr> in
      if \<not> was then s else s\<lparr>plan_file := snd (save_plan open_ok write_ok p (plan_file s))\<rparr>)"

definition ended_by_safety_abort :: "stepper_status \<Rightarrow> bool" where
  "ended_by_safety_abort st \<longleftrightarrow> starts_with ''safety:'' (st_last_source st)"

definition sanitize_for_reply :: "string \<Rightarrow> string" where
  "sanitize_for_reply text =
     map (\<lambda>c. if c = CHR '';'' \<or> c = CHR '','' \<or> char_code c = 10 \<or> char_code c = 13 then CHR '' '' else c) text"

end
