(* ===== verification/SystemTick.thy ===== *)
theory SystemTick
  imports SystemState
begin

text \<open>
  One pass of the control loop (\<^verbatim>\<open>SystemController::Run\<close>): the overrides of the operator are taken, the
  link is accounted for, the phase, the requested and the scheduled duties follow, the duties are set,
  the fallback plan, the bend sequences and the motors advance, the telemetry record is filled in and the pull
  events are found.  What the pass reads from outside is one record: the sensor readings, the clock at
  each place the code reads it, whether the plan file could be written and what the drain
  reports of the link.  The log and the drain itself belong to other components.
\<close>

record tick_env =
  env_temps :: sensor_temps
  env_pressure :: dbl
  env_timestamp :: string
  env_tick_start :: time_point
  env_test_now :: time_point
  env_plan_now :: time_point
  env_channel_now :: "nat \<Rightarrow> time_point"
  env_plan_opens :: bool
  env_plan_written :: bool
  env_link_ok :: bool

subsection \<open>Overrides and link\<close>

definition tick_seconds :: "'d system \<Rightarrow> dbl" where
  "tick_seconds s = 1 / std_max (to_dbl (1 / 10)) (live_tick_hz s)"

text \<open>The one-shot overrides are taken once.\<close>

definition take_overrides :: "'d system \<Rightarrow> (state_overrides \<times> control_overrides) \<times> 'd system" where
  "take_overrides s = ((sys_state_overrides s, sys_overrides s), s\<lparr>sys_state_overrides := no_overrides\<rparr>)"

definition apply_reset :: "state_overrides \<Rightarrow> 'd system \<Rightarrow> 'd system" where
  "apply_reset ov s =
     (if \<not> reset_control ov then s
      else
        (let s = s\<lparr>sys_thermal := tc_reset (sys_thermal s)\<rparr> in
         if hs_budget_exhausted (sys_scheduler s) then s\<lparr>sys_scheduler := hs_reset (sys_scheduler s)\<rparr> else s))"

definition stop_non_sequence_motion :: "'d system \<Rightarrow> 'd system" where
  "stop_non_sequence_motion s =
     (let flags = map seq_running (sequences s) in
      fold (\<lambda>i s. if i < length flags \<and> flags ! i then s else snd (on_stepper (ctl_stop (int i)) s))
        [0..<motor_count s] s)"

definition account_outage :: "dbl \<Rightarrow> 'd system \<Rightarrow> 'd system" where
  "account_outage dt s =
     (if \<not> transmit_enabled s then s\<lparr>link_loss_s := 0\<rparr>
      else if last_link_ok s then s\<lparr>link_seen := True, link_loss_s := 0\<rparr>
      else if link_seen s then s\<lparr>link_loss_s := link_loss_s s + dt\<rparr>
      else s)"

definition fallback_due :: "'d system \<Rightarrow> bool" where
  "fallback_due s \<longleftrightarrow>
     manual_first (sc_manual (sys_cfg s)) \<and> link_loss_fallback_enabled (sc_manual (sys_cfg s)) \<and> sys_mode s = Run \<and>
     transmit_enabled s \<and> link_seen s \<and> \<not> last_link_ok s \<and>
     link_loss_fallback_s (sc_manual (sys_cfg s)) \<le> link_loss_s s"

definition tick_link :: "dbl \<Rightarrow> 'd system \<Rightarrow> 'd system" where
  "tick_link dt s =
     (let s = account_outage dt s;
          s = s\<lparr>fallback_on := fallback_due s\<rparr>;
          s = (if fallback_on s \<and> \<not> fallback_was_on s then stop_non_sequence_motion s else s)
      in s\<lparr>fallback_was_on := fallback_on s\<rparr>)"

text \<open>The phase: followed by pressure during the fallback, the operator's otherwise.\<close>

definition tick_phase_update :: "tick_env \<Rightarrow> state_overrides \<Rightarrow> 'd system \<Rightarrow> 'd system" where
  "tick_phase_update e ov s =
     (if fallback_on s then s\<lparr>sys_phase := sm_update (env_pressure e) ov (sys_phase s)\<rparr> else s)"

subsection \<open>Heat\<close>

definition effective_overrides :: "control_overrides \<Rightarrow> 'd system \<Rightarrow> control_overrides" where
  "effective_overrides ov s =
     (let ov = ov\<lparr>floor_control_enabled := fallback_on s\<rparr>
      in if sys_mode s \<noteq> Run then ov\<lparr>heaters_off := True\<rparr> else ov)"

text \<open>\<^verbatim>\<open>static_cast<std::size_t>\<close> of an \<^verbatim>\<open>int\<close>.\<close>

definition size_of_int :: "int \<Rightarrow> nat" where
  "size_of_int n = nat (n mod 2 ^ 64)"

definition tune_sample :: "'d system \<Rightarrow> nat" where
  "tune_sample s =
     (let ch = tune_channel s; channels = temperature_channels (oc_heaters (sc_onboard (sys_cfg s))) in
      if 0 \<le> ch \<and> size_of_int ch < length channels then channels ! nat ch else size_of_int ch)"

definition reading_valid :: "nat \<Rightarrow> sensor_temps \<Rightarrow> bool" where
  "reading_valid k sensors \<longleftrightarrow>
     k < length (sample_temps_c sensors) \<and>
     (sample_temp_valid sensors = [] \<or>
      (k < length (sample_temp_valid sensors) \<and> sample_temp_valid sensors ! k))"

text \<open>Why the tick ends a tune, and the tune's part of the tick: the duties, the channel and duty it owns.\<close>

definition tune_gate :: "control_overrides \<Rightarrow> 'd system \<Rightarrow> string option" where
  "tune_gate ov s =
     (let ch = tune_channel s; latched = channel_latched (sys_thermal s) in
      if sys_mode s \<noteq> Run then Some ''left RUN mode''
      else if fallback_on s then Some ''link-loss fallback engaged''
      else if heaters_off ov then Some ''heaters commanded off''
      else if 0 \<le> ch \<and> size_of_int ch < length latched \<and> latched ! nat ch
      then Some ''overtemp latch tripped'' else None)"

definition tick_tuner ::
  "tick_env \<Rightarrow> control_overrides \<Rightarrow> dbl list \<Rightarrow> 'd system \<Rightarrow> (dbl list \<times> (int \<times> dbl) option) \<times> 'd system" where
  "tick_tuner e ov requested s =
     (let (res, s) =
        (if tuner_state (sys_tuner s) \<noteq> TunerRunning then ((requested, None), s)
         else
           (let ch = tune_channel s; k = tune_sample s; ok = reading_valid k (env_temps e);
                temp = (if ok then sample_temps_c (env_temps e) ! k else 0);
                t = (case tune_gate ov s of None \<Rightarrow> sys_tuner s | Some reason \<Rightarrow> tuner_abort reason (sys_tuner s));
                (duty, t) = tuner_tick ok temp (seconds_of (env_tick_start e)) t;
                s = s\<lparr>sys_tuner := t\<rparr>
            in if tuner_state t \<noteq> TunerRunning then ((requested, None), s)
               else
                 (let off = map (\<lambda>_. 0) requested;
                      duties = (if 0 \<le> ch \<and> size_of_int ch < length off then off[nat ch := duty] else off)
                  in ((duties, Some (ch, duty)), s\<lparr>tune_commanded_duty := duty\<rparr>))))
      in (res, if \<not> tune_result_logged s \<and> (tuner_state (sys_tuner s) = TunerDone \<or> tuner_state (sys_tuner s) = TunerFailed)
               then s\<lparr>tune_result_logged := True\<rparr> else s))"

definition debug_arm_held :: "'d system \<Rightarrow> bool" where
  "debug_arm_held s \<longleftrightarrow> bench_mode (sc_runtime (sys_cfg s)) \<and> sys_debug_armed s"

definition motion_active :: "'d system \<Rightarrow> bool" where
  "motion_active s = (case active_lock s of None \<Rightarrow> False | Some l \<Rightarrow> lock_holder l \<noteq> - 1)"

text \<open>The bench test of one heater: it ends by itself, or owns the duties.\<close>

definition tick_heater_test :: "tick_env \<Rightarrow> dbl list \<Rightarrow> 'd system \<Rightarrow> (dbl list \<times> bool) \<times> 'd system" where
  "tick_heater_test e requested s =
     (let t = sys_test s in
      if \<not> test_active t then ((requested, False), s)
      else if debug_arm_held s \<and> sys_mode s = Run \<and> \<not> motion_active s \<and> env_test_now e < test_until t
      then
        (let off = map (\<lambda>_. 0) requested in
         if test_heater t < length off
         then ((off[test_heater t := test_duty t], 0 < test_duty t), s)
         else ((off, False), s))
      else ((requested, False), stop_heat_test s))"

definition manual_heat :: "control_overrides \<Rightarrow> bool" where
  "manual_heat ov \<longleftrightarrow>
     all_heaters_override ov \<noteq> None \<or> single_heater_override ov \<noteq> None \<or>
     list_ex (\<lambda>v. v \<noteq> None) (heater_duty_overrides ov) \<or> list_ex (\<lambda>v. v \<noteq> None) (temp_targets_c ov)"

definition bench_open_loop :: "control_overrides \<Rightarrow> 'd system \<Rightarrow> bool" where
  "bench_open_loop ov s \<longleftrightarrow> sys_mode s = Run \<and> debug_arm_held s \<and> bench_open_loop_heaters ov"

text \<open>From the readings to the duties of this tick; the flag tells that a tune owns them.\<close>

definition tick_heat ::
  "tick_env \<Rightarrow> dbl \<Rightarrow> control_overrides \<Rightarrow> 'd system \<Rightarrow> (dbl list \<times> int option) \<times> 'd system" where
  "tick_heat e dt ov s =
     (let ph = sm_phase (sys_phase s);
          (requested, tc) = compute_requested_duty ph (env_temps e) dt (effective_overrides ov s) (sys_thermal s);
          s = s\<lparr>sys_thermal := tc\<rparr>;
          ((requested, tune), s) = tick_tuner e ov requested s;
          ((requested, debug_heat), s) = tick_heater_test e requested s;
          requested_heat = (manual_heat ov \<or> debug_heat \<or> tune \<noteq> None);
          (scheduled, s) =
            (if bench_open_loop ov s \<and> tune = None then (map (\<lambda>d. std_clamp d 0 1) requested, s)
             else
               (let (d, h) = hs_schedule (active_lock s) requested
                      (sys_mode s = Run \<and> (should_heat_phase ph \<or> requested_heat)) dt (sys_scheduler s)
                in (d, s\<lparr>sys_scheduler := h\<rparr>)));
          s = (case tune of
                 None \<Rightarrow> s
               | Some (ch, duty) \<Rightarrow>
                   if 0 \<le> ch \<and> size_of_int ch < length scheduled \<and>
                      scheduled ! nat ch + to_dbl (1 / 1000000000) < duty
                   then s\<lparr>sys_tuner := tuner_abort
                     ''scheduler clamped the tune duty (motion inhibit or power budget)'' (sys_tuner s)\<rparr>
                   else s)
      in ((scheduled, map_option fst tune), s))"

definition set_duties :: "dbl list \<Rightarrow> 'd system \<Rightarrow> 'd system" where
  "set_duties duties s =
     s\<lparr>sys_pwm := fold (\<lambda>i b. snd (pwm_set_duty i (duties ! i) b)) [0..<length duties] (sys_pwm s),
       last_heater_duty := duties\<rparr>"

subsection \<open>The fallback plan\<close>

definition motor_group_temperature :: "nat \<Rightarrow> sensor_temps \<Rightarrow> 'd system \<Rightarrow> dbl option" where
  "motor_group_temperature motor sensors s =
     (if length (sc_motors (sys_cfg s)) \<le> motor then None
      else
        (let used = filter (\<lambda>k. reading_valid k sensors \<and> is_finite (sample_temps_c sensors ! k))
               (motor_samples (sc_motors (sys_cfg s) ! motor));
             total = foldl (\<lambda>acc k. acc + sample_temps_c sensors ! k) 0 used
         in if used = [] then None else Some (total / dbl_of_int (int (length used)))))"

definition plan_motor_input :: "'d driver_ops \<Rightarrow> sensor_temps \<Rightarrow> 'd system \<Rightarrow> nat \<Rightarrow> motor_input" where
  "plan_motor_input ops sensors s i =
     (let st = motor_status ops (int i) s; ab = ended_by_safety_abort st in
      \<lparr>in_enabled = st_enabled st, in_zeroed = (i < length (motor_zeroed s) \<and> motor_zeroed s ! i),
       in_healthy = st_healthy st, moving_or_holding = (st_moving st \<or> st_holding st), aborted = ab,
       abort_reason = (if \<not> ab then []
         else if st_last_source st = ''safety:OVERTEMP'' then ''driver over-temperature shutdown''
         else sanitize_for_reply (st_step_loss_reason st)),
       group_temp_c = motor_group_temperature i sensors s\<rparr>)"

definition plan_input :: "'d driver_ops \<Rightarrow> tick_env \<Rightarrow> 'd system \<Rightarrow> planner_input" where
  "plan_input ops e s =
     \<lparr>fallback_active = fallback_on s, tick_phase = sm_phase (sys_phase s), tick_now = env_plan_now e,
      tick_motors = map (plan_motor_input ops (env_temps e) s) [0..<motor_count s]\<rparr>"

definition lock_refusal :: string where
  "lock_refusal = ''motion lock held by another motor''"

text \<open>The start of the bend the planner asks for, and what the planner is told of it.\<close>

definition start_plan_bend :: "fallback_action \<Rightarrow> 'd system \<Rightarrow> start_result \<times> 'd system" where
  "start_plan_bend a s =
     (let (e, s) = (if 0 < act_speed_hz a then on_stepper (ctl_set_speed (int (act_motor_id a)) (act_speed_hz a)) s
                    else (None, s))
      in case e of
           Some err \<Rightarrow> (Refused err, s)
         | None \<Rightarrow>
             (let (e, s) = on_stepper (ctl_move_to_steps (int (act_motor_id a)) (act_target_usteps a) (act_hold_s a))
                    (inhibit_heaters s)
              in (case e of None \<Rightarrow> Accepted
                  | Some err \<Rightarrow> if err = lock_refusal then RetryLater else Refused err, s)))"

definition apply_landed_safing :: "'d driver_ops \<Rightarrow> 'd system \<Rightarrow> 'd system" where
  "apply_landed_safing ops s =
     stop_and_disable_all_motors ops (heaters_off_override (s\<lparr>landed_safed := True\<rparr>))"

definition tick_fallback_plan :: "'d driver_ops \<Rightarrow> tick_env \<Rightarrow> 'd system \<Rightarrow> 'd system" where
  "tick_fallback_plan ops e s =
     (if sys_stepper s = None then s
      else
        (let (action, p) = planner_tick (plan_input ops e s) (sys_planner s);
             s = s\<lparr>sys_planner := p\<rparr>;
             s = (case action of
                    None \<Rightarrow> s
                  | Some a \<Rightarrow>
                      (let (r, s) = start_plan_bend a s
                       in s\<lparr>sys_planner := report_start_result (int (act_motor_id a)) r (sys_planner s)\<rparr>));
             s = (if fallback_on s \<and> sm_phase (sys_phase s) = Landed \<and> landed_safe (sc_fallback (sys_cfg s)) \<and>
                     \<not> landed_safed s
                  then apply_landed_safing ops s else s)
         in persist_plan (env_plan_opens e) (env_plan_written e) s))"

subsection \<open>The bend sequences\<close>

definition set_sequence :: "nat \<Rightarrow> bend_sequence \<Rightarrow> 'd system \<Rightarrow> 'd system" where
  "set_sequence i r s = s\<lparr>sequences := (sequences s)[i := r]\<rparr>"

definition pause_with :: "string \<Rightarrow> bend_sequence \<Rightarrow> bend_sequence" where
  "pause_with text r = r\<lparr>seq_paused := True, seq_fault := text\<rparr>"

definition start_sequence_step :: "nat \<Rightarrow> bend_step \<Rightarrow> bend_sequence \<Rightarrow> 'd system \<Rightarrow> 'd system" where
  "start_sequence_step i step r s =
     (let (e, s) = (case step_speed step of None \<Rightarrow> (None, s)
                    | Some hz \<Rightarrow> on_stepper (ctl_set_speed (int i) hz) s)
      in case e of
           Some err \<Rightarrow> set_sequence i (pause_with err r) s
         | None \<Rightarrow>
             (let (e, s) = on_stepper (ctl_move_to_steps (int i) (step_target step) (step_hold_s step))
                    (inhibit_heaters s)
              in case e of
                   None \<Rightarrow> set_sequence i (r\<lparr>step_queued := True\<rparr>) s
                 | Some err \<Rightarrow>
                     if err = lock_refusal then set_sequence i r s else set_sequence i (pause_with err r) s))"

definition tick_sequence :: "'d driver_ops \<Rightarrow> nat \<Rightarrow> 'd system \<Rightarrow> 'd system" where
  "tick_sequence ops i s =
     (let r = sequences s ! i in
      if \<not> seq_running r \<or> seq_paused r then s
      else
        case definitions r (active_name r) of
          None \<Rightarrow> set_sequence i (pause_with ''active sequence definition missing'' (r\<lparr>seq_running := False\<rparr>)) s
        | Some d \<Rightarrow>
            if def_steps d = []
            then set_sequence i (pause_with ''active sequence definition missing'' (r\<lparr>seq_running := False\<rparr>)) s
            else if length (def_steps d) \<le> step_index r
            then set_sequence i (r\<lparr>seq_running := False, step_queued := False, active_name := []\<rparr>) s
            else
              (let step = def_steps d ! step_index r; st = motor_status ops (int i) s in
               if \<not> step_queued r then start_sequence_step i step r s
               else if st_moving st \<or> st_holding st then s
               else if st_position_steps st \<noteq> step_target step
               then set_sequence i
                 (pause_with (if st_last_source st = ''safety:STEPLOSS''
                              then ''step loss: '' @ sanitize_for_reply (st_step_loss_reason st)
                              else ''motor stopped before target'') (r\<lparr>step_queued := False\<rparr>)) s
               else
                 (let r = r\<lparr>step_index := step_index r + 1, step_queued := False\<rparr> in
                  if length (def_steps d) \<le> step_index r
                  then set_sequence i (r\<lparr>seq_running := False, active_name := []\<rparr>) s
                  else start_sequence_step i (def_steps d ! step_index r) r s)))"

definition tick_bend_sequences :: "'d driver_ops \<Rightarrow> 'd system \<Rightarrow> 'd system" where
  "tick_bend_sequences ops s =
     (if sys_stepper s = None then s else fold (tick_sequence ops) [0..<length (sequences s)] s)"

subsection \<open>Motion\<close>

definition steppers_healthy :: "'d driver_ops \<Rightarrow> 'd system \<Rightarrow> bool" where
  "steppers_healthy ops s = (case sys_stepper s of None \<Rightarrow> False | Some t \<Rightarrow> ctl_all_healthy ops t)"

definition pause_on_fault :: "'d driver_ops \<Rightarrow> nat \<Rightarrow> 'd system \<Rightarrow> 'd system" where
  "pause_on_fault ops i s =
     (let r = sequences s ! i in
      if \<not> seq_running r \<or> seq_paused r then s
      else snd (on_stepper (ctl_stop (int i))
        (set_sequence i
          (pause_with (if steppers_healthy ops s then ''overtemperature latch'' else ''stepper backend unhealthy'')
            (r\<lparr>step_queued := False\<rparr>)) s)))"

definition tick_motors :: "'d driver_ops \<Rightarrow> tick_env \<Rightarrow> dbl \<Rightarrow> 'd system \<Rightarrow> 'd system" where
  "tick_motors ops e dt s =
     (if sys_stepper s = None then s
      else
        (let s = tick_bend_sequences ops (tick_fallback_plan ops e s);
             s = snd (on_stepper (\<lambda>t. (None, ctl_tick ops (env_channel_now e) dt t)) s)
         in if \<not> steppers_healthy ops s \<or> overtemp_latched (sys_thermal s)
            then fold (pause_on_fault ops) [0..<length (sequences s)] s else s))"

subsection \<open>The telemetry record\<close>

datatype component_state =
    StateDisabled | StateDiscovering | StateOk | StateDegraded | StateStale | StateFailed

fun component_state_to_string :: "component_state \<Rightarrow> string" where
  "component_state_to_string StateDisabled = ''DISABLED''"
| "component_state_to_string StateDiscovering = ''DISCOVERING''"
| "component_state_to_string StateOk = ''OK''"
| "component_state_to_string StateDegraded = ''DEGRADED''"
| "component_state_to_string StateStale = ''STALE''"
| "component_state_to_string StateFailed = ''FAILED''"

record motor_report =
  mr_status :: stepper_status
  mr_zeroed :: bool
  mr_seq_name :: string
  mr_seq_state :: string

record tick_report =
  rep_seq :: "64 word"
  rep_phase :: mission_phase
  rep_mode :: system_mode
  rep_heater_duty :: "dbl list"
  rep_link_ok :: bool
  rep_overtemp_ok :: bool
  rep_uniformity_ok :: bool
  rep_energy_ok :: bool
  rep_pwm_ok :: bool
  rep_pwm_state :: component_state
  rep_stepper_ok :: bool
  rep_sequence_paused :: bool
  rep_heater_inhibited :: bool
  rep_motors :: "motor_report list"
  rep_fallback :: bool
  rep_link_loss_s :: dbl
  rep_energy_wh :: dbl
  rep_budget_wh :: dbl
  rep_budget_exhausted :: bool
  rep_heaters_active :: int
  rep_plan :: string
  rep_debug_armed :: bool
  rep_tune :: string

text \<open>The default of the heaters' component state holds when there are no channels.\<close>

definition pwm_state :: "pwm_bank \<Rightarrow> component_state" where
  "pwm_state b =
     (let n = length (pwm_duty b); h = pwm_healthy_channels b in
      if n = 0 then StateFailed else if h = n then StateOk else if 0 < h then StateDegraded else StateFailed)"

definition motor_report_of :: "'d driver_ops \<Rightarrow> 'd system \<Rightarrow> nat \<Rightarrow> motor_report" where
  "motor_report_of ops s i =
     \<lparr>mr_status = motor_status ops (int i) s,
      mr_zeroed = (i < length (motor_zeroed s) \<and> motor_zeroed s ! i),
      mr_seq_name = (if i < length (sequences s) then active_name (sequences s ! i) else []),
      mr_seq_state = (if i < length (sequences s)
        then let r = sequences s ! i in
          if \<not> seq_running r then ''idle'' else if seq_paused r then ''pause'' else ''run''
        else ''idle'')\<rparr>"

definition fill_report :: "'d driver_ops \<Rightarrow> system_mode \<Rightarrow> int option \<Rightarrow> dbl list \<Rightarrow> 'd system \<Rightarrow> tick_report" where
  "fill_report ops m tune duties s =
     \<lparr>rep_seq = next_seq s, rep_phase = sm_phase (sys_phase s), rep_mode = m, rep_heater_duty = duties,
      rep_link_ok = last_link_ok s, rep_overtemp_ok = (\<not> overtemp_latched (sys_thermal s)),
      rep_uniformity_ok = uniformity_ok (sys_thermal s),
      rep_energy_ok = (\<not> hs_budget_exhausted (sys_scheduler s)), rep_pwm_ok = pwm_healthy (sys_pwm s),
      rep_pwm_state = pwm_state (sys_pwm s), rep_stepper_ok = steppers_healthy ops s,
      rep_sequence_paused = list_ex seq_paused (sequences s),
      rep_heater_inhibited = hs_last_inhibited (sys_scheduler s),
      rep_motors = map (motor_report_of ops s) [0..<motor_count s], rep_fallback = fallback_on s,
      rep_link_loss_s = link_loss_s s, rep_energy_wh = energy_consumed_wh (sys_scheduler s),
      rep_budget_wh = energy_budget_wh (sc_power (sys_cfg s)),
      rep_budget_exhausted = hs_budget_exhausted (sys_scheduler s),
      rep_heaters_active = int (length (filter (\<lambda>d. 0 < d) duties)),
      rep_plan = plan_state_to_string (pl_state (sys_planner s)), rep_debug_armed = debug_arm_held s,
      rep_tune = (case tune of None \<Rightarrow> ''-'' | Some ch \<Rightarrow> CHR ''H'' # show_int ch)\<rparr>"

subsection \<open>Pull events\<close>

record pull_event =
  pev_seq :: "64 word"
  pev_pull_id :: "32 word"
  pev_motor_id :: nat
  pev_start_ts :: string
  pev_steps_moved :: int
  pev_hold_s :: dbl
  pev_samples :: "nat list"
  pev_microstep :: int

definition holds_lock :: "nat \<Rightarrow> 'd system \<Rightarrow> bool" where
  "holds_lock i s = (case active_lock s of None \<Rightarrow> False | Some l \<Rightarrow> lock_holder l = int i)"

definition set_pull_state :: "nat \<Rightarrow> pull_state \<Rightarrow> 'd system \<Rightarrow> 'd system" where
  "set_pull_state i ps s = s\<lparr>pull_states := (pull_states s)[i := ps]\<rparr>"

definition detect_pull :: "string \<Rightarrow> nat \<Rightarrow> stepper_status \<Rightarrow> 'd system \<Rightarrow> pull_event list \<times> 'd system" where
  "detect_pull ts i st s =
     (let ps = pull_states s ! i; now = holds_lock i s in
      if \<not> lock_was_held ps \<and> now
      then ([], set_pull_state i
             (ps\<lparr>lock_was_held := True, was_moving := True, pull_start_ts := ts,
                 pull_start_pos := st_position_steps st\<rparr>) s)
      else if lock_was_held ps \<and> \<not> now
      then
        (let s = set_pull_state i (ps\<lparr>lock_was_held := False, was_moving := False\<rparr>) s in
         if ended_by_safety_abort st then ([], s)
         else
           ([\<lparr>pev_seq = next_seq s, pev_pull_id = next_pull_id s, pev_motor_id = i, pev_start_ts = pull_start_ts ps,
              pev_steps_moved = st_position_steps st - pull_start_pos ps, pev_hold_s = st_hold_remaining_s st,
              pev_samples = (case sys_stepper s of None \<Rightarrow> [] | Some t \<Rightarrow> ctl_samples_for_motor (int i) t),
              pev_microstep = st_microstep st\<rparr>],
            s\<lparr>next_seq := next_seq s + 1, next_pull_id := next_pull_id s + 1\<rparr>))
      else ([], s))"

text \<open>The statuses are those of the telemetry record; the bookkeeping has one entry for each.\<close>

fun detect_pulls :: "string \<Rightarrow> nat \<Rightarrow> stepper_status list \<Rightarrow> 'd system \<Rightarrow> pull_event list \<times> 'd system" where
  "detect_pulls ts i [] s = ([], s)"
| "detect_pulls ts i (st # sts) s =
     (let (ev, s) = detect_pull ts i st s; (evs, s) = detect_pulls ts (Suc i) sts s in (ev @ evs, s))"

definition resize_pulls :: "nat \<Rightarrow> 'd system \<Rightarrow> 'd system" where
  "resize_pulls n s =
     s\<lparr>pull_states := take n (pull_states s) @ replicate (n - length (pull_states s)) no_pull\<rparr>"

definition tick_pulls :: "string \<Rightarrow> stepper_status list \<Rightarrow> 'd system \<Rightarrow> pull_event list \<times> 'd system" where
  "tick_pulls ts sts s =
     (if sts = [] then ([], s)
      else detect_pulls ts 0 sts
        (if length (pull_states s) \<noteq> length sts then resize_pulls (length sts) s else s))"

subsection \<open>The whole pass\<close>

text \<open>The first half ends with the duties at the outputs, the second with the motors; a command of the other
  thread can come between any two of the named steps.\<close>

definition tick_control ::
  "tick_env \<Rightarrow> 'd system \<Rightarrow> (dbl list \<times> int option) \<times> 'd system" where
  "tick_control e s =
     (let dt = tick_seconds s;
          ((sov, cov), s) = take_overrides s;
          s = tick_link dt (apply_reset sov s);
          s = s\<lparr>last_temps := env_temps e\<rparr>;
          s = tick_phase_update e sov s
      in tick_heat e dt cov s)"

definition system_tick ::
  "'d driver_ops \<Rightarrow> tick_env \<Rightarrow> 'd system \<Rightarrow> (tick_report \<times> pull_event list) \<times> 'd system" where
  "system_tick ops e s =
     (let dt = tick_seconds s; m = sys_mode s;
          ((duties, tune), s) = tick_control e s;
          s = tick_motors ops e dt (set_duties duties s);
          report = fill_report ops m tune duties s;
          s = s\<lparr>next_seq := next_seq s + 1, last_link_ok := env_link_ok e\<rparr>;
          (events, s) = tick_pulls (env_timestamp e) (map mr_status (rep_motors report)) s
      in ((report, events),
          if rep_phase report = Stopped then s\<lparr>sys_running := False\<rparr> else s))"

end
