(* ===== verification/ModeCommands.thy ===== *)
theory ModeCommands
  imports SystemTick
begin

text \<open>
  The commands of the operator (\<^verbatim>\<open>SystemController::HandleCommandLine\<close>), part one: the replies, the readers of
  the arguments, and the commands of the modes, the phase, the debug arm, the tick rate and the radio.  A
  handler gives its reply and the state after it; it is one step, although the code takes
  several locks one after the other.
\<close>

datatype reply = Ack string | Nack string

fun reply_line :: "string \<Rightarrow> reply \<Rightarrow> string" where
  "reply_line name (Ack text) = ''ACK,'' @ name @ CHR '','' # text"
| "reply_line name (Nack text) = ''NACK,'' @ name @ CHR '','' # text"

fun is_ack :: "reply \<Rightarrow> bool" where
  "is_ack (Ack text) = True"
| "is_ack (Nack text) = False"

text \<open>What a handler reads from outside: the clock, whether a file could be written, and the
  answers of the components that are not modelled.\<close>

record command_env =
  ce_now :: time_point
  ce_plan_opens :: bool
  ce_plan_written :: bool
  ce_flag_done :: bool
  ce_storage_check :: "bool \<times> string"
  ce_sensor_check :: "string \<Rightarrow> bool \<times> string"
  ce_sensor_summary :: string
  ce_debug_registers :: "int \<Rightarrow> string"
  ce_connected :: bool
  ce_target :: string
  ce_codec :: string
  ce_link_cap :: string
  ce_queue_depth :: nat
  ce_window :: nat
  ce_share :: nat
  ce_ack_timeouts :: nat
  ce_tokens :: int
  ce_burst :: nat
  ce_simulated :: bool
  ce_i2c_ok :: bool
  ce_sample_temp_ok :: bool

subsection \<open>Arguments\<close>

text \<open>A whole token and a finite number; an unsigned number with whatever follows it.\<close>

definition parse_finite :: "string \<Rightarrow> dbl option" where
  "parse_finite text =
     (case stod text of
        None \<Rightarrow> None
      | Some (v, used) \<Rightarrow> if used \<noteq> length text \<or> \<not> is_finite v then None else Some v)"

definition parse_index :: "string \<Rightarrow> nat option" where
  "parse_index text = map_option fst (stoull text)"

definition parse_int64 :: "string \<Rightarrow> int option" where
  "parse_int64 text =
     (case stoll text of None \<Rightarrow> None | Some (v, used) \<Rightarrow> if used \<noteq> length text then None else Some v)"

text \<open>\<^verbatim>\<open>static_cast<int>\<close> of a \<^verbatim>\<open>std::size_t\<close>.\<close>

definition int_of_size :: "nat \<Rightarrow> int" where
  "int_of_size n = (int n + 2 ^ 31) mod 2 ^ 32 - 2 ^ 31"

text \<open>\<^verbatim>\<open>std::to_string(double)\<close>: six decimals.\<close>

definition six_decimals :: "rat \<Rightarrow> string" where
  "six_decimals q =
     (let n = nat (round_half_even (q * 1000000)); ds = show_nat (n mod 1000000) in
      show_nat (n div 1000000) @ CHR ''.'' # replicate (6 - length ds) CHR ''0'' @ ds)"

fun dbl_to_string :: "dbl \<Rightarrow> string" where
  "dbl_to_string (Fin q) = (if q < 0 then CHR ''-'' # six_decimals (- q) else six_decimals q)"
| "dbl_to_string PInf = ''inf''"
| "dbl_to_string NInf = ''-inf''"
| "dbl_to_string NaN = ''nan''"

subsection \<open>Modes\<close>

definition set_phase_to :: "mission_phase \<Rightarrow> 'd system \<Rightarrow> 'd system" where
  "set_phase_to p s = s\<lparr>sys_phase := sm_set_phase p (sys_phase s)\<rparr>"

definition reset_sequence :: "bend_sequence \<Rightarrow> bend_sequence" where
  "reset_sequence r =
     r\<lparr>seq_running := False, seq_paused := False, step_queued := False, active_name := [], step_index := 0,
       seq_fault := []\<rparr>"

definition stop_all_sequences :: "'d system \<Rightarrow> 'd system" where
  "stop_all_sequences s = s\<lparr>sequences := map reset_sequence (sequences s)\<rparr>"

definition cmd_force_start :: "'d system \<Rightarrow> reply \<times> 'd system" where
  "cmd_force_start s = (Ack ''phase=ASCENT'', set_phase_to Ascent s)"

definition cmd_force_stop :: "'d system \<Rightarrow> reply \<times> 'd system" where
  "cmd_force_stop s =
     (Ack ''phase=DESCENT;steppers=stopped'', stop_all_motors (stop_all_sequences (set_phase_to Descent s)))"

definition cmd_heaters_off :: "'d system \<Rightarrow> reply \<times> 'd system" where
  "cmd_heaters_off s = (Ack ''all heaters disabled'', heaters_off_override s)"

definition close_open_loop :: "'d system \<Rightarrow> 'd system" where
  "close_open_loop s = stop_heat_test (s\<lparr>sys_overrides := (sys_overrides s)\<lparr>bench_open_loop_heaters := False\<rparr>\<rparr>)"

definition cmd_reset_ctrl :: "'d system \<Rightarrow> reply \<times> 'd system" where
  "cmd_reset_ctrl s =
     (Ack ''control loop reset queued'',
      close_open_loop (s\<lparr>sys_state_overrides := (sys_state_overrides s)\<lparr>reset_control := True\<rparr>\<rparr>))"

definition cmd_shutdown_safe :: "'d driver_ops \<Rightarrow> 'd system \<Rightarrow> reply \<times> 'd system" where
  "cmd_shutdown_safe ops s =
     (Ack ''safe for power-off: heaters off, motors disabled, logs synced; process keeps running'',
      stop_and_disable_all_motors ops (stop_all_sequences (heaters_off_override s)))"

definition cmd_enter_safe :: "'d system \<Rightarrow> reply \<times> 'd system" where
  "cmd_enter_safe s =
     (Ack ''entered SAFE mode'',
      (stop_all_motors (heaters_off_override (stop_all_sequences (s\<lparr>sys_mode := Safe\<rparr>))))\<lparr>storage_safe := True\<rparr>)"

definition cmd_exit_safe :: "'d system \<Rightarrow> reply \<times> 'd system" where
  "cmd_exit_safe s =
     (if sys_mode s \<noteq> Safe then (Nack ''not in SAFE mode'', s)
      else (Ack ''exited SAFE mode to STANDBY'',
            s\<lparr>sys_mode := Standby, sys_overrides := (sys_overrides s)\<lparr>heaters_off := False\<rparr>, storage_safe := False\<rparr>))"

definition cmd_arm :: "'d system \<Rightarrow> reply \<times> 'd system" where
  "cmd_arm s =
     (if sys_mode s \<noteq> Standby then (Nack ''ARM requires STANDBY mode'', s)
      else (Ack ''mode=RUN;manual_control=1'', s\<lparr>sys_mode := Run\<rparr>))"

definition cmd_disarm :: "'d system \<Rightarrow> reply \<times> 'd system" where
  "cmd_disarm s =
     (if sys_mode s \<noteq> Run then (Nack ''DISARM requires RUN mode'', s)
      else (Ack ''mode=STANDBY'', stop_all_motors (heaters_off_override (s\<lparr>sys_mode := Standby\<rparr>))))"

subsection \<open>The debug arm, the bench mode, the tick rate and the phase\<close>

definition cmd_arm_debug :: "string list \<Rightarrow> 'd system \<Rightarrow> reply \<times> 'd system" where
  "cmd_arm_debug args s =
     (if \<not> bench_mode (sc_runtime (sys_cfg s)) then (Nack ''bench mode required'', s)
      else if hd args \<noteq> debug_arm_code (sc_runtime (sys_cfg s)) then (Nack ''invalid arm token'', s)
      else (Ack ''debug armed'', s\<lparr>sys_debug_armed := True\<rparr>))"

definition cmd_disarm_debug :: "'d system \<Rightarrow> reply \<times> 'd system" where
  "cmd_disarm_debug s =
     (if \<not> debug_arm_held s then (Nack ''debug not armed'', s)
      else (Ack ''debug disarmed'', close_open_loop (s\<lparr>sys_debug_armed := False\<rparr>)))"

definition set_bench_mode :: "bool \<Rightarrow> 'd system \<Rightarrow> 'd system" where
  "set_bench_mode on s =
     s\<lparr>sys_cfg := (sys_cfg s)\<lparr>sc_runtime := (sc_runtime (sys_cfg s))\<lparr>bench_mode := on\<rparr>\<rparr>\<rparr>"

definition cmd_set_bench_mode :: "string list \<Rightarrow> 'd system \<Rightarrow> reply \<times> 'd system" where
  "cmd_set_bench_mode args s =
     (if \<not> debug_arm_held s then (Nack ''debug arm required'', s)
      else if args ! 0 = ''ON'' then (Ack ''bench mode updated'', set_bench_mode True s)
      else if args ! 0 = ''OFF'' then (Ack ''bench mode updated'', set_bench_mode False s)
      else (Nack ''expected ON or OFF'', s))"

definition cmd_set_tick_hz :: "string list \<Rightarrow> 'd system \<Rightarrow> reply \<times> 'd system" where
  "cmd_set_tick_hz args s =
     (case parse_finite (args ! 0) of
        None \<Rightarrow> (Nack ''invalid hz value'', s)
      | Some hz \<Rightarrow>
          if hz < to_dbl (1 / 10) \<or> Fin 5 < hz then (Nack ''hz out of range [0.1,5.0]'', s)
          else (Ack (''tick_hz='' @ show_double hz),
                s\<lparr>live_tick_hz := hz,
                  sys_cfg := (sys_cfg s)\<lparr>sc_runtime := (sc_runtime (sys_cfg s))\<lparr>tick_hz := hz\<rparr>\<rparr>\<rparr>))"

definition cmd_set_phase :: "string list \<Rightarrow> 'd system \<Rightarrow> reply \<times> 'd system" where
  "cmd_set_phase args s =
     (case parse_mission_phase (args ! 0) of
        None \<Rightarrow> (Nack ''invalid phase'', s)
      | Some p \<Rightarrow>
          if p = Stopped then (Nack ''STOPPED is not an operator phase; use SHUTDOWN_SAFE'', s)
          else (Ack (''phase='' @ phase_to_string p), set_phase_to p s))"

subsection \<open>Radio silence\<close>

text \<open>The flag file may fail to be written or removed; it then stays as it was.\<close>

definition set_transmit :: "command_env \<Rightarrow> bool \<Rightarrow> 'd system \<Rightarrow> 'd system" where
  "set_transmit e on s =
     s\<lparr>transmit_enabled := on, silence_flag := (if ce_flag_done e then \<not> on else silence_flag s)\<rparr>"

definition cmd_radio_silence :: "command_env \<Rightarrow> 'd system \<Rightarrow> reply \<times> 'd system" where
  "cmd_radio_silence e s = (Ack ''radio silent'', set_transmit e False s)"

definition cmd_radio_resume :: "command_env \<Rightarrow> 'd system \<Rightarrow> reply \<times> 'd system" where
  "cmd_radio_resume e s = (Ack ''radio resumed'', set_transmit e True s)"

end
