(* ===== verification/HeatCommands.thy ===== *)
theory HeatCommands
  imports ModeCommands
begin

text \<open>
  Part two of \<^verbatim>\<open>HandleCommandLine\<close>: the heater commands.  Duties and targets are overrides the next tick
  reads; a bench test and a tune have a state of their own.
\<close>

subsection \<open>Guards\<close>

abbreviation heater_cfg :: "'d system \<Rightarrow> heater_output_config" where
  "heater_cfg s \<equiv> oc_heaters (sc_onboard (sys_cfg s))"

abbreviation safety_cfg :: "'d system \<Rightarrow> heater_safety_config" where
  "safety_cfg s \<equiv> oc_heater_safety (sc_onboard (sys_cfg s))"

text \<open>The reason a heater has no reading, the first one over all heaters.\<close>

definition heater_reading_error :: "nat \<Rightarrow> 'd system \<Rightarrow> string option" where
  "heater_reading_error h s =
     (let k = tc_sensor_channel (sc_onboard (sys_cfg s)) h; text = ''heater '' @ show_nat h @ '' temperature unavailable'' in
      if length (sample_temps_c (last_temps s)) \<le> k
      then Some (text @ '' (sample '' @ show_nat k @ '' has no reading)'')
      else if sample_temp_valid (last_temps s) \<noteq> [] \<and>
        (length (sample_temp_valid (last_temps s)) \<le> k \<or> \<not> sample_temp_valid (last_temps s) ! k)
      then Some (text @ '' (sample '' @ show_nat k @ '' invalid)'')
      else None)"

fun first_reading_error :: "nat list \<Rightarrow> 'd system \<Rightarrow> string option" where
  "first_reading_error [] s = None"
| "first_reading_error (h # hs) s =
     (case heater_reading_error h s of None \<Rightarrow> first_reading_error hs s | Some e \<Rightarrow> Some e)"

text \<open>The guards every heat command starts with: the mode, and no tune.\<close>

definition heat_refusal :: "'d system \<Rightarrow> string option" where
  "heat_refusal s =
     (if sys_mode s \<noteq> Run then Some ''RUN mode required''
      else if tuner_state (sys_tuner s) = TunerRunning then Some ''PID tune running; PID_TUNE_ABORT first''
      else None)"

definition duty_refusal :: "dbl \<Rightarrow> 'd system \<Rightarrow> string option" where
  "duty_refusal d s =
     (if d < 0 \<or> 1 < d then Some ''duty out of range [0,1]''
      else if max_duty (heater_cfg s) < d
      then Some (''duty exceeds heater.max_duty ('' @ dbl_to_string (max_duty (heater_cfg s)) @ '')'')
      else None)"

definition map_overrides :: "(control_overrides \<Rightarrow> control_overrides) \<Rightarrow> 'd system \<Rightarrow> 'd system" where
  "map_overrides f s = s\<lparr>sys_overrides := f (sys_overrides s)\<rparr>"

definition none_of :: "'a option list \<Rightarrow> 'a option list" where
  "none_of xs = map (\<lambda>_. None) xs"

subsection \<open>Duties\<close>

definition cmd_set_heater_duty :: "string list \<Rightarrow> 'd system \<Rightarrow> reply \<times> 'd system" where
  "cmd_set_heater_duty args s =
     (case heat_refusal s of Some text \<Rightarrow> (Nack text, s)
      | None \<Rightarrow>
     (case (parse_index (args ! 0), parse_finite (args ! 1)) of
        (Some h, Some d) \<Rightarrow>
          if heaters_of s \<le> h then (Nack ''heater index out of range'', s)
          else
            (case duty_refusal d s of Some text \<Rightarrow> (Nack text, s)
             | None \<Rightarrow>
            (case (if 0 < d \<and> \<not> debug_arm_held s then heater_reading_error h s else None) of
               Some reason \<Rightarrow>
                 (Nack (reason @ ''; use HEATER_TEST for bench-only open-loop output test''), s)
             | None \<Rightarrow>
                 (Ack ''override applied'',
                  map_overrides (\<lambda>ov. ov\<lparr>heaters_off := False, bench_open_loop_heaters := debug_arm_held s,
                    single_heater_override := None, all_heaters_override := None,
                    heater_duty_overrides := (heater_duty_overrides ov)[h := Some d],
                    temp_targets_c := (temp_targets_c ov)[h := None]\<rparr>) s)))
      | _ \<Rightarrow> (Nack ''invalid args'', s)))"

definition cmd_set_all_duty :: "string list \<Rightarrow> 'd system \<Rightarrow> reply \<times> 'd system" where
  "cmd_set_all_duty args s =
     (case heat_refusal s of Some text \<Rightarrow> (Nack text, s)
      | None \<Rightarrow>
     (case parse_finite (args ! 0) of None \<Rightarrow> (Nack ''invalid duty'', s)
      | Some d \<Rightarrow>
     (case duty_refusal d s of Some text \<Rightarrow> (Nack text, s)
      | None \<Rightarrow>
     (case (if 0 < d \<and> \<not> debug_arm_held s then first_reading_error [0..<heaters_of s] s else None) of
        Some reason \<Rightarrow> (Nack (reason @ ''; SET_ALL_DUTY requires all heater temperatures''), s)
      | None \<Rightarrow>
          (Ack ''global override applied'',
           map_overrides (\<lambda>ov. ov\<lparr>heaters_off := False, bench_open_loop_heaters := debug_arm_held s,
             all_heaters_override := Some d, single_heater_override := None,
             heater_duty_overrides := none_of (heater_duty_overrides ov),
             temp_targets_c := none_of (temp_targets_c ov)\<rparr>) s)))))"

text \<open>\<^verbatim>\<open>duration_cast\<close> of a \<^verbatim>\<open>duration<double>\<close> to nanoseconds.\<close>

definition nanoseconds_of :: "dbl \<Rightarrow> duration" where
  "nanoseconds_of secs = dbl_to_i64 (secs * dbl_of_int 1000000000)"

definition cmd_heater_test :: "command_env \<Rightarrow> string list \<Rightarrow> 'd system \<Rightarrow> reply \<times> 'd system" where
  "cmd_heater_test e args s =
     (if \<not> debug_arm_held s then (Nack ''bench debug arm required'', s)
      else if tuner_state (sys_tuner s) = TunerRunning then (Nack ''PID tune running; PID_TUNE_ABORT first'', s)
      else if sys_mode s \<noteq> Run then (Nack ''RUN mode required'', s)
      else if motion_active s then (Nack ''blocked during motor motion'', s)
      else
        case (parse_index (args ! 0), parse_finite (args ! 1), parse_finite (args ! 2)) of
          (Some h, Some d, Some secs) \<Rightarrow>
            if heaters_of s \<le> h then (Nack ''invalid heater test args'', s)
            else if d < 0 \<or> debug_max_duty (heater_cfg s) < d then (Nack ''duty exceeds heater.debug_max_duty'', s)
            else if max_duty (heater_cfg s) < d then (Nack ''duty exceeds heater.max_duty'', s)
            else if secs \<le> 0 \<or> debug_max_seconds (heater_cfg s) < secs
            then (Nack ''duration exceeds heater.debug_max_seconds'', s)
            else
              (Ack (''heater='' @ show_nat h @ '';duty='' @ show_double d @ '';seconds='' @ show_double secs),
               map_overrides (\<lambda>ov. ov\<lparr>heaters_off := False\<rparr>)
                 (s\<lparr>sys_test := \<lparr>test_active = True, test_heater = h, test_duty = d,
                     test_until = ce_now e + nanoseconds_of secs\<rparr>\<rparr>))
        | _ \<Rightarrow> (Nack ''invalid heater test args'', s))"

subsection \<open>Gains and tuning\<close>

definition cmd_set_pid :: "string list \<Rightarrow> 'd system \<Rightarrow> reply \<times> 'd system" where
  "cmd_set_pid args s =
     (case (parse_finite (args ! 1), parse_finite (args ! 2), parse_finite (args ! 3)) of
        (Some p, Some i, Some d) \<Rightarrow>
          if p < 0 \<or> i < 0 \<or> d < 0 then (Nack ''invalid pid args'', s)
          else
            (let gains = \<lparr>kp = p, ki = i, kd = d\<rparr> in
             if args ! 0 = ''ALL'' \<or> args ! 0 = ''all''
             then (Ack ''pid override applied'',
                   map_overrides (\<lambda>ov. ov\<lparr>pid_override := Some gains,
                     pid_overrides := map (\<lambda>_. Some gains) (pid_overrides ov)\<rparr>) s)
             else
               (case parse_index (args ! 0) of
                  None \<Rightarrow> (Nack ''heater index out of range'', s)
                | Some h \<Rightarrow>
                    if heaters_of s \<le> h then (Nack ''heater index out of range'', s)
                    else (Ack ''pid override applied'',
                          map_overrides (\<lambda>ov. ov\<lparr>pid_overrides := (pid_overrides ov)[h := Some gains]\<rparr>) s)))
      | _ \<Rightarrow> (Nack ''invalid pid args'', s))"

text \<open>The optional arguments of a tune, with their defaults.\<close>

definition tune_relay_arg :: "string list \<Rightarrow> dbl option" where
  "tune_relay_arg args =
     (if length args < 3 then Some (Fin (1 / 2))
      else case parse_finite (args ! 2) of
        None \<Rightarrow> None
      | Some d \<Rightarrow> if d \<le> 0 \<or> 1 < d then None else Some d)"

definition tune_cycles_arg :: "string list \<Rightarrow> nat option" where
  "tune_cycles_arg args =
     (if length args < 4 then Some 4
      else case parse_index (args ! 3) of None \<Rightarrow> None | Some n \<Rightarrow> if n < 1 \<or> 10 < n then None else Some n)"

definition tune_refusal :: "nat \<Rightarrow> 'd system \<Rightarrow> string option" where
  "tune_refusal h s =
     (let ov = sys_overrides s; given = (\<lambda>vs. h < length vs \<and> vs ! h \<noteq> None) in
      case heater_reading_error h s of
        Some reason \<Rightarrow> Some reason
      | None \<Rightarrow>
          if tuner_state (sys_tuner s) = TunerRunning
          then Some (''tune already running on H'' @ show_int (tune_channel s) @ ''; PID_TUNE_ABORT first'')
          else if test_active (sys_test s) then Some ''HEATER_TEST running''
          else if all_heaters_override ov \<noteq> None \<or> given (heater_duty_overrides ov) \<or> given (temp_targets_c ov)
          then Some ''duty/target override active on that heater; CLEAR_OVERRIDES first''
          else if h < length (channel_latched (sys_thermal s)) \<and> channel_latched (sys_thermal s) ! h
          then Some ''overtemp latch tripped; RESET_CTRL first''
          else None)"

definition cmd_pid_tune_start :: "command_env \<Rightarrow> string list \<Rightarrow> 'd system \<Rightarrow> reply \<times> 'd system" where
  "cmd_pid_tune_start e args s =
     (if sys_mode s \<noteq> Run then (Nack ''RUN mode required'', s)
      else
     (case parse_index (args ! 0) of None \<Rightarrow> (Nack ''heater index out of range'', s)
      | Some h \<Rightarrow>
      if heaters_of s \<le> h then (Nack ''heater index out of range'', s)
      else
     (case parse_finite (args ! 1) of None \<Rightarrow> (Nack ''setpoint outside heater target limits'', s)
      | Some sp \<Rightarrow>
      if sp < target_min_c (safety_cfg s) \<or> target_max_c (safety_cfg s) < sp
      then (Nack ''setpoint outside heater target limits'', s)
      else
     (case tune_relay_arg args of None \<Rightarrow> (Nack ''relay duty must be in (0, 1]'', s)
      | Some relay \<Rightarrow>
     (case tune_cycles_arg args of None \<Rightarrow> (Nack ''cycles must be 1..10'', s)
      | Some n \<Rightarrow>
     (case tune_refusal h s of Some reason \<Rightarrow> (Nack reason, s)
      | None \<Rightarrow>
          (let relay = std_min relay (max_duty (heater_cfg s));
               tcfg = tuner_config_default\<lparr>setpoint_c := sp, relay_duty := relay, tune_cycles := int n,
                 abort_ceiling_c := std_min (sp + Fin 15) (max_sample_temp_c (safety_cfg s) - Fin 5)\<rparr>
           in (Ack (''tuning H'' @ show_nat h @ '' around '' @ show_double sp @ '' C, relay '' @
                 show_double relay @ '', '' @ show_nat n @ '' cycles''),
               s\<lparr>tune_channel := int_of_size h, tune_result_logged := False,
                 sys_tuner := tuner_start tcfg (seconds_of (ce_now e)) (sys_tuner s)\<rparr>))))))))"

definition cmd_pid_tune_abort :: "'d system \<Rightarrow> reply \<times> 'd system" where
  "cmd_pid_tune_abort s =
     (if tuner_state (sys_tuner s) \<noteq> TunerRunning then (Nack ''no tune running'', s)
      else (Ack ''tune aborted'', s\<lparr>sys_tuner := tuner_abort ''aborted by operator'' (sys_tuner s)\<rparr>))"

fun tuner_state_text :: "tuner_state \<Rightarrow> string" where
  "tuner_state_text TunerIdle = ''idle''"
| "tuner_state_text TunerRunning = ''running''"
| "tuner_state_text TunerDone = ''done''"
| "tuner_state_text TunerFailed = ''failed''"

fun tune_error_text :: "tune_error \<Rightarrow> string" where
  "tune_error_text NoError = []"
| "tune_error_text (Aborted reason) = reason"
| "tune_error_text ReadingInvalid = ''temperature reading became invalid''"
| "tune_error_text CeilingExceeded = ''temperature exceeded the tune ceiling''"
| "tune_error_text TimedOut = ''timed out before the oscillation settled''"
| "tune_error_text AmplitudeTooSmall = ''oscillation amplitude too small to measure (< 0.05 C)''"
| "tune_error_text PeriodTooShort = ''oscillation period too short for the control rate''"

definition cmd_pid_tune_status :: "command_env \<Rightarrow> 'd system \<Rightarrow> reply \<times> 'd system" where
  "cmd_pid_tune_status e s =
     (let t = sys_tuner s; c = tuner_cfg t; r = tuner_result t in
      (Ack (''state='' @ tuner_state_text (tuner_state t) @
         (if tuner_state t = TunerIdle then []
          else '';heater='' @ show_int (tune_channel s) @ '';setpoint_c='' @ show_double (setpoint_c c) @
               '';relay_duty='' @ show_double (relay_duty c) @ '';hysteresis_c='' @ show_double (hysteresis_c c) @
               '';cycles='' @ show_nat (length (periods_s t)) @ CHR ''/'' # show_int (tune_cycles c) @
               '';relay='' @ (if relay_on t then ''on'' else ''off'') @
               '';elapsed_s='' @ show_int (dbl_to_i64 (seconds_of (ce_now e) - start_s t))) @
         (if tuner_state t \<noteq> TunerDone then []
          else '';ku='' @ show_double (res_ku r) @ '';tu_s='' @ show_double (res_tu_s r) @
               '';amplitude_c='' @ show_double (res_amplitude_c r) @ '';kp='' @ show_double (kp (res_gains r)) @
               '';ki='' @ show_double (ki (res_gains r)) @ '';kd='' @ show_double (kd (res_gains r)) @
               '';zn_kp='' @ show_double (kp (res_zn_gains r)) @ '';zn_ki='' @ show_double (ki (res_zn_gains r)) @
               '';zn_kd='' @ show_double (kd (res_zn_gains r))) @
         (if tuner_state t \<noteq> TunerFailed then []
          else '';error='' @ sanitize_for_reply (tune_error_text (tuner_error t)))), s))"

subsection \<open>Targets\<close>

definition target_refused :: "dbl \<Rightarrow> 'd system \<Rightarrow> bool" where
  "target_refused t s \<longleftrightarrow> t < target_min_c (safety_cfg s) \<or> target_max_c (safety_cfg s) < t"

definition cmd_set_temp_target :: "string list \<Rightarrow> 'd system \<Rightarrow> reply \<times> 'd system" where
  "cmd_set_temp_target args s =
     (case heat_refusal s of Some text \<Rightarrow> (Nack text, s)
      | None \<Rightarrow>
     (case (parse_index (args ! 0), parse_finite (args ! 1)) of
        (Some h, Some t) \<Rightarrow>
          if heaters_of s \<le> h then (Nack ''invalid target args'', s)
          else if target_refused t s then (Nack ''target outside configured limits'', s)
          else
            (case heater_reading_error h s of Some reason \<Rightarrow> (Nack reason, s)
             | None \<Rightarrow>
                 (Ack ''temperature target applied'',
                  map_overrides (\<lambda>ov. ov\<lparr>heaters_off := False, bench_open_loop_heaters := False,
                    all_heaters_override := None,
                    heater_duty_overrides := (heater_duty_overrides ov)[h := None],
                    temp_targets_c := (temp_targets_c ov)[h := Some t]\<rparr>) s))
      | _ \<Rightarrow> (Nack ''invalid target args'', s)))"

definition cmd_set_all_temp_targets :: "string list \<Rightarrow> 'd system \<Rightarrow> reply \<times> 'd system" where
  "cmd_set_all_temp_targets args s =
     (case heat_refusal s of Some text \<Rightarrow> (Nack text, s)
      | None \<Rightarrow>
     (case parse_finite (args ! 0) of None \<Rightarrow> (Nack ''target outside configured limits'', s)
      | Some t \<Rightarrow>
      if target_refused t s then (Nack ''target outside configured limits'', s)
      else
     (case first_reading_error [0..<heaters_of s] s of
        Some reason \<Rightarrow> (Nack (reason @ ''; SET_ALL_TEMP_TARGETS requires all heater temperatures''), s)
      | None \<Rightarrow>
          (Ack ''all temperature targets applied'',
           map_overrides (\<lambda>ov. ov\<lparr>heaters_off := False, bench_open_loop_heaters := False,
             all_heaters_override := None, heater_duty_overrides := none_of (heater_duty_overrides ov),
             temp_targets_c := map (\<lambda>_. Some t) (temp_targets_c ov)\<rparr>) s))))"

definition cmd_clear_temp_target :: "string list \<Rightarrow> 'd system \<Rightarrow> reply \<times> 'd system" where
  "cmd_clear_temp_target args s =
     (case parse_index (args ! 0) of None \<Rightarrow> (Nack ''heater index out of range'', s)
      | Some h \<Rightarrow>
          if heaters_of s \<le> h then (Nack ''heater index out of range'', s)
          else (Ack ''temperature target cleared'',
                map_overrides (\<lambda>ov. ov\<lparr>temp_targets_c := (temp_targets_c ov)[h := None]\<rparr>) s))"

definition cmd_clear_temp_targets :: "'d system \<Rightarrow> reply \<times> 'd system" where
  "cmd_clear_temp_targets s =
     (Ack ''temperature targets cleared'',
      map_overrides (\<lambda>ov. ov\<lparr>temp_targets_c := none_of (temp_targets_c ov)\<rparr>) s)"

definition cmd_clear_overrides :: "'d system \<Rightarrow> reply \<times> 'd system" where
  "cmd_clear_overrides s =
     (Ack ''overrides cleared'',
      map_overrides (\<lambda>ov. ov\<lparr>heaters_off := False, bench_open_loop_heaters := False,
        single_heater_override := None, all_heaters_override := None,
        heater_duty_overrides := none_of (heater_duty_overrides ov), pid_override := None,
        pid_overrides := none_of (pid_overrides ov), temp_targets_c := none_of (temp_targets_c ov)\<rparr>) s)"

subsection \<open>Reports\<close>

definition thermal_entry :: "'d system \<Rightarrow> nat \<Rightarrow> string" where
  "thermal_entry s h =
     (let n = show_nat h; targets = temp_targets_c (sys_overrides s);
          k = tc_sensor_channel (sc_onboard (sys_cfg s)) h in
      '';h'' @ n @ ''_target='' @
        (if h < length targets then case targets ! h of None \<Rightarrow> ''-'' | Some t \<Rightarrow> show_double t else ''-'') @
      '';h'' @ n @ ''_temp='' @
        (if reading_valid k (last_temps s) then show_double (sample_temps_c (last_temps s) ! k) else ''-'') @
      '';h'' @ n @ ''_duty='' @
        show_double (if h < length (last_heater_duty s) then last_heater_duty s ! h else 0))"

definition cmd_get_thermal :: "'d system \<Rightarrow> reply \<times> 'd system" where
  "cmd_get_thermal s =
     (Ack (''target_min_c='' @ show_double (target_min_c (safety_cfg s)) @
        '';target_max_c='' @ show_double (target_max_c (safety_cfg s)) @
        concat (map (thermal_entry s) [0..<heaters_of s])), s)"

definition cmd_get_layout :: "'d system \<Rightarrow> reply \<times> 'd system" where
  "cmd_get_layout s =
     (let cfg = sys_cfg s in
      (Ack (''samples='' @ show_nat (sample_count (oc_hardware (sc_onboard cfg))) @
         '';heaters='' @ show_nat (heaters_of s) @
         concat (map (\<lambda>(m, c). '';motor'' @ show_nat m @ CHR ''='' # join_numbers (motor_samples c))
           (indexed 0 (sc_motors cfg))) @
         '';heater_samples='' @ join_numbers (temperature_channels (heater_cfg s)) @
         '';clicks='' @ join_numbers (max31865_samples (sc_layout cfg)) @
         '';rtd_channels='' @ join_numbers (sequent_rtd_channels (sc_layout cfg)) @
         '';heater_lines='' @ join_numbers (output_lines (heater_cfg s)) @
         '';lead_mm='' @ show_double (mo_lead_mm_per_rev (sc_motion cfg))), s))"

end
