(* ===== verification/MotionCommands.thy ===== *)
theory MotionCommands
  imports ModeCommands
begin

text \<open>
  Part three of \<^verbatim>\<open>HandleCommandLine\<close>: the bend sequences, the motors and the fallback plan.  A handler gives
  \<open>None\<close> where the code's behaviour is undefined: an index outside a vector, or
  \<^verbatim>\<open>std::abs\<close> of the smallest 64-bit integer.
\<close>

type_synonym 'd outcome = "(reply \<times> 'd system) option"

subsection \<open>Texts and guards\<close>

definition speed_ceiling_text :: "system_config \<Rightarrow> string" where
  "speed_ceiling_text cfg =
     (let hz = effective_max_step_hz cfg; lead = mo_lead_mm_per_rev (sc_motion cfg) in
      show_double hz @ '' full-steps/s = '' @
      show_double (hz / dbl_of_int (mo_steps_per_rev (sc_motion cfg)) * lead) @ '' mm/s at lead '' @
      show_double lead @ '' mm/rev'')"

definition direct_cap_text :: "system_config \<Rightarrow> string \<Rightarrow> string" where
  "direct_cap_text cfg what =
     CHR ''|'' # what @ ''| exceeds stepper.max_direct_usteps ('' @ show_int (max_direct_usteps (sc_motion cfg)) @
     '' microsteps at the live divisor); use STEPPER_MOVE_MM or STEPPER_MOVETO_MM for longer travel''"

definition position_uncertain_text :: "int \<Rightarrow> stepper_status \<Rightarrow> string" where
  "position_uncertain_text m st =
     ''position uncertain after a step-loss event'' @
     (if st_step_loss_reason st = [] then [] else '' ('' @ st_step_loss_reason st @ '')'') @
     '': check the mechanism then SET_POSITION_ZERO '' @ show_int m @ '' or STEPLOSS_ACK '' @ show_int m"

text \<open>\<^verbatim>\<open>std::abs\<close> on a 64-bit integer.\<close>

definition abs_int64 :: "int \<Rightarrow> int option" where
  "abs_int64 n = (if n = - (2 ^ 63) then None else Some \<bar>n\<bar>)"

definition valid_motor :: "int \<Rightarrow> 'd system \<Rightarrow> bool" where
  "valid_motor m s \<longleftrightarrow> 0 \<le> m \<and> sys_stepper s \<noteq> None \<and> nat m < motor_count s"

definition is_zeroed :: "int \<Rightarrow> 'd system \<Rightarrow> bool" where
  "is_zeroed m s \<longleftrightarrow> 0 \<le> m \<and> nat m < length (motor_zeroed s) \<and> motor_zeroed s ! nat m"

definition max_hold_seconds :: dbl where
  "max_hold_seconds = Fin 86400"

text \<open>The motor argument: parsed as a size, checked as an int.\<close>

definition motor_arg :: "string \<Rightarrow> 'd system \<Rightarrow> nat option" where
  "motor_arg text s =
     (case parse_index text of
        None \<Rightarrow> None
      | Some m \<Rightarrow> if valid_motor (int_of_size m) s then Some m else None)"

definition refused :: "string \<Rightarrow> 'd system \<Rightarrow> 'd outcome" where
  "refused text s = Some (Nack text, s)"

definition answer :: "string \<Rightarrow> string option \<times> 'd system \<Rightarrow> 'd outcome" where
  "answer text r = Some (case fst r of None \<Rightarrow> Ack text | Some e \<Rightarrow> Nack e, snd r)"

text \<open>The guards of a motion command; \<open>zero\<close> tells that it needs a zeroed motor.\<close>

definition motion_refusal :: "bool \<Rightarrow> int \<Rightarrow> 'd system \<Rightarrow> string option" where
  "motion_refusal zero m s =
     (if sys_stepper s = None then Some ''stepper unavailable''
      else if sys_mode s \<noteq> Run then Some ''RUN mode required''
      else if zero \<and> \<not> is_zeroed m s then Some ''motor must be zeroed first''
      else if fallback_on s then Some ''manual motion blocked during link-loss fallback''
      else None)"

text \<open>What every motion command does last: the heaters are inhibited, then the motor is asked.\<close>

definition start_motion ::
  "string \<Rightarrow> ('d stepper_controller \<Rightarrow> string option \<times> 'd stepper_controller) \<Rightarrow> 'd system \<Rightarrow> 'd outcome" where
  "start_motion text f s = answer text (on_stepper f (inhibit_heaters s))"

subsection \<open>Zeroing and the step-loss latch\<close>

definition cmd_set_position_zero :: "'d driver_ops \<Rightarrow> string list \<Rightarrow> 'd system \<Rightarrow> 'd outcome" where
  "cmd_set_position_zero ops args s =
     (case motor_arg (args ! 0) s of None \<Rightarrow> refused ''invalid motor id'' s
      | Some m \<Rightarrow>
          (let (e, s) = on_stepper (ctl_set_position_zero ops (int_of_size m)) s in
           case e of Some err \<Rightarrow> refused err s
           | None \<Rightarrow>
               if m < length (motor_zeroed s)
               then Some (Ack (''motor='' @ show_nat m @ '';zeroed=1''),
                          s\<lparr>motor_zeroed := (motor_zeroed s)[m := True]\<rparr>)
               else None))"

definition cmd_step_loss_ack :: "'d driver_ops \<Rightarrow> string list \<Rightarrow> 'd system \<Rightarrow> 'd outcome" where
  "cmd_step_loss_ack ops args s =
     (case motor_arg (args ! 0) s of None \<Rightarrow> refused ''invalid motor id'' s
      | Some m \<Rightarrow>
          (let (e, s) = on_stepper (ctl_acknowledge_step_loss (int_of_size m)) s in
           answer (''motor='' @ show_nat m @ '';unc=0;loss='' @
             show_nat (unat (st_step_loss_events (motor_status ops (int_of_size m) s)))) (e, s)))"

subsection \<open>Bend sequences\<close>

definition name_char :: "char \<Rightarrow> bool" where
  "name_char c \<longleftrightarrow>
     is_digit c \<or> (65 \<le> char_code c \<and> char_code c \<le> 90) \<or> (97 \<le> char_code c \<and> char_code c \<le> 122) \<or>
     c = CHR ''_'' \<or> c = CHR ''-''"

definition is_sequence_name_valid :: "string \<Rightarrow> bool" where
  "is_sequence_name_valid name \<longleftrightarrow> name \<noteq> [] \<and> length name \<le> 32 \<and> list_all name_char name"

definition sequence_speed_error :: "system_config \<Rightarrow> string" where
  "sequence_speed_error cfg = ''invalid sequence speed (0 < hz <= '' @ speed_ceiling_text cfg @ '')''"

text \<open>One step \<open>target:hold[:speed]\<close>; the outer \<open>None\<close> is undefined behaviour.\<close>

definition parse_sequence_step :: "system_config \<Rightarrow> string \<Rightarrow> (string + bend_step) option" where
  "parse_sequence_step cfg text =
     (let fields = split_fields CHR '':'' text in
      if length fields < 2 \<or> 3 < length fields then Some (Inl ''invalid sequence step'')
      else
        case (parse_int64 (fields ! 0), parse_finite (fields ! 1)) of
          (Some goal, Some hold) \<Rightarrow>
            (case abs_int64 goal of None \<Rightarrow> None
             | Some a \<Rightarrow>
                 Some (if mo_max_position_steps (sc_motion cfg) < a \<or> hold < 0 \<or> Fin 86400 < hold
                       then Inl ''invalid sequence target/hold''
                       else if length fields \<noteq> 3 then Inr \<lparr>step_target = goal, step_hold_s = hold, step_speed = None\<rparr>
                       else
                         (case parse_finite (fields ! 2) of None \<Rightarrow> Inl (sequence_speed_error cfg)
                          | Some hz \<Rightarrow>
                              if hz \<le> 0 \<or> effective_max_step_hz cfg < hz then Inl (sequence_speed_error cfg)
                              else Inr \<lparr>step_target = goal, step_hold_s = hold, step_speed = Some hz\<rparr>)))
        | _ \<Rightarrow> Some (Inl ''invalid sequence target/hold''))"

fun parse_sequence_steps :: "system_config \<Rightarrow> string list \<Rightarrow> (string + bend_step list) option" where
  "parse_sequence_steps cfg [] = Some (Inr [])"
| "parse_sequence_steps cfg (text # rest) =
     (case parse_sequence_step cfg text of
        None \<Rightarrow> None
      | Some (Inl e) \<Rightarrow> Some (Inl e)
      | Some (Inr step) \<Rightarrow> map_option (map_sum id ((#) step)) (parse_sequence_steps cfg rest))"

text \<open>The sequence of a motor that was checked as an int and is used as a size.\<close>

definition with_sequence :: "nat \<Rightarrow> (bend_sequence \<Rightarrow> 'd outcome) \<Rightarrow> 'd system \<Rightarrow> 'd outcome" where
  "with_sequence m f s = (if m < length (sequences s) then f (sequences s ! m) else None)"

definition cmd_bend_seq_load :: "string list \<Rightarrow> 'd system \<Rightarrow> 'd outcome" where
  "cmd_bend_seq_load args s =
     (case motor_arg (args ! 0) s of None \<Rightarrow> refused ''invalid motor id'' s
      | Some m \<Rightarrow>
      if \<not> is_sequence_name_valid (args ! 1) then refused ''invalid sequence name'' s
      else
     (case parse_sequence_steps (sys_cfg s) (drop 2 args) of
        None \<Rightarrow> None
      | Some (Inl e) \<Rightarrow> refused e s
      | Some (Inr steps) \<Rightarrow>
          with_sequence m (\<lambda>r.
            if seq_running r \<and> active_name r = args ! 1 then refused ''cannot replace active sequence'' s
            else Some (Ack ''sequence loaded'',
              set_sequence m (r\<lparr>definitions := (definitions r)(args ! 1 \<mapsto>
                \<lparr>def_name = args ! 1, def_steps = steps\<rparr>)\<rparr>) s)) s))"

definition cmd_bend_seq_run :: "'d driver_ops \<Rightarrow> string list \<Rightarrow> 'd system \<Rightarrow> 'd outcome" where
  "cmd_bend_seq_run ops args s =
     (if sys_mode s \<noteq> Run then refused ''RUN mode required'' s
      else if fallback_on s then refused ''cannot start sequence during link-loss fallback'' s
      else
     (case motor_arg (args ! 0) s of None \<Rightarrow> refused ''invalid motor id'' s
      | Some m \<Rightarrow>
          (let id = int_of_size m; st = motor_status ops id s in
           if \<not> is_zeroed id s then refused ''motor must be zeroed first'' s
           else if \<not> st_enabled st then refused ''motor must be enabled first'' s
           else if st_position_uncertain st then refused (sanitize_for_reply (position_uncertain_text id st)) s
           else
             with_sequence m (\<lambda>r.
               if definitions r (args ! 1) = None then refused ''unknown sequence'' s
               else if seq_running r then refused ''sequence already running'' s
               else Some (Ack ''sequence started'',
                 set_sequence m (r\<lparr>active_name := args ! 1, step_index := 0, seq_running := True, seq_paused := False,
                   step_queued := False, seq_fault := []\<rparr>) s)) s)))"

definition sequence_status :: "nat \<Rightarrow> 'd system \<Rightarrow> string" where
  "sequence_status m s =
     (if length (sequences s) \<le> m then ''invalid motor''
      else
        (let r = sequences s ! m in
         ''motor='' @ show_nat m @ '';zeroed='' @ flag_text (motor_zeroed s ! m) @
         '';running='' @ flag_text (seq_running r) @ '';paused='' @ flag_text (seq_paused r) @
         '';name='' @ active_name r @ '';step='' @ show_nat (step_index r) @
         (if seq_fault r = [] then [] else '';fault='' @ seq_fault r)))"

definition cmd_bend_seq_status :: "string list \<Rightarrow> 'd system \<Rightarrow> 'd outcome" where
  "cmd_bend_seq_status args s =
     (case motor_arg (args ! 0) s of None \<Rightarrow> refused ''invalid motor id'' s
      | Some m \<Rightarrow> Some (Ack (sequence_status (nat (int_of_size m)) s), s))"

definition cmd_bend_seq_pause :: "string list \<Rightarrow> 'd system \<Rightarrow> 'd outcome" where
  "cmd_bend_seq_pause args s =
     (case motor_arg (args ! 0) s of None \<Rightarrow> refused ''invalid motor id'' s
      | Some m \<Rightarrow>
          with_sequence m (\<lambda>r.
            if \<not> seq_running r then refused ''no sequence running'' s
            else Some (Ack ''sequence paused'',
              snd (on_stepper (ctl_stop (int_of_size m))
                (set_sequence m (pause_with ''operator pause'' (r\<lparr>step_queued := False\<rparr>)) s)))) s)"

definition cmd_bend_seq_resume :: "'d driver_ops \<Rightarrow> string list \<Rightarrow> 'd system \<Rightarrow> 'd outcome" where
  "cmd_bend_seq_resume ops args s =
     (case motor_arg (args ! 0) s of None \<Rightarrow> refused ''invalid motor id'' s
      | Some m \<Rightarrow>
          (let id = int_of_size m; st = motor_status ops id s in
           if sys_mode s \<noteq> Run then refused ''RUN mode required'' s
           else if \<not> is_zeroed id s then refused ''motor must be zeroed first'' s
           else if st_position_uncertain st then refused (sanitize_for_reply (position_uncertain_text id st)) s
           else
             with_sequence m (\<lambda>r.
               if \<not> seq_running r \<or> \<not> seq_paused r then refused ''sequence is not paused'' s
               else Some (Ack ''sequence resumed'',
                 set_sequence m (r\<lparr>seq_paused := False, step_queued := False, seq_fault := []\<rparr>) s)) s))"

definition cmd_bend_seq_stop :: "string list \<Rightarrow> 'd system \<Rightarrow> 'd outcome" where
  "cmd_bend_seq_stop args s =
     (case motor_arg (args ! 0) s of None \<Rightarrow> refused ''invalid motor id'' s
      | Some m \<Rightarrow>
          with_sequence m (\<lambda>r.
            Some (Ack ''sequence stopped'',
              snd (on_stepper (ctl_stop (int_of_size m)) (set_sequence m (reset_sequence r) s)))) s)"

definition cmd_bend_seq_clear :: "string list \<Rightarrow> 'd system \<Rightarrow> 'd outcome" where
  "cmd_bend_seq_clear args s =
     (case motor_arg (args ! 0) s of None \<Rightarrow> refused ''invalid motor id'' s
      | Some m \<Rightarrow>
          with_sequence m (\<lambda>r.
            if length args = 1
            then if seq_running r then refused ''sequence running'' s
                 else Some (Ack ''sequence definitions cleared'', set_sequence m (r\<lparr>definitions := Map.empty\<rparr>) s)
            else if seq_running r \<and> active_name r = args ! 1 then refused ''cannot clear active sequence'' s
            else if definitions r (args ! 1) = None then refused ''unknown sequence'' s
            else Some (Ack ''sequence definitions cleared'',
              set_sequence m (r\<lparr>definitions := (definitions r)(args ! 1 := None)\<rparr>) s)) s)"

subsection \<open>Motor commands\<close>

text \<open>The optional hold of an absolute move.\<close>

definition hold_arg :: "string list \<Rightarrow> dbl option" where
  "hold_arg args = (if length args = 2 then parse_finite (args ! 1) else Some 0)"

definition bad_hold :: "dbl \<Rightarrow> bool" where
  "bad_hold h \<longleftrightarrow> h < 0 \<or> max_hold_seconds < h"

definition cmd_stepper_move :: "int \<Rightarrow> string list \<Rightarrow> 'd system \<Rightarrow> 'd outcome" where
  "cmd_stepper_move m args s =
     (case parse_int64 (args ! 0) of None \<Rightarrow> refused ''invalid steps'' s
      | Some n \<Rightarrow>
     (case abs_int64 n of None \<Rightarrow> None
      | Some a \<Rightarrow>
      if max_direct_usteps (sc_motion (sys_cfg s)) < a then refused (direct_cap_text (sys_cfg s) ''steps'') s
      else
     (case motion_refusal False m s of Some text \<Rightarrow> refused text s
      | None \<Rightarrow> start_motion ''move queued'' (ctl_move_steps m n) s)))"

definition cmd_stepper_move_to :: "int \<Rightarrow> string list \<Rightarrow> 'd system \<Rightarrow> 'd outcome" where
  "cmd_stepper_move_to m args s =
     (case (parse_int64 (args ! 0), hold_arg args) of
        (Some n, Some hold) \<Rightarrow>
          (case abs_int64 n of None \<Rightarrow> None
           | Some a \<Rightarrow>
           if max_direct_usteps (sc_motion (sys_cfg s)) < a then refused (direct_cap_text (sys_cfg s) ''usteps'') s
           else if bad_hold hold then refused ''invalid hold_s (0..86400)'' s
           else
          (case motion_refusal True m s of Some text \<Rightarrow> refused text s
           | None \<Rightarrow> start_motion ''bend queued'' (ctl_move_to_steps m n hold) s))
      | _ \<Rightarrow> refused ''invalid args'' s)"

definition cmd_stepper_move_mm :: "int \<Rightarrow> string list \<Rightarrow> 'd system \<Rightarrow> 'd outcome" where
  "cmd_stepper_move_mm m args s =
     (case motion_refusal False m s of Some text \<Rightarrow> refused text s
      | None \<Rightarrow>
     (case parse_finite (args ! 0) of None \<Rightarrow> refused ''invalid mm'' s
      | Some mm \<Rightarrow> start_motion ''move queued'' (ctl_move_millimeters m mm) s))"

definition cmd_stepper_move_to_mm :: "int \<Rightarrow> string list \<Rightarrow> 'd system \<Rightarrow> 'd outcome" where
  "cmd_stepper_move_to_mm m args s =
     (case motion_refusal True m s of Some text \<Rightarrow> refused text s
      | None \<Rightarrow>
     (case parse_finite (args ! 0) of None \<Rightarrow> refused ''invalid mm'' s
      | Some mm \<Rightarrow>
     (case hold_arg args of None \<Rightarrow> refused ''invalid hold'' s
      | Some hold \<Rightarrow>
          if bad_hold hold then refused ''invalid hold_s (0..86400)'' s
          else start_motion ''bend queued'' (ctl_move_to_millimeters m mm hold) s)))"

definition cmd_stepper_rotate :: "int \<Rightarrow> string list \<Rightarrow> 'd system \<Rightarrow> 'd outcome" where
  "cmd_stepper_rotate m args s =
     (case motion_refusal False m s of Some text \<Rightarrow> refused text s
      | None \<Rightarrow>
     (case parse_finite (args ! 0) of None \<Rightarrow> refused ''invalid revs'' s
      | Some revs \<Rightarrow> start_motion ''rotate queued'' (ctl_rotate m revs) s))"

definition cmd_stepper_home :: "int \<Rightarrow> 'd system \<Rightarrow> 'd outcome" where
  "cmd_stepper_home m s =
     (case motion_refusal True m s of Some text \<Rightarrow> refused text s
      | None \<Rightarrow> start_motion ''homing'' (ctl_home m) s)"

text \<open>\<^verbatim>\<open>PULL_ARM\<close> and \<^verbatim>\<open>PULL_EXECUTE\<close>: the same guards and the same call, another reply.\<close>

definition cmd_pull :: "'d driver_ops \<Rightarrow> string \<Rightarrow> int \<Rightarrow> 'd system \<Rightarrow> 'd outcome" where
  "cmd_pull ops text m s =
     (case motion_refusal True m s of Some text \<Rightarrow> refused text s
      | None \<Rightarrow>
          (let st = motor_status ops m s in
           if st_position_uncertain st then refused (sanitize_for_reply (position_uncertain_text m st)) s
           else start_motion text (ctl_arm_pull m) s))"

definition cmd_stepper_stop :: "int \<Rightarrow> 'd system \<Rightarrow> 'd outcome" where
  "cmd_stepper_stop m s =
     (if sys_stepper s = None then refused ''stepper unavailable'' s
      else Some (Ack ''stopped'', snd (on_stepper (ctl_stop m) s)))"

definition cmd_stepper_set_speed :: "int \<Rightarrow> string list \<Rightarrow> 'd system \<Rightarrow> 'd outcome" where
  "cmd_stepper_set_speed m args s =
     (if sys_stepper s = None then refused ''stepper unavailable'' s
      else
     (case parse_finite (args ! 0) of None \<Rightarrow> refused ''invalid hz'' s
      | Some hz \<Rightarrow>
          answer
            (if effective_max_step_hz (sys_cfg s) < hz then ''speed clamped to '' @ speed_ceiling_text (sys_cfg s)
             else ''speed updated'')
            (on_stepper (ctl_set_speed m hz) s)))"

definition cmd_stepper_set_accel :: "int \<Rightarrow> string list \<Rightarrow> 'd system \<Rightarrow> 'd outcome" where
  "cmd_stepper_set_accel m args s =
     (if sys_stepper s = None then refused ''stepper unavailable'' s
      else
     (case parse_finite (args ! 0) of None \<Rightarrow> refused ''invalid accel'' s
      | Some a \<Rightarrow> answer ''accel updated'' (on_stepper (ctl_set_accel m a) s)))"

definition cmd_stepper_set_current :: "'d driver_ops \<Rightarrow> int \<Rightarrow> string list \<Rightarrow> 'd system \<Rightarrow> 'd outcome" where
  "cmd_stepper_set_current ops m args s =
     (if sys_stepper s = None then refused ''stepper unavailable'' s
      else
     (case parse_finite (args ! 0) of None \<Rightarrow> refused ''invalid current'' s
      | Some a \<Rightarrow>
          if a \<le> 0 \<or> to_dbl (31 / 10) < a then refused ''current must be in (0, 3.1] A RMS'' s
          else
            (let (e, s) = on_stepper (ctl_set_run_current ops m a) s
             in answer ''current updated'' (map_option sanitize_for_reply e, s))))"

definition cmd_stepper_set_microstep :: "'d driver_ops \<Rightarrow> int \<Rightarrow> string list \<Rightarrow> 'd system \<Rightarrow> 'd outcome" where
  "cmd_stepper_set_microstep ops m args s =
     (if sys_stepper s = None then refused ''stepper unavailable'' s
      else
     (case parse_index (args ! 0) of None \<Rightarrow> refused ''invalid divisor'' s
      | Some n \<Rightarrow> answer ''microstep updated'' (on_stepper (ctl_set_microstep ops m (int_of_size n)) s)))"

definition cmd_stepper_enable :: "'d driver_ops \<Rightarrow> int \<Rightarrow> 'd system \<Rightarrow> 'd outcome" where
  "cmd_stepper_enable ops m s =
     (if sys_stepper s = None then refused ''stepper unavailable'' s
      else if sys_mode s \<noteq> Run then refused ''RUN mode required'' s
      else
        (let (e, s) = on_stepper (ctl_set_enabled ops m True) s
         in answer ''stepper enabled''
              (map_option (\<lambda>err. if err = [] then ''enable failed'' else sanitize_for_reply err) e, s)))"

definition cmd_stepper_disable :: "'d driver_ops \<Rightarrow> int \<Rightarrow> 'd system \<Rightarrow> 'd outcome" where
  "cmd_stepper_disable ops m s =
     (if sys_stepper s = None then refused ''stepper unavailable'' s
      else
        (let (e, s) = on_stepper (ctl_set_enabled ops m False) s
         in answer ''stepper disabled'' (map_option (\<lambda>err. if err = [] then ''disable failed'' else err) e, s)))"

definition cmd_motor_debug :: "'d driver_ops \<Rightarrow> command_env \<Rightarrow> string list \<Rightarrow> 'd system \<Rightarrow> 'd outcome" where
  "cmd_motor_debug ops e args s =
     (if sys_stepper s = None then refused ''stepper unavailable'' s
      else
     (case motor_arg (args ! 0) s of None \<Rightarrow> refused ''invalid motor id'' s
      | Some m \<Rightarrow>
          (let st = motor_status ops (int_of_size m) s; regs = ce_debug_registers e (int_of_size m) in
           if regs = [] then refused ''debug registers unavailable (no SPI driver or bus error)'' s
           else Some (Ack
             (''motor='' @ show_nat m @ '';sw_pos='' @ show_int (st_position_steps st) @
              '';sw_tgt='' @ show_int (st_target_steps st) @ '';sw_hz='' @ show_double (st_step_hz st) @
              '';us='' @ show_int (st_microstep st) @ '';enabled='' @ flag_text (st_enabled st) @
              '';moving='' @ flag_text (st_moving st) @ '';holding='' @ flag_text (st_holding st) @
              '';pulses='' @ show_nat (unat (st_pulses_total st)) @
              '';missed='' @ show_nat (st_missed_deadlines st) @
              '';loss='' @ show_nat (unat (st_step_loss_events st)) @
              '';unc='' @ flag_text (st_position_uncertain st) @ '';loss_reason='' @
              (if st_step_loss_reason st = [] then ''-'' else sanitize_for_reply (st_step_loss_reason st)) @
              CHR '';'' # regs), s))))"

subsection \<open>The fallback plan\<close>

definition plan_speed_arg :: "string list \<Rightarrow> system_config \<Rightarrow> dbl option" where
  "plan_speed_arg args cfg =
     (if length args \<noteq> 4 then Some 0
      else case parse_finite (args ! 3) of
        None \<Rightarrow> None
      | Some hz \<Rightarrow> if hz \<le> 0 \<or> effective_max_step_hz cfg < hz then None else Some hz)"

definition cmd_fallback_plan :: "command_env \<Rightarrow> string list \<Rightarrow> 'd system \<Rightarrow> 'd outcome" where
  "cmd_fallback_plan e args s =
     (case parse_index (args ! 0) of None \<Rightarrow> refused ''invalid motor id'' s
      | Some m \<Rightarrow>
      if length (sc_motors (sys_cfg s)) \<le> m then refused ''invalid motor id'' s
      else
     (let bad = ''invalid target (|usteps| must be <= stepper.max_position_steps)'' in
      case parse_int64 (args ! 1) of None \<Rightarrow> refused bad s
      | Some goal \<Rightarrow>
     (case abs_int64 goal of None \<Rightarrow> None
      | Some a \<Rightarrow>
      if mo_max_position_steps (sc_motion (sys_cfg s)) < a then refused bad s
      else
     (case parse_finite (args ! 2) of None \<Rightarrow> refused ''invalid hold_s (0..86400)'' s
      | Some hold \<Rightarrow>
      if hold < 0 \<or> Fin 86400 < hold then refused ''invalid hold_s (0..86400)'' s
      else
     (case plan_speed_arg args (sys_cfg s) of
        None \<Rightarrow> refused (''invalid speed_hz (0 < hz <= '' @ speed_ceiling_text (sys_cfg s) @ '')'') s
      | Some hz \<Rightarrow>
          (let (err, p) = set_motor_plan (int_of_size m) goal hold hz (sys_planner s); s = s\<lparr>sys_planner := p\<rparr> in
           case err of
             Some text \<Rightarrow> refused text s
           | None \<Rightarrow>
               Some (Ack (''motor='' @ show_nat m @ '';target='' @ show_int goal @ '';hold_s='' @
                       show_double hold @ '';speed_hz='' @ show_double hz),
                     persist_plan (ce_plan_opens e) (ce_plan_written e) s)))))))"

definition cmd_fallback_arm :: "command_env \<Rightarrow> 'd system \<Rightarrow> reply \<times> 'd system" where
  "cmd_fallback_arm e s =
     (let (err, p) = arm_plan (sys_planner s); s = s\<lparr>sys_planner := p\<rparr> in
      case err of
        Some text \<Rightarrow> (Nack text, s)
      | None \<Rightarrow> (Ack ''plan=armed'', persist_plan (ce_plan_opens e) (ce_plan_written e) s))"

definition cmd_fallback_disarm :: "command_env \<Rightarrow> 'd system \<Rightarrow> reply \<times> 'd system" where
  "cmd_fallback_disarm e s =
     (Ack ''plan=none'',
      persist_plan (ce_plan_opens e) (ce_plan_written e) (s\<lparr>sys_planner := disarm_plan (sys_planner s)\<rparr>))"

definition cmd_fallback_status :: "'d system \<Rightarrow> reply \<times> 'd system" where
  "cmd_fallback_status s = (Ack (status_body (sys_planner s)), s)"

end
