(* ===== verification/SystemCommands.thy ===== *)
theory SystemCommands
  imports HeatCommands MotionCommands
begin

text \<open>
  Part four of \<^verbatim>\<open>HandleCommandLine\<close>: the status, component and check reports, the radio silence gate and the
  dispatch of a parsed line.
\<close>

subsection \<open>Reports\<close>

definition spi_bus_healthy :: "'d driver_ops \<Rightarrow> 'd system \<Rightarrow> bool" where
  "spi_bus_healthy ops s \<longleftrightarrow>
     sc_simulated (sys_cfg s) \<or> (case sys_stepper s of None \<Rightarrow> True | Some t \<Rightarrow> ctl_spi_bus_ok ops t)"

definition cmd_status :: "'d driver_ops \<Rightarrow> command_env \<Rightarrow> 'd system \<Rightarrow> reply \<times> 'd system" where
  "cmd_status ops e s =
     (Ack (''phase='' @ phase_to_string (sm_phase (sys_phase s)) @ '';mode='' @ mode_to_string (sys_mode s) @
        '';manual_first='' @ flag_text (manual_first (sc_manual (sys_cfg s))) @
        '';link_seen='' @ flag_text (link_seen s) @ '';link_loss_s='' @ show_double (link_loss_s s) @
        '';fallback_active='' @ flag_text (fallback_on s) @
        '';plan='' @ plan_state_to_string (pl_state (sys_planner s)) @
        '';bench_mode='' @ flag_text (bench_mode (sc_runtime (sys_cfg s))) @
        '';debug_armed='' @ flag_text (sys_debug_armed s) @ '';telemetry_target='' @ ce_target e @
        '';queue_depth='' @ show_nat (ce_queue_depth e) @ '';tick_hz='' @ show_double (live_tick_hz s) @
        '';link_codec='' @ ce_codec e @
        '';link_bytes='' @ show_nat (ce_window e) @ CHR ''/'' # show_nat (ce_share e) @
        '';link_ack_timeouts='' @ show_nat (ce_ack_timeouts e) @ '';link_cap='' @ ce_link_cap e @
        '';link_tokens='' @ show_int (ce_tokens e) @ CHR ''/'' # show_nat (ce_burst e) @
        '';silence='' @ flag_text (\<not> transmit_enabled s) @ '';simulated='' @ flag_text (ce_simulated e) @
        '';i2c_ok='' @ flag_text (ce_i2c_ok e) @ '';sample_temp_ok='' @ flag_text (ce_sample_temp_ok e) @
        '';pwm_ok='' @ flag_text (pwm_healthy (sys_pwm s)) @
        '';stepper_ok='' @ flag_text (steppers_healthy ops s) @
        '';energy_wh='' @ show_double (energy_consumed_wh (sys_scheduler s)) @
        '';energy_budget_wh='' @ show_double (energy_budget_wh (sc_power (sys_cfg s))) @
        '';budget_exhausted='' @ flag_text (hs_budget_exhausted (sys_scheduler s)) @
        concat (map (\<lambda>m. '';seq'' @ show_nat m @ ''={'' @ sequence_status m s @ ''}'') [0..<length (sequences s)])), s)"

definition cmd_components :: "'d driver_ops \<Rightarrow> command_env \<Rightarrow> 'd system \<Rightarrow> reply \<times> 'd system" where
  "cmd_components ops e s =
     (let ok = (\<lambda>b. if b then ''OK'' else ''FAILED''); n = length (pwm_duty (sys_pwm s)) in
      (Ack (ce_sensor_summary e @ '';pwm='' @
         component_state_to_string (pwm_state (sys_pwm s)) @
         concat (map (\<lambda>i. '';heater'' @ show_nat i @ CHR ''='' # ok (pwm_channel_healthy i (sys_pwm s))) [0..<n]) @
         concat (map (\<lambda>i. '';motor'' @ show_nat i @ CHR ''='' #
             ok (case sys_stepper s of None \<Rightarrow> False | Some t \<Rightarrow> ctl_healthy ops (int i) t)) [0..<motor_count s]) @
         '';comms='' @ (if ce_connected e then ''OK'' else ''DEGRADED'')), s))"

text \<open>\<^verbatim>\<open>CHECK\<close> probes the drivers of the selected motors; the storage and sensor probes are the environment's.\<close>

definition check_motor :: "'d driver_ops \<Rightarrow> int \<Rightarrow> 'd system \<Rightarrow> bool \<times> 'd system" where
  "check_motor ops m s =
     (case sys_stepper s of
        None \<Rightarrow> (False, s)
      | Some t \<Rightarrow> (let (ok, t) = ctl_active_check_motor ops m t in (ok, s\<lparr>sys_stepper := Some t\<rparr>)))"

definition driver_text :: "('d \<Rightarrow> string) \<Rightarrow> int \<Rightarrow> 'd system \<Rightarrow> string" where
  "driver_text f m s =
     (case sys_stepper s of
        None \<Rightarrow> []
      | Some t \<Rightarrow>
          (case channel_by_id m t of
             None \<Rightarrow> []
           | Some c \<Rightarrow> (case ch_driver c of None \<Rightarrow> [] | Some d \<Rightarrow> f d)))"

definition check_warning :: "'d driver_ops \<Rightarrow> int \<Rightarrow> 'd system \<Rightarrow> string" where
  "check_warning ops m s =
     (let warn = driver_text (drv_warning ops) m s; st = motor_status ops m s;
          warn = (if st_position_uncertain st
            then (if warn = [] then [] else warn @ ''; '') @ ''POSITION UNCERTAIN after '' @
              show_nat (unat (st_step_loss_events st)) @ '' step-loss event(s): '' @ st_step_loss_reason st
            else warn)
      in if warn = [] then [] else '';motor'' @ show_int m @ ''_warn='' @ sanitize_for_reply warn)"

definition sensor_components :: "string list" where
  "sensor_components =
     [''ALL'', ''DPS310'', ''ADS1115'', ''SEQUENT_RTD'', ''DAQ132M'', ''RTD_CLICK'', ''MAX31865'']"

definition cmd_check :: "'d driver_ops \<Rightarrow> command_env \<Rightarrow> string list \<Rightarrow> 'd system \<Rightarrow> reply \<times> 'd system" where
  "cmd_check ops e args s =
     (let selected = (case args of [] \<Rightarrow> ''ALL'' | a # _ \<Rightarrow> a);
          wants = (\<lambda>name. selected = ''ALL'' \<or> selected = name);
          sensors = (selected \<in> set sensor_components)
      in if \<not> (wants ''STORAGE'' \<or> sensors \<or> wants ''PWM'' \<or> wants ''MOTOR0'' \<or> wants ''MOTOR1'' \<or> wants ''COMMS'')
         then (Nack ''unknown component'', s)
         else
           (let (storage_ok, storage_text) = (if wants ''STORAGE'' then ce_storage_check e else (True, ''storage=SKIPPED''));
                (sensor_ok, sensor_text) = (if sensors then ce_sensor_check e selected else (True, ''sensors=SKIPPED''));
                pwm_ok = (wants ''PWM'' \<longrightarrow> pwm_healthy (sys_pwm s));
                (ok0, s) = (if wants ''MOTOR0'' then check_motor ops 0 s else (True, s));
                (ok1, s) = (if wants ''MOTOR1'' then check_motor ops 1 s else (True, s));
                spi_ok = spi_bus_healthy ops s;
                comms_ok = (wants ''COMMS'' \<longrightarrow> ce_connected e);
                text = (\<lambda>b. if b then ''OK'' else ''FAIL'');
                fault = (\<lambda>m ok name. if sys_stepper s \<noteq> None \<and> wants name \<and> \<not> ok
                  then '';motor'' @ show_int m @ ''_error='' @ sanitize_for_reply (driver_text (drv_last_error ops) m s)
                  else []);
                warn = (\<lambda>m name. if sys_stepper s \<noteq> None \<and> wants name then check_warning ops m s else [])
            in (Ack (''overall='' @
                  text (storage_ok \<and> sensor_ok \<and> pwm_ok \<and> ok0 \<and> ok1 \<and> spi_ok \<and> comms_ok) @
                  '';selected='' @ selected @ CHR '';'' # storage_text @ CHR '';'' # sensor_text @
                  '';pwm='' @ text pwm_ok @ '';motor0='' @ text ok0 @ '';motor1='' @ text ok1 @
                  '';spi='' @ text spi_ok @ '';comms='' @ text comms_ok @
                  fault 0 ok0 ''MOTOR0'' @ fault 1 ok1 ''MOTOR1'' @ warn 0 ''MOTOR0'' @ warn 1 ''MOTOR1''), s)))"

subsection \<open>Dispatch\<close>

definition run_command :: "'d driver_ops \<Rightarrow> command_env \<Rightarrow> command \<Rightarrow> 'd system \<Rightarrow> 'd outcome" where
  "run_command ops e c s =
     (let args = cmd_args c; m = int (motor_id c) in
      case cmd_type c of
        KPing \<Rightarrow> Some (Ack ''pong'', s)
      | KStatus \<Rightarrow> Some (cmd_status ops e s)
      | KComponents \<Rightarrow> Some (cmd_components ops e s)
      | KCheck \<Rightarrow> Some (cmd_check ops e args s)
      | KForceStart \<Rightarrow> Some (cmd_force_start s)
      | KForceStop \<Rightarrow> Some (cmd_force_stop s)
      | KHeatersOff \<Rightarrow> Some (cmd_heaters_off s)
      | KResetCtrl \<Rightarrow> Some (cmd_reset_ctrl s)
      | KShutdownSafe \<Rightarrow> Some (cmd_shutdown_safe ops s)
      | KEnterSafe \<Rightarrow> Some (cmd_enter_safe s)
      | KExitSafe \<Rightarrow> Some (cmd_exit_safe s)
      | KArm \<Rightarrow> Some (cmd_arm s)
      | KDisarm \<Rightarrow> Some (cmd_disarm s)
      | KArmDebug \<Rightarrow> Some (cmd_arm_debug args s)
      | KDisarmDebug \<Rightarrow> Some (cmd_disarm_debug s)
      | KSetHeaterDuty \<Rightarrow> Some (cmd_set_heater_duty args s)
      | KSetAllDuty \<Rightarrow> Some (cmd_set_all_duty args s)
      | KHeaterTest \<Rightarrow> Some (cmd_heater_test e args s)
      | KSetPid \<Rightarrow> Some (cmd_set_pid args s)
      | KPidTuneStart \<Rightarrow> Some (cmd_pid_tune_start e args s)
      | KPidTuneAbort \<Rightarrow> Some (cmd_pid_tune_abort s)
      | KPidTuneStatus \<Rightarrow> Some (cmd_pid_tune_status e s)
      | KSetTempTarget \<Rightarrow> Some (cmd_set_temp_target args s)
      | KSetAllTempTargets \<Rightarrow> Some (cmd_set_all_temp_targets args s)
      | KClearTempTarget \<Rightarrow> Some (cmd_clear_temp_target args s)
      | KClearTempTargets \<Rightarrow> Some (cmd_clear_temp_targets s)
      | KGetThermal \<Rightarrow> Some (cmd_get_thermal s)
      | KGetLayout \<Rightarrow> Some (cmd_get_layout s)
      | KClearOverrides \<Rightarrow> Some (cmd_clear_overrides s)
      | KSetBenchMode \<Rightarrow> Some (cmd_set_bench_mode args s)
      | KSetTickHz \<Rightarrow> Some (cmd_set_tick_hz args s)
      | KRadioSilence \<Rightarrow> Some (cmd_radio_silence e s)
      | KRadioResume \<Rightarrow> Some (cmd_radio_resume e s)
      | KSetPhase \<Rightarrow> Some (cmd_set_phase args s)
      | KSetPositionZero \<Rightarrow> cmd_set_position_zero ops args s
      | KStepLossAck \<Rightarrow> cmd_step_loss_ack ops args s
      | KBendSeqLoad \<Rightarrow> cmd_bend_seq_load args s
      | KBendSeqRun \<Rightarrow> cmd_bend_seq_run ops args s
      | KBendSeqPause \<Rightarrow> cmd_bend_seq_pause args s
      | KBendSeqResume \<Rightarrow> cmd_bend_seq_resume ops args s
      | KBendSeqStop \<Rightarrow> cmd_bend_seq_stop args s
      | KBendSeqStatus \<Rightarrow> cmd_bend_seq_status args s
      | KBendSeqClear \<Rightarrow> cmd_bend_seq_clear args s
      | KStepperMove \<Rightarrow> cmd_stepper_move m args s
      | KStepperMoveTo \<Rightarrow> cmd_stepper_move_to m args s
      | KStepperBend \<Rightarrow> cmd_stepper_move_to m args s
      | KStepperMoveMm \<Rightarrow> cmd_stepper_move_mm m args s
      | KStepperMoveToMm \<Rightarrow> cmd_stepper_move_to_mm m args s
      | KStepperRotate \<Rightarrow> cmd_stepper_rotate m args s
      | KStepperHome \<Rightarrow> cmd_stepper_home m s
      | KMotorDebug \<Rightarrow> cmd_motor_debug ops e args s
      | KStepperStop \<Rightarrow> cmd_stepper_stop m s
      | KStepperSetSpeed \<Rightarrow> cmd_stepper_set_speed m args s
      | KStepperSetAccel \<Rightarrow> cmd_stepper_set_accel m args s
      | KStepperSetCurrent \<Rightarrow> cmd_stepper_set_current ops m args s
      | KStepperSetMicrostep \<Rightarrow> cmd_stepper_set_microstep ops m args s
      | KStepperEnable \<Rightarrow> cmd_stepper_enable ops m s
      | KStepperDisable \<Rightarrow> cmd_stepper_disable ops m s
      | KPullArm \<Rightarrow> cmd_pull ops ''pull armed'' m s
      | KPullExecute \<Rightarrow> cmd_pull ops ''pull executed'' m s
      | KFallbackPlan \<Rightarrow> cmd_fallback_plan e args s
      | KFallbackArm \<Rightarrow> Some (cmd_fallback_arm e s)
      | KFallbackDisarm \<Rightarrow> Some (cmd_fallback_disarm e s)
      | KFallbackStatus \<Rightarrow> Some (cmd_fallback_status s)
      | KUnknown \<Rightarrow> refused ''unknown command'' s)"

text \<open>The commands that pass a radio silence.\<close>

definition silence_passes :: "command_type \<Rightarrow> bool" where
  "silence_passes t \<longleftrightarrow> t = KRadioResume \<or> t = KRadioSilence \<or> t = KStatus \<or> t = KPing"

definition gate_command :: "'d driver_ops \<Rightarrow> command_env \<Rightarrow> command \<Rightarrow> 'd system \<Rightarrow> 'd outcome" where
  "gate_command ops e c s =
     (if \<not> transmit_enabled s \<and> \<not> silence_passes (cmd_type c) then refused ''radio silence active'' s
      else run_command ops e c s)"

text \<open>The parser of the controller is built for two motors.\<close>

definition handle_command_line :: "'d driver_ops \<Rightarrow> command_env \<Rightarrow> string \<Rightarrow> 'd system \<Rightarrow> (string \<times> 'd system) option" where
  "handle_command_line ops e line s =
     (case parse_command_line 2 line of
        Inl err \<Rightarrow> Some (reply_line ''UNKNOWN'' (Nack err), s)
      | Inr c \<Rightarrow> map_option (\<lambda>(r, s). (reply_line (cmd_name c) r, s)) (gate_command ops e c s))"

text \<open>The ground station a peer's command makes the telemetry client observe: its priority, none for a
  loopback peer outside the bench.\<close>

definition is_loopback_peer :: "string \<Rightarrow> bool" where
  "is_loopback_peer ip \<longleftrightarrow> ip = ''127.0.0.1'' \<or> ip = ''::1''"

definition observed_priority :: "string \<Rightarrow> 'd system \<Rightarrow> int option" where
  "observed_priority peer s =
     (if peer \<noteq> [] \<and> (bench_mode (sc_runtime (sys_cfg s)) \<or> \<not> is_loopback_peer peer)
      then Some (if is_loopback_peer peer then 0 else 1000) else None)"

end
