(* ===== verification/LockUse.thy ===== *)
theory LockUse
  imports MotionProperties
begin

text \<open>
  Which operations of the motors take the motion lock: only the commands that start a motion.  Every other
  command, the ticks and the pulse rounds leave the lock as it is or free it.
\<close>

subsection \<open>Operations that take no lock\<close>

text \<open>The lock stays, or it is free afterwards.\<close>

definition falls :: "motion_lock option \<Rightarrow> motion_lock option \<Rightarrow> bool" where
  "falls l l' \<longleftrightarrow> l' = l \<or> (\<exists>a b. l = Some a \<and> l' = Some b \<and> lock_holder b = - 1)"

definition no_take :: "'d stepper_channel \<Rightarrow> 'd stepper_channel \<Rightarrow> bool" where
  "no_take c c' \<longleftrightarrow> falls (ch_lock c) (ch_lock c')"

named_theorems no_take_intros "channel operations that take no lock"

lemma falls_refl [simp]: "falls l l"
  by (simp add: falls_def)

lemma falls_trans: "falls a b \<Longrightarrow> falls b c \<Longrightarrow> falls a c"
  by (auto simp: falls_def)

lemma no_take_refl [simp]: "no_take c c"
  by (simp add: no_take_def)

lemma no_take_trans: "no_take a b \<Longrightarrow> no_take b c \<Longrightarrow> no_take a c"
  unfolding no_take_def by (rule falls_trans)

lemma no_take_same: "ch_lock c' = ch_lock c \<Longrightarrow> no_take c c'"
  by (simp add: no_take_def)

lemma no_take_motion: "same_motion c c' \<Longrightarrow> no_take c c'"
  by (simp add: same_motion_def no_take_same)

lemma no_take_release: "no_take c c' \<Longrightarrow> no_take c (release_lock_if_held c')"
  by (rule no_take_trans)
    (auto simp: no_take_def falls_def release_lock_if_held_def release_def lock_holder_def split: option.splits)

lemmas no_take_freed = no_take_release [OF no_take_same]

lemma no_take_abort: "no_take c (abort_move_for_step_loss c)"
  unfolding abort_move_for_step_loss_def by (rule no_take_freed) simp

lemma no_take_refused: "no_take c (refused_step ops b c)"
  unfolding refused_step_def Let_def
  by (auto split: option.splits intro!: no_take_freed simp: latch_step_loss_def)

lemma no_take_overtemp: "no_take c (overtemp_stop ops d c)"
  unfolding overtemp_stop_def Let_def by (rule no_take_freed) (simp add: latch_step_loss_def)

lemma no_take_issue_loop: "no_take c (snd (issue_loop ops fwd n k c))"
proof (induction ops fwd n k c rule: issue_loop.induct)
  case (2 ops fwd n k c)
  show ?case
  proof (cases "ch_driver c")
    case (Some d)
    obtain ok d1 where s: "drv_step ops fwd d = (ok, d1)" by (cases "drv_step ops fwd d")
    obtain stop c1 where a: "absorb_driver_step_loss ops (c\<lparr>ch_driver := Some d1\<rparr>) = (stop, c1)"
      by (cases "absorb_driver_step_loss ops (c\<lparr>ch_driver := Some d1\<rparr>)")
    have "same_motion c c1"
      using same_motion_trans [OF same_driver same_absorb [of "c\<lparr>ch_driver := Some d1\<rparr>" ops]] a by simp
    define c2 where "c2 = (if ok then c1\<lparr>position := position c1 + (if fwd then 1 else - 1)\<rparr> else c1)"
    define k2 where "k2 = (if ok then k + 1 else k)"
    have c2: "no_take c c2"
      using \<open>same_motion c c1\<close> by (intro no_take_motion) (simp add: c2_def same_motion_def)
    have eq: "issue_loop ops fwd (Suc n) k c =
        (if stop then (k2, abort_move_for_step_loss c2)
         else if \<not> ok then (k2, refused_step ops (step_loss_events c) c2)
         else issue_loop ops fwd n k2 c2)"
      by (simp add: Some s a c2_def k2_def Let_def)
    have "no_take c2 (snd (issue_loop ops fwd n k2 c2))" if "\<not> stop" "ok"
      using 2 [OF Some refl s [symmetric] refl a [symmetric] refl _ refl, of k2 c2] that
      by (simp add: c2_def k2_def)
    then show ?thesis unfolding eq
      using no_take_trans [OF c2 no_take_abort] no_take_trans [OF c2 no_take_refused] no_take_trans [OF c2]
      by simp
  qed simp
qed simp

lemma no_take_issue_pulses: "no_take c (snd (issue_pulses ops n c))"
proof -
  obtain k c1 where i: "issue_loop ops (position c < target c)
      (nat (if \<bar>target c - position c\<bar> < n then \<bar>target c - position c\<bar> else n)) 0 c = (k, c1)"
    by fastforce
  then have "no_take c c1" using no_take_issue_loop by (metis snd_conv)
  moreover from this have "no_take c (confirm_target ops c1)"
    by (rule no_take_trans [OF _ no_take_motion [OF same_confirm]])
  ultimately show ?thesis by (simp add: issue_pulses_def i Let_def)
qed

lemma no_take_tick_driver: "no_take c (snd (tick_driver ops now c))"
proof (cases "ch_driver c")
  case (Some d)
  let ?d = "snd (drv_poll ops (drv_note_step_rate ops 0 False d))"
  obtain stop c1 where a: "absorb_driver_step_loss ops (c\<lparr>ch_driver := Some ?d\<rparr>) = (stop, c1)"
    by fastforce
  have c1: "no_take c c1"
    using same_motion_trans [OF same_driver same_absorb [of "c\<lparr>ch_driver := Some ?d\<rparr>" ops]] a
    by (intro no_take_motion) simp
  then have "no_take c (abort_move_for_step_loss c1)" by (rule no_take_trans [OF _ no_take_abort])
  with c1 show ?thesis by (simp add: tick_driver_def Some a Let_def no_take_motion [OF same_retry])
qed (simp add: tick_driver_def)

lemma no_take_tick_ends:
  "no_take c (tick_hold dt c)" "no_take c (tick_terminus c)" "no_take c (tick_arrived c)"
  by (simp_all add: tick_hold_def tick_terminus_def tick_arrived_def Let_def no_take_freed no_take_same)

lemma no_take_tick_pulses: "no_take c (tick_pulses ops dt c)"
proof -
  define c1 where "c1 = report_step_rate ops (update_ramp_speed dt \<bar>target c - position c\<bar> c)"
  have "no_take c c1"
    unfolding c1_def by (intro no_take_motion same_motion_trans [OF same_ramp same_report])
  then have p: "no_take c (snd (issue_pulses ops n (c1\<lparr>fractional_steps := f\<rparr>)))" for n f
    by (rule no_take_trans [OF no_take_trans [OF _ no_take_same] no_take_issue_pulses]) simp
  have m: "no_take c (x\<lparr>moving := m\<rparr>)" if "no_take c x" for x m
    using that by (rule no_take_trans) (rule no_take_same, simp)
  have "no_take c (let x = x\<lparr>moving := m x\<rparr> in if moving x then x else tick_arrived x)"
    if "no_take c x" for x m
    using m [OF that] no_take_trans [OF m [OF that] no_take_tick_ends(3)] by (simp add: Let_def)
  from this [OF p] show ?thesis
    unfolding tick_pulses_def Let_def c1_def [symmetric] .
qed

lemma no_take_tick: "no_take c (channel_tick ops now dt c)"
proof -
  obtain e c1 where t: "tick_driver ops now c = (e, c1)" by fastforce
  then have c1: "no_take c c1" using no_take_tick_driver by (metis snd_conv)
  have m: "no_take c1 (tick_motion ops dt c1)"
    by (simp add: tick_motion_def no_take_tick_ends no_take_tick_pulses no_take_same)
  have "no_take c (overtemp_stop ops d c1)" "no_take c (tick_motion ops dt c1)" for d
    by (rule no_take_trans [OF c1 no_take_overtemp], rule no_take_trans [OF c1 m])
  with c1 show ?thesis by (simp add: channel_tick_def t split: option.splits)
qed

lemma no_take_pulse_round: "no_take c (pulse_round ops dt c)"
proof -
  have "no_take c (snd (issue_pulses ops 1 (report_step_rate ops (update_ramp_speed d r c))))" for d r
    by (rule no_take_trans [OF no_take_motion [OF same_motion_trans [OF same_ramp same_report]] no_take_issue_pulses])
  moreover have "no_take c (update_ramp_speed d r c)" for d r by (rule no_take_motion [OF same_ramp])
  ultimately show ?thesis by (simp add: pulse_round_def Let_def)
qed

lemma no_take_set_enabled: "no_take c (snd (set_enabled ops en c))"
proof (cases "ch_driver c")
  case (Some d)
  obtain ok d1 where e: "drv_enable ops en d = (ok, d1)" by fastforce
  have "no_take c (release_lock_if_held
      (c1\<lparr>enabled := False, moving := False, mode := Idle, current_step_hz := 0\<rparr>))"
    if "same_motion (c\<lparr>ch_driver := Some d1\<rparr>) c1" for c1
    using that by (intro no_take_freed) (simp add: same_motion_def)
  then show ?thesis by (simp add: set_enabled_def Some e Let_def same_latch no_take_same)
qed (simp add: set_enabled_def)

text \<open>The commands that start no motion.\<close>

fun starts_motion :: "motor_op \<Rightarrow> bool" where
  "starts_motion (MoveSteps d) = True"
| "starts_motion (MoveToSteps g h) = True"
| "starts_motion (MoveMillimeters d) = True"
| "starts_motion (MoveToMillimeters g h) = True"
| "starts_motion (Rotate r) = True"
| "starts_motion Home = True"
| "starts_motion ArmPull = True"
| "starts_motion (ExecutePull nows) = True"
| "starts_motion x = False"

lemma no_take_chan_op: "\<not> starts_motion x \<Longrightarrow> no_take c (chan_op ops x c)"
  by (cases x)
    (simp_all add: no_take_set_enabled no_take_pulse_round set_position_zero_def stop_motion_def set_speed_def
      set_accel_def set_run_current_def acknowledge_step_loss_def set_microstep_def rescale_def
      ctl_active_check_channel_def Let_def no_take_freed no_take_same split: option.splits prod.splits)

subsection \<open>The motors together\<close>

lemma falls_change:
  assumes "\<And>c. no_take c (f c)"
  shows "falls (Some (shared_lock t)) (Some (shared_lock (change_channel i f t)))"
  using assms [of "lend (shared_lock t) (channels t ! i)"]
  by (auto simp: no_take_def falls_def change_channel_def Let_def lend_def)

lemma falls_command:
  "\<not> starts_motion x \<Longrightarrow> falls (Some (shared_lock t)) (Some (shared_lock (motor_command ops m x t)))"
  by (auto simp: motor_command_eq intro!: falls_change no_take_chan_op split: option.splits)

lemma falls_tick: "falls (Some (shared_lock t)) (Some (shared_lock (ctl_tick ops now dt t)))"
proof -
  have "falls (Some (shared_lock t)) (Some (shared_lock (ctl_tick ops now dt t))) \<and>
      length (channels (ctl_tick ops now dt t)) = length (channels t)"
    by (rule ctl_tick_induct [where P = "\<lambda>u. falls (Some (shared_lock t)) (Some (shared_lock u)) \<and>
          length (channels u) = length (channels t)" and n = "length (channels t)"])
      (auto intro: falls_trans falls_change no_take_tick)
  then show ?thesis ..
qed

end
