(* ===== verification/HeaterInterlock.thy ===== *)
theory HeaterInterlock
  imports SystemCommands LockUse
begin

text \<open>
  Heat and motion exclude each other, over the whole program: whatever the control loop, the commands, the pulse
  threads and the failing heater lines do, and in whatever order, no heater output is driven while a motor holds the
  motion lock.  The exceptions are stated: the bench's open loop, and a heater line that comes back.
\<close>

subsection \<open>The system: what a step may do to the lock and the heaters\<close>

text \<open>The flight configuration: no bench mode, and the duties cover the lines.\<close>

definition flight_config :: "'d system \<Rightarrow> bool" where
  "flight_config s \<longleftrightarrow>
     \<not> bench_mode (sc_runtime (sys_cfg s)) \<and> length (pwm_lines (sys_pwm s)) \<le> length (pwm_duty (sys_pwm s)) \<and>
     length (pwm_duty (sys_pwm s)) \<le> heaters_of s \<and> tc_heaters (sys_thermal s) = heaters_of s"

definition heaters_dark :: "'d system \<Rightarrow> bool" where
  "heaters_dark s \<longleftrightarrow> (\<forall>i. pwm_channel_healthy i (sys_pwm s) \<longrightarrow> pwm_duty (sys_pwm s) ! i = 0)"

text \<open>A step takes no lock and leaves the duties alone, or it may take the lock and the heaters are dark after it; the
  limits of the scheduler stay.\<close>

definition step_ok :: "bool \<Rightarrow> 'd system \<Rightarrow> 'd system \<Rightarrow> bool" where
  "step_ok may_take s s' \<longleftrightarrow>
     (flight_config s \<longrightarrow>
        flight_config s' \<and> hs_power (sys_scheduler s') = hs_power (sys_scheduler s) \<and>
        (falls (active_lock s) (active_lock s') \<and> sys_pwm s' = sys_pwm s \<or> may_take \<and> heaters_dark s'))"

named_theorems step_ok_intros "steps of the system that respect the interlock"

lemma step_ok_refl [simp]: "step_ok P s s"
  by (simp add: step_ok_def)

lemma step_ok_trans: "step_ok P a b \<Longrightarrow> step_ok P b c \<Longrightarrow> step_ok P a c"
  unfolding step_ok_def heaters_dark_def by (auto intro: falls_trans)

lemma step_ok_mono: "step_ok P s s' \<Longrightarrow> (P \<Longrightarrow> Q) \<Longrightarrow> step_ok Q s s'"
  by (auto simp: step_ok_def)

lemma step_ok_weaken: "step_ok False s s' \<Longrightarrow> step_ok P s s'"
  by (erule step_ok_mono) simp

text \<open>A step that writes none of these fields.\<close>

lemma step_ok_fields:
  assumes "sys_stepper s' = sys_stepper s" "sys_pwm s' = sys_pwm s"
    "bench_mode (sc_runtime (sys_cfg s')) = bench_mode (sc_runtime (sys_cfg s))"
    "sc_onboard (sys_cfg s') = sc_onboard (sys_cfg s)" "tc_config (sys_thermal s') = tc_config (sys_thermal s)"
    "hs_power (sys_scheduler s') = hs_power (sys_scheduler s)"
  shows "step_ok P s s'"
  using assms by (simp add: step_ok_def flight_config_def active_lock_def)

lemma step_ok_stepper:
  assumes "\<And>t. falls (Some (shared_lock t)) (Some (shared_lock (snd (f t))))"
  shows "step_ok P s (snd (on_stepper f s))"
proof (cases "sys_stepper s")
  case (Some t)
  with assms [of t] show ?thesis
    by (cases "f t") (simp add: on_stepper_def step_ok_def flight_config_def active_lock_def)
qed (simp add: on_stepper_def)

lemma step_ok_fold:
  "(\<And>x s. x \<in> set xs \<Longrightarrow> step_ok P s (f x s)) \<Longrightarrow> step_ok P s (fold f xs s)"
  by (induction xs arbitrary: s) (auto intro: step_ok_trans)

lemma step_ok_calls:
  "step_ok P s (snd (on_stepper (ctl_stop m) s))"
  "step_ok P s (snd (on_stepper (ctl_set_speed m hz) s))"
  "step_ok P s (snd (on_stepper (ctl_set_accel m a) s))"
  "step_ok P s (snd (on_stepper (ctl_set_run_current ops m a) s))"
  "step_ok P s (snd (on_stepper (ctl_set_microstep ops m n) s))"
  "step_ok P s (snd (on_stepper (ctl_set_enabled ops m en) s))"
  "step_ok P s (snd (on_stepper (ctl_set_position_zero ops m) s))"
  "step_ok P s (snd (on_stepper (ctl_acknowledge_step_loss m) s))"
  "step_ok P s (snd (on_stepper (\<lambda>t. (None, ctl_tick ops now dt t)) s))"
  "step_ok P s (snd (on_stepper (\<lambda>t. (None, ctl_pulse_round ops m dt t)) s))"
  using falls_command [of Stop] falls_command [of "SetSpeed hz"] falls_command [of "SetAccel a"]
    falls_command [of "SetRunCurrent a"] falls_command [of "SetMicrostep n"] falls_command [of "SetEnabled en"]
    falls_command [of SetPositionZero] falls_command [of AcknowledgeStepLoss] falls_command [of "PulseRound dt"]
    falls_tick
  by (auto intro!: step_ok_stepper)

text \<open>As rules that go back over the last step.\<close>

lemmas step_ok_call_intros [step_ok_intros] = step_ok_calls [THEN [2] step_ok_trans]

lemma step_ok_updates [step_ok_intros]:
  assumes "step_ok P s u"
  shows "step_ok P s (u\<lparr>sys_mode := m\<rparr>)" "step_ok P s (u\<lparr>sys_debug_armed := b\<rparr>)"
    "step_ok P s (u\<lparr>sys_state_overrides := so\<rparr>)" "step_ok P s (u\<lparr>storage_safe := b\<rparr>)"
    "step_ok P s (u\<lparr>sys_test := tst\<rparr>)" "step_ok P s (u\<lparr>sys_tuner := tu\<rparr>)"
    "step_ok P s (u\<lparr>tune_channel := ch\<rparr>)" "step_ok P s (u\<lparr>tune_result_logged := b\<rparr>)"
    "step_ok P s (u\<lparr>tune_commanded_duty := d\<rparr>)" "step_ok P s (u\<lparr>sys_planner := p\<rparr>)"
    "step_ok P s (u\<lparr>motor_zeroed := z\<rparr>)" "step_ok P s (u\<lparr>live_tick_hz := d\<rparr>)"
    "step_ok P s (u\<lparr>link_loss_s := d\<rparr>)" "step_ok P s (u\<lparr>link_seen := b\<rparr>)"
    "step_ok P s (u\<lparr>fallback_on := b\<rparr>)" "step_ok P s (u\<lparr>fallback_was_on := b\<rparr>)"
    "step_ok P s (u\<lparr>last_temps := lt\<rparr>)" "step_ok P s (u\<lparr>sys_phase := sp\<rparr>)"
    "step_ok P s (u\<lparr>landed_safed := b\<rparr>)"
    "step_ok P s (u\<lparr>sys_overrides := ov\<rparr>)" "step_ok P s (u\<lparr>next_seq := ns\<rparr>)"
    "step_ok P s (u\<lparr>next_pull_id := np\<rparr>)" "step_ok P s (u\<lparr>last_link_ok := b\<rparr>)"
    "step_ok P s (u\<lparr>sys_running := b\<rparr>)" "step_ok P s (u\<lparr>pull_states := pls\<rparr>)"
  by (rule step_ok_trans [OF assms step_ok_fields]; simp)+

subsection \<open>Duties\<close>

lemma fold_duties:
  "pwm_lines (fold (\<lambda>i b. snd (pwm_set_duty i (d i) b)) [0..<n] b) = pwm_lines b \<and>
   length (pwm_duty (fold (\<lambda>i b. snd (pwm_set_duty i (d i) b)) [0..<n] b)) = length (pwm_duty b) \<and>
   pwm_duty (fold (\<lambda>i b. snd (pwm_set_duty i (d i) b)) [0..<n] b) ! j =
     (if j < n \<and> j < length (pwm_duty b) \<and> pwm_channel_healthy j b then std_clamp (d j) 0 1 else pwm_duty b ! j)"
  by (induction n) (auto simp: pwm_set_duty_nth pwm_channel_healthy_def)

lemma clamp_zero [simp]: "std_clamp 0 0 1 = (0 :: dbl)"
  by (simp add: std_clamp_def zero_one_dbl dbl_order_defs)

lemma dark_inhibit: "flight_config s \<Longrightarrow> heaters_dark (inhibit_heaters s) \<and> flight_config (inhibit_heaters s)"
  by (auto simp: flight_config_def heaters_dark_def inhibit_heaters_def fold_duties pwm_channel_healthy_def)

lemma step_ok_start:
  "step_ok True s (snd (on_stepper f (inhibit_heaters s)))"
proof -
  have "flight_config (snd (on_stepper f u)) = flight_config u" "heaters_dark (snd (on_stepper f u)) = heaters_dark u"
    "sys_scheduler (snd (on_stepper f u)) = sys_scheduler u" for u
    by (simp_all add: on_stepper_def flight_config_def heaters_dark_def split: option.splits prod.splits)
  with dark_inhibit [of s] show ?thesis by (auto simp: step_ok_def inhibit_heaters_def)
qed

subsection \<open>The commands\<close>

text \<open>A motion may start in RUN mode and outside the link-loss fallback.\<close>

definition motion_allowed :: "'d system \<Rightarrow> bool" where
  "motion_allowed s \<longleftrightarrow> sys_mode s = Run \<and> \<not> fallback_on s"

definition outcome_ok :: "bool \<Rightarrow> 'd system \<Rightarrow> 'd outcome \<Rightarrow> bool" where
  "outcome_ok P s r \<longleftrightarrow> (\<forall>x s'. r = Some (x, s') \<longrightarrow> step_ok P s s')"

lemma outcome_okI [intro]: "step_ok P s (snd r) \<Longrightarrow> outcome_ok P s (Some r)"
  by (cases r) (simp add: outcome_ok_def)

lemma outcome_ok_simps [simp]:
  "outcome_ok P s None" "outcome_ok P s (refused text s)" "outcome_ok P s (Some (x, s')) \<longleftrightarrow> step_ok P s s'"
  by (simp_all add: outcome_ok_def refused_def)

lemma outcome_ok_answer: "step_ok P s (snd r) \<Longrightarrow> outcome_ok P s (answer text r)"
  by (simp add: outcome_ok_def answer_def)

lemma outcome_ok_refused: "step_ok P s s' \<Longrightarrow> outcome_ok P s (refused text s')"
  by (simp add: outcome_ok_def refused_def)

text \<open>Helpers of the handlers.\<close>

lemma step_ok_stops:
  "step_ok P s (stop_all_motors s)" "step_ok P s (stop_and_disable_all_motors ops s)"
  "step_ok P s (stop_non_sequence_motion s)"
  by (auto simp: stop_all_motors_def stop_and_disable_all_motors_def stop_non_sequence_motion_def Let_def
      intro!: step_ok_fold step_ok_intros)

lemma step_ok_writes:
  "step_ok P s (stop_all_sequences s)" "step_ok P s (set_phase_to p s)" "step_ok P s (heaters_off_override s)"
  "step_ok P s (stop_heat_test s)" "step_ok P s (close_open_loop s)" "step_ok P s (map_overrides f s)"
  "step_ok P s (set_sequence i r s)" "step_ok P s (set_transmit e on s)"
  "step_ok P s (persist_plan a b s)" "step_ok P s (set_pull_state i ps s)"
  by (rule step_ok_fields;
      simp add: stop_all_sequences_def set_phase_to_def heaters_off_override_def stop_heat_test_def close_open_loop_def
        map_overrides_def set_sequence_def set_transmit_def persist_plan_def set_pull_state_def Let_def
        split: prod.splits)+

lemmas step_ok_helper_intros [step_ok_intros] = step_ok_stops [THEN [2] step_ok_trans] step_ok_writes [THEN [2] step_ok_trans]

lemma step_ok_modes:
  "step_ok P s (snd (cmd_force_start s))" "step_ok P s (snd (cmd_force_stop s))"
  "step_ok P s (snd (cmd_heaters_off s))" "step_ok P s (snd (cmd_reset_ctrl s))"
  "step_ok P s (snd (cmd_shutdown_safe ops s))" "step_ok P s (snd (cmd_arm s))"
  "step_ok P s (snd (cmd_enter_safe s))" "step_ok P s (snd (cmd_disarm s))"
  "step_ok P s (snd (cmd_exit_safe s))" "step_ok P s (snd (cmd_arm_debug args s))"
  "step_ok P s (snd (cmd_disarm_debug s))" "step_ok P s (snd (cmd_set_phase args s))"
  "step_ok P s (snd (cmd_radio_silence e s))" "step_ok P s (snd (cmd_radio_resume e s))"
  unfolding cmd_force_start_def cmd_force_stop_def cmd_heaters_off_def cmd_reset_ctrl_def cmd_shutdown_safe_def
    cmd_arm_def cmd_exit_safe_def cmd_arm_debug_def cmd_disarm_debug_def cmd_set_phase_def
    cmd_radio_silence_def cmd_radio_resume_def cmd_enter_safe_def cmd_disarm_def
  by (auto intro!: step_ok_intros split: option.splits)

lemma step_ok_runtime:
  "step_ok P s (snd (cmd_set_tick_hz args s))" "step_ok P s (snd (cmd_set_bench_mode args s))"
  by (auto simp: cmd_set_tick_hz_def cmd_set_bench_mode_def step_ok_def flight_config_def active_lock_def
      debug_arm_held_def split: option.splits)

lemma step_ok_heat:
  "step_ok P s (snd (cmd_set_heater_duty args s))" "step_ok P s (snd (cmd_set_all_duty args s))"
  "step_ok P s (snd (cmd_heater_test e args s))" "step_ok P s (snd (cmd_set_pid args s))"
  "step_ok P s (snd (cmd_pid_tune_abort s))"
  "step_ok P s (snd (cmd_set_temp_target args s))" "step_ok P s (snd (cmd_set_all_temp_targets args s))"
  "step_ok P s (snd (cmd_clear_temp_target args s))" "step_ok P s (snd (cmd_clear_temp_targets s))"
  "step_ok P s (snd (cmd_clear_overrides s))"
  unfolding cmd_set_heater_duty_def cmd_set_all_duty_def cmd_heater_test_def cmd_set_pid_def cmd_pid_tune_abort_def
    cmd_set_temp_target_def cmd_set_all_temp_targets_def cmd_clear_temp_target_def cmd_clear_temp_targets_def
    cmd_clear_overrides_def Let_def
  by (auto intro!: step_ok_intros split: option.split)

lemma step_ok_tune: "step_ok P s (snd (cmd_pid_tune_start e args s))"
  unfolding cmd_pid_tune_start_def Let_def by (auto intro!: step_ok_intros split: option.split)

lemma step_ok_plan:
  "step_ok P s (snd (cmd_fallback_arm e s))" "step_ok P s (snd (cmd_fallback_disarm e s))"
  unfolding cmd_fallback_arm_def cmd_fallback_disarm_def Let_def
  by (auto intro!: step_ok_intros split: option.splits prod.splits)

lemma step_ok_reads [simp]:
  "snd (cmd_status ops e s) = s" "snd (cmd_components ops e s) = s" "snd (cmd_pid_tune_status e s) = s"
  "snd (cmd_get_thermal s) = s" "snd (cmd_get_layout s) = s" "snd (cmd_fallback_status s) = s"
  by (simp_all add: cmd_status_def cmd_components_def cmd_pid_tune_status_def cmd_get_thermal_def cmd_get_layout_def
      cmd_fallback_status_def Let_def)

lemma step_ok_check_motor [step_ok_intros]:
  assumes "step_ok P s u"
  shows "step_ok P s (snd (check_motor ops m u))"
proof (rule step_ok_trans [OF assms], cases "sys_stepper u")
  case (Some t)
  have "falls (Some (shared_lock t)) (Some (shared_lock (snd (ctl_active_check_motor ops m t))))"
    using falls_command [of ActiveCheck t ops m] by simp
  then show "step_ok P u (snd (check_motor ops m u))"
    by (cases "ctl_active_check_motor ops m t")
      (simp add: Some check_motor_def step_ok_def flight_config_def active_lock_def)
qed (simp add: check_motor_def)

lemma step_ok_check: "step_ok P s (snd (cmd_check ops e args s))"
  unfolding cmd_check_def Let_def by (auto simp: split_beta intro!: step_ok_intros)

subsection \<open>The motion commands\<close>

lemma outcome_sequences:
  "outcome_ok P s (cmd_bend_seq_load args s)" "outcome_ok P s (cmd_bend_seq_run ops args s)"
  "outcome_ok P s (cmd_bend_seq_pause args s)" "outcome_ok P s (cmd_bend_seq_resume ops args s)"
  "outcome_ok P s (cmd_bend_seq_stop args s)" "outcome_ok P s (cmd_bend_seq_status args s)"
  "outcome_ok P s (cmd_bend_seq_clear args s)"
  unfolding cmd_bend_seq_load_def cmd_bend_seq_run_def cmd_bend_seq_pause_def cmd_bend_seq_resume_def
    cmd_bend_seq_stop_def cmd_bend_seq_status_def cmd_bend_seq_clear_def with_sequence_def Let_def
  by (auto intro!: step_ok_intros split: option.split sum.split)

lemma outcome_settings:
  "outcome_ok P s (cmd_stepper_stop m s)" "outcome_ok P s (cmd_stepper_set_speed m args s)"
  "outcome_ok P s (cmd_stepper_set_accel m args s)" "outcome_ok P s (cmd_stepper_set_current ops m args s)"
  "outcome_ok P s (cmd_stepper_set_microstep ops m args s)" "outcome_ok P s (cmd_stepper_enable ops m s)"
  "outcome_ok P s (cmd_stepper_disable ops m s)" "outcome_ok P s (cmd_motor_debug ops e args s)"
  "outcome_ok P s (cmd_set_position_zero ops args s)" "outcome_ok P s (cmd_step_loss_ack ops args s)"
  "outcome_ok P s (cmd_fallback_plan e args s)"
  unfolding cmd_stepper_stop_def cmd_stepper_set_speed_def cmd_stepper_set_accel_def cmd_stepper_set_current_def
    cmd_stepper_set_microstep_def cmd_stepper_enable_def cmd_stepper_disable_def cmd_motor_debug_def
    cmd_set_position_zero_def cmd_step_loss_ack_def cmd_fallback_plan_def split_beta Let_def
  by (auto intro!: step_ok_intros outcome_ok_answer outcome_ok_refused split: option.split)

lemma outcome_motion:
  assumes "motion_refusal zero m s = None"
  shows "outcome_ok (motion_allowed s) s (start_motion text f s)"
proof -
  have "motion_allowed s"
    using assms by (simp add: motion_refusal_def motion_allowed_def split: if_splits)
  then show ?thesis
    using step_ok_start [of s f] by (simp add: start_motion_def outcome_ok_answer)
qed

lemma outcome_moves:
  "outcome_ok (motion_allowed s) s (cmd_stepper_move m args s)"
  "outcome_ok (motion_allowed s) s (cmd_stepper_move_to m args s)"
  "outcome_ok (motion_allowed s) s (cmd_stepper_move_mm m args s)"
  "outcome_ok (motion_allowed s) s (cmd_stepper_move_to_mm m args s)"
  "outcome_ok (motion_allowed s) s (cmd_stepper_rotate m args s)"
  "outcome_ok (motion_allowed s) s (cmd_stepper_home m s)"
  "outcome_ok (motion_allowed s) s (cmd_pull ops text m s)"
  unfolding cmd_stepper_move_def cmd_stepper_move_to_def cmd_stepper_move_mm_def cmd_stepper_move_to_mm_def
    cmd_stepper_rotate_def cmd_stepper_home_def cmd_pull_def Let_def
  by (auto intro!: outcome_motion split: option.split)

text \<open>The commands that ask a motor to move.\<close>

definition is_motion_command :: "command_type \<Rightarrow> bool" where
  "is_motion_command t \<longleftrightarrow>
     t \<in> {KStepperMove, KStepperMoveTo, KStepperBend, KStepperMoveMm, KStepperMoveToMm, KStepperRotate, KStepperHome,
          KPullArm, KPullExecute}"

lemma outcome_command:
  "outcome_ok (is_motion_command (cmd_type c) \<and> motion_allowed s) s (run_command ops e c s)"
proof (cases "is_motion_command (cmd_type c)")
  case True
  then show ?thesis
    using outcome_moves [of s] by (auto simp: is_motion_command_def run_command_def Let_def)
next
  case False
  then show ?thesis
    by (cases "cmd_type c")
      (simp_all add: is_motion_command_def run_command_def Let_def step_ok_modes step_ok_runtime step_ok_heat
        step_ok_tune step_ok_plan step_ok_check outcome_sequences outcome_settings outcome_okI)
qed

subsection \<open>The control loop\<close>

lemma step_ok_link [step_ok_intros]:
  assumes "step_ok P s u"
  shows "step_ok P s (apply_reset ov u)" "step_ok P s (tick_link dt u)" "step_ok P s (tick_phase_update e ov u)"
    "step_ok P s (snd (take_overrides u))"
proof -
  have "step_ok P u (apply_reset ov u)"
    by (rule step_ok_fields) (simp_all add: apply_reset_def hs_reset_def Let_def)
  with assms show "step_ok P s (apply_reset ov u)" by (rule step_ok_trans)
qed (use assms in \<open>auto simp: tick_link_def account_outage_def tick_phase_update_def take_overrides_def Let_def
      intro!: step_ok_intros\<close>)

lemma compute_length: "length (fst (compute_requested_duty ph sensors dt ov t)) = tc_heaters t"
proof (cases rule: compute_cases [of ph sensors dt ov t])
  case (control u duty)
  have "tc_config u = tc_config t"
    using tc_control_frame(1) [of ph sensors dt ov "(tc_start ph sensors ov t, replicate (tc_heaters t) 0)"]
    by (simp add: control(2) [symmetric])
  then show ?thesis by (simp add: control(1))
qed simp_all

lemma compute_off: "heaters_off ov \<Longrightarrow> fst (compute_requested_duty ph sensors dt ov t) = replicate (tc_heaters t) 0"
  by (simp add: compute_requested_duty_def Let_def tc_latch_def)

lemma tick_tuner_writes:
  "snd (tick_tuner e ov requested s) =
     s\<lparr>sys_tuner := sys_tuner (snd (tick_tuner e ov requested s)),
       tune_commanded_duty := tune_commanded_duty (snd (tick_tuner e ov requested s)),
       tune_result_logged := tune_result_logged (snd (tick_tuner e ov requested s))\<rparr>"
  by (simp add: tick_tuner_def Let_def split_beta)

lemma tick_tuner_length: "length (fst (fst (tick_tuner e ov requested s))) = length requested"
  by (simp add: tick_tuner_def Let_def split_beta)

lemma tick_tuner_frame [simp]:
  "sys_stepper (snd (tick_tuner e ov requested s)) = sys_stepper s"
  "sys_pwm (snd (tick_tuner e ov requested s)) = sys_pwm s" "sys_cfg (snd (tick_tuner e ov requested s)) = sys_cfg s"
  "sys_mode (snd (tick_tuner e ov requested s)) = sys_mode s"
  "sys_thermal (snd (tick_tuner e ov requested s)) = sys_thermal s"
  "sys_debug_armed (snd (tick_tuner e ov requested s)) = sys_debug_armed s"
  "sys_scheduler (snd (tick_tuner e ov requested s)) = sys_scheduler s"
  "sys_test (snd (tick_tuner e ov requested s)) = sys_test s"
  by (subst tick_tuner_writes, simp)+

lemma heater_test_frame [simp]:
  "sys_stepper (snd (tick_heater_test e requested s)) = sys_stepper s"
  "sys_pwm (snd (tick_heater_test e requested s)) = sys_pwm s"
  "sys_cfg (snd (tick_heater_test e requested s)) = sys_cfg s"
  "sys_mode (snd (tick_heater_test e requested s)) = sys_mode s"
  "sys_thermal (snd (tick_heater_test e requested s)) = sys_thermal s"
  "sys_debug_armed (snd (tick_heater_test e requested s)) = sys_debug_armed s"
  "sys_scheduler (snd (tick_heater_test e requested s)) = sys_scheduler s"
  "length (fst (fst (tick_heater_test e requested s))) = length requested"
  by (simp_all add: tick_heater_test_def Let_def stop_heat_test_def)

lemma no_open_loop: "\<not> bench_mode (sc_runtime (sys_cfg s)) \<Longrightarrow> \<not> bench_open_loop ov s"
  by (simp add: bench_open_loop_def debug_arm_held_def)

lemma tick_heat_frame [simp]:
  "sys_stepper (snd (tick_heat e dt ov s)) = sys_stepper s" "sys_pwm (snd (tick_heat e dt ov s)) = sys_pwm s"
  "sys_cfg (snd (tick_heat e dt ov s)) = sys_cfg s" "sys_mode (snd (tick_heat e dt ov s)) = sys_mode s"
  "tc_config (sys_thermal (snd (tick_heat e dt ov s))) = tc_config (sys_thermal s)"
  "hs_power (sys_scheduler (snd (tick_heat e dt ov s))) = hs_power (sys_scheduler s)"
  by (simp_all add: tick_heat_def Let_def split_beta split: option.split)

text \<open>In the flight configuration the duties of a tick are what the scheduler grants of as many requests as there
  are heaters.\<close>

lemma tick_heat_scheduled:
  assumes "\<not> bench_mode (sc_runtime (sys_cfg s))"
  shows "\<exists>requested dep sch. length requested = tc_heaters (sys_thermal s) \<and>
    hs_power sch = hs_power (sys_scheduler s) \<and>
    fst (fst (tick_heat e dt ov s)) = fst (hs_schedule (active_lock s) requested dep dt sch)"
proof -
  note no_open_loop [simp] assms [simp]
  show ?thesis
    unfolding tick_heat_def
    by (simp add: Let_def split_beta active_lock_def)
      (intro exI conjI [rotated], rule refl, simp_all add: tick_tuner_length compute_length)
qed

end
