(* ===== verification/SystemRuns.thy ===== *)
theory SystemRuns
  imports HeaterInterlock
begin

text \<open>
  Runs of the whole program: the two halves of a pass of the control loop, the command lines, the pulse threads and
  the heater lines take steps in any order.  Two invariants of every run: heat and motion exclude each other,
  and only the operator's commands in RUN mode, the fallback planner or a running sequence start a motion.
\<close>

subsection \<open>The motors' half of the pass\<close>

lemma step_ok_start_intro [step_ok_intros]:
  "step_ok True s u \<Longrightarrow> step_ok True s (snd (on_stepper f (inhibit_heaters u)))"
  by (erule step_ok_trans) (rule step_ok_start)

lemma step_ok_plan_bend [step_ok_intros]:
  assumes "step_ok True s u"
  shows "step_ok True s (snd (start_plan_bend a u))"
  using assms unfolding start_plan_bend_def Let_def
  by (auto simp: split_beta intro!: step_ok_intros split: option.split)

lemma step_ok_landed [step_ok_intros]: "step_ok P s u \<Longrightarrow> step_ok P s (apply_landed_safing ops u)"
  unfolding apply_landed_safing_def by (intro step_ok_intros)

lemma step_ok_tick_plan [step_ok_intros]:
  assumes "step_ok True s u"
  shows "step_ok True s (tick_fallback_plan ops e u)"
  using assms unfolding tick_fallback_plan_def Let_def
  by (auto simp: split_beta intro!: step_ok_intros split: option.split)

lemma step_ok_sequence_step [step_ok_intros]:
  assumes "step_ok True s u"
  shows "step_ok True s (start_sequence_step i step r u)"
  using assms unfolding start_sequence_step_def Let_def
  by (auto simp: split_beta intro!: step_ok_intros split: option.split)

lemma step_ok_tick_sequence: "step_ok True s (tick_sequence ops i s)"
  unfolding tick_sequence_def Let_def by (auto intro!: step_ok_intros split: option.split)

lemma step_ok_tick_sequences [step_ok_intros]:
  assumes "step_ok True s u"
  shows "step_ok True s (tick_bend_sequences ops u)"
  by (rule step_ok_trans [OF assms])
    (simp add: tick_bend_sequences_def step_ok_fold step_ok_tick_sequence)

lemma step_ok_pause: "step_ok P s (pause_on_fault ops i s)"
  unfolding pause_on_fault_def Let_def by (auto intro!: step_ok_intros)

lemma step_ok_tick_motors: "step_ok True s (tick_motors ops e dt s)"
proof -
  define u where "u = tick_bend_sequences ops (tick_fallback_plan ops e s)"
  define v where "v = snd (on_stepper (\<lambda>t. (None, ctl_tick ops (env_channel_now e) dt t)) u)"
  have "step_ok True s v" unfolding v_def u_def by (intro step_ok_intros step_ok_refl)
  then have "step_ok True s (fold (pause_on_fault ops) [0..<length (sequences v)] v)"
    by (rule step_ok_trans) (auto intro: step_ok_fold step_ok_pause)
  with \<open>step_ok True s v\<close> show ?thesis
    by (simp add: tick_motors_def Let_def u_def [symmetric] v_def [symmetric])
qed

subsection \<open>The heaters' half of the pass\<close>

lemma tick_control_writes:
  "\<exists>u. step_ok False s u \<and> (\<exists>dt ov. tick_control e s = tick_heat e dt ov u)"
proof -
  obtain sov cov u0 where t: "take_overrides s = ((sov, cov), u0)" by (metis prod.exhaust)
  have u0: "step_ok False s u0" using step_ok_link(4) [OF step_ok_refl [of False s]] by (simp add: t)
  have "step_ok False s (tick_phase_update e sov (tick_link (tick_seconds s) (apply_reset sov u0)
      \<lparr>last_temps := env_temps e\<rparr>))"
    using u0 by (intro step_ok_intros)
  then show ?thesis by (auto simp: tick_control_def t Let_def)
qed

text \<open>The duties that reach the outputs while a motor holds the lock are all zero.\<close>

definition interlocked :: "'d system \<Rightarrow> bool" where
  "interlocked s \<longleftrightarrow> flight_config s \<and> (motion_active s \<longrightarrow> heaters_dark s)"

definition tick_heaters :: "tick_env \<Rightarrow> 'd system \<Rightarrow> 'd system" where
  "tick_heaters e s = (let ((duties, tune), s) = tick_control e s in set_duties duties s)"

lemma falls_active: "falls l l' \<Longrightarrow> (\<exists>a. l' = Some a \<and> lock_active a) \<Longrightarrow> \<exists>a. l = Some a \<and> lock_active a"
  by (auto simp: falls_def lock_active_iff)

lemma motion_active_iff: "motion_active s \<longleftrightarrow> (\<exists>a. active_lock s = Some a \<and> lock_active a)"
  by (auto simp: motion_active_def lock_active_iff split: option.split)

lemma interlocked_step_ok:
  assumes "interlocked s" "step_ok P s s'"
  shows "interlocked s'"
proof -
  have "flight_config s" using assms(1) by (simp add: interlocked_def)
  with assms(2) have f: "flight_config s'"
    and s': "falls (active_lock s) (active_lock s') \<and> sys_pwm s' = sys_pwm s \<or> heaters_dark s'"
    by (auto simp: step_ok_def)
  from s' assms(1) have "motion_active s' \<longrightarrow> heaters_dark s'"
    using falls_active [of "active_lock s" "active_lock s'"]
    by (auto simp: interlocked_def motion_active_iff heaters_dark_def)
  with f show ?thesis by (simp add: interlocked_def)
qed

lemma interlocked_heaters:
  assumes "interlocked s"
  shows "interlocked (tick_heaters e s)"
proof -
  obtain u dt ov where u: "step_ok False s u" and t: "tick_control e s = tick_heat e dt ov u"
    using tick_control_writes by metis
  have fu: "flight_config u" using interlocked_step_ok [OF assms u] by (simp add: interlocked_def)
  then obtain requested dep sch where len: "length requested = heaters_of u"
    and d: "fst (fst (tick_heat e dt ov u)) = fst (hs_schedule (active_lock u) requested dep dt sch)"
    using tick_heat_scheduled [of u e dt ov] by (auto simp: flight_config_def)
  define v where "v = snd (tick_heat e dt ov u)"
  define ds where "ds = fst (fst (tick_heat e dt ov u))"
  have eq: "tick_heaters e s = set_duties ds v"
    by (simp add: tick_heaters_def t split_beta ds_def v_def)
  have fv: "flight_config v" and lock: "active_lock v = active_lock u"
    using fu by (simp_all add: v_def flight_config_def active_lock_def)
  have "flight_config (set_duties ds v)"
    using fv by (simp add: set_duties_def flight_config_def fold_duties)
  moreover have "heaters_dark (set_duties ds v)" if active: "motion_active (set_duties ds v)"
  proof -
    from active obtain a where "active_lock u = Some a" "lock_active a"
      by (auto simp: motion_active_iff set_duties_def lock [unfolded active_lock_def] active_lock_def)
    then have "ds = replicate (heaters_of u) 0"
      unfolding ds_def d by (simp add: hs_schedule_inhibited len)
    moreover have "heaters_of u = heaters_of v" by (simp add: v_def)
    ultimately show ?thesis
      using fv by (auto simp: heaters_dark_def set_duties_def fold_duties flight_config_def pwm_channel_healthy_def)
  qed
  ultimately show ?thesis by (simp add: eq interlocked_def)
qed

subsection \<open>The steps of the program\<close>

text \<open>The bookkeeping that ends a pass: the record's number, the link's report and the pull events.\<close>

definition tick_end :: "'d driver_ops \<Rightarrow> tick_env \<Rightarrow> tick_report \<Rightarrow> 'd system \<Rightarrow> pull_event list \<times> 'd system" where
  "tick_end ops e report s =
     (let s = s\<lparr>next_seq := next_seq s + 1, last_link_ok := env_link_ok e\<rparr>;
          (events, s) = tick_pulls (env_timestamp e) (map mr_status (rep_motors report)) s
      in (events, if rep_phase report = Stopped then s\<lparr>sys_running := False\<rparr> else s))"

inductive sys_step :: "'d driver_ops \<Rightarrow> 'd system \<Rightarrow> 'd system \<Rightarrow> bool" for ops where
  Heaters: "sys_step ops s (tick_heaters e s)"
| Motors: "sys_step ops s (tick_motors ops e dt s)"
| Ending: "sys_step ops s (snd (tick_end ops e report s))"
| Command_Line: "handle_command_line ops ce line s = Some (text, s') \<Longrightarrow> sys_step ops s s'"
| Pulse: "sys_step ops s (snd (on_stepper (\<lambda>t. (None, ctl_pulse_round ops m dt t)) s))"
| Line_Write: "sys_step ops s (s\<lparr>sys_pwm := snd (pwm_write_line written i (sys_pwm s))\<rparr>)"
| Line_Retry: "\<not> motion_active s \<Longrightarrow> sys_step ops s (s\<lparr>sys_pwm := pwm_retry_missing granted (sys_pwm s)\<rparr>)"

text \<open>A pass of the control loop is three of these steps.\<close>

lemma system_tick_steps:
  "(sys_step ops)\<^sup>*\<^sup>* s (snd (system_tick ops e s))"
proof -
  define u where "u = tick_heaters e s"
  define v where "v = tick_motors ops e (tick_seconds s) u"
  obtain report where "snd (system_tick ops e s) = snd (tick_end ops e report v)"
    by (simp add: system_tick_def tick_end_def v_def u_def tick_heaters_def split_beta Let_def)
  moreover have "sys_step ops s u" "sys_step ops u v" "sys_step ops v (snd (tick_end ops e report v))"
    by (auto simp: u_def v_def intro: sys_step.intros)
  ultimately show ?thesis by (metis converse_rtranclp_into_rtranclp r_into_rtranclp)
qed

subsection \<open>Every run\<close>

lemma interlocked_fields:
  assumes "interlocked s" "active_lock s' = active_lock s" "sys_cfg s' = sys_cfg s"
    "tc_config (sys_thermal s') = tc_config (sys_thermal s)" "sys_pwm s' = sys_pwm s"
  shows "interlocked s'"
  using assms by (simp add: interlocked_def flight_config_def heaters_dark_def motion_active_def)

lemma detect_pulls_frame:
  "sys_stepper (snd (detect_pulls ts i sts s)) = sys_stepper s \<and> sys_cfg (snd (detect_pulls ts i sts s)) = sys_cfg s \<and>
   sys_thermal (snd (detect_pulls ts i sts s)) = sys_thermal s \<and> sys_pwm (snd (detect_pulls ts i sts s)) = sys_pwm s"
proof (induction ts i sts s rule: detect_pulls.induct)
  case (2 ts i st sts s)
  have "sys_stepper (snd (detect_pull ts i st s)) = sys_stepper s \<and> sys_cfg (snd (detect_pull ts i st s)) = sys_cfg s \<and>
      sys_thermal (snd (detect_pull ts i st s)) = sys_thermal s \<and> sys_pwm (snd (detect_pull ts i st s)) = sys_pwm s"
    by (simp add: detect_pull_def set_pull_state_def Let_def)
  with 2 show ?case by (cases "detect_pull ts i st s") (simp add: split_beta)
qed simp

lemma interlocked_end: "interlocked s \<Longrightarrow> interlocked (snd (tick_end ops e report s))"
  by (erule interlocked_fields)
    (simp_all add: tick_end_def tick_pulls_def resize_pulls_def active_lock_def split_beta detect_pulls_frame Let_def)

lemma interlocked_write:
  assumes "interlocked s"
  shows "interlocked (s\<lparr>sys_pwm := snd (pwm_write_line written i (sys_pwm s))\<rparr>)"
  using assms
  by (auto simp: interlocked_def flight_config_def heaters_dark_def motion_active_def active_lock_def
      pwm_write_line_def pwm_channel_healthy_def nth_list_update split: if_splits)

lemma interlocked_retry:
  "\<not> motion_active s \<Longrightarrow> interlocked s \<Longrightarrow> interlocked (s\<lparr>sys_pwm := pwm_retry_missing granted (sys_pwm s)\<rparr>)"
  by (simp add: interlocked_def flight_config_def motion_active_def active_lock_def pwm_retry_missing_def Let_def)

lemma interlocked_step: "sys_step ops s s' \<Longrightarrow> interlocked s \<Longrightarrow> interlocked s'"
proof (induction rule: sys_step.induct)
  case (Command_Line ce line s r s')
  then show ?case
    using outcome_command [of _ s ops ce]
    by (auto simp: handle_command_line_def gate_command_def outcome_ok_def refused_def
        split: sum.splits if_splits intro: interlocked_step_ok)
qed (blast intro: interlocked_heaters interlocked_end interlocked_write interlocked_retry interlocked_step_ok
    step_ok_tick_motors step_ok_calls)+

lemma interlocked_run: "(sys_step ops)\<^sup>*\<^sup>* s s' \<Longrightarrow> interlocked s \<Longrightarrow> interlocked s'"
  by (induction rule: rtranclp_induct) (auto intro: interlocked_step)

definition fresh_heaters :: "nat \<Rightarrow> pwm_bank \<Rightarrow> bool" where
  "fresh_heaters n b \<longleftrightarrow> b = new_simulated_pwm n \<or> (\<exists>output_lines granted. b = new_gpio_pwm n output_lines granted)"

lemma interlocked_start:
  assumes "initialize_system ops b drivers (new_system cfg silent plan) = Inr s"
    and "fresh_heaters (heater_count (oc_hardware (sc_onboard cfg))) b" and "\<not> bench_mode (sc_runtime cfg)"
  shows "interlocked s"
  using assms
  by (auto simp: initialize_system_def new_controller_def new_system_def Let_def interlocked_def flight_config_def
      fresh_heaters_def new_simulated_pwm_def new_gpio_pwm_def new_thermal_controller_def motion_active_def
      active_lock_def new_motion_lock_def lock_holder_def split: if_splits)

end
