(* ===== verification/SystemProperties.thy ===== *)
theory SystemProperties
  imports SystemRuns
begin

text \<open>
  What the operator and the samples can rely on, over every run of the program: the heaters are off while a motor
  moves, a motion starts only when it may, a radio silence keeps every other command out; and two places where the
  program does less than it means to.
\<close>

subsection \<open>An example: two simulated motors, armed and moving\<close>

definition example_system_config :: system_config where
  "example_system_config =
     \<lparr>sc_runtime = \<lparr>bench_mode = False, debug_arm_code = ''COATHEAL'', tick_hz = 1\<rparr>, sc_simulated = True,
      sc_manual = \<lparr>manual_first = True, link_loss_fallback_enabled = True, link_loss_fallback_s = Fin 300\<rparr>,
      sc_fallback = \<lparr>fb_bend_min_c = Fin 15, fb_bend_max_c = Fin 40, fb_bend_deadline_s = Fin 1800, landed_safe = True\<rparr>,
      sc_onboard = onboard_default, sc_power = power_default, sc_transition = transition_default,
      sc_motion = \<lparr>mo_steps_per_rev = 200, mo_default_step_hz = Fin 100, mo_max_position_steps = 200000,
        mo_enable_on_boot = False, mo_lead_mm_per_rev = Fin 1, max_speed_mm_s = Fin (1 / 2), max_direct_usteps = 1000,
        mo_max_accel = Fin 5000\<rparr>,
      sc_pull = \<lparr>pull_max_step_hz = Fin 100, pull_accel = Fin 400, pull_microstep = 4, pull_travel = 400, pull_hold = Fin 5\<rparr>,
      sc_layout = \<lparr>max31865_samples = [0, 4], sequent_rtd_channels = [0..<8]\<rparr>,
      sc_motors = [\<lparr>motor_accel = 0, motor_retry_ms = 2000, motor_samples = [0, 1, 2, 3]\<rparr>,
        \<lparr>motor_accel = 0, motor_retry_ms = 2000, motor_samples = [4, 5, 6, 7]\<rparr>]\<rparr>"

definition example_env :: command_env where
  "example_env =
     \<lparr>ce_now = 0, ce_plan_opens = True, ce_plan_written = True, ce_flag_done = True,
      ce_storage_check = (True, []), ce_sensor_check = (\<lambda>_. (True, [])), ce_sensor_summary = [], ce_debug_registers = (\<lambda>_. []),
      ce_connected = True, ce_target = [], ce_codec = [], ce_link_cap = [], ce_queue_depth = 0, ce_window = 0, ce_share = 0,
      ce_ack_timeouts = 0, ce_tokens = 0, ce_burst = 0, ce_simulated = True, ce_i2c_ok = True, ce_sample_temp_ok = True\<rparr>"


definition example_motors :: "simulated_driver stepper_controller" where
  "example_motors =
     \<lparr>shared_lock = new_motion_lock,
      channels = map (\<lambda>i. new_channel simulated_ops (motor_channel_config example_system_config i)
        (Some new_simulated_driver) (Some new_motion_lock)) [0, 1]\<rparr>"

definition example_start :: "simulated_driver system" where
  "example_start = (new_system example_system_config False None)
     \<lparr>sys_pwm := new_simulated_pwm 6, sys_stepper := Some example_motors, pull_states := [no_pull, no_pull]\<rparr>"

lemma example_initialize:
  "initialize_system simulated_ops (new_simulated_pwm 6) [Some new_simulated_driver, Some new_simulated_driver]
     (new_system example_system_config False None) = Inr example_start"
  by (simp add: initialize_system_def new_controller_def example_start_def example_motors_def new_system_def Let_def
      example_system_config_def numeral_2_eq_2 upt_rec)

lemma example_channel:
  "\<exists>c c'. channels example_motors = [c, c'] \<and> channel_id (ch_cfg c) = 0 \<and> \<not> enabled c \<and> position c = 0 \<and> target c = 0 \<and> \<not> lock_held c \<and>
    max_position_steps (ch_cfg c) = 200000 \<and> (\<exists>d. ch_driver c = Some d)"
  by (simp add: example_motors_def new_channel_fields motor_channel_config_def example_system_config_def Let_def new_channel_def split_beta)

lemma example_enable:
  assumes "sys_stepper s = Some example_motors"
  shows "\<exists>t c c'. on_stepper (ctl_set_enabled simulated_ops 0 True) s = (None, s\<lparr>sys_stepper := Some t\<rparr>) \<and>
    shared_lock t = new_motion_lock \<and> channels t = [c, c'] \<and> channel_id (ch_cfg c) = 0 \<and> enabled c \<and>
    position c = 0 \<and> target c = 0 \<and> \<not> lock_held c \<and> max_position_steps (ch_cfg c) = 200000"
proof -
  obtain c c' d where c: "channels example_motors = [c, c']" "channel_id (ch_cfg c) = 0" "\<not> enabled c" "position c = 0"
    "target c = 0" "\<not> lock_held c" "max_position_steps (ch_cfg c) = 200000" "ch_driver c = Some d"
    using example_channel by blast
  have "shared_lock example_motors = new_motion_lock" by (simp add: example_motors_def)
  with assms c show ?thesis
    by (simp add: on_stepper_def ctl_set_enabled_def on_motor_def call_channel_def Let_def lend_def set_enabled_def
        simulated_ops_def sim_enable_def split_beta) (rule exI, rule conjI, rule refl, simp)
qed

lemma example_move:
  assumes "sys_stepper s = Some t" "shared_lock t = new_motion_lock" "channels t = [c, c']"
    "channel_id (ch_cfg c) = 0" "enabled c" "position c = 0" "target c = 0" "\<not> lock_held c"
    "max_position_steps (ch_cfg c) = 200000"
  shows "\<exists>t. on_stepper (ctl_move_steps 0 100) s = (None, s\<lparr>sys_stepper := Some t\<rparr>) \<and> lock_holder (shared_lock t) = 0"
  using assms
  by (simp add: on_stepper_def ctl_move_steps_def on_motor_def call_channel_def Let_def lend_def move_steps_def
      acquire_lock_for_motion_def try_acquire_def lock_holder_def new_motion_lock_def)
    (rule exI, rule conjI, rule refl, simp)

lemma example_lines:
  "parse_command_line 2 ''ARM'' = Inr \<lparr>cmd_type = KArm, cmd_name = ''ARM'', cmd_args = [], is_extended = False, motor_id = 0\<rparr>"
  "parse_command_line 2 ''STEPPER_ENABLE 0'' =
     Inr \<lparr>cmd_type = KStepperEnable, cmd_name = ''STEPPER_ENABLE'', cmd_args = [], is_extended = False, motor_id = 0\<rparr>"
  "parse_command_line 2 ''STEPPER_MOVE 0 100'' =
     Inr \<lparr>cmd_type = KStepperMove, cmd_name = ''STEPPER_MOVE'', cmd_args = [''100''], is_extended = False, motor_id = 0\<rparr>"
  "parse_int64 ''100'' = Some 100"
  subgoal by code_simp
  subgoal by code_simp
  subgoal by code_simp
  subgoal by code_simp
  done

lemma example_dispatch:
  "cmd_type c = KArm \<Longrightarrow> run_command ops e c s = Some (cmd_arm s)"
  "cmd_type c = KStepperEnable \<Longrightarrow> run_command ops e c s = cmd_stepper_enable ops (int (motor_id c)) s"
  "cmd_type c = KStepperMove \<Longrightarrow> run_command ops e c s = cmd_stepper_move (int (motor_id c)) (cmd_args c) s"
  by (simp_all add: run_command_def)

text \<open>A motor that starts: ARM, enable, move.\<close>

lemma example_run:
  "\<exists>s r s'. (sys_step simulated_ops)\<^sup>*\<^sup>* example_start s \<and> flight_config s \<and> \<not> motion_active s \<and>
     handle_command_line simulated_ops example_env ''STEPPER_MOVE 0 100'' s = Some (r, s') \<and>
     motion_active s' \<and> pwm_channel_healthy 0 (sys_pwm s')"
proof -
  let ?line = "handle_command_line simulated_ops example_env"
  note run = handle_command_line_def example_lines gate_command_def example_dispatch Let_def
  have start: "sys_mode example_start = Standby" "transmit_enabled example_start" "\<not> fallback_on example_start"
    "sys_stepper example_start = Some example_motors" "sys_cfg example_start = example_system_config"
    "sys_pwm example_start = new_simulated_pwm 6"
    by (simp_all add: example_start_def new_system_def Let_def)
  define s1 where "s1 = example_start\<lparr>sys_mode := Run\<rparr>"
  have s1: "sys_mode s1 = Run" "transmit_enabled s1" "\<not> fallback_on s1" "sys_stepper s1 = Some example_motors"
    by (simp_all add: s1_def start)
  have 1: "\<exists>text. ?line ''ARM'' example_start = Some (text, s1)"
    by (simp add: run cmd_arm_def start s1_def)
  obtain t c c' where t: "on_stepper (ctl_set_enabled simulated_ops 0 True) s1 = (None, s1\<lparr>sys_stepper := Some t\<rparr>)"
    "shared_lock t = new_motion_lock" "channels t = [c, c']" "channel_id (ch_cfg c) = 0" "enabled c"
    "position c = 0" "target c = 0" "\<not> lock_held c" "max_position_steps (ch_cfg c) = 200000"
    using example_enable [of s1] s1 by blast
  define s2 where "s2 = s1\<lparr>sys_stepper := Some t\<rparr>"
  have 2: "\<exists>text. ?line ''STEPPER_ENABLE 0'' s1 = Some (text, s2)"
    using s1 by (simp add: run cmd_stepper_enable_def answer_def t s2_def)
  obtain t' where t': "on_stepper (ctl_move_steps 0 100) (inhibit_heaters s2) =
      (None, inhibit_heaters s2\<lparr>sys_stepper := Some t'\<rparr>)" "lock_holder (shared_lock t') = 0"
    using example_move [of "inhibit_heaters s2" t c c'] t by (auto simp: inhibit_heaters_def s2_def)
  define s3 where "s3 = inhibit_heaters s2\<lparr>sys_stepper := Some t'\<rparr>"
  have s2: "sys_mode s2 = Run" "transmit_enabled s2" "\<not> fallback_on s2" "sys_stepper s2 = Some t"
    "sys_cfg s2 = example_system_config" "sys_pwm s2 = new_simulated_pwm 6" "sys_thermal s2 = sys_thermal example_start"
    by (simp_all add: s2_def s1_def start)
  have 3: "\<exists>text. ?line ''STEPPER_MOVE 0 100'' s2 = Some (text, s3)"
    by (simp add: run cmd_stepper_move_def abs_int64_def motion_refusal_def start_motion_def answer_def t' s3_def s2)
      (simp add: example_system_config_def)
  have "flight_config s2"
    by (simp add: flight_config_def s2 new_simulated_pwm_def example_start_def new_system_def Let_def
        new_thermal_controller_def example_system_config_def onboard_default_def hardware_default_def)
  moreover have "(sys_step simulated_ops)\<^sup>*\<^sup>* example_start s2"
  proof -
    obtain r r' where "?line ''ARM'' example_start = Some (r, s1)" "?line ''STEPPER_ENABLE 0'' s1 = Some (r', s2)"
      using 1 2 by blast
    then have "sys_step simulated_ops example_start s1" "sys_step simulated_ops s1 s2"
      by (auto intro: sys_step.Command_Line)
    then show ?thesis by (rule converse_rtranclp_into_rtranclp [OF _ r_into_rtranclp])
  qed
  moreover have "\<not> motion_active s2" "motion_active s3"
    using t'(2) by (simp_all add: motion_active_def active_lock_def s2 s3_def t lock_holder_def new_motion_lock_def)
  moreover have "pwm_channel_healthy 0 (sys_pwm s3)"
    by (simp add: s3_def inhibit_heaters_def s2 fold_duties pwm_channel_healthy_def new_simulated_pwm_def)
  ultimately show ?thesis using 3 by blast
qed


subsection \<open>Heat and motion\<close>



text \<open>C2. What may start a motion by command.  When a command line makes the motion lock held, the line is one of the
  motion commands (move, bend, rotate, home, pull), the controller was in RUN mode, outside the link-loss fallback and not
  under a radio silence, and every heater line that answers is at duty zero when the handler returns.\<close>

theorem command_takes_lock:
  assumes "handle_command_line ops e line s = Some (r, s')" and "\<not> motion_active s" and "motion_active s'"
    and "flight_config s"
  shows "\<exists>c. parse_command_line 2 line = Inr c \<and> is_motion_command (cmd_type c) \<and> sys_mode s = Run \<and>
    \<not> fallback_on s \<and> transmit_enabled s \<and> heaters_dark s'"
proof -
  obtain c rep where c: "parse_command_line 2 line = Inr c" "gate_command ops e c s = Some (rep, s')"
    using assms(1-3) by (auto simp: handle_command_line_def split: sum.splits)
  then have run: "run_command ops e c s = Some (rep, s')" "transmit_enabled s \<or> silence_passes (cmd_type c)"
    using assms(2,3) by (auto simp: gate_command_def refused_def split: if_splits)
  then have "step_ok (is_motion_command (cmd_type c) \<and> motion_allowed s) s s'"
    using outcome_command [of c s ops e] by (simp add: outcome_ok_def)
  then have "is_motion_command (cmd_type c) \<and> motion_allowed s \<and> heaters_dark s'"
    using assms(2-4) falls_active [of "active_lock s" "active_lock s'"] by (auto simp: step_ok_def motion_active_iff)
  then show ?thesis
    using c(1) run(2) by (auto simp: motion_allowed_def is_motion_command_def silence_passes_def)
qed

theorem command_takes_lock_witness:
  "\<exists>s r s'. handle_command_line simulated_ops example_env ''STEPPER_MOVE 0 100'' s = Some (r, s') \<and> \<not> motion_active s \<and>
     motion_active s' \<and> sys_mode s = Run \<and> heaters_dark s'"
proof -
  obtain s r s' where s: "flight_config s" "\<not> motion_active s" "motion_active s'"
    "handle_command_line simulated_ops example_env ''STEPPER_MOVE 0 100'' s = Some (r, s')"
    using example_run by blast
  from command_takes_lock [OF s(4) s(2,3,1)] s show ?thesis by blast
qed

subsection \<open>Radio silence\<close>

text \<open>C29. A radio silence is kept.  While transmission is off, a command line other than RADIO_RESUME leaves
  transmission off; and other than a repeated RADIO_SILENCE it leaves the whole state as it is, whatever
  it asks for (STATUS and PING only read).\<close>

theorem silence_kept:
  assumes "handle_command_line ops e line s = Some (r, s')" and "\<not> transmit_enabled s"
    and "\<And>c. parse_command_line 2 line = Inr c \<Longrightarrow> cmd_type c \<noteq> KRadioResume"
  shows "\<not> transmit_enabled s' \<and>
    (s' = s \<or> (\<exists>c. parse_command_line 2 line = Inr c \<and> cmd_type c = KRadioSilence \<and>
       s' = s\<lparr>silence_flag := silence_flag s \<or> ce_flag_done e\<rparr>))"
proof (cases "parse_command_line 2 line")
  case (Inr c)
  then obtain rep where "gate_command ops e c s = Some (rep, s')"
    using assms(1) by (auto simp: handle_command_line_def)
  with assms(2) assms(3) [OF Inr] Inr show ?thesis
    by (auto simp: gate_command_def refused_def silence_passes_def run_command_def Let_def cmd_radio_silence_def
        set_transmit_def cmd_status_def split: if_splits)
qed (use assms(1,2) in \<open>simp add: handle_command_line_def\<close>)

theorem silence_kept_witness:
  "\<not> transmit_enabled (snd (the (handle_command_line simulated_ops example_env ''ARM''
     (example_start\<lparr>transmit_enabled := False\<rparr>))))"
proof -
  let ?s = "example_start\<lparr>transmit_enabled := False\<rparr>"
  obtain r s' where l: "handle_command_line simulated_ops example_env ''ARM'' ?s = Some (r, s')"
    by (simp add: handle_command_line_def example_lines gate_command_def silence_passes_def refused_def)
  have "\<not> transmit_enabled s'"
    using silence_kept [OF l] by (simp add: example_lines)
  with l show ?thesis by simp
qed

subsection \<open>DISARM and the bend sequences\<close>

text \<open>C30. A DISARM during a hold does not end the sequence.  When motor 0 holds at the target of a step that is not
  the last, a DISARM stops the motor and leaves RUN mode, but the sequence is still running: the next pass of the
  control loop starts the next step, in STANDBY.\<close>

theorem disarm_lets_sequence_move:
  assumes "sys_mode s = Run" "sys_stepper s = Some t" "channels t = [c, c']"
    "channel_id (ch_cfg c) = 0" "channel_id (ch_cfg c') = 1" "enabled c" "lock_held c" "lock_holder (shared_lock t) = 0"
    "\<not> lock_held c'" "sequences s = r # rs" "seq_running r" "\<not> seq_paused r" "step_queued r"
    "definitions r (active_name r) = Some d" "step_index r + 1 < length (def_steps d)"
    "position c = step_target (def_steps d ! step_index r)" "def_steps d ! (step_index r + 1) = next"
    "step_speed next = None" "\<not> step_hold_s next < 0" "\<bar>step_target next\<bar> \<le> max_position_steps (ch_cfg c)"
    "step_target next \<noteq> position c"
  shows "let s' = tick_sequence ops 0 (snd (cmd_disarm s)) in
    sys_mode s' = Standby \<and> motion_active s' \<and> seq_running (sequences s' ! 0) \<and> \<not> seq_paused (sequences s' ! 0) \<and>
    (\<exists>t'. sys_stepper s' = Some t' \<and> mode (channels t' ! 0) = Moving \<and> target (channels t' ! 0) = step_target next)"
proof -
  define c1 where "c1 = stop_motion (c\<lparr>ch_lock := Some (shared_lock t)\<rparr>)"
  have c1: "ch_cfg c1 = ch_cfg c" "position c1 = position c" "enabled c1" "\<not> lock_held c1" "mode c1 = Idle"
    "\<not> moving c1" "ch_lock c1 = Some \<lparr>ml_holder = - 1\<rparr>"
    using assms(4,6-8)
    by (simp_all add: c1_def stop_motion_def release_lock_if_held_def release_def lock_holder_def)
  define c2 where "c2 = stop_motion (c'\<lparr>ch_lock := Some \<lparr>ml_holder = - 1\<rparr>\<rparr>)"
  have c2: "ch_cfg c2 = ch_cfg c'" "ch_lock c2 = Some \<lparr>ml_holder = - 1\<rparr>"
    using assms(9) by (simp_all add: c2_def stop_motion_def release_lock_if_held_def)
  define u where "u = snd (cmd_disarm s)"
  have u: "sys_mode u = Standby" "sequences u = sequences s"
    "sys_stepper u = Some (t\<lparr>shared_lock := \<lparr>ml_holder = - 1\<rparr>, channels := [c1, c2]\<rparr>)"
    using assms(1-5) c1 c2
    by (simp_all add: u_def cmd_disarm_def stop_all_motors_def motor_count_def heaters_off_override_def
        stop_heat_test_def Let_def numeral_2_eq_2 upt_rec on_stepper_def ctl_stop_def on_motor_def call_channel_def
        always_def lend_def flip: c1_def c2_def)
  have "tick_sequence ops 0 u = start_sequence_step 0 next (r\<lparr>step_index := step_index r + 1, step_queued := False\<rparr>) u"
    using assms(4,5,10-17) c1
    by (auto simp: tick_sequence_def u motor_status_def channel_by_id_def snapshot_def Let_def)
  then show ?thesis
    using assms(4,10-12,18-21) c1 u(1,2)
    by (simp add: start_sequence_step_def set_sequence_def inhibit_heaters_def on_stepper_def u(3)
        ctl_move_to_steps_def on_motor_def call_channel_def lend_def move_to_steps_def acquire_lock_for_motion_def
        try_acquire_def lock_holder_def motion_active_def active_lock_def Let_def not_less flip: u_def)
qed

definition example_step :: "int \<Rightarrow> bend_step" where
  "example_step n = \<lparr>step_target = n, step_hold_s = 0, step_speed = None\<rparr>"

lemma example_two_motors:
  "channel_id (ch_cfg (channels example_motors ! 0)) = 0" "channel_id (ch_cfg (channels example_motors ! Suc 0)) = 1"
  "\<not> lock_held (channels example_motors ! Suc 0)" "max_position_steps (ch_cfg (channels example_motors ! 0)) = 200000"
  by (simp_all add: example_motors_def new_channel_fields motor_channel_config_def example_system_config_def Let_def)

definition example_holding :: "simulated_driver system" where
  "example_holding = example_start
     \<lparr>sys_mode := Run,
      sys_stepper := Some
        \<lparr>shared_lock = \<lparr>ml_holder = 0\<rparr>,
         channels = [(channels example_motors ! 0)\<lparr>enabled := True, lock_held := True, mode := Holding, position := 400, target := 400\<rparr>,
           channels example_motors ! 1]\<rparr>,
      sequences := [new_sequence
        \<lparr>definitions := [''bend'' \<mapsto> \<lparr>def_name = ''bend'', def_steps = [example_step 400, example_step 800]\<rparr>],
         active_name := ''bend'', seq_running := True, step_queued := True\<rparr>]\<rparr>"

theorem disarm_lets_sequence_move_witness:
  "let s' = tick_sequence simulated_ops 0 (snd (cmd_disarm example_holding)) in
    sys_mode s' = Standby \<and> motion_active s' \<and> seq_running (sequences s' ! 0) \<and> \<not> seq_paused (sequences s' ! 0) \<and>
    (\<exists>t'. sys_stepper s' = Some t' \<and> mode (channels t' ! 0) = Moving \<and> target (channels t' ! 0) = 800)"
proof -
  have "step_target (example_step 800) = 800" by (simp add: example_step_def)
  moreover have "let s' = tick_sequence simulated_ops 0 (snd (cmd_disarm example_holding)) in
    sys_mode s' = Standby \<and> motion_active s' \<and> seq_running (sequences s' ! 0) \<and> \<not> seq_paused (sequences s' ! 0) \<and>
    (\<exists>t'. sys_stepper s' = Some t' \<and> mode (channels t' ! 0) = Moving \<and>
      target (channels t' ! 0) = step_target (example_step 800))"
    by (rule disarm_lets_sequence_move
        [where c = "(channels example_motors ! 0)\<lparr>enabled := True, lock_held := True, mode := Holding, position := 400,
             target := 400\<rparr>" and c' = "channels example_motors ! 1"])
      (rule example_two_motors refl |
       simp add: example_holding_def lock_holder_def new_sequence_def example_step_def example_two_motors)+
  ultimately show ?thesis by simp
qed

subsection \<open>The motor argument of the sequence commands\<close>

text \<open>C31. A motor argument that is checked at 32 bits and used at 64.  \<^verbatim>\<open>BENDSEQ_STOP 4294967296\<close> is a well-formed line whose motor
  argument passes the range check, because the check sees it truncated to an int; the handler then indexes the
  sequences with the untruncated value, beyond their end.\<close>

theorem truncated_motor_argument:
  assumes "transmit_enabled s" and "sys_stepper s = Some t" and "channels t \<noteq> []" and "length (sequences s) \<le> 4294967296"
  shows "valid_motor (int_of_size 4294967296) s \<and>
    handle_command_line ops e ''BENDSEQ_STOP 4294967296'' s = None"
proof -
  have "parse_command_line 2 ''BENDSEQ_STOP 4294967296'' =
      Inr \<lparr>cmd_type = KBendSeqStop, cmd_name = ''BENDSEQ_STOP'', cmd_args = [''4294967296''], is_extended = False,
        motor_id = 0\<rparr>"
    by code_simp
  moreover have "scan_int ''4294967296'' = Some (False, ''4294967296'', 10)" by code_simp
  then have "parse_index ''4294967296'' = Some 4294967296"
    by (simp add: parse_index_def stoull_def digits_value_def digit_val_def char_code_def)
  moreover have "valid_motor (int_of_size 4294967296) s"
    using assms(2,3) by (simp add: valid_motor_def int_of_size_def motor_count_def)
  moreover have "cmd_type c = KBendSeqStop \<Longrightarrow> run_command ops e c s = cmd_bend_seq_stop (cmd_args c) s" for c
    by (simp add: run_command_def)
  ultimately show ?thesis
    using assms(1,4)
    by (simp add: handle_command_line_def gate_command_def cmd_bend_seq_stop_def motor_arg_def with_sequence_def)
qed

theorem truncated_motor_argument_witness:
  "handle_command_line simulated_ops example_env ''BENDSEQ_STOP 4294967296'' example_start = None"
proof -
  have "transmit_enabled example_start" "sys_stepper example_start = Some example_motors"
    "channels example_motors \<noteq> []" "length (sequences example_start) \<le> 4294967296"
    by (simp_all add: example_start_def new_system_def example_motors_def example_system_config_def Let_def)
  from truncated_motor_argument [OF this] show ?thesis by blast
qed

subsection \<open>Pull events\<close>

text \<open>What the detector of motor \<open>i\<close> reads in a pass: the record's time and status, and the lock.\<close>

fun watch_motor :: "nat \<Rightarrow> (string \<times> stepper_status \<times> 'd system) list \<Rightarrow> pull_state list \<Rightarrow> pull_event list \<times> pull_state list" where
  "watch_motor i [] ps = ([], ps)"
| "watch_motor i ((ts, st, s) # obs) ps =
     (let (ev, s) = detect_pull ts i st (s\<lparr>pull_states := ps\<rparr>); (evs, ps) = watch_motor i obs (pull_states s)
      in (ev @ evs, ps))"

text \<open>The reference: one event for each pass that finds the lock released after it was held, unless a safety
  stop ended the motion; it reports the pass that found the lock taken.\<close>

fun run_start :: "(nat \<Rightarrow> bool) \<Rightarrow> nat \<Rightarrow> nat" where
  "run_start held 0 = 0"
| "run_start held (Suc k) = (if held k then run_start held k else Suc k)"

type_synonym 'd observation = "string \<times> stepper_status \<times> 'd system"

definition obs_held :: "nat \<Rightarrow> 'd observation list \<Rightarrow> nat \<Rightarrow> bool" where
  "obs_held i obs k = holds_lock i (snd (snd (obs ! k)))"

definition is_pull :: "nat \<Rightarrow> 'd observation list \<Rightarrow> nat \<Rightarrow> bool" where
  "is_pull i obs k \<longleftrightarrow>
     0 < k \<and> obs_held i obs (k - 1) \<and> \<not> obs_held i obs k \<and> \<not> ended_by_safety_abort (fst (snd (obs ! k)))"

definition pull_at :: "nat \<Rightarrow> 'd observation list \<Rightarrow> nat \<Rightarrow> nat \<times> string \<times> int" where
  "pull_at i obs k =
     (let j = run_start (obs_held i obs) k; position = (\<lambda>k. st_position_steps (fst (snd (obs ! k))))
      in (i, fst (obs ! j), position k - position j))"

definition pulls_of :: "nat \<Rightarrow> 'd observation list \<Rightarrow> (nat \<times> string \<times> int) list" where
  "pulls_of i obs = map (pull_at i obs) (filter (is_pull i obs) [0..<length obs])"

definition event_core :: "pull_event \<Rightarrow> nat \<times> string \<times> int" where
  "event_core ev = (pev_motor_id ev, pev_start_ts ev, pev_steps_moved ev)"

lemma event_core_record:
  "event_core \<lparr>pev_seq = q, pev_pull_id = p, pev_motor_id = m, pev_start_ts = ts, pev_steps_moved = n, pev_hold_s = h,
     pev_samples = x, pev_microstep = u\<rparr> = (m, ts, n)"
  by (simp add: event_core_def)

lemma run_start_cong: "(\<And>j. j < k \<Longrightarrow> f j = g j) \<Longrightarrow> run_start f k = run_start g k"
  by (induction k) auto

lemma run_start_le: "run_start f k \<le> k"
  by (induction k) auto

lemma obs_held_append: "k < length obs \<Longrightarrow> obs_held i (obs @ rest) k = obs_held i obs k"
  by (simp add: obs_held_def nth_append)

lemma run_start_append:
  "k \<le> length obs \<Longrightarrow> run_start (obs_held i (obs @ rest)) k = run_start (obs_held i obs) k"
  by (rule run_start_cong) (simp add: obs_held_append)

lemma is_pull_append: "k < length obs \<Longrightarrow> is_pull i (obs @ rest) k = is_pull i obs k"
  by (auto simp: is_pull_def obs_held_append nth_append)

lemma pull_at_append: "k < length obs \<Longrightarrow> pull_at i (obs @ rest) k = pull_at i obs k"
  using run_start_le [of "obs_held i obs" k]
  by (auto simp: pull_at_def Let_def run_start_append nth_append)

lemma pulls_of_snoc:
  "pulls_of i (obs @ [o']) =
     pulls_of i obs @ (if is_pull i (obs @ [o']) (length obs) then [pull_at i (obs @ [o']) (length obs)] else [])"
proof -
  have "filter (is_pull i (obs @ [o'])) [0..<length obs] = filter (is_pull i obs) [0..<length obs]"
    by (rule filter_cong) (auto simp: is_pull_append)
  moreover have "map (pull_at i (obs @ [o'])) (filter (is_pull i obs) [0..<length obs]) =
      map (pull_at i obs) (filter (is_pull i obs) [0..<length obs])"
    by (rule map_cong) (auto simp: pull_at_append)
  ultimately show ?thesis by (simp add: pulls_of_def)
qed

lemma watch_append:
  "watch_motor i (obs @ obs') ps =
     (fst (watch_motor i obs ps) @ fst (watch_motor i obs' (snd (watch_motor i obs ps))),
      snd (watch_motor i obs' (snd (watch_motor i obs ps))))"
  by (induction obs arbitrary: ps) (auto simp: split_beta Let_def)

text \<open>What the detector remembers: whether the last pass found the lock held, and the start of that run.\<close>

lemma watch_invariant:
  assumes "i < length ps" "\<not> lock_was_held (ps ! i)"
  shows "let ps' = snd (watch_motor i obs ps); n = length obs; j = run_start (obs_held i obs) n in
    length ps' = length ps \<and> (lock_was_held (ps' ! i) \<longleftrightarrow> 0 < n \<and> obs_held i obs (n - 1)) \<and>
    (lock_was_held (ps' ! i) \<longrightarrow>
       j < n \<and> pull_start_ts (ps' ! i) = fst (obs ! j) \<and>
       pull_start_pos (ps' ! i) = st_position_steps (fst (snd (obs ! j)))) \<and>
    map event_core (fst (watch_motor i obs ps)) = pulls_of i obs"
proof (induction obs rule: rev_induct)
  case Nil
  with assms show ?case by (simp add: pulls_of_def)
next
  case (snoc o' obs)
  obtain ts st s where o': "o' = (ts, st, s)" by (cases o')
  have ob: "fst o' = ts" "fst (snd o') = st" "snd (snd o') = s" by (simp_all add: o')
  define u where "u = s\<lparr>pull_states := snd (watch_motor i obs ps)\<rparr>"
  have watch: "watch_motor i (obs @ [o']) ps =
      (fst (watch_motor i obs ps) @ fst (detect_pull ts i st u), pull_states (snd (detect_pull ts i st u)))"
    by (simp add: watch_append o' split_beta Let_def u_def)
  have held: "holds_lock i u = obs_held i (obs @ [o']) (length obs)"
    by (simp add: obs_held_def o' u_def holds_lock_def active_lock_def)
  define was where "was = lock_was_held (pull_states u ! i)"
  have was: "was = (0 < length obs \<and> obs_held i obs (length obs - 1))" "length (pull_states u) = length ps"
    using snoc by (simp_all add: was_def u_def Let_def)
  have ev: "map event_core (fst (watch_motor i obs ps)) = pulls_of i obs" using snoc by (simp add: Let_def)
  have start: "run_start (obs_held i (obs @ [o'])) (length obs) = run_start (obs_held i obs) (length obs)"
    by (simp add: run_start_append)
  have none: "run_start (obs_held i obs) (length obs) = length obs" if "\<not> was"
    using that was(1) by (cases "length obs") auto
  have reg: "run_start (obs_held i obs) (length obs) < length obs \<and>
      pull_start_ts (pull_states u ! i) = fst (obs ! run_start (obs_held i obs) (length obs)) \<and>
      pull_start_pos (pull_states u ! i) = st_position_steps (fst (snd (obs ! run_start (obs_held i obs) (length obs))))"
    if was
    using snoc that by (simp add: was_def u_def Let_def)
  have pull: "is_pull i (obs @ [o']) (length obs) \<longleftrightarrow> was \<and> \<not> holds_lock i u \<and> \<not> ended_by_safety_abort st"
    using was(1) by (auto simp: is_pull_def held obs_held_append o')
  show ?case
    using assms(1) was(2) none reg
    by (cases was; cases "holds_lock i u"; cases "ended_by_safety_abort st")
      (simp_all add: watch pulls_of_snoc ev pull detect_pull_def set_pull_state_def Let_def event_core_record pull_at_def
        start nth_append ob was_def [symmetric] held [symmetric])
qed



end
