(* ===== verification/Tmc5160.thy ===== *)
theory Tmc5160
  imports StepperDriver Text FallbackPlanner
begin

unbundle bit_operations_syntax

text \<open>
  The TMC5160 motor driver (\<^verbatim>\<open>tmc5160_driver.cpp\<close>): 40-bit datagrams over SPI, the registers the driver writes, and
  the supervision of resets, undervoltage, shorts, temperature, stalls and position.  The SPI bus and the GPIO lines are
  the record \<open>board\<close> over a state \<open>'w\<close> of the outside world: what a transfer or a line answers is an argument.
  Registers are 32-bit words, the position target wraps at 32 bits as the code's casts do.  The flags that only keep the
  log quiet are left out.
\<close>

subsection \<open>Registers\<close>

abbreviation (input) reg_GCONF :: "8 word" where "reg_GCONF \<equiv> 0x00"
abbreviation (input) reg_GSTAT :: "8 word" where "reg_GSTAT \<equiv> 0x01"
abbreviation (input) reg_IOIN :: "8 word" where "reg_IOIN \<equiv> 0x04"
abbreviation (input) reg_GLOBALSCALER :: "8 word" where "reg_GLOBALSCALER \<equiv> 0x0B"
abbreviation (input) reg_IHOLD_IRUN :: "8 word" where "reg_IHOLD_IRUN \<equiv> 0x10"
abbreviation (input) reg_TPOWERDOWN :: "8 word" where "reg_TPOWERDOWN \<equiv> 0x11"
abbreviation (input) reg_TSTEP :: "8 word" where "reg_TSTEP \<equiv> 0x12"
abbreviation (input) reg_RAMPMODE :: "8 word" where "reg_RAMPMODE \<equiv> 0x20"
abbreviation (input) reg_XACTUAL :: "8 word" where "reg_XACTUAL \<equiv> 0x21"
abbreviation (input) reg_VACTUAL :: "8 word" where "reg_VACTUAL \<equiv> 0x22"
abbreviation (input) reg_VSTART :: "8 word" where "reg_VSTART \<equiv> 0x23"
abbreviation (input) reg_A1 :: "8 word" where "reg_A1 \<equiv> 0x24"
abbreviation (input) reg_V1 :: "8 word" where "reg_V1 \<equiv> 0x25"
abbreviation (input) reg_AMAX :: "8 word" where "reg_AMAX \<equiv> 0x26"
abbreviation (input) reg_VMAX :: "8 word" where "reg_VMAX \<equiv> 0x27"
abbreviation (input) reg_DMAX :: "8 word" where "reg_DMAX \<equiv> 0x28"
abbreviation (input) reg_D1 :: "8 word" where "reg_D1 \<equiv> 0x2A"
abbreviation (input) reg_VSTOP :: "8 word" where "reg_VSTOP \<equiv> 0x2B"
abbreviation (input) reg_XTARGET :: "8 word" where "reg_XTARGET \<equiv> 0x2D"
abbreviation (input) reg_RAMPSTAT :: "8 word" where "reg_RAMPSTAT \<equiv> 0x35"
abbreviation (input) reg_MSCNT :: "8 word" where "reg_MSCNT \<equiv> 0x6A"
abbreviation (input) reg_CHOPCONF :: "8 word" where "reg_CHOPCONF \<equiv> 0x6C"
abbreviation (input) reg_COOLCONF :: "8 word" where "reg_COOLCONF \<equiv> 0x6D"
abbreviation (input) reg_DRV_STATUS :: "8 word" where "reg_DRV_STATUS \<equiv> 0x6F"
abbreviation (input) reg_PWM_SCALE :: "8 word" where "reg_PWM_SCALE \<equiv> 0x71"
abbreviation (input) reg_PWM_AUTO :: "8 word" where "reg_PWM_AUTO \<equiv> 0x72"

definition gstat_reset :: "32 word" where "gstat_reset = 1"
definition gstat_drv_err :: "32 word" where "gstat_drv_err = 2"
definition gstat_uv_cp :: "32 word" where "gstat_uv_cp = 4"

definition drv_s2vsa :: "32 word" where "drv_s2vsa = push_bit 12 1"
definition drv_s2vsb :: "32 word" where "drv_s2vsb = push_bit 13 1"
definition drv_ot :: "32 word" where "drv_ot = push_bit 25 1"
definition drv_otpw :: "32 word" where "drv_otpw = push_bit 26 1"
definition drv_s2ga :: "32 word" where "drv_s2ga = push_bit 27 1"
definition drv_s2gb :: "32 word" where "drv_s2gb = push_bit 28 1"
definition drv_ola :: "32 word" where "drv_ola = push_bit 29 1"
definition drv_olb :: "32 word" where "drv_olb = push_bit 30 1"
definition drv_short_mask :: "32 word" where "drv_short_mask = drv_s2vsa OR drv_s2vsb OR drv_s2ga OR drv_s2gb"

definition ioin_step_dir_mode :: "32 word \<Rightarrow> bool" where
  "ioin_step_dir_mode ioin \<longleftrightarrow> ioin AND push_bit 6 1 \<noteq> 0"

definition ioin_driver_disabled :: "32 word \<Rightarrow> bool" where
  "ioin_driver_disabled ioin \<longleftrightarrow> ioin AND push_bit 4 1 \<noteq> 0"

text \<open>\<^verbatim>\<open>EncodeMres\<close>, with \<open>None\<close> for \<^verbatim>\<open>kInvalidMres\<close>.\<close>

definition encode_mres :: "int \<Rightarrow> nat option" where
  "encode_mres n =
     (if n = 256 then Some 0 else if n = 128 then Some 1 else if n = 64 then Some 2 else if n = 32 then Some 3
      else if n = 16 then Some 4 else if n = 8 then Some 5 else if n = 4 then Some 6 else if n = 2 then Some 7
      else if n = 1 then Some 8 else None)"

definition delta_xtarget :: "int \<Rightarrow> 32 word" where
  "delta_xtarget n = (if encode_mres n = None then 0 else of_int (256 div n))"

definition int_clamp :: "int \<Rightarrow> int \<Rightarrow> int \<Rightarrow> int" where
  "int_clamp v lo hi = (if v < lo then lo else if hi < v then hi else v)"

definition encode_coolconf :: "int \<Rightarrow> 32 word" where
  "encode_coolconf sgt = push_bit 24 1 OR push_bit 16 (of_int (int_clamp sgt (- 64) 63) AND 0x7F)"

definition encode_chopconf :: "32 word \<Rightarrow> 32 word" where
  "encode_chopconf toff = push_bit 15 2 OR push_bit 4 4 OR (toff AND 0x0F)"

definition encode_ihold_irun :: "int \<Rightarrow> int \<Rightarrow> 32 word" where
  "encode_ihold_irun ihold irun =
     (of_int ihold AND 0x1F) OR push_bit 8 (of_int irun AND 0x1F) OR push_bit 16 6"

definition encode_globalscaler :: "int \<Rightarrow> 32 word" where
  "encode_globalscaler gs = (if 256 \<le> gs then 0 else of_int gs)"

subsection \<open>The run current\<close>

definition sqrt_two :: dbl where
  "sqrt_two = dbl_sqrt (Fin 2)"

definition vfs :: dbl where
  "vfs = to_dbl (325 / 1000)"

record current_setting =
  cur_globalscaler :: int
  cur_irun :: int
  cur_ihold :: int

definition low_irun :: "dbl \<Rightarrow> dbl \<Rightarrow> int" where
  "low_irun i_peak sense = int_clamp (llround (Fin 256 * i_peak * sense / vfs) - 1) 0 31"

definition current_of :: "dbl \<Rightarrow> int \<Rightarrow> dbl \<Rightarrow> current_setting" where
  "current_of gs_raw irun hold =
     (let irun = int_clamp irun 0 31 in
      \<lparr>cur_globalscaler = int_clamp (llround gs_raw) 32 256, cur_irun = irun,
       cur_ihold = int_clamp (llround (dbl_of_int (irun + 1) * hold) - 1) 0 irun\<rparr>)"

definition calculate_current :: "dbl \<Rightarrow> dbl \<Rightarrow> dbl \<Rightarrow> current_setting option" where
  "calculate_current a_rms sense hold =
     (if \<not> is_finite a_rms \<or> \<not> is_finite sense \<or> \<not> is_finite hold then None
      else if a_rms \<le> 0 \<or> sense \<le> 0 \<or> hold < 0 \<or> 1 < hold then None
      else
        (let i_peak = a_rms * sqrt_two; i_peak_max = vfs / sense in
         if i_peak_max < i_peak then None
         else
           (let f = i_peak / i_peak_max in
            if f \<le> to_dbl (1 / 2)
            then
              (let gs_raw = Fin 256 * f in
               if gs_raw < Fin 32
               then
                 (let irun = low_irun i_peak sense;
                      delivered = Fin 32 / Fin 256 * (dbl_of_int (irun + 1) / Fin 32) * (vfs / sense)
                  in if i_peak * to_dbl (11 / 10) < delivered then None else Some (current_of (Fin 32) irun hold))
               else Some (current_of gs_raw 31 hold))
            else Some (current_of (Fin 256) (llround (Fin 32 * f) - 1) hold))))"

subsection \<open>The world and the driver\<close>

record 'w board =
  brd_open :: "string \<Rightarrow> nat \<Rightarrow> nat \<Rightarrow> bool \<Rightarrow> 'w \<Rightarrow> bool \<times> 'w"
  brd_transfer :: "8 word list \<Rightarrow> 'w \<Rightarrow> 8 word list option \<times> 'w"
  brd_request :: "string \<Rightarrow> nat \<Rightarrow> bool \<Rightarrow> bool \<Rightarrow> 'w \<Rightarrow> bool \<times> 'w"
  brd_set :: "nat \<Rightarrow> bool \<Rightarrow> 'w \<Rightarrow> bool \<times> 'w"
  brd_release :: "nat \<Rightarrow> 'w \<Rightarrow> 'w"

datatype stall_detect = StallOff | StallMonitor | StallStop

fun stall_detect_name :: "stall_detect \<Rightarrow> string" where
  "stall_detect_name StallOff = ''off''"
| "stall_detect_name StallMonitor = ''monitor''"
| "stall_detect_name StallStop = ''stop''"

definition parse_stall_detect :: "string \<Rightarrow> stall_detect option" where
  "parse_stall_detect text =
     (if text = ''off'' then Some StallOff else if text = ''monitor'' then Some StallMonitor
      else if text = ''stop'' then Some StallStop else None)"

record tmc_config =
  dc_spi_device :: string
  dc_spi_speed_hz :: nat
  dc_gpio_chip :: string
  dc_cs_line :: nat
  dc_enable_line :: nat
  dc_invert_direction :: bool
  dc_enable_active_low :: bool
  dc_run_current :: dbl
  dc_hold_frac :: dbl
  dc_sense_ohm :: dbl
  dc_stealth_chop :: bool
  dc_microstep :: int
  dc_retry_ms :: int
  dc_stall_detect :: stall_detect
  dc_sgt :: int
  dc_stall_sg_min :: int
  dc_stall_min_hz :: dbl
  dc_stall_confirm :: int

definition tmc_default :: tmc_config where
  "tmc_default =
     \<lparr>dc_spi_device = ''/dev/spidev0.0'', dc_spi_speed_hz = 1000000, dc_gpio_chip = ''/dev/gpiochip0'', dc_cs_line = 22,
      dc_enable_line = 20, dc_invert_direction = False, dc_enable_active_low = True, dc_run_current = to_dbl (8 / 10),
      dc_hold_frac = to_dbl (3 / 10), dc_sense_ohm = to_dbl (75 / 1000), dc_stealth_chop = False, dc_microstep = 4,
      dc_retry_ms = 2000, dc_stall_detect = StallMonitor, dc_sgt = 0, dc_stall_sg_min = 0, dc_stall_min_hz = Fin 50,
      dc_stall_confirm = 3\<rparr>"

record 'w tmc_driver =
  tm_cfg :: tmc_config
  tm_has_bus :: bool
  tm_use_gpio :: bool
  tm_cs_held :: bool
  tm_enable_held :: bool
  tm_gpio_healthy :: bool
  tm_spi_open :: bool
  tm_healthy :: bool
  tm_enabled :: bool
  tm_microstep :: int
  tm_target :: "32 word"
  tm_pulses :: "64 word"
  tm_last_error :: string
  tm_spi_bus_ok :: bool
  tm_verify_enable_line :: bool
  tm_enable_line_effective :: bool
  tm_reset_count :: "32 word"
  tm_since_reset_check :: "32 word"
  tm_otpw_now :: bool
  tm_ot_latched :: bool
  tm_otpw_events :: "32 word"
  tm_spi_status :: "8 word"
  tm_loss_count :: "64 word"
  tm_loss_reason :: string
  tm_loss_stop :: bool
  tm_holdoff :: "32 word"
  tm_uv_active :: bool
  tm_drv_err_active :: bool
  tm_drv_err_unexplained :: bool
  tm_short_active :: bool
  tm_open_load_active :: bool
  tm_uv_events :: "32 word"
  tm_short_events :: "32 word"
  tm_open_load_events :: "32 word"
  tm_repairs :: "32 word"
  tm_mismatch_polls :: int
  tm_rate :: dbl
  tm_rate_steady :: bool
  tm_move_open :: bool
  tm_since_sample :: "32 word"
  tm_settle_samples :: int
  tm_low_run :: int
  tm_samples :: "32 word"
  tm_sg_last :: int
  tm_sg_min :: int
  tm_verdicts :: "32 word"
  tm_world :: 'w

definition report_error :: "string \<Rightarrow> 'w tmc_driver \<Rightarrow> 'w tmc_driver" where
  "report_error msg d = d\<lparr>tm_last_error := msg\<rparr>"

definition chip_text :: "'w tmc_driver \<Rightarrow> string" where
  "chip_text d = dc_spi_device (tm_cfg d) @ '' cs='' @ show_nat (dc_cs_line (tm_cfg d))"

definition set_unhealthy :: "'w tmc_driver \<Rightarrow> 'w tmc_driver" where
  "set_unhealthy d = d\<lparr>tm_healthy := False\<rparr>"

subsection \<open>Lines and bus\<close>

definition close_gpio :: "'w board \<Rightarrow> 'w tmc_driver \<Rightarrow> 'w tmc_driver" where
  "close_gpio b d =
     (let c = tm_cfg d; w = tm_world d;
          w = (if \<not> tm_use_gpio d then w
               else
                 (let w = (if tm_cs_held d then snd (brd_set b (dc_cs_line c) True w) else w);
                      w = (if tm_enable_held d then snd (brd_set b (dc_enable_line c) (dc_enable_active_low c) w) else w);
                      w = (if tm_cs_held d then brd_release b (dc_cs_line c) w else w)
                  in if tm_enable_held d then brd_release b (dc_enable_line c) w else w))
      in d\<lparr>tm_world := w, tm_cs_held := False, tm_enable_held := False, tm_gpio_healthy := False\<rparr>)"

definition open_gpio :: "'w board \<Rightarrow> 'w tmc_driver \<Rightarrow> bool \<times> 'w tmc_driver" where
  "open_gpio b d =
     (if \<not> tm_use_gpio d then (True, d\<lparr>tm_gpio_healthy := True\<rparr>)
      else
        (let c = tm_cfg d; off = dc_enable_active_low c;
             (cs, w) = brd_request b (dc_gpio_chip c) (dc_cs_line c) True True (tm_world d);
             (en, w) = brd_request b (dc_gpio_chip c) (dc_enable_line c) off off w;
             d = d\<lparr>tm_world := w, tm_cs_held := cs, tm_enable_held := en\<rparr>
         in if \<not> cs \<or> \<not> en then (False, close_gpio b d) else (True, d\<lparr>tm_gpio_healthy := True\<rparr>)))"

definition open_spi :: "'w board \<Rightarrow> 'w tmc_driver \<Rightarrow> bool \<times> 'w tmc_driver" where
  "open_spi b d =
     (if \<not> tm_has_bus d then (False, d)
      else if tm_spi_open d then (True, d)
      else
        (let c = tm_cfg d; (ok, w) = brd_open b (dc_spi_device c) 3 (dc_spi_speed_hz c) True (tm_world d);
             d = d\<lparr>tm_world := w, tm_spi_open := ok\<rparr>
         in (ok, if ok then d else d\<lparr>tm_spi_bus_ok := False\<rparr>)))"

text \<open>One datagram, framed by the chip select.\<close>

definition bus_failed :: "'w tmc_driver \<Rightarrow> 'w tmc_driver" where
  "bus_failed d = d\<lparr>tm_spi_bus_ok := False\<rparr>"

definition tmc_transfer :: "'w board \<Rightarrow> 8 word list \<Rightarrow> 'w tmc_driver \<Rightarrow> 8 word list option \<times> 'w tmc_driver" where
  "tmc_transfer b tx d =
     (if \<not> tm_has_bus d \<or> \<not> tm_spi_open d then (None, bus_failed d)
      else if tm_use_gpio d \<and> (\<not> tm_gpio_healthy d \<or> \<not> tm_cs_held d) then (None, bus_failed d)
      else
        (let line = dc_cs_line (tm_cfg d);
             (low, w) = (if tm_use_gpio d then brd_set b line False (tm_world d) else (True, tm_world d))
         in if \<not> low then (None, bus_failed (d\<lparr>tm_world := w, tm_gpio_healthy := False\<rparr>))
            else
              (let (rx, w) = brd_transfer b tx w;
                   (high, w) = (if tm_use_gpio d then brd_set b line True w else (True, w))
               in if \<not> high then (None, bus_failed (d\<lparr>tm_world := w, tm_gpio_healthy := False\<rparr>))
                  else (rx, d\<lparr>tm_world := w, tm_spi_bus_ok := (rx \<noteq> None)\<rparr>))))"

definition word_bytes :: "32 word \<Rightarrow> 8 word list" where
  "word_bytes v = [ucast (drop_bit 24 v AND 0xFF), ucast (drop_bit 16 v AND 0xFF), ucast (drop_bit 8 v AND 0xFF), ucast (v AND 0xFF)]"

definition byte_at :: "8 word list \<Rightarrow> nat \<Rightarrow> 8 word" where
  "byte_at rx i = (if i < length rx then rx ! i else 0)"

definition word_of_bytes :: "8 word list \<Rightarrow> 32 word" where
  "word_of_bytes rx =
     push_bit 24 (ucast (byte_at rx 1)) OR push_bit 16 (ucast (byte_at rx 2)) OR push_bit 8 (ucast (byte_at rx 3)) OR
     ucast (byte_at rx 4)"

definition write_datagram :: "8 word \<Rightarrow> 32 word \<Rightarrow> 8 word list" where
  "write_datagram a v = (a OR 0x80) # word_bytes v"

definition read_datagram :: "8 word \<Rightarrow> 8 word list" where
  "read_datagram a = [a AND 0x7F, 0, 0, 0, 0]"

definition write_register :: "'w board \<Rightarrow> 8 word \<Rightarrow> 32 word \<Rightarrow> 'w tmc_driver \<Rightarrow> bool \<times> 'w tmc_driver" where
  "write_register b a v d =
     (case tmc_transfer b (write_datagram a v) d of
        (None, d) \<Rightarrow> (False, d)
      | (Some rx, d) \<Rightarrow> (True, d\<lparr>tm_spi_status := byte_at rx 0\<rparr>))"

text \<open>The first exchange latches the address, the second brings the value.\<close>

definition read_register :: "'w board \<Rightarrow> 8 word \<Rightarrow> 'w tmc_driver \<Rightarrow> 32 word option \<times> 'w tmc_driver" where
  "read_register b a d =
     (case tmc_transfer b (read_datagram a) d of
        (None, d) \<Rightarrow> (None, d)
      | (Some _, d) \<Rightarrow>
          (case tmc_transfer b (read_datagram a) d of
             (None, d) \<Rightarrow> (None, d)
           | (Some rx, d) \<Rightarrow> (Some (word_of_bytes rx), d\<lparr>tm_spi_status := byte_at rx 0\<rparr>)))"

text \<open>Writes one after the other; the first that fails ends them.\<close>

fun write_registers :: "'w board \<Rightarrow> (8 word \<times> 32 word) list \<Rightarrow> 'w tmc_driver \<Rightarrow> bool \<times> 'w tmc_driver" where
  "write_registers b [] d = (True, d)"
| "write_registers b ((a, v) # ws) d =
     (let (ok, d) = write_register b a v d in if ok then write_registers b ws d else (False, d))"

definition read_back :: "'w board \<Rightarrow> 8 word \<Rightarrow> 32 word \<Rightarrow> 'w tmc_driver \<Rightarrow> bool \<times> 'w tmc_driver" where
  "read_back b a v d = (let (r, d) = read_register b a d in (r = Some v, d))"

subsection \<open>Configuration of the chip\<close>

fun hex_digit :: "nat \<Rightarrow> char" where
  "hex_digit n = (if n < 10 then char_of (48 + n) else char_of (87 + n))"

fun show_hex :: "nat \<Rightarrow> string" where
  "show_hex n = (if n < 16 then [hex_digit n] else show_hex (n div 16) @ [hex_digit (n mod 16)])"

definition chip_gconf :: "'w tmc_driver \<Rightarrow> 32 word" where
  "chip_gconf d = (if dc_stealth_chop (tm_cfg d) then 4 else 0)"

definition chip_chopconf :: "'w tmc_driver \<Rightarrow> 32 word" where
  "chip_chopconf d = encode_chopconf (if tm_enabled d then 3 else 0)"

definition tmc_vmax :: "32 word" where
  "tmc_vmax = 4 * 100 * 256"

definition setup_writes :: "current_setting \<Rightarrow> 'w tmc_driver \<Rightarrow> (8 word \<times> 32 word) list" where
  "setup_writes cur d =
     [(reg_GCONF, chip_gconf d), (reg_CHOPCONF, chip_chopconf d), (reg_COOLCONF, encode_coolconf (dc_sgt (tm_cfg d))),
      (reg_GLOBALSCALER, encode_globalscaler (cur_globalscaler cur)),
      (reg_IHOLD_IRUN, encode_ihold_irun (cur_ihold cur) (cur_irun cur)), (reg_TPOWERDOWN, 10), (reg_RAMPMODE, 0),
      (reg_VSTART, 0), (reg_VSTOP, 10), (reg_A1, 0xFFFF), (reg_AMAX, 0xFFFF), (reg_V1, 0), (reg_D1, 0xFFFF),
      (reg_DMAX, 0xFFFF), (reg_VMAX, tmc_vmax), (reg_XACTUAL, 0), (reg_XTARGET, 0)]"

text \<open>What the identity register says against the module, if anything.\<close>

definition ioin_refusal :: "32 word \<Rightarrow> 'w tmc_driver \<Rightarrow> string option" where
  "ioin_refusal ioin d =
     (let version = drop_bit 24 ioin in
      if version \<noteq> 0x30
      then Some (''TMC5160_VERSION mismatch on '' @ chip_text d @ '' got=0x'' @ show_hex (unat version) @
        '' expected=0x'' @ show_hex 48)
      else if ioin_step_dir_mode ioin
      then Some (chip_text d @ '': SD_MODE strapped HIGH -- driver is in STEP/DIR mode and ignores SPI ramp-generator motion. Tie SD_MODE low to use this firmware; the motor cannot move as wired.'')
      else None)"

text \<open>The lines and the bus, opened again where they are not.\<close>

definition reopen :: "'w board \<Rightarrow> 'w tmc_driver \<Rightarrow> bool \<times> 'w tmc_driver" where
  "reopen b d =
     (let (gpio, d) = (if tm_use_gpio d \<and> \<not> tm_gpio_healthy d then open_gpio b (close_gpio b d) else (True, d))
      in if \<not> gpio then (False, d) else if \<not> tm_spi_open d then open_spi b d else (True, d))"

definition identify :: "'w board \<Rightarrow> 'w tmc_driver \<Rightarrow> bool \<times> 'w tmc_driver" where
  "identify b d =
     (case read_register b reg_IOIN d of
        (None, d) \<Rightarrow> (False, report_error (''IOIN read failed on '' @ chip_text d) d)
      | (Some ioin, d) \<Rightarrow>
          (case ioin_refusal ioin d of None \<Rightarrow> (True, d) | Some text \<Rightarrow> (False, report_error text d)))"

definition configure :: "'w board \<Rightarrow> 'w tmc_driver \<Rightarrow> bool \<times> 'w tmc_driver" where
  "configure b d =
     (let c = tm_cfg d in
      case calculate_current (dc_run_current c) (dc_sense_ohm c) (dc_hold_frac c) of
        None \<Rightarrow> (False, d)
      | Some cur \<Rightarrow>
          (let gconf = chip_gconf d; chopconf = chip_chopconf d;
               (ok, d) = write_registers b (setup_writes cur d) d
           in if \<not> ok then (False, d)
              else
                (let d = d\<lparr>tm_target := 0\<rparr>; (ok, d) = read_back b reg_GCONF gconf d
                 in if \<not> ok then (False, d)
                    else
                      (let (ok, d) = read_back b reg_CHOPCONF chopconf d
                       in if \<not> ok then (False, d) else write_register b reg_GSTAT 7 d))))"

definition tmc_reinitialize :: "'w board \<Rightarrow> 'w tmc_driver \<Rightarrow> bool \<times> 'w tmc_driver" where
  "tmc_reinitialize b d =
     (if \<not> tm_has_bus d then (False, set_unhealthy d)
      else
        (let (ok, d) = reopen b d
         in if \<not> ok \<or> encode_mres (tm_microstep d) = None then (False, set_unhealthy d)
            else
              (let (ok, d) = identify b d
               in if \<not> ok then (False, set_unhealthy d)
                  else
                    (let (ok, d) = configure b d
                     in if \<not> ok then (False, set_unhealthy d)
                        else
                          (True, d\<lparr>tm_healthy := True, tm_last_error := [], tm_uv_active := False,
                             tm_drv_err_active := False, tm_drv_err_unexplained := False, tm_mismatch_polls := 0\<rparr>)))))"

definition new_tmc :: "'w board \<Rightarrow> tmc_config \<Rightarrow> bool \<Rightarrow> bool \<Rightarrow> 'w \<Rightarrow> 'w tmc_driver" where
  "new_tmc b c has_bus use_gpio w =
     (let d = \<lparr>tm_cfg = c, tm_has_bus = has_bus, tm_use_gpio = use_gpio, tm_cs_held = False, tm_enable_held = False,
            tm_gpio_healthy = False, tm_spi_open = False, tm_healthy = False, tm_enabled = False,
            tm_microstep = dc_microstep c, tm_target = 0, tm_pulses = 0, tm_last_error = [], tm_spi_bus_ok = False,
            tm_verify_enable_line = use_gpio, tm_enable_line_effective = True, tm_reset_count = 0,
            tm_since_reset_check = 0, tm_otpw_now = False, tm_ot_latched = False, tm_otpw_events = 0,
            tm_spi_status = 0, tm_loss_count = 0, tm_loss_reason = [], tm_loss_stop = False, tm_holdoff = 0,
            tm_uv_active = False, tm_drv_err_active = False, tm_drv_err_unexplained = False, tm_short_active = False,
            tm_open_load_active = False, tm_uv_events = 0, tm_short_events = 0, tm_open_load_events = 0, tm_repairs = 0,
            tm_mismatch_polls = 0, tm_rate = 0, tm_rate_steady = False, tm_move_open = False, tm_since_sample = 0,
            tm_settle_samples = 0, tm_low_run = 0, tm_samples = 0, tm_sg_last = 0, tm_sg_min = 0, tm_verdicts = 0,
            tm_world = w\<rparr>
      in if \<not> has_bus then d
         else
           (let (gpio, d) = open_gpio b d; (spi, d) = open_spi b d;
                (ok, d) = (if spi then tmc_reinitialize b d else (False, d))
            in d\<lparr>tm_healthy := (gpio \<and> ok)\<rparr>))"

subsection \<open>Supervision\<close>

definition record_step_loss :: "string \<Rightarrow> bool \<Rightarrow> 'w tmc_driver \<Rightarrow> 'w tmc_driver" where
  "record_step_loss reason stop d =
     d\<lparr>tm_loss_count := tm_loss_count d + 1, tm_loss_reason := reason, tm_loss_stop := tm_loss_stop d \<or> stop\<rparr>"

definition stall_sampling_active :: "'w tmc_driver \<Rightarrow> bool" where
  "stall_sampling_active d \<longleftrightarrow>
     dc_stall_detect (tm_cfg d) \<noteq> StallOff \<and> \<not> dc_stealth_chop (tm_cfg d) \<and> tm_rate_steady d \<and>
     dc_stall_min_hz (tm_cfg d) \<le> tm_rate d"

definition note_thermal :: "32 word \<Rightarrow> 'w tmc_driver \<Rightarrow> 'w tmc_driver" where
  "note_thermal drv d =
     (let otpw = (drv AND drv_otpw \<noteq> 0); ot = (drv AND drv_ot \<noteq> 0);
          d = (if otpw \<and> \<not> tm_otpw_now d then d\<lparr>tm_otpw_events := tm_otpw_events d + 1\<rparr> else d)
      in d\<lparr>tm_otpw_now := otpw, tm_ot_latched := tm_ot_latched d \<or> ot\<rparr>)"

definition short_flags :: "32 word \<Rightarrow> string" where
  "short_flags drv =
     (if drv AND drv_s2ga \<noteq> 0 then '' s2ga'' else []) @ (if drv AND drv_s2gb \<noteq> 0 then '' s2gb'' else []) @
     (if drv AND drv_s2vsa \<noteq> 0 then '' s2vsa'' else []) @ (if drv AND drv_s2vsb \<noteq> 0 then '' s2vsb'' else [])"

definition note_short :: "bool \<Rightarrow> 32 word \<Rightarrow> 'w tmc_driver \<Rightarrow> 'w tmc_driver" where
  "note_short stepping drv d =
     (let short_now = (drv AND drv_short_mask \<noteq> 0);
          d = (if short_now \<and> \<not> tm_short_active d
               then
                 (let d = d\<lparr>tm_short_events := tm_short_events d + 1\<rparr>
                  in if tm_enabled d
                     then record_step_loss (''short circuit on a motor coil ('' @ drop 1 (short_flags drv) @
                       ''): the driver switched that bridge off'') (\<not> stepping) d
                     else d)
               else d)
      in if short_now then d\<lparr>tm_short_active := True\<rparr> else d)"

definition note_driver_error :: "32 word \<Rightarrow> 'w tmc_driver \<Rightarrow> 'w tmc_driver" where
  "note_driver_error drv d =
     (if \<not> tm_drv_err_unexplained d then d
      else
        (let d = d\<lparr>tm_drv_err_unexplained := False\<rparr>
         in if drv AND drv_short_mask = 0 \<and> drv AND drv_ot = 0 \<and> \<not> tm_ot_latched d \<and> tm_enabled d
            then record_step_loss ''driver error (GSTAT.drv_err): the power stage was shut down'' False d
            else d))"

definition note_open_load :: "32 word \<Rightarrow> 'w tmc_driver \<Rightarrow> 'w tmc_driver" where
  "note_open_load drv d =
     (let open_load = (drv AND (drv_ola OR drv_olb) \<noteq> 0);
          d = (if open_load \<and> \<not> tm_open_load_active d
               then d\<lparr>tm_open_load_events := tm_open_load_events d + 1\<rparr> else d)
      in d\<lparr>tm_open_load_active := open_load\<rparr>)"

text \<open>One StallGuard sample; the result tells whether the step may be issued.\<close>

definition take_sample :: "32 word \<Rightarrow> 'w tmc_driver \<Rightarrow> bool \<times> 'w tmc_driver" where
  "take_sample drv d =
     (if 0 < tm_settle_samples d then (True, d\<lparr>tm_settle_samples := tm_settle_samples d - 1\<rparr>)
      else
        (let c = tm_cfg d; sg = uint (drv AND 0x3FF);
             d = d\<lparr>tm_sg_last := sg, tm_sg_min := (if tm_samples d = 0 \<or> sg < tm_sg_min d then sg else tm_sg_min d),
                   tm_samples := tm_samples d + 1,
                   tm_low_run := (if sg \<le> dc_stall_sg_min c then tm_low_run d + 1 else 0)\<rparr>
         in if tm_low_run d = dc_stall_confirm c
            then
              (let d = d\<lparr>tm_verdicts := tm_verdicts d + 1\<rparr>
               in if dc_stall_detect c = StallStop
                  then (False,
                    record_step_loss (''StallGuard stall: SG_RESULT '' @ show_int sg @ '' <= '' @ show_int (dc_stall_sg_min c) @
                      '' on '' @ show_int (dc_stall_confirm c) @ '' samples in a row at '' @ show_double (tm_rate d) @
                      '' full-steps/s'') True (d\<lparr>tm_low_run := 0\<rparr>))
                  else (True, d))
            else (True, d)))"

definition note_status :: "bool \<Rightarrow> 32 word \<Rightarrow> 'w tmc_driver \<Rightarrow> 'w tmc_driver" where
  "note_status stepping drv d =
     (let d = note_driver_error drv (note_short stepping drv (note_thermal drv d))
      in if stepping then note_open_load drv d else d)"

definition check_driver_status :: "'w board \<Rightarrow> bool \<Rightarrow> bool \<Rightarrow> 'w tmc_driver \<Rightarrow> bool \<times> 'w tmc_driver" where
  "check_driver_status b stepping sample d =
     (case read_register b reg_DRV_STATUS d of
        (None, d) \<Rightarrow> (True, d)
      | (Some drv, d) \<Rightarrow>
          (let d = note_status stepping drv d
           in if drv AND drv_short_mask \<noteq> 0 \<and> stepping then (False, d)
              else if sample then take_sample drv d else (True, d)))"

text \<open>Undervoltage and driver errors are counted at their rising edge.\<close>

definition note_supply :: "32 word \<Rightarrow> 'w tmc_driver \<Rightarrow> 'w tmc_driver" where
  "note_supply gstat d =
     (let uv = (gstat AND gstat_uv_cp \<noteq> 0); err = (gstat AND gstat_drv_err \<noteq> 0);
          d = (if uv \<and> \<not> tm_uv_active d
               then
                 (let d = d\<lparr>tm_uv_events := tm_uv_events d + 1\<rparr>
                  in if tm_enabled d
                     then record_step_loss ''motor supply undervoltage (GSTAT.uv_cp): the power stage was off while the supply was low'' False d
                     else d)
               else d)
      in d\<lparr>tm_uv_active := uv,
           tm_drv_err_unexplained := tm_drv_err_unexplained d \<or> (err \<and> \<not> tm_drv_err_active d),
           tm_drv_err_active := err\<rparr>)"

definition after_reset :: "'w board \<Rightarrow> string \<Rightarrow> 'w tmc_driver \<Rightarrow> bool \<times> 'w tmc_driver" where
  "after_reset b where_found d =
     (let was_enabled = tm_enabled d;
          (ok, d) = tmc_reinitialize b (d\<lparr>tm_reset_count := tm_reset_count d + 1\<rparr>)
      in if \<not> ok then (False, set_unhealthy d)
         else
           (let d = d\<lparr>tm_target := 0\<rparr>
            in (True,
                if was_enabled
                then record_step_loss (''chip reset while the motor was enabled (found on '' @ where_found @
                  ''): the supply dropped and the driver let go'') False d
                else d)))"

definition recover_from_reset :: "'w board \<Rightarrow> string \<Rightarrow> 'w tmc_driver \<Rightarrow> bool \<times> 'w tmc_driver" where
  "recover_from_reset b where_found d =
     (case read_register b reg_GSTAT d of
        (None, d) \<Rightarrow> (False, set_unhealthy (report_error (chip_text d @ '': GSTAT read failed ('' @ where_found @ CHR '')'' # []) d))
      | (Some gstat, d) \<Rightarrow>
          if gstat AND gstat_reset = 0
          then
            (let d = note_supply gstat d; handled = gstat AND (gstat_uv_cp OR gstat_drv_err)
             in if handled = 0 then (True, d)
                else
                  (let (ok, d) = write_register b reg_GSTAT handled d
                   in if ok then (True, d) else (False, set_unhealthy d)))
          else after_reset b where_found d)"

definition check_position :: "'w board \<Rightarrow> 'w tmc_driver \<Rightarrow> 'w tmc_driver" where
  "check_position b d =
     (case read_register b reg_XACTUAL d of
        (None, d) \<Rightarrow> d
      | (Some actual, d) \<Rightarrow>
          if actual = tm_target d then d\<lparr>tm_mismatch_polls := 0\<rparr>
          else
            (let d = d\<lparr>tm_mismatch_polls := tm_mismatch_polls d + 1\<rparr>
             in if tm_mismatch_polls d < 2 then d
                else
                  (let what = ''chip position '' @ show_int (sint actual) @ '' is not the commanded '' @
                         show_int (sint (tm_target d)) @ '' at standstill (1/256 full steps)'';
                       d = record_step_loss what True (d\<lparr>tm_mismatch_polls := 0\<rparr>)
                   in set_unhealthy (report_error (chip_text d @ '': '' @ what @
                        '' -- the ramp generator did not execute the move'') d))))"

subsection \<open>The methods of the interface\<close>

text \<open>\<^verbatim>\<open>Enable(false)\<close>: freeze in place, stop the chopper, drive the enable line off, and read back
  whether it reached the chip.\<close>

definition freeze :: "'w board \<Rightarrow> 'w tmc_driver \<Rightarrow> bool \<times> 'w tmc_driver" where
  "freeze b d =
     (case read_register b reg_XACTUAL d of
        (None, d) \<Rightarrow> (False, d)
      | (Some xactual, d) \<Rightarrow>
          (let (ok, d) = write_register b reg_XTARGET xactual d
           in if \<not> ok then (False, d)
              else write_register b reg_CHOPCONF (encode_chopconf 0) (d\<lparr>tm_target := xactual\<rparr>)))"

definition drive_enable_line :: "'w board \<Rightarrow> bool \<Rightarrow> 'w tmc_driver \<Rightarrow> bool \<times> 'w tmc_driver" where
  "drive_enable_line b value d =
     (if tm_use_gpio d \<and> tm_enable_held d
      then
        (let (ok, w) = brd_set b (dc_enable_line (tm_cfg d)) value (tm_world d); d = d\<lparr>tm_world := w\<rparr>
         in (ok, if ok then d else d\<lparr>tm_gpio_healthy := False, tm_healthy := False\<rparr>))
      else (True, d))"

definition power_down :: "'w board \<Rightarrow> 'w tmc_driver \<Rightarrow> bool \<times> 'w tmc_driver" where
  "power_down b d =
     (let (ok, d) = freeze b d;
          (line, d) = drive_enable_line b (dc_enable_active_low (tm_cfg d)) (if ok then d else set_unhealthy d)
      in (ok \<and> line, d\<lparr>tm_enabled := False\<rparr>))"

definition tmc_disable :: "'w board \<Rightarrow> 'w tmc_driver \<Rightarrow> bool \<times> 'w tmc_driver" where
  "tmc_disable b d =
     (let (ok, d) = power_down b d
      in if \<not> (ok \<and> tm_verify_enable_line d) then (ok, d)
         else
           (case read_register b reg_IOIN d of
              (None, d) \<Rightarrow> (False, set_unhealthy (report_error (chip_text d @ '': IOIN read failed while verifying disable'') d))
            | (Some ioin, d) \<Rightarrow> (ok, d\<lparr>tm_enable_line_effective := ioin_driver_disabled ioin\<rparr>)))"

definition verify_enabled :: "'w board \<Rightarrow> 'w tmc_driver \<Rightarrow> bool \<times> 'w tmc_driver" where
  "verify_enabled b d =
     (if \<not> tm_verify_enable_line d then (True, d)
      else
        (case read_register b reg_IOIN d of
           (None, d) \<Rightarrow> (False, set_unhealthy (report_error (chip_text d @ '': IOIN read failed while verifying enable'') d))
         | (Some ioin, d) \<Rightarrow>
             if ioin_driver_disabled ioin
             then (False, set_unhealthy (report_error (chip_text d @ '': DRV_ENN still HIGH after driving enable line '' @
               show_nat (dc_enable_line (tm_cfg d)) @
               '' -- enable signal is not reaching the driver; the power stage stays off and the motor cannot move.'') d))
             else (True, d)))"

definition power_up :: "'w board \<Rightarrow> 'w tmc_driver \<Rightarrow> bool \<times> 'w tmc_driver" where
  "power_up b d =
     (let (ok, d) = write_register b reg_CHOPCONF (encode_chopconf 3) d
      in if \<not> ok then (False, set_unhealthy d)
         else
           (True, snd (check_driver_status b False False
              (d\<lparr>tm_enabled := True, tm_ot_latched := False, tm_otpw_now := False, tm_short_active := False,
                 tm_open_load_active := False, tm_mismatch_polls := 0\<rparr>))))"

definition tmc_enable_on :: "'w board \<Rightarrow> 'w tmc_driver \<Rightarrow> bool \<times> 'w tmc_driver" where
  "tmc_enable_on b d =
     (let (ok, d) = drive_enable_line b (\<not> dc_enable_active_low (tm_cfg d)) d
      in if \<not> ok then (False, d)
         else
           (let (ok, d) = (if tm_healthy d then (True, d) else tmc_reinitialize b d)
            in if \<not> ok then (False, d)
               else
                 (let (ok, d) = recover_from_reset b ''enable'' d
                  in if \<not> ok then (False, d)
                     else
                       (let (ok, d) = verify_enabled b (d\<lparr>tm_since_reset_check := 0\<rparr>)
                        in if \<not> ok then (False, d) else power_up b d))))"

definition tmc_enable :: "'w board \<Rightarrow> bool \<Rightarrow> 'w tmc_driver \<Rightarrow> bool \<times> 'w tmc_driver" where
  "tmc_enable b on d =
     (if \<not> tm_has_bus d then (False, d) else if on then tmc_enable_on b d else tmc_disable b d)"

text \<open>The destructor: disabled, and the lines given back at their safe levels.\<close>

definition tmc_destroy :: "'w board \<Rightarrow> 'w tmc_driver \<Rightarrow> 'w tmc_driver" where
  "tmc_destroy b d = (close_gpio b (snd (tmc_enable b False d)))\<lparr>tm_spi_open := False\<rparr>"

definition usable :: "'w tmc_driver \<Rightarrow> bool" where
  "usable d \<longleftrightarrow> tm_has_bus d \<and> tm_spi_open d \<and> tm_healthy d \<and> tm_enabled d"

definition tmc_poll :: "'w board \<Rightarrow> 'w tmc_driver \<Rightarrow> bool \<times> 'w tmc_driver" where
  "tmc_poll b d =
     (if \<not> usable d then (tm_healthy d, d)
      else
        (let (ok, d) = recover_from_reset b ''idle'' d
         in if \<not> ok then (False, d)
            else
              (let d = check_position b (snd (check_driver_status b False False d))
               in (tm_healthy d, d))))"

definition tmc_note_step_rate :: "dbl \<Rightarrow> bool \<Rightarrow> 'w tmc_driver \<Rightarrow> 'w tmc_driver" where
  "tmc_note_step_rate hz steady d =
     (if \<not> 0 < hz then d\<lparr>tm_rate := 0, tm_rate_steady := False, tm_move_open := False, tm_low_run := 0\<rparr>
      else
        (let d = (if tm_move_open d then d
                  else d\<lparr>tm_move_open := True, tm_samples := 0, tm_sg_last := 0, tm_sg_min := 0, tm_low_run := 0,
                         tm_since_sample := 0\<rparr>);
             was_active = stall_sampling_active d;
             d = d\<lparr>tm_rate := hz, tm_rate_steady := steady\<rparr>
         in if stall_sampling_active d \<and> \<not> was_active
            then d\<lparr>tm_since_sample := 0, tm_settle_samples := 1, tm_low_run := 0\<rparr>
            else if \<not> stall_sampling_active d then d\<lparr>tm_low_run := 0\<rparr> else d))"

definition tmc_confirm_target :: "'w board \<Rightarrow> 'w tmc_driver \<Rightarrow> bool \<times> 'w tmc_driver" where
  "tmc_confirm_target b d =
     (if \<not> usable d then (tm_healthy d, d)
      else
        (case read_register b reg_XTARGET d of
           (None, d) \<Rightarrow> (False, set_unhealthy d)
         | (Some xtarget, d) \<Rightarrow>
             if xtarget = tm_target d then (True, d)
             else
               (let (ok, d) = write_register b reg_XTARGET (tm_target d) (d\<lparr>tm_repairs := tm_repairs d + 1\<rparr>);
                    (ok, d) = (if ok then read_back b reg_XTARGET (tm_target d) d else (False, d))
                in if ok then (True, d)
                   else (False, set_unhealthy (report_error (chip_text d @ '': XTARGET does not hold the commanded target '' @
                     show_int (sint (tm_target d)) @ '' after a rewrite'') d)))))"

text \<open>A step: supervision when it is due, one write of the target, and the status byte of its reply.\<close>

definition step_supervision :: "'w board \<Rightarrow> 'w tmc_driver \<Rightarrow> bool \<times> 'w tmc_driver" where
  "step_supervision b d =
     (let active = stall_sampling_active d;
          sample = (active \<and> 4 * of_int (tm_microstep d) \<le> tm_since_sample d + 1);
          d = d\<lparr>tm_since_sample := (if active \<and> \<not> sample then tm_since_sample d + 1 else 0)\<rparr>;
          supervise = 64 \<le> tm_since_reset_check d + 1;
          d = d\<lparr>tm_since_reset_check := tm_since_reset_check d + 1\<rparr>;
          (ok, d) = (if supervise then recover_from_reset b ''step'' (d\<lparr>tm_since_reset_check := 0\<rparr>) else (True, d))
      in if \<not> ok then (False, d)
         else if supervise \<or> sample then check_driver_status b True sample d else (True, d))"

definition next_target :: "bool \<Rightarrow> 'w tmc_driver \<Rightarrow> 32 word" where
  "next_target forward d =
     (if forward \<noteq> dc_invert_direction (tm_cfg d) then tm_target d + delta_xtarget (tm_microstep d)
      else tm_target d - delta_xtarget (tm_microstep d))"

definition step_status :: "'w board \<Rightarrow> 'w tmc_driver \<Rightarrow> bool \<times> 'w tmc_driver" where
  "step_status b d =
     (if 0 < tm_holdoff d then (True, d\<lparr>tm_holdoff := tm_holdoff d - 1\<rparr>)
      else if tm_spi_status d AND 3 = 0 then (True, d)
      else
        (let (ok, d) = recover_from_reset b ''step'' (d\<lparr>tm_holdoff := 8, tm_since_reset_check := 0\<rparr>)
         in if \<not> ok then (False, d) else check_driver_status b True False d))"

definition tmc_step :: "'w board \<Rightarrow> bool \<Rightarrow> 'w tmc_driver \<Rightarrow> bool \<times> 'w tmc_driver" where
  "tmc_step b forward d =
     (if \<not> tm_healthy d \<or> \<not> tm_enabled d \<or> tm_short_active d then (False, d)
      else
        (let (ok, d) = step_supervision b (d\<lparr>tm_mismatch_polls := 0\<rparr>)
         in if \<not> ok then (False, d)
            else
              (let t = next_target forward d; (ok, d) = write_register b reg_XTARGET t d
               in if \<not> ok then (False, set_unhealthy d)
                  else step_status b (d\<lparr>tm_target := t, tm_pulses := tm_pulses d + 1\<rparr>))))"

definition tmc_set_microstep :: "'w board \<Rightarrow> int \<Rightarrow> 'w tmc_driver \<Rightarrow> 'w tmc_driver" where
  "tmc_set_microstep b divisor d =
     (if encode_mres divisor = None then set_unhealthy d
      else
        (let d = d\<lparr>tm_microstep := divisor\<rparr>
         in if \<not> tm_healthy d then d
            else
              (let c = chip_chopconf d; (ok, d) = write_register b reg_CHOPCONF c d;
                   (ok, d) = (if ok then read_back b reg_CHOPCONF c d else (False, d))
               in if ok then d else set_unhealthy d)))"

definition tmc_set_run_current :: "'w board \<Rightarrow> dbl \<Rightarrow> 'w tmc_driver \<Rightarrow> string option \<times> 'w tmc_driver" where
  "tmc_set_run_current b a d =
     (let c = tm_cfg d in
      case calculate_current a (dc_sense_ohm c) (dc_hold_frac c) of
        None \<Rightarrow>
          (Some (''current '' @ show_double a @ '' A_rms not deliverable with sense_resistor_ohm='' @
             show_double (dc_sense_ohm c) @ '' (peak ceiling '' @ show_double (vfs / dc_sense_ohm c) @ '' A)''), d)
      | Some cur \<Rightarrow>
          if \<not> tm_healthy d then (Some ''driver unhealthy; recover the module before changing current'', d)
          else
            (let (ok, d) = write_registers b
                   [(reg_GLOBALSCALER, encode_globalscaler (cur_globalscaler cur)),
                    (reg_IHOLD_IRUN, encode_ihold_irun (cur_ihold cur) (cur_irun cur))] d
             in if ok then (None, d\<lparr>tm_cfg := (tm_cfg d)\<lparr>dc_run_current := a\<rparr>\<rparr>)
                else (Some ''SPI write failed while setting current'', set_unhealthy d)))"

definition tmc_thermal_state :: "'w tmc_driver \<Rightarrow> int" where
  "tmc_thermal_state d = (if tm_ot_latched d then 2 else if tm_otpw_now d then 1 else 0)"

definition tmc_take_step_loss_stop :: "'w tmc_driver \<Rightarrow> bool \<times> 'w tmc_driver" where
  "tmc_take_step_loss_stop d = (tm_loss_stop d, d\<lparr>tm_loss_stop := False\<rparr>)"

definition count_text :: "32 word \<Rightarrow> string" where
  "count_text n = show_nat (unat n)"

fun join_pieces :: "string list \<Rightarrow> string" where
  "join_pieces [] = []"
| "join_pieces [p] = p"
| "join_pieces (p # ps) = p @ ''; '' @ join_pieces ps"

definition tmc_warnings :: "'w tmc_driver \<Rightarrow> string list" where
  "tmc_warnings d =
     (let cs = show_nat (dc_cs_line (tm_cfg d)); piece = (\<lambda>b t. if b then [t] else []) in
      piece (\<not> tm_enable_line_effective d)
        (''enable line '' @ show_nat (dc_enable_line (tm_cfg d)) @ '' has no effect on DRV_ENN (cs='' @ cs @
         ''): the power stage cannot be de-energised through EN; STEPPER_DISABLE stops the chopper only'') @
      piece (0 < tm_reset_count d)
        (''chip reset '' @ count_text (tm_reset_count d) @ ''x since boot (cs='' @ cs @
         ''): VM or VCC_IO dropped and the configuration was lost -- restored each time, but the motor stalls until then; check the 12 V motor supply and its current limit'') @
      (if tm_ot_latched d
       then [''driver OVER-TEMPERATURE shutdown (die >= ~150 C, cs='' @ cs @
         ''): outputs cut and channel disabled; let it cool, then STEPPER_ENABLE to re-arm'']
       else piece (tm_otpw_now d \<or> 0 < tm_otpw_events d)
         (''driver over-temperature pre-warning (die >= ~120 C) '' @ (if tm_otpw_now d then ''ACTIVE'' else ''seen'') @
          CHR '' '' # count_text (tm_otpw_events d) @ ''x (cs='' @ cs @ ''): reduce run current or duty cycle'')) @
      piece (0 < tm_uv_events d)
        (''motor supply undervoltage '' @ count_text (tm_uv_events d) @
         ''x (uv_cp): the power stage was off while the supply was low -- check the 12 V motor supply'') @
      piece (0 < tm_short_events d)
        (''short circuit on a motor coil '' @ count_text (tm_short_events d) @ CHR ''x'' #
         (if tm_short_active d then '' ACTIVE'' else []) @
         '': check the motor wiring; STEPPER_DISABLE then STEPPER_ENABLE re-arms the bridge'') @
      piece (0 < tm_open_load_events d)
        (''open load flagged '' @ count_text (tm_open_load_events d) @
         ''x while stepping (ola/olb): check the motor connector and coils'') @
      piece (0 < tm_verdicts d)
        (''StallGuard stall verdict '' @ count_text (tm_verdicts d) @ ''x (stall_detect='' @
         stall_detect_name (dc_stall_detect (tm_cfg d)) @ CHR '')'' # []) @
      piece (0 < tm_repairs d)
        (''XTARGET rewritten '' @ count_text (tm_repairs d) @
         ''x after a readback mismatch: SPI writes are being corrupted''))"

definition tmc_warning :: "'w tmc_driver \<Rightarrow> string" where
  "tmc_warning d = join_pieces (tmc_warnings d)"

definition tmc_ops :: "'w board \<Rightarrow> 'w tmc_driver driver_ops" where
  "tmc_ops b =
     \<lparr>drv_enable = tmc_enable b, drv_step = tmc_step b, drv_set_microstep = tmc_set_microstep b,
      drv_healthy = tm_healthy, drv_active_check = tmc_reinitialize b, drv_set_run_current = tmc_set_run_current b,
      drv_run_current = (\<lambda>d. dc_run_current (tm_cfg d)), drv_thermal_state = tmc_thermal_state,
      drv_spi_bus_ok = tm_spi_bus_ok, drv_last_error = tm_last_error, drv_warning = tmc_warning,
      drv_poll = tmc_poll b, drv_pulses_issued = tm_pulses, drv_step_loss_events = tm_loss_count,
      drv_step_loss_reason = tm_loss_reason, drv_take_step_loss_stop = tmc_take_step_loss_stop,
      drv_confirm_target = tmc_confirm_target b, drv_note_step_rate = tmc_note_step_rate\<rparr>"

subsection \<open>The register dump\<close>

definition bit_text :: "32 word \<Rightarrow> nat \<Rightarrow> string" where
  "bit_text v n = show_nat (unat (drop_bit n v AND 1))"

definition sign_extend_field :: "nat \<Rightarrow> int \<Rightarrow> int" where
  "sign_extend_field n v = (if v AND 2 ^ (n - 1) \<noteq> 0 then v - 2 ^ n else v)"

fun read_all :: "'w board \<Rightarrow> 8 word list \<Rightarrow> 'w tmc_driver \<Rightarrow> 32 word list option \<times> 'w tmc_driver" where
  "read_all b [] d = (Some [], d)"
| "read_all b (a # as) d =
     (case read_register b a d of
        (None, d) \<Rightarrow> (None, d)
      | (Some v, d) \<Rightarrow> (let (vs, d) = read_all b as d in (map_option (\<lambda>vs. v # vs) vs, d)))"

definition debug_addresses :: "8 word list" where
  "debug_addresses =
     [reg_XACTUAL, reg_XTARGET, reg_VACTUAL, reg_MSCNT, reg_DRV_STATUS, reg_RAMPSTAT, reg_TSTEP, reg_IOIN, reg_GSTAT,
      reg_CHOPCONF, reg_PWM_SCALE, reg_PWM_AUTO]"

definition dump_motion :: "32 word list \<Rightarrow> string" where
  "dump_motion v =
     ''xactual='' @ show_int (sint (v ! 0)) @ '';xtarget='' @ show_int (sint (v ! 1)) @
     '';vactual='' @ show_int (sign_extend_field 24 (uint (v ! 2 AND 0xFFFFFF))) @
     '';mscnt='' @ count_text (v ! 3 AND 0x3FF) @ '';tstep='' @ count_text (v ! 6 AND 0xFFFFF)"

definition dump_driver :: "32 word \<Rightarrow> string" where
  "dump_driver drv =
     '';drv_status=0x'' @ show_hex (unat drv) @ '';stst='' @ bit_text drv 31 @
     '';cs_actual='' @ count_text (drop_bit 16 drv AND 0x1F) @ '';sg_result='' @ count_text (drv AND 0x3FF) @
     '';stallguard='' @ bit_text drv 24 @ '';ot='' @ bit_text drv 25 @ '';otpw='' @ bit_text drv 26 @
     '';s2ga='' @ bit_text drv 27 @ '';s2gb='' @ bit_text drv 28 @ '';ola='' @ bit_text drv 29 @
     '';olb='' @ bit_text drv 30 @ '';s2vsa='' @ bit_text drv 12 @ '';s2vsb='' @ bit_text drv 13 @
     '';stealth='' @ bit_text drv 14 @ '';fsactive='' @ bit_text drv 15"

definition dump_chip :: "32 word list \<Rightarrow> 'w tmc_driver \<Rightarrow> string" where
  "dump_chip v d =
     (let ramp = v ! 5; ioin = v ! 7; gstat = v ! 8; chop = v ! 9; scale = v ! 10; auto = v ! 11;
          mres = unat (drop_bit 24 chop AND 0xF) in
      '';rampstat=0x'' @ show_hex (unat (ramp AND 0x3FFF)) @ '';vzero='' @ bit_text ramp 10 @
      '';pos_reached='' @ bit_text ramp 9 @ '';vel_reached='' @ bit_text ramp 8 @ '';status_sg='' @ bit_text ramp 13 @
      '';ioin=0x'' @ show_hex (unat ioin) @ '';drv_enn='' @ flag_text (ioin_driver_disabled ioin) @
      '';sd_mode='' @ flag_text (ioin_step_dir_mode ioin) @ '';version=0x'' @ show_hex (unat (drop_bit 24 ioin)) @
      '';gstat=0x'' @ show_hex (unat (gstat AND 7)) @ '';chopconf=0x'' @ show_hex (unat chop) @
      '';toff='' @ count_text (chop AND 0xF) @ '';mres='' @ show_nat mres @ '';usteps='' @ show_nat (256 div 2 ^ mres) @
      '';resets='' @ count_text (tm_reset_count d) @ '';pwm_scale_sum='' @ count_text (scale AND 0xFF) @
      '';pwm_scale_auto='' @ show_int (sign_extend_field 9 (uint (drop_bit 16 scale AND 0x1FF))) @
      '';pwm_ofs_auto='' @ count_text (auto AND 0xFF) @ '';pwm_grad_auto='' @ count_text (drop_bit 16 auto AND 0xFF))"

definition dump_supervision :: "'w tmc_driver \<Rightarrow> string" where
  "dump_supervision d =
     '';drv_loss='' @ show_nat (unat (tm_loss_count d)) @ '';stall_mode='' @ stall_detect_name (dc_stall_detect (tm_cfg d)) @
     '';sgt='' @ show_int (dc_sgt (tm_cfg d)) @ '';sg_thr='' @ show_int (dc_stall_sg_min (tm_cfg d)) @
     (if 0 < tm_samples d then '';sg_last='' @ show_int (tm_sg_last d) @ '';sg_min='' @ show_int (tm_sg_min d)
      else '';sg_last=-;sg_min=-'') @
     '';sg_n='' @ count_text (tm_samples d) @ '';stalls='' @ count_text (tm_verdicts d) @
     '';uv='' @ count_text (tm_uv_events d) @ '';shorts='' @ count_text (tm_short_events d) @
     '';openload='' @ count_text (tm_open_load_events d) @ '';xt_repairs='' @ count_text (tm_repairs d)"

definition debug_registers :: "'w board \<Rightarrow> 'w tmc_driver \<Rightarrow> string \<times> 'w tmc_driver" where
  "debug_registers b d =
     (if \<not> tm_has_bus d \<or> \<not> tm_spi_open d then ([], d)
      else
        (case read_all b debug_addresses d of
           (None, d) \<Rightarrow> ([], d)
         | (Some v, d) \<Rightarrow> (dump_motion v @ dump_driver (v ! 4) @ dump_chip v d @ dump_supervision d, d)))"

end
