(* ===== verification/Tmc5160Laws.thy ===== *)
theory Tmc5160Laws
  imports Tmc5160
begin

text \<open>
  What the calls of the TMC5160 driver leave alone, and the laws of its pulse counter: the locale
  \<open>pulse_driver\<close> of the driver interface is interpreted on \<open>tmc_ops\<close>, for any board.
\<close>

subsection \<open>What a call leaves alone\<close>

text \<open>Below the interface nothing touches the count of pulses or the enable flag.\<close>

definition same_counts :: "'w tmc_driver \<Rightarrow> 'w tmc_driver \<Rightarrow> bool" where
  "same_counts d d' \<longleftrightarrow> tm_pulses d' = tm_pulses d \<and> tm_enabled d' = tm_enabled d"

named_theorems counts

lemma same_counts_refl [simp]: "same_counts d d"
  by (simp add: same_counts_def)

lemma transfer_counts [counts]: "tmc_transfer b tx d = (rx, d') \<Longrightarrow> same_counts d d'"
  by (auto simp: tmc_transfer_def bus_failed_def same_counts_def Let_def split: if_splits prod.splits)

lemma write_register_counts [counts]: "write_register b a v d = (ok, d') \<Longrightarrow> same_counts d d'"
  by (auto simp: write_register_def same_counts_def split: prod.splits option.splits dest!: counts)

lemma read_register_counts [counts]: "read_register b a d = (r, d') \<Longrightarrow> same_counts d d'"
  by (auto simp: read_register_def same_counts_def split: prod.splits option.splits dest!: counts)

lemma write_registers_counts [counts]: "write_registers b ws d = (ok, d') \<Longrightarrow> same_counts d d'"
  by (induction b ws d arbitrary: d' rule: write_registers.induct)
    (auto simp: same_counts_def split: prod.splits if_splits dest!: counts)

lemma read_back_counts [counts]: "read_back b a v d = (ok, d') \<Longrightarrow> same_counts d d'"
  by (auto simp: read_back_def same_counts_def split: prod.splits dest!: counts)

lemma close_gpio_counts [simp]: "tm_pulses (close_gpio b d) = tm_pulses d" "tm_enabled (close_gpio b d) = tm_enabled d"
  by (simp_all add: close_gpio_def Let_def)

lemma open_gpio_counts [counts]: "open_gpio b d = (ok, d') \<Longrightarrow> same_counts d d'"
  by (auto simp: open_gpio_def same_counts_def Let_def split: prod.splits if_splits)

lemma open_spi_counts [counts]: "open_spi b d = (ok, d') \<Longrightarrow> same_counts d d'"
  by (auto simp: open_spi_def same_counts_def Let_def split: prod.splits if_splits)

lemma reopen_counts [counts]: "reopen b d = (ok, d') \<Longrightarrow> same_counts d d'"
  by (auto simp: reopen_def same_counts_def Let_def split: prod.splits if_splits dest!: counts)

lemma identify_counts [counts]: "identify b d = (ok, d') \<Longrightarrow> same_counts d d'"
  by (auto simp: identify_def report_error_def same_counts_def split: prod.splits option.splits dest!: counts)

lemma configure_counts [counts]: "configure b d = (ok, d') \<Longrightarrow> same_counts d d'"
  by (auto simp: configure_def same_counts_def Let_def split: prod.splits option.splits if_splits dest!: counts)

lemma reinitialize_counts [counts]: "tmc_reinitialize b d = (ok, d') \<Longrightarrow> same_counts d d'"
  by (auto simp: tmc_reinitialize_def set_unhealthy_def same_counts_def Let_def split: prod.splits if_splits dest!: counts)

lemma record_step_loss_fields [simp]:
  "tm_pulses (record_step_loss t st d) = tm_pulses d" "tm_enabled (record_step_loss t st d) = tm_enabled d"
  "tm_healthy (record_step_loss t st d) = tm_healthy d" "tm_world (record_step_loss t st d) = tm_world d"
  by (simp_all add: record_step_loss_def)

lemma note_thermal_fields [simp]:
  "tm_pulses (note_thermal drv d) = tm_pulses d" "tm_enabled (note_thermal drv d) = tm_enabled d"
  "tm_healthy (note_thermal drv d) = tm_healthy d" "tm_world (note_thermal drv d) = tm_world d"
  by (simp_all add: note_thermal_def Let_def)

lemma note_short_fields [simp]:
  "tm_pulses (note_short st drv d) = tm_pulses d" "tm_enabled (note_short st drv d) = tm_enabled d"
  "tm_healthy (note_short st drv d) = tm_healthy d" "tm_world (note_short st drv d) = tm_world d"
  by (simp_all add: note_short_def Let_def)

lemma note_driver_error_fields [simp]:
  "tm_pulses (note_driver_error drv d) = tm_pulses d" "tm_enabled (note_driver_error drv d) = tm_enabled d"
  "tm_healthy (note_driver_error drv d) = tm_healthy d" "tm_world (note_driver_error drv d) = tm_world d"
  by (simp_all add: note_driver_error_def Let_def)

lemma note_open_load_fields [simp]:
  "tm_pulses (note_open_load drv d) = tm_pulses d" "tm_enabled (note_open_load drv d) = tm_enabled d"
  "tm_healthy (note_open_load drv d) = tm_healthy d" "tm_world (note_open_load drv d) = tm_world d"
  by (simp_all add: note_open_load_def Let_def)

lemma note_status_fields [simp]:
  "tm_pulses (note_status st drv d) = tm_pulses d" "tm_enabled (note_status st drv d) = tm_enabled d"
  "tm_healthy (note_status st drv d) = tm_healthy d" "tm_world (note_status st drv d) = tm_world d"
  by (simp_all add: note_status_def Let_def)

lemma take_sample_counts [counts]: "take_sample drv d = (ok, d') \<Longrightarrow> same_counts d d'"
  by (auto simp: take_sample_def same_counts_def Let_def split: if_splits)

lemma check_driver_status_counts [counts]: "check_driver_status b st sample d = (ok, d') \<Longrightarrow> same_counts d d'"
  by (auto simp: check_driver_status_def same_counts_def Let_def split: prod.splits option.splits if_splits dest!: counts)

lemma check_driver_status_snd [simp]:
  "tm_pulses (snd (check_driver_status b st sample d)) = tm_pulses d"
  "tm_enabled (snd (check_driver_status b st sample d)) = tm_enabled d"
  by (cases "check_driver_status b st sample d"; auto simp: same_counts_def dest!: counts)+

lemma note_supply_fields [simp]:
  "tm_pulses (note_supply g d) = tm_pulses d" "tm_enabled (note_supply g d) = tm_enabled d"
  "tm_healthy (note_supply g d) = tm_healthy d" "tm_world (note_supply g d) = tm_world d"
  by (simp_all add: note_supply_def Let_def)

lemma after_reset_counts [counts]: "after_reset b found d = (ok, d') \<Longrightarrow> same_counts d d'"
  by (auto simp: after_reset_def set_unhealthy_def same_counts_def Let_def split: prod.splits if_splits dest!: counts)

lemma recover_counts [counts]: "recover_from_reset b found d = (ok, d') \<Longrightarrow> same_counts d d'"
  by (auto simp: recover_from_reset_def set_unhealthy_def report_error_def same_counts_def Let_def
      split: prod.splits option.splits if_splits dest!: counts)

lemma check_position_counts [simp]:
  "tm_pulses (check_position b d) = tm_pulses d" "tm_enabled (check_position b d) = tm_enabled d"
  by (auto simp: check_position_def set_unhealthy_def report_error_def record_step_loss_def same_counts_def Let_def
      split: prod.splits option.splits if_splits dest!: counts)

lemma freeze_counts [counts]: "freeze b d = (ok, d') \<Longrightarrow> same_counts d d'"
  by (auto simp: freeze_def same_counts_def Let_def split: prod.splits option.splits if_splits dest!: counts)

lemma line_counts [counts]: "drive_enable_line b v d = (ok, d') \<Longrightarrow> same_counts d d'"
  by (auto simp: drive_enable_line_def same_counts_def Let_def split: prod.splits if_splits)

lemma verify_enabled_counts [counts]: "verify_enabled b d = (ok, d') \<Longrightarrow> same_counts d d'"
  by (auto simp: verify_enabled_def set_unhealthy_def report_error_def same_counts_def split: prod.splits option.splits if_splits dest!: counts)

lemma step_supervision_counts [counts]: "step_supervision b d = (ok, d') \<Longrightarrow> same_counts d d'"
  by (auto simp: step_supervision_def same_counts_def Let_def split: prod.splits if_splits dest!: counts)

lemma step_status_counts [counts]: "step_status b d = (ok, d') \<Longrightarrow> same_counts d d'"
  by (auto simp: step_status_def same_counts_def Let_def split: prod.splits if_splits dest!: counts)

text \<open>At the interface.\<close>

lemma power_down_pulses: "power_down b d = (ok, d') \<Longrightarrow> tm_pulses d' = tm_pulses d \<and> \<not> tm_enabled d'"
  by (auto simp: power_down_def set_unhealthy_def same_counts_def Let_def split: prod.splits if_splits dest!: counts)

lemma disable_pulses: "tmc_disable b d = (ok, d') \<Longrightarrow> tm_pulses d' = tm_pulses d \<and> \<not> tm_enabled d'"
  by (auto simp: tmc_disable_def set_unhealthy_def report_error_def same_counts_def Let_def
      split: prod.splits option.splits if_splits dest!: counts power_down_pulses)

lemma power_up_pulses: "power_up b d = (ok, d') \<Longrightarrow> tm_pulses d' = tm_pulses d \<and> (ok \<longrightarrow> tm_enabled d')"
  by (auto simp: power_up_def set_unhealthy_def same_counts_def Let_def split: prod.splits if_splits dest!: counts)

lemma enable_on_pulses: "tmc_enable_on b d = (ok, d') \<Longrightarrow> tm_pulses d' = tm_pulses d \<and> (ok \<longrightarrow> tm_enabled d')"
  by (auto simp: tmc_enable_on_def same_counts_def Let_def split: prod.splits if_splits dest!: counts power_up_pulses)

lemma enable_pulses: "tm_pulses (snd (tmc_enable b on d)) = tm_pulses d"
  by (cases "tmc_enable_on b d"; cases "tmc_disable b d")
    (simp add: tmc_enable_def disable_pulses enable_on_pulses)

lemma check_pulses: "tm_pulses (snd (tmc_reinitialize b d)) = tm_pulses d"
  by (cases "tmc_reinitialize b d") (auto simp: same_counts_def dest!: counts)

lemma poll_pulses: "tm_pulses (snd (tmc_poll b d)) = tm_pulses d"
  by (auto simp: tmc_poll_def same_counts_def Let_def split: prod.splits if_splits dest!: counts)

lemma confirm_target_pulses: "tm_pulses (snd (tmc_confirm_target b d)) = tm_pulses d"
  by (auto simp: tmc_confirm_target_def set_unhealthy_def report_error_def same_counts_def Let_def
      split: prod.splits option.splits if_splits dest!: counts)

lemma microstep_pulses: "tm_pulses (tmc_set_microstep b n d) = tm_pulses d"
  by (auto simp: tmc_set_microstep_def set_unhealthy_def same_counts_def Let_def split: prod.splits if_splits dest!: counts)

lemma rate_pulses: "tm_pulses (tmc_note_step_rate hz st d) = tm_pulses d"
  by (simp add: tmc_note_step_rate_def Let_def)

lemma step_pulses:
  "tmc_step b fwd d = (ok, d') \<Longrightarrow> tm_pulses d' = tm_pulses d + 1 \<or> \<not> ok \<and> tm_pulses d' = tm_pulses d"
  by (auto simp: tmc_step_def set_unhealthy_def same_counts_def Let_def split: prod.splits if_splits dest!: counts)

interpretation tmc: pulse_driver "tmc_ops b" for b :: "'w board"
  by unfold_locales
    (auto simp: tmc_ops_def enable_pulses check_pulses poll_pulses confirm_target_pulses microstep_pulses rate_pulses
      tmc_take_step_loss_stop_def dest: step_pulses)

end
