(* ===== verification/Tmc5160Chopper.thy ===== *)
theory Tmc5160Chopper
  imports Tmc5160Laws
begin

text \<open>
  Two invariants of the TMC5160 driver under any sequence of calls of its interface, any failure of bus and lines and any
  reset of the chip: a healthy, disabled driver has stopped the chopper; on a bus without a chip the driver is
  never healthy and never issues a pulse.
\<close>

subsection \<open>The chopper\<close>

text \<open>The current in the coils flows while the TOFF field of CHOPCONF is not zero.  What the driver relies on: the chip
  changes CHOPCONF only on a datagram that writes it, which it may miss when the transfer fails, and it comes out of a
  reset, which may happen at any moment, with TOFF 0.\<close>

definition chopper_off :: "32 word \<Rightarrow> bool" where
  "chopper_off c \<longleftrightarrow> c AND 0x0F = 0"

definition chop_kept :: "('w \<Rightarrow> 32 word) \<Rightarrow> 'w \<Rightarrow> 'w \<Rightarrow> bool" where
  "chop_kept chop w w' \<longleftrightarrow> chop w' = chop w \<or> chopper_off (chop w')"

definition chop_sent :: "('w \<Rightarrow> 32 word) \<Rightarrow> 8 word list \<Rightarrow> 8 word list option \<Rightarrow> 'w \<Rightarrow> 'w \<Rightarrow> bool" where
  "chop_sent chop tx rx w w' \<longleftrightarrow>
     (\<nexists>v. tx = write_datagram reg_CHOPCONF v) \<and> chop_kept chop w w' \<or>
     (\<exists>v. tx = write_datagram reg_CHOPCONF v \<and>
        (chop w' = v \<or> chopper_off (chop w') \<or> rx = None \<and> chop w' = chop w))"

definition chip_chopper :: "'w board \<Rightarrow> ('w \<Rightarrow> 32 word) \<Rightarrow> bool" where
  "chip_chopper b chop \<longleftrightarrow>
     (\<forall>dev m hz cs w ok w'. brd_open b dev m hz cs w = (ok, w') \<longrightarrow> chop_kept chop w w') \<and>
     (\<forall>ch l v i w ok w'. brd_request b ch l v i w = (ok, w') \<longrightarrow> chop_kept chop w w') \<and>
     (\<forall>l v w ok w'. brd_set b l v w = (ok, w') \<longrightarrow> chop_kept chop w w') \<and>
     (\<forall>l w. chop_kept chop w (brd_release b l w)) \<and>
     (\<forall>tx w rx w'. brd_transfer b tx w = (rx, w') \<longrightarrow> chop_sent chop tx rx w w')"

definition chop_safe :: "('w \<Rightarrow> 32 word) \<Rightarrow> 'w tmc_driver \<Rightarrow> bool" where
  "chop_safe chop d \<longleftrightarrow> tm_enabled d \<or> chopper_off (chop (tm_world d))"

text \<open>A piece of driver code that keeps the enable flag, never starts the chopper of a disabled driver, and makes the
  driver healthy only when the chopper is right.\<close>

definition quiet :: "('w \<Rightarrow> 32 word) \<Rightarrow> 'w tmc_driver \<Rightarrow> 'w tmc_driver \<Rightarrow> bool" where
  "quiet chop d d' \<longleftrightarrow>
     tm_enabled d' = tm_enabled d \<and> (chop_safe chop d \<longrightarrow> chop_safe chop d') \<and>
     (tm_healthy d' \<longrightarrow> tm_healthy d \<or> chop_safe chop d')"

lemmas quiet_defs = quiet_def chop_safe_def

lemma quiet_refl [simp]: "quiet chop d d"
  by (simp add: quiet_def)

lemma quiet_trans: "quiet chop d d1 \<Longrightarrow> quiet chop d1 d2 \<Longrightarrow> quiet chop d d2"
  by (auto simp: quiet_def)

lemma quiet_world:
  "chop_kept chop (tm_world d) (tm_world d') \<Longrightarrow> tm_enabled d' = tm_enabled d \<Longrightarrow> tm_healthy d' \<longrightarrow> tm_healthy d \<Longrightarrow>
     quiet chop d d'"
  by (auto simp: quiet_defs chop_kept_def)

lemma chop_kept_refl [simp]: "chop_kept chop w w"
  by (simp add: chop_kept_def)

lemma chop_kept_trans: "chop_kept chop w w1 \<Longrightarrow> chop_kept chop w1 w2 \<Longrightarrow> chop_kept chop w w2"
  by (auto simp: chop_kept_def)

lemma chip_open: "chip_chopper b chop \<Longrightarrow> brd_open b dev m hz cs w = (ok, w') \<Longrightarrow> chop_kept chop w w'"
  unfolding chip_chopper_def by (drule conjunct1) blast

lemma chip_request: "chip_chopper b chop \<Longrightarrow> brd_request b ch l v i w = (ok, w') \<Longrightarrow> chop_kept chop w w'"
  unfolding chip_chopper_def by blast

lemma chip_set: "chip_chopper b chop \<Longrightarrow> brd_set b l v w = (ok, w') \<Longrightarrow> chop_kept chop w w'"
  unfolding chip_chopper_def by blast

lemma chip_release: "chip_chopper b chop \<Longrightarrow> chop_kept chop w (brd_release b l w)"
  unfolding chip_chopper_def by blast

lemma chip_transfer: "chip_chopper b chop \<Longrightarrow> brd_transfer b tx w = (rx, w') \<Longrightarrow> chop_sent chop tx rx w w'"
  unfolding chip_chopper_def by blast

lemma read_is_no_write: "read_datagram a \<noteq> write_datagram reg_CHOPCONF v"
proof
  assume "read_datagram a = write_datagram reg_CHOPCONF v"
  then have "a AND 0x7F = 0xEC" by (simp add: read_datagram_def write_datagram_def)
  moreover have "(a AND 0x7F) AND 0x80 = 0" by (simp add: and.assoc)
  ultimately show False by simp
qed

lemma word_bytes_back: "word_of_bytes (s # word_bytes v) = v"
proof (rule bit_word_eqI)
  have m: "0xFF = (mask 8 :: 32 word)" by (simp add: mask_eq_exp_minus_1)
  fix n assume "n < LENGTH(32)"
  then consider "n < 8" | "8 \<le> n" "n < 16" | "16 \<le> n" "n < 24" | "24 \<le> n" "n < 32" by force
  then show "bit (word_of_bytes (s # word_bytes v)) n \<longleftrightarrow> bit v n"
    by cases (simp_all add: word_of_bytes_def word_bytes_def byte_at_def m bit_or_iff bit_push_bit_iff bit_ucast_iff
      bit_and_iff bit_drop_bit_eq bit_mask_iff less_diff_conv2)
qed

lemma word_bytes_inj: "word_bytes v = word_bytes v' \<longleftrightarrow> v = v'"
  using word_bytes_back by metis

definition writes_safe :: "8 word list \<Rightarrow> 'w tmc_driver \<Rightarrow> bool" where
  "writes_safe tx d \<longleftrightarrow> (\<forall>v. tx = write_datagram reg_CHOPCONF v \<longrightarrow> tm_enabled d \<or> chopper_off v)"

lemma transfer_quiet:
  assumes c: "chip_chopper b chop" and t: "tmc_transfer b tx d = (rx, d')" and s: "writes_safe tx d"
  shows "quiet chop d d'"
proof -
  have k: "tm_enabled d \<or> chop_kept chop w w'" if "brd_transfer b tx w = (r, w')" for w r w'
    using chip_transfer [OF c that] s by (auto simp: chop_kept_def writes_safe_def chop_sent_def)
  have "tm_enabled d \<or> chop_kept chop (tm_world d) (tm_world d')"
    using t by (auto simp: tmc_transfer_def bus_failed_def Let_def split: if_splits prod.splits
        dest!: k chip_set [OF c] dest: chop_kept_trans)
  moreover have "tm_enabled d' = tm_enabled d" "tm_healthy d' = tm_healthy d"
    using t by (auto simp: tmc_transfer_def bus_failed_def Let_def split: if_splits prod.splits)
  ultimately show ?thesis by (auto simp: quiet_defs chop_kept_def)
qed

lemma transfer_chop:
  assumes c: "chip_chopper b chop" and t: "tmc_transfer b (write_datagram reg_CHOPCONF v) d = (Some rx, d')"
    and v: "chopper_off v"
  shows "chopper_off (chop (tm_world d'))"
proof -
  have k: "chopper_off (chop w')" if "brd_transfer b (write_datagram reg_CHOPCONF v) w = (Some r, w')" for w r w'
    using chip_transfer [OF c that] v
    by (auto simp: chop_sent_def write_datagram_def word_bytes_inj)
  then show ?thesis using t
    by (auto simp: tmc_transfer_def bus_failed_def Let_def chop_kept_def split: if_splits prod.splits dest!: chip_set [OF c])
qed

named_theorems quiets

lemma chopconf_off [simp]: "chopper_off (encode_chopconf 0)"
  by (simp add: chopper_off_def encode_chopconf_def push_bit_eq_mult)

lemma chip_chopconf_off: "tm_enabled d \<or> chopper_off (chip_chopconf d)"
  by (simp add: chip_chopconf_def)

lemma write_quiet [quiets]:
  assumes "write_register b a v d = (ok, d')" "chip_chopper b chop" "a OR 0x80 \<noteq> 0xEC \<or> tm_enabled d \<or> chopper_off v"
  shows "quiet chop d d'"
proof -
  have s: "writes_safe (write_datagram a v) d"
    using assms(3) by (auto simp: writes_safe_def write_datagram_def word_bytes_inj)
  from assms(1) obtain rx d1 where t: "tmc_transfer b (write_datagram a v) d = (rx, d1)"
    and w: "tm_world d' = tm_world d1" "tm_enabled d' = tm_enabled d1" "tm_healthy d' = tm_healthy d1"
    by (auto simp: write_register_def split: prod.splits option.splits)
  from transfer_quiet [OF assms(2) t s] w show ?thesis by (auto simp: quiet_defs)
qed

lemma write_chopconf:
  "write_register b reg_CHOPCONF v d = (True, d') \<Longrightarrow> chip_chopper b chop \<Longrightarrow> chopper_off v \<Longrightarrow>
     chopper_off (chop (tm_world d'))"
  by (auto simp: write_register_def split: prod.splits option.splits dest: transfer_chop)

lemma read_quiet [quiets]: "read_register b a d = (r, d') \<Longrightarrow> chip_chopper b chop \<Longrightarrow> quiet chop d d'"
proof -
  assume r: "read_register b a d = (r, d')" and c: "chip_chopper b chop"
  have s: "writes_safe (read_datagram a) x" for x :: "'a tmc_driver"
    by (simp add: writes_safe_def read_is_no_write)
  obtain rx d1 where 1: "tmc_transfer b (read_datagram a) d = (rx, d1)" by fastforce
  obtain rx' d2 where 2: "tmc_transfer b (read_datagram a) d1 = (rx', d2)" by fastforce
  note q = transfer_quiet [OF c 1 s] transfer_quiet [OF c 2 s]
  have "d' = d1 \<or> tm_world d' = tm_world d2 \<and> tm_enabled d' = tm_enabled d2 \<and> tm_healthy d' = tm_healthy d2"
    using r by (auto simp: read_register_def 1 2 split: option.splits)
  with q quiet_trans [OF q] show ?thesis by (auto simp: quiet_defs)
qed

lemma read_back_quiet [quiets]: "read_back b a v d = (ok, d') \<Longrightarrow> chip_chopper b chop \<Longrightarrow> quiet chop d d'"
  by (auto simp: read_back_def split: prod.splits dest: quiets)

lemma quiet_fields:
  "tm_world d' = tm_world d \<Longrightarrow> tm_enabled d' = tm_enabled d \<Longrightarrow> tm_healthy d' \<longrightarrow> tm_healthy d \<Longrightarrow> quiet chop d d'"
  by (simp add: quiet_defs)

lemma quiet_then:
  "quiet chop d d1 \<Longrightarrow> tm_world d' = tm_world d1 \<Longrightarrow> tm_enabled d' = tm_enabled d1 \<Longrightarrow>
     tm_healthy d' \<longrightarrow> tm_healthy d1 \<Longrightarrow> quiet chop d d'"
  by (rule quiet_trans [OF _ quiet_fields])

lemma write_registers_quiet:
  "write_registers b ws d = (ok, d') \<Longrightarrow> chip_chopper b chop \<Longrightarrow>
     \<forall>(a, v) \<in> set ws. a OR 0x80 \<noteq> 0xEC \<or> tm_enabled d \<or> chopper_off v \<Longrightarrow> quiet chop d d'"
proof (induction b ws d arbitrary: d' rule: write_registers.induct)
  case (2 b a v ws d)
  obtain ok1 d1 where w: "write_register b a v d = (ok1, d1)" by fastforce
  have q: "quiet chop d d1" using 2(4) by (intro write_quiet [OF w 2(3)]) simp
  show ?case
  proof (cases ok1)
    case True
    have "quiet chop d1 d'"
      using 2(2,3,4) w True q by (intro 2(1) [OF w [symmetric]]) (auto simp: quiet_def)
    with q show ?thesis by (rule quiet_trans)
  next
    case False
    with 2(2) w q show ?thesis by simp
  qed
qed simp

lemma chip_back:
  assumes "chip_chopper b chop"
  shows chip_set_back: "chop_kept chop w x \<Longrightarrow> chop_kept chop w (snd (brd_set b l v x))"
    and chip_release_back: "chop_kept chop w x \<Longrightarrow> chop_kept chop w (brd_release b l x)"
  using chip_set [OF assms prod.collapse [symmetric]] chip_release [OF assms] by (blast intro: chop_kept_trans)+

lemma close_gpio_quiet:
  assumes "chip_chopper b chop"
  shows "quiet chop d (close_gpio b d)"
proof (rule quiet_world)
  show "chop_kept chop (tm_world d) (tm_world (close_gpio b d))"
    by (auto simp: close_gpio_def Let_def intro!: chip_back [OF assms])
qed (simp_all add: close_gpio_def Let_def)

lemma open_gpio_quiet [quiets]:
  assumes "open_gpio b d = (ok, d')" "chip_chopper b chop"
  shows "quiet chop d d'"
proof (cases "tm_use_gpio d")
  case True
  let ?c = "tm_cfg d" and ?off = "dc_enable_active_low (tm_cfg d)"
  obtain cs w1 where 1: "brd_request b (dc_gpio_chip ?c) (dc_cs_line ?c) True True (tm_world d) = (cs, w1)" by fastforce
  obtain en w2 where 2: "brd_request b (dc_gpio_chip ?c) (dc_enable_line ?c) ?off ?off w1 = (en, w2)" by fastforce
  define d2 where "d2 = d\<lparr>tm_world := w2, tm_cs_held := cs, tm_enable_held := en\<rparr>"
  have "quiet chop d d2"
    using chop_kept_trans [OF chip_request [OF assms(2) 1] chip_request [OF assms(2) 2]]
    by (intro quiet_world) (simp_all add: d2_def)
  moreover have "d' = close_gpio b d2 \<or> d' = d2\<lparr>tm_gpio_healthy := True\<rparr>"
    using assms(1) True by (auto simp: open_gpio_def Let_def 1 2 d2_def split: if_splits)
  moreover have "quiet chop d2 (d2\<lparr>tm_gpio_healthy := True\<rparr>)" by (rule quiet_fields) simp_all
  ultimately show ?thesis by (metis quiet_trans close_gpio_quiet [OF assms(2)])
qed (use assms(1) in \<open>auto simp: open_gpio_def intro: quiet_fields\<close>)

lemma open_spi_quiet [quiets]:
  "open_spi b d = (ok, d') \<Longrightarrow> chip_chopper b chop \<Longrightarrow> quiet chop d d'"
  by (auto simp: open_spi_def Let_def split: prod.splits if_splits intro!: quiet_world dest: chip_open)

lemma reopen_quiet [quiets]:
  assumes "reopen b d = (ok, d')" "chip_chopper b chop"
  shows "quiet chop d d'"
proof -
  obtain g d1 where 1: "(if tm_use_gpio d \<and> \<not> tm_gpio_healthy d then open_gpio b (close_gpio b d) else (True, d)) = (g, d1)"
    by fastforce
  have "quiet chop d d1"
    using 1 quiet_trans [OF close_gpio_quiet [OF assms(2)] open_gpio_quiet [OF _ assms(2)]] by (auto split: if_splits)
  moreover have "quiet chop d1 d'"
    using assms by (auto simp: reopen_def 1 split: if_splits dest: open_spi_quiet)
  ultimately show ?thesis by (rule quiet_trans)
qed

lemma identify_quiet [quiets]: "identify b d = (ok, d') \<Longrightarrow> chip_chopper b chop \<Longrightarrow> quiet chop d d'"
  by (auto simp: identify_def report_error_def split: prod.splits option.splits dest!: quiets intro: quiet_then)

text \<open>The setup of a disabled driver leaves the chopper stopped.\<close>

lemma setup_safe: "\<forall>(a, v) \<in> set (setup_writes cur d). a OR 0x80 \<noteq> 0xEC \<or> tm_enabled d \<or> chopper_off v"
  using chip_chopconf_off [of d] by (simp add: setup_writes_def)

lemma write_registers_append:
  "write_registers b (xs @ ys) d =
     (let (ok, d1) = write_registers b xs d in if ok then write_registers b ys d1 else (False, d1))"
  by (induction b xs d rule: write_registers.induct) (auto simp: Let_def split: prod.splits)

lemma chopconf_written:
  assumes w: "write_registers b (xs @ (reg_CHOPCONF, v) # ys) d = (True, d')" and c: "chip_chopper b chop"
    and q: "\<forall>(a, v) \<in> set (xs @ (reg_CHOPCONF, v) # ys). a OR 0x80 \<noteq> 0xEC \<or> tm_enabled d \<or> chopper_off v"
  shows "chop_safe chop d'"
proof -
  obtain d1 d2 where 1: "write_registers b xs d = (True, d1)" and 2: "write_register b reg_CHOPCONF v d1 = (True, d2)"
    and 3: "write_registers b ys d2 = (True, d')"
    using w by (auto simp: write_registers_append split: prod.splits if_splits)
  have q1: "quiet chop d d1" using q by (intro write_registers_quiet [OF 1 c]) simp
  then have e: "tm_enabled d1 = tm_enabled d" by (simp add: quiet_def)
  have v: "tm_enabled d \<or> chopper_off v" using q by simp
  have q2: "quiet chop d1 d2" using v e by (intro write_quiet [OF 2 c]) simp
  have "chop_safe chop d2"
    using write_chopconf [OF 2 c] v e q2 by (auto simp: quiet_defs)
  moreover have "quiet chop d2 d'" using q q2 e by (intro write_registers_quiet [OF 3 c]) (simp add: quiet_def)
  ultimately show ?thesis by (simp add: quiet_def)
qed

lemma configure_quiet:
  assumes "configure b d = (ok, d')" "chip_chopper b chop"
  shows "quiet chop d d' \<and> (ok \<longrightarrow> chop_safe chop d')"
proof -
  let ?c = "tm_cfg d"
  show ?thesis
  proof (cases "calculate_current (dc_run_current ?c) (dc_sense_ohm ?c) (dc_hold_frac ?c)")
    case None
    with assms(1) show ?thesis by (simp add: configure_def Let_def)
  next
    case (Some cur)
    obtain w d1 where 1: "write_registers b (setup_writes cur d) d = (w, d1)" by fastforce
    have q1: "quiet chop d d1" by (rule write_registers_quiet [OF 1 assms(2) setup_safe])
    show ?thesis
    proof (cases w)
      case False
      with assms(1) Some 1 q1 show ?thesis by (simp add: configure_def Let_def)
    next
      case True
      have s: "chop_safe chop d1"
      proof -
        obtain ys where ys: "setup_writes cur d = [(reg_GCONF, chip_gconf d)] @ (reg_CHOPCONF, chip_chopconf d) # ys"
          by (simp add: setup_writes_def)
        have "write_registers b ([(reg_GCONF, chip_gconf d)] @ (reg_CHOPCONF, chip_chopconf d) # ys) d = (True, d1)"
          using 1 True by (simp only: ys)
        then show ?thesis by (rule chopconf_written [OF _ assms(2)]) (use setup_safe [of cur d] ys in simp)
      qed
      obtain g d2 where 2: "read_back b reg_GCONF (chip_gconf d) (d1\<lparr>tm_target := 0\<rparr>) = (g, d2)" by fastforce
      obtain h d3 where 3: "read_back b reg_CHOPCONF (chip_chopconf d) d2 = (h, d3)" by fastforce
      obtain k d4 where 4: "write_register b reg_GSTAT 7 d3 = (k, d4)" by fastforce
      have q2: "quiet chop d1 d2" using read_back_quiet [OF 2 assms(2)] by (auto simp: quiet_defs)
      have q3: "quiet chop d2 d3" by (rule read_back_quiet [OF 3 assms(2)])
      have q4: "quiet chop d3 d4" by (rule write_quiet [OF 4 assms(2)]) simp
      have "d' = d2 \<or> d' = d3 \<or> d' = d4"
        using assms(1) Some 1 2 3 4 True by (auto simp: configure_def Let_def split: if_splits)
      with s q1 q2 q3 q4 show ?thesis by (auto simp: quiet_def)
    qed
  qed
qed

lemma reinitialize_quiet [quiets]:
  assumes "tmc_reinitialize b d = (ok, d')" "chip_chopper b chop"
  shows "quiet chop d d'"
proof (cases "tm_has_bus d")
  case True
  obtain r d1 where 1: "reopen b d = (r, d1)" by fastforce
  obtain i d2 where 2: "identify b d1 = (i, d2)" by fastforce
  obtain c d3 where 3: "configure b d2 = (c, d3)" by fastforce
  have q: "quiet chop d d1" "quiet chop d1 d2" "quiet chop d2 d3" "c \<Longrightarrow> chop_safe chop d3"
    using reopen_quiet [OF 1 assms(2)] identify_quiet [OF 2 assms(2)] configure_quiet [OF 3 assms(2)] by simp_all
  have "d' = set_unhealthy d1 \<or> d' = set_unhealthy d2 \<or> d' = set_unhealthy d3 \<or>
      c \<and> tm_world d' = tm_world d3 \<and> tm_enabled d' = tm_enabled d3"
    using assms(1) True by (auto simp: tmc_reinitialize_def 1 2 3 split: if_splits)
  moreover have q2: "quiet chop d d2" by (rule quiet_trans [OF q(1,2)])
  moreover have q3: "quiet chop d d3" by (rule quiet_trans [OF q2 q(3)])
  moreover have "quiet chop d (set_unhealthy x)" if "quiet chop d x" for x
    using that by (rule quiet_then) (simp_all add: set_unhealthy_def)
  moreover have "quiet chop d d'" if "c" "tm_world d' = tm_world d3" "tm_enabled d' = tm_enabled d3"
    using that q(4) q3 by (simp add: quiet_defs)
  ultimately show ?thesis using q(1) by blast
qed (use assms(1) in \<open>auto simp: tmc_reinitialize_def set_unhealthy_def quiet_defs\<close>)

lemma take_sample_fields:
  "tm_world (snd (take_sample drv d)) = tm_world d" "tm_enabled (snd (take_sample drv d)) = tm_enabled d"
  "tm_healthy (snd (take_sample drv d)) = tm_healthy d"
  by (simp_all add: take_sample_def Let_def)

lemma take_sample_quiet [quiets]: "take_sample drv d = (ok, d') \<Longrightarrow> quiet chop d d'"
  using take_sample_fields [of drv d] by (simp add: quiet_fields)

lemma note_status_quiet: "quiet chop d (note_status st drv d)"
  by (rule quiet_fields) simp_all

lemma check_driver_status_quiet [quiets]:
  assumes "check_driver_status b st sample d = (ok, d')" "chip_chopper b chop"
  shows "quiet chop d d'"
proof -
  obtain r d1 where 1: "read_register b reg_DRV_STATUS d = (r, d1)" by fastforce
  have q: "quiet chop d d1" by (rule read_quiet [OF 1 assms(2)])
  have "d' = d1 \<or> (\<exists>drv. d' = note_status st drv d1 \<or> (\<exists>ok. take_sample drv (note_status st drv d1) = (ok, d')))"
    using assms(1) by (auto simp: check_driver_status_def 1 Let_def split: option.splits if_splits)
  then have "quiet chop d1 d'"
    by (auto intro: note_status_quiet quiet_trans [OF note_status_quiet] take_sample_quiet)
  with q show ?thesis by (rule quiet_trans)
qed

lemma after_reset_quiet [quiets]:
  assumes "after_reset b found d = (ok, d')" "chip_chopper b chop"
  shows "quiet chop d d'"
proof -
  obtain k d1 where 1: "tmc_reinitialize b (d\<lparr>tm_reset_count := tm_reset_count d + 1\<rparr>) = (k, d1)" by fastforce
  have "quiet chop d d1" using reinitialize_quiet [OF 1 assms(2)] by (auto simp: quiet_defs)
  then show ?thesis
    using assms(1) by (auto simp: after_reset_def 1 Let_def set_unhealthy_def split: if_splits elim: quiet_then)
qed

lemma recover_quiet [quiets]:
  assumes "recover_from_reset b found d = (ok, d')" "chip_chopper b chop"
  shows "quiet chop d d'"
proof -
  obtain r d1 where 1: "read_register b reg_GSTAT d = (r, d1)" by fastforce
  have q: "quiet chop d d1" by (rule read_quiet [OF 1 assms(2)])
  have w: "quiet chop x y" if "write_register b reg_GSTAT h (note_supply g x) = (k, y)" for h k x y g
    by (rule quiet_trans [OF quiet_fields write_quiet [OF that assms(2)]]) simp_all
  have "quiet chop d1 d'"
  proof (cases r)
    case (Some g)
    with assms show ?thesis
      by (auto simp: recover_from_reset_def 1 Let_def set_unhealthy_def split: if_splits prod.splits
          intro: quiet_fields w quiet_then [OF w] after_reset_quiet)
  qed (use assms(1) in \<open>auto simp: recover_from_reset_def 1 set_unhealthy_def report_error_def intro: quiet_fields\<close>)
  with q show ?thesis by (rule quiet_trans)
qed

lemma check_position_quiet: "chip_chopper b chop \<Longrightarrow> quiet chop d (check_position b d)"
  by (auto simp: check_position_def Let_def set_unhealthy_def report_error_def split: prod.splits option.splits dest!: quiets
      intro: quiet_then)

lemma line_quiet [quiets]: "drive_enable_line b v d = (ok, d') \<Longrightarrow> chip_chopper b chop \<Longrightarrow> quiet chop d d'"
  by (auto simp: drive_enable_line_def Let_def split: prod.splits if_splits intro!: quiet_world dest: chip_set)

lemma verify_enabled_quiet [quiets]: "verify_enabled b d = (ok, d') \<Longrightarrow> chip_chopper b chop \<Longrightarrow> quiet chop d d'"
  by (auto simp: verify_enabled_def set_unhealthy_def report_error_def split: prod.splits option.splits if_splits dest!: quiets
      intro: quiet_then)

text \<open>\<open>freeze\<close> stops the chopper when it succeeds.\<close>

lemma freeze_quiet:
  assumes "freeze b d = (ok, d')" "chip_chopper b chop"
  shows "quiet chop d d' \<and> (ok \<longrightarrow> chopper_off (chop (tm_world d')))"
proof -
  obtain r d1 where 1: "read_register b reg_XACTUAL d = (r, d1)" by fastforce
  have q1: "quiet chop d d1" by (rule read_quiet [OF 1 assms(2)])
  show ?thesis
  proof (cases r)
    case (Some x)
    obtain k d2 where 2: "write_register b reg_XTARGET x d1 = (k, d2)" by fastforce
    have q2: "quiet chop d d2" by (rule quiet_trans [OF q1 write_quiet [OF 2 assms(2)]]) simp
    obtain m d3 where 3: "write_register b reg_CHOPCONF (encode_chopconf 0) (d2\<lparr>tm_target := x\<rparr>) = (m, d3)" by fastforce
    have "quiet chop d2 d3" using write_quiet [OF 3 assms(2)] by (auto simp: quiet_defs)
    then have "quiet chop d d3" by (rule quiet_trans [OF q2])
    moreover have "m \<longrightarrow> chopper_off (chop (tm_world d3))" using write_chopconf [OF _ assms(2)] 3 by auto
    ultimately show ?thesis using assms(1) q2 by (auto simp: freeze_def 1 2 3 Some Let_def split: if_splits)
  qed (use assms(1) q1 in \<open>simp add: freeze_def 1\<close>)
qed

subsection \<open>The invariant\<close>

definition chopper_right :: "('w \<Rightarrow> 32 word) \<Rightarrow> 'w tmc_driver \<Rightarrow> bool" where
  "chopper_right chop d \<longleftrightarrow> (tm_healthy d \<and> \<not> tm_enabled d \<longrightarrow> chopper_off (chop (tm_world d)))"

lemma quiet_right: "quiet chop d d' \<Longrightarrow> chopper_right chop d \<Longrightarrow> chopper_right chop d'"
  by (auto simp: quiet_defs chopper_right_def)

lemma right_if: "\<not> tm_healthy d \<or> tm_enabled d \<Longrightarrow> chopper_right chop d"
  by (auto simp: chopper_right_def)

lemma power_down_right:
  assumes "power_down b d = (ok, d')" "chip_chopper b chop"
  shows "chopper_right chop d'"
proof -
  obtain f d1 where 1: "freeze b d = (f, d1)" by fastforce
  define d2 where "d2 = (if f then d1 else set_unhealthy d1)"
  obtain l d3 where 3: "drive_enable_line b (dc_enable_active_low (tm_cfg d1)) d2 = (l, d3)" by fastforce
  have "tm_healthy d2 \<longrightarrow> chopper_off (chop (tm_world d2))"
    using freeze_quiet [OF 1 assms(2)] by (auto simp: d2_def set_unhealthy_def)
  moreover have "tm_healthy d3 \<longrightarrow> tm_healthy d2" "chop_kept chop (tm_world d2) (tm_world d3)"
    using 3 by (auto simp: drive_enable_line_def Let_def split: prod.splits if_splits dest: chip_set [OF assms(2)])
  moreover have "d' = d3\<lparr>tm_enabled := False\<rparr>"
    using assms(1) 3 by (simp add: power_down_def 1 d2_def)
  ultimately show ?thesis by (auto simp: chopper_right_def chop_kept_def)
qed

lemma disable_right:
  assumes "tmc_disable b d = (ok, d')" "chip_chopper b chop"
  shows "chopper_right chop d'"
proof -
  obtain k d1 where 1: "power_down b d = (k, d1)" by fastforce
  obtain i d2 where 2: "read_register b reg_IOIN d1 = (i, d2)" by fastforce
  note r = power_down_right [OF 1 assms(2)]
  have "chopper_right chop d2" by (rule quiet_right [OF read_quiet [OF 2 assms(2)] r])
  with assms(1) r show ?thesis
    by (auto simp: tmc_disable_def 1 2 set_unhealthy_def report_error_def chopper_right_def split: if_splits option.splits)
qed

lemma power_up_right:
  "power_up b d = (ok, d') \<Longrightarrow> chopper_right chop d'"
  by (auto simp: power_up_def set_unhealthy_def Let_def split: prod.splits if_splits intro!: right_if)

lemma enable_on_right:
  assumes "tmc_enable_on b d = (ok, d')" "chip_chopper b chop" "chopper_right chop d"
  shows "chopper_right chop d'"
proof -
  obtain l d1 where 1: "drive_enable_line b (\<not> dc_enable_active_low (tm_cfg d)) d = (l, d1)" by fastforce
  obtain i d2 where 2: "(if tm_healthy d1 then (True, d1) else tmc_reinitialize b d1) = (i, d2)" by fastforce
  obtain r d3 where 3: "recover_from_reset b ''enable'' d2 = (r, d3)" by fastforce
  obtain v d4 where 4: "verify_enabled b (d3\<lparr>tm_since_reset_check := 0\<rparr>) = (v, d4)" by fastforce
  have r1: "chopper_right chop d1" by (rule quiet_right [OF line_quiet [OF 1 assms(2)] assms(3)])
  have r2: "chopper_right chop d2" using r1 2 quiet_right [OF reinitialize_quiet [OF _ assms(2)]] by (auto split: if_splits)
  have r3: "chopper_right chop d3" by (rule quiet_right [OF recover_quiet [OF 3 assms(2)] r2])
  have r4: "chopper_right chop d4"
    by (rule quiet_right [OF verify_enabled_quiet [OF 4 assms(2)]]) (use r3 in \<open>simp add: chopper_right_def\<close>)
  from assms(1) r1 r2 r3 r4 power_up_right show ?thesis
    by (auto simp: tmc_enable_on_def 1 2 3 4 split: if_splits)
qed

lemma enable_right:
  "tmc_enable b on d = (ok, d') \<Longrightarrow> chip_chopper b chop \<Longrightarrow> chopper_right chop d \<Longrightarrow> chopper_right chop d'"
  by (auto simp: tmc_enable_def split: if_splits intro: enable_on_right disable_right)

lemma step_right:
  assumes "tmc_step b fwd d = (ok, d')" "chopper_right chop d"
  shows "chopper_right chop d'"
proof -
  have "d' = d \<or> tm_enabled d'"
    using assms(1) by (auto simp: tmc_step_def set_unhealthy_def same_counts_def Let_def split: prod.splits if_splits dest!: counts)
  with assms(2) right_if show ?thesis by blast
qed

lemma microstep_right:
  assumes "chip_chopper b chop" "chopper_right chop d"
  shows "chopper_right chop (tmc_set_microstep b n d)"
proof (cases "encode_mres n = None \<or> \<not> tm_healthy d")
  case False
  let ?d = "d\<lparr>tm_microstep := n\<rparr>"
  obtain w d1 where 1: "write_register b reg_CHOPCONF (chip_chopconf ?d) ?d = (w, d1)" by fastforce
  obtain k d2 where 2: "read_back b reg_CHOPCONF (chip_chopconf ?d) d1 = (k, d2)" by fastforce
  have q1: "quiet chop ?d d1" using chip_chopconf_off [of ?d] by (intro write_quiet [OF 1 assms(1)]) simp
  have "chopper_right chop d1" using assms(2) by (intro quiet_right [OF q1]) (simp add: chopper_right_def)
  moreover from this have "chopper_right chop d2" by (rule quiet_right [OF read_back_quiet [OF 2 assms(1)]])
  ultimately show ?thesis
    using False by (auto simp: tmc_set_microstep_def Let_def 1 2 set_unhealthy_def chopper_right_def)
qed (use assms(2) in \<open>auto simp: tmc_set_microstep_def set_unhealthy_def chopper_right_def\<close>)

lemma run_current_right:
  assumes "chip_chopper b chop" "chopper_right chop d"
  shows "chopper_right chop (snd (tmc_set_run_current b a d))"
proof -
  have "quiet chop d d1" if "write_registers b [(reg_GLOBALSCALER, x), (reg_IHOLD_IRUN, y)] d = (k, d1)" for x y k d1
    by (rule write_registers_quiet [OF that assms(1)]) simp
  from quiet_right [OF this assms(2)] show ?thesis
    using assms(2) by (auto simp: tmc_set_run_current_def Let_def set_unhealthy_def chopper_right_def split: option.splits prod.splits)
qed

lemma poll_right:
  assumes "chip_chopper b chop" "chopper_right chop d"
  shows "chopper_right chop (snd (tmc_poll b d))"
proof -
  obtain r d1 where 1: "recover_from_reset b ''idle'' d = (r, d1)" by fastforce
  obtain s d2 where 2: "check_driver_status b False False d1 = (s, d2)" by fastforce
  have r1: "chopper_right chop d1" by (rule quiet_right [OF recover_quiet [OF 1 assms(1)] assms(2)])
  have "chopper_right chop d2" by (rule quiet_right [OF check_driver_status_quiet [OF 2 assms(1)] r1])
  then have "chopper_right chop (check_position b d2)" by (rule quiet_right [OF check_position_quiet [OF assms(1)]])
  with assms(2) r1 show ?thesis by (simp add: tmc_poll_def 1 2 Let_def)
qed

lemma confirm_right:
  assumes "chopper_right chop d"
  shows "chopper_right chop (snd (tmc_confirm_target b d))"
proof -
  have "same_counts d (snd (tmc_confirm_target b d))"
    by (auto simp: tmc_confirm_target_def set_unhealthy_def report_error_def same_counts_def Let_def
        split: prod.splits option.splits if_splits dest!: counts)
  moreover have "snd (tmc_confirm_target b d) = d" if "\<not> tm_enabled d"
    using that by (simp add: tmc_confirm_target_def usable_def)
  ultimately show ?thesis using assms right_if by (metis same_counts_def)
qed

lemma check_right:
  "chip_chopper b chop \<Longrightarrow> chopper_right chop d \<Longrightarrow> chopper_right chop (snd (tmc_reinitialize b d))"
  using quiet_right [OF reinitialize_quiet [OF prod.collapse [symmetric]]] .

lemma new_tmc_right:
  assumes "chip_chopper b chop"
  shows "chopper_right chop (new_tmc b c bus gpio w)"
proof (cases bus)
  case True
  define d0 where "d0 = new_tmc b c False gpio w\<lparr>tm_has_bus := True\<rparr>"
  obtain g d1 where 1: "open_gpio b d0 = (g, d1)" by fastforce
  obtain s d2 where 2: "open_spi b d1 = (s, d2)" by fastforce
  obtain k d3 where 3: "(if s then tmc_reinitialize b d2 else (False, d2)) = (k, d3)" by fastforce
  have r: "chopper_right chop d0" by (simp add: d0_def new_tmc_def Let_def chopper_right_def)
  have "chopper_right chop d3"
    using quiet_right [OF open_gpio_quiet [OF 1 assms] r] 3
      quiet_right [OF open_spi_quiet [OF 2 assms]] quiet_right [OF reinitialize_quiet [OF _ assms]]
    by (auto split: if_splits)
  moreover have "new_tmc b c bus gpio w = d3\<lparr>tm_healthy := (g \<and> k)\<rparr>"
    using True 1 2 3 by (simp add: new_tmc_def d0_def Let_def)
  moreover have "k \<longrightarrow> tm_healthy d3"
    using 3 by (auto simp: tmc_reinitialize_def Let_def split: if_splits prod.splits)
  ultimately show ?thesis by (auto simp: chopper_right_def)
qed (simp add: new_tmc_def Let_def chopper_right_def)

subsection \<open>Any sequence of calls\<close>

datatype driver_call =
    Call_enable bool
  | Call_step bool
  | Call_microstep int
  | Call_check
  | Call_current dbl
  | Call_poll
  | Call_stop
  | Call_confirm
  | Call_rate dbl bool

fun apply_call :: "'d driver_ops \<Rightarrow> driver_call \<Rightarrow> 'd \<Rightarrow> 'd" where
  "apply_call ops (Call_enable on) d = snd (drv_enable ops on d)"
| "apply_call ops (Call_step fwd) d = snd (drv_step ops fwd d)"
| "apply_call ops (Call_microstep n) d = drv_set_microstep ops n d"
| "apply_call ops Call_check d = snd (drv_active_check ops d)"
| "apply_call ops (Call_current a) d = snd (drv_set_run_current ops a d)"
| "apply_call ops Call_poll d = snd (drv_poll ops d)"
| "apply_call ops Call_stop d = snd (drv_take_step_loss_stop ops d)"
| "apply_call ops Call_confirm d = snd (drv_confirm_target ops d)"
| "apply_call ops (Call_rate hz steady) d = drv_note_step_rate ops hz steady d"

definition run_calls :: "'d driver_ops \<Rightarrow> driver_call list \<Rightarrow> 'd \<Rightarrow> 'd" where
  "run_calls ops cs d = fold (apply_call ops) cs d"

lemma run_calls_invariant:
  assumes "\<And>c d. P d \<Longrightarrow> P (apply_call ops c d)" and "P d"
  shows "P (run_calls ops cs d)"
  unfolding run_calls_def using assms(2) by (induction cs arbitrary: d) (simp_all add: assms(1))

lemma call_right:
  assumes "chip_chopper b chop" "chopper_right chop d"
  shows "chopper_right chop (apply_call (tmc_ops b) c d)"
proof (cases c)
  case (Call_rate hz st)
  then show ?thesis using assms(2)
    by (simp add: tmc_ops_def tmc_note_step_rate_def Let_def chopper_right_def)
next
  case Call_stop
  then show ?thesis using assms(2)
    by (simp add: tmc_ops_def tmc_take_step_loss_stop_def chopper_right_def)
qed (use assms enable_right [OF prod.collapse [symmetric]] step_right [OF prod.collapse [symmetric]] in
    \<open>simp_all add: tmc_ops_def microstep_right run_current_right poll_right confirm_right check_right\<close>)

lemma run_right:
  "chip_chopper b chop \<Longrightarrow> chopper_right chop (run_calls (tmc_ops b) cs (new_tmc b c bus gpio w))"
  by (rule run_calls_invariant) (simp_all add: call_right new_tmc_right)

subsection \<open>A bus that answers nothing\<close>

definition mute_board :: "'w board \<Rightarrow> 8 word \<Rightarrow> bool" where
  "mute_board b x \<longleftrightarrow> (\<forall>tx w rx w'. brd_transfer b tx w = (Some rx, w') \<longrightarrow> rx = replicate (length tx) x)"

lemma mute_transfer:
  "mute_board b x \<Longrightarrow> tmc_transfer b tx d = (Some rx, d') \<Longrightarrow> rx = replicate (length tx) x"
  by (auto simp: mute_board_def tmc_transfer_def Let_def split: if_splits prod.splits)

lemma mute_read:
  assumes "mute_board b x" "read_register b a d = (Some v, d')"
  shows "drop_bit 24 v = ucast x"
proof -
  from assms(2) obtain rx d1 d2 where "tmc_transfer b (read_datagram a) d1 = (Some rx, d2)" "v = word_of_bytes rx"
    by (auto simp: read_register_def split: prod.splits option.splits)
  with mute_transfer [OF assms(1)] have v: "v = word_of_bytes [x, x, x, x, x]"
    by (fastforce simp: read_datagram_def numeral_eq_Suc)
  show ?thesis
  proof (rule bit_word_eqI)
    fix n assume "n < LENGTH(32)"
    then show "bit (drop_bit 24 v) n \<longleftrightarrow> bit (ucast x :: 32 word) n"
      by (auto simp: v word_of_bytes_def byte_at_def bit_drop_bit_eq bit_or_iff bit_push_bit_iff bit_ucast_iff dest: bit_imp_le_length)
  qed
qed

lemma mute_identify:
  assumes "mute_board b x" "x \<noteq> 0x30"
  shows "\<not> fst (identify b d)"
proof -
  have "ucast x \<noteq> (0x30 :: 32 word)"
  proof
    assume "ucast x = (0x30 :: 32 word)"
    then have "unat (ucast x :: 32 word) = 0x30" by simp
    then have "unat x = 0x30" using unsigned_less [of x, where ?'a = nat] by (simp add: unsigned_ucast_eq take_bit_nat_eq_self)
    then have "unat x = unat (0x30 :: 8 word)" by simp
    then have "x = 0x30" by (rule unsigned_word_eqI)
    with assms(2) show False by simp
  qed
  then have "ioin_refusal v d1 \<noteq> None" if "read_register b reg_IOIN d = (Some v, d1)" for v d1
    using mute_read [OF assms(1) that] by (simp add: ioin_refusal_def Let_def)
  then show ?thesis by (auto simp: identify_def split: prod.splits option.splits)
qed

lemma mute_reinitialize:
  assumes "mute_board b x" "x \<noteq> 0x30" "tmc_reinitialize b d = (ok, d')"
  shows "\<not> ok \<and> \<not> tm_healthy d'"
  using assms(3) mute_identify [OF assms(1,2)]
  by (auto simp: tmc_reinitialize_def set_unhealthy_def Let_def split: if_splits prod.splits) (metis fst_conv)+

definition no_cure :: "'w tmc_driver \<Rightarrow> 'w tmc_driver \<Rightarrow> bool" where
  "no_cure d d' \<longleftrightarrow> (tm_healthy d' \<longrightarrow> tm_healthy d)"

lemma transfer_no_cure: "tmc_transfer b tx d = (rx, d') \<Longrightarrow> no_cure d d'"
  by (auto simp: tmc_transfer_def bus_failed_def no_cure_def Let_def split: if_splits prod.splits)

lemma write_no_cure: "write_register b a v d = (ok, d') \<Longrightarrow> no_cure d d'"
  by (auto simp: write_register_def no_cure_def split: prod.splits option.splits dest!: transfer_no_cure)

lemma read_no_cure: "read_register b a d = (r, d') \<Longrightarrow> no_cure d d'"
  by (auto simp: read_register_def no_cure_def split: prod.splits option.splits dest!: transfer_no_cure)

lemma freeze_no_cure: "freeze b d = (ok, d') \<Longrightarrow> no_cure d d'"
  by (auto simp: freeze_def no_cure_def Let_def split: prod.splits option.splits if_splits
      dest!: read_no_cure write_no_cure)

lemma line_no_cure: "drive_enable_line b v d = (ok, d') \<Longrightarrow> no_cure d d'"
  by (auto simp: drive_enable_line_def no_cure_def Let_def split: prod.splits if_splits)

lemma disable_no_cure: "tmc_disable b d = (ok, d') \<Longrightarrow> no_cure d d'"
  by (auto simp: tmc_disable_def power_down_def set_unhealthy_def report_error_def no_cure_def Let_def
      split: prod.splits option.splits if_splits dest!: freeze_no_cure line_no_cure read_no_cure)

text \<open>Neither healthy nor ever stepped.\<close>

definition never_stepped :: "'w tmc_driver \<Rightarrow> bool" where
  "never_stepped d \<longleftrightarrow> \<not> tm_healthy d \<and> tm_pulses d = 0"

lemma mute_enable_on:
  assumes "mute_board b x" "x \<noteq> 0x30" "\<not> tm_healthy d"
  shows "\<not> fst (tmc_enable_on b d) \<and> \<not> tm_healthy (snd (tmc_enable_on b d))"
proof -
  obtain l d1 where 1: "drive_enable_line b (\<not> dc_enable_active_low (tm_cfg d)) d = (l, d1)" by fastforce
  have h: "\<not> tm_healthy d1" using line_no_cure [OF 1] assms(3) by (simp add: no_cure_def)
  obtain k d2 where 2: "tmc_reinitialize b d1 = (k, d2)" by fastforce
  from mute_reinitialize [OF assms(1,2) 2] h show ?thesis by (simp add: tmc_enable_on_def 1 2)
qed

lemma mute_call:
  assumes m: "mute_board b x" "x \<noteq> 0x30" and d: "never_stepped d"
  shows "never_stepped (apply_call (tmc_ops b) c d)"
proof (cases c)
  case (Call_enable on)
  have "\<not> tm_healthy (snd (tmc_disable b d))"
    using disable_no_cure [OF prod.collapse [symmetric]] d by (auto simp: no_cure_def never_stepped_def)
  with mute_enable_on [OF m] d enable_pulses [of b on d] show ?thesis
    by (auto simp: Call_enable tmc_ops_def tmc_enable_def never_stepped_def)
next
  case Call_check
  with mute_reinitialize [OF m prod.collapse [symmetric]] check_pulses [of b d] d show ?thesis
    by (simp add: tmc_ops_def never_stepped_def)
next
  case (Call_current a)
  with d show ?thesis
    by (auto simp: tmc_ops_def never_stepped_def tmc_set_run_current_def Let_def split: option.splits)
next
  case (Call_rate hz st)
  with d show ?thesis by (simp add: tmc_ops_def never_stepped_def tmc_note_step_rate_def Let_def)
qed (use d in \<open>simp_all add: tmc_ops_def never_stepped_def tmc_step_def tmc_set_microstep_def set_unhealthy_def Let_def
      tmc_poll_def usable_def tmc_confirm_target_def tmc_take_step_loss_stop_def\<close>)

lemma mute_new_tmc:
  assumes m: "mute_board b x" "x \<noteq> 0x30"
  shows "never_stepped (new_tmc b c bus gpio w)"
proof (cases bus)
  case True
  define d0 where "d0 = new_tmc b c False gpio w\<lparr>tm_has_bus := True\<rparr>"
  obtain g d1 where 1: "open_gpio b d0 = (g, d1)" by fastforce
  obtain s d2 where 2: "open_spi b d1 = (s, d2)" by fastforce
  obtain k d3 where 3: "(if s then tmc_reinitialize b d2 else (False, d2)) = (k, d3)" by fastforce
  have p: "tm_pulses d0 = 0" by (simp add: d0_def new_tmc_def Let_def)
  have "tm_pulses d2 = 0"
    using p open_gpio_counts [OF 1] open_spi_counts [OF 2] by (simp add: same_counts_def)
  then have "tm_pulses d3 = 0"
    using 3 reinitialize_counts by (fastforce simp: same_counts_def split: if_splits)
  moreover have "\<not> k" using 3 mute_reinitialize [OF m] by (auto split: if_splits)
  moreover have "new_tmc b c bus gpio w = d3\<lparr>tm_healthy := (g \<and> k)\<rparr>"
    using True 1 2 3 by (simp add: new_tmc_def d0_def Let_def)
  ultimately show ?thesis by (simp add: never_stepped_def)
qed (simp add: new_tmc_def Let_def never_stepped_def)

lemma mute_run:
  "mute_board b x \<Longrightarrow> x \<noteq> 0x30 \<Longrightarrow> never_stepped (run_calls (tmc_ops b) cs (new_tmc b c bus gpio w))"
  by (rule run_calls_invariant) (simp_all add: mute_call mute_new_tmc)

end
