(* ===== verification/Tmc5160Current.thy ===== *)
theory Tmc5160Current
  imports Tmc5160Laws
begin

text \<open>
  The run current of the TMC5160 driver: how far the registers it computes in doubles can exceed the request.
\<close>

subsection \<open>Rounding\<close>

text \<open>Outside the subnormal range a rounding is off by half a unit in the 53rd bit.\<close>

lemma round_half_even_error: "\<bar>of_int (round_half_even q) - q\<bar> \<le> 1 / 2"
  by (simp add: round_half_even_def Let_def abs_if) linarith

lemma round_rat_error:
  assumes "2 powi (- 1022) \<le> q"
  shows "\<bar>round_rat q - q\<bar> \<le> q / 2 ^ 53"
proof -
  have q: "0 < q" using assms powi2_pos [of "- 1022"] by linarith
  define k where "k = ulp_exp q"
  have "- 1022 \<le> ilog2 q"
  proof (rule ccontr)
    assume "\<not> - 1022 \<le> ilog2 q"
    then have "(2::rat) powi (ilog2 q + 1) \<le> 2 powi (- 1022)" by (intro power_int_increasing) auto
    then show False using ilog2_bounds [OF q] assms by linarith
  qed
  then have "k = ilog2 q - 52" using q by (simp add: k_def ulp_exp_def)
  then have k: "2 powi k = 2 powi ilog2 q / (2::rat) ^ 52" by (simp add: power_int_diff)
  have "round_rat q - q = (of_int (round_half_even (q / 2 powi k)) - q / 2 powi k) * 2 powi k"
    using q powi2_pos [of k] by (simp add: round_rat_def k_def algebra_simps)
  also have "\<bar>\<dots>\<bar> \<le> 1 / 2 * 2 powi k"
    using round_half_even_error [of "q / 2 powi k"] powi2_pos [of k]
    by (simp add: abs_mult mult_right_mono)
  also have "\<dots> \<le> q / 2 ^ 53" using ilog2_bounds [OF q] by (simp add: k)
  finally show ?thesis .
qed

lemma to_dbl_error:
  assumes "to_dbl q = Fin r" "2 powi (- 1022) \<le> q"
  shows "q * (1 - 1 / 2 ^ 53) \<le> r" "r \<le> q * (1 + 1 / 2 ^ 53)"
proof -
  have "r = round_rat q" using assms(1) by (auto simp: to_dbl_def Let_def split: if_splits)
  with abs_le_D1 [OF round_rat_error [OF assms(2)]] abs_le_D2 [OF round_rat_error [OF assms(2)]]
  show "q * (1 - 1 / 2 ^ 53) \<le> r" "r \<le> q * (1 + 1 / 2 ^ 53)" by (simp_all add: algebra_simps)
qed

lemma to_dbl_normal:
  assumes "1 / 10 ^ 300 \<le> q" "q \<le> 10 ^ 300"
  obtains r where "to_dbl q = Fin r" "q * (1 - 1 / 2 ^ 53) \<le> r" "r \<le> q * (1 + 1 / 2 ^ 53)"
proof -
  have "2 powi (- 1022) \<le> (1 / 10 ^ 300 :: rat)" by (simp add: power_int_minus field_simps)
  with assms(1) have n: "2 powi (- 1022) \<le> q" by linarith
  have "round_rat q \<le> q * (1 + 1 / 2 ^ 53)" "0 \<le> round_rat q"
    using abs_le_D1 [OF round_rat_error [OF n]] round_rat_nonneg [of q] n powi2_pos [of "- 1022"]
    by (simp_all add: algebra_simps)
  moreover have "q * (1 + 1 / 2 ^ 53) < 2 ^ 1024"
    using assms(2) by (rule le_less_trans [OF mult_right_mono]) simp_all
  ultimately have "to_dbl q = Fin (round_rat q)" by (simp add: to_dbl_def Let_def)
  with to_dbl_error [OF this n] show ?thesis by (blast intro: that)
qed

lemma to_dbl_dyadic: "\<bar>n\<bar> \<le> 2 ^ 53 \<Longrightarrow> k \<le> 1000 \<Longrightarrow> to_dbl (of_int n / 2 ^ k) = Fin (of_int n / 2 ^ k)"
proof -
  assume n: "\<bar>n\<bar> \<le> 2 ^ 53" and k: "k \<le> 1000"
  have "round_rat (of_int n * 2 powi (- int k)) = of_int n * 2 powi (- int k)"
    using n k by (intro round_rat_exact) auto
  then have r: "round_rat (of_int n / 2 ^ k) = of_int n / 2 ^ k" by (simp add: power_int_minus divide_inverse)
  have "\<bar>of_int n / 2 ^ k :: rat\<bar> \<le> 2 ^ 53"
  proof -
    have "\<bar>of_int n\<bar> \<le> (2 ^ 53 :: rat)" using n by (metis of_int_abs of_int_le_iff of_int_numeral of_int_power)
    moreover have "\<bar>of_int n / 2 ^ k :: rat\<bar> \<le> \<bar>of_int n\<bar> / 1"
      by (simp only: abs_divide) (rule divide_left_mono, simp_all)
    ultimately show ?thesis by simp
  qed
  then have v: "of_int n / 2 ^ k \<le> (2 ^ 53 :: rat)" "- (2 ^ 53) \<le> (of_int n / 2 ^ k :: rat)"
    by (simp_all only: abs_le_iff minus_le_iff)
  have "(2::rat) ^ 53 < 2 ^ 1024" by (rule power_strict_increasing) simp_all
  with v have "\<not> 2 ^ 1024 \<le> (of_int n / 2 ^ k :: rat)" "\<not> (of_int n / 2 ^ k :: rat) \<le> - (2 ^ 1024)"
    by linarith+
  with r show ?thesis by (simp add: to_dbl_def Let_def)
qed

subsection \<open>The run current\<close>

lemma llround_le: "0 \<le> x \<Longrightarrow> of_int (llround (Fin x)) \<le> x + 1 / 2"
  and llround_nonneg: "0 \<le> x \<Longrightarrow> 0 \<le> llround (Fin x)"
proof -
  assume x: "0 \<le> x"
  have f: "0 \<le> \<lfloor>x + 1 / 2\<rfloor>" using x by simp
  then have "llround (Fin x) \<le> \<lfloor>x + 1 / 2\<rfloor>" "0 \<le> llround (Fin x)"
    using x by (simp_all add: rat_round_away_def sat_i64_def)
  then show "of_int (llround (Fin x)) \<le> x + 1 / 2" "0 \<le> llround (Fin x)"
    by (simp_all add: le_floor_iff)
qed

lemma int_clamp_bounds: "lo \<le> hi \<Longrightarrow> lo \<le> int_clamp v lo hi \<and> int_clamp v lo hi \<le> hi"
  by (simp add: int_clamp_def)

lemma rat_round_away_numeral [simp]: "rat_round_away (numeral n) = numeral n"
  unfolding rat_round_away_def by (simp add: floor_eq_iff)

lemma current_ranges:
  assumes "calculate_current a sense hold = Some cur"
  shows "32 \<le> cur_globalscaler cur \<and> cur_globalscaler cur \<le> 256 \<and> 0 \<le> cur_irun cur \<and> cur_irun cur \<le> 31 \<and>
    0 \<le> cur_ihold cur \<and> cur_ihold cur \<le> cur_irun cur"
proof -
  obtain gs irun where "cur = current_of gs irun hold"
    using assms by (auto simp: calculate_current_def Let_def split: if_splits)
  then show ?thesis
    using int_clamp_bounds [of 32 256] int_clamp_bounds [of 0 31] int_clamp_bounds
    by (simp add: current_of_def Let_def)
qed

lemma near_bounds:
  fixes x :: rat
  assumes "x * (1 - 1 / 2 ^ 53) \<le> f" "f \<le> x * (1 + 1 / 2 ^ 53)" "lo \<le> x" "x \<le> 1" "0 \<le> lo"
  shows "lo / 2 \<le> f \<and> f \<le> 2"
  using assms by simp

text \<open>The three regimes; \<open>p\<close> is the requested and \<open>m\<close> the largest peak current the sense resistor allows.\<close>

lemma gs_regime:
  assumes "Fin 32 \<le> Fin 256 * to_dbl (p / m)" "to_dbl (p / m) \<le> Fin (1 / 2)" "0 < m" "0 \<le> p"
  shows "of_int (int_clamp (llround (Fin 256 * to_dbl (p / m))) 32 256) * 32 / 8192 * m \<le> 111 / 100 * p"
proof -
  have pm: "1 / 16 \<le> p / m \<and> p / m \<le> 1"
  proof (rule ccontr)
    assume "\<not> ?thesis"
    then consider "p / m \<le> 1 / 16" | "1 \<le> p / m" by linarith
    then show False
    proof cases
      case 1
      then have "to_dbl (p / m) \<le> to_dbl (of_int 1 / 2 ^ 4)" by (intro to_dbl_mono) simp
      then obtain f where f: "to_dbl (p / m) = Fin f" "f \<le> 1 / 16" "0 \<le> f"
        using to_dbl_dyadic [of 1 4] b64.rnd_nonneg [of "p / m"] assms(3,4)
        by (cases "to_dbl (p / m)") (auto simp: dbl_order_defs)
      then have "to_dbl (256 * f) \<le> to_dbl (of_int 16)" by (intro to_dbl_mono) simp
      then have "to_dbl (256 * f) \<le> Fin 16" by simp
      moreover have "Fin 32 \<le> to_dbl (256 * f)" using assms(1) f by (simp add: times_dbl_def)
      ultimately have "Fin 32 \<le> Fin 16" by (blast intro: dbl_le_trans)
      then show False by simp
    next
      case 2
      then have "to_dbl 1 \<le> to_dbl (p / m)" by (intro to_dbl_mono) simp
      with assms(2) show False by (cases "to_dbl (p / m)") (auto simp: dbl_order_defs)
    qed
  qed
  obtain f where f: "to_dbl (p / m) = Fin f" "p / m * (1 - 1 / 2 ^ 53) \<le> f" "f \<le> p / m * (1 + 1 / 2 ^ 53)"
    by (rule to_dbl_normal [of "p / m"]) (use pm in \<open>auto simp: divide_simps\<close>)
  have fb: "1 / 32 \<le> f" "f \<le> 2" using near_bounds [OF f(2,3), of "1 / 16"] pm by simp_all
  obtain g where g: "to_dbl (256 * f) = Fin g" "256 * f * (1 - 1 / 2 ^ 53) \<le> g" "g \<le> 256 * f * (1 + 1 / 2 ^ 53)"
    by (rule to_dbl_normal [of "256 * f"]) (use fb in auto)
  have eq: "Fin 256 * to_dbl (p / m) = Fin g" by (simp add: f g times_dbl_def)
  have "32 \<le> g" using assms(1) by (simp add: eq)
  then have "of_int (int_clamp (llround (Fin g)) 32 256) \<le> g + 1 / 2"
    using llround_le [of g] by (simp add: int_clamp_def)
  also have "\<dots> \<le> (65 / 64) * g" using \<open>32 \<le> g\<close> by simp
  also have "\<dots> \<le> 256 * (111 / 100) * (p / m)" using f g pm by (simp add: field_simps)
  finally have "of_int (int_clamp (llround (Fin g)) 32 256) \<le> 256 * (111 / 100) * (p / m)" .
  then show ?thesis using assms(3) by (simp add: eq field_simps)
qed

lemma irun_regime:
  assumes "\<not> to_dbl (p / m) \<le> Fin (1 / 2)" "0 < m" "0 \<le> p" "p \<le> m"
  shows "256 * (of_int (int_clamp (llround (Fin 32 * to_dbl (p / m)) - 1) 0 31) + 1) / 8192 * m \<le> 111 / 100 * p"
proof -
  have pm: "1 / 2 \<le> p / m \<and> p / m \<le> 1"
  proof (rule ccontr)
    assume "\<not> ?thesis"
    then have "p / m \<le> of_int 1 / 2 ^ 1" using assms by (auto simp: field_simps)
    then have "to_dbl (p / m) \<le> to_dbl (of_int 1 / 2 ^ 1)" by (rule to_dbl_mono)
    with assms(1) to_dbl_dyadic [of 1 1] show False by simp
  qed
  obtain f where f: "to_dbl (p / m) = Fin f" "p / m * (1 - 1 / 2 ^ 53) \<le> f" "f \<le> p / m * (1 + 1 / 2 ^ 53)"
    by (rule to_dbl_normal [of "p / m"]) (use pm in \<open>auto simp: divide_simps\<close>)
  have fb: "1 / 4 \<le> f" "f \<le> 2" using near_bounds [OF f(2,3), of "1 / 2"] pm by simp_all
  obtain g where g: "to_dbl (32 * f) = Fin g" "32 * f * (1 - 1 / 2 ^ 53) \<le> g" "g \<le> 32 * f * (1 + 1 / 2 ^ 53)"
    by (rule to_dbl_normal [of "32 * f"]) (use fb in auto)
  have eq: "Fin 32 * to_dbl (p / m) = Fin g" by (simp add: f g times_dbl_def)
  have "1 / 2 < f" using assms(1) by (simp add: f)
  then have g16: "15 \<le> g" using g by simp
  have "of_int (int_clamp (llround (Fin g) - 1) 0 31) + 1 \<le> (of_int (llround (Fin g)) :: rat)"
  proof -
    have "of_int 15 \<le> g" using g16 by simp
    then have "15 \<le> \<lfloor>g + 1 / 2\<rfloor>" by (simp add: le_floor_iff)
    then have "15 \<le> llround (Fin g)" using g16 by (simp add: rat_round_away_def sat_i64_def)
    then show ?thesis by (simp add: int_clamp_def)
  qed
  also have "\<dots> \<le> g + 1 / 2" using g16 by (intro llround_le) simp
  also have "\<dots> \<le> (31 / 30) * g" using g16 by simp
  also have "\<dots> \<le> 32 * (111 / 100) * (p / m)" using f g pm by (simp add: field_simps)
  finally have "of_int (int_clamp (llround (Fin g) - 1) 0 31) + 1 \<le> 32 * (111 / 100) * (p / m)" .
  then show ?thesis using assms(2) by (simp add: eq field_simps)
qed

lemma low_regime:
  assumes "\<not> Fin p * to_dbl (11 / 10) < Fin 32 / Fin 256 * (dbl_of_int (irun + 1) / Fin 32) * Fin m"
    and "0 \<le> irun" "irun \<le> 31" "1 / 10 ^ 10 \<le> m" "m \<le> 10 ^ 10" "0 \<le> p"
  shows "32 * (of_int irun + 1) / 8192 * m \<le> 111 / 100 * p"
proof -
  define w :: rat where "w = (of_int irun + 1) / 256"
  have "of_int 0 \<le> (of_int irun :: rat)" "of_int irun \<le> (of_int 31 :: rat)" using assms(2,3) by (simp_all only: of_int_le_iff)
  then have w: "1 / 256 \<le> w" "w \<le> 1 / 8" by (simp_all add: w_def)
  have "dbl_of_int (irun + 1) = Fin (of_int (irun + 1))" using assms(2,3) by (intro to_dbl_int) simp
  moreover have "to_dbl (of_int (irun + 1) / 2 ^ 5) = Fin (of_int (irun + 1) / 2 ^ 5)"
    "to_dbl (of_int 1 / 2 ^ 3) = Fin (of_int 1 / 2 ^ 3)" "to_dbl (of_int (irun + 1) / 2 ^ 8) = Fin (of_int (irun + 1) / 2 ^ 8)"
    using assms(2,3) by (intro to_dbl_dyadic; simp)+
  ultimately have d: "Fin 32 / Fin 256 * (dbl_of_int (irun + 1) / Fin 32) * Fin m = to_dbl (w * m)"
    by (simp add: divide_dbl_def times_dbl_def w_def)
  obtain c where c: "to_dbl (11 / 10) = Fin c" "c \<le> 11 / 10 * (1 + 1 / 2 ^ 53)"
    by (rule to_dbl_normal [of "11 / 10"]) auto
  have wm: "1 / 10 ^ 13 \<le> w * m" "w * m \<le> 10 ^ 10"
    using mult_mono [of "1 / 256" w "1 / 10 ^ 10" m] mult_mono [of w "1 / 8" m "10 ^ 10"] w assms(4,5) by simp_all
  obtain e where e: "to_dbl (w * m) = Fin e" "w * m * (1 - 1 / 2 ^ 53) \<le> e"
    by (rule to_dbl_normal [of "w * m"]) (use wm in auto)
  have c0: "0 \<le> c" using b64.rnd_nonneg [of "11 / 10"] c by simp
  have le: "to_dbl (w * m) \<le> to_dbl (p * c)"
  proof -
    have "Fin p * to_dbl (11 / 10) = to_dbl (p * c)" by (simp add: c times_dbl_def)
    with assms(1) d have "\<not> to_dbl (p * c) < to_dbl (w * m)" by simp
    then show ?thesis by (simp add: dbl_not_less b64.rnd_not_NaN)
  qed
  have "w * m \<le> 111 / 100 * p"
  proof (rule ccontr)
    assume "\<not> ?thesis"
    then have p: "p < w * m / (111 / 100)" by (simp add: field_simps)
    then have "p * c \<le> w * m / (111 / 100) * (11 / 10 * (1 + 1 / 2 ^ 53))"
      using c c0 assms(6) wm by (intro mult_mono) auto
    then have pc: "p * c \<le> w * m * (995 / 1000)" using wm by (simp add: mult.commute [of m w])
    then have "to_dbl (p * c) \<le> to_dbl (w * m * (995 / 1000))" by (rule to_dbl_mono)
    moreover obtain x where "to_dbl (w * m * (995 / 1000)) = Fin x" "x \<le> w * m * (995 / 1000) * (1 + 1 / 2 ^ 53)"
      by (rule to_dbl_normal [of "w * m * (995 / 1000)"]) (use wm in auto)
    ultimately have x: "to_dbl (p * c) \<le> Fin x" "x \<le> w * m * (995 / 1000) * (1 + 1 / 2 ^ 53)" by simp_all
    have "Fin e \<le> Fin x" using dbl_le_trans [OF le x(1)] by (simp add: e)
    then show False using e(2) x(2) wm by simp
  qed
  then show ?thesis by (simp add: w_def field_simps)
qed

lemma dbl_sqrt_eq:
  assumes "0 < q" "55 - ilog2 q div 2 = k" "q * 4 powi k = of_int n"
  shows "dbl_sqrt (Fin q) =
    to_dbl ((of_int (isqrt n) + (if of_int (isqrt n * isqrt n) = (of_int n :: rat) then 0 else 1 / 2)) * 2 powi (- k))"
  using assms(1) by (simp add: Let_def assms(2,3))

lemma ilog2_two: "ilog2 2 = 1"
  by (simp add: ilog2_def bit_length.simps [of 2] bit_length.simps [of "Suc 0"] quotient_of_def)

lemma is_dbl_sqrt_two: "is_dbl sqrt_two"
  by (simp add: sqrt_two_def Let_def del: of_int_mult)

lemma is_sqrt_two: "\<exists>q. sqrt_two = Fin q \<and> 9 / 10 \<le> q \<and> q \<le> 21 / 10"
proof -
  define n :: int where "n = 2 * 4 ^ 55"
  define s where "s = isqrt n"
  define \<delta> :: rat where "\<delta> = (if of_int (s * s) = (of_int n :: rat) then 0 else 1 / 2)"
  have s: "0 \<le> s" "s * s \<le> n" "n < (s + 1) * (s + 1)" using isqrt_bounds [of n] by (simp_all add: s_def n_def)
  have "s < 2 ^ 56"
  proof (rule ccontr)
    assume "\<not> s < 2 ^ 56"
    then have "2 ^ 56 * 2 ^ 56 \<le> s * s" using s(1) by (intro mult_mono) auto
    with s(2) show False by (simp add: n_def)
  qed
  moreover have "2 ^ 55 \<le> s + 1"
  proof (rule ccontr)
    assume "\<not> 2 ^ 55 \<le> s + 1"
    then have "(s + 1) * (s + 1) \<le> 2 ^ 55 * 2 ^ 55" using s(1) by (intro mult_mono) auto
    with s(3) show False by (simp add: n_def)
  qed
  ultimately have "of_int (2 ^ 55) \<le> (of_int (s + 1) :: rat)" "of_int s \<le> (of_int (2 ^ 56) :: rat)"
    by (simp_all only: of_int_le_iff less_imp_le)
  then have sb: "2 ^ 55 - 1 \<le> (of_int s :: rat)" "of_int s \<le> (2 ^ 56 :: rat)" by simp_all
  have \<delta>: "0 \<le> \<delta>" "\<delta> \<le> 1" by (simp_all add: \<delta>_def)
  have "sqrt_two = to_dbl ((of_int s + \<delta>) * 2 powi (- 55))"
  proof -
    have "55 - ilog2 2 div 2 = (55::int)" by (simp add: ilog2_two)
    moreover have "(2::rat) * 4 powi 55 = of_int n" by (simp add: n_def)
    ultimately have "dbl_sqrt (Fin 2) = to_dbl ((of_int (isqrt n) +
        (if of_int (isqrt n * isqrt n) = (of_int n :: rat) then 0 else 1 / 2)) * 2 powi (- 55))"
      using dbl_sqrt_eq [of 2 55 n] by (simp only: zero_less_numeral simp_thms)
    then show ?thesis unfolding sqrt_two_def s_def \<delta>_def .
  qed
  moreover have "(2::rat) powi (- 55) = 1 / 2 ^ 55" by (simp add: power_int_def power_one_over)
  ultimately have eq: "sqrt_two = to_dbl ((of_int s + \<delta>) / 2 ^ 55)" by simp
  define y where "y = (of_int s + \<delta>) / 2 ^ 55"
  have y: "999 / 1000 \<le> y" "y \<le> 2001 / 1000" using sb \<delta> by (simp_all add: y_def divide_le_eq le_divide_eq)
  have "1 / 10 ^ 300 \<le> y" by (rule order_trans [OF _ y(1)]) simp
  moreover have "y \<le> 10 ^ 300" by (rule order_trans [OF y(2)]) simp
  ultimately obtain q where "to_dbl y = Fin q" "y * (1 - 1 / 2 ^ 53) \<le> q" "q \<le> y * (1 + 1 / 2 ^ 53)"
    by (rule to_dbl_normal)
  with eq y show ?thesis by (auto simp: y_def)
qed

lemma vfs_value: "\<exists>v. vfs = Fin v \<and> 3 / 10 \<le> v \<and> v \<le> 4 / 10"
  unfolding vfs_def by (rule to_dbl_normal [of "325 / 1000"]) auto

lemma bench_current: "\<exists>cur. calculate_current (Fin 1) (Fin (1 / 8)) (Fin (1 / 2)) = Some cur"
proof -
  obtain q where q: "sqrt_two = Fin q" "9 / 10 \<le> q" "q \<le> 21 / 10" using is_sqrt_two by blast
  obtain v where v: "vfs = Fin v" "3 / 10 \<le> v" "v \<le> 4 / 10" using vfs_value by blast
  obtain m where m: "to_dbl (8 * v) = Fin m" "8 * v * (1 - 1 / 2 ^ 53) \<le> m" "m \<le> 8 * v * (1 + 1 / 2 ^ 53)"
    by (rule to_dbl_normal [of "8 * v"]) (use v in auto)
  have qm: "9 / 40 \<le> q / m" "q / m \<le> 1" using q v m by (simp_all add: field_simps)
  have "1 / 10 ^ 300 \<le> q / m" by (rule order_trans [OF _ qm(1)]) simp
  moreover have "q / m \<le> 10 ^ 300" by (rule order_trans [OF qm(2)]) simp
  ultimately obtain f where f: "to_dbl (q / m) = Fin f" "q / m * (1 - 1 / 2 ^ 53) \<le> f" "f \<le> q / m * (1 + 1 / 2 ^ 53)"
    by (rule to_dbl_normal)
  have fb: "1 / 8 \<le> f" using f qm by simp
  have "to_dbl (of_int 32) \<le> to_dbl (256 * f)" using fb by (intro to_dbl_mono) simp
  then have g: "\<not> Fin 256 * Fin f < Fin 32" by (simp add: times_dbl_def dbl_le_imp_not_less)
  have "to_dbl q = Fin q" using is_dbl_sqrt_two by (simp add: q(1) is_dbl_def)
  then have i: "Fin 1 * sqrt_two = Fin q" by (simp add: times_dbl_def q(1))
  have m': "vfs / Fin (1 / 8) = Fin m" using m(1) by (simp add: divide_dbl_def v(1) mult.commute)
  have "m \<noteq> 0" using m(2) v(2) by simp
  then have f': "Fin q / Fin m = Fin f" using f(1) by (simp add: divide_dbl_def)
  have "\<not> m < q" using qm \<open>m \<noteq> 0\<close> m(2) v(2) by (simp add: divide_le_eq)
  then show ?thesis
    using g by (simp add: calculate_current_def zero_one_dbl Let_def i m' f')
qed

text \<open>C34. The run current of the motor chip.  Whenever the driver accepts a run current, the register values are in
  their ranges, and the peak current they stand for exceeds the requested peak by at most 11 percent (the code allows
  10 percent in the low regime, the resolution of the scale and the rounding of the doubles included).\<close>

theorem run_current_not_exceeded:
  assumes "calculate_current a sense hold = Some cur" and "Fin (1 / 1000) \<le> sense" and "sense \<le> Fin 1000"
  shows "32 \<le> cur_globalscaler cur \<and> cur_globalscaler cur \<le> 256 \<and> 0 \<le> cur_ihold cur \<and>
    cur_ihold cur \<le> cur_irun cur \<and> cur_irun cur \<le> 31 \<and>
    (\<exists>p m. a * sqrt_two = Fin p \<and> vfs / sense = Fin m \<and>
       of_int (cur_globalscaler cur) * (of_int (cur_irun cur) + 1) / 8192 * m \<le> 111 / 100 * p)"
proof -
  obtain r where r: "sense = Fin r" "1 / 1000 \<le> r" "r \<le> 1000"
    using assms(2,3) by (cases sense) (auto simp: dbl_order_defs)
  obtain v where v: "vfs = Fin v" "3 / 10 \<le> v" "v \<le> 4 / 10"
    using vfs_value by blast
  define x where "x = v / r"
  have vr: "3 / 10 ^ 4 \<le> x" "x \<le> 400" using r v by (auto simp: x_def field_simps)
  obtain m where m: "to_dbl x = Fin m" "x * (1 - 1 / 2 ^ 53) \<le> m" "m \<le> x * (1 + 1 / 2 ^ 53)"
    by (rule to_dbl_normal [of x]) (use vr in auto)
  have max: "vfs / sense = Fin m" using m(1) r(2) by (simp add: divide_dbl_def x_def r(1) v(1))
  have mb: "1 / 10 ^ 10 \<le> m" "m \<le> 10 ^ 10" using m vr by simp_all
  define i where "i = a * sqrt_two"
  have not_less: "\<not> vfs / sense < i"
    using assms(1) by (auto simp: calculate_current_def Let_def i_def split: if_splits)
  obtain \<alpha> where a: "a = Fin \<alpha>" "0 < \<alpha>"
    using assms(1) by (cases a) (auto simp: calculate_current_def zero_one_dbl split: if_splits)
  obtain q where q: "sqrt_two = Fin q" "9 / 10 \<le> q"
    using is_sqrt_two by blast
  have "Fin 0 \<le> i" using a(2) q(2) b64.rnd_nonneg [of "\<alpha> * q"] by (simp add: i_def times_dbl_def a(1) q(1))
  then obtain p where p: "i = Fin p" "0 \<le> p" "p \<le> m"
    using not_less max by (cases i) (auto simp: dbl_order_defs not_less)
  have f: "i / (vfs / sense) = to_dbl (p / m)" using p max mb by (simp add: divide_dbl_def)
  define cur_ok where "cur_ok \<longleftrightarrow>
    of_int (cur_globalscaler cur) * (of_int (cur_irun cur) + 1) / 8192 * m \<le> 111 / 100 * p"
  have cur_ok
  proof (cases "to_dbl (p / m) \<le> to_dbl (1 / 2)")
    case high: False
    then have "cur = current_of (Fin 256) (llround (Fin 32 * to_dbl (p / m)) - 1) hold"
      using assms(1) by (auto simp: calculate_current_def Let_def f [symmetric] i_def split: if_splits)
    then show ?thesis
      using irun_regime [of p m] high to_dbl_dyadic [of 1 1] p mb
      by (simp add: cur_ok_def current_of_def Let_def sat_i64_def int_clamp_def [of 256] algebra_simps)
  next
    case half: True
    show ?thesis
    proof (cases "Fin 256 * to_dbl (p / m) < Fin 32")
      case True
      define irun where "irun = low_irun i sense"
      have irun: "0 \<le> irun" "irun \<le> 31" using int_clamp_bounds by (simp_all add: irun_def low_irun_def)
      have "cur = current_of (Fin 32) irun hold"
        "\<not> i * to_dbl (11 / 10) < Fin 32 / Fin 256 * (dbl_of_int (irun + 1) / Fin 32) * (vfs / sense)"
        using assms(1) half True
        by (auto simp: calculate_current_def Let_def f [symmetric] i_def irun_def split: if_splits)
      then show ?thesis
        using low_regime [of p irun m] irun p max mb
        by (simp add: cur_ok_def current_of_def Let_def sat_i64_def int_clamp_def algebra_simps)
    next
      case False
      then have "cur = current_of (Fin 256 * to_dbl (p / m)) 31 hold"
        using assms(1) half by (auto simp: calculate_current_def Let_def f [symmetric] i_def split: if_splits)
      moreover have "Fin 32 \<le> Fin 256 * to_dbl (p / m)"
        using False dbl_not_less by (cases "to_dbl (p / m)") (auto simp: times_dbl_def signed_inf_def b64.rnd_not_NaN)
      ultimately show ?thesis
        using gs_regime [of p m] half to_dbl_dyadic [of 1 1] p mb
        by (simp add: cur_ok_def current_of_def Let_def int_clamp_def [of 31])
    qed
  qed
  with current_ranges [OF assms(1)] p(1) max show ?thesis by (auto simp: cur_ok_def i_def)
qed

theorem run_current_not_exceeded_witness:
  "\<exists>cur. calculate_current (Fin 1) (Fin (1 / 8)) (Fin (1 / 2)) = Some cur \<and> cur_irun cur \<le> 31 \<and>
     (\<exists>p m. Fin 1 * sqrt_two = Fin p \<and> vfs / Fin (1 / 8) = Fin m \<and>
       of_int (cur_globalscaler cur) * (of_int (cur_irun cur) + 1) / 8192 * m \<le> 111 / 100 * p)"
proof -
  obtain cur where c: "calculate_current (Fin 1) (Fin (1 / 8)) (Fin (1 / 2)) = Some cur" using bench_current ..
  from run_current_not_exceeded [OF c] show ?thesis unfolding c by (intro exI [of _ cur]) simp
qed

end
