(* ===== verification/Tmc5160Properties.thy ===== *)
theory Tmc5160Properties
  imports Tmc5160Chopper Tmc5160Current
begin

text \<open>
  The properties of the TMC5160 driver, with a simulated chip that stores what it is sent as the board of their
  witnesses.
\<close>

subsection \<open>A simulated chip\<close>

text \<open>A board with one chip that stores what it is sent: the state is the address of the last datagram and the registers.\<close>

definition bench_transfer :: "8 word list \<Rightarrow> 8 word \<times> (8 word \<Rightarrow> 32 word) \<Rightarrow>
    8 word list option \<times> (8 word \<times> (8 word \<Rightarrow> 32 word))" where
  "bench_transfer tx w =
     (let (a, f) = w; v = word_of_bytes tx in
      (Some (0 # word_bytes (f a)),
       if tx = write_datagram (hd tx) v then (hd tx AND 0x7F, f(hd tx AND 0x7F := v)) else (hd tx, f)))"

definition bench_board :: "(8 word \<times> (8 word \<Rightarrow> 32 word)) board" where
  "bench_board =
     \<lparr>brd_open = (\<lambda>dev m hz cs w. (True, w)), brd_transfer = bench_transfer, brd_request = (\<lambda>c l v i w. (True, w)),
      brd_set = (\<lambda>l v w. (True, w)), brd_release = (\<lambda>l w. w)\<rparr>"

definition bench_start :: "8 word \<times> (8 word \<Rightarrow> 32 word)" where
  "bench_start = (0, (\<lambda>a. 0)(reg_IOIN := 0x30000000, reg_CHOPCONF := 0x10410153))"

definition bench_chop :: "8 word \<times> (8 word \<Rightarrow> 32 word) \<Rightarrow> 32 word" where
  "bench_chop w = snd w reg_CHOPCONF"

lemma address_bit: "(a OR 0x80) = ((a AND 0x7F) OR 0x80 :: 8 word)"
proof -
  have "(a AND 0x7F) OR 0x80 = (a OR 0x80) AND (0x7F OR 0x80)" by (rule bit.disj_conj_distrib2)
  also have "0x7F OR 0x80 = (- 1 :: 8 word)" by simp
  finally show ?thesis by simp
qed

lemma bench_chip: "chip_chopper bench_board bench_chop"
proof -
  have "chop_sent bench_chop tx rx w w'" if "bench_transfer tx w = (rx, w')" for tx rx w w'
  proof (cases "tx = write_datagram (hd tx) (word_of_bytes tx)")
    case False
    have "tx \<noteq> write_datagram reg_CHOPCONF v" for v
    proof
      assume "tx = write_datagram reg_CHOPCONF v"
      with False show False by (simp add: write_datagram_def word_bytes_back)
    qed
    with that False show ?thesis
      by (auto simp: bench_transfer_def bench_chop_def chop_sent_def chop_kept_def Let_def split: prod.splits)
  next
    case True
    show ?thesis
    proof (cases "hd tx AND 0x7F = 0x6C")
      case 6: True
      have "tx = write_datagram reg_CHOPCONF (word_of_bytes tx)"
        using True address_bit [of "hd tx"] address_bit [of "0x6C"] 6 by (simp add: write_datagram_def)
      moreover have "bench_chop w' = word_of_bytes tx"
        using that True 6 by (auto simp: bench_transfer_def bench_chop_def Let_def split: prod.splits)
      ultimately show ?thesis unfolding chop_sent_def by blast
    next
      case n: False
      have "tx \<noteq> write_datagram reg_CHOPCONF v" for v
        using n by (auto simp: write_datagram_def)
      with that True n show ?thesis
        by (auto simp: bench_transfer_def bench_chop_def chop_sent_def chop_kept_def Let_def split: prod.splits)
    qed
  qed
  then show ?thesis
    by (auto simp: chip_chopper_def bench_board_def bench_chop_def)
qed

text \<open>On that board every access succeeds.\<close>

definition bench_ready :: "(8 word \<times> (8 word \<Rightarrow> 32 word)) tmc_driver \<Rightarrow> bool" where
  "bench_ready d \<longleftrightarrow> tm_has_bus d \<and> tm_spi_open d \<and> \<not> tm_use_gpio d"

lemma bench_read:
  assumes "bench_ready d"
  obtains d' where "read_register bench_board a d = (Some (snd (tm_world d) (a AND 0x7F)), d')"
    "snd (tm_world d') = snd (tm_world d)" "bench_ready d'" "tm_cfg d' = tm_cfg d" "tm_enabled d' = tm_enabled d"
    "tm_microstep d' = tm_microstep d"
proof -
  have n: "read_datagram a \<noteq> write_datagram (hd (read_datagram a)) (word_of_bytes (read_datagram a))"
  proof
    assume "read_datagram a = write_datagram (hd (read_datagram a)) (word_of_bytes (read_datagram a))"
    then have "a AND 0x7F = (a AND 0x7F) OR 0x80" by (simp add: read_datagram_def write_datagram_def)
    then have "(a AND 0x7F) AND 0x80 = ((a AND 0x7F) OR 0x80) AND 0x80" by simp
    then show False by (simp add: and.assoc bit.conj_disj_distrib2)
  qed
  have "hd (read_datagram a) = a AND 0x7F" by (simp add: read_datagram_def)
  with assms n show ?thesis
    by (cases "tm_world d")
      (auto simp: read_register_def tmc_transfer_def bench_ready_def bench_board_def bench_transfer_def Let_def
        word_bytes_back intro!: that)
qed

lemma bench_write:
  assumes "bench_ready d"
  obtains d' where "write_register bench_board a v d = (True, d')"
    "snd (tm_world d') = (snd (tm_world d))(a AND 0x7F := v)" "bench_ready d'" "tm_cfg d' = tm_cfg d" "tm_enabled d' = tm_enabled d"
    "tm_microstep d' = tm_microstep d"
proof -
  have "(a OR 0x80) AND 0x7F = a AND 0x7F" by (simp add: bit.conj_disj_distrib2)
  moreover have "word_of_bytes (write_datagram a v) = v" "hd (write_datagram a v) = a OR 0x80"
    "write_datagram a v = write_datagram (a OR 0x80) v"
    by (simp_all add: write_datagram_def word_bytes_back or.assoc)
  ultimately show ?thesis using assms
    by (cases "tm_world d")
      (auto simp: write_register_def tmc_transfer_def bench_ready_def bench_board_def bench_transfer_def Let_def intro!: that)
qed

lemma bench_writes:
  "bench_ready d \<Longrightarrow> \<exists>d'. write_registers bench_board ws d = (True, d') \<and>
     snd (tm_world d') = fold (\<lambda>(a, v) f. f(a AND 0x7F := v)) ws (snd (tm_world d)) \<and> bench_ready d' \<and>
     tm_cfg d' = tm_cfg d \<and> tm_enabled d' = tm_enabled d \<and> tm_microstep d' = tm_microstep d"
proof (induction ws arbitrary: d)
  case (Cons w ws)
  obtain a v where w: "w = (a, v)" by fastforce
  obtain d1 where 1: "write_register bench_board a v d = (True, d1)"
    "snd (tm_world d1) = (snd (tm_world d))(a AND 0x7F := v)" "bench_ready d1" "tm_cfg d1 = tm_cfg d"
    "tm_enabled d1 = tm_enabled d" "tm_microstep d1 = tm_microstep d"
    using Cons.prems by (rule bench_write)
  from Cons.IH [OF 1(3)] 1 show ?case by (simp add: w)
qed simp

definition bench_config :: tmc_config where
  "bench_config = tmc_default\<lparr>dc_run_current := Fin 1, dc_sense_ohm := Fin (1 / 8), dc_hold_frac := Fin (1 / 2)\<rparr>"

lemma bench_identify:
  assumes "bench_ready d" "snd (tm_world d) reg_IOIN = 0x30000000"
  obtains d' where "identify bench_board d = (True, d')" "bench_ready d'" "snd (tm_world d') = snd (tm_world d)"
    "tm_cfg d' = tm_cfg d" "tm_enabled d' = tm_enabled d" "tm_microstep d' = tm_microstep d"
proof -
  obtain d1 where 1: "read_register bench_board reg_IOIN d = (Some (snd (tm_world d) (reg_IOIN AND 0x7F)), d1)"
    "snd (tm_world d1) = snd (tm_world d)" "bench_ready d1" "tm_cfg d1 = tm_cfg d" "tm_enabled d1 = tm_enabled d"
    "tm_microstep d1 = tm_microstep d"
    using assms(1) by (rule bench_read)
  have "ioin_refusal 0x30000000 d1 = None"
    by (simp add: ioin_refusal_def Let_def ioin_step_dir_mode_def push_bit_eq_mult drop_bit_eq_div)
  with 1 assms(2) show ?thesis by (intro that [of d1]) (simp_all add: identify_def)
qed

lemma bench_configure:
  assumes "bench_ready d" "tm_cfg d = bench_config"
  obtains d' where "configure bench_board d = (True, d')"
proof -
  obtain cur where cur: "calculate_current (Fin 1) (Fin (1 / 8)) (Fin (1 / 2)) = Some cur"
    using bench_current by blast
  obtain d1 where 1: "write_registers bench_board (setup_writes cur d) d = (True, d1)"
    "snd (tm_world d1) = fold (\<lambda>(a, v) f. f(a AND 0x7F := v)) (setup_writes cur d) (snd (tm_world d))" "bench_ready d1"
    using bench_writes [OF assms(1)] by blast
  have g: "snd (tm_world d1) reg_GCONF = chip_gconf d" "snd (tm_world d1) reg_CHOPCONF = chip_chopconf d"
    by (simp_all add: 1(2) setup_writes_def)
  have r: "bench_ready (d1\<lparr>tm_target := 0\<rparr>)" using 1(3) by (simp add: bench_ready_def)
  obtain d2 where 2: "read_register bench_board reg_GCONF (d1\<lparr>tm_target := 0\<rparr>) =
      (Some (snd (tm_world (d1\<lparr>tm_target := 0\<rparr>)) (reg_GCONF AND 0x7F)), d2)"
    "snd (tm_world d2) = snd (tm_world (d1\<lparr>tm_target := 0\<rparr>))" "bench_ready d2"
    using r by (rule bench_read)
  obtain d3 where 3: "read_register bench_board reg_CHOPCONF d2 = (Some (snd (tm_world d2) (reg_CHOPCONF AND 0x7F)), d3)"
    "bench_ready d3"
    using 2(3) by (rule bench_read)
  obtain d4 where 4: "write_register bench_board reg_GSTAT 7 d3 = (True, d4)"
    using 3(2) by (rule bench_write)
  have "configure bench_board d = (True, d4)"
    using cur 1 2 3 4 g by (simp add: configure_def assms(2) bench_config_def read_back_def Let_def)
  then show ?thesis by (rule that)
qed

lemma bench_boots:
  "tm_healthy (new_tmc bench_board bench_config True False bench_start) \<and>
   \<not> tm_enabled (new_tmc bench_board bench_config True False bench_start)"
proof -
  define d0 where "d0 = new_tmc bench_board bench_config False False bench_start\<lparr>tm_has_bus := True\<rparr>"
  define d2 where "d2 = d0\<lparr>tm_gpio_healthy := True, tm_spi_open := True\<rparr>"
  have f: "bench_ready d2" "tm_cfg d2 = bench_config" "snd (tm_world d2) reg_IOIN = 0x30000000" "tm_microstep d2 = 4"
    "\<not> tm_enabled d2" "\<not> tm_use_gpio d0"
    by (simp_all add: d2_def d0_def new_tmc_def Let_def bench_ready_def bench_start_def bench_config_def tmc_default_def)
  have 1: "open_gpio bench_board d0 = (True, d0\<lparr>tm_gpio_healthy := True\<rparr>)" by (simp add: open_gpio_def f)
  have 2: "open_spi bench_board (d0\<lparr>tm_gpio_healthy := True\<rparr>) = (True, d2)"
    by (simp add: open_spi_def d2_def d0_def new_tmc_def Let_def bench_board_def)
  obtain d3 where 3: "identify bench_board d2 = (True, d3)" "bench_ready d3" "tm_cfg d3 = tm_cfg d2" "tm_enabled d3 = tm_enabled d2"
    using f(1,3) by (rule bench_identify)
  obtain d4 where 4: "configure bench_board d3 = (True, d4)"
    using 3(2) by (rule bench_configure) (simp add: 3 f)
  have "tmc_reinitialize bench_board d2 = (True, d4\<lparr>tm_healthy := True, tm_last_error := [], tm_uv_active := False,
      tm_drv_err_active := False, tm_drv_err_unexplained := False, tm_mismatch_polls := 0\<rparr>)"
    using f 3(1) 4 by (simp add: tmc_reinitialize_def reopen_def bench_ready_def encode_mres_def)
  moreover have "\<not> tm_enabled d4"
    using configure_counts [OF 4] 3(4) f(5) by (simp add: same_counts_def)
  moreover have "new_tmc bench_board bench_config True False bench_start =
      (let (gpio, d) = open_gpio bench_board d0; (spi, d) = open_spi bench_board d;
           (ok, d) = (if spi then tmc_reinitialize bench_board d else (False, d)) in d\<lparr>tm_healthy := (gpio \<and> ok)\<rparr>)"
    by (simp add: new_tmc_def d0_def Let_def)
  ultimately show ?thesis by (simp add: 1 2)
qed

subsection \<open>Properties\<close>

text \<open>C32. A disabled driver is dark.  After any sequence of calls of the interface, with any failure of the bus and the
  lines and any reset of the chip in between, a driver that reports itself healthy and is not enabled has the
  chopper of the chip stopped (TOFF is 0), so no current is driven through the motor.  The chip is only assumed to
  change CHOPCONF on a datagram that writes it and to come out of a reset with TOFF 0.\<close>

theorem disabled_driver_dark:
  assumes "chip_chopper b chop" and "d = run_calls (tmc_ops b) cs (new_tmc b c bus gpio w)"
    and "tm_healthy d" and "\<not> tm_enabled d"
  shows "chopper_off (chop (tm_world d))"
  using run_right [OF assms(1), of cs c bus gpio w] assms(2-4) by (simp add: chopper_right_def)

theorem disabled_driver_dark_witness:
  "\<not> chopper_off (bench_chop bench_start) \<and>
   chopper_off (bench_chop (tm_world (run_calls (tmc_ops bench_board) [Call_stop, Call_rate 0 False]
     (new_tmc bench_board bench_config True False bench_start))))"
proof -
  let ?d = "run_calls (tmc_ops bench_board) [Call_stop, Call_rate 0 False] (new_tmc bench_board bench_config True False bench_start)"
  have "tm_healthy ?d" "\<not> tm_enabled ?d"
    using bench_boots
    by (simp_all add: run_calls_def tmc_ops_def tmc_take_step_loss_stop_def tmc_note_step_rate_def zero_one_dbl)
  from disabled_driver_dark [OF bench_chip refl this] show ?thesis
    by (simp add: bench_chop_def bench_start_def chopper_off_def)
qed

text \<open>C33. A chip that is not there never moves a motor.  A data line without a chip behind it reads the same level in every
  bit; whatever that byte is (other than the version number of the chip), and however the lines behave, after any
  sequence of calls the driver is not healthy and has issued no pulse.\<close>

theorem absent_chip_never_steps:
  assumes "mute_board b x" and "x \<noteq> 0x30"
  shows "\<not> tm_healthy (run_calls (tmc_ops b) cs (new_tmc b c bus gpio w)) \<and>
    tm_pulses (run_calls (tmc_ops b) cs (new_tmc b c bus gpio w)) = 0"
  using mute_run [OF assms, of cs c bus gpio w] by (simp add: never_stepped_def)

definition floating_board :: "unit board" where
  "floating_board = \<lparr>brd_open = (\<lambda>dev m hz cs w. (True, w)), brd_transfer = (\<lambda>tx w. (Some (replicate (length tx) 0xFF), w)),
     brd_request = (\<lambda>c l v i w. (True, w)), brd_set = (\<lambda>l v w. (True, w)), brd_release = (\<lambda>l w. w)\<rparr>"

theorem absent_chip_never_steps_witness:
  "tm_pulses (run_calls (tmc_ops floating_board) [Call_check, Call_enable True, Call_step True]
     (new_tmc floating_board tmc_default True True ())) = 0"
proof -
  have "mute_board floating_board 0xFF" by (simp add: mute_board_def floating_board_def)
  from absent_chip_never_steps [OF this] show ?thesis by simp
qed

text \<open>The settings a pair of registers stands for.\<close>

definition decode_current :: "32 word \<Rightarrow> 32 word \<Rightarrow> current_setting" where
  "decode_current gs ii =
     \<lparr>cur_globalscaler = (if gs = 0 then 256 else uint gs), cur_irun = uint (drop_bit 8 ii AND 0x1F),
      cur_ihold = uint (ii AND 0x1F)\<rparr>"

lemma field_value:
  assumes "0 \<le> n" "n \<le> 31"
  shows "uint (of_int n AND 0x1F :: 32 word) = n"
proof -
  have "0x1F = (mask 5 :: 32 word)" by (simp add: mask_eq_exp_minus_1)
  then have "of_int n AND 0x1F = (take_bit 5 (of_int n) :: 32 word)" by (simp only: take_bit_eq_mask)
  also have "uint \<dots> = take_bit 5 (take_bit 32 n)"
    by (simp add: unsigned_take_bit_eq unsigned_of_int)
  also have "\<dots> = n" using assms by (simp add: take_bit_int_eq_self)
  finally show ?thesis .
qed

lemma ihold_irun_fields:
  assumes "0 \<le> ihold" "ihold \<le> 31" "0 \<le> irun" "irun \<le> 31"
  shows "encode_ihold_irun ihold irun AND 0x1F = of_int ihold AND 0x1F"
    "drop_bit 8 (encode_ihold_irun ihold irun) AND 0x1F = of_int irun AND 0x1F"
proof -
  have m: "0x1F = (mask 5 :: 32 word)" by (simp add: mask_eq_exp_minus_1)
  have z: "\<not> bit (393216 :: int) n" "\<not> bit (1536 :: int) n" if "n < 5" for n
  proof -
    from that consider "n = 0" | "n = 1" | "n = 2" | "n = 3" | "n = 4" by linarith
    then show "\<not> bit (393216 :: int) n" "\<not> bit (1536 :: int) n" by (cases; simp)+
  qed
  show "encode_ihold_irun ihold irun AND 0x1F = of_int ihold AND 0x1F"
    unfolding m encode_ihold_irun_def
    by (rule bit_word_eqI) (auto simp: bit_and_iff bit_or_iff bit_push_bit_iff bit_mask_iff z)
  show "drop_bit 8 (encode_ihold_irun ihold irun) AND 0x1F = of_int irun AND 0x1F"
    unfolding m encode_ihold_irun_def
    by (rule bit_word_eqI) (auto simp: bit_and_iff bit_or_iff bit_push_bit_iff bit_mask_iff bit_drop_bit_eq z)
qed

text \<open>C35. What is written is what was computed.  The value of a write datagram read back as the answer of a read is the value
  written, and from the registers of an accepted run current the three settings can be read off again: nothing of
  them is cut off by the width of the fields.\<close>

theorem current_registers_read_back:
  assumes "calculate_current a sense hold = Some cur"
  shows "word_of_bytes (status # tl (write_datagram addr v)) = v \<and>
    decode_current (encode_globalscaler (cur_globalscaler cur)) (encode_ihold_irun (cur_ihold cur) (cur_irun cur)) = cur"
proof -
  note r = current_ranges [OF assms]
  have i: "0 \<le> cur_ihold cur" "cur_ihold cur \<le> 31" "0 \<le> cur_irun cur" "cur_irun cur \<le> 31" using r by simp_all
  have g: "encode_globalscaler (cur_globalscaler cur) = (if cur_globalscaler cur = 256 then 0 else of_int (cur_globalscaler cur))"
    using r by (simp add: encode_globalscaler_def)
  have "cur_globalscaler cur \<noteq> 256 \<Longrightarrow> uint (of_int (cur_globalscaler cur) :: 32 word) = cur_globalscaler cur"
    using r by (simp add: unsigned_of_int take_bit_int_eq_self)
  moreover from this r have "cur_globalscaler cur \<noteq> 256 \<Longrightarrow> of_int (cur_globalscaler cur) \<noteq> (0 :: 32 word)"
    by (auto simp: uint_0_iff dest: arg_cong [of _ _ uint])
  ultimately have s: "(if encode_globalscaler (cur_globalscaler cur) = 0 then 256
      else uint (encode_globalscaler (cur_globalscaler cur))) = cur_globalscaler cur"
    by (auto simp: g)
  show ?thesis
    using s field_value [OF i(1,2)] field_value [OF i(3,4)]
    by (simp add: decode_current_def ihold_irun_fields [OF i] write_datagram_def word_bytes_back)
qed

theorem current_registers_read_back_witness:
  "word_of_bytes (0 # tl (write_datagram reg_XTARGET 0xDEADBEEF)) = 0xDEADBEEF \<and>
   (\<exists>cur. calculate_current (Fin 1) (Fin (1 / 8)) (Fin (1 / 2)) = Some cur \<and>
     decode_current (encode_globalscaler (cur_globalscaler cur)) (encode_ihold_irun (cur_ihold cur) (cur_irun cur)) = cur)"
proof -
  obtain cur where c: "calculate_current (Fin 1) (Fin (1 / 8)) (Fin (1 / 2)) = Some cur" using bench_current ..
  from current_registers_read_back [OF c, of 0 reg_XTARGET "0xDEADBEEF"] c show ?thesis by blast
qed

end
