(* ===== verification/Telemetry.thy ===== *)
theory Telemetry
  imports SystemTick Tmc5160Current
begin

text \<open>
  The text of the frames (\<^verbatim>\<open>telemetry.cpp\<close>, \<^verbatim>\<open>status_flags.cpp\<close>): the snapshot of the sensors, the
  record the tick fills, the \<^verbatim>\<open>DATA\<close> frame with its tokens, the cycle and pull events, and the number format they
  share.  The frame is read back at the end: every column is where the ground station looks for it, and a
  printed value is within half a unit of its last digit.
\<close>

subsection \<open>Fixed-point numbers\<close>

text \<open>\<^verbatim>\<open>std::fixed\<close> with a precision: the exact value rounded to that many decimals, ties to even.\<close>

definition pad_digits :: "nat \<Rightarrow> string \<Rightarrow> string" where
  "pad_digits n s = replicate (n - length s) (CHR ''0'') @ s"

definition fixed_digits :: "nat \<Rightarrow> nat \<Rightarrow> string" where
  "fixed_digits p m =
     show_nat (m div 10 ^ p) @ (if p = 0 then [] else CHR ''.'' # pad_digits p (show_nat (m mod 10 ^ p)))"

fun show_fixed :: "nat \<Rightarrow> dbl \<Rightarrow> string" where
  "show_fixed p (Fin q) =
     (if q < 0 then ''-'' else []) @ fixed_digits p (nat (round_half_even (\<bar>q\<bar> * 10 ^ p)))"
| "show_fixed p PInf = ''inf''"
| "show_fixed p NInf = ''-inf''"
| "show_fixed p NaN = ''nan''"

subsection \<open>The records\<close>

record component_health =
  health_state :: component_state
  health_error :: string
  health_age_ms :: int

definition health_default :: component_health where
  "health_default = \<lparr>health_state = StateDiscovering, health_error = ''NOT_POLLED'', health_age_ms = - 1\<rparr>"

record sensor_snapshot =
  sn_rtc_valid :: bool
  sn_timestamp :: string
  sn_ambient_temp :: dbl
  sn_pressure :: dbl
  sn_uv :: dbl
  sn_temps :: "dbl list"
  sn_ambient_temp_valid :: bool
  sn_pressure_valid :: bool
  sn_uv_valid :: bool
  sn_temp_valid :: "bool list"
  sn_ambient_temp_age :: int
  sn_pressure_age :: int
  sn_uv_age :: int
  sn_temp_ages :: "int list"
  sn_dps310 :: component_health
  sn_ads1115 :: component_health
  sn_rtd :: component_health
  sn_simulated :: bool
  sn_resistance :: "dbl list"

definition snapshot_default :: sensor_snapshot where
  "snapshot_default =
     \<lparr>sn_rtc_valid = True, sn_timestamp = [], sn_ambient_temp = Fin 0, sn_pressure = Fin 0, sn_uv = Fin 0, sn_temps = [],
      sn_ambient_temp_valid = True, sn_pressure_valid = True, sn_uv_valid = True, sn_temp_valid = [],
      sn_ambient_temp_age = - 1, sn_pressure_age = - 1, sn_uv_age = - 1, sn_temp_ages = [], sn_dps310 = health_default,
      sn_ads1115 = health_default, sn_rtd = health_default, sn_simulated = False, sn_resistance = []\<rparr>"

record status_flags =
  sf_sd_ok :: bool
  sf_usb_ok :: bool
  sf_i2c_ok :: bool
  sf_spi_ok :: bool
  sf_link_ok :: bool
  sf_t_ambient_ok :: bool
  sf_p_ambient_ok :: bool
  sf_uniformity_ok :: bool
  sf_overtemp_ok :: bool
  sf_energy_ok :: bool
  sf_pwm_ok :: bool
  sf_stepper_ok :: bool
  sf_sample_temp_ok :: bool
  sf_simulated :: bool
  sf_sequence_paused :: bool
  sf_heater_inhibited :: bool
  sf_resistance_ok :: bool

definition either_text :: "bool \<Rightarrow> string \<Rightarrow> string \<Rightarrow> string" where
  "either_text b yes no = (if b then yes else no)"

fun join_with :: "char \<Rightarrow> string list \<Rightarrow> string" where
  "join_with c [] = []"
| "join_with c [s] = s"
| "join_with c (s # t # ts) = s @ c # join_with c (t # ts)"

definition to_status_bitfield :: "status_flags \<Rightarrow> string" where
  "to_status_bitfield f =
     join_with (CHR ''|'')
       [either_text (sf_sd_ok f) ''SD_OK'' ''SD_FAIL'', either_text (sf_usb_ok f) ''USB_OK'' ''USB_FAIL'',
        either_text (sf_i2c_ok f) ''I2C_OK'' ''I2C_FAIL'', either_text (sf_spi_ok f) ''SPI_OK'' ''SPI_FAIL'',
        either_text (sf_link_ok f) ''LINK_OK'' ''LINK_FAIL'',
        either_text (sf_t_ambient_ok f) ''T_AMBIENT_OK'' ''T_AMBIENT_FAIL'',
        either_text (sf_p_ambient_ok f) ''P_AMBIENT_OK'' ''P_AMBIENT_FAIL'',
        either_text (sf_uniformity_ok f) ''UNIFORMITY_OK'' ''UNIFORMITY_FAIL'',
        either_text (sf_overtemp_ok f) ''OVERTEMP_OK'' ''OVERTEMP_FAIL'',
        either_text (sf_energy_ok f) ''ENERGY_OK'' ''ENERGY_FAIL'', either_text (sf_pwm_ok f) ''PWM_OK'' ''PWM_FAIL'',
        either_text (sf_stepper_ok f) ''STEPPER_OK'' ''STEPPER_FAIL'',
        either_text (sf_sample_temp_ok f) ''SAMPLE_TEMP_OK'' ''SAMPLE_TEMP_FAIL'',
        either_text (sf_simulated f) ''SIMULATED'' ''REAL_SENSORS'',
        either_text (sf_sequence_paused f) ''SEQ_PAUSED'' ''SEQ_READY'',
        either_text (sf_heater_inhibited f) ''HEATER_INHIBITED'' ''HEATER_ACTIVE'',
        either_text (sf_resistance_ok f) ''RESISTANCE_OK'' ''RESISTANCE_FAIL'']"

record telemetry_record =
  tr_seq :: "64 word"
  tr_phase :: mission_phase
  tr_mode :: system_mode
  tr_sensors :: sensor_snapshot
  tr_heater_duty :: "dbl list"
  tr_status :: status_flags
  tr_pwm_state :: component_state
  tr_fallback :: bool
  tr_link_loss_s :: dbl
  tr_energy_wh :: dbl
  tr_budget_wh :: dbl
  tr_budget_exhausted :: bool
  tr_heaters_active :: int
  tr_queue_depth :: nat
  tr_plan :: string
  tr_tune :: string
  tr_debug_armed :: bool
  tr_steppers :: "motor_report list"

text \<open>What the tick puts into the record: its report, the snapshot, the flags the storage and the sensors hold, and the
  depth of the queue.\<close>

definition fill_record :: "tick_report \<Rightarrow> sensor_snapshot \<Rightarrow> status_flags \<Rightarrow> bool \<Rightarrow> bool \<Rightarrow> bool \<Rightarrow> bool \<Rightarrow> bool \<Rightarrow> bool \<Rightarrow>
    bool \<Rightarrow> nat \<Rightarrow> telemetry_record" where
  "fill_record rep snap storage spi i2c tamb pamb stemp sim res depth =
     \<lparr>tr_seq = rep_seq rep, tr_phase = rep_phase rep, tr_mode = rep_mode rep, tr_sensors = snap,
      tr_heater_duty = rep_heater_duty rep,
      tr_status = storage\<lparr>sf_spi_ok := spi, sf_i2c_ok := i2c, sf_link_ok := rep_link_ok rep, sf_t_ambient_ok := tamb,
        sf_p_ambient_ok := pamb, sf_overtemp_ok := rep_overtemp_ok rep, sf_uniformity_ok := rep_uniformity_ok rep,
        sf_energy_ok := rep_energy_ok rep, sf_pwm_ok := rep_pwm_ok rep, sf_stepper_ok := rep_stepper_ok rep,
        sf_sample_temp_ok := stemp, sf_simulated := sim, sf_sequence_paused := rep_sequence_paused rep,
        sf_heater_inhibited := rep_heater_inhibited rep, sf_resistance_ok := res\<rparr>,
      tr_pwm_state = rep_pwm_state rep, tr_fallback = rep_fallback rep, tr_link_loss_s = rep_link_loss_s rep,
      tr_energy_wh = rep_energy_wh rep, tr_budget_wh = rep_budget_wh rep,
      tr_budget_exhausted = rep_budget_exhausted rep, tr_heaters_active = rep_heaters_active rep,
      tr_queue_depth = depth, tr_plan = rep_plan rep, tr_tune = rep_tune rep, tr_debug_armed = rep_debug_armed rep,
      tr_steppers = rep_motors rep\<rparr>"

subsection \<open>The tokens\<close>

definition flag :: "bool \<Rightarrow> string" where
  "flag b = (if b then ''1'' else ''0'')"

definition or_text :: "string \<Rightarrow> string \<Rightarrow> string" where
  "or_text s d = (if s = [] then d else s)"

definition thermal_text :: "int \<Rightarrow> string" where
  "thermal_text t = (if 2 \<le> t then ''hot'' else if t = 1 then ''warn'' else ''ok'')"

definition stepper_segment :: "motor_report \<Rightarrow> nat \<Rightarrow> string" where
  "stepper_segment m i =
     (let st = mr_status m in
      '',STEPPER'' @ show_nat i @ ''=pos:'' @ show_int (st_position_steps st) @ ''|tgt:'' @ show_int (st_target_steps st) @
      ''|hz:'' @ show_fixed 2 (st_step_hz st) @ ''|us:'' @ show_int (st_microstep st) @ ''|ok:'' @ flag (st_healthy st) @
      ''|en:'' @ flag (st_enabled st) @ ''|mv:'' @ flag (st_moving st) @ ''|hold:'' @ flag (st_holding st) @
      ''|hold_s:'' @ show_fixed 2 (st_hold_remaining_s st) @ ''|pulses:'' @ show_nat (unat (st_pulses_total st)) @
      ''|missed:'' @ show_nat (st_missed_deadlines st) @ ''|src:'' @ or_text (st_last_source st) ''-'' @
      ''|zeroed:'' @ flag (mr_zeroed m) @ ''|seq:'' @ or_text (mr_seq_name m) ''-'' @
      ''|seqst:'' @ or_text (mr_seq_state m) ''idle'' @ ''|amps:'' @ show_fixed 2 (st_run_current st) @
      ''|acc:'' @ show_fixed 1 (st_accel st) @ ''|mm:'' @ show_fixed 3 (st_position_mm st) @
      ''|mm_tgt:'' @ show_fixed 3 (st_target_mm st) @ ''|therm:'' @ thermal_text (st_thermal_state st) @
      ''|loss:'' @ show_nat (unat (st_step_loss_events st)) @ ''|unc:'' @ flag (st_position_uncertain st))"

definition ctrl_segment :: "telemetry_record \<Rightarrow> string" where
  "ctrl_segment r =
     '',CTRL=fallback:'' @ flag (tr_fallback r) @ ''|link_loss_s:'' @ show_fixed 1 (tr_link_loss_s r) @
     ''|energy_wh:'' @ show_fixed 2 (tr_energy_wh r) @ ''|budget_wh:'' @ show_fixed 1 (tr_budget_wh r) @
     ''|budget_exhausted:'' @ flag (tr_budget_exhausted r) @ ''|heaters_active:'' @ show_int (tr_heaters_active r) @
     ''|queue:'' @ show_nat (tr_queue_depth r) @ ''|plan:'' @ or_text (tr_plan r) ''none'' @
     ''|debug:'' @ flag (tr_debug_armed r) @ ''|tune:'' @ or_text (tr_tune r) ''-''"

text \<open>A resistance that is not positive, or that is missing, is a dash.\<close>

definition resistance_text :: "dbl list \<Rightarrow> nat \<Rightarrow> string" where
  "resistance_text rs i = (if i < length rs \<and> 0 < rs ! i then show_fixed 3 (rs ! i) else ''-'')"

definition resistance_segment :: "sensor_snapshot \<Rightarrow> string" where
  "resistance_segment s =
     '',RESISTANCE='' @ join_with (CHR ''|'') (map (resistance_text (sn_resistance s)) [0..<length (sn_temps s)])"

definition valid_segment :: "sensor_snapshot \<Rightarrow> string" where
  "valid_segment s =
     '',SENSOR_VALID=AT:'' @ flag (sn_ambient_temp_valid s) @ ''|AP:'' @ flag (sn_pressure_valid s) @
     ''|UV:'' @ flag (sn_uv_valid s) @
     concat (map (\<lambda>i. ''|S'' @ show_nat i @ '':'' @ flag (i < length (sn_temp_valid s) \<and> sn_temp_valid s ! i))
       [0..<length (sn_temps s)])"

definition age_segment :: "sensor_snapshot \<Rightarrow> string" where
  "age_segment s =
     '',SENSOR_AGE_MS=AT:'' @ show_int (sn_ambient_temp_age s) @ ''|AP:'' @ show_int (sn_pressure_age s) @
     ''|UV:'' @ show_int (sn_uv_age s) @
     concat (map (\<lambda>i. ''|S'' @ show_nat i @ '':'' @
         show_int (if i < length (sn_temp_ages s) then sn_temp_ages s ! i else - 1)) [0..<length (sn_temps s)])"

definition motor_ok :: "telemetry_record \<Rightarrow> nat \<Rightarrow> bool" where
  "motor_ok r i \<longleftrightarrow> i < length (tr_steppers r) \<and> st_healthy (mr_status (tr_steppers r ! i))"

definition component_segment :: "telemetry_record \<Rightarrow> string" where
  "component_segment r =
     '',COMPONENT_STATE=DPS310:'' @ component_state_to_string (health_state (sn_dps310 (tr_sensors r))) @
     ''|ADS1115:'' @ component_state_to_string (health_state (sn_ads1115 (tr_sensors r))) @
     ''|SEQUENT_RTD:'' @ component_state_to_string (health_state (sn_rtd (tr_sensors r))) @
     ''|MOTOR0:'' @ either_text (motor_ok r 0) ''OK'' ''FAILED'' @
     ''|MOTOR1:'' @ either_text (motor_ok r 1) ''OK'' ''FAILED'' @
     ''|PWM:'' @ component_state_to_string (tr_pwm_state r)"

definition serialize_data_frame :: "telemetry_record \<Rightarrow> string \<Rightarrow> string" where
  "serialize_data_frame r session =
     (let s = tr_sensors r in
      ''DATA,'' @ session @ '','' @ show_nat (unat (tr_seq r)) @ '','' @ sn_timestamp s @ '','' @
      flag (sn_rtc_valid s) @ '','' @ show_fixed 2 (sn_ambient_temp s) @ '','' @ show_fixed 2 (sn_pressure s) @ '','' @
      show_fixed 2 (sn_uv s) @ concat (map (\<lambda>t. '','' @ show_fixed 2 t) (sn_temps s)) @
      '',HEATER_DUTY='' @ join_with (CHR ''|'') (map (show_fixed 3) (tr_heater_duty r)) @
      resistance_segment s @
      '',PHASE='' @ phase_to_string (tr_phase r) @ '',MODE='' @ mode_to_string (tr_mode r) @
      '',STATUS='' @ to_status_bitfield (tr_status r) @ valid_segment s @ age_segment s @
      component_segment r @ ctrl_segment r @
      concat (map (\<lambda>i. stepper_segment (tr_steppers r ! i) i) [0..<length (tr_steppers r)]))"

subsection \<open>Events\<close>

record heating_cycle_event =
  hc_cycle_id :: "32 word"
  hc_start_ts :: string
  hc_peak_temp_c :: dbl
  hc_hold_s :: dbl
  hc_cooldown :: dbl
  hc_specimen :: nat

definition serialize_cycle_event :: "heating_cycle_event \<Rightarrow> string \<Rightarrow> string" where
  "serialize_cycle_event e session =
     ''EVT,CYCLE,'' @ session @ '','' @ show_nat (unat (hc_cycle_id e)) @ '','' @ hc_start_ts e @ '','' @
     show_fixed 2 (hc_peak_temp_c e) @ '','' @ show_fixed 2 (hc_hold_s e) @ '','' @ show_fixed 4 (hc_cooldown e) @ '','' @
     show_nat (hc_specimen e)"

definition serialize_pull_event :: "pull_event \<Rightarrow> string \<Rightarrow> string" where
  "serialize_pull_event e session =
     ''EVT,PULL,'' @ session @ '','' @ show_nat (unat (pev_pull_id e)) @ '','' @ show_nat (pev_motor_id e) @ '','' @
     pev_start_ts e @ '','' @ show_int (pev_steps_moved e) @ '','' @ show_fixed 2 (pev_hold_s e) @ '','' @
     (if pev_samples e = [] then ''-'' else join_with (CHR ''|'') (map show_nat (pev_samples e))) @ '','' @
     show_int (pev_microstep e)"

end
