(* ===== verification/RtdAdapter.thy ===== *)
theory RtdAdapter
  imports Tmc5160Current Text
begin

unbundle bit_operations_syntax

text \<open>
  The Sequent RTD card, the only source of the sample temperatures (\<^verbatim>\<open>hal/sequent_rtd_adapter.cpp\<close>): its
  registers over I2C, the validation of a channel against its resistance, and the conversion of the resistance of a
  PT100 by bisection.  The bus is the record \<open>i2c_bus\<close> over a state \<open>'w\<close> of the outside world.  The double negative
  zero a register may hold is read as zero.
\<close>

subsection \<open>The conversion of a PT100\<close>

definition cvd_a :: dbl where "cvd_a = to_dbl (390830 / 10 ^ 8)"
definition cvd_b :: dbl where "cvd_b = to_dbl (- (577500 / 10 ^ 12))"
definition cvd_c :: dbl where "cvd_c = to_dbl (- (418301 / 10 ^ 17))"

definition pt100_resistance :: "dbl \<Rightarrow> dbl" where
  "pt100_resistance t =
     (if 0 \<le> t then Fin 100 * (Fin 1 + cvd_a * t + cvd_b * t * t)
      else Fin 100 * (Fin 1 + cvd_a * t + cvd_b * t * t + cvd_c * (t - Fin 100) * t * t * t))"

fun bisect :: "nat \<Rightarrow> dbl \<Rightarrow> dbl \<Rightarrow> dbl \<Rightarrow> dbl \<times> dbl" where
  "bisect 0 r lo hi = (lo, hi)"
| "bisect (Suc n) r lo hi =
     (let mid = (lo + hi) * Fin (1 / 2)
      in if pt100_resistance mid < r then bisect n r mid hi else bisect n r lo mid)"

definition pt100_temperature :: "dbl \<Rightarrow> dbl option" where
  "pt100_temperature r =
     (if \<not> is_finite r \<or> r \<le> 0 then None
      else if r < pt100_resistance (Fin (- 200)) \<or> pt100_resistance (Fin 850) < r then None
      else
        (let (lo, hi) = bisect 64 r (Fin (- 200)) (Fin 850); t = (lo + hi) * Fin (1 / 2)
         in if is_finite t then Some t else None))"

subsection \<open>The card\<close>

record 'w i2c_bus =
  i2c_open :: "int \<Rightarrow> 'w \<Rightarrow> bool \<times> 'w"
  i2c_read :: "nat \<Rightarrow> nat \<Rightarrow> 'w \<Rightarrow> 8 word list option \<times> 'w"
  i2c_available :: bool

datatype rtd_fault = RtdNone | RtdOpen | RtdShort | RtdMismatch

fun rtd_fault_text :: "rtd_fault \<Rightarrow> string" where
  "rtd_fault_text RtdNone = ''OK''"
| "rtd_fault_text RtdOpen = ''OPEN''"
| "rtd_fault_text RtdShort = ''SHORT''"
| "rtd_fault_text RtdMismatch = ''MISMATCH''"

record rtd_options =
  ro_stack :: int
  ro_expect_pt1000 :: bool
  ro_min_ohm :: dbl
  ro_max_ohm :: dbl
  ro_tol_c :: dbl
  ro_channel_map :: "nat list"

record rtd_identity =
  id_card_type :: nat
  id_fw_major :: nat
  id_fw_minor :: nat
  id_hw_major :: nat
  id_hw_minor :: nat
  id_pt1000 :: bool

record rtd_reading =
  rd_temperature :: "dbl list"
  rd_resistance :: "dbl list"
  rd_valid :: "bool list"
  rd_fault :: "rtd_fault list"
  rd_card_temp :: dbl
  rd_rail :: dbl
  rd_reinit :: nat

record rtd_adapter =
  ra_options :: rtd_options
  ra_burst :: bool
  ra_open :: bool

definition rtd_default :: rtd_options where
  "rtd_default =
     \<lparr>ro_stack = 0, ro_expect_pt1000 = False, ro_min_ohm = Fin 60, ro_max_ohm = Fin 390, ro_tol_c = Fin 2,
      ro_channel_map = [1, 2, 3, 4, 5, 6, 7, 8]\<rparr>"

definition no_identity :: rtd_identity where
  "no_identity =
     \<lparr>id_card_type = 0, id_fw_major = 0, id_fw_minor = 0, id_hw_major = 0, id_hw_minor = 0, id_pt1000 = False\<rparr>"

definition no_rtd_reading :: rtd_reading where
  "no_rtd_reading =
     \<lparr>rd_temperature = replicate 8 (Fin 0), rd_resistance = replicate 8 (Fin 0), rd_valid = replicate 8 False,
      rd_fault = replicate 8 RtdNone, rd_card_temp = Fin 0, rd_rail = Fin 0, rd_reinit = 0\<rparr>"

definition new_rtd_adapter :: "rtd_options \<Rightarrow> rtd_adapter" where
  "new_rtd_adapter opts = \<lparr>ra_options = opts, ra_burst = True, ra_open = False\<rparr>"

definition rtd_address :: "rtd_adapter \<Rightarrow> int" where
  "rtd_address a = 0x40 + ro_stack (ra_options a)"

text \<open>A 32-bit little-endian number, and the single-precision number it encodes.\<close>

definition le_word :: "8 word list \<Rightarrow> 32 word" where
  "le_word bs = fold (\<lambda>b w. push_bit 8 w OR ucast b) (rev bs) 0"

definition float_of_word :: "32 word \<Rightarrow> dbl" where
  "float_of_word w =
     (let e = uint (drop_bit 23 w AND 0xFF); m = uint (w AND 0x7FFFFF); s = (if bit w 31 then - 1 else 1 :: rat)
      in if e = 255 then (if m \<noteq> 0 then NaN else if bit w 31 then NInf else PInf)
         else if e = 0 then Fin (s * of_int m / 2 ^ 149)
         else Fin (s * of_int (2 ^ 23 + m) * 2 powi (e - 150)))"

definition float_at :: "8 word list \<Rightarrow> dbl" where
  "float_at bs = float_of_word (le_word bs)"

definition ensure_open :: "'w i2c_bus \<Rightarrow> rtd_adapter \<Rightarrow> 'w \<Rightarrow> (string + unit) \<times> rtd_adapter \<times> 'w" where
  "ensure_open b a w =
     (if ro_stack (ra_options a) < 0 \<or> 7 < ro_stack (ra_options a) then (Inl ''STACK_OUT_OF_RANGE'', a, w)
      else if ra_open a then (Inr (), a, w)
      else
        (let (ok, w) = i2c_open b (rtd_address a) w
         in if ok then (Inr (), a\<lparr>ra_open := True\<rparr>, w) else (Inl ''BUS_OPEN_FAILED'', a, w)))"

definition at_byte :: "8 word list \<Rightarrow> nat \<Rightarrow> nat" where
  "at_byte bs i = (if i < length bs then unat (bs ! i) else 0)"

text \<open>A failed transfer closes the adapter, a card of the wrong kind does not.  The identity is filled in as far as
  the conversation got.\<close>

definition rtd_probe :: "'w i2c_bus \<Rightarrow> rtd_adapter \<Rightarrow> rtd_identity \<Rightarrow> 'w \<Rightarrow>
    (string + unit) \<times> rtd_identity \<times> rtd_adapter \<times> 'w" where
  "rtd_probe b a i w =
     (case ensure_open b a w of
        (Inl e, a, w) \<Rightarrow> (Inl e, i, a, w)
      | (Inr _, a, w) \<Rightarrow>
          (case i2c_read b 57 2 w of
             (None, w) \<Rightarrow> (Inl ''CARD_NOT_DETECTED'', i, a\<lparr>ra_open := False\<rparr>, w)
           | (Some fw, w) \<Rightarrow>
               (let i = i\<lparr>id_fw_major := at_byte fw 0, id_fw_minor := at_byte fw 1\<rparr> in
                case i2c_read b 55 2 w of
                  (None, w) \<Rightarrow> (Inl ''HW_REVISION_READ_FAILED'', i, a\<lparr>ra_open := False\<rparr>, w)
                | (Some hw, w) \<Rightarrow>
                    (let i = i\<lparr>id_hw_major := at_byte hw 0, id_hw_minor := at_byte hw 1\<rparr> in
                     case i2c_read b 99 1 w of
                       (None, w) \<Rightarrow> (Inl ''CARD_TYPE_READ_FAILED'', i, a\<lparr>ra_open := False\<rparr>, w)
                     | (Some t, w) \<Rightarrow>
                         (let i = i\<lparr>id_card_type := at_byte t 0\<rparr> in
                          if at_byte t 0 < 1 then (Inl ''SENSOR_TYPE_UNVERIFIABLE_OLD_HARDWARE'', i, a, w)
                          else
                            (case i2c_read b 133 1 w of
                               (None, w) \<Rightarrow> (Inl ''SENSOR_TYPE_READ_FAILED'', i, a\<lparr>ra_open := False\<rparr>, w)
                             | (Some s, w) \<Rightarrow>
                                 (let i = i\<lparr>id_pt1000 := (at_byte s 0 mod 16 \<noteq> 0)\<rparr>
                                  in if id_pt1000 i \<noteq> ro_expect_pt1000 (ra_options a)
                                     then (Inl ''SENSOR_TYPE_MISMATCH'', i, a, w)
                                     else (Inr (), i, a, w))))))))"

text \<open>Eight values: one burst, or channel by channel once a burst was refused.\<close>

definition burst_values :: "nat list \<Rightarrow> 8 word list \<Rightarrow> dbl list" where
  "burst_values channels raw = map (\<lambda>c. float_at (take 4 (drop (4 * (c - 1)) raw))) channels"

fun read_channels :: "'w i2c_bus \<Rightarrow> nat \<Rightarrow> nat list \<Rightarrow> 'w \<Rightarrow> dbl list option \<times> 'w" where
  "read_channels b base [] w = (Some [], w)"
| "read_channels b base (c # cs) w =
     (case i2c_read b ((base + 4 * (c - 1)) mod 256) 4 w of
        (None, w) \<Rightarrow> (None, w)
      | (Some bytes, w) \<Rightarrow> (let (vs, w) = read_channels b base cs w in (map_option (\<lambda>vs. float_at bytes # vs) vs, w)))"

definition read_float_block :: "'w i2c_bus \<Rightarrow> nat \<Rightarrow> rtd_adapter \<Rightarrow> 'w \<Rightarrow> dbl list option \<times> rtd_adapter \<times> 'w" where
  "read_float_block b base a w =
     (let channels = ro_channel_map (ra_options a);
          (raw, w) = (if ra_burst a then i2c_read b base 32 w else (None, w))
      in case raw of
           Some raw \<Rightarrow> (Some (burst_values channels raw), a, w)
         | None \<Rightarrow> (let (vs, w) = read_channels b base channels w in (vs, a\<lparr>ra_burst := False\<rparr>, w)))"

text \<open>The fault of one channel, \<open>RtdNone\<close> exactly when it is valid.\<close>

definition channel_fault :: "rtd_options \<Rightarrow> dbl \<Rightarrow> dbl \<Rightarrow> rtd_fault" where
  "channel_fault opts temp ohms =
     (if \<not> is_finite temp \<or> \<not> is_finite ohms then RtdOpen
      else if dbl_abs (dbl_abs ohms - Fin 366) \<le> Fin (1 / 2) then RtdOpen
      else if ohms < ro_min_ohm opts then (if 0 \<le> ohms then RtdShort else RtdOpen)
      else if ro_max_ohm opts < ohms then RtdOpen
      else
        (case pt100_temperature ohms of
           None \<Rightarrow> RtdMismatch
         | Some derived \<Rightarrow> if ro_tol_c opts < dbl_abs (derived - temp) then RtdMismatch else RtdNone))"

definition apply_validation :: "rtd_options \<Rightarrow> rtd_reading \<Rightarrow> rtd_reading" where
  "apply_validation opts r =
     (let faults = map (\<lambda>(temp, ohms). channel_fault opts temp ohms) (zip (rd_temperature r) (rd_resistance r))
      in r\<lparr>rd_fault := faults, rd_valid := map (\<lambda>f. f = RtdNone) faults\<rparr>)"

definition signed_byte :: "nat \<Rightarrow> int" where
  "signed_byte n = (if n < 128 then int n else int n - 256)"

definition with_diagnostics :: "'w i2c_bus \<Rightarrow> rtd_reading \<Rightarrow> 'w \<Rightarrow> rtd_reading \<times> 'w" where
  "with_diagnostics b r w =
     (let (diag, w) = i2c_read b 32 3 w;
          r = (case diag of
                 None \<Rightarrow> r
               | Some d \<Rightarrow>
                   r\<lparr>rd_card_temp := dbl_of_int (signed_byte (at_byte d 0)),
                     rd_rail := dbl_of_int (int (at_byte d 1 + 256 * at_byte d 2)) / Fin 1000\<rparr>);
          (reinit, w) = i2c_read b 91 4 w
      in (case reinit of None \<Rightarrow> r | Some c \<Rightarrow> r\<lparr>rd_reinit := unat (le_word c)\<rparr>, w))"

text \<open>A read that fails leaves the reading as it was; the values the code had already stored in it are not looked at.\<close>

definition rtd_read_all :: "'w i2c_bus \<Rightarrow> rtd_adapter \<Rightarrow> rtd_reading \<Rightarrow> 'w \<Rightarrow>
    (string + unit) \<times> rtd_reading \<times> rtd_adapter \<times> 'w" where
  "rtd_read_all b a r w =
     (case ensure_open b a w of
        (Inl e, a, w) \<Rightarrow> (Inl e, r, a, w)
      | (Inr _, a, w) \<Rightarrow>
          (case read_float_block b 0 a w of
             (None, a, w) \<Rightarrow> (Inl ''TEMPERATURE_READ_FAILED'', r, a\<lparr>ra_open := False\<rparr>, w)
           | (Some temps, a, w) \<Rightarrow>
               (case read_float_block b 59 a w of
                  (None, a, w) \<Rightarrow> (Inl ''RESISTANCE_READ_FAILED'', r, a\<lparr>ra_open := False\<rparr>, w)
                | (Some ohms, a, w) \<Rightarrow>
                    (let (r, w) = with_diagnostics b (r\<lparr>rd_temperature := temps, rd_resistance := ohms\<rparr>) w
                     in (Inr (), apply_validation (ra_options a) r, a, w)))))"

subsection \<open>The bracket of the bisection\<close>

text \<open>A double that is finite and at most an integer in magnitude; sums and products keep such a bound.\<close>

definition bounded_by :: "int \<Rightarrow> dbl \<Rightarrow> bool" where
  "bounded_by B x = (\<exists>r. x = Fin r \<and> \<bar>r\<bar> \<le> of_int B)"

lemma bounded_to_dbl: "\<bar>q\<bar> \<le> of_int B \<Longrightarrow> B \<le> 2 ^ 53 \<Longrightarrow> bounded_by B (to_dbl q)"
  using to_dbl_mono [of "of_int (- B)" q] to_dbl_mono [of q "of_int B"] to_dbl_int [of B] to_dbl_int [of "- B"]
  by (cases "to_dbl q") (auto simp: bounded_by_def abs_le_iff)

lemma bounded_Fin [simp]: "bounded_by B (Fin q) = (\<bar>q\<bar> \<le> of_int B)"
  by (simp add: bounded_by_def)

lemma bounded_add:
  assumes "bounded_by A x" "bounded_by B y" "A + B \<le> 2 ^ 53" shows "bounded_by (A + B) (x + y)"
proof -
  obtain p q where pq: "x = Fin p" "y = Fin q" "\<bar>p\<bar> \<le> of_int A" "\<bar>q\<bar> \<le> of_int B"
    using assms by (auto simp: bounded_by_def)
  have "\<bar>p + q\<bar> \<le> of_int (A + B)" using abs_triangle_ineq [of p q] pq(3,4) by simp
  then show ?thesis using bounded_to_dbl [OF _ assms(3)] by (simp add: pq(1,2) plus_dbl_def)
qed

lemma bounded_mult:
  assumes "bounded_by A x" "bounded_by B y" "A * B \<le> 2 ^ 53" shows "bounded_by (A * B) (x * y)"
proof -
  obtain p q where pq: "x = Fin p" "y = Fin q" "\<bar>p\<bar> \<le> of_int A" "\<bar>q\<bar> \<le> of_int B"
    using assms by (auto simp: bounded_by_def)
  have "\<bar>p * q\<bar> \<le> of_int (A * B)" using mult_mono [OF pq(3,4)] pq(3) by (simp add: abs_mult)
  then show ?thesis using bounded_to_dbl [OF _ assms(3)] by (simp add: pq(1,2) times_dbl_def)
qed

lemma bounded_diff: "bounded_by A x \<Longrightarrow> bounded_by B y \<Longrightarrow> A + B \<le> 2 ^ 53 \<Longrightarrow> bounded_by (A + B) (x - y)"
  using bounded_add [of A x B "- y"] by (auto simp: bounded_by_def minus_dbl_def plus_dbl_def uminus_dbl_def)

lemma cvd_bounded: "bounded_by 1 cvd_a" "bounded_by 1 cvd_b" "bounded_by 1 cvd_c"
  unfolding cvd_a_def cvd_b_def cvd_c_def by (rule bounded_to_dbl; simp)+

lemma pt100_resistance_finite: "\<bar>q\<bar> \<le> 850 \<Longrightarrow> is_finite (pt100_resistance (Fin q))"
proof -
  assume q: "\<bar>q\<bar> \<le> 850"
  then have t: "bounded_by 850 (Fin q)" by simp
  have lin: "bounded_by 851 (Fin 1 + cvd_a * Fin q)"
    using bounded_add [of 1 "Fin 1", OF _ bounded_mult [OF cvd_bounded(1) t]] by simp
  have quad: "bounded_by 723351 (Fin 1 + cvd_a * Fin q + cvd_b * Fin q * Fin q)"
    using bounded_add [OF lin bounded_mult [OF bounded_mult [OF cvd_bounded(2) t] t]] by simp
  have "bounded_by 583418750000 (cvd_c * (Fin q - Fin 100) * Fin q * Fin q * Fin q)"
    using bounded_mult [OF bounded_mult [OF bounded_mult [OF bounded_mult [OF cvd_bounded(3) bounded_diff [OF t, of 100 "Fin 100"]] t] t] t]
    by simp
  from bounded_mult [of 100 "Fin 100", OF _ bounded_add [OF quad this]] bounded_mult [of 100 "Fin 100", OF _ quad]
  show ?thesis by (auto simp: pt100_resistance_def bounded_by_def zero_one_dbl)
qed

lemma round_rat_abs_error:
  assumes "\<bar>q\<bar> \<le> 2 ^ 11" shows "\<bar>round_rat q - q\<bar> \<le> 1 / 2 ^ 42"
proof -
  have pos: "\<bar>round_rat p - p\<bar> \<le> 1 / 2 ^ 42" if "0 \<le> p" "p \<le> 2 ^ 11" for p
  proof (cases "2 powi (- 1022) \<le> p")
    case True
    then have "\<bar>round_rat p - p\<bar> \<le> p / 2 ^ 53" by (rule round_rat_error)
    also have "\<dots> \<le> 1 / 2 ^ 42" using that by simp
    finally show ?thesis .
  next
    case False
    have "round_rat (of_int 1 * 2 powi (- 1022)) = of_int 1 * 2 powi (- 1022)" by (rule round_rat_exact) simp_all
    moreover have "round_rat p \<le> round_rat (2 powi (- 1022))" using False by (intro round_rat_mono) simp
    ultimately have "round_rat p \<le> 2 powi (- 1022)" by simp
    moreover have "(2 powi (- 1022) :: rat) \<le> 2 powi (- 42)" by (rule power_int_increasing) simp_all
    moreover have "(2 powi (- 42) :: rat) = 1 / 2 ^ 42" by (simp add: power_int_def power_one_over)
    ultimately have "round_rat p \<le> 1 / 2 ^ 42" "p \<le> 1 / 2 ^ 42" using False by linarith+
    with that(1) round_rat_nonneg [OF that(1)] show ?thesis by linarith
  qed
  show ?thesis using pos [of q] pos [of "- q"] assms 
    by (cases "0 \<le> q") (simp_all add: round_rat_minus abs_minus_commute)
qed

lemma near_arith:
  fixes e :: rat
  shows "\<bar>s - q\<bar> \<le> e \<Longrightarrow> \<bar>m - s * (1 / 2)\<bar> \<le> e \<Longrightarrow> \<bar>m - q / 2\<bar> \<le> 2 * e"
    and "\<bar>m - (l + h) / 2\<bar> \<le> e \<Longrightarrow> \<bar>h - m\<bar> \<le> \<bar>h - l\<bar> / 2 + e"
    and "\<bar>m - (l + h) / 2\<bar> \<le> e \<Longrightarrow> \<bar>m - l\<bar> \<le> \<bar>h - l\<bar> / 2 + e"
    and "\<bar>s - q\<bar> \<le> e \<Longrightarrow> \<bar>q\<bar> \<le> b \<Longrightarrow> \<bar>s\<bar> \<le> b + e"
proof -
  have half: "\<bar>m - (l + h) / 2\<bar> \<le> e \<Longrightarrow> h - l \<le> d \<Longrightarrow> l - h \<le> d \<Longrightarrow> \<bar>h - m\<bar> \<le> d / 2 + e \<and> \<bar>m - l\<bar> \<le> d / 2 + e" for d
    by (auto simp: abs_if field_simps split: if_splits)
  show "\<bar>s - q\<bar> \<le> e \<Longrightarrow> \<bar>m - s * (1 / 2)\<bar> \<le> e \<Longrightarrow> \<bar>m - q / 2\<bar> \<le> 2 * e"
    unfolding abs_le_iff by (intro conjI; linarith)
  show "\<bar>m - (l + h) / 2\<bar> \<le> e \<Longrightarrow> \<bar>h - m\<bar> \<le> \<bar>h - l\<bar> / 2 + e"
    using half [of "\<bar>h - l\<bar>"] by simp
  show "\<bar>m - (l + h) / 2\<bar> \<le> e \<Longrightarrow> \<bar>m - l\<bar> \<le> \<bar>h - l\<bar> / 2 + e"
    using half [of "\<bar>h - l\<bar>"] by simp
  show "\<bar>s - q\<bar> \<le> e \<Longrightarrow> \<bar>q\<bar> \<le> b \<Longrightarrow> \<bar>s\<bar> \<le> b + e"
    unfolding abs_le_iff by (intro conjI; linarith)
qed

lemma to_dbl_near:
  assumes "\<bar>q\<bar> \<le> 2 ^ 11" shows "\<exists>r. to_dbl q = Fin r \<and> \<bar>r - q\<bar> \<le> 1 / 2 ^ 42"
proof -
  have e: "\<bar>round_rat q - q\<bar> \<le> 1 / 2 ^ 42" by (rule round_rat_abs_error [OF assms])
  have "(2::rat) ^ 12 < 2 ^ 1024" by (rule power_strict_increasing) simp_all
  moreover have "\<bar>round_rat q\<bar> < 2 ^ 12" using near_arith(4) [OF e assms] by (rule le_less_trans) simp
  ultimately have "\<bar>round_rat q\<bar> < 2 ^ 1024" by linarith
  with e show ?thesis by (simp add: to_dbl_def Let_def abs_less_iff)
qed

definition in_pt100_range :: "rat \<Rightarrow> bool" where
  "in_pt100_range q = (- 200 \<le> q \<and> q \<le> 850)"

lemma to_dbl_stays: "to_dbl q = Fin r \<Longrightarrow> to_dbl (of_int l) = Fin (of_int l) \<Longrightarrow> to_dbl (of_int u) = Fin (of_int u) \<Longrightarrow>
    of_int l \<le> q \<Longrightarrow> q \<le> of_int u \<Longrightarrow> of_int l \<le> r \<and> r \<le> of_int u"
  using to_dbl_mono [of "of_int l" q] to_dbl_mono [of q "of_int u"] by simp

lemma midpoint:
  assumes "in_pt100_range l" "in_pt100_range h"
  shows "\<exists>m. (Fin l + Fin h) * Fin (1 / 2) = Fin m \<and> in_pt100_range m \<and> \<bar>m - (l + h) / 2\<bar> \<le> 1 / 2 ^ 41"
proof -
  have q: "- 400 \<le> l + h" "l + h \<le> 1700" using assms by (simp_all add: in_pt100_range_def)
  then have "\<bar>l + h\<bar> \<le> 2 ^ 11" by (simp add: abs_le_iff)
  then obtain s where s: "to_dbl (l + h) = Fin s" "\<bar>s - (l + h)\<bar> \<le> 1 / 2 ^ 42" using to_dbl_near by blast
  have sr: "- 400 \<le> s \<and> s \<le> 1700"
    using to_dbl_stays [OF s(1), of "- 400" 1700] to_dbl_int [of "- 400"] to_dbl_int [of 1700] q by simp
  then have "\<bar>s * (1 / 2)\<bar> \<le> 2 ^ 11" by (simp add: abs_le_iff)
  then obtain m where m: "to_dbl (s * (1 / 2)) = Fin m" "\<bar>m - s * (1 / 2)\<bar> \<le> 1 / 2 ^ 42" using to_dbl_near by blast
  have "- 200 \<le> m \<and> m \<le> 850"
    using to_dbl_stays [OF m(1), of "- 200" 850] to_dbl_int [of "- 200"] to_dbl_int [of 850] sr by simp
  moreover have "\<bar>m - (l + h) / 2\<bar> \<le> 1 / 2 ^ 41" using near_arith(1) [OF s(2) m(2)] by simp
  ultimately show ?thesis using s(1) m(1) by (simp add: plus_dbl_def times_dbl_def in_pt100_range_def)
qed

lemma bisect_bracket:
  assumes "in_pt100_range l" "in_pt100_range h" "pt100_resistance (Fin l) \<le> r" "\<not> pt100_resistance (Fin h) < r"
  shows "\<exists>l' h'. bisect n r (Fin l) (Fin h) = (Fin l', Fin h') \<and> in_pt100_range l' \<and> in_pt100_range h' \<and>
      pt100_resistance (Fin l') \<le> r \<and> \<not> pt100_resistance (Fin h') < r \<and> \<bar>h' - l'\<bar> \<le> (\<bar>h - l\<bar> - 1 / 2 ^ 40) / 2 ^ n + 1 / 2 ^ 40"
  using assms
proof (induction n arbitrary: l h)
  case (Suc n)
  obtain m where m: "(Fin l + Fin h) * Fin (1 / 2) = Fin m" "in_pt100_range m" "\<bar>m - (l + h) / 2\<bar> \<le> 1 / 2 ^ 41"
    using midpoint [OF Suc.prems(1,2)] by blast
  have half: "\<bar>h - m\<bar> \<le> \<bar>h - l\<bar> / 2 + 1 / 2 ^ 41" "\<bar>m - l\<bar> \<le> \<bar>h - l\<bar> / 2 + 1 / 2 ^ 41"
    by (rule near_arith [OF m(3)])+
  have step: "(w - 1 / 2 ^ 40) / 2 ^ n \<le> (\<bar>h - l\<bar> - 1 / 2 ^ 40) / 2 ^ Suc n" if "w \<le> \<bar>h - l\<bar> / 2 + 1 / 2 ^ 41" for w
  proof -
    have "(w - 1 / 2 ^ 40) / 2 ^ n \<le> ((\<bar>h - l\<bar> - 1 / 2 ^ 40) / 2) / 2 ^ n" using that by (intro divide_right_mono) simp_all
    then show ?thesis by (simp add: field_simps)
  qed
  show ?case
  proof (cases "pt100_resistance (Fin m) < r")
    case True
    with Suc.IH [of m h] m(2) Suc.prems step [OF half(1)] show ?thesis
      by (simp add: m(1) Let_def dbl_less_imp_le del: power_Suc) (meson add_right_mono order_trans)
  next
    case False
    with Suc.IH [of l m] m(2) Suc.prems step [OF half(2)] show ?thesis
      by (simp add: m(1) Let_def del: power_Suc) (meson add_right_mono order_trans)
  qed
qed simp

lemma pt100_temperature_bracket:
  assumes "pt100_temperature r = Some t"
  shows "\<exists>lo q hi. t = Fin q \<and> - 200 \<le> q \<and> q \<le> 850 \<and> \<bar>q - lo\<bar> \<le> 1 / 2 ^ 39 \<and> \<bar>hi - q\<bar> \<le> 1 / 2 ^ 39 \<and>
      pt100_resistance (Fin lo) \<le> r \<and> \<not> pt100_resistance (Fin hi) < r"
proof -
  have fin: "is_finite r" and lo: "\<not> r < pt100_resistance (Fin (- 200))" and hi: "\<not> pt100_resistance (Fin 850) < r"
    using assms by (auto simp: pt100_temperature_def split: if_splits)
  have "pt100_resistance (Fin (- 200)) \<noteq> NaN" using pt100_resistance_finite [of "- 200"] by auto
  with fin lo have lo: "pt100_resistance (Fin (- 200)) \<le> r" by (subst dbl_not_less [symmetric]) (auto)
  obtain l h where b: "bisect 64 r (Fin (- 200)) (Fin 850) = (Fin l, Fin h)" "in_pt100_range l" "in_pt100_range h"
      "pt100_resistance (Fin l) \<le> r" "\<not> pt100_resistance (Fin h) < r"
      "\<bar>h - l\<bar> \<le> (\<bar>850 - (- 200)\<bar> - 1 / 2 ^ 40) / 2 ^ 64 + 1 / 2 ^ 40"
    using bisect_bracket [of "- 200" 850 r 64, OF _ _ lo hi] by (auto simp: in_pt100_range_def)
  obtain m where m: "(Fin l + Fin h) * Fin (1 / 2) = Fin m" "in_pt100_range m" "\<bar>m - (l + h) / 2\<bar> \<le> 1 / 2 ^ 41"
    using midpoint [OF b(2,3)] by blast
  have "t = Fin m" using assms by (auto simp: pt100_temperature_def b(1) m(1) Let_def split: if_splits)
  moreover have w: "\<bar>h - l\<bar> \<le> 1 / 2 ^ 40 + 1 / 2 ^ 50" using b(6) by simp
  have "\<bar>m - l\<bar> \<le> 1 / 2 ^ 39" "\<bar>h - m\<bar> \<le> 1 / 2 ^ 39"
    using near_arith(2,3) [OF m(3)] w by simp_all
  ultimately show ?thesis using m(2) b(4,5) by (auto simp: in_pt100_range_def)
qed

subsection \<open>A channel that is reported valid\<close>

lemma dbl_abs_finite: "is_finite x \<Longrightarrow> dbl_abs x \<noteq> NaN" by (cases x) simp_all

lemma channel_valid:
  assumes "channel_fault opts temp ohms = RtdNone"
  obtains derived where "is_finite temp" "is_finite ohms" "\<not> dbl_abs (dbl_abs ohms - Fin 366) \<le> Fin (1 / 2)"
    "\<not> ohms < ro_min_ohm opts" "\<not> ro_max_ohm opts < ohms" "pt100_temperature ohms = Some derived"
    "\<not> ro_tol_c opts < dbl_abs (derived - temp)"
  using assms by (auto simp: channel_fault_def split: if_splits option.splits)

lemma length_burst [simp]: "length (burst_values cs raw) = length cs"
  by (simp add: burst_values_def)

lemma length_read_channels: "read_channels b base cs w = (Some vs, w') \<Longrightarrow> length vs = length cs"
  by (induction cs arbitrary: w vs w') (auto split: prod.splits option.splits)

lemma length_read_block:
  "read_float_block b base a w = (Some vs, a', w') \<Longrightarrow> length vs = length (ro_channel_map (ra_options a))"
  and options_read_block:
  "read_float_block b base a w = (res, a', w') \<Longrightarrow> ra_options a' = ra_options a"
  by (auto simp: read_float_block_def Let_def split: prod.splits option.splits if_splits dest: length_read_channels)

lemma options_ensure_open: "ensure_open b a w = (res, a', w') \<Longrightarrow> ra_options a' = ra_options a"
  by (auto simp: ensure_open_def split: if_splits prod.splits)

lemma diagnostics_keep [simp]:
  "with_diagnostics b r w = (r', w') \<Longrightarrow> rd_temperature r' = rd_temperature r"
  "with_diagnostics b r w = (r', w') \<Longrightarrow> rd_resistance r' = rd_resistance r"
  by (auto simp: with_diagnostics_def Let_def split: prod.splits option.splits)

lemma read_all_validated:
  assumes "rtd_read_all b a r w = (Inr (), r', a', w')"
  shows "rd_valid r' = map (\<lambda>(temp, ohms). channel_fault (ra_options a) temp ohms = RtdNone)
      (zip (rd_temperature r') (rd_resistance r'))"
    and "length (rd_temperature r') = length (ro_channel_map (ra_options a))"
    and "length (rd_resistance r') = length (ro_channel_map (ra_options a))"
proof -
  obtain a1 w1 temps a2 w2 ohms a3 w3 r4 w4 where
    steps: "ensure_open b a w = (Inr (), a1, w1)" "read_float_block b 0 a1 w1 = (Some temps, a2, w2)"
      "read_float_block b 59 a2 w2 = (Some ohms, a3, w3)"
      "with_diagnostics b (r\<lparr>rd_temperature := temps, rd_resistance := ohms\<rparr>) w3 = (r4, w4)"
    and r': "r' = apply_validation (ra_options a3) r4"
    using assms by (auto simp: rtd_read_all_def Let_def split: prod.splits sum.splits option.splits)
  have opts: "ra_options a1 = ra_options a" "ra_options a2 = ra_options a" "ra_options a3 = ra_options a"
    using options_ensure_open [OF steps(1)] options_read_block [OF steps(2)] options_read_block [OF steps(3)] by simp_all
  show "rd_valid r' = map (\<lambda>(temp, ohms). channel_fault (ra_options a) temp ohms = RtdNone)
      (zip (rd_temperature r') (rd_resistance r'))"
    by (simp add: r' apply_validation_def Let_def opts comp_def case_prod_beta)
  show "length (rd_temperature r') = length (ro_channel_map (ra_options a))"
    "length (rd_resistance r') = length (ro_channel_map (ra_options a))"
    using length_read_block [OF steps(2)] length_read_block [OF steps(3)] diagnostics_keep [OF steps(4)]
    by (simp_all add: r' apply_validation_def Let_def opts)
qed

text \<open>C36. What a valid channel promises: after a successful read, the temperature and the resistance of a channel
  marked valid are finite, the resistance lies in the window of the probe and at least half an ohm from the level of an
  open input, and the temperature agrees, within the tolerance, with a temperature between -200 and 850 degrees that
  sits between two points, less than \<open>2\<^sup>-\<^sup>3\<^sup>8\<close> degrees apart, at which the resistance of a PT100 is at most, and not
  below, the resistance read.\<close>

theorem valid_channel_confirmed:
  assumes "rtd_read_all b a r w = (Inr (), r', a', w')" "i < length (rd_valid r')" "rd_valid r' ! i"
  defines "ohms \<equiv> rd_resistance r' ! i" and "temp \<equiv> rd_temperature r' ! i"
  shows "is_finite temp \<and> is_finite ohms \<and> \<not> ohms < ro_min_ohm (ra_options a) \<and> \<not> ro_max_ohm (ra_options a) < ohms \<and>
    \<not> dbl_abs (dbl_abs ohms - Fin 366) \<le> Fin (1 / 2) \<and>
    (\<exists>lo q hi. - 200 \<le> q \<and> q \<le> 850 \<and> \<bar>q - lo\<bar> \<le> 1 / 2 ^ 39 \<and> \<bar>hi - q\<bar> \<le> 1 / 2 ^ 39 \<and>
       pt100_resistance (Fin lo) \<le> ohms \<and> \<not> pt100_resistance (Fin hi) < ohms \<and>
       \<not> ro_tol_c (ra_options a) < dbl_abs (Fin q - temp))"
proof -
  have "channel_fault (ra_options a) temp ohms = RtdNone"
    using assms(2,3) read_all_validated [OF assms(1)] by (simp add: ohms_def temp_def)
  then obtain derived where d: "is_finite temp" "is_finite ohms" "\<not> dbl_abs (dbl_abs ohms - Fin 366) \<le> Fin (1 / 2)"
    "\<not> ohms < ro_min_ohm (ra_options a)" "\<not> ro_max_ohm (ra_options a) < ohms" "pt100_temperature ohms = Some derived"
    "\<not> ro_tol_c (ra_options a) < dbl_abs (derived - temp)"
    by (rule channel_valid)
  with pt100_temperature_bracket [OF d(6)] show ?thesis by blast
qed

subsection \<open>A card on the bench\<close>

definition in_ivl :: "rat \<Rightarrow> rat \<Rightarrow> dbl \<Rightarrow> bool" where
  "in_ivl p q x = (\<exists>r. x = Fin r \<and> p \<le> r \<and> r \<le> q)"

lemma in_ivl_to_dbl: "p \<le> r \<Longrightarrow> r \<le> q \<Longrightarrow> to_dbl p = Fin p \<Longrightarrow> to_dbl q = Fin q \<Longrightarrow> in_ivl p q (to_dbl r)"
  using to_dbl_mono [of p r] to_dbl_mono [of r q] by (cases "to_dbl r") (simp_all add: in_ivl_def)

lemma cvd_signs: "in_ivl (1 / 2 ^ 8) 1 cvd_a" "in_ivl (- 1 / 2 ^ 20) 0 cvd_b" "in_ivl (- 1 / 2 ^ 20) 0 cvd_c"
  using to_dbl_dyadic [of 1 8] to_dbl_dyadic [of "- 1" 20]
  by (simp_all add: cvd_a_def cvd_b_def cvd_c_def) (intro in_ivl_to_dbl; simp)+

lemma pt100_at_850: "Fin 100 \<le> pt100_resistance (Fin 850)"
proof -
  obtain a b where ab: "cvd_a = Fin a" "cvd_b = Fin b" "1 / 2 ^ 8 \<le> a" "a \<le> 1" "- 1 / 2 ^ 20 \<le> b" "b \<le> 0"
    using cvd_signs unfolding in_ivl_def by blast
  have "in_ivl 3 850 (to_dbl (a * 850))" using ab by (intro in_ivl_to_dbl) simp_all
  then obtain x where x: "to_dbl (a * 850) = Fin x" "3 \<le> x" "x \<le> 850" unfolding in_ivl_def by blast
  have "in_ivl 4 851 (to_dbl (1 + x))" using x by (intro in_ivl_to_dbl) simp_all
  then obtain s where s: "to_dbl (1 + x) = Fin s" "4 \<le> s" "s \<le> 851" unfolding in_ivl_def by blast
  have "in_ivl (- 1 / 2 ^ 10) 0 (to_dbl (b * 850))" using ab to_dbl_dyadic [of "- 1" 10] by (intro in_ivl_to_dbl) simp_all
  then obtain y where y: "to_dbl (b * 850) = Fin y" "- 1 / 2 ^ 10 \<le> y" "y \<le> 0" unfolding in_ivl_def by blast
  have "in_ivl (- 1) 0 (to_dbl (y * 850))" using y to_dbl_int [of "- 1"] by (intro in_ivl_to_dbl) simp_all
  then obtain z where z: "to_dbl (y * 850) = Fin z" "- 1 \<le> z" "z \<le> 0" unfolding in_ivl_def by blast
  have "in_ivl 3 851 (to_dbl (s + z))" using s z by (intro in_ivl_to_dbl) simp_all
  then obtain v where v: "to_dbl (s + z) = Fin v" "3 \<le> v" unfolding in_ivl_def by blast
  have "to_dbl 100 \<le> to_dbl (100 * v)" using v by (intro to_dbl_mono) simp
  then show ?thesis
    by (simp add: pt100_resistance_def ab zero_one_dbl times_dbl_def plus_dbl_def x s y z v)
qed

lemma pt100_at_minus_200: "pt100_resistance (Fin (- 200)) \<le> Fin 100"
proof -
  obtain a b c where abc: "cvd_a = Fin a" "cvd_b = Fin b" "cvd_c = Fin c" "0 \<le> a" "a \<le> 1" "- 1 \<le> b" "b \<le> 0" "- 1 \<le> c" "c \<le> 0"
    using cvd_signs unfolding in_ivl_def by (force intro: order_trans)
  have neg: "to_dbl (- numeral n) = Fin (- numeral n)" if "(numeral n :: int) \<le> 2 ^ 53" for n
    using to_dbl_int [of "- numeral n"] that by simp
  obtain x where x: "to_dbl (a * - 200) = Fin x" "- 200 \<le> x" "x \<le> 0"
    using in_ivl_to_dbl [of "- 200" "a * - 200" 0] abc by (auto simp: in_ivl_def neg)
  obtain s where s: "to_dbl (1 + x) = Fin s" "- 200 \<le> s" "s \<le> 1"
    using in_ivl_to_dbl [of "- 200" "1 + x" 1] x by (auto simp: in_ivl_def neg)
  obtain y where y: "to_dbl (b * - 200) = Fin y" "0 \<le> y" "y \<le> 200"
    using in_ivl_to_dbl [of 0 "b * - 200" 200] abc by (auto simp: in_ivl_def)
  obtain z where z: "to_dbl (y * - 200) = Fin z" "- 40000 \<le> z" "z \<le> 0"
    using in_ivl_to_dbl [of "- 40000" "y * - 200" 0] y by (auto simp: in_ivl_def neg)
  obtain v where v: "to_dbl (s + z) = Fin v" "- 50000 \<le> v" "v \<le> 1"
    using in_ivl_to_dbl [of "- 50000" "s + z" 1] s z by (auto simp: in_ivl_def neg)
  obtain d where d: "to_dbl (c * - 300) = Fin d" "0 \<le> d" "d \<le> 300"
    using in_ivl_to_dbl [of 0 "c * - 300" 300] abc by (auto simp: in_ivl_def)
  obtain e where e: "to_dbl (d * - 200) = Fin e" "- 60000 \<le> e" "e \<le> 0"
    using in_ivl_to_dbl [of "- 60000" "d * - 200" 0] d by (auto simp: in_ivl_def neg)
  obtain f where f: "to_dbl (e * - 200) = Fin f" "0 \<le> f" "f \<le> 12000000"
    using in_ivl_to_dbl [of 0 "e * - 200" 12000000] e by (auto simp: in_ivl_def)
  obtain g where g: "to_dbl (f * - 200) = Fin g" "- 2400000000 \<le> g" "g \<le> 0"
    using in_ivl_to_dbl [of "- 2400000000" "f * - 200" 0] f by (auto simp: in_ivl_def neg)
  obtain h where h: "to_dbl (v + g) = Fin h" "h \<le> 1"
    using in_ivl_to_dbl [of "- 2500000000" "v + g" 1] v g by (auto simp: in_ivl_def neg)
  have "to_dbl (100 * h) \<le> to_dbl 100" using h by (intro to_dbl_mono) simp
  then show ?thesis
    by (simp add: pt100_resistance_def abc zero_one_dbl times_dbl_def plus_dbl_def minus_dbl_def s z v e f g h neg
      x(1) [simplified] y(1) [simplified] z(1) [simplified] d(1) [simplified] e(1) [simplified] f(1) [simplified] g(1) [simplified])
qed

lemma pt100_at_100_ohm: "\<exists>q. pt100_temperature (Fin 100) = Some (Fin q) \<and> \<bar>q\<bar> \<le> 850"
proof -
  obtain l h where b: "bisect 64 (Fin 100) (Fin (- 200)) (Fin 850) = (Fin l, Fin h)" "in_pt100_range l" "in_pt100_range h"
    using bisect_bracket [of "- 200" 850 "Fin 100" 64] pt100_at_850 pt100_at_minus_200
    by (auto simp: in_pt100_range_def dbl_le_imp_not_less)
  obtain m where "(Fin l + Fin h) * Fin (1 / 2) = Fin m" "in_pt100_range m" using midpoint [OF b(2,3)] by blast
  then have "pt100_temperature (Fin 100) = Some (Fin m)"
    using pt100_at_850 pt100_at_minus_200 by (simp add: pt100_temperature_def b dbl_le_imp_not_less zero_one_dbl)
  then show ?thesis using \<open>in_pt100_range m\<close> by (simp add: in_pt100_range_def abs_le_iff)
qed

text \<open>A bench card whose eight probes sit in ice water, with a tolerance wide enough for any derived temperature.\<close>

definition bench_bus :: "unit i2c_bus" where
  "bench_bus =
     \<lparr>i2c_open = (\<lambda>addr w. (True, w)),
      i2c_read = (\<lambda>reg n w. (if n = 32 then Some (if reg = 0 then replicate 32 0 else concat (replicate 8 [0, 0, 0xC8, 0x42])) else None, w)),
      i2c_available = True\<rparr>"

definition bench_card :: rtd_adapter where
  "bench_card = new_rtd_adapter (rtd_default\<lparr>ro_tol_c := Fin 1000\<rparr>)"

definition ice_reading :: rtd_reading where
  "ice_reading =
     no_rtd_reading\<lparr>rd_temperature := replicate 8 (Fin 0), rd_resistance := replicate 8 (Fin 100),
       rd_valid := replicate 8 True, rd_fault := replicate 8 RtdNone\<rparr>"

lemma float_ice: "float_at [0, 0, 0, 0] = Fin 0" "float_at [0, 0, 0xC8, 0x42] = Fin 100"
  by code_simp+

lemma bench_blocks:
  "burst_values [1, 2, 3, 4, 5, 6, 7, 8] (replicate 32 0) = replicate 8 (Fin 0)"
  "burst_values [1, 2, 3, 4, 5, 6, 7, 8] (concat (replicate 8 [0, 0, 0xC8, 0x42])) = replicate 8 (Fin 100)"
proof -
  have r: "replicate 8 x = [x, x, x, x, x, x, x, x]" for x :: 'b
    by (simp add: eval_nat_numeral)
  have z: "replicate 4 (0 :: 8 word) = [0, 0, 0, 0]" by (simp add: eval_nat_numeral)
  show "burst_values [1, 2, 3, 4, 5, 6, 7, 8] (replicate 32 0) = replicate 8 (Fin 0)"
    by (simp add: burst_values_def r z float_ice)
  show "burst_values [1, 2, 3, 4, 5, 6, 7, 8] (concat (replicate 8 [0, 0, 0xC8, 0x42])) = replicate 8 (Fin 100)"
    by (simp add: burst_values_def r float_ice)
qed

lemma ice_channel: "channel_fault (rtd_default\<lparr>ro_tol_c := Fin 1000\<rparr>) (Fin 0) (Fin 100) = RtdNone"
proof -
  obtain q where q: "pt100_temperature (Fin 100) = Some (Fin q)" "\<bar>q\<bar> \<le> 850" using pt100_at_100_ohm by blast
  have "to_dbl (- 266) = Fin (- 266)" using to_dbl_int [of "- 266"] by simp
  moreover have "dbl_abs (Fin q - Fin 0) \<le> Fin 1000"
    using in_ivl_to_dbl [of "- 850" q 850] to_dbl_int [of "- 850"] q(2)
    by (auto simp: in_ivl_def minus_dbl_def plus_dbl_def abs_le_iff)
  ultimately show ?thesis
    by (auto simp: channel_fault_def q(1) rtd_default_def zero_one_dbl minus_dbl_def plus_dbl_def dbl_le_imp_not_less)
qed

lemma bench_reads_ice:
  "rtd_read_all bench_bus bench_card no_rtd_reading () = (Inr (), ice_reading, bench_card\<lparr>ra_open := True\<rparr>, ())"
proof -
  have defaults: "ro_stack rtd_default = 0" "ro_channel_map rtd_default = [1, 2, 3, 4, 5, 6, 7, 8]"
    by (simp_all add: rtd_default_def)
  have lists: "zip (replicate 8 (Fin 0)) (replicate 8 (Fin 100)) = replicate 8 (Fin 0, Fin 100)" by (simp add: zip_replicate)
  show ?thesis
    by (simp add: rtd_read_all_def ensure_open_def bench_card_def new_rtd_adapter_def read_float_block_def
        bench_blocks [simplified] with_diagnostics_def apply_validation_def ice_reading_def no_rtd_reading_def bench_bus_def
        defaults lists ice_channel)
qed

theorem valid_channel_confirmed_witness:
  "rtd_read_all bench_bus bench_card no_rtd_reading () = (Inr (), ice_reading, bench_card\<lparr>ra_open := True\<rparr>, ()) \<and>
   rd_valid ice_reading ! 3 \<and> is_finite (rd_temperature ice_reading ! 3)"
proof -
  have "3 < length (rd_valid ice_reading)" "rd_valid ice_reading ! 3" by (simp_all add: ice_reading_def)
  with valid_channel_confirmed [OF bench_reads_ice, of 3] bench_reads_ice show ?thesis by simp
qed

end
