(* ===== verification/TelemetryProperties.thy ===== *)
theory TelemetryProperties
  imports Telemetry RtdAdapter FallbackPersistence
begin

text \<open>
  The \<^verbatim>\<open>DATA\<close> frame as the ground station reads it: its columns, and the numbers in them.
\<close>

subsection \<open>Printed numbers\<close>

lemma length_pad [simp]: "length s \<le> n \<Longrightarrow> length (pad_digits n s) = n"
  by (simp add: pad_digits_def)

lemma pad_digits_digits: "\<forall>c \<in> set s. is_digit c \<Longrightarrow> \<forall>c \<in> set (pad_digits n s). is_digit c"
  by (auto simp: pad_digits_def is_digit_def char_code_def)

lemma digits_value_append: "digits_value (a @ b) = digits_value a * 10 ^ length b + digits_value b"
proof (induction b rule: rev_induct)
  case (snoc c b)
  then show ?case by (simp add: digits_value_snoc append_assoc [symmetric] del: append_assoc)
qed (simp add: digits_value_def)

lemma digits_value_zeros: "digits_value (replicate n (CHR ''0'')) = 0"
  by (induction n) (simp_all add: digits_value_def replicate_append_same [symmetric] digit_val_def char_code_def del: replicate_append_same)

lemma show_nat_at_most: "n < 10 ^ k \<Longrightarrow> 0 < k \<Longrightarrow> length (show_nat n) \<le> k"
proof (induction n arbitrary: k rule: show_nat.induct)
  case (1 n)
  show ?case
  proof (cases "n < 10")
    case True
    then show ?thesis using 1(3) by (subst show_nat.simps) simp
  next
    case False
    with 1(2) have "1 < k" by (cases k; cases "k = 1") auto
    then have "n div 10 < 10 ^ (k - 1)" using 1(2) by (simp add: div_less_iff_less_mult power_eq_if split: if_splits)
    with 1(1) [OF False, of "k - 1"] \<open>1 < k\<close> False show ?thesis by (subst show_nat.simps) simp
  qed
qed

lemma digits_value_pad: "digits_value (pad_digits n s) = digits_value s"
  by (simp add: pad_digits_def digits_value_append digits_value_zeros)

lemma takeWhile_digits_point: "\<forall>c \<in> set a. is_digit c \<Longrightarrow> takeWhile is_digit (a @ CHR ''.'' # b) = a"
  and dropWhile_digits_point: "\<forall>c \<in> set a. is_digit c \<Longrightarrow> dropWhile is_digit (a @ CHR ''.'' # b) = CHR ''.'' # b"
  by (induction a) (auto simp: is_digit_def char_code_def)

text \<open>The digits before and after the point.\<close>

lemma fixed_digits_2:
  obtains ip fp where "fixed_digits 2 m = ip @ CHR ''.'' # fp" "ip \<noteq> []" "length fp = 2"
    "\<forall>c \<in> set ip. is_digit c" "\<forall>c \<in> set fp. is_digit c" "digits_value (ip @ fp) = m"
proof
  let ?ip = "show_nat (m div 10 ^ 2)" and ?fp = "pad_digits 2 (show_nat (m mod 10 ^ 2))"
  show "fixed_digits 2 m = ?ip @ CHR ''.'' # ?fp" by (simp add: fixed_digits_def)
  show "?ip \<noteq> []" by simp
  have "length (show_nat (m mod 10 ^ 2)) \<le> 2" by (rule show_nat_at_most) simp_all
  then show l: "length ?fp = 2" by (rule length_pad)
  show "\<forall>c \<in> set ?ip. is_digit c" by (rule show_nat_digits)
  show "\<forall>c \<in> set ?fp. is_digit c" by (rule pad_digits_digits) (rule show_nat_digits)
  have "digits_value (?ip @ ?fp) = m div 10 ^ 2 * 10 ^ 2 + m mod 10 ^ 2"
    unfolding digits_value_append l digits_value_pad digits_value_show_nat ..
  then show "digits_value (?ip @ ?fp) = m" by simp
qed

lemma scan_fixed: "scan_number (fixed_digits 2 m) = Some (of_nat m / 100, length (fixed_digits 2 m))"
  and fixed_first: "is_digit (hd (fixed_digits 2 m))" "fixed_digits 2 m \<noteq> []"
proof -
  obtain ip fp where f: "fixed_digits 2 m = ip @ CHR ''.'' # fp" "ip \<noteq> []" "length fp = 2"
    "\<forall>c \<in> set ip. is_digit c" "\<forall>c \<in> set fp. is_digit c" "digits_value (ip @ fp) = m"
    by (rule fixed_digits_2)
  show "is_digit (hd (fixed_digits 2 m))" "fixed_digits 2 m \<noteq> []" using f by simp_all
  have hex: "\<not> begins_with ''0x'' (fixed_digits 2 m)"
  proof
    assume b: "begins_with ''0x'' (fixed_digits 2 m)"
    obtain c1 c2 r where c: "fixed_digits 2 m = c1 # c2 # r" "is_digit c2 \<or> c2 = CHR ''.''"
    proof (cases "tl ip")
      case Nil
      then show ?thesis using that [of "hd ip" "CHR ''.''" fp] f(1,2) by (cases ip) simp_all
    next
      case (Cons x xs)
      then have "ip = hd ip # x # xs" using f(2) by (cases ip) simp_all
      then show ?thesis using that [of "hd ip" x "xs @ CHR ''.'' # fp"] f(1,4) by (metis append_Cons list.set_intros(1,2))
    qed
    then have "lower_char c2 = CHR ''x''" using b by (simp add: begins_with_def)
    then show False using c(2) by (auto simp: lower_char_def is_digit_def char_code_def split: if_splits)
  qed
  have tw: "takeWhile is_digit fp = fp" using f(5) by (simp only: takeWhile_eq_all_conv)
  have val: "(10 :: rat) powi (- 2) = 1 / 100" by (simp add: power_int_def power_one_over power2_eq_square)
  have m: "scan_mantissa is_digit (fixed_digits 2 m) = Some (ip, fp, length ip + 1 + length fp)"
    using f(2) by (simp add: scan_mantissa_def f(1) takeWhile_digits_point [OF f(4)] dropWhile_digits_point [OF f(4)] tw)
  show "scan_number (fixed_digits 2 m) = Some (of_nat m / 100, length (fixed_digits 2 m))"
    using f(3,6) val by (simp add: scan_number_def hex m scan_exponent_def Let_def) (simp add: f(1) scan_exponent_def)
qed

lemma stod_sign:
  assumes "is_digit (hd t)" "t \<noteq> []" "scan_number t = Some (v, n)"
    and "to_dbl (if neg then - v else v) = d" "in_range (if neg then - v else v) d"
  shows "stod ((if neg then ''-'' else []) @ t) = Some (d, (if neg then 1 else 0) + n)"
proof -
  obtain c s where cs: "t = c # s" using assms(2) by (cases t) auto
  then have c: "is_digit c" using assms(1) by simp
  have low: "lower_char c = c" using c by (auto simp: lower_char_def is_digit_def char_code_def)
  have no_word: "\<not> begins_with (x # p) t" if "\<not> is_digit x" for x p
    using that begins_with_head [of x p t] c low by (auto simp: cs)
  have word: "\<not> is_digit CHR ''i''" "\<not> is_digit CHR ''n''" by (simp_all add: is_digit_def char_code_def)
  have sign: "c \<noteq> CHR ''-''" "c \<noteq> CHR ''+''" "\<not> is_space c" using digit_not_sign [OF c] digit_not_space [OF c] by auto
  have minus: "\<not> is_space CHR ''-''" by (simp add: is_space_def char_code_def)
  show ?thesis
    using no_word [OF word(1)] no_word [OF word(2)] sign minus assms(3-5)
    by (cases neg) (simp_all add: stod_def Let_def cs)
qed

text \<open>A printed value with two decimals is read back within half of the last one.\<close>

lemma stod_show_fixed:
  assumes "\<bar>q\<bar> \<le> 2000"
  shows "\<exists>x n. stod (show_fixed 2 (Fin q)) = Some (Fin x, n) \<and> \<bar>x - q\<bar> \<le> 1 / 200 + 1 / 2 ^ 42"
proof -
  define k where "k = round_half_even (\<bar>q\<bar> * 10 ^ 2)"
  define m where "m = nat k"
  define v where "v = (if q < 0 then - (of_nat m / 100) else of_nat m / 100 :: rat)"
  have e: "\<bar>of_int k - \<bar>q\<bar> * 10 ^ 2\<bar> \<le> 1 / 2" unfolding k_def by (rule round_half_even_error)
  have "0 \<le> k" using round_half_even_mono [of 0 "\<bar>q\<bar> * 10 ^ 2"] by (simp add: k_def round_half_even_def)
  then have mk: "of_nat m = (of_int k :: rat)" by (simp add: m_def)
  have near: "\<bar>v - q\<bar> \<le> 1 / 200"
    using e by (cases "q < 0") (auto simp: v_def mk abs_if field_simps split: if_splits)
  have "\<bar>v\<bar> \<le> \<bar>q\<bar> + \<bar>v - q\<bar>" using abs_triangle_ineq [of q "v - q"] by simp
  with assms near have "\<bar>v\<bar> \<le> 2 ^ 11" by simp
  then obtain x where x: "to_dbl v = Fin x" "\<bar>x - v\<bar> \<le> 1 / 2 ^ 42" using to_dbl_near by blast
  have range: "in_range v (Fin x)"
  proof (cases "m = 0")
    case True
    then have "v = 0" by (simp add: v_def)
    then show ?thesis using x(1) by (simp add: in_range_def)
  next
    case False
    then have v: "1 / 100 \<le> \<bar>v\<bar>" by (simp add: v_def)
    have small: "(2::rat) powi (- 1022) \<le> 1 / 1024"
      using power_int_increasing [of "- 1022" "- 10" "2::rat"] by (simp add: power_int_def power_one_over)
    have far: "b < \<bar>x\<bar>" if "b + e < a" "a \<le> \<bar>v\<bar>" "\<bar>x - v\<bar> \<le> e" for a b e :: rat
      using that abs_triangle_ineq2 [of v x] by (simp add: abs_minus_commute)
    have "1 / 1024 < \<bar>x\<bar>" by (rule far [OF _ v x(2)]) simp
    with small have "(2::rat) powi (- 1022) < \<bar>x\<bar>" by (rule order.strict_trans1)
    then show ?thesis by (simp add: in_range_def)
  qed
  have "stod ((if q < 0 then ''-'' else []) @ fixed_digits 2 m) =
      Some (Fin x, (if q < 0 then 1 else 0) + length (fixed_digits 2 m))"
    using x(1) range by (intro stod_sign [OF fixed_first scan_fixed]) (simp_all add: v_def split: if_splits)
  then have "stod (show_fixed 2 (Fin q)) = Some (Fin x, (if q < 0 then 1 else 0) + length (fixed_digits 2 m))"
    by (simp add: m_def k_def)
  moreover have "\<bar>x - q\<bar> \<le> 1 / 200 + 1 / 2 ^ 42"
    using abs_triangle_ineq4 [of "x - v" "q - v"] x(2) near by (simp add: abs_minus_commute)
  ultimately show ?thesis by blast
qed

subsection \<open>The columns\<close>

text \<open>Text without the separator of the columns.\<close>

definition one_field :: "string \<Rightarrow> bool" where
  "one_field s \<longleftrightarrow> CHR '','' \<notin> set s"

lemma one_field_simps [simp]:
  "one_field []" "one_field (c # s) \<longleftrightarrow> c \<noteq> CHR '','' \<and> one_field s" "one_field (a @ b) \<longleftrightarrow> one_field a \<and> one_field b"
  by (auto simp: one_field_def)

lemma one_field_concat: "(\<And>x. x \<in> set xs \<Longrightarrow> one_field x) \<Longrightarrow> one_field (concat xs)"
  by (auto simp: one_field_def)

lemma one_field_join: "c \<noteq> CHR '','' \<Longrightarrow> (\<And>x. x \<in> set xs \<Longrightarrow> one_field x) \<Longrightarrow> one_field (join_with c xs)"
  by (induction c xs rule: join_with.induct) auto

lemma one_field_nat [simp]: "one_field (show_nat n)"
  using show_nat_digits [of n] by (auto simp: one_field_def is_digit_def char_code_def)

lemma one_field_int [simp]: "one_field (show_int n)"
  by (simp add: show_int_def)

lemma one_field_fixed [simp]: "one_field (show_fixed p x)"
proof (cases x)
  case (Fin q)
  have "one_field (pad_digits p s)" if "one_field s" for s
    using that by (auto simp: pad_digits_def one_field_def)
  then show ?thesis by (simp add: Fin fixed_digits_def)
qed simp_all

lemma one_field_flag [simp]: "one_field (flag b)" "one_field (thermal_text t)" "one_field (resistance_text rs i)"
  by (simp_all add: flag_def thermal_text_def resistance_text_def)

lemma one_field_names [simp]:
  "one_field (component_state_to_string st)" "one_field (phase_to_string p)" "one_field (mode_to_string m)"
  using component_state.exhaust [of st "one_field (component_state_to_string st)"]
    mission_phase.exhaust [of p "one_field (phase_to_string p)"] system_mode.exhaust [of m "one_field (mode_to_string m)"]
  by auto

lemma one_field_status [simp]: "one_field (to_status_bitfield f)"
  unfolding to_status_bitfield_def by (rule one_field_join) (auto simp: either_text_def)

lemma one_field_or [simp]: "one_field s \<Longrightarrow> one_field d \<Longrightarrow> one_field (or_text s d)"
  by (simp add: or_text_def)

lemma split_single: "one_field a \<Longrightarrow> a \<noteq> [] \<Longrightarrow> split_fields (CHR '','') a = [a]"
proof -
  assume a: "one_field a" "a \<noteq> []"
  have "takeWhile (\<lambda>x. x \<noteq> CHR '','') a = a" "dropWhile (\<lambda>x. x \<noteq> CHR '','') a = []"
    using a(1) by (auto simp: takeWhile_eq_all_conv dropWhile_eq_Nil_conv one_field_def)
  with a(2) have "split_fields (CHR '','') a = a # split_fields (CHR '','') (tl [])"
    by (subst split_fields.simps) (simp only: if_False)
  then show ?thesis by (simp add: split_fields.simps [of _ "[]"])
qed

lemma split_columns:
  "\<forall>f \<in> set (f # fs). one_field f \<Longrightarrow> last (f # fs) \<noteq> [] \<Longrightarrow>
    split_fields (CHR '','') (f @ concat (map (\<lambda>g. '','' @ g) fs)) = f # fs"
proof (induction fs arbitrary: f)
  case Nil
  then show ?case by (simp add: split_single)
next
  case (Cons g fs)
  have "split_fields (CHR '','') (g @ concat (map (\<lambda>g. '','' @ g) fs)) = g # fs"
    using Cons.prems by (intro Cons.IH) (simp_all split: if_splits)
  moreover have "CHR '','' \<notin> set f" using Cons.prems by (simp add: one_field_def)
  ultimately show ?case using split_fields_cons [of "CHR '',''" f] by simp
qed

text \<open>The columns of a frame: seven, the values, and the named tokens.\<close>

definition frame_values :: "sensor_snapshot \<Rightarrow> dbl list" where
  "frame_values s = [sn_ambient_temp s, sn_pressure s, sn_uv s] @ sn_temps s"

definition frame_tokens :: "telemetry_record \<Rightarrow> string list" where
  "frame_tokens r =
     [''HEATER_DUTY='' @ join_with (CHR ''|'') (map (show_fixed 3) (tr_heater_duty r)), tl (resistance_segment (tr_sensors r)),
      ''PHASE='' @ phase_to_string (tr_phase r), ''MODE='' @ mode_to_string (tr_mode r),
      ''STATUS='' @ to_status_bitfield (tr_status r), tl (valid_segment (tr_sensors r)), tl (age_segment (tr_sensors r)),
      tl (component_segment r), tl (ctrl_segment r)] @
     map (\<lambda>i. tl (stepper_segment (tr_steppers r ! i) i)) [0..<length (tr_steppers r)]"

definition frame_columns :: "telemetry_record \<Rightarrow> string \<Rightarrow> string list" where
  "frame_columns r session =
     [''DATA'', session, show_nat (unat (tr_seq r)), sn_timestamp (tr_sensors r), flag (sn_rtc_valid (tr_sensors r))] @
     map (show_fixed 2) (frame_values (tr_sensors r)) @ frame_tokens r"

lemma segment_heads:
  "resistance_segment s = '','' @ tl (resistance_segment s)" "valid_segment s = '','' @ tl (valid_segment s)"
  "age_segment s = '','' @ tl (age_segment s)" "component_segment r = '','' @ tl (component_segment r)"
  "ctrl_segment r = '','' @ tl (ctrl_segment r)" "stepper_segment m i = '','' @ tl (stepper_segment m i)"
  by (simp_all add: resistance_segment_def valid_segment_def age_segment_def component_segment_def ctrl_segment_def
      stepper_segment_def Let_def)

lemma frame_is_columns:
  "serialize_data_frame r session =
     hd (frame_columns r session) @ concat (map (\<lambda>g. '','' @ g) (tl (frame_columns r session)))"
proof -
  have steppers: "concat (map (\<lambda>i. stepper_segment (tr_steppers r ! i) i) [0..<length (tr_steppers r)]) =
      concat (map (\<lambda>g. '','' @ g) (map (\<lambda>i. tl (stepper_segment (tr_steppers r ! i) i)) [0..<length (tr_steppers r)]))"
    by (subst segment_heads(6)) (simp add: comp_def)
  show ?thesis
    unfolding serialize_data_frame_def frame_columns_def frame_tokens_def frame_values_def Let_def steppers
    by (subst segment_heads(1), subst segment_heads(2), subst segment_heads(3), subst segment_heads(4), subst segment_heads(5))
      (simp add: comp_def)
qed

definition frame_texts_clean :: "telemetry_record \<Rightarrow> string \<Rightarrow> bool" where
  "frame_texts_clean r session \<longleftrightarrow>
     one_field session \<and> one_field (sn_timestamp (tr_sensors r)) \<and> one_field (tr_plan r) \<and> one_field (tr_tune r) \<and>
     list_all (\<lambda>m. one_field (st_last_source (mr_status m)) \<and> one_field (mr_seq_name m) \<and> one_field (mr_seq_state m)) (tr_steppers r)"

lemma tokens_one_field:
  assumes "frame_texts_clean r session" "t \<in> set (frame_tokens r)"
  shows "one_field t \<and> t \<noteq> []"
proof -
  have 1: "one_field (tl (resistance_segment s))" "one_field (tl (valid_segment s))" "one_field (tl (age_segment s))"
    "one_field (tl (component_segment r))" for s
    by (auto simp: resistance_segment_def valid_segment_def age_segment_def component_segment_def either_text_def
        intro!: one_field_join one_field_concat)
  have 2: "one_field (tl (ctrl_segment r))" using assms(1) by (simp add: ctrl_segment_def frame_texts_clean_def)
  have 3: "one_field (tl (stepper_segment (tr_steppers r ! i) i))" if "i < length (tr_steppers r)" for i
    using assms(1) that by (simp add: stepper_segment_def frame_texts_clean_def list_all_length Let_def)
  have 4: "one_field (join_with (CHR ''|'') (map (show_fixed 3) (tr_heater_duty r)))" by (rule one_field_join) auto
  have 5: "tl (resistance_segment s) \<noteq> []" "tl (valid_segment s) \<noteq> []" "tl (age_segment s) \<noteq> []"
    "tl (component_segment r) \<noteq> []" "tl (ctrl_segment r) \<noteq> []" "tl (stepper_segment m i) \<noteq> []" for s m i
    by (simp_all add: resistance_segment_def valid_segment_def age_segment_def component_segment_def ctrl_segment_def
        stepper_segment_def Let_def)
  show ?thesis using assms(2) by (auto simp: frame_tokens_def 1 2 3 4 5)
qed

lemma split_frame:
  assumes "frame_texts_clean r session"
  shows "split_fields (CHR '','') (serialize_data_frame r session) = frame_columns r session"
proof -
  have c: "frame_columns r session = ''DATA'' # tl (frame_columns r session)" by (simp add: frame_columns_def)
  have "\<forall>f \<in> set (frame_columns r session). one_field f"
    using assms tokens_one_field [OF assms] by (auto simp: frame_columns_def frame_texts_clean_def)
  moreover have "last (frame_columns r session) \<noteq> []"
  proof -
    have "frame_tokens r \<noteq> []" by (simp add: frame_tokens_def)
    then have "last (frame_columns r session) = last (frame_tokens r)" "last (frame_tokens r) \<in> set (frame_tokens r)"
      by (simp_all add: frame_columns_def)
    with tokens_one_field [OF assms] show ?thesis by simp
  qed
  ultimately show ?thesis
    using split_columns [of "''DATA''" "tl (frame_columns r session)"] c unfolding frame_is_columns by (metis list.sel(1))
qed

definition token_name :: "string \<Rightarrow> string" where
  "token_name t = takeWhile (\<lambda>c. c \<noteq> CHR ''='') t"

text \<open>C38. What the ground station finds in a frame.  When no name in the record holds a comma, a \<^verbatim>\<open>DATA\<close> frame split at its commas has the
  session, the number, the time and the clock flag in its first columns, then a value per column, then the tokens
  in their order, one more for each motor; and every value of at most 2000 in magnitude is read back within half of
  its second decimal.\<close>

theorem data_frame_read_back:
  assumes "frame_texts_clean r session"
  defines "fs \<equiv> split_fields (CHR '','') (serialize_data_frame r session)" and "vs \<equiv> frame_values (tr_sensors r)"
  shows "take 5 fs = [''DATA'', session, show_nat (unat (tr_seq r)), sn_timestamp (tr_sensors r), flag (sn_rtc_valid (tr_sensors r))] \<and>
    map token_name (take 9 (drop (5 + length vs) fs)) =
      [''HEATER_DUTY'', ''RESISTANCE'', ''PHASE'', ''MODE'', ''STATUS'', ''SENSOR_VALID'', ''SENSOR_AGE_MS'',
       ''COMPONENT_STATE'', ''CTRL''] \<and>
    length fs = 14 + length vs + length (tr_steppers r) \<and>
    (\<forall>i q. i < length vs \<and> vs ! i = Fin q \<and> \<bar>q\<bar> \<le> 2000 \<longrightarrow>
       (\<exists>x n. stod (fs ! (5 + i)) = Some (Fin x, n) \<and> \<bar>x - q\<bar> \<le> 1 / 200 + 1 / 2 ^ 42))"
proof -
  have fs: "fs = frame_columns r session" unfolding fs_def by (rule split_frame [OF assms(1)])
  have names: "map token_name (take 9 (frame_tokens r)) =
      [''HEATER_DUTY'', ''RESISTANCE'', ''PHASE'', ''MODE'', ''STATUS'', ''SENSOR_VALID'', ''SENSOR_AGE_MS'',
       ''COMPONENT_STATE'', ''CTRL'']"
    by (simp add: frame_tokens_def token_name_def resistance_segment_def valid_segment_def age_segment_def
        component_segment_def ctrl_segment_def)
  have "fs ! (5 + i) = show_fixed 2 (vs ! i)" if "i < length vs" for i
    using that by (simp add: fs frame_columns_def vs_def nth_append)
  then have read: "\<exists>x n. stod (fs ! (5 + i)) = Some (Fin x, n) \<and> \<bar>x - q\<bar> \<le> 1 / 200 + 1 / 2 ^ 42"
    if "i < length vs" "vs ! i = Fin q" "\<bar>q\<bar> \<le> 2000" for i q
    using stod_show_fixed [OF that(3)] that by simp
  define pre where "pre = [''DATA'', session, show_nat (unat (tr_seq r)), sn_timestamp (tr_sensors r), flag (sn_rtc_valid (tr_sensors r))]"
  have cols: "fs = (pre @ map (show_fixed 2) vs) @ frame_tokens r" by (simp add: fs frame_columns_def pre_def vs_def)
  have len: "length pre = 5" by (simp add: pre_def)
  have "length (frame_tokens r) = 9 + length (tr_steppers r)" by (simp add: frame_tokens_def)
  then have "take 5 fs = pre" "drop (5 + length vs) fs = frame_tokens r" "length fs = 14 + length vs + length (tr_steppers r)"
    by (simp_all add: cols len)
  with names read show ?thesis by (simp add: pre_def)
qed

text \<open>A record with the temperatures of the ice bench.\<close>

definition all_flags :: status_flags where
  "all_flags =
     \<lparr>sf_sd_ok = True, sf_usb_ok = True, sf_i2c_ok = True, sf_spi_ok = True, sf_link_ok = True, sf_t_ambient_ok = True,
      sf_p_ambient_ok = True, sf_uniformity_ok = True, sf_overtemp_ok = True, sf_energy_ok = True, sf_pwm_ok = True,
      sf_stepper_ok = True, sf_sample_temp_ok = True, sf_simulated = False, sf_sequence_paused = False,
      sf_heater_inhibited = False, sf_resistance_ok = True\<rparr>"

definition bench_record :: telemetry_record where
  "bench_record =
     \<lparr>tr_seq = 7, tr_phase = Float, tr_mode = Run,
      tr_sensors = snapshot_default\<lparr>sn_timestamp := ''2026-10-05T12:00:00Z'', sn_pressure := Fin (1013 + 1 / 4), sn_temps := [Fin (- 1 / 8)]\<rparr>,
      tr_heater_duty = [Fin (1 / 2)], tr_status = all_flags, tr_pwm_state = StateOk, tr_fallback = False,
      tr_link_loss_s = Fin 0, tr_energy_wh = Fin 0, tr_budget_wh = Fin 0, tr_budget_exhausted = False, tr_heaters_active = 1,
      tr_queue_depth = 0, tr_plan = ''none'', tr_tune = ''-'', tr_debug_armed = False, tr_steppers = []\<rparr>"

theorem data_frame_read_back_witness:
  "split_fields (CHR '','') (serialize_data_frame bench_record ''s1'') ! 1 = ''s1'' \<and>
   (\<exists>x n. stod (split_fields (CHR '','') (serialize_data_frame bench_record ''s1'') ! 8) = Some (Fin x, n) \<and>
      \<bar>x + 1 / 8\<bar> \<le> 1 / 200 + 1 / 2 ^ 42)"
proof -
  have clean: "frame_texts_clean bench_record ''s1''"
    by (simp add: frame_texts_clean_def bench_record_def snapshot_default_def)
  have vs: "frame_values (tr_sensors bench_record) = [Fin 0, Fin (1013 + 1 / 4), Fin 0, Fin (- 1 / 8)]"
    by (simp add: frame_values_def bench_record_def snapshot_default_def)
  let ?fs = "split_fields (CHR '','') (serialize_data_frame bench_record ''s1'')"
  have p: "take 5 ?fs ! 1 = ''s1''" "length ?fs = 18"
    "\<forall>i q. i < 4 \<and> [Fin 0, Fin (1013 + 1 / 4), Fin 0, Fin (- 1 / 8)] ! i = Fin q \<and> \<bar>q\<bar> \<le> 2000 \<longrightarrow>
       (\<exists>x n. stod (?fs ! (5 + i)) = Some (Fin x, n) \<and> \<bar>x - q\<bar> \<le> 1 / 200 + 1 / 2 ^ 42)"
    using data_frame_read_back [OF clean] by (simp_all add: vs) (simp add: bench_record_def)
  have "\<exists>x n. stod (?fs ! (5 + 3)) = Some (Fin x, n) \<and> \<bar>x - (- 1 / 8)\<bar> \<le> 1 / 200 + 1 / 2 ^ 42"
    using p(3) [rule_format, of 3 "- 1 / 8"] by simp
  with p(1,2) show ?thesis by simp
qed

end
