(* ===== verification/Max31865.thy ===== *)
theory Max31865
  imports Doubles Text
begin

unbundle bit_operations_syntax

text \<open>
  The MAX31865 resistance measurement (\<^verbatim>\<open>hal/max31865_adapter.cpp\<close>): presence check, one-shot conversion with the
  bias of the specimen switched on for it, and the saturation and fault handling.  The SPI bus is the record
  \<open>click_bus\<close> over a state \<open>'w\<close> of the outside world; the waits between the transfers change nothing of it that the
  transfers after them do not show.
\<close>

record 'w click_bus =
  click_open :: "string \<Rightarrow> nat \<Rightarrow> nat \<Rightarrow> bool \<Rightarrow> 'w \<Rightarrow> bool \<times> 'w"
  click_transfer :: "8 word list \<Rightarrow> 'w \<Rightarrow> 8 word list option \<times> 'w"
  click_available :: bool

record click_options =
  co_device :: string
  co_reference_ohm :: dbl
  co_speed_hz :: nat

record click_reading =
  cr_ohm :: dbl
  cr_valid :: bool
  cr_out_of_range :: bool
  cr_fault :: "8 word"

record click_adapter =
  ca_options :: click_options
  ca_open :: bool

definition no_click_reading :: click_reading where
  "no_click_reading = \<lparr>cr_ohm = Fin 0, cr_valid = False, cr_out_of_range = False, cr_fault = 0\<rparr>"

definition new_click_adapter :: "click_options \<Rightarrow> click_adapter" where
  "new_click_adapter opts = \<lparr>ca_options = opts, ca_open = False\<rparr>"

definition cfg_bias_on :: "8 word" where "cfg_bias_on = 0x81"
definition cfg_bias_on_1shot :: "8 word" where "cfg_bias_on_1shot = 0xA1"
definition cfg_bias_off :: "8 word" where "cfg_bias_off = 0x01"
definition cfg_fault_clear :: "8 word" where "cfg_fault_clear = 0x03"
definition cfg_probe :: "8 word" where "cfg_probe = 0x01"
definition near_full_scale :: nat where "near_full_scale = 32760"

definition click_ensure_open :: "'w click_bus \<Rightarrow> click_adapter \<Rightarrow> 'w \<Rightarrow> bool \<times> click_adapter \<times> 'w" where
  "click_ensure_open b a w =
     (if ca_open a then (True, a, w)
      else
        (let c = ca_options a; (ok, w) = click_open b (co_device c) 1 (co_speed_hz c) False w
         in (ok, if ok then a\<lparr>ca_open := True\<rparr> else a, w)))"

definition write_config :: "'w click_bus \<Rightarrow> 8 word \<Rightarrow> 'w \<Rightarrow> bool \<times> 'w" where
  "write_config b v w = (let (rx, w) = click_transfer b [0x80, v] w in (rx \<noteq> None, w))"

definition reply_byte :: "8 word list \<Rightarrow> nat \<Rightarrow> 8 word" where
  "reply_byte rx i = (if i < length rx then rx ! i else 0)"

definition click_register :: "'w click_bus \<Rightarrow> 8 word \<Rightarrow> 'w \<Rightarrow> 8 word option \<times> 'w" where
  "click_register b addr w =
     (let (rx, w) = click_transfer b [addr AND 0x7F, 0] w in (map_option (\<lambda>rx. reply_byte rx 1) rx, w))"

definition read_rtd_code :: "'w click_bus \<Rightarrow> 'w \<Rightarrow> (8 word \<times> 8 word) option \<times> 'w" where
  "read_rtd_code b w =
     (let (rx, w) = click_transfer b [0x01, 0, 0] w in (map_option (\<lambda>rx. (reply_byte rx 1, reply_byte rx 2)) rx, w))"

definition code_to_ohms :: "nat \<Rightarrow> dbl \<Rightarrow> dbl" where
  "code_to_ohms code ref = dbl_of_int (int code) * ref / Fin 32768"

definition verify_presence :: "'w click_bus \<Rightarrow> click_adapter \<Rightarrow> 'w \<Rightarrow> string option \<times> click_adapter \<times> 'w" where
  "verify_presence b a w =
     (case write_config b cfg_probe w of
        (False, w) \<Rightarrow> (Some ''CONFIG_WRITE_FAILED'', a\<lparr>ca_open := False\<rparr>, w)
      | (True, w) \<Rightarrow>
          (case click_register b 0 w of
             (None, w) \<Rightarrow> (Some ''CONFIG_READ_FAILED'', a\<lparr>ca_open := False\<rparr>, w)
           | (Some v, w) \<Rightarrow> (if v AND NOT 0x20 \<noteq> cfg_probe then Some ''CLICK_NOT_DETECTED'' else None, a, w)))"

definition click_probe :: "'w click_bus \<Rightarrow> click_adapter \<Rightarrow> 'w \<Rightarrow> string option \<times> click_adapter \<times> 'w" where
  "click_probe b a w =
     (case click_ensure_open b a w of
        (False, a, w) \<Rightarrow> (Some ''BUS_OPEN_FAILED'', a, w)
      | (True, a, w) \<Rightarrow> verify_presence b a w)"

text \<open>The reading of a conversion that went through, with the fault register of a saturated one.\<close>

definition click_result :: "'w click_bus \<Rightarrow> click_options \<Rightarrow> 8 word \<Rightarrow> 8 word \<Rightarrow> 'w \<Rightarrow> click_reading \<times> 'w" where
  "click_result b opts msb lsb w =
     (let raw = unat msb * 256 + unat lsb; code = raw div 2;
          r = no_click_reading\<lparr>cr_ohm := code_to_ohms code (co_reference_ohm opts)\<rparr>
      in if lsb AND 1 \<noteq> 0 \<or> near_full_scale \<le> code
         then
           (let (fault, w) = click_register b 0x07 w;
                r = r\<lparr>cr_out_of_range := True, cr_fault := (case fault of None \<Rightarrow> 0 | Some f \<Rightarrow> f)\<rparr>;
                (_, w) = write_config b cfg_fault_clear w
            in (r, w))
         else (r\<lparr>cr_valid := True\<rparr>, w))"

text \<open>The conversion.  When it is cut short with the bias on, the bias is switched off as well as the bus allows.\<close>

definition convert :: "'w click_bus \<Rightarrow> click_adapter \<Rightarrow> 'w \<Rightarrow> string option \<times> click_reading \<times> click_adapter \<times> 'w" where
  "convert b a w =
     (let closed = a\<lparr>ca_open := False\<rparr> in
      case write_config b cfg_bias_on w of
        (False, w) \<Rightarrow> (Some ''BIAS_ON_WRITE_FAILED'', no_click_reading, closed, w)
      | (True, w) \<Rightarrow>
          (case write_config b cfg_bias_on_1shot w of
             (False, w) \<Rightarrow>
               (Some ''ONE_SHOT_WRITE_FAILED'', no_click_reading, closed, snd (write_config b cfg_bias_off w))
           | (True, w) \<Rightarrow>
               (case read_rtd_code b w of
                  (None, w) \<Rightarrow> (Some ''RTD_READ_FAILED'', no_click_reading, closed, snd (write_config b cfg_bias_off w))
                | (Some (msb, lsb), w) \<Rightarrow>
                    (case write_config b cfg_bias_off w of
                       (False, w) \<Rightarrow> (Some ''BIAS_OFF_WRITE_FAILED'', no_click_reading, closed, w)
                     | (True, w) \<Rightarrow> (let (r, w) = click_result b (ca_options a) msb lsb w in (None, r, a, w))))))"

definition read_one_shot :: "'w click_bus \<Rightarrow> click_adapter \<Rightarrow> 'w \<Rightarrow> string option \<times> click_reading \<times> click_adapter \<times> 'w" where
  "read_one_shot b a w =
     (case click_ensure_open b a w of
        (False, a, w) \<Rightarrow> (Some ''BUS_OPEN_FAILED'', no_click_reading, a, w)
      | (True, a, w) \<Rightarrow>
          (case verify_presence b a w of
             (Some e, a, w) \<Rightarrow> (Some e, no_click_reading, a, w)
           | (None, a, w) \<Rightarrow> convert b a w))"

subsection \<open>The bias of the specimen\<close>

text \<open>What the adapter relies on, stated for the VBIAS bit of the chip: only a write of the configuration changes it, to the
  bit that was written when the transfer succeeds and possibly not at all when it fails, and a reset clears it.\<close>

definition bias_sent :: "('w \<Rightarrow> bool) \<Rightarrow> 8 word list \<Rightarrow> 8 word list option \<Rightarrow> 'w \<Rightarrow> 'w \<Rightarrow> bool" where
  "bias_sent vbias tx rx w w' \<longleftrightarrow>
     (case tx of
        [c, v] \<Rightarrow>
          if c = 0x80 then vbias w' \<longrightarrow> (if rx = None then bit v 7 \<or> vbias w else bit v 7) else vbias w' \<longrightarrow> vbias w
      | _ \<Rightarrow> vbias w' \<longrightarrow> vbias w)"

definition chip_bias :: "'w click_bus \<Rightarrow> ('w \<Rightarrow> bool) \<Rightarrow> bool" where
  "chip_bias b vbias \<longleftrightarrow>
     (\<forall>dev m hz cs w ok w'. click_open b dev m hz cs w = (ok, w') \<longrightarrow> vbias w' \<longrightarrow> vbias w) \<and>
     (\<forall>tx w rx w'. click_transfer b tx w = (rx, w') \<longrightarrow> bias_sent vbias tx rx w w')"

lemma bias_open: "chip_bias b vbias \<Longrightarrow> click_open b dev m hz cs w = (ok, w') \<Longrightarrow> vbias w' \<Longrightarrow> vbias w"
  unfolding chip_bias_def by blast

lemma bias_transfer: "chip_bias b vbias \<Longrightarrow> click_transfer b tx w = (rx, w') \<Longrightarrow> bias_sent vbias tx rx w w'"
  unfolding chip_bias_def by blast

lemma bias_write:
  assumes "chip_bias b vbias" "write_config b v w = (ok, w')"
  shows "vbias w' \<Longrightarrow> bit v 7 \<or> \<not> ok \<and> vbias w"
  using assms(2) bias_transfer [OF assms(1)]
  by (fastforce simp: write_config_def bias_sent_def split: prod.splits if_splits)

lemma bias_register:
  assumes "chip_bias b vbias" "click_register b addr w = (r, w')"
  shows "vbias w' \<Longrightarrow> vbias w"
proof -
  obtain rx where t: "click_transfer b [addr AND 0x7F, 0] w = (rx, w')"
    using assms(2) by (auto simp: click_register_def split: prod.splits)
  have "addr AND 0x7F \<noteq> 0x80"
  proof
    assume "addr AND 0x7F = 0x80"
    then have "(addr AND 0x7F) AND 0x80 = 0x80 AND 0x80" by simp
    then show False by (simp add: and.assoc)
  qed
  then show "vbias w' \<Longrightarrow> vbias w" using bias_transfer [OF assms(1) t] by (simp add: bias_sent_def)
qed

lemma bias_code:
  "chip_bias b vbias \<Longrightarrow> read_rtd_code b w = (r, w') \<Longrightarrow> vbias w' \<Longrightarrow> vbias w"
  by (auto simp: read_rtd_code_def bias_sent_def split: prod.splits dest!: bias_transfer)

lemma bias_off_bits: "\<not> bit cfg_bias_off 7" "\<not> bit cfg_fault_clear 7" "\<not> bit cfg_probe 7"
  by (simp_all add: cfg_bias_off_def cfg_fault_clear_def cfg_probe_def)

lemma presence_bias:
  assumes "chip_bias b vbias" "verify_presence b a w = (e, a', w')" "vbias w'"
  shows "vbias w \<and> e = Some ''CONFIG_WRITE_FAILED''"
proof -
  obtain ok w1 where 1: "write_config b cfg_probe w = (ok, w1)" by fastforce
  obtain v w2 where 2: "click_register b 0 w1 = (v, w2)" by fastforce
  show ?thesis
    using assms(2,3) bias_write [OF assms(1) 1] bias_register [OF assms(1) 2] bias_off_bits
    by (cases ok) (auto simp: verify_presence_def 1 2 split: if_splits option.splits)
qed

lemma result_bias:
  assumes "chip_bias b vbias" "click_result b opts msb lsb w = (r, w')" "vbias w'"
  shows "vbias w"
proof -
  obtain f w1 where 1: "click_register b 0x07 w = (f, w1)" by fastforce
  obtain k w2 where 2: "write_config b cfg_fault_clear w1 = (k, w2)" by fastforce
  show ?thesis
    using assms(2,3) bias_register [OF assms(1) 1] bias_write [OF assms(1) 2] bias_off_bits
    by (auto simp: click_result_def 1 2 Let_def split: if_splits)
qed

lemma convert_bias:
  assumes "chip_bias b vbias" "convert b a w = (None, r, a', w')"
  shows "\<not> vbias w'"
proof -
  obtain k1 w1 where 1: "write_config b cfg_bias_on w = (k1, w1)" by fastforce
  obtain k2 w2 where 2: "write_config b cfg_bias_on_1shot w1 = (k2, w2)" by fastforce
  obtain c w3 where 3: "read_rtd_code b w2 = (c, w3)" by fastforce
  obtain k4 w4 where 4: "write_config b cfg_bias_off w3 = (k4, w4)" by fastforce
  obtain msb lsb where k: "k1" "k2" "k4" "c = Some (msb, lsb)"
    using assms(2) by (auto simp: convert_def 1 2 3 4 Let_def split: bool.splits option.splits)
  obtain r0 w5 where 5: "click_result b (ca_options a) msb lsb w4 = (r0, w5)" by fastforce
  have "\<not> vbias w4" using bias_write [OF assms(1) 4] k bias_off_bits by blast
  moreover have "w' = w5" using assms(2) k by (simp add: convert_def 1 2 3 4 5)
  ultimately show ?thesis using result_bias [OF assms(1) 5] by blast
qed

lemma convert_error:
  "convert b a w = (e, r, a', w') \<Longrightarrow>
     e \<in> {None, Some ''BIAS_ON_WRITE_FAILED'', Some ''ONE_SHOT_WRITE_FAILED'', Some ''RTD_READ_FAILED'',
       Some ''BIAS_OFF_WRITE_FAILED''}"
  by (auto simp: convert_def Let_def split: bool.splits option.splits prod.splits)

lemma presence_error:
  "verify_presence b a w = (e, a', w') \<Longrightarrow>
     e \<in> {None, Some ''CONFIG_WRITE_FAILED'', Some ''CONFIG_READ_FAILED'', Some ''CLICK_NOT_DETECTED''}"
  by (auto simp: verify_presence_def split: bool.splits option.splits prod.splits if_splits)

lemma click_open_bias:
  "chip_bias b vbias \<Longrightarrow> click_ensure_open b a w = (ok, a', w') \<Longrightarrow> vbias w' \<Longrightarrow> vbias w"
  by (auto simp: click_ensure_open_def Let_def split: if_splits prod.splits dest: bias_open)

text \<open>C37. The specimen is energised only during a conversion.  A conversation with a click that succeeds leaves the bias
  off, whatever it was before; one that ends before the conversion does not switch it on.  So only a conversion that
  a failed transfer cut short can leave the specimen energised.\<close>

theorem one_shot_ends_without_bias:
  assumes "chip_bias b vbias" and "read_one_shot b a w = (e, r, a', w')"
  shows "(e = None \<longrightarrow> \<not> vbias w') \<and>
    (e \<in> {Some ''BUS_OPEN_FAILED'', Some ''CONFIG_WRITE_FAILED'', Some ''CONFIG_READ_FAILED'', Some ''CLICK_NOT_DETECTED''} \<longrightarrow>
       vbias w' \<longrightarrow> vbias w)"
proof -
  obtain k a1 w1 where 1: "click_ensure_open b a w = (k, a1, w1)" by (metis prod.exhaust)
  have o: "vbias w1 \<Longrightarrow> vbias w" by (rule click_open_bias [OF assms(1) 1])
  show ?thesis
  proof (cases k)
    case True
    obtain e2 a2 w2 where 2: "verify_presence b a1 w1 = (e2, a2, w2)" by (metis prod.exhaust)
    have p: "vbias w2 \<Longrightarrow> vbias w1" using presence_bias [OF assms(1) 2] by blast
    show ?thesis
    proof (cases e2)
      case None
      then have c: "convert b a2 w2 = (e, r, a', w')" using assms(2) 1 2 True by (simp add: read_one_shot_def)
      then show ?thesis using convert_bias [OF assms(1)] convert_error [OF c] by auto
    next
      case (Some x)
      then have "e = Some x" "w' = w2" using assms(2) 1 2 True by (simp_all add: read_one_shot_def)
      with p o show ?thesis by blast
    qed
  next
    case False
    then have "e = Some ''BUS_OPEN_FAILED''" "w' = w1" using assms(2) 1 by (simp_all add: read_one_shot_def)
    with o show ?thesis by simp
  qed
qed

text \<open>A simulated click: the configuration register, and a measured code.\<close>

definition bench_click :: "8 word \<Rightarrow> 8 word \<Rightarrow> (8 word) click_bus" where
  "bench_click msb lsb =
     \<lparr>click_open = (\<lambda>dev m hz cs w. (True, w)),
      click_transfer = (\<lambda>tx w.
        case tx of
          [c, v] \<Rightarrow> if c = 0x80 then (Some [0, 0], v) else (Some [0, if c = 0 then w else 0], w)
        | _ \<Rightarrow> (Some [0, msb, lsb], w)),
      click_available = True\<rparr>"

definition click_defaults :: click_options where
  "click_defaults = \<lparr>co_device = ''/dev/spidev0.1'', co_reference_ohm = Fin 470, co_speed_hz = 500000\<rparr>"

lemma bench_click_bias: "chip_bias (bench_click msb lsb) (\<lambda>w. bit w 7)"
  by (auto simp: chip_bias_def bench_click_def bias_sent_def split: list.splits if_splits)

theorem one_shot_ends_without_bias_witness:
  "\<exists>r a' w'. read_one_shot (bench_click 0x40 0) (new_click_adapter click_defaults) 0x81 = (None, r, a', w') \<and>
     cr_valid r \<and> \<not> bit w' 7"
proof -
  have e: "read_one_shot (bench_click 0x40 0) (new_click_adapter click_defaults) 0x81 =
      (None, no_click_reading\<lparr>cr_ohm := code_to_ohms 8192 (Fin 470), cr_valid := True\<rparr>,
       (new_click_adapter click_defaults)\<lparr>ca_open := True\<rparr>, 0x01)"
    by (simp add: read_one_shot_def click_ensure_open_def new_click_adapter_def click_defaults_def bench_click_def
        verify_presence_def write_config_def click_register_def reply_byte_def cfg_probe_def convert_def cfg_bias_on_def
        cfg_bias_on_1shot_def cfg_bias_off_def read_rtd_code_def click_result_def near_full_scale_def Let_def)
  from one_shot_ends_without_bias [OF bench_click_bias e] show ?thesis by (simp add: e)
qed

subsection \<open>An absent click\<close>

definition idle_line :: "'w click_bus \<Rightarrow> 8 word \<Rightarrow> bool" where
  "idle_line b x \<longleftrightarrow> (\<forall>tx w rx w'. click_transfer b tx w = (Some rx, w') \<longrightarrow> rx = replicate (length tx) x)"

text \<open>A click that is not there is detected.  SPI has no acknowledgement: with no chip behind it the data line reads its
  idle level in every bit.  On such a bus no conversation succeeds, no reading is valid, and the bias is never asked
  for, so a transfer that succeeds cannot pass for a measurement.\<close>

theorem absent_click_detected:
  assumes "idle_line b x" and "x = 0x00 \<or> x = 0xFF" and "read_one_shot b a w = (e, r, a', w')"
  shows "e \<in> {Some ''BUS_OPEN_FAILED'', Some ''CONFIG_WRITE_FAILED'', Some ''CONFIG_READ_FAILED'', Some ''CLICK_NOT_DETECTED''} \<and>
    r = no_click_reading \<and> \<not> cr_valid r"
proof -
  obtain k a1 w1 where 1: "click_ensure_open b a w = (k, a1, w1)" by (metis prod.exhaust)
  obtain e2 a2 w2 where 2: "verify_presence b a1 w1 = (e2, a2, w2)" by (metis prod.exhaust)
  have v: "v = x" if "click_register b 0 u = (Some v, u')" for v u u'
    using that assms(1) by (fastforce simp: click_register_def idle_line_def reply_byte_def split: prod.splits)
  have "x AND NOT 0x20 \<noteq> cfg_probe" using assms(2) by (auto simp: cfg_probe_def)
  then have "e2 \<noteq> None"
    using 2 v by (auto simp: verify_presence_def split: bool.splits option.splits prod.splits if_splits)
  then show ?thesis
    using assms(3) presence_error [OF 2] 1 2
    by (auto simp: read_one_shot_def no_click_reading_def split: bool.splits)
qed

theorem absent_click_detected_witness:
  "fst (read_one_shot \<lparr>click_open = (\<lambda>dev m hz cs w. (True, w)), click_transfer = (\<lambda>tx w. (Some (replicate (length tx) 0xFF), w)),
     click_available = True\<rparr> (new_click_adapter click_defaults) ()) = Some ''CLICK_NOT_DETECTED''"
proof -
  let ?b = "\<lparr>click_open = (\<lambda>dev m hz cs w. (True, w)), click_transfer = (\<lambda>tx w. (Some (replicate (length tx) 0xFF), w)),
     click_available = True\<rparr> :: unit click_bus"
  have i: "idle_line ?b 0xFF" by (simp add: idle_line_def)
  obtain e r a' w' where o: "read_one_shot ?b (new_click_adapter click_defaults) () = (e, r, a', w')" by (metis prod.exhaust)
  from absent_click_detected [OF i _ o] o show ?thesis
    by (auto simp: read_one_shot_def click_ensure_open_def new_click_adapter_def verify_presence_def write_config_def
        click_register_def reply_byte_def cfg_probe_def Let_def)
qed

end
