(* ===== verification/SensorManager.thy ===== *)
theory SensorManager
  imports Telemetry RtdAdapter Max31865 Tmc5160
begin

unbundle bit_operations_syntax

text \<open>
  The sensors (\<^verbatim>\<open>sensor_manager.cpp\<close>): the caches the pollers fill, the polls of the pressure sensor, the UV sensor, the
  RTD card and the two MAX31865 clicks, and the snapshot the control loop takes.  The four pollers and the control loop
  share the caches under one mutex; each step under it is one operation here.  Times are nanoseconds of the steady
  clock, a step reads the clock once.  The file descriptor of an I2C device is its address; closing it, the waits and the
  lines for the journal (with the state that only limits their rate) are left out.
\<close>

subsection \<open>Configuration\<close>

record sensor_hw_config =
  dps310_enabled :: bool
  ads1115_enabled :: bool
  dps310_auto_discover :: bool
  ads1115_auto_discover :: bool
  stale_after_ms :: int
  sequent_rtd_stack :: int
  sequent_rtd_channels :: "nat list"
  sequent_rtd_expect_sensor_type :: string
  sequent_rtd_resistance_min_ohm :: dbl
  sequent_rtd_resistance_max_ohm :: dbl
  sequent_rtd_crosscheck_tol_c :: dbl
  dps310_i2c_addr :: int
  ads1115_i2c_addr :: int
  uv_ads1115_channel :: int
  uv_full_scale_v :: dbl
  resistance_source :: string
  max31865_reference_ohm :: dbl
  max31865_sample_indices :: "nat list"

definition sensor_hw_default :: sensor_hw_config where
  "sensor_hw_default =
     \<lparr>dps310_enabled = True, ads1115_enabled = True, dps310_auto_discover = True, ads1115_auto_discover = True,
      stale_after_ms = 3000, sequent_rtd_stack = 0, sequent_rtd_channels = [],
      sequent_rtd_expect_sensor_type = ''pt100'', sequent_rtd_resistance_min_ohm = Fin 60,
      sequent_rtd_resistance_max_ohm = Fin 390, sequent_rtd_crosscheck_tol_c = Fin 2, dps310_i2c_addr = 0x77,
      ads1115_i2c_addr = 0x48, uv_ads1115_channel = 0, uv_full_scale_v = to_dbl (4096 / 1000),
      resistance_source = ''max31865_click'', max31865_reference_ohm = Fin 470,
      max31865_sample_indices = [0, 4]\<rparr>"

record sensor_range_config =
  ambient_temp_min_c :: dbl
  ambient_temp_max_c :: dbl
  ambient_pressure_min_mbar :: dbl
  ambient_pressure_max_mbar :: dbl

definition sensor_range_default :: sensor_range_config where
  "sensor_range_default =
     \<lparr>ambient_temp_min_c = Fin (- 90), ambient_temp_max_c = Fin 50, ambient_pressure_min_mbar = Fin 5,
      ambient_pressure_max_mbar = Fin 1050\<rparr>"

text \<open>What the manager reads of the whole configuration.\<close>

record sensor_config =
  sc_hw :: sensor_hw_config
  sc_range :: sensor_range_config
  sc_sample_count :: nat
  sc_heated :: "nat list"
  sc_floor_c :: dbl
  sc_simulated_sensors :: bool

definition make_sequent_options :: "sensor_hw_config \<Rightarrow> rtd_options" where
  "make_sequent_options c =
     \<lparr>ro_stack = sequent_rtd_stack c, ro_expect_pt1000 = (sequent_rtd_expect_sensor_type c = ''pt1000''),
      ro_min_ohm = sequent_rtd_resistance_min_ohm c, ro_max_ohm = sequent_rtd_resistance_max_ohm c,
      ro_tol_c = sequent_rtd_crosscheck_tol_c c,
      ro_channel_map =
        map (\<lambda>i. if i < length (sequent_rtd_channels c) then sequent_rtd_channels c ! i mod 256
                 else ro_channel_map rtd_default ! i) [0..<8]\<rparr>"

definition make_click_options :: "sensor_hw_config \<Rightarrow> string \<Rightarrow> click_options" where
  "make_click_options c device =
     \<lparr>co_device = device, co_reference_ohm = max31865_reference_ohm c, co_speed_hz = 500000\<rparr>"

subsection \<open>State\<close>

record scalar_cache =
  sv_value :: dbl
  sv_has :: bool
  sv_valid :: bool
  sv_time :: int

definition no_value :: scalar_cache where
  "no_value = \<lparr>sv_value = Fin 0, sv_has = False, sv_valid = False, sv_time = 0\<rparr>"

definition fresh_value :: "dbl \<Rightarrow> int \<Rightarrow> scalar_cache" where
  "fresh_value v now = \<lparr>sv_value = v, sv_has = True, sv_valid = True, sv_time = now\<rparr>"

definition invalidate :: "scalar_cache \<Rightarrow> scalar_cache" where
  "invalidate c = c\<lparr>sv_valid := False\<rparr>"

record click_state =
  ck_health :: component_health
  ck_last_ohm :: dbl
  ck_last_fault :: "8 word"
  ck_last_valid :: bool
  ck_has_reading :: bool
  ck_has_success :: bool
  ck_time :: int

record sensor_manager =
  sen_cfg :: sensor_config
  sen_temps :: "dbl list"
  sen_resistance :: "dbl list"
  sen_pressure :: dbl
  sen_descending :: bool
  sen_t_ambient_ok :: bool
  sen_p_ambient_ok :: bool
  sen_resistance_ok :: bool
  sen_i2c_ok :: bool
  sen_rtd_bus_ok :: bool
  sen_sample_temp_ok :: bool
  sen_uv_ok :: bool
  sen_clicks_bus_ok :: bool
  sen_running :: bool
  sen_ambient_cache :: scalar_cache
  sen_pressure_cache :: scalar_cache
  sen_uv_cache :: scalar_cache
  sen_samples :: "scalar_cache list"
  sen_dps_health :: component_health
  sen_ads_health :: component_health
  sen_rtd_health :: component_health
  sen_clicks :: "click_state list"
  sen_dps_address :: "int option"
  sen_ads_address :: "int option"
  sen_rtd :: rtd_adapter
  sen_rtd_identity :: rtd_identity
  sen_rtd_probed :: bool
  sen_rtd_reading :: "rtd_reading option"
  sen_click_adapters :: "click_adapter list"

text \<open>The buses: the I2C bus of the card, the two SPI buses of the clicks, and the I2C devices by address.\<close>

record 'w sensor_io =
  io_rtd :: "'w i2c_bus"
  io_click1 :: "'w click_bus"
  io_click2 :: "'w click_bus"
  dev_open :: "int \<Rightarrow> 'w \<Rightarrow> bool \<times> 'w"
  dev_write :: "int \<Rightarrow> 8 word list \<Rightarrow> 'w \<Rightarrow> bool \<times> 'w"
  dev_read :: "int \<Rightarrow> nat \<Rightarrow> 'w \<Rightarrow> 8 word list option \<times> 'w"

definition clicks_available :: "'w sensor_io \<Rightarrow> bool" where
  "clicks_available io \<longleftrightarrow> click_available (io_click1 io) \<and> click_available (io_click2 io)"

definition initial_health :: "bool \<Rightarrow> string \<Rightarrow> component_health" where
  "initial_health on err =
     health_default\<lparr>health_state := (if on then StateDiscovering else StateDisabled),
       health_error := (if on then health_error health_default else err)\<rparr>"

definition new_sensor_manager :: "'w sensor_io \<Rightarrow> sensor_config \<Rightarrow> sensor_manager" where
  "new_sensor_manager io c =
     (let hw = sc_hw c; n = sc_sample_count c;
          click = \<lparr>ck_health = initial_health (clicks_available io) ''SPI_UNAVAILABLE'', ck_last_ohm = Fin 0,
            ck_last_fault = 0, ck_last_valid = False, ck_has_reading = False, ck_has_success = False, ck_time = 0\<rparr> in
      \<lparr>sen_cfg = c, sen_temps = replicate n (sc_floor_c c),
       sen_resistance = replicate n (if resistance_source hw \<noteq> ''simulated'' then Fin 0 else Fin 100),
       sen_pressure = to_dbl (101325 / 100), sen_descending = True, sen_t_ambient_ok = True, sen_p_ambient_ok = True,
       sen_resistance_ok = True, sen_i2c_ok = False, sen_rtd_bus_ok = False, sen_sample_temp_ok = False,
       sen_uv_ok = False, sen_clicks_bus_ok = False, sen_running = False, sen_ambient_cache = no_value,
       sen_pressure_cache = no_value, sen_uv_cache = no_value, sen_samples = replicate n no_value,
       sen_dps_health = initial_health (dps310_enabled hw) ''NOT_POLLED'',
       sen_ads_health = initial_health (ads1115_enabled hw) ''NOT_POLLED'',
       sen_rtd_health = initial_health (i2c_available (io_rtd io)) ''I2C_UNAVAILABLE'', sen_clicks = [click, click],
       sen_dps_address = None, sen_ads_address = None, sen_rtd = new_rtd_adapter (make_sequent_options hw),
       sen_rtd_identity = no_identity, sen_rtd_probed = False, sen_rtd_reading = None,
       sen_click_adapters =
         [new_click_adapter (make_click_options hw ''/dev/spidev0.1''),
          new_click_adapter (make_click_options hw ''/dev/spidev0.0'')]\<rparr>)"

text \<open>Which of the four pollers start.\<close>

datatype poller = DpsPoller | AdsPoller | RtdPoller | ClickPoller

definition sensors_start :: "'w sensor_io \<Rightarrow> sensor_manager \<Rightarrow> poller list \<times> sensor_manager" where
  "sensors_start io m =
     (let hw = sc_hw (sen_cfg m) in
      if sc_simulated_sensors (sen_cfg m) \<or> sen_running m then ([], m)
      else ((if dps310_enabled hw then [DpsPoller] else []) @ (if ads1115_enabled hw then [AdsPoller] else []) @
            (if i2c_available (io_rtd io) then [RtdPoller] else []) @
            (if clicks_available io then [ClickPoller] else []),
            m\<lparr>sen_running := True\<rparr>))"

definition sensors_stop :: "sensor_manager \<Rightarrow> sensor_manager" where
  "sensors_stop m = m\<lparr>sen_running := False\<rparr>"

subsection \<open>Ages and states\<close>

text \<open>The cast to milliseconds truncates towards zero.\<close>

definition whole_ms :: "int \<Rightarrow> int" where
  "whole_ms d = (if 0 \<le> d then d div 1000000 else - (- d div 1000000))"

definition age_ms :: "int \<Rightarrow> int \<Rightarrow> bool \<Rightarrow> int" where
  "age_ms now t has = (if has then whole_ms (now - t) else - 1)"

definition cache_age :: "int \<Rightarrow> scalar_cache \<Rightarrow> int" where
  "cache_age now c = age_ms now (sv_time c) (sv_has c)"

definition failed_state :: "sensor_manager \<Rightarrow> int \<Rightarrow> bool \<Rightarrow> int \<Rightarrow> component_state" where
  "failed_state m now has t =
     (if \<not> has then StateFailed
      else if stale_after_ms (sc_hw (sen_cfg m)) \<le> age_ms now t True then StateStale else StateDegraded)"

text \<open>Fresh, as far as the age goes.\<close>

definition age_fresh :: "sensor_manager \<Rightarrow> int \<Rightarrow> bool" where
  "age_fresh m age \<longleftrightarrow> 0 \<le> age \<and> age < stale_after_ms (sc_hw (sen_cfg m))"

definition heated_channels_valid :: "sensor_config \<Rightarrow> bool list \<Rightarrow> bool" where
  "heated_channels_valid c valid \<longleftrightarrow>
     sc_heated c \<noteq> [] \<and> list_all (\<lambda>ch. ch < length valid \<and> valid ! ch) (sc_heated c)"

definition rtd_state_for_valid_count :: "nat \<Rightarrow> nat \<Rightarrow> component_state \<times> string" where
  "rtd_state_for_valid_count seen all =
     (if seen = 0 then (StateFailed, ''NO_VALID_CHANNELS'')
      else if seen < all then (StateDegraded, ''PARTIAL_CHANNELS'')
      else (StateOk, ''NONE''))"

text \<open>A finished pull wears the simulated material.\<close>

definition note_pull_completed :: "int \<Rightarrow> sensor_manager \<Rightarrow> sensor_manager" where
  "note_pull_completed motor m =
     (if resistance_source (sc_hw (sen_cfg m)) \<noteq> ''simulated'' \<or> motor \<noteq> 0 \<and> motor \<noteq> 1 then m
      else
        (let start = (if motor = 0 then 0 else 4); stop = (if motor = 0 then 4 else length (sen_resistance m)) in
         m\<lparr>sen_resistance :=
             map (\<lambda>i. if start \<le> i \<and> i < stop then sen_resistance m ! i * (Fin 1 - to_dbl (5 / 100)) else sen_resistance m ! i)
               [0..<length (sen_resistance m)]\<rparr>))"

subsection \<open>The pressure sensor\<close>

definition dev_registers :: "'w sensor_io \<Rightarrow> int \<Rightarrow> 8 word \<Rightarrow> nat \<Rightarrow> 'w \<Rightarrow> 8 word list option \<times> 'w" where
  "dev_registers io addr reg n w =
     (case dev_write io addr [reg] w of (False, w) \<Rightarrow> (None, w) | (True, w) \<Rightarrow> dev_read io addr n w)"

definition sign_extend :: "32 word \<Rightarrow> nat \<Rightarrow> int" where
  "sign_extend v bits = sint (if bit v (bits - 1) then v OR NOT (mask bits) else v)"

definition byte32 :: "8 word list \<Rightarrow> nat \<Rightarrow> 32 word" where
  "byte32 bs i = of_nat (at_byte bs i)"

definition word24 :: "8 word list \<Rightarrow> nat \<Rightarrow> 32 word" where
  "word24 bs i = push_bit 16 (byte32 bs i) OR push_bit 8 (byte32 bs (i + 1)) OR byte32 bs (i + 2)"

definition coeff16 :: "8 word list \<Rightarrow> nat \<Rightarrow> dbl" where
  "coeff16 bs i = dbl_of_int (sign_extend (push_bit 8 (byte32 bs i) OR byte32 bs (i + 1)) 16)"

text \<open>The compensation polynomial of the data sheet, in the order the code evaluates it: temperature and pressure in pascal.\<close>

definition dps_compensate :: "8 word list \<Rightarrow> 8 word list \<Rightarrow> dbl \<times> dbl" where
  "dps_compensate cf raw =
     (let scale = Fin 7864320;
          p = dbl_of_int (sign_extend (word24 raw 0) 24) / scale;
          t = dbl_of_int (sign_extend (word24 raw 3) 24) / scale;
          c0 = dbl_of_int (sign_extend (push_bit 4 (byte32 cf 0) OR drop_bit 4 (byte32 cf 1)) 12);
          c1 = dbl_of_int (sign_extend (push_bit 8 (byte32 cf 1 AND 0x0F) OR byte32 cf 2) 12);
          c00 = dbl_of_int (sign_extend (push_bit 12 (byte32 cf 3) OR push_bit 4 (byte32 cf 4) OR drop_bit 4 (byte32 cf 5)) 20);
          c10 = dbl_of_int (sign_extend (push_bit 16 (byte32 cf 5 AND 0x0F) OR push_bit 8 (byte32 cf 6) OR byte32 cf 7) 20);
          c01 = coeff16 cf 8; c11 = coeff16 cf 10; c20 = coeff16 cf 12; c21 = coeff16 cf 14; c30 = coeff16 cf 16
      in (c0 * Fin (1 / 2) + c1 * t,
          c00 + p * (c10 + p * (c20 + p * c30)) + t * c01 + t * p * (c11 + p * c21)))"

fun dps_ready :: "'w sensor_io \<Rightarrow> int \<Rightarrow> nat \<Rightarrow> 'w \<Rightarrow> bool \<times> 'w" where
  "dps_ready io addr 0 w = (False, w)"
| "dps_ready io addr (Suc n) w =
     (let (st, w) = dev_registers io addr 0x08 1 w
      in if (case st of None \<Rightarrow> False | Some bs \<Rightarrow> byte32 bs 0 AND 0x30 = 0x30) then (True, w) else dps_ready io addr n w)"

text \<open>The coefficients, and the settings, all of which are written even when an earlier transfer failed.\<close>

definition dps_setup :: "'w sensor_io \<Rightarrow> int \<Rightarrow> 'w \<Rightarrow> 8 word list option \<times> 'w" where
  "dps_setup io addr w =
     (let (coeff, w) = dev_registers io addr 0x10 18 w;
          (src, w) = (if coeff = None then (None, w) else dev_registers io addr 0x28 1 w);
          source = (case src of None \<Rightarrow> 0 | Some bs \<Rightarrow> byte32 bs 0);
          (a, w) = dev_write io addr [0x06, 0x03] w;
          (b, w) = dev_write io addr [0x07, ucast (source AND 0x80 OR 0x03)] w;
          (c, w) = dev_write io addr [0x09, 0x00] w;
          (d, w) = dev_write io addr [0x08, 0x07] w
      in (if src \<noteq> None \<and> a \<and> b \<and> c \<and> d then coeff else None, w))"

definition read_dps310_at :: "'w sensor_io \<Rightarrow> int \<Rightarrow> 'w \<Rightarrow> (dbl \<times> dbl) option \<times> 'w" where
  "read_dps310_at io addr w =
     (case dev_open io addr w of
        (False, w) \<Rightarrow> (None, w)
      | (True, w) \<Rightarrow>
          (case dev_registers io addr 0x0D 1 w of
             (None, w) \<Rightarrow> (None, w)
           | (Some i, w) \<Rightarrow>
               (if byte32 i 0 AND 0xF0 \<noteq> 0x10 then (None, w)
                else
                  (case dps_setup io addr w of
                     (None, w) \<Rightarrow> (None, w)
                   | (Some cf, w) \<Rightarrow>
                       (case dps_ready io addr 25 w of
                          (False, w) \<Rightarrow> (None, w)
                        | (True, w) \<Rightarrow>
                            (case dev_registers io addr 0x00 6 w of
                               (None, w) \<Rightarrow> (None, w)
                             | (Some raw, w) \<Rightarrow>
                                 (let (temp, pa) = dps_compensate cf raw
                                  in (if is_finite temp \<and> is_finite pa then Some (temp, pa / Fin 100) else None, w))))))))"

subsection \<open>The UV sensor\<close>

definition ads_config :: "int \<Rightarrow> 16 word" where
  "ads_config channel =
     0x8000 OR push_bit 12 (4 + of_int channel) OR push_bit 9 1 OR push_bit 8 1 OR push_bit 5 4 OR 3"

definition read_ads1115_at :: "'w sensor_io \<Rightarrow> sensor_hw_config \<Rightarrow> int \<Rightarrow> 'w \<Rightarrow> dbl option \<times> 'w" where
  "read_ads1115_at io hw addr w =
     (let cfg = ads_config (uv_ads1115_channel hw) in
      case dev_open io addr w of
        (False, w) \<Rightarrow> (None, w)
      | (True, w) \<Rightarrow>
          (case dev_write io addr [0x01, ucast (drop_bit 8 cfg), ucast (cfg AND 0xFF)] w of
             (False, w) \<Rightarrow> (None, w)
           | (True, w) \<Rightarrow>
               (case dev_registers io addr 0x00 2 w of
                  (None, w) \<Rightarrow> (None, w)
                | (Some raw, w) \<Rightarrow>
                    (let counts = sign_extend (push_bit 8 (byte32 raw 0) OR byte32 raw 1) 16;
                         v = dbl_of_int counts * uv_full_scale_v hw / Fin 32768
                     in (if is_finite v then Some v else None, w)))))"

subsection \<open>Polls of the two\<close>

text \<open>The configured or resolved address first, then the others a device of the kind can have.\<close>

definition candidates :: "int \<Rightarrow> bool \<Rightarrow> int list \<Rightarrow> int list" where
  "candidates addr discover others = addr # (if discover then filter (\<lambda>a. a \<noteq> addr) others else [])"

fun first_answer :: "(int \<Rightarrow> 'w \<Rightarrow> 'a option \<times> 'w) \<Rightarrow> int list \<Rightarrow> 'w \<Rightarrow> (int \<times> 'a) option \<times> 'w" where
  "first_answer f [] w = (None, w)"
| "first_answer f (a # as) w =
     (case f a w of (Some v, w) \<Rightarrow> (Some (a, v), w) | (None, w) \<Rightarrow> first_answer f as w)"

definition dps_converse :: "'w sensor_io \<Rightarrow> sensor_manager \<Rightarrow> 'w \<Rightarrow> (int \<times> dbl \<times> dbl) option \<times> 'w" where
  "dps_converse io m w =
     (let hw = sc_hw (sen_cfg m);
          addr = (case sen_dps_address m of Some a \<Rightarrow> a | None \<Rightarrow> dps310_i2c_addr hw)
      in first_answer (read_dps310_at io) (candidates addr (dps310_auto_discover hw) [0x76, 0x77]) w)"

definition no_response :: "sensor_manager \<Rightarrow> int \<Rightarrow> bool \<Rightarrow> int \<Rightarrow> string \<Rightarrow> component_health" where
  "no_response m now has t err =
     \<lparr>health_state = failed_state m now has t, health_error = err, health_age_ms = age_ms now t has\<rparr>"

definition dps_publish :: "int \<Rightarrow> (int \<times> dbl \<times> dbl) option \<Rightarrow> sensor_manager \<Rightarrow> sensor_manager" where
  "dps_publish now res m =
     (case res of
        Some (addr, temp, pressure) \<Rightarrow>
          m\<lparr>sen_dps_address := Some addr, sen_ambient_cache := fresh_value temp now,
            sen_pressure_cache := fresh_value pressure now,
            sen_dps_health := \<lparr>health_state = StateOk, health_error = ''NONE'', health_age_ms = 0\<rparr>\<rparr>
      | None \<Rightarrow>
          (let c = invalidate (sen_ambient_cache m) in
           m\<lparr>sen_ambient_cache := c, sen_pressure_cache := invalidate (sen_pressure_cache m),
             sen_dps_health := no_response m now (sv_has c) (sv_time c) ''NO_RESPONSE'', sen_dps_address := None\<rparr>))"

definition ads_converse :: "'w sensor_io \<Rightarrow> sensor_manager \<Rightarrow> 'w \<Rightarrow> (int \<times> dbl) option \<times> 'w" where
  "ads_converse io m w =
     (let hw = sc_hw (sen_cfg m);
          addr = (case sen_ads_address m of Some a \<Rightarrow> a | None \<Rightarrow> ads1115_i2c_addr hw)
      in first_answer (read_ads1115_at io hw)
           (candidates addr (ads1115_auto_discover hw) [0x48, 0x49, 0x4A, 0x4B]) w)"

definition ads_publish :: "int \<Rightarrow> (int \<times> dbl) option \<Rightarrow> sensor_manager \<Rightarrow> sensor_manager" where
  "ads_publish now res m =
     (case res of
        Some (addr, v) \<Rightarrow>
          m\<lparr>sen_ads_address := Some addr, sen_uv_cache := fresh_value v now,
            sen_ads_health := \<lparr>health_state = StateOk, health_error = ''NONE'', health_age_ms = 0\<rparr>\<rparr>
      | None \<Rightarrow>
          (let c = invalidate (sen_uv_cache m) in
           m\<lparr>sen_uv_cache := c, sen_ads_health := no_response m now (sv_has c) (sv_time c) ''NO_RESPONSE'',
             sen_ads_address := None\<rparr>))"

subsection \<open>The RTD hat\<close>

text \<open>The conversation: a card that was not probed, or that failed, is probed before it is read.  The flag of the bus is
  set between the conversation and the caches.\<close>

definition rtd_converse :: "'w sensor_io \<Rightarrow> sensor_manager \<Rightarrow> 'w \<Rightarrow> (string + rtd_reading) \<times> sensor_manager \<times> 'w" where
  "rtd_converse io m w =
     (let (perr, ident, hat, w) =
            (if sen_rtd_probed m then (Inr (), sen_rtd_identity m, sen_rtd m, w)
             else rtd_probe (io_rtd io) (sen_rtd m) (sen_rtd_identity m) w);
          m = m\<lparr>sen_rtd_identity := ident\<rparr> in
      case perr of
        Inl e \<Rightarrow> (Inl e, m\<lparr>sen_rtd := hat, sen_rtd_probed := False\<rparr>, w)
      | Inr _ \<Rightarrow>
          (case rtd_read_all (io_rtd io) hat no_rtd_reading w of
             (Inl e, r, hat, w) \<Rightarrow> (Inl e, m\<lparr>sen_rtd := hat, sen_rtd_probed := False\<rparr>, w)
           | (Inr _, r, hat, w) \<Rightarrow> (Inr r, m\<lparr>sen_rtd := hat, sen_rtd_probed := True\<rparr>, w)))"

definition set_rtd_bus :: "bool \<Rightarrow> sensor_manager \<Rightarrow> sensor_manager" where
  "set_rtd_bus ok m = m\<lparr>sen_rtd_bus_ok := ok\<rparr>"

definition valid_channels :: "rtd_reading \<Rightarrow> nat" where
  "valid_channels r = length (filter id (rd_valid r))"

text \<open>The caches after a reading; a card has eight channels, samples beyond them are not touched.\<close>

definition store_channel :: "int \<Rightarrow> rtd_reading \<Rightarrow> nat \<Rightarrow> scalar_cache \<Rightarrow> scalar_cache" where
  "store_channel now r i c =
     (if 8 \<le> i then c else if rd_valid r ! i then fresh_value (rd_temperature r ! i) now else invalidate c)"

definition store_reading :: "int \<Rightarrow> rtd_reading \<Rightarrow> sensor_manager \<Rightarrow> sensor_manager" where
  "store_reading now r m =
     (let n = length (sen_samples m);
          seen = length (filter (\<lambda>i. rd_valid r ! i) [0..<min n 8]);
          (st, err) = rtd_state_for_valid_count seen n
      in m\<lparr>sen_rtd_reading := Some r,
           sen_samples := map (\<lambda>i. store_channel now r i (sen_samples m ! i)) [0..<n],
           sen_resistance :=
             (if resistance_source (sc_hw (sen_cfg m)) = ''sequent_rtd''
              then map (\<lambda>i. if i < n \<and> i < 8 \<and> rd_valid r ! i then rd_resistance r ! i else sen_resistance m ! i)
                     [0..<length (sen_resistance m)]
              else sen_resistance m),
           sen_rtd_health := \<lparr>health_state = st, health_error = err, health_age_ms = 0\<rparr>\<rparr>)"

text \<open>The newest of the samples that were ever read.\<close>

definition newest_success :: "scalar_cache list \<Rightarrow> int option" where
  "newest_success cs =
     (case filter sv_has cs of [] \<Rightarrow> None | c # cs' \<Rightarrow> Some (fold (\<lambda>c t. max t (sv_time c)) cs' (sv_time c)))"

definition lose_card :: "int \<Rightarrow> string \<Rightarrow> sensor_manager \<Rightarrow> sensor_manager" where
  "lose_card now err m =
     (let cs = map invalidate (sen_samples m);
          (has, t) = (case newest_success cs of None \<Rightarrow> (False, 0) | Some t \<Rightarrow> (True, t))
      in m\<lparr>sen_samples := cs,
           sen_rtd_health := no_response m now has t (if err = [] then ''NO_RESPONSE'' else err)\<rparr>)"

definition sample_fresh :: "sensor_manager \<Rightarrow> int \<Rightarrow> scalar_cache \<Rightarrow> bool" where
  "sample_fresh m now c \<longleftrightarrow> age_fresh m (cache_age now c)"

definition rtd_publish :: "int \<Rightarrow> string + rtd_reading \<Rightarrow> sensor_manager \<Rightarrow> sensor_manager" where
  "rtd_publish now res m =
     (let m = (case res of Inl e \<Rightarrow> lose_card now e m | Inr r \<Rightarrow> store_reading now r m);
          seen = map (\<lambda>i. (case res of Inl _ \<Rightarrow> False | Inr r \<Rightarrow> i < 8 \<and> rd_valid r ! i)) [0..<length (sen_samples m)];
          valid = map (\<lambda>(v, c). v \<and> sample_fresh m now c) (zip seen (sen_samples m))
      in m\<lparr>sen_sample_temp_ok := heated_channels_valid (sen_cfg m) valid\<rparr>)"

subsection \<open>The clicks\<close>

definition update_click_health :: "int \<Rightarrow> nat \<Rightarrow> string + click_reading \<Rightarrow> sensor_manager \<Rightarrow> sensor_manager" where
  "update_click_health now i res m =
     (let c = sen_clicks m ! i;
          c = (case res of
                 Inr r \<Rightarrow>
                   c\<lparr>ck_last_ohm := cr_ohm r, ck_last_fault := cr_fault r, ck_last_valid := \<not> cr_out_of_range r,
                     ck_has_reading := True, ck_has_success := True, ck_time := now,
                     ck_health :=
                       (if cr_out_of_range r then \<lparr>health_state = StateDegraded, health_error = ''OUT_OF_RANGE'', health_age_ms = 0\<rparr>
                        else \<lparr>health_state = StateOk, health_error = ''NONE'', health_age_ms = 0\<rparr>)\<rparr>
               | Inl e \<Rightarrow>
                   c\<lparr>ck_health := no_response m now (ck_has_success c) (ck_time c) (if e = [] then ''NO_RESPONSE'' else e)\<rparr>)
      in m\<lparr>sen_clicks := (sen_clicks m)[i := c]\<rparr>)"

definition click_converse :: "'w sensor_io \<Rightarrow> nat \<Rightarrow> sensor_manager \<Rightarrow> 'w \<Rightarrow>
    (string + click_reading) \<times> sensor_manager \<times> 'w" where
  "click_converse io i m w =
     (let (e, r, a, w) =
            read_one_shot (if i = 0 then io_click1 io else io_click2 io) (sen_click_adapters m ! i) w
      in (case e of None \<Rightarrow> Inr r | Some e \<Rightarrow> Inl e, m\<lparr>sen_click_adapters := (sen_click_adapters m)[i := a]\<rparr>, w))"

definition is_ok :: "'e + 'a \<Rightarrow> bool" where
  "is_ok r = (case r of Inl _ \<Rightarrow> False | Inr _ \<Rightarrow> True)"

definition set_clicks_bus :: "bool \<Rightarrow> sensor_manager \<Rightarrow> sensor_manager" where
  "set_clicks_bus ok m = m\<lparr>sen_clicks_bus_ok := ok\<rparr>"

definition store_click :: "nat \<Rightarrow> string + click_reading \<Rightarrow> sensor_manager \<Rightarrow> sensor_manager" where
  "store_click i res m =
     (let hw = sc_hw (sen_cfg m); idx = max31865_sample_indices hw in
      case res of
        Inl _ \<Rightarrow> m
      | Inr r \<Rightarrow>
          if resistance_source hw = ''max31865_click'' \<and> i < length idx \<and> idx ! i < length (sen_resistance m)
          then m\<lparr>sen_resistance := (sen_resistance m)[idx ! i := (if cr_valid r then cr_ohm r else Fin 0)]\<rparr>
          else m)"

definition clicks_publish :: "int \<Rightarrow> string + click_reading \<Rightarrow> string + click_reading \<Rightarrow> sensor_manager \<Rightarrow> sensor_manager" where
  "clicks_publish now r1 r2 m =
     store_click 1 r2 (update_click_health now 1 r2 (store_click 0 r1 (update_click_health now 0 r1 m)))"

subsection \<open>The polls\<close>

definition dps_poll :: "'w sensor_io \<Rightarrow> int \<Rightarrow> sensor_manager \<Rightarrow> 'w \<Rightarrow> sensor_manager \<times> 'w" where
  "dps_poll io now m w = (let (res, w) = dps_converse io m w in (dps_publish now res m, w))"

definition ads_poll :: "'w sensor_io \<Rightarrow> int \<Rightarrow> sensor_manager \<Rightarrow> 'w \<Rightarrow> sensor_manager \<times> 'w" where
  "ads_poll io now m w = (let (res, w) = ads_converse io m w in (ads_publish now res m, w))"

definition rtd_poll :: "'w sensor_io \<Rightarrow> int \<Rightarrow> sensor_manager \<Rightarrow> 'w \<Rightarrow> sensor_manager \<times> 'w" where
  "rtd_poll io now m w =
     (let (res, m, w) = rtd_converse io m w in (rtd_publish now res (set_rtd_bus (is_ok res) m), w))"

definition click_poll :: "'w sensor_io \<Rightarrow> int \<Rightarrow> sensor_manager \<Rightarrow> 'w \<Rightarrow> sensor_manager \<times> 'w" where
  "click_poll io now m w =
     (let (r1, m, w) = click_converse io 0 m w; (r2, m, w) = click_converse io 1 m w
      in (clicks_publish now r1 r2 (set_clicks_bus (is_ok r1 \<and> is_ok r2) m), w))"

subsection \<open>The snapshot\<close>

definition simulated_ambient :: "mission_phase \<Rightarrow> dbl" where
  "simulated_ambient p =
     (if p = Float \<or> p = PreFloat then Fin (- 55) else if p = Descent then Fin (- 15)
      else if p = Landed then Fin 0 else Fin (- 40))"

definition simulated_ok :: component_health where
  "simulated_ok = \<lparr>health_state = StateOk, health_error = ''SIMULATED'', health_age_ms = 0\<rparr>"

text \<open>The clock of the real-time chip, when there is one: whether it is valid, and its time.\<close>

definition rtc_snapshot :: "(bool \<times> string) option \<Rightarrow> sensor_snapshot" where
  "rtc_snapshot rtc =
     snapshot_default\<lparr>sn_rtc_valid := (case rtc of None \<Rightarrow> False | Some (v, _) \<Rightarrow> v),
       sn_timestamp := (case rtc of None \<Rightarrow> ''1970-01-01T00:00:00Z'' | Some (_, t) \<Rightarrow> t)\<rparr>"

definition simulated_temp :: "dbl \<Rightarrow> dbl \<Rightarrow> dbl \<Rightarrow> dbl \<Rightarrow> dbl" where
  "simulated_temp ambient dt duty t = t + (duty * Fin 5 * dt - (t - ambient) * to_dbl (3 / 100) * dt)"

definition read_simulated :: "(bool \<times> string) option \<Rightarrow> mission_phase \<Rightarrow> dbl list \<Rightarrow> dbl \<Rightarrow> sensor_manager \<Rightarrow>
    sensor_snapshot \<times> sensor_manager" where
  "read_simulated rtc p duty dt m =
     (let dt = (if dt \<le> to_dbl (1 / 1000000) then Fin 1 else dt);
          down = sen_descending m \<and> \<not> (p = Descent \<or> p = Landed);
          pressure = std_clamp (sen_pressure m + (if down then to_dbl (- (15 / 10)) else to_dbl (18 / 10)) * dt)
            (Fin 5) (to_dbl (101325 / 100));
          ambient = simulated_ambient p;
          temps = map (\<lambda>i. simulated_temp ambient dt (if i < length duty then duty ! i else Fin 0) (sen_temps m ! i))
            [0..<length (sen_temps m)]
      in ((rtc_snapshot rtc)\<lparr>sn_ambient_temp := ambient, sn_pressure := pressure,
            sn_uv := (if p = Float \<or> p = PreFloat then to_dbl (18 / 10) else to_dbl (4 / 10)), sn_temps := temps,
            sn_temp_valid := replicate (length temps) True, sn_temp_ages := replicate (length temps) 0,
            sn_ambient_temp_age := 0, sn_pressure_age := 0, sn_uv_age := 0, sn_dps310 := simulated_ok,
            sn_ads1115 := simulated_ok, sn_rtd := simulated_ok, sn_simulated := True\<rparr>,
          m\<lparr>sen_descending := down, sen_pressure := pressure, sen_temps := temps, sen_i2c_ok := True,
            sen_sample_temp_ok := True, sen_uv_ok := True, sen_rtd_bus_ok := True\<rparr>))"

definition cached_value :: "scalar_cache \<Rightarrow> dbl" where
  "cached_value c = (if sv_has c then sv_value c else NaN)"

definition cache_ok :: "sensor_manager \<Rightarrow> int \<Rightarrow> scalar_cache \<Rightarrow> bool" where
  "cache_ok m now c \<longleftrightarrow> sv_valid c \<and> sample_fresh m now c"

text \<open>The published health of a sensor whose value has aged since its poll.\<close>

definition aged_health :: "sensor_manager \<Rightarrow> int \<Rightarrow> bool \<Rightarrow> scalar_cache \<Rightarrow> component_health \<Rightarrow> component_health" where
  "aged_health m now on c h =
     (let age = cache_age now c; h = h\<lparr>health_age_ms := age\<rparr>
      in if on \<and> sv_has c \<and> \<not> cache_ok m now c
         then h\<lparr>health_state := (if stale_after_ms (sc_hw (sen_cfg m)) \<le> age then StateStale else StateDegraded)\<rparr>
         else h)"

definition read_cached :: "(bool \<times> string) option \<Rightarrow> int \<Rightarrow> sensor_manager \<Rightarrow> sensor_snapshot \<times> sensor_manager" where
  "read_cached rtc now m =
     (let hw = sc_hw (sen_cfg m); amb = sen_ambient_cache m; ap = sen_pressure_cache m; uv = sen_uv_cache m;
          valid = map (cache_ok m now) (sen_samples m);
          pressure_ok = cache_ok m now ap
      in ((rtc_snapshot rtc)\<lparr>sn_ambient_temp := cached_value amb, sn_pressure := cached_value ap, sn_uv := cached_value uv,
            sn_ambient_temp_valid := cache_ok m now amb, sn_pressure_valid := pressure_ok, sn_uv_valid := cache_ok m now uv,
            sn_ambient_temp_age := cache_age now amb, sn_pressure_age := cache_age now ap, sn_uv_age := cache_age now uv,
            sn_temps := map cached_value (sen_samples m), sn_temp_valid := valid,
            sn_temp_ages := map (cache_age now) (sen_samples m),
            sn_dps310 := aged_health m now (dps310_enabled hw) amb (sen_dps_health m),
            sn_ads1115 := aged_health m now (ads1115_enabled hw) uv (sen_ads_health m), sn_rtd := sen_rtd_health m\<rparr>,
          m\<lparr>sen_i2c_ok := ((\<not> dps310_enabled hw \<or> cache_ok m now amb \<and> pressure_ok) \<and>
              (\<not> ads1115_enabled hw \<or> cache_ok m now uv) \<and> sen_rtd_bus_ok m),
            sen_uv_ok := cache_ok m now uv, sen_sample_temp_ok := heated_channels_valid (sen_cfg m) valid\<rparr>))"

text \<open>The resistances, by their source; \<open>ina\<close> is the health of the power monitor, when there is one.\<close>

definition resistance_snapshot :: "bool option \<Rightarrow> sensor_manager \<Rightarrow> bool \<times> dbl list" where
  "resistance_snapshot ina m =
     (let src = resistance_source (sc_hw (sen_cfg m)); none = replicate (sc_sample_count (sen_cfg m)) (Fin 0) in
      if src = ''disabled'' then (True, none)
      else if src = ''simulated'' then (True, sen_resistance m)
      else if src = ''max31865_click'' then (sen_clicks_bus_ok m, sen_resistance m)
      else if src = ''sequent_rtd'' then (sen_rtd_bus_ok m, sen_resistance m)
      else if ina = Some True then (True, sen_resistance m)
      else (False, none))"

definition read_snapshot :: "(bool \<times> string) option \<Rightarrow> bool option \<Rightarrow> int \<Rightarrow> mission_phase \<Rightarrow> dbl list \<Rightarrow> dbl \<Rightarrow>
    sensor_manager \<Rightarrow> sensor_snapshot \<times> sensor_manager" where
  "read_snapshot rtc ina now p duty dt m =
     (let (s, m) = (if sc_simulated_sensors (sen_cfg m) then read_simulated rtc p duty dt m else read_cached rtc now m);
          (res_ok, res) = resistance_snapshot ina m; s = s\<lparr>sn_resistance := res\<rparr>; range = sc_range (sen_cfg m)
      in (s, m\<lparr>sen_resistance_ok := res_ok,
               sen_t_ambient_ok := (sn_ambient_temp_valid s \<and> ambient_temp_min_c range \<le> sn_ambient_temp s \<and>
                 sn_ambient_temp s \<le> ambient_temp_max_c range),
               sen_p_ambient_ok := (sn_pressure_valid s \<and> ambient_pressure_min_mbar range \<le> sn_pressure s \<and>
                 sn_pressure s \<le> ambient_pressure_max_mbar range)\<rparr>))"

end
