(* ===== verification/SensorReports.thy ===== *)
theory SensorReports
  imports SensorManager
begin

text \<open>
  The two texts the sensors answer a command with (\<^verbatim>\<open>sensor_manager.cpp\<close>): \<^verbatim>\<open>ActiveCheck\<close>, which talks to
  the hardware at once, and \<^verbatim>\<open>ComponentSummary\<close>, which reports what the pollers know.
\<close>

subsection \<open>Pieces of the texts\<close>

definition sequent_identity :: "rtd_identity \<Rightarrow> string" where
  "sequent_identity i =
     '';sequent_rtd_card_type='' @ show_nat (id_card_type i) @ '';sequent_rtd_fw='' @ show_nat (id_fw_major i) @ ''.'' @
     show_nat (id_fw_minor i) @ '';sequent_rtd_hw='' @ show_nat (id_hw_major i) @ ''.'' @ show_nat (id_hw_minor i) @
     '';sequent_rtd_sensor='' @ (if id_pt1000 i then ''pt1000'' else ''pt100'')"

definition sequent_diagnostics :: "rtd_reading \<Rightarrow> string" where
  "sequent_diagnostics r =
     '';sequent_rtd_card_temp_c='' @ show_fixed 1 (rd_card_temp r) @ '';sequent_rtd_rail_5v='' @ show_fixed 3 (rd_rail r) @
     '';sequent_rtd_adc_reinit='' @ show_nat (rd_reinit r)"

definition format_sequent_channels :: "rtd_reading \<Rightarrow> nat list \<Rightarrow> string" where
  "format_sequent_channels r chmap =
     join_with (CHR ''|'')
       (map (\<lambda>i. ''S'' @ show_nat i @ '':ch'' @ show_nat (chmap ! i) @ '':'' @ rtd_fault_text (rd_fault r ! i) @ '':'' @
          show_fixed 1 (rd_resistance r ! i)) [0..<8])"

definition sequent_channels :: "rtd_reading \<Rightarrow> nat list \<Rightarrow> string" where
  "sequent_channels r chmap =
     '';sequent_rtd_valid='' @ show_nat (valid_channels r) @ ''/8'' @ '';sequent_rtd_ch='' @ format_sequent_channels r chmap"

definition max31865_faults :: "(8 word \<times> string) list" where
  "max31865_faults =
     [(0x80, ''RTD_HIGH''), (0x40, ''RTD_LOW''), (0x20, ''REFIN_HIGH''), (0x10, ''REFIN_LOW_FORCE_OPEN''),
      (0x08, ''RTDIN_LOW_FORCE_OPEN''), (0x04, ''OV_UV'')]"

definition decode_max31865_fault :: "8 word \<Rightarrow> string" where
  "decode_max31865_fault f =
     (if f = 0 then ''none''
      else (let names = map snd (filter (\<lambda>(m, _). f AND m \<noteq> 0) max31865_faults)
            in if names = [] then ''unknown'' else join_with (CHR ''+'') names))"

subsection \<open>The check\<close>

definition check_dps :: "'w sensor_io \<Rightarrow> sensor_manager \<Rightarrow> 'w \<Rightarrow> bool \<times> 'w" where
  "check_dps io m w =
     (let hw = sc_hw (sen_cfg m) in
      if \<not> dps310_enabled hw then (True, w)
      else (let (r, w) = first_answer (read_dps310_at io)
              (candidates (dps310_i2c_addr hw) (dps310_auto_discover hw) [0x76, 0x77]) w in (r \<noteq> None, w)))"

definition check_ads :: "'w sensor_io \<Rightarrow> sensor_manager \<Rightarrow> 'w \<Rightarrow> bool \<times> 'w" where
  "check_ads io m w =
     (let hw = sc_hw (sen_cfg m) in
      if \<not> ads1115_enabled hw then (True, w)
      else (let (r, w) = first_answer (read_ads1115_at io hw)
              (candidates (ads1115_i2c_addr hw) (ads1115_auto_discover hw) [0x48, 0x49, 0x4A, 0x4B]) w in (r \<noteq> None, w)))"

text \<open>The card: whether it answered, the error, its identity and its reading.\<close>

definition check_rtd :: "'w sensor_io \<Rightarrow> sensor_manager \<Rightarrow> 'w \<Rightarrow>
    (string + rtd_identity \<times> rtd_reading) \<times> sensor_manager \<times> 'w" where
  "check_rtd io m w =
     (if \<not> i2c_available (io_rtd io) then (Inl ''I2C_UNAVAILABLE'', m, w)
      else
        (case rtd_probe (io_rtd io) (sen_rtd m) no_identity w of
           (Inl e, _, hat, w) \<Rightarrow> (Inl (if e = [] then ''UNKNOWN'' else e), m\<lparr>sen_rtd := hat, sen_rtd_probed := False\<rparr>, w)
         | (Inr _, ident, hat, w) \<Rightarrow>
             (case rtd_read_all (io_rtd io) hat no_rtd_reading w of
                (Inl e, _, hat, w) \<Rightarrow> (Inl (if e = [] then ''UNKNOWN'' else e), m\<lparr>sen_rtd := hat, sen_rtd_probed := False\<rparr>, w)
              | (Inr _, r, hat, w) \<Rightarrow>
                  (Inr (ident, r), m\<lparr>sen_rtd := hat, sen_rtd_identity := ident, sen_rtd_probed := True\<rparr>, w))))"

definition check_clicks :: "'w sensor_io \<Rightarrow> int \<Rightarrow> sensor_manager \<Rightarrow> 'w \<Rightarrow>
    ((string + click_reading) \<times> (string + click_reading)) \<times> sensor_manager \<times> 'w" where
  "check_clicks io now m w =
     (if \<not> clicks_available io then ((Inl ''SPI_UNAVAILABLE'', Inl ''SPI_UNAVAILABLE''), m, w)
      else
        (let (r1, m, w) = click_converse io 0 m w; (r2, m, w) = click_converse io 1 m w
         in ((r1, r2), update_click_health now 1 r2 (update_click_health now 0 r1 m), w)))"

definition outcome :: "bool \<Rightarrow> bool \<Rightarrow> string" where
  "outcome requested ok = (if \<not> requested then ''SKIPPED'' else if ok then ''OK'' else ''FAIL'')"

definition sequent_report :: "rtd_adapter \<Rightarrow> string + rtd_identity \<times> rtd_reading \<Rightarrow> string" where
  "sequent_report hat res =
     '';sequent_rtd_addr=0x'' @ show_hex (nat (rtd_address hat)) @ '';sequent_rtd_burst='' @ flag (ra_burst hat) @
     (case res of
        Inl _ \<Rightarrow> []
      | Inr (ident, r) \<Rightarrow>
          sequent_identity ident @ sequent_diagnostics r @ sequent_channels r (ro_channel_map (ra_options hat)))"

definition click_of :: "string + click_reading \<Rightarrow> click_reading" where
  "click_of res = (case res of Inl _ \<Rightarrow> no_click_reading | Inr r \<Rightarrow> r)"

definition click_error :: "string + click_reading \<Rightarrow> string" where
  "click_error res = (case res of Inl e \<Rightarrow> e | Inr _ \<Rightarrow> [])"

definition click_values :: "nat \<Rightarrow> click_reading \<Rightarrow> string" where
  "click_values i r =
     '';max31865_'' @ show_nat (i + 1) @ ''_ohm='' @ show_fixed 2 (cr_ohm r) @ '';max31865_'' @ show_nat (i + 1) @ ''_fault='' @
     decode_max31865_fault (cr_fault r) @ '';max31865_'' @ show_nat (i + 1) @ ''_valid='' @ flag (cr_valid r)"

definition clicks_report :: "bool \<Rightarrow> sensor_manager \<Rightarrow> string + click_reading \<Rightarrow> string + click_reading \<Rightarrow> string" where
  "clicks_report requested m r1 r2 =
     '';max31865_1='' @ outcome requested (is_ok r1) @
     '';max31865_1_error='' @ (if requested then click_error r1 else ''SKIPPED'') @
     '';max31865_2='' @ outcome requested (is_ok r2) @
     '';max31865_2_error='' @ (if requested then click_error r2 else ''SKIPPED'') @
     (if requested
      then click_values 0 (click_of r1) @ click_values 1 (click_of r2) @
        '';max31865_reference_ohm='' @ show_fixed 2 (max31865_reference_ohm (sc_hw (sen_cfg m)))
      else [])"

definition wants :: "string \<Rightarrow> string list \<Rightarrow> bool" where
  "wants component names \<longleftrightarrow> component \<in> set (''ALL'' # names)"

definition active_check :: "'w sensor_io \<Rightarrow> int \<Rightarrow> string \<Rightarrow> sensor_manager \<Rightarrow> 'w \<Rightarrow>
    (bool \<times> string) \<times> sensor_manager \<times> 'w" where
  "active_check io now component m w =
     (if sc_simulated_sensors (sen_cfg m) then ((True, component @ ''=OK;simulated=1''), m, w)
      else
        (let dps = wants component [''DPS310'']; ads = wants component [''ADS1115''];
             rtd = wants component [''SEQUENT_RTD'', ''RTD_CLICK'', ''DAQ132M'']; clicks = wants component [''MAX31865''];
             (dps_ok, w) = (if dps then check_dps io m w else (True, w));
             (ads_ok, w) = (if ads then check_ads io m w else (True, w));
             (hat, m, w) = (if rtd then check_rtd io m w else (Inl ''SKIPPED'', m, w));
             ((r1, r2), m, w) =
               (if clicks then check_clicks io now m w else ((Inl ''SKIPPED'', Inl ''SKIPPED''), m, w))
         in ((dps_ok \<and> ads_ok \<and> (rtd \<longrightarrow> is_ok hat) \<and> (clicks \<longrightarrow> is_ok r1 \<and> is_ok r2),
              ''dps310='' @ outcome dps dps_ok @ '';ads1115='' @ outcome ads ads_ok @ '';sequent_rtd='' @
              outcome rtd (is_ok hat) @ '';sequent_rtd_error='' @ (case hat of Inl e \<Rightarrow> e | Inr _ \<Rightarrow> ''NONE'') @
              (if rtd then sequent_report (sen_rtd m) hat else []) @ clicks_report clicks m r1 r2),
             m, w)))"

subsection \<open>The summary\<close>

text \<open>The age of a sensor at the time of the summary, which also makes it stale.\<close>

definition summary_health :: "sensor_manager \<Rightarrow> int \<Rightarrow> bool \<Rightarrow> scalar_cache \<Rightarrow> component_health \<Rightarrow> component_health" where
  "summary_health m now on c h =
     (let age = cache_age now c; h = h\<lparr>health_age_ms := age\<rparr>
      in if on \<and> sv_has c \<and> stale_after_ms (sc_hw (sen_cfg m)) \<le> age then h\<lparr>health_state := StateStale\<rparr> else h)"

definition health_text :: "string \<Rightarrow> component_health \<Rightarrow> string" where
  "health_text name h =
     name @ ''='' @ component_state_to_string (health_state h) @ '';'' @ name @ ''_error='' @ health_error h @ '';'' @ name @
     ''_age_ms='' @ show_int (health_age_ms h)"

definition click_summary :: "sensor_manager \<Rightarrow> nat \<Rightarrow> string" where
  "click_summary m i =
     (let c = sen_clicks m ! i; idx = max31865_sample_indices (sc_hw (sen_cfg m)) in
      '';max31865_'' @ show_nat (i + 1) @ ''_ohm='' @ (if ck_has_reading c then show_fixed 2 (ck_last_ohm c) else ''-'') @
      '';max31865_'' @ show_nat (i + 1) @ ''_fault='' @ decode_max31865_fault (ck_last_fault c) @
      '';max31865_'' @ show_nat (i + 1) @ ''_sample='' @
      (if i < length idx then ''S'' @ show_nat (idx ! i) else ''-''))"

definition component_summary :: "int \<Rightarrow> sensor_manager \<Rightarrow> string" where
  "component_summary now m =
     (let c = sen_cfg m; hw = sc_hw c in
      if sc_simulated_sensors c
      then ''dps310=OK;ads1115=OK;sequent_rtd=OK;sample_valid_channels='' @ show_nat (sc_sample_count c) @
        '';heated_channels_ok=1;simulated=1''
      else
        (let valid = map (cache_ok m now) (sen_samples m) in
         health_text ''dps310'' (summary_health m now (dps310_enabled hw) (sen_ambient_cache m) (sen_dps_health m)) @ '';'' @
         health_text ''ads1115'' (summary_health m now (ads1115_enabled hw) (sen_uv_cache m) (sen_ads_health m)) @ '';'' @
         health_text ''sequent_rtd'' (sen_rtd_health m) @
         '';sequent_rtd_addr=0x'' @ show_hex (nat (rtd_address (sen_rtd m))) @
         '';sequent_rtd_burst='' @ flag (ra_burst (sen_rtd m)) @
         (if sen_rtd_probed m then sequent_identity (sen_rtd_identity m) else []) @
         (case sen_rtd_reading m of
            None \<Rightarrow> []
          | Some r \<Rightarrow> sequent_diagnostics r @ sequent_channels r (ro_channel_map (ra_options (sen_rtd m)))) @ '';'' @
         health_text ''max31865_1'' (ck_health (sen_clicks m ! 0)) @ '';'' @
         health_text ''max31865_2'' (ck_health (sen_clicks m ! 1)) @
         click_summary m 0 @ click_summary m 1 @
         '';max31865_reference_ohm='' @ show_fixed 2 (max31865_reference_ohm hw) @
         '';sample_valid_channels='' @ show_nat (length (filter id valid)) @
         '';heated_channels_ok='' @ flag (heated_channels_valid c valid) @ '';simulated=0''))"

end
