(* ===== verification/SensorProperties.thy ===== *)
theory SensorProperties
  imports SensorManager
begin

text \<open>
  The sensors over time: the critical sections of the pollers, of the on-demand check, of the control loop and of a
  finished pull, in any order and with any outcome of the conversations; and what the snapshot then reports.
\<close>

subsection \<open>Runs\<close>

datatype sensor_event =
    DpsPolled int "(int \<times> dbl \<times> dbl) option"
  | AdsPolled int "(int \<times> dbl) option"
  | CardConversed bool
  | CardPolled int "string + rtd_reading"
  | CardState rtd_adapter rtd_identity bool
  | ClicksConversed bool
  | ClicksPolled int "string + click_reading" "string + click_reading"
  | ClicksChecked int "string + click_reading" "string + click_reading"
  | ClickAdapters "click_adapter list"
  | PullCompleted int
  | SnapshotTaken "(bool \<times> string) option" "bool option" int mission_phase "dbl list" dbl

fun sensor_step :: "sensor_event \<Rightarrow> sensor_manager \<Rightarrow> sensor_manager" where
  "sensor_step (DpsPolled now res) m = dps_publish now res m"
| "sensor_step (AdsPolled now res) m = ads_publish now res m"
| "sensor_step (CardConversed ok) m = set_rtd_bus ok m"
| "sensor_step (CardPolled now res) m = rtd_publish now res m"
| "sensor_step (CardState hat ident probed) m = m\<lparr>sen_rtd := hat, sen_rtd_identity := ident, sen_rtd_probed := probed\<rparr>"
| "sensor_step (ClicksConversed ok) m = set_clicks_bus ok m"
| "sensor_step (ClicksPolled now r1 r2) m = clicks_publish now r1 r2 m"
| "sensor_step (ClicksChecked now r1 r2) m = update_click_health now 1 r2 (update_click_health now 0 r1 m)"
| "sensor_step (ClickAdapters as) m = m\<lparr>sen_click_adapters := as\<rparr>"
| "sensor_step (PullCompleted motor) m = note_pull_completed motor m"
| "sensor_step (SnapshotTaken rtc ina now p duty dt) m = snd (read_snapshot rtc ina now p duty dt m)"

definition sensor_run :: "sensor_event list \<Rightarrow> sensor_manager \<Rightarrow> sensor_manager" where
  "sensor_run evs m = fold sensor_step evs m"

text \<open>A poll is a run of these steps.\<close>

lemma rtd_poll_steps:
  "\<exists>hat ident probed res. fst (rtd_poll io now m w) =
     sensor_run [CardState hat ident probed, CardConversed (is_ok res), CardPolled now res] m"
proof -
  obtain res m' w' where c: "rtd_converse io m w = (res, m', w')" by (metis prod.exhaust)
  then have "m' = m\<lparr>sen_rtd := sen_rtd m', sen_rtd_identity := sen_rtd_identity m', sen_rtd_probed := sen_rtd_probed m'\<rparr>"
    by (auto simp: rtd_converse_def Let_def split: if_splits prod.splits sum.splits)
  then have "fst (rtd_poll io now m w) =
      sensor_run [CardState (sen_rtd m') (sen_rtd_identity m') (sen_rtd_probed m'), CardConversed (is_ok res), CardPolled now res] m"
    unfolding sensor_run_def rtd_poll_def c by simp
  then show ?thesis by blast
qed

lemma click_poll_steps:
  "\<exists>as r1 r2. fst (click_poll io now m w) =
     sensor_run [ClickAdapters as, ClicksConversed (is_ok r1 \<and> is_ok r2), ClicksPolled now r1 r2] m"
proof -
  obtain r1 m1 w1 where 1: "click_converse io 0 m w = (r1, m1, w1)" by (metis prod.exhaust)
  obtain r2 m2 w2 where 2: "click_converse io 1 m1 w1 = (r2, m2, w2)" by (metis prod.exhaust)
  have "m2 = m\<lparr>sen_click_adapters := sen_click_adapters m2\<rparr>"
    using 1 2 by (auto simp: click_converse_def Let_def split: prod.splits)
  then have "fst (click_poll io now m w) =
      sensor_run [ClickAdapters (sen_click_adapters m2), ClicksConversed (is_ok r1 \<and> is_ok r2), ClicksPolled now r1 r2] m"
    unfolding sensor_run_def click_poll_def 1 by (simp add: 2 [simplified])
  then show ?thesis by blast
qed

subsection \<open>The sample temperatures\<close>

definition last_card :: "sensor_event list \<Rightarrow> (int \<times> (string + rtd_reading)) option" where
  "last_card evs = fold (\<lambda>e l. case e of CardPolled t res \<Rightarrow> Some (t, res) | _ \<Rightarrow> l) evs None"

text \<open>A sample is valid exactly when the last poll of the card read it, and then it is what that poll read.\<close>

definition sample_from :: "(int \<times> (string + rtd_reading)) option \<Rightarrow> nat \<Rightarrow> scalar_cache \<Rightarrow> bool" where
  "sample_from l i c \<longleftrightarrow>
     (case l of
        Some (t, Inr r) \<Rightarrow> if i < 8 \<and> rd_valid r ! i then c = fresh_value (rd_temperature r ! i) t else \<not> sv_valid c
      | _ \<Rightarrow> \<not> sv_valid c)"

definition samples_from :: "sensor_config \<Rightarrow> (int \<times> (string + rtd_reading)) option \<Rightarrow> sensor_manager \<Rightarrow> bool" where
  "samples_from c l m \<longleftrightarrow>
     sen_cfg m = c \<and> length (sen_samples m) = sc_sample_count c \<and>
     (\<forall>i < length (sen_samples m). sample_from l i (sen_samples m ! i) \<and> (8 \<le> i \<longrightarrow> \<not> sv_valid (sen_samples m ! i)))"

lemma last_card_cases:
  obtains "l = None" | t e where "l = Some (t, Inl e)" | t r where "l = Some (t, Inr r)"
  by (cases l) (auto, metis sum.exhaust)

lemma publish_cfg [simp]:
  "sen_cfg (dps_publish now res m) = sen_cfg m" "sen_samples (dps_publish now res m) = sen_samples m"
  "sen_cfg (ads_publish now res2 m) = sen_cfg m" "sen_samples (ads_publish now res2 m) = sen_samples m"
  by (auto simp: dps_publish_def ads_publish_def Let_def split: option.splits prod.splits)

lemma click_cfg [simp]:
  "sen_cfg (update_click_health now i r m) = sen_cfg m" "sen_samples (update_click_health now i r m) = sen_samples m"
  "sen_cfg (store_click i r m) = sen_cfg m" "sen_samples (store_click i r m) = sen_samples m"
  "sen_cfg (note_pull_completed k m) = sen_cfg m" "sen_samples (note_pull_completed k m) = sen_samples m"
  by (auto simp: update_click_health_def store_click_def note_pull_completed_def Let_def split: sum.splits)

lemma simulated_keeps:
  assumes "read_simulated rtc p duty dt m = (s, m')"
  shows "sen_cfg m' = sen_cfg m" "sen_samples m' = sen_samples m" "sen_resistance m' = sen_resistance m"
    "sen_clicks_bus_ok m' = sen_clicks_bus_ok m"
  using assms by (auto simp: read_simulated_def Let_def)

lemma cached_keeps:
  assumes "read_cached rtc now m = (s, m')"
  shows "sen_cfg m' = sen_cfg m" "sen_samples m' = sen_samples m" "sen_resistance m' = sen_resistance m"
    "sen_clicks_bus_ok m' = sen_clicks_bus_ok m"
  using assms by (auto simp: read_cached_def Let_def)

lemma snapshot_cfg [simp]:
  "sen_cfg (snd (read_snapshot rtc ina now p duty dt m)) = sen_cfg m"
  "sen_samples (snd (read_snapshot rtc ina now p duty dt m)) = sen_samples m"
  "sen_resistance (snd (read_snapshot rtc ina now p duty dt m)) = sen_resistance m"
  "sen_clicks_bus_ok (snd (read_snapshot rtc ina now p duty dt m)) = sen_clicks_bus_ok m"
  by (simp_all add: read_snapshot_def Let_def simulated_keeps cached_keeps split: prod.split)

lemma rtd_publish_samples:
  "sen_cfg (rtd_publish now res m) = sen_cfg m"
  "sen_samples (rtd_publish now res m) =
     (case res of Inl _ \<Rightarrow> map invalidate (sen_samples m)
      | Inr r \<Rightarrow> map (\<lambda>i. store_channel now r i (sen_samples m ! i)) [0..<length (sen_samples m)])"
  by (auto simp: rtd_publish_def lose_card_def store_reading_def Let_def split: sum.splits prod.splits)

lemma samples_from_publish:
  assumes "samples_from c l m" shows "samples_from c (Some (now, res)) (rtd_publish now res m)"
  using assms
  by (auto simp: samples_from_def rtd_publish_samples sample_from_def store_channel_def invalidate_def split: sum.splits)

lemma samples_from_step:
  "samples_from c l m \<Longrightarrow> samples_from c (case e of CardPolled t res \<Rightarrow> Some (t, res) | _ \<Rightarrow> l) (sensor_step e m)"
  by (cases e) (simp_all add: samples_from_publish, simp_all add: samples_from_def set_rtd_bus_def set_clicks_bus_def clicks_publish_def)

lemma samples_from_run: "samples_from c (last_card evs) (sensor_run evs (new_sensor_manager io c))"
proof (induction evs rule: rev_induct)
  case Nil
  show ?case by (simp add: samples_from_def sample_from_def sensor_run_def last_card_def new_sensor_manager_def Let_def no_value_def)
next
  case (snoc e evs)
  from samples_from_step [OF this, of e] show ?case by (simp add: sensor_run_def last_card_def cong: sensor_event.case_cong)
qed

text \<open>C39. The flag that lets the heaters work, and the temperatures it vouches for.  After any run of the pollers, checks, pulls and
  snapshots, a snapshot taken at \<open>now\<close> reports the sample temperatures as good exactly when every channel a heater
  controls was read as valid by the last poll of the RTD card, and that poll is younger than the staleness limit; the
  temperature of such a channel is the one that poll read.  So neither an older reading, nor a poll that failed since, nor
  a healthy unheated channel can keep the flag up.\<close>

theorem heated_channels_gate_exact:
  assumes "\<not> sc_simulated_sensors c"
    and "read_snapshot rtc ina now p duty dt (sensor_run evs (new_sensor_manager io c)) = (s, m)"
  shows "(sen_sample_temp_ok m \<longleftrightarrow>
      sc_heated c \<noteq> [] \<and>
      (\<exists>t r. last_card evs = Some (t, Inr r) \<and>
         0 \<le> whole_ms (now - t) \<and> whole_ms (now - t) < stale_after_ms (sc_hw c) \<and>
         (\<forall>ch \<in> set (sc_heated c). ch < sc_sample_count c \<and> ch < 8 \<and> rd_valid r ! ch))) \<and>
    (\<forall>t r ch. last_card evs = Some (t, Inr r) \<and> ch < sc_sample_count c \<and> ch < 8 \<and> rd_valid r ! ch \<longrightarrow>
       sn_temps s ! ch = rd_temperature r ! ch)"
proof -
  let ?m = "sensor_run evs (new_sensor_manager io c)"
  have inv: "samples_from c (last_card evs) ?m" by (rule samples_from_run)
  then have cfg: "sen_cfg ?m = c" and len: "length (sen_samples ?m) = sc_sample_count c" by (simp_all add: samples_from_def)
  have flag: "sen_sample_temp_ok m = heated_channels_valid c (map (cache_ok ?m now) (sen_samples ?m))"
    and temps: "sn_temps s = map cached_value (sen_samples ?m)"
    using assms by (auto simp: read_snapshot_def read_cached_def Let_def cfg split: prod.splits)
  have ok: "cache_ok ?m now (sen_samples ?m ! i) \<longleftrightarrow>
      (\<exists>t r. last_card evs = Some (t, Inr r) \<and> 0 \<le> whole_ms (now - t) \<and> whole_ms (now - t) < stale_after_ms (sc_hw c) \<and>
         i < 8 \<and> rd_valid r ! i)" if "i < sc_sample_count c" for i
  proof -
    have "sample_from (last_card evs) i (sen_samples ?m ! i)" using inv that by (simp add: samples_from_def)
    then show ?thesis
      by (cases "last_card evs" rule: last_card_cases)
        (auto simp: sample_from_def cache_ok_def sample_fresh_def age_fresh_def cache_age_def age_ms_def fresh_value_def cfg
          split: if_splits)
  qed
  have read: "sn_temps s ! ch = rd_temperature r ! ch"
    if "last_card evs = Some (t, Inr r)" "ch < sc_sample_count c" "ch < 8" "rd_valid r ! ch" for t r ch
  proof -
    have "sample_from (last_card evs) ch (sen_samples ?m ! ch)" using inv that(2) by (simp add: samples_from_def)
    with that len show ?thesis by (simp add: temps sample_from_def cached_value_def fresh_value_def)
  qed
  have gate: "sen_sample_temp_ok m \<longleftrightarrow> sc_heated c \<noteq> [] \<and>
      (\<forall>ch \<in> set (sc_heated c). ch < sc_sample_count c \<and> cache_ok ?m now (sen_samples ?m ! ch))"
    by (auto simp: flag heated_channels_valid_def list_all_iff len)
  have "sen_sample_temp_ok m \<longleftrightarrow>
      sc_heated c \<noteq> [] \<and>
      (\<exists>t r. last_card evs = Some (t, Inr r) \<and>
         0 \<le> whole_ms (now - t) \<and> whole_ms (now - t) < stale_after_ms (sc_hw c) \<and>
         (\<forall>ch \<in> set (sc_heated c). ch < sc_sample_count c \<and> ch < 8 \<and> rd_valid r ! ch))"
  proof -
    have "ch < sc_sample_count c \<and> cache_ok ?m now (sen_samples ?m ! ch) \<longleftrightarrow>
        (\<exists>t r. last_card evs = Some (t, Inr r) \<and> 0 \<le> whole_ms (now - t) \<and> whole_ms (now - t) < stale_after_ms (sc_hw c) \<and>
          ch < sc_sample_count c \<and> ch < 8 \<and> rd_valid r ! ch)" for ch
      using ok [of ch] by blast
    then show ?thesis unfolding gate by (cases "sc_heated c"; cases "last_card evs" rule: last_card_cases) auto
  qed
  with read show ?thesis by blast
qed

text \<open>A bench: the card of the adapter's bench, no other device, six heaters on the first six samples.\<close>

definition bench_io :: "unit sensor_io" where
  "bench_io =
     \<lparr>io_rtd = bench_bus, io_click1 = \<lparr>click_open = (\<lambda>dev m hz cs w. (False, w)), click_transfer = (\<lambda>tx w. (None, w)), click_available = True\<rparr>,
      io_click2 = \<lparr>click_open = (\<lambda>dev m hz cs w. (False, w)), click_transfer = (\<lambda>tx w. (None, w)), click_available = True\<rparr>,
      dev_open = (\<lambda>addr w. (False, w)), dev_write = (\<lambda>addr bs w. (False, w)), dev_read = (\<lambda>addr n w. (None, w))\<rparr>"

definition bench_sensors :: sensor_config where
  "bench_sensors =
     \<lparr>sc_hw = sensor_hw_default, sc_range = sensor_range_default, sc_sample_count = 8, sc_heated = [0, 1, 2, 3, 4, 5],
      sc_floor_c = Fin 5, sc_simulated_sensors = False\<rparr>"

theorem heated_channels_gate_exact_witness:
  "sen_sample_temp_ok (snd (read_snapshot None None 1000000000 Boot [] (Fin 1)
     (sensor_run [CardPolled 0 (Inr ice_reading)] (new_sensor_manager bench_io bench_sensors)))) \<and>
   \<not> sen_sample_temp_ok (snd (read_snapshot None None 1000000000 Boot [] (Fin 1)
     (sensor_run [CardPolled 0 (Inr ice_reading), CardPolled 5 (Inl ''BUS_OPEN_FAILED'')] (new_sensor_manager bench_io bench_sensors))))"
proof -
  have sim: "\<not> sc_simulated_sensors bench_sensors" by (simp add: bench_sensors_def)
  have valid: "rd_valid ice_reading = replicate 8 True" by (simp add: ice_reading_def)
  have gate: "sen_sample_temp_ok (snd (read_snapshot None None 1000000000 Boot [] (Fin 1)
        (sensor_run evs (new_sensor_manager bench_io bench_sensors)))) \<longleftrightarrow>
      (\<exists>t r. last_card evs = Some (t, Inr r) \<and> 0 \<le> whole_ms (1000000000 - t) \<and> whole_ms (1000000000 - t) < 3000 \<and>
         (\<forall>ch \<in> {0, 1, 2, 3, 4, 5}. rd_valid r ! ch))" for evs
    using heated_channels_gate_exact [OF sim surjective_pairing, of None None 1000000000 Boot "[]" "Fin 1" evs bench_io]
    by (simp add: bench_sensors_def sensor_hw_default_def)
  show ?thesis by (simp add: gate last_card_def valid whole_ms_def)
qed

subsection \<open>The resistances\<close>

text \<open>What a click last measured: the value of its last conversation that succeeded, zero when that one was out of range.\<close>

definition last_ohm :: "nat \<Rightarrow> sensor_event list \<Rightarrow> dbl" where
  "last_ohm k evs =
     fold (\<lambda>e v. case e of
         ClicksPolled t r1 r2 \<Rightarrow>
           (case (if k = 0 then r1 else r2) of Inr r \<Rightarrow> if cr_valid r then cr_ohm r else Fin 0 | Inl _ \<Rightarrow> v)
       | _ \<Rightarrow> v) evs (Fin 0)"

definition clicks_answer :: "sensor_event list \<Rightarrow> bool" where
  "clicks_answer evs = fold (\<lambda>e b. case e of ClicksConversed ok \<Rightarrow> ok | _ \<Rightarrow> b) evs False"

definition ohms_from :: "sensor_config \<Rightarrow> nat \<Rightarrow> nat \<Rightarrow> sensor_event list \<Rightarrow> sensor_manager \<Rightarrow> bool" where
  "ohms_from c a b evs m \<longleftrightarrow>
     sen_cfg m = c \<and> sen_clicks_bus_ok m = clicks_answer evs \<and>
     sen_resistance m = (replicate (sc_sample_count c) (Fin 0))[a := last_ohm 0 evs, b := last_ohm 1 evs]"

lemma keeps_resistance [simp]:
  "sen_resistance (dps_publish now res m) = sen_resistance m" "sen_clicks_bus_ok (dps_publish now res m) = sen_clicks_bus_ok m"
  "sen_resistance (ads_publish now res2 m) = sen_resistance m" "sen_clicks_bus_ok (ads_publish now res2 m) = sen_clicks_bus_ok m"
  "sen_resistance (update_click_health now i r m) = sen_resistance m"
  "sen_clicks_bus_ok (update_click_health now i r m) = sen_clicks_bus_ok m"
  "sen_clicks_bus_ok (store_click i r m) = sen_clicks_bus_ok m"
  "sen_clicks_bus_ok (note_pull_completed k m) = sen_clicks_bus_ok m"
  "sen_clicks_bus_ok (rtd_publish now r2 m) = sen_clicks_bus_ok m"
  by (auto simp: dps_publish_def ads_publish_def update_click_health_def store_click_def note_pull_completed_def
      rtd_publish_def lose_card_def store_reading_def Let_def
      split: option.splits prod.splits sum.splits)

lemma click_source_owns:
  assumes "resistance_source (sc_hw (sen_cfg m)) = ''max31865_click''"
  shows "sen_resistance (rtd_publish now res m) = sen_resistance m" "note_pull_completed k m = m"
  using assms
  by (auto simp: rtd_publish_def lose_card_def store_reading_def note_pull_completed_def Let_def split: sum.splits prod.splits)

lemma ohms_from_step:
  assumes "ohms_from c a b evs m" "resistance_source (sc_hw c) = ''max31865_click''"
    and "max31865_sample_indices (sc_hw c) = [a, b]" "a \<noteq> b" "a < sc_sample_count c" "b < sc_sample_count c"
  shows "ohms_from c a b (evs @ [e]) (sensor_step e m)"
proof (cases e)
  case (ClicksPolled now r1 r2)
  have swap: "xs[b := u, a := v] = xs[a := v, b := u]" for xs :: "dbl list" and u v using assms(4) by (rule list_update_swap [symmetric])
  show ?thesis using assms
    by (cases r1; cases r2)
      (simp_all add: ClicksPolled ohms_from_def clicks_publish_def store_click_def Let_def last_ohm_def clicks_answer_def swap)
qed (use assms in \<open>simp_all add: ohms_from_def last_ohm_def clicks_answer_def click_source_owns rtd_publish_samples
    set_rtd_bus_def set_clicks_bus_def\<close>)

lemma ohms_from_run:
  assumes "resistance_source (sc_hw c) = ''max31865_click''" "max31865_sample_indices (sc_hw c) = [a, b]" "a \<noteq> b"
    "a < sc_sample_count c" "b < sc_sample_count c"
  shows "ohms_from c a b evs (sensor_run evs (new_sensor_manager io c))"
proof (induction evs rule: rev_induct)
  case Nil
  have "(replicate n (Fin 0))[k := Fin 0] = replicate n (Fin 0)" if "k < n" for k n
    using that list_update_id [of "replicate n (Fin 0)" k] by simp
  with assms show ?case
    by (simp add: ohms_from_def sensor_run_def new_sensor_manager_def Let_def last_ohm_def clicks_answer_def)
next
  case (snoc e evs)
  from ohms_from_step [OF this assms, of e] show ?case by (simp add: sensor_run_def)
qed



end
