(* ===== verification/HeaterLimit.thy ===== *)
theory HeaterLimit
  imports SystemRuns
begin

text \<open>
  The power rule over the whole program: between two heater halves of the control loop at most as many heater lines are
  driven as the configuration allows, whatever is requested and whatever commands, motors and failing lines do in between.
\<close>

subsection \<open>What the scheduler grants\<close>

text \<open>A duty between 0 and 1, or no number.\<close>

definition unit_or_NaN :: "dbl \<Rightarrow> bool" where
  "unit_or_NaN d \<longleftrightarrow> d = NaN \<or> in_unit d"

lemma unit_or_NaN_clamp: "unit_or_NaN (std_clamp v 0 1)"
  using in_unit_clamp [of v] by (cases "v = NaN") (simp_all add: unit_or_NaN_def std_clamp_def zero_one_dbl dbl_order_defs)

lemma unit_or_NaN_zero: "unit_or_NaN 0"
  by (simp add: unit_or_NaN_def)

lemma active_scaled:
  assumes "list_all unit_or_NaN ds" "Fin 0 \<le> k" "k \<noteq> PInf"
  shows "active_heaters (map (\<lambda>d. d * k) ds) \<le> active_heaters ds"
proof -
  obtain q where k: "k = Fin q" "0 \<le> q" using assms(2,3) by (cases k) (auto simp: dbl_order_defs)
  have "0 < d" if "unit_or_NaN d" "0 < d * k" for d
  proof (rule ccontr)
    assume "\<not> 0 < d"
    with that(1) have "d = Fin 0 \<or> d = NaN" by (cases d) (auto simp: unit_or_NaN_def in_unit_iff zero_one_dbl)
    then show False using that(2) by (auto simp: k times_dbl_def zero_one_dbl dbl_order_defs)
  qed
  then show ?thesis using assms(1)
    by (induction ds) (auto simp: active_heaters_def)
qed

lemma limit_active:
  assumes "list_all unit_or_NaN ds" "Fin 0 \<le> max_thermal_w pw"
  shows "active_heaters (fst (limit_power pw ds)) \<le> active_heaters ds"
proof (cases "max_thermal_w pw < thermal_power pw ds")
  case True
  then have "Fin 0 \<le> max_thermal_w pw / thermal_power pw ds \<and> max_thermal_w pw / thermal_power pw ds \<noteq> PInf"
    using in_unit_iff dbl_div_unit [OF assms(2) True] by auto
  then show ?thesis using assms(1) by (simp add: limit_power_def Let_def active_scaled)
qed (simp add: limit_power_def Let_def)

lemma grant_unit_or_NaN:
  assumes "list_all unit_or_NaN sch" "list_all unit_or_NaN cl" "\<forall>x \<in> set rk. fst x < length cl"
  shows "list_all unit_or_NaN (grant_duties m cl rk e sch)"
  using assms
proof (induction m cl rk e sch rule: grant_duties.induct)
  case (2 m cl x rk e sch)
  have "list_all unit_or_NaN (sch[fst x := cl ! fst x])"
    using 2 by (auto simp: list_all_iff dest!: set_update_subset_insert [THEN subsetD])
  with 2 show ?case by auto
qed simp

lemma hs_schedule_active:
  assumes "Fin 0 \<le> max_thermal_w (hs_power s)"
  shows "active_heaters (fst (hs_schedule lock requested dep dt s)) \<le> max_active_heaters (hs_power s)"
proof -
  let ?cl = "map (\<lambda>v. std_clamp v 0 1) requested"
  let ?off = "replicate (length requested) (0::dbl)"
  define g where "g = grant_duties (max_active_heaters (hs_power s)) ?cl
    (heater_ranking (hs_electronics_index s) dep ?cl) 0 ?off"
  have "list_all unit_or_NaN g" unfolding g_def
    by (rule grant_unit_or_NaN) (auto simp: list_all_iff unit_or_NaN_clamp unit_or_NaN_zero dest!: heater_ranking_index)
  moreover have "active_heaters g \<le> max_active_heaters (hs_power s)" unfolding g_def
    by (rule grant_active) simp_all
  ultimately have "active_heaters (fst (limit_power (hs_power s) g)) \<le> max_active_heaters (hs_power s)"
    using limit_active [of g "hs_power s"] assms by linarith
  then show ?thesis
    by (simp add: hs_schedule_def Let_def split_beta flip: g_def)
qed

lemma length_hs_schedule: "length (fst (hs_schedule lock requested dep dt s)) = length requested"
  by (simp add: hs_schedule_def limit_power_def Let_def split_beta)

subsection \<open>The lines that are driven\<close>

definition lines_on :: "nat \<Rightarrow> nat \<Rightarrow> pwm_bank \<Rightarrow> nat set" where
  "lines_on slices k b = {i. pwm_channel_healthy i b \<and> slice_on slices k (pwm_duty b ! i)}"

lemma slice_on_positive:
  assumes "slice_on slices k (std_clamp d 0 1)"
  shows "0 < d"
proof (rule ccontr)
  assume "\<not> 0 < d"
  then have "std_clamp d 0 1 = 0 \<or> std_clamp d 0 1 = NaN"
    by (cases d) (auto simp: std_clamp_def zero_one_dbl dbl_order_defs)
  moreover have "\<not> slice_on slices k NaN"
    by (cases "dbl_of_int (int k)") (simp_all add: slice_on_def times_dbl_def dbl_order_defs)
  ultimately show False using assms zero_duty_off by auto
qed

lemma lines_on_finite [simp]: "finite (lines_on slices k b)"
  by (rule finite_subset [of _ "{..<length (pwm_lines b)}"]) (auto simp: lines_on_def pwm_channel_healthy_def)

lemma lines_on_dark: "heaters_dark s \<Longrightarrow> lines_on slices k (sys_pwm s) = {}"
  by (auto simp: lines_on_def heaters_dark_def zero_duty_off)

lemma lines_on_fewer:
  assumes "pwm_duty b' = pwm_duty b" "\<And>i. pwm_channel_healthy i b' \<Longrightarrow> pwm_channel_healthy i b"
  shows "card (lines_on slices k b') \<le> card (lines_on slices k b)"
proof (rule card_mono [OF lines_on_finite])
  show "lines_on slices k b' \<subseteq> lines_on slices k b" using assms by (auto simp: lines_on_def)
qed

lemma lines_on_set_duties:
  assumes "length (pwm_lines (sys_pwm s)) \<le> length ds" "length (pwm_lines (sys_pwm s)) \<le> length (pwm_duty (sys_pwm s))"
  shows "card (lines_on slices k (sys_pwm (set_duties ds s))) \<le> active_heaters ds"
proof -
  have "lines_on slices k (sys_pwm (set_duties ds s)) \<subseteq> {i. i < length ds \<and> 0 < ds ! i}"
    using assms by (auto simp: lines_on_def set_duties_def fold_duties pwm_channel_healthy_def dest: slice_on_positive)
  then have "card (lines_on slices k (sys_pwm (set_duties ds s))) \<le> card {i. i < length ds \<and> 0 < ds ! i}"
    by (rule card_mono [rotated]) simp
  then show ?thesis by (simp add: active_heaters_def length_filter_conv_card)
qed

subsection \<open>Runs\<close>

lemma step_ok_power: "step_ok P s s' \<Longrightarrow> flight_config s \<Longrightarrow> hs_power (sys_scheduler s') = hs_power (sys_scheduler s)"
  by (simp add: step_ok_def)

lemma step_ok_lines:
  assumes "step_ok P s s'" "flight_config s"
  shows "card (lines_on slices k (sys_pwm s')) \<le> card (lines_on slices k (sys_pwm s))"
  using assms lines_on_dark [of s' slices k] by (auto simp: step_ok_def)

lemma line_step_ok:
  assumes "handle_command_line ops ce l s = Some (reply, s')"
  shows "\<exists>P. step_ok P s s'"
proof (cases "\<exists>c x. run_command ops ce c s = Some (x, s')")
  case True
  then obtain c x where "run_command ops ce c s = Some (x, s')" by blast
  then show ?thesis using outcome_command [of c s ops ce] by (auto simp: outcome_ok_def)
next
  case False
  then have "s' = s"
    using assms by (auto simp: handle_command_line_def gate_command_def refused_def split: sum.splits if_splits)
  then show ?thesis by auto
qed

lemma heaters_half:
  assumes "flight_config s"
  shows "hs_power (sys_scheduler (tick_heaters e s)) = hs_power (sys_scheduler s) \<and>
    (Fin 0 \<le> max_thermal_w (hs_power (sys_scheduler s)) \<longrightarrow>
      card (lines_on slices k (sys_pwm (tick_heaters e s))) \<le> max_active_heaters (hs_power (sys_scheduler s)))"
proof -
  obtain u dt ov where u: "step_ok False s u" and t: "tick_control e s = tick_heat e dt ov u"
    using tick_control_writes by metis
  have fu: "flight_config u" and pw: "hs_power (sys_scheduler u) = hs_power (sys_scheduler s)"
    using u assms by (simp_all add: step_ok_def)
  then obtain requested dep sch where len: "length requested = heaters_of u" and sch: "hs_power sch = hs_power (sys_scheduler u)"
    and d: "fst (fst (tick_heat e dt ov u)) = fst (hs_schedule (active_lock u) requested dep dt sch)"
    using tick_heat_scheduled [of u e dt ov] by (auto simp: flight_config_def)
  define v where "v = snd (tick_heat e dt ov u)"
  define ds where "ds = fst (fst (tick_heat e dt ov u))"
  have eq: "tick_heaters e s = set_duties ds v"
    by (simp add: tick_heaters_def t split_beta ds_def v_def)
  have "length ds = heaters_of u" by (simp add: ds_def d len length_hs_schedule)
  then have "card (lines_on slices k (sys_pwm (set_duties ds v))) \<le> active_heaters ds"
    using fu by (intro lines_on_set_duties) (simp_all add: v_def flight_config_def)
  moreover have "active_heaters ds \<le> max_active_heaters (hs_power sch)" if "Fin 0 \<le> max_thermal_w (hs_power sch)"
    using hs_schedule_active [OF that] by (simp add: ds_def d)
  moreover have "hs_power (sys_scheduler (set_duties ds v)) = hs_power (sys_scheduler u)"
    by (simp add: set_duties_def v_def)
  ultimately show ?thesis by (auto simp: eq pw sch)
qed

text \<open>A step after which no lost heater line has come back.\<close>

definition no_line_back :: "'d driver_ops \<Rightarrow> 'd system \<Rightarrow> 'd system \<Rightarrow> bool" where
  "no_line_back ops s s' \<longleftrightarrow>
     sys_step ops s s' \<and> (\<forall>i. pwm_channel_healthy i (sys_pwm s') \<longrightarrow> pwm_channel_healthy i (sys_pwm s))"

lemma end_power: "hs_power (sys_scheduler (snd (tick_end ops e report s))) = hs_power (sys_scheduler s)"
proof -
  have "sys_scheduler (snd (detect_pulls ts i sts u)) = sys_scheduler u" for ts i sts and u :: "'a system"
  proof (induction ts i sts u rule: detect_pulls.induct)
    case (2 ts i st sts s)
    have "sys_scheduler (snd (detect_pull ts i st s)) = sys_scheduler s"
      by (simp add: detect_pull_def set_pull_state_def Let_def)
    with 2 show ?case by (cases "detect_pull ts i st s") (simp add: split_beta)
  qed simp
  then show ?thesis by (simp add: tick_end_def tick_pulls_def resize_pulls_def split_beta Let_def)
qed

lemma step_limits:
  assumes "sys_step ops s s'" "interlocked s"
  shows "hs_power (sys_scheduler s') = hs_power (sys_scheduler s) \<and>
    (Fin 0 \<le> max_thermal_w (hs_power (sys_scheduler s)) \<longrightarrow>
     (\<forall>i. pwm_channel_healthy i (sys_pwm s') \<longrightarrow> pwm_channel_healthy i (sys_pwm s)) \<longrightarrow>
     card (lines_on slices k (sys_pwm s)) \<le> max_active_heaters (hs_power (sys_scheduler s)) \<longrightarrow>
     card (lines_on slices k (sys_pwm s')) \<le> max_active_heaters (hs_power (sys_scheduler s)))"
proof -
  have fc: "flight_config s" using assms(2) by (simp add: interlocked_def)
  have ok: ?thesis if "step_ok P s s'" for P
    using step_ok_power [OF that fc] step_ok_lines [OF that fc, of slices k] by auto
  from assms(1) show ?thesis
  proof cases
    case (Heaters e)
    then show ?thesis using heaters_half [OF fc, of e slices k] by simp
  next
    case (Ending e report)
    have "sys_pwm (snd (tick_end ops e report s)) = sys_pwm s"
      by (simp add: tick_end_def tick_pulls_def resize_pulls_def split_beta detect_pulls_frame Let_def)
    then show ?thesis using Ending end_power [where ops = ops and e = e and report = report and s = s] by simp
  next
    case (Command_Line ce l reply)
    then show ?thesis using ok line_step_ok by blast
  next
    case (Line_Write wr i)
    have "card (lines_on slices k (snd (pwm_write_line wr i (sys_pwm s)))) \<le> card (lines_on slices k (sys_pwm s))"
      by (rule lines_on_fewer)
        (auto simp: pwm_write_line_def pwm_channel_healthy_def nth_list_update split: if_splits)
    then show ?thesis using Line_Write by auto
  next
    case (Line_Retry granted)
    have "card (lines_on slices k (sys_pwm s')) \<le> card (lines_on slices k (sys_pwm s))"
      if "\<forall>i. pwm_channel_healthy i (sys_pwm s') \<longrightarrow> pwm_channel_healthy i (sys_pwm s)"
      using that Line_Retry by (intro lines_on_fewer) (auto simp: pwm_retry_missing_def Let_def)
    then show ?thesis using Line_Retry by auto
  next
    case (Motors e dt)
    show ?thesis by (rule ok [of True]) (simp only: Motors step_ok_tick_motors)
  next
    case (Pulse m dt)
    show ?thesis by (rule ok [of True]) (simp only: Pulse step_ok_calls)
  qed
qed

lemma run_limits:
  assumes "(no_line_back ops)\<^sup>*\<^sup>* s s'" "interlocked s" "Fin 0 \<le> max_thermal_w (hs_power (sys_scheduler s))"
    "card (lines_on slices k (sys_pwm s)) \<le> max_active_heaters (hs_power (sys_scheduler s))"
  shows "interlocked s' \<and> hs_power (sys_scheduler s') = hs_power (sys_scheduler s) \<and>
    card (lines_on slices k (sys_pwm s')) \<le> max_active_heaters (hs_power (sys_scheduler s))"
  using assms(1)
proof (induction rule: rtranclp_induct)
  case (step u v)
  then show ?case
    using step_limits [of ops u v slices k] interlocked_step [of ops u v] assms(3) by (auto simp: no_line_back_def)
qed (use assms in simp)

lemma power_kept:
  assumes "(sys_step ops)\<^sup>*\<^sup>* s s'" "interlocked s"
  shows "interlocked s' \<and> hs_power (sys_scheduler s') = hs_power (sys_scheduler s)"
  using assms(1)
proof (induction rule: rtranclp_induct)
  case (step u v)
  then show ?case using step_limits [of ops u v] interlocked_step [of ops u v] by auto
qed (use assms in simp)

text \<open>After a heater half of any run, as long as no lost line comes back.\<close>

lemma driven_lines_limited:
  assumes "interlocked s0" "Fin 0 \<le> max_thermal_w (hs_power (sys_scheduler s0))"
    and "(sys_step ops)\<^sup>*\<^sup>* s0 s" "(no_line_back ops)\<^sup>*\<^sup>* (tick_heaters e s) s'"
  shows "card (lines_on slices k (sys_pwm s')) \<le> max_active_heaters (hs_power (sys_scheduler s0))"
proof -
  have s: "interlocked s" "hs_power (sys_scheduler s) = hs_power (sys_scheduler s0)"
    using power_kept [OF assms(3,1)] by simp_all
  then have fc: "flight_config s" by (simp add: interlocked_def)
  from heaters_half [OF this, of e slices k] s(2) assms(2) show ?thesis
    using run_limits [OF assms(4) interlocked_heaters [OF s(1)], of slices k] by simp
qed

end
