(* ===== verification/ConfigLoader.thy ===== *)
theory ConfigLoader
  imports SystemState SensorManager
begin

text \<open>
  The configuration file (\<^verbatim>\<open>config.cpp\<close>): the whole configuration with its defaults, the numbers and lists of
  an INI value, the keys and what each sets, the specimen lists and the maps derived from them, and the loop over the
  lines.  A section the other components read in part extends their record by the rest of its fields.  A loader ends
  with the message of the first error or with the configuration.
\<close>

subsection \<open>The whole configuration\<close>

record runtime_section = runtime_config +
  use_simulated_pwm :: bool
  use_simulated_sensors :: bool
  rt_gpio_chip :: string

record comms_config =
  telemetry_host :: string
  static_ground_ip :: string
  static_pi_ip :: string
  telemetry_port :: int
  command_port :: int
  reconnect_ms :: int
  discovery_enabled :: bool
  discovery_port :: int
  discovery_period_ms :: int
  rediscover_period_s :: int
  failover_grace_s :: int
  comms_priority :: int

record storage_config =
  primary_log_path :: string
  secondary_log_path :: string
  st_queue_dir :: string
  queue_retention_hours :: dbl
  queue_max_bytes :: nat

record sensor_section = sensor_hw_config +
  dps310_poll_ms :: int
  ads1115_poll_ms :: int
  sequent_rtd_poll_ms :: int
  pressure_source :: string
  uv_source :: string
  max31865_poll_ms :: int

record hal_config =
  status_led_enabled :: bool
  mode_led_enabled :: bool
  status_led_line :: nat
  mode_led_line :: nat

record motion_section = motion_config +
  stall_min_step_hz :: dbl
  stall_confirm_samples :: int

record specimen_config =
  sp_channel :: nat
  sp_heater :: "nat option"

record motor_section = motor_config +
  mc_driver :: string
  mc_gpio_chip :: string
  mc_spi_device :: string
  mc_cs_line :: nat
  mc_enable_line :: nat
  mc_invert_direction :: bool
  mc_enable_active_low :: bool
  mc_run_current :: dbl
  mc_hold_frac :: dbl
  mc_stealth_chop :: bool
  mc_spi_speed :: "32 word"
  mc_sense_ohm :: dbl
  mc_stall_detect :: string
  mc_sgt :: int
  mc_sg_min :: int
  mc_specimens :: "specimen_config list"

record ini_config =
  ic_runtime :: runtime_section
  ic_manual :: manual_config
  ic_fallback :: fallback_config
  ic_comms :: comms_config
  ic_storage :: storage_config
  ic_phase :: phase_config
  ic_transition :: transition_config
  ic_power :: power_config
  ic_pid :: pid_gains
  ic_hardware :: hardware_config
  ic_sensors :: sensor_section
  ic_heaters :: heater_output_config
  ic_safety :: heater_safety_config
  ic_range :: sensor_range_config
  ic_hal :: hal_config
  ic_stepper :: motion_section
  ic_pull :: pull_config
  ic_motors :: "motor_section list"

definition motor_section_default :: motor_section where
  "motor_section_default =
     \<lparr>motor_accel = Fin 0, motor_retry_ms = 2000, motor_samples = [], mc_driver = ''tmc5160'',
      mc_gpio_chip = ''/dev/gpiochip0'', mc_spi_device = ''/dev/spidev0.0'', mc_cs_line = 22, mc_enable_line = 20,
      mc_invert_direction = False, mc_enable_active_low = True, mc_run_current = to_dbl (8 / 10),
      mc_hold_frac = to_dbl (3 / 10), mc_stealth_chop = False, mc_spi_speed = 1000000, mc_sense_ohm = to_dbl (75 / 1000),
      mc_stall_detect = ''monitor'', mc_sgt = 0, mc_sg_min = 0, mc_specimens = []\<rparr>"

definition comms_default :: comms_config where
  "comms_default =
     \<lparr>telemetry_host = [], static_ground_ip = [], static_pi_ip = ''169.254.10.10'', telemetry_port = 4000,
      command_port = 5000, reconnect_ms = 2000, discovery_enabled = True, discovery_port = 4100,
      discovery_period_ms = 2000, rediscover_period_s = 30, failover_grace_s = 5, comms_priority = 100\<rparr>"

definition storage_default :: storage_config where
  "storage_default =
     \<lparr>primary_log_path = ''logs/onboard_primary.csv'', secondary_log_path = ''logs/onboard_usb_mirror.csv'',
      st_queue_dir = ''logs/telemetry-queue'', queue_retention_hours = Fin 72, queue_max_bytes = 8589934592\<rparr>"

definition runtime_section_default :: runtime_section where
  "runtime_section_default =
     \<lparr>bench_mode = False, debug_arm_code = ''COATHEAL_DEBUG'', tick_hz = Fin 1, use_simulated_pwm = False,
      use_simulated_sensors = False, rt_gpio_chip = ''/dev/gpiochip0''\<rparr>"

definition sensor_section_default :: sensor_section where
  "sensor_section_default =
     sensor_hw_config.extend (sensor_hw_default\<lparr>sensor_hw_config.sequent_rtd_channels := [1, 2, 3, 4, 5, 6, 7, 8]\<rparr>)
       (sensor_section.fields 1000 1000 1000 ''dps310'' ''guva_s12sd_ads1115'' 1000)"

definition motion_section_default :: motion_section where
  "motion_section_default =
     \<lparr>mo_steps_per_rev = 200, mo_default_step_hz = Fin 100, mo_max_position_steps = 200000, mo_enable_on_boot = False,
      mo_lead_mm_per_rev = Fin 1, max_speed_mm_s = Fin (1 / 2), max_direct_usteps = 1000, mo_max_accel = Fin 5000,
      stall_min_step_hz = Fin 50, stall_confirm_samples = 3\<rparr>"

definition ini_default :: ini_config where
  "ini_default =
     \<lparr>ic_runtime = runtime_section_default,
      ic_manual = \<lparr>manual_first = True, link_loss_fallback_enabled = True, link_loss_fallback_s = Fin 10\<rparr>,
      ic_fallback = \<lparr>fb_bend_min_c = Fin (- 40), fb_bend_max_c = Fin 40, fb_bend_deadline_s = Fin 1800, landed_safe = True\<rparr>,
      ic_comms = comms_default, ic_storage = storage_default, ic_phase = phase_default, ic_transition = transition_default,
      ic_power = power_default, ic_pid = pid_default, ic_hardware = hardware_default,
      ic_sensors = sensor_section_default,
      ic_heaters = heater_output_default\<lparr>output_lines := [19, 13, 6, 5, 24, 23], temperature_channels := [0, 1, 2, 3, 4, 5]\<rparr>,
      ic_safety = heater_safety_default, ic_range = sensor_range_default,
      ic_hal = \<lparr>status_led_enabled = False, mode_led_enabled = False, status_led_line = 17, mode_led_line = 27\<rparr>,
      ic_stepper = motion_section_default,
      ic_pull = \<lparr>pull_max_step_hz = Fin 100, pull_accel = Fin 400, pull_microstep = 4, pull_travel = 400, pull_hold = Fin 5\<rparr>,
      ic_motors =
        [motor_section_default\<lparr>mc_cs_line := 22, mc_enable_line := 20, motor_samples := [0, 1, 2, 3]\<rparr>,
         motor_section_default\<lparr>mc_cs_line := 27, mc_enable_line := 21, motor_samples := [4, 5, 6, 7]\<rparr>]\<rparr>"

subsection \<open>Values\<close>

definition trim_value :: "string \<Rightarrow> string" where
  "trim_value s = rev (dropWhile is_space (rev (dropWhile is_space s)))"

definition parse_ini_bool :: "string \<Rightarrow> bool option" where
  "parse_ini_bool s =
     (let v = trim_value s in
      if v \<in> {''1'', ''true'', ''TRUE'', ''on'', ''ON''} then Some True
      else if v \<in> {''0'', ''false'', ''FALSE'', ''off'', ''OFF''} then Some False
      else None)"

text \<open>An integer as \<^verbatim>\<open>operator>>\<close> reads it with \<^verbatim>\<open>setbase(0)\<close>: a leading \<^verbatim>\<open>0x\<close> makes it hexadecimal, a leading
  zero octal; nothing may be left over.  An unsigned number takes a minus sign and wraps.\<close>

definition int_sign :: "string \<Rightarrow> bool \<times> string" where
  "int_sign s =
     (case s of [] \<Rightarrow> (False, []) | c # r \<Rightarrow> if c = CHR ''-'' then (True, r) else if c = CHR ''+'' then (False, r) else (False, s))"

definition int_base :: "string \<Rightarrow> nat \<times> string" where
  "int_base s =
     (case s of
        c # d # r \<Rightarrow> if c = CHR ''0'' \<and> lower_char d = CHR ''x'' then (16, r) else if c = CHR ''0'' then (8, s) else (10, s)
      | _ \<Rightarrow> (10, s))"

definition base_digit :: "nat \<Rightarrow> char \<Rightarrow> bool" where
  "base_digit b c \<longleftrightarrow> is_hex c \<and> hex_val c < b"

definition read_magnitude :: "string \<Rightarrow> nat option" where
  "read_magnitude s =
     (let (b, ds) = int_base s
      in if ds \<noteq> [] \<and> list_all (base_digit b) ds then Some (foldl (\<lambda>a c. b * a + hex_val c) 0 ds) else None)"

definition parse_signed :: "nat \<Rightarrow> string \<Rightarrow> int option" where
  "parse_signed bits s =
     (let (neg, r) = int_sign (trim_value s) in
      case read_magnitude r of
        None \<Rightarrow> None
      | Some n \<Rightarrow>
          (let v = (if neg then - int n else int n)
           in if - (2 ^ (bits - 1)) \<le> v \<and> v < 2 ^ (bits - 1) then Some v else None))"

definition parse_unsigned :: "string \<Rightarrow> nat option" where
  "parse_unsigned s =
     (let (neg, r) = int_sign (trim_value s) in
      case read_magnitude r of
        None \<Rightarrow> None
      | Some n \<Rightarrow> if n < 2 ^ 64 then Some (if neg then (2 ^ 64 - n) mod 2 ^ 64 else n) else None)"

text \<open>A double as \<^verbatim>\<open>operator>>\<close> reads it: decimal only, no infinity and no not-a-number.\<close>

definition parse_number :: "string \<Rightarrow> dbl option" where
  "parse_number s =
     (let (neg, r) = int_sign (trim_value s) in
      case scan_mantissa is_digit r of
        None \<Rightarrow> None
      | Some (ip, fp, n) \<Rightarrow>
          (let (x, m) = scan_exponent (CHR ''e'') (drop n r);
               q = of_nat (digits_value (ip @ fp)) * 10 powi (x - int (length fp));
               d = to_dbl (if neg then - q else q)
           in if n + m = length r \<and> is_finite d then Some d else None))"

fun parse_sizes :: "string list \<Rightarrow> nat list option" where
  "parse_sizes [] = Some []"
| "parse_sizes (item # items) =
     (if trim_value item = [] then None
      else case parse_unsigned (trim_value item) of
        None \<Rightarrow> None
      | Some n \<Rightarrow> map_option (\<lambda>ns. n # ns) (parse_sizes items))"

definition parse_size_list :: "string \<Rightarrow> nat list option" where
  "parse_size_list s = parse_sizes (split_fields (CHR '','') s)"

definition parse_digits :: "string \<Rightarrow> nat option" where
  "parse_digits s = (if s \<noteq> [] \<and> length s \<le> 4 \<and> list_all is_digit s then Some (digits_value s) else None)"

definition parse_specimen :: "string \<Rightarrow> specimen_config option" where
  "parse_specimen item =
     (let entry = map lower_char (trim_value item);
          (terminal, line) = (case split_first (CHR '':'') entry of None \<Rightarrow> (entry, None) | Some (a, b) \<Rightarrow> (a, Some b));
          terminal = trim_value terminal in
      if \<not> starts_with ''ch'' terminal then None
      else
        (case parse_digits (drop 2 terminal) of
           None \<Rightarrow> None
         | Some ch \<Rightarrow>
             (case line of
                None \<Rightarrow> Some \<lparr>sp_channel = ch, sp_heater = None\<rparr>
              | Some l \<Rightarrow>
                  (let l = trim_value l; l = (if starts_with ''bcm'' l then drop 3 l else l)
                   in map_option (\<lambda>n. \<lparr>sp_channel = ch, sp_heater = Some n\<rparr>) (parse_digits l)))))"

fun parse_specimens :: "string list \<Rightarrow> specimen_config list option" where
  "parse_specimens [] = Some []"
| "parse_specimens (item # items) =
     (case parse_specimen item of
        None \<Rightarrow> None
      | Some s \<Rightarrow> map_option (\<lambda>ss. s # ss) (parse_specimens items))"

definition parse_specimen_list :: "string \<Rightarrow> specimen_config list option" where
  "parse_specimen_list s =
     (case parse_specimens (split_fields (CHR '','') s) of None \<Rightarrow> None | Some [] \<Rightarrow> None | Some ss \<Rightarrow> Some ss)"

subsection \<open>Keys\<close>

text \<open>What a key sets, by the kind of its value; the list of a key has the message for a list that does not parse.\<close>

datatype 'c setter =
    SetText "string \<Rightarrow> 'c \<Rightarrow> 'c"
  | SetBool "bool \<Rightarrow> 'c \<Rightarrow> 'c"
  | SetInt "int \<Rightarrow> 'c \<Rightarrow> 'c"
  | SetI64 "int \<Rightarrow> 'c \<Rightarrow> 'c"
  | SetU64 "nat \<Rightarrow> 'c \<Rightarrow> 'c"
  | SetSize "nat \<Rightarrow> 'c \<Rightarrow> 'c"
  | SetDouble "dbl \<Rightarrow> 'c \<Rightarrow> 'c"
  | SetSizes "nat \<Rightarrow> string" "nat list \<Rightarrow> 'c \<Rightarrow> 'c"

definition parsed :: "'a option \<Rightarrow> ('a \<Rightarrow> 'c \<Rightarrow> 'c) \<Rightarrow> 'c \<Rightarrow> string \<Rightarrow> string + 'c" where
  "parsed v f c message = (case v of None \<Rightarrow> Inl message | Some v \<Rightarrow> Inr (f v c))"

fun apply_setter :: "'c setter \<Rightarrow> string \<Rightarrow> string \<Rightarrow> nat \<Rightarrow> 'c \<Rightarrow> string + 'c" where
  "apply_setter (SetText f) key v n c = Inr (f v c)"
| "apply_setter (SetBool f) key v n c =
     parsed (parse_ini_bool v) f c (''invalid bool value for '' @ key @ '' at line '' @ show_nat n)"
| "apply_setter (SetInt f) key v n c =
     parsed (parse_signed 32 v) f c (''invalid integer value for '' @ key @ '' at line '' @ show_nat n)"
| "apply_setter (SetI64 f) key v n c =
     parsed (parse_signed 64 v) f c (''invalid int64 value for '' @ key @ '' at line '' @ show_nat n)"
| "apply_setter (SetU64 f) key v n c =
     parsed (parse_unsigned v) f c (''invalid uint64 value for '' @ key @ '' at line '' @ show_nat n)"
| "apply_setter (SetSize f) key v n c =
     parsed (parse_unsigned v) f c (''invalid size_t value for '' @ key @ '' at line '' @ show_nat n)"
| "apply_setter (SetDouble f) key v n c =
     parsed (parse_number v) f c (''invalid numeric value for '' @ key @ '' at line '' @ show_nat n)"
| "apply_setter (SetSizes m f) key v n c = parsed (parse_size_list v) f c (m n)"

definition runtime_keys :: "(string \<times> ini_config setter) list" where
  "runtime_keys =
     [(''runtime.tick_hz'', SetDouble (\<lambda>v. ic_runtime_update (tick_hz_update (\<lambda>_. v)))),
      (''runtime.bench_mode'', SetBool (\<lambda>v. ic_runtime_update (bench_mode_update (\<lambda>_. v)))),
      (''runtime.debug_arm_code'', SetText (\<lambda>v. ic_runtime_update (debug_arm_code_update (\<lambda>_. v)))),
      (''runtime.use_simulated_pwm'', SetBool (\<lambda>v. ic_runtime_update (use_simulated_pwm_update (\<lambda>_. v)))),
      (''runtime.use_simulated_sensors'', SetBool (\<lambda>v. ic_runtime_update (use_simulated_sensors_update (\<lambda>_. v)))),
      (''runtime.gpio_chip'', SetText (\<lambda>v. ic_runtime_update (rt_gpio_chip_update (\<lambda>_. v)))),
      (''manual.manual_first'', SetBool (\<lambda>v. ic_manual_update (manual_first_update (\<lambda>_. v)))),
      (''manual.link_loss_fallback_enabled'', SetBool (\<lambda>v. ic_manual_update (link_loss_fallback_enabled_update (\<lambda>_. v)))),
      (''manual.link_loss_fallback_s'', SetDouble (\<lambda>v. ic_manual_update (link_loss_fallback_s_update (\<lambda>_. v)))),
      (''fallback.bend_min_c'', SetDouble (\<lambda>v. ic_fallback_update (fb_bend_min_c_update (\<lambda>_. v)))),
      (''fallback.bend_max_c'', SetDouble (\<lambda>v. ic_fallback_update (fb_bend_max_c_update (\<lambda>_. v)))),
      (''fallback.bend_deadline_s'', SetDouble (\<lambda>v. ic_fallback_update (fb_bend_deadline_s_update (\<lambda>_. v)))),
      (''fallback.landed_safe'', SetBool (\<lambda>v. ic_fallback_update (landed_safe_update (\<lambda>_. v))))]"

definition comms_keys :: "(string \<times> ini_config setter) list" where
  "comms_keys =
     [(''comms.telemetry_host'', SetText (\<lambda>v. ic_comms_update (telemetry_host_update (\<lambda>_. v)))),
      (''comms.static_ground_ip'', SetText (\<lambda>v. ic_comms_update (static_ground_ip_update (\<lambda>_. v)))),
      (''comms.static_pi_ip'', SetText (\<lambda>v. ic_comms_update (static_pi_ip_update (\<lambda>_. v)))),
      (''comms.telemetry_port'', SetInt (\<lambda>v. ic_comms_update (telemetry_port_update (\<lambda>_. v)))),
      (''comms.command_port'', SetInt (\<lambda>v. ic_comms_update (command_port_update (\<lambda>_. v)))),
      (''comms.reconnect_ms'', SetInt (\<lambda>v. ic_comms_update (reconnect_ms_update (\<lambda>_. v)))),
      (''comms.discovery_enabled'', SetBool (\<lambda>v. ic_comms_update (discovery_enabled_update (\<lambda>_. v)))),
      (''comms.discovery_port'', SetInt (\<lambda>v. ic_comms_update (discovery_port_update (\<lambda>_. v)))),
      (''comms.discovery_period_ms'', SetInt (\<lambda>v. ic_comms_update (discovery_period_ms_update (\<lambda>_. v)))),
      (''comms.rediscover_period_s'', SetInt (\<lambda>v. ic_comms_update (rediscover_period_s_update (\<lambda>_. v)))),
      (''comms.failover_grace_s'', SetInt (\<lambda>v. ic_comms_update (failover_grace_s_update (\<lambda>_. v)))),
      (''comms.priority'', SetInt (\<lambda>v. ic_comms_update (comms_priority_update (\<lambda>_. v)))),
      (''storage.primary_log_path'', SetText (\<lambda>v. ic_storage_update (primary_log_path_update (\<lambda>_. v)))),
      (''storage.secondary_log_path'', SetText (\<lambda>v. ic_storage_update (secondary_log_path_update (\<lambda>_. v)))),
      (''storage.queue_dir'', SetText (\<lambda>v. ic_storage_update (st_queue_dir_update (\<lambda>_. v)))),
      (''storage.queue_retention_hours'', SetDouble (\<lambda>v. ic_storage_update (queue_retention_hours_update (\<lambda>_. v)))),
      (''storage.queue_max_bytes'', SetU64 (\<lambda>v. ic_storage_update (queue_max_bytes_update (\<lambda>_. v))))]"

definition limit_keys :: "(string \<times> ini_config setter) list" where
  "limit_keys =
     [(''phase.sample_floor_c'', SetDouble (\<lambda>v. ic_phase_update (sample_floor_c_update (\<lambda>_. v)))),
      (''phase.uniformity_tolerance_c'', SetDouble (\<lambda>v. ic_phase_update (uniformity_tolerance_c_update (\<lambda>_. v)))),
      (''heater.max_sample_temp_c'', SetDouble (\<lambda>v. ic_safety_update (max_sample_temp_c_update (\<lambda>_. v)))),
      (''heater.target_min_c'', SetDouble (\<lambda>v. ic_safety_update (target_min_c_update (\<lambda>_. v)))),
      (''heater.target_max_c'', SetDouble (\<lambda>v. ic_safety_update (target_max_c_update (\<lambda>_. v)))),
      (''sensor.ambient_temp_min_c'', SetDouble (\<lambda>v. ic_range_update (ambient_temp_min_c_update (\<lambda>_. v)))),
      (''sensor.ambient_temp_max_c'', SetDouble (\<lambda>v. ic_range_update (ambient_temp_max_c_update (\<lambda>_. v)))),
      (''sensor.ambient_pressure_min_mbar'', SetDouble (\<lambda>v. ic_range_update (ambient_pressure_min_mbar_update (\<lambda>_. v)))),
      (''sensor.ambient_pressure_max_mbar'', SetDouble (\<lambda>v. ic_range_update (ambient_pressure_max_mbar_update (\<lambda>_. v)))),
      (''transition.pre_float_mbar'', SetDouble (\<lambda>v. ic_transition_update (pre_float_mbar_update (\<lambda>_. v)))),
      (''transition.ascent_to_float_mbar'', SetDouble (\<lambda>v. ic_transition_update (ascent_to_float_mbar_update (\<lambda>_. v)))),
      (''transition.float_to_descent_mbar'', SetDouble (\<lambda>v. ic_transition_update (float_to_descent_mbar_update (\<lambda>_. v)))),
      (''transition.descent_to_landed_mbar'', SetDouble (\<lambda>v. ic_transition_update (descent_to_landed_mbar_update (\<lambda>_. v)))),
      (''transition.debounce_samples'', SetInt (\<lambda>v. ic_transition_update (debounce_samples_update (\<lambda>_. v)))),
      (''power.max_active_heaters'', SetSize (\<lambda>v. ic_power_update (max_active_heaters_update (\<lambda>_. v)))),
      (''power.max_thermal_w'', SetDouble (\<lambda>v. ic_power_update (max_thermal_w_update (\<lambda>_. v)))),
      (''power.max_system_w'', SetDouble (\<lambda>v. ic_power_update (max_system_w_update (\<lambda>_. v)))),
      (''power.heater_nominal_w'', SetDouble (\<lambda>v. ic_power_update (heater_nominal_w_update (\<lambda>_. v)))),
      (''power.energy_budget_wh'', SetDouble (\<lambda>v. ic_power_update (energy_budget_wh_update (\<lambda>_. v)))),
      (''power.logic_regulator_v'', SetDouble (\<lambda>v. ic_power_update (logic_regulator_v_update (\<lambda>_. v)))),
      (''power.stepper_regulator_v'', SetDouble (\<lambda>v. ic_power_update (stepper_regulator_v_update (\<lambda>_. v)))),
      (''pid.kp'', SetDouble (\<lambda>v. ic_pid_update (kp_update (\<lambda>_. v)))),
      (''pid.ki'', SetDouble (\<lambda>v. ic_pid_update (ki_update (\<lambda>_. v)))),
      (''pid.kd'', SetDouble (\<lambda>v. ic_pid_update (kd_update (\<lambda>_. v)))),
      (''hardware.sample_count'', SetSize (\<lambda>v. ic_hardware_update (sample_count_update (\<lambda>_. v)))),
      (''hardware.heater_count'', SetSize (\<lambda>v. ic_hardware_update (heater_count_update (\<lambda>_. v)))),
      (''hardware.electronics_heater_index'', SetSize (\<lambda>v. ic_hardware_update (electronics_heater_index_update (\<lambda>_. v))))]"

definition sensor_keys :: "(string \<times> ini_config setter) list" where
  "sensor_keys =
     [(''sensor.dps310_enabled'', SetBool (\<lambda>v. ic_sensors_update (dps310_enabled_update (\<lambda>_. v)))),
      (''sensor.ads1115_enabled'', SetBool (\<lambda>v. ic_sensors_update (ads1115_enabled_update (\<lambda>_. v)))),
      (''sensor.dps310_auto_discover'', SetBool (\<lambda>v. ic_sensors_update (dps310_auto_discover_update (\<lambda>_. v)))),
      (''sensor.ads1115_auto_discover'', SetBool (\<lambda>v. ic_sensors_update (ads1115_auto_discover_update (\<lambda>_. v)))),
      (''sensor.dps310_poll_ms'', SetInt (\<lambda>v. ic_sensors_update (dps310_poll_ms_update (\<lambda>_. v)))),
      (''sensor.ads1115_poll_ms'', SetInt (\<lambda>v. ic_sensors_update (ads1115_poll_ms_update (\<lambda>_. v)))),
      (''sensor.stale_after_ms'', SetInt (\<lambda>v. ic_sensors_update (stale_after_ms_update (\<lambda>_. v)))),
      (''sensor.sequent_rtd_stack'', SetInt (\<lambda>v. ic_sensors_update (sequent_rtd_stack_update (\<lambda>_. v)))),
      (''sensor.sequent_rtd_channels'', SetSizes (\<lambda>_. ''invalid sensor.sequent_rtd_channels'') (\<lambda>v. ic_sensors_update (sensor_hw_config.sequent_rtd_channels_update (\<lambda>_. v)))),
      (''sensor.sequent_rtd_poll_ms'', SetInt (\<lambda>v. ic_sensors_update (sequent_rtd_poll_ms_update (\<lambda>_. v)))),
      (''sensor.sequent_rtd_expect_sensor_type'', SetText (\<lambda>v. ic_sensors_update (sequent_rtd_expect_sensor_type_update (\<lambda>_. v)))),
      (''sensor.sequent_rtd_resistance_min_ohm'', SetDouble (\<lambda>v. ic_sensors_update (sequent_rtd_resistance_min_ohm_update (\<lambda>_. v)))),
      (''sensor.sequent_rtd_resistance_max_ohm'', SetDouble (\<lambda>v. ic_sensors_update (sequent_rtd_resistance_max_ohm_update (\<lambda>_. v)))),
      (''sensor.sequent_rtd_crosscheck_tol_c'', SetDouble (\<lambda>v. ic_sensors_update (sequent_rtd_crosscheck_tol_c_update (\<lambda>_. v)))),
      (''sensor.pressure_source'', SetText (\<lambda>v. ic_sensors_update (pressure_source_update (\<lambda>_. v)))),
      (''sensor.dps310_i2c_addr'', SetInt (\<lambda>v. ic_sensors_update (dps310_i2c_addr_update (\<lambda>_. v)))),
      (''sensor.uv_source'', SetText (\<lambda>v. ic_sensors_update (uv_source_update (\<lambda>_. v)))),
      (''sensor.ads1115_i2c_addr'', SetInt (\<lambda>v. ic_sensors_update (ads1115_i2c_addr_update (\<lambda>_. v)))),
      (''sensor.uv_ads1115_channel'', SetInt (\<lambda>v. ic_sensors_update (uv_ads1115_channel_update (\<lambda>_. v)))),
      (''sensor.uv_full_scale_v'', SetDouble (\<lambda>v. ic_sensors_update (uv_full_scale_v_update (\<lambda>_. v)))),
      (''sensor.resistance_source'', SetText (\<lambda>v. ic_sensors_update (resistance_source_update (\<lambda>_. v)))),
      (''sensor.max31865_reference_ohm'', SetDouble (\<lambda>v. ic_sensors_update (max31865_reference_ohm_update (\<lambda>_. v)))),
      (''sensor.max31865_poll_ms'', SetInt (\<lambda>v. ic_sensors_update (max31865_poll_ms_update (\<lambda>_. v)))),
      (''sensor.max31865_sample_indices'', SetSizes (\<lambda>_. ''invalid sensor.max31865_sample_indices'') (\<lambda>v. ic_sensors_update (max31865_sample_indices_update (\<lambda>_. v))))]"

definition heater_keys :: "(string \<times> ini_config setter) list" where
  "heater_keys =
     [(''heater.output_lines'', SetSizes (\<lambda>n. ''invalid GPIO list for heater.output_lines at line '' @ show_nat n) (\<lambda>v. ic_heaters_update (output_lines_update (\<lambda>_. v)))),
      (''heater.temperature_channels'', SetSizes (\<lambda>_. ''invalid heater.temperature_channels'') (\<lambda>v. ic_heaters_update (temperature_channels_update (\<lambda>_. v)))),
      (''heater.pwm_frequency_hz'', SetDouble (\<lambda>v. ic_heaters_update (pwm_frequency_hz_update (\<lambda>_. v)))),
      (''heater.active_high'', SetBool (\<lambda>v. ic_heaters_update (active_high_update (\<lambda>_. v)))),
      (''heater.debug_max_duty'', SetDouble (\<lambda>v. ic_heaters_update (debug_max_duty_update (\<lambda>_. v)))),
      (''heater.debug_max_seconds'', SetDouble (\<lambda>v. ic_heaters_update (debug_max_seconds_update (\<lambda>_. v)))),
      (''heater.max_duty'', SetDouble (\<lambda>v. ic_heaters_update (max_duty_update (\<lambda>_. v)))),
      (''hal.status_led_enabled'', SetBool (\<lambda>v. ic_hal_update (status_led_enabled_update (\<lambda>_. v)))),
      (''hal.mode_led_enabled'', SetBool (\<lambda>v. ic_hal_update (mode_led_enabled_update (\<lambda>_. v)))),
      (''hal.status_led_line'', SetSize (\<lambda>v. ic_hal_update (status_led_line_update (\<lambda>_. v)))),
      (''hal.mode_led_line'', SetSize (\<lambda>v. ic_hal_update (mode_led_line_update (\<lambda>_. v))))]"

definition stepper_keys :: "(string \<times> ini_config setter) list" where
  "stepper_keys =
     [(''stepper.steps_per_rev'', SetInt (\<lambda>v. ic_stepper_update (mo_steps_per_rev_update (\<lambda>_. v)))),
      (''stepper.default_step_hz'', SetDouble (\<lambda>v. ic_stepper_update (mo_default_step_hz_update (\<lambda>_. v)))),
      (''stepper.max_position_steps'', SetI64 (\<lambda>v. ic_stepper_update (mo_max_position_steps_update (\<lambda>_. v)))),
      (''stepper.enable_on_boot'', SetBool (\<lambda>v. ic_stepper_update (mo_enable_on_boot_update (\<lambda>_. v)))),
      (''stepper.lead_mm_per_rev'', SetDouble (\<lambda>v. ic_stepper_update (mo_lead_mm_per_rev_update (\<lambda>_. v)))),
      (''stepper.max_accel_steps_per_s2'', SetDouble (\<lambda>v. ic_stepper_update (mo_max_accel_update (\<lambda>_. v)))),
      (''stepper.max_speed_mm_s'', SetDouble (\<lambda>v. ic_stepper_update (max_speed_mm_s_update (\<lambda>_. v)))),
      (''stepper.max_direct_usteps'', SetI64 (\<lambda>v. ic_stepper_update (max_direct_usteps_update (\<lambda>_. v)))),
      (''stepper.stall_min_step_hz'', SetDouble (\<lambda>v. ic_stepper_update (stall_min_step_hz_update (\<lambda>_. v)))),
      (''stepper.stall_confirm_samples'', SetInt (\<lambda>v. ic_stepper_update (stall_confirm_samples_update (\<lambda>_. v)))),
      (''pull.max_step_hz'', SetDouble (\<lambda>v. ic_pull_update (pull_max_step_hz_update (\<lambda>_. v)))),
      (''pull.accel_steps_per_s2'', SetDouble (\<lambda>v. ic_pull_update (pull_accel_update (\<lambda>_. v)))),
      (''pull.microstep'', SetInt (\<lambda>v. ic_pull_update (pull_microstep_update (\<lambda>_. v)))),
      (''pull.travel_full_steps'', SetInt (\<lambda>v. ic_pull_update (pull_travel_update (\<lambda>_. v)))),
      (''pull.hold_s'', SetDouble (\<lambda>v. ic_pull_update (pull_hold_update (\<lambda>_. v))))]"

definition motor_keys :: "(string \<times> motor_section setter) list" where
  "motor_keys =
     [(''driver'', SetText (\<lambda>v. mc_driver_update (\<lambda>_. v))),
      (''gpio_chip'', SetText (\<lambda>v. mc_gpio_chip_update (\<lambda>_. v))),
      (''spi_device'', SetText (\<lambda>v. mc_spi_device_update (\<lambda>_. v))),
      (''cs_line'', SetSize (\<lambda>v. mc_cs_line_update (\<lambda>_. v))),
      (''enable_line'', SetSize (\<lambda>v. mc_enable_line_update (\<lambda>_. v))),
      (''invert_direction'', SetBool (\<lambda>v. mc_invert_direction_update (\<lambda>_. v))),
      (''enable_active_low'', SetBool (\<lambda>v. mc_enable_active_low_update (\<lambda>_. v))),
      (''run_current_a_rms'', SetDouble (\<lambda>v. mc_run_current_update (\<lambda>_. v))),
      (''hold_current_frac'', SetDouble (\<lambda>v. mc_hold_frac_update (\<lambda>_. v))),
      (''stealth_chop'', SetBool (\<lambda>v. mc_stealth_chop_update (\<lambda>_. v))),
      (''spi_speed_hz'', SetInt (\<lambda>v. mc_spi_speed_update (\<lambda>_. of_int v))),
      (''sense_resistor_ohm'', SetDouble (\<lambda>v. mc_sense_ohm_update (\<lambda>_. v))),
      (''retry_ms'', SetInt (\<lambda>v. motor_retry_ms_update (\<lambda>_. v))),
      (''accel_steps_per_s2'', SetDouble (\<lambda>v. motor_accel_update (\<lambda>_. v))),
      (''stall_detect'', SetText (\<lambda>v. mc_stall_detect_update (\<lambda>_. v))),
      (''stallguard_sgt'', SetInt (\<lambda>v. mc_sgt_update (\<lambda>_. v))),
      (''stall_sg_min'', SetInt (\<lambda>v. mc_sg_min_update (\<lambda>_. v)))]"

definition ini_keys :: "(string \<times> ini_config setter) list" where
  "ini_keys = runtime_keys @ comms_keys @ limit_keys @ sensor_keys @ heater_keys @ stepper_keys"

subsection \<open>The lines\<close>

text \<open>Besides the configuration, which derived maps the file set itself, and which specimen lists it had.\<close>

record ini_loader =
  ld_config :: ini_config
  ld_legacy :: "string list"
  ld_specimens :: "bool list"

definition layout_keys :: "string list" where
  "layout_keys =
     [''heater.output_lines'', ''heater.temperature_channels'', ''sensor.sequent_rtd_channels'',
      ''sensor.max31865_sample_indices'', ''motor0.samples'', ''motor1.samples'']"

definition set_motor :: "nat \<Rightarrow> motor_section \<Rightarrow> ini_loader \<Rightarrow> ini_loader" where
  "set_motor i m s = s\<lparr>ld_config := ic_motors_update (\<lambda>ms. ms[i := m]) (ld_config s)\<rparr>"

definition load_motor_key :: "nat \<Rightarrow> string \<Rightarrow> string \<Rightarrow> string \<Rightarrow> nat \<Rightarrow> ini_loader \<Rightarrow> string + ini_loader" where
  "load_motor_key i suffix key v n s =
     (let m = ic_motors (ld_config s) ! i in
      if suffix = ''samples''
      then parsed (parse_size_list v) (\<lambda>ns. set_motor i (m\<lparr>motor_samples := ns\<rparr>)) s
        (''invalid sample list for '' @ key @ '' at line '' @ show_nat n)
      else if suffix = ''specimens''
      then parsed (parse_specimen_list v) (\<lambda>ss s. (set_motor i (m\<lparr>mc_specimens := ss\<rparr>) s)\<lparr>ld_specimens := (ld_specimens s)[i := True]\<rparr>) s
        (''invalid '' @ key @ '' at line '' @ show_nat n @
         '': entries are a PT100 card terminal and, when heated, the heater's BCM line (ch8:19), or the terminal alone (ch1)'')
      else
        (case map_of motor_keys suffix of
           None \<Rightarrow> Inl (''unknown motor config key at line '' @ show_nat n @ '': '' @ key)
         | Some k \<Rightarrow>
             (case apply_setter k key v n m of Inl e \<Rightarrow> Inl e | Inr m \<Rightarrow> Inr (set_motor i m s))))"

definition load_key :: "string \<Rightarrow> string \<Rightarrow> nat \<Rightarrow> ini_loader \<Rightarrow> string + ini_loader" where
  "load_key key v n s =
     (let s = (if key \<in> set layout_keys then s\<lparr>ld_legacy := ld_legacy s @ [key]\<rparr> else s) in
      case map_of ini_keys key of
        Some k \<Rightarrow>
          (case apply_setter k key v n (ld_config s) of Inl e \<Rightarrow> Inl e | Inr c \<Rightarrow> Inr (s\<lparr>ld_config := c\<rparr>))
      | None \<Rightarrow>
          if starts_with ''motor0.'' key then load_motor_key 0 (drop 7 key) key v n s
          else if starts_with ''motor1.'' key then load_motor_key 1 (drop 7 key) key v n s
          else Inl (''unknown config key at line '' @ show_nat n @ '': '' @ key))"

definition load_config_line :: "nat \<Rightarrow> string \<Rightarrow> ini_loader \<Rightarrow> string + ini_loader" where
  "load_config_line n line s =
     (let t = trim_value line in
      if t = [] \<or> hd t = CHR ''#'' \<or> hd t = CHR '';'' then Inr s
      else
        (case split_first (CHR ''='') t of
           None \<Rightarrow> Inl (''invalid config line '' @ show_nat n @ '': missing '' @ CHR 0x27 # ''='' @ [CHR 0x27])
         | Some (key, v) \<Rightarrow> load_key (trim_value key) (trim_value v) n s))"

fun load_lines :: "nat \<Rightarrow> string list \<Rightarrow> ini_loader \<Rightarrow> string + ini_loader" where
  "load_lines n [] s = Inr s"
| "load_lines n (line # lines) s =
     (case load_config_line (Suc n) line s of Inl e \<Rightarrow> Inl e | Inr s \<Rightarrow> load_lines (Suc n) lines s)"

subsection \<open>The layout of the specimens\<close>

text \<open>The specimens in the order of the samples, with their motor.\<close>

definition all_specimens :: "ini_config \<Rightarrow> (nat \<times> specimen_config) list" where
  "all_specimens c =
     concat (map (\<lambda>m. map (Pair m) (mc_specimens (ic_motors c ! m))) [0..<length (ic_motors c)])"

fun check_group :: "nat \<Rightarrow> specimen_config list \<Rightarrow> nat set \<times> nat set \<Rightarrow> string + nat set \<times> nat set" where
  "check_group m [] seen = Inr seen"
| "check_group m (sp # rest) (terminals, lines) =
     (if sp_channel sp < 1 \<or> 8 < sp_channel sp
      then Inl (''motor'' @ show_nat m @ ''.specimens: ch'' @ show_nat (sp_channel sp) @ '' is not a card terminal (ch1..ch8)'')
      else if sp_channel sp \<in> terminals
      then Inl (''ch'' @ show_nat (sp_channel sp) @ '' is listed twice in motor0.specimens / motor1.specimens'')
      else
        (case sp_heater sp of
           None \<Rightarrow> check_group m rest (insert (sp_channel sp) terminals, lines)
         | Some l \<Rightarrow>
             if l \<in> lines
             then Inl (''BCM '' @ show_nat l @ '' heats two specimens in motor0.specimens / motor1.specimens'')
             else check_group m rest (insert (sp_channel sp) terminals, insert l lines)))"

fun check_groups :: "nat \<Rightarrow> specimen_config list list \<Rightarrow> nat set \<times> nat set \<Rightarrow> string + nat set \<times> nat set" where
  "check_groups m [] seen = Inr seen"
| "check_groups m (g # gs) seen =
     (if g = [] then Inl (''motor'' @ show_nat m @ ''.specimens lists no specimen'')
      else case check_group m g seen of Inl e \<Rightarrow> Inl e | Inr seen \<Rightarrow> check_groups (Suc m) gs seen)"

definition motor_sample_ids :: "ini_config \<Rightarrow> nat \<Rightarrow> nat list" where
  "motor_sample_ids c m = filter (\<lambda>i. fst (all_specimens c ! i) = m) [0..<length (all_specimens c)]"

text \<open>The lists a legacy file would have set, one number after the other over both motors.\<close>

definition fill_layout :: "ini_config \<Rightarrow> ini_config" where
  "fill_layout c =
     (let sps = all_specimens c; heated = filter (\<lambda>i. sp_heater (snd (sps ! i)) \<noteq> None) [0..<length sps] in
      c\<lparr>ic_sensors := (ic_sensors c)
          \<lparr>sensor_hw_config.sequent_rtd_channels := map (sp_channel \<circ> snd) sps,
           max31865_sample_indices := map (\<lambda>m. length (filter (\<lambda>(k, _). k < m) sps)) [0..<length (ic_motors c)]\<rparr>,
        ic_heaters := (ic_heaters c)
          \<lparr>output_lines := map (\<lambda>i. the (sp_heater (snd (sps ! i)))) heated, temperature_channels := heated\<rparr>,
        ic_motors := map (\<lambda>m. (ic_motors c ! m)\<lparr>motor_samples := motor_sample_ids c m\<rparr>) [0..<length (ic_motors c)]\<rparr>)"

definition derive_layout :: "ini_config \<Rightarrow> string + ini_config" where
  "derive_layout c =
     (let sps = all_specimens c; heated = length (filter (\<lambda>(m, sp). sp_heater sp \<noteq> None) sps);
          listed = (\<lambda>k what. ''motor0.specimens and motor1.specimens list '' @ show_nat k @ what) in
      case check_groups 0 (map mc_specimens (ic_motors c)) ({}, {}) of
        Inl e \<Rightarrow> Inl e
      | Inr _ \<Rightarrow>
          if length sps \<noteq> sample_count (ic_hardware c)
          then Inl (listed (length sps) ('' specimens; hardware.sample_count is '' @ show_nat (sample_count (ic_hardware c))))
          else if heated \<noteq> heater_count (ic_hardware c)
          then Inl (listed heated ('' heated specimens; hardware.heater_count is '' @ show_nat (heater_count (ic_hardware c))))
          else Inr (fill_layout c))"

text \<open>The specimen lists are set for both motors or for none, and then no map they derive is set as well.\<close>

definition use_specimens :: "ini_loader \<Rightarrow> string + ini_config" where
  "use_specimens s =
     (if True \<notin> set (ld_specimens s) then Inr (ld_config s)
      else if False \<in> set (ld_specimens s) then Inl ''motor0.specimens and motor1.specimens must be set together''
      else if ld_legacy s \<noteq> []
      then Inl (hd (ld_legacy s) @ '' is derived from motor0.specimens / motor1.specimens: remove it'')
      else derive_layout (ld_config s))"

end
