(* ===== verification/ConfigChecks.thy ===== *)
theory ConfigChecks
  imports ConfigLoader
begin

text \<open>
  The checks a loaded configuration has to pass (\<^verbatim>\<open>LoadConfigFromIni\<close>, after the lines), in the order of the code, as lists of
  conditions with the message of the first that fails; the GPIO lines and their owners; and the loader as a whole.
\<close>

type_synonym check = "bool \<times> string"

fun first_failure :: "check list \<Rightarrow> string option" where
  "first_failure [] = None"
| "first_failure ((ok, message) # checks) = (if ok then first_failure checks else Some message)"

lemma first_failure_None [simp]: "first_failure cs = None \<longleftrightarrow> list_all fst cs"
  by (induction cs rule: first_failure.induct) auto

lemma first_failure_append: "first_failure (a @ b) = (case first_failure a of None \<Rightarrow> first_failure b | Some e \<Rightarrow> Some e)"
  by (induction a rule: first_failure.induct) auto

definition runtime_checks :: "ini_config \<Rightarrow> check list" where
  "runtime_checks c =
     [(\<not> tick_hz (ic_runtime c) \<le> Fin 0, ''runtime.tick_hz must be > 0''),
      (\<not> link_loss_fallback_s (ic_manual c) < Fin 0, ''manual.link_loss_fallback_s must be >= 0''),
      (fb_bend_min_c (ic_fallback c) < fb_bend_max_c (ic_fallback c), ''fallback.bend_max_c must be > fallback.bend_min_c''),
      (\<not> fb_bend_deadline_s (ic_fallback c) < Fin 0, ''fallback.bend_deadline_s must be >= 0'')]"

definition heater_checks :: "ini_config \<Rightarrow> check list" where
  "heater_checks c =
     (let hw = ic_hardware c; h = ic_heaters c; p = ic_power c; lim = ic_safety c in
      [(heater_count hw \<noteq> 0, ''hardware.heater_count must be > 0''),
       (sample_count hw \<noteq> 0, ''hardware.sample_count must be > 0''),
       (\<not> sample_count hw < heater_count hw, ''hardware.heater_count must be <= hardware.sample_count''),
       (output_lines h = [] \<or> length (output_lines h) = heater_count hw,
        ''heater.output_lines count must equal hardware.heater_count''),
       (\<not> pwm_frequency_hz h \<le> Fin 0, ''heater.pwm_frequency_hz must be > 0''),
       (max_active_heaters p \<noteq> 0 \<and> max_active_heaters p \<le> 3,
        ''power.max_active_heaters must be 1..3 (owner power rule: never more than 3 heaters)''),
       (Fin 0 < max_thermal_w p \<and> \<not> Fin 15 < max_thermal_w p,
        ''power.max_thermal_w must be > 0 and <= 15.0 (owner power rule)''),
       (manual_first (ic_manual c), ''manual.manual_first must be true in Rev C''),
       (length (temperature_channels h) = heater_count hw,
        ''heater.temperature_channels count must equal hardware.heater_count''),
       (list_all (\<lambda>ch. ch < sample_count hw) (temperature_channels h), ''heater temperature channel out of range''),
       (\<not> target_max_c lim \<le> target_min_c lim \<and> \<not> max_sample_temp_c lim \<le> target_max_c lim,
        ''heater target limits must satisfy min < max < max_sample_temp_c''),
       (electronics_heater_index hw = size_max \<or> electronics_heater_index hw < heater_count hw,
        ''electronics heater index out of range'')])"

definition comms_checks :: "ini_config \<Rightarrow> check list" where
  "comms_checks c =
     (let co = ic_comms c; st = ic_storage c in
      [(0 < telemetry_port co \<and> 0 < command_port co \<and> 0 < discovery_port co, ''all comms ports must be > 0''),
       (0 \<le> comms_priority co \<and> comms_priority co \<le> 999, ''comms.priority must be in [0, 999]''),
       (\<not> queue_retention_hours st \<le> Fin 0, ''storage.queue_retention_hours must be > 0''),
       (queue_max_bytes st \<noteq> 0, ''storage.queue_max_bytes must be > 0'')])"

text \<open>The terminals are checked one by one, range before repetition.\<close>

definition channel_checks :: "nat list \<Rightarrow> check list" where
  "channel_checks cs =
     concat (map (\<lambda>i.
         [(1 \<le> cs ! i \<and> cs ! i \<le> 8, ''sensor.sequent_rtd_channels entries must be 1..8''),
          (cs ! i \<notin> set (take i cs), ''sensor.sequent_rtd_channels contains duplicates'')]) [0..<length cs])"

definition sensor_checks :: "ini_config \<Rightarrow> check list" where
  "sensor_checks c =
     (let s = ic_sensors c; n = sample_count (ic_hardware c); idx = max31865_sample_indices s in
      [(pressure_source s = ''dps310'' \<and> uv_source s = ''guva_s12sd_ads1115'',
        ''sensor sources must match Rev C supported hardware''),
       (resistance_source s \<in> {''disabled'', ''simulated'', ''sequent_rtd'', ''max31865_click''},
        ''sensor.resistance_source must be disabled, simulated, sequent_rtd, or max31865_click''),
       (0 \<le> dps310_i2c_addr s \<and> dps310_i2c_addr s \<le> 0x7F \<and> 0 \<le> ads1115_i2c_addr s \<and> ads1115_i2c_addr s \<le> 0x7F \<and>
        0 \<le> uv_ads1115_channel s \<and> uv_ads1115_channel s \<le> 3 \<and> \<not> uv_full_scale_v s \<le> Fin 0,
        ''invalid I2C sensor configuration''),
       (0 \<le> sequent_rtd_stack s \<and> sequent_rtd_stack s \<le> 7, ''sensor.sequent_rtd_stack must be 0..7 (I2C 0x40..0x47)''),
       (length (sensor_hw_config.sequent_rtd_channels s) = n,
        ''sensor.sequent_rtd_channels must have hardware.sample_count entries'')] @
      channel_checks (sensor_hw_config.sequent_rtd_channels s) @
      [(sequent_rtd_expect_sensor_type s = ''pt100'',
        ''sensor.sequent_rtd_expect_sensor_type must be pt100 (pt1000 is recognised but not implemented: the CVD cross-check and resistance window are PT100-only)''),
       (\<not> sequent_rtd_resistance_max_ohm s \<le> sequent_rtd_resistance_min_ohm s,
        ''sensor.sequent_rtd_resistance_min_ohm must be below sensor.sequent_rtd_resistance_max_ohm''),
       (\<not> max31865_reference_ohm s \<le> Fin 0, ''sensor.max31865_reference_ohm must be > 0''),
       (0 < max31865_poll_ms s, ''sensor.max31865_poll_ms must be > 0''),
       (length idx = 2, ''sensor.max31865_sample_indices must have exactly two entries''),
       (idx ! 0 \<noteq> idx ! 1, ''sensor.max31865_sample_indices entries must be distinct''),
       (list_all (\<lambda>i. i < n) idx, ''sensor.max31865_sample_indices entries must be less than hardware.sample_count'')])"

definition motion_checks :: "ini_config \<Rightarrow> check list" where
  "motion_checks c =
     (let h = ic_heaters c; s = ic_stepper c; p = ic_pull c in
      [(\<not> debug_max_duty h < Fin 0 \<and> \<not> Fin 1 < debug_max_duty h \<and> \<not> debug_max_seconds h \<le> Fin 0 \<and>
        \<not> Fin 60 < debug_max_seconds h, ''invalid heater debug limits''),
       (is_finite (max_duty h) \<and> \<not> max_duty h \<le> Fin 0 \<and> \<not> Fin 1 < max_duty h, ''heater.max_duty must be in (0, 1]''),
       (0 < mo_steps_per_rev s \<and> \<not> mo_default_step_hz s \<le> Fin 0 \<and> 0 < mo_max_position_steps s, ''invalid stepper configuration''),
       (is_finite (mo_lead_mm_per_rev s) \<and> \<not> mo_lead_mm_per_rev s \<le> Fin 0 \<and> \<not> Fin 100 < mo_lead_mm_per_rev s,
        ''stepper.lead_mm_per_rev must be in (0, 100] mm''),
       (is_finite (mo_max_accel s) \<and> \<not> mo_max_accel s \<le> Fin 0, ''stepper.max_accel_steps_per_s2 must be > 0''),
       (is_finite (max_speed_mm_s s) \<and> \<not> max_speed_mm_s s \<le> Fin 0 \<and> \<not> Fin 100 < max_speed_mm_s s,
        ''stepper.max_speed_mm_s must be in (0, 100] mm/s''),
       (0 < max_direct_usteps s \<and> max_direct_usteps s \<le> mo_max_position_steps s,
        ''stepper.max_direct_usteps must be in (0, stepper.max_position_steps]''),
       (is_finite (stall_min_step_hz s) \<and> \<not> stall_min_step_hz s < Fin 0, ''stepper.stall_min_step_hz must be >= 0 full-steps/s''),
       (1 \<le> stall_confirm_samples s \<and> stall_confirm_samples s \<le> 50, ''stepper.stall_confirm_samples must be in [1, 50]''),
       (\<not> pull_max_step_hz p \<le> Fin 0 \<and> \<not> pull_accel p \<le> Fin 0 \<and> \<not> mo_max_accel s < pull_accel p \<and>
        pull_microstep p \<in> {1, 2, 4, 8, 16, 32, 64, 128, 256} \<and> 0 < pull_travel p \<and> \<not> pull_hold p < Fin 0,
        ''invalid pull configuration'')])"

definition motor_checks :: "ini_config \<Rightarrow> nat \<Rightarrow> check list" where
  "motor_checks c i =
     (let m = ic_motors c ! i; name = ''motor'' @ show_nat i in
      [(mc_driver m \<noteq> ''tmc2240'', name @ ''.driver=tmc2240 is retired; use tmc5160''),
       (mc_driver m = ''tmc5160'' \<or> mc_driver m = ''simulated'', name @ ''.driver must be tmc5160 or simulated''),
       (mc_gpio_chip m \<noteq> [] \<and> mc_spi_device m \<noteq> [] \<and> is_finite (mc_hold_frac m) \<and> \<not> mc_hold_frac m < Fin 0 \<and>
        \<not> Fin 1 < mc_hold_frac m \<and> mc_spi_speed m \<noteq> 0 \<and> mc_spi_speed m \<le> 10000000 \<and> is_finite (mc_sense_ohm m) \<and>
        \<not> mc_sense_ohm m \<le> Fin 0 \<and> \<not> Fin 1 \<le> mc_sense_ohm m \<and> 100 \<le> motor_retry_ms m \<and> motor_samples m \<noteq> [],
        ''invalid '' @ name @ '' configuration''),
       (is_finite (mc_run_current m) \<and> \<not> mc_run_current m \<le> Fin 0 \<and> \<not> to_dbl (31 / 10) < mc_run_current m,
        name @ ''.run_current_a_rms must be in (0, 3.1]''),
       (\<not> to_dbl (325 / 1000) / mc_sense_ohm m < mc_run_current m * dbl_sqrt (Fin 2),
        name @ ''.run_current_a_rms exceeds the sense resistor'' @ CHR 0x27 # ''s deliverable current ceiling (run_current_a_rms*sqrt(2) must be <= 0.325/sense_resistor_ohm)''),
       (is_finite (motor_accel m) \<and> \<not> motor_accel m < Fin 0 \<and> \<not> mo_max_accel (ic_stepper c) < motor_accel m,
        name @ ''.accel_steps_per_s2 must be 0 (inherit) or in (0, stepper.max_accel_steps_per_s2]''),
       (mc_stall_detect m \<in> {''off'', ''monitor'', ''stop''}, name @ ''.stall_detect must be off, monitor or stop''),
       (\<not> (mc_stall_detect m = ''stop'' \<and> mc_stealth_chop m),
        name @ ''.stall_detect=stop needs spreadCycle (stealth_chop=false)''),
       (- 64 \<le> mc_sgt m \<and> mc_sgt m \<le> 63, name @ ''.stallguard_sgt must be in [-64, 63]''),
       (0 \<le> mc_sg_min m \<and> mc_sg_min m \<le> 1023, name @ ''.stall_sg_min must be in [0, 1023]''),
       (list_all (\<lambda>s. s < sample_count (ic_hardware c)) (motor_samples m), name @ ''.samples contains out-of-range sample'')])"

subsection \<open>The GPIO lines\<close>

type_synonym claim = "(string \<times> nat) \<times> string"

fun claim_gpio :: "claim list \<Rightarrow> claim list \<Rightarrow> string option" where
  "claim_gpio owners [] = None"
| "claim_gpio owners (((chip, line), owner) # claims) =
     (case map_of owners (chip, line) of
        Some other \<Rightarrow> Some (chip @ '' line '' @ show_nat line @ '' assigned to both '' @ other @ '' and '' @ owner)
      | None \<Rightarrow> claim_gpio (((chip, line), owner) # owners) claims)"

definition reserved_lines :: "(nat \<times> string) list" where
  "reserved_lines =
     [(14, ''reserved: sequent_hat uart_tx''), (15, ''reserved: sequent_hat uart_rx''),
      (17, ''reserved: sequent_hat rs485_dir''), (26, ''reserved: sequent_hat intn''),
      (7, ''reserved: spi0_ce1 (max31865 sample1)''), (8, ''reserved: spi0_ce0 (max31865 sample2)'')]"

text \<open>A heater line is named after its specimen when the lists of the specimens gave it.\<close>

definition heater_owner :: "bool \<Rightarrow> ini_config \<Rightarrow> nat \<Rightarrow> string" where
  "heater_owner specimens c i =
     (let chans = temperature_channels (ic_heaters c);
          sample = (if i < length chans then chans ! i else sample_count (ic_hardware c));
          motors = filter (\<lambda>m. sample \<in> set (motor_samples (ic_motors c ! m))) [0..<length (ic_motors c)]
      in if specimens \<and> motors \<noteq> [] then ''heater H'' @ show_nat i @ '' (motor'' @ show_nat (last motors) @ ''.specimens)''
         else ''heater.output_lines['' @ show_nat i @ '']'')"

definition gpio_claims :: "bool \<Rightarrow> ini_config \<Rightarrow> claim list" where
  "gpio_claims specimens c =
     (let chip = rt_gpio_chip (ic_runtime c) in
      map (\<lambda>(line, owner). ((chip, line), owner)) reserved_lines @
      map (\<lambda>i. ((chip, output_lines (ic_heaters c) ! i), heater_owner specimens c i)) [0..<length (output_lines (ic_heaters c))] @
      concat (map (\<lambda>i. let m = ic_motors c ! i in
          [((mc_gpio_chip m, mc_cs_line m), ''motor'' @ show_nat i @ ''.cs_line''),
           ((mc_gpio_chip m, mc_enable_line m), ''motor'' @ show_nat i @ ''.enable_line'')]) [0..<length (ic_motors c)]))"

definition led_claims :: "ini_config \<Rightarrow> claim list" where
  "led_claims c =
     (let chip = rt_gpio_chip (ic_runtime c); h = ic_hal c in
      (if status_led_enabled h then [((chip, status_led_line h), ''hal.status_led_line'')] else []) @
      (if mode_led_enabled h then [((chip, mode_led_line h), ''hal.mode_led_line'')] else []))"

definition poll_checks :: "ini_config \<Rightarrow> check list" where
  "poll_checks c =
     (let s = ic_sensors c in
      [(0 < dps310_poll_ms s \<and> 0 < ads1115_poll_ms s \<and> 0 < stale_after_ms s, ''sensor poll/stale intervals must be > 0'')])"

subsection \<open>The loader\<close>

definition value_checks :: "ini_config \<Rightarrow> check list" where
  "value_checks c =
     runtime_checks c @ heater_checks c @ comms_checks c @ sensor_checks c @ motion_checks c @
     concat (map (motor_checks c) [0..<length (ic_motors c)])"

definition validate_config :: "bool \<Rightarrow> ini_config \<Rightarrow> string option" where
  "validate_config specimens c =
     (case first_failure (value_checks c) of
        Some e \<Rightarrow> Some e
      | None \<Rightarrow>
          (case claim_gpio [] (gpio_claims specimens c) of
             Some e \<Rightarrow> Some e
           | None \<Rightarrow>
               (case first_failure (poll_checks c) of
                  Some e \<Rightarrow> Some e
                | None \<Rightarrow> claim_gpio [] (gpio_claims specimens c @ led_claims c))))"

text \<open>The content of the file, or none when it cannot be opened.\<close>

definition load_config_from_ini :: "string \<Rightarrow> string option \<Rightarrow> ini_config \<Rightarrow> string + ini_config" where
  "load_config_from_ini path file c =
     (case file of
        None \<Rightarrow> Inl (''unable to open config file: '' @ path)
      | Some text \<Rightarrow>
          (case load_lines 0 (split_fields (CHR 0x0A) text) \<lparr>ld_config = c, ld_legacy = [], ld_specimens = [False, False]\<rparr> of
             Inl e \<Rightarrow> Inl e
           | Inr s \<Rightarrow>
               (case use_specimens s of
                  Inl e \<Rightarrow> Inl e
                | Inr c \<Rightarrow>
                    (case validate_config (hd (ld_specimens s)) c of Some e \<Rightarrow> Inl e | None \<Rightarrow> Inr c))))"

end
