(* ===== verification/Spec2Isabelle.thy ===== *)
theory Spec2Isabelle
  imports StateManager MotionLock HeaterScheduler ThermalController PidAutoTuner
    QueueDisk LinkBudget TelemetryDrain CommandProperties MotionLimits
    FallbackPersistence FallbackLiveness SystemProperties Tmc5160Properties
    TelemetryProperties SensorReports SensorProperties HeaterLimit ConfigChecks
begin

text \<open>
  The flight software of the COATHEAL balloon experiment (\<^verbatim>\<open>onboard/\<close>): a Raspberry Pi that
  heats samples, bends them with stepper motors, follows the phases of the flight, and talks to a ground station over a
  narrow link.  A control loop runs once per tick; a command thread answers the ground station; a delivery thread
  drains the telemetry queue; a pulse thread steps the motors.

  \<^bold>\<open>Theories and the code they model.\<close>  All paths are under \<^verbatim>\<open>onboard/src\<close> and
  \<^verbatim>\<open>onboard/include/coatheal\<close>.

  \<^item> \<^theory_text>\<open>Prelude\<close>, \<^theory_text>\<open>Doubles\<close>, \<^theory_text>\<open>Text\<close>: the language.  A \<^verbatim>\<open>double\<close> is an exact rational in the
    binary64 grid, an infinity or a not-a-number, every operation rounds to nearest even (the sign of a zero is not
    kept); integer parsers and printers, the \<^verbatim>\<open>%g\<close> form of \<^verbatim>\<open>operator<<\<close>, \<^verbatim>\<open>std::stod\<close>,
    \<^verbatim>\<open>std::getline\<close> splitting.  Times are nanoseconds, \<^verbatim>\<open>int64\<close> clocks are not wrapped.
  \<^item> \<^theory_text>\<open>Config\<close>, \<^theory_text>\<open>Phase\<close>: the sections of \<^verbatim>\<open>config.hpp\<close> the components read, and \<^verbatim>\<open>phase.hpp\<close>.
  \<^item> \<^theory_text>\<open>StateManager\<close> (\<^verbatim>\<open>state_manager.cpp\<close>): the debounced phase tracker, its exact transition
    condition, and the refinement of an abstract flight profile.
  \<^item> \<^theory_text>\<open>MotionLock\<close>, \<^theory_text>\<open>HeaterScheduler\<close>, \<^theory_text>\<open>PidController\<close>, \<^theory_text>\<open>ThermalController\<close>,
    \<^theory_text>\<open>PidAutoTuner\<close> (the files of these names): the heaters.  Limits of the duties, the power and energy
    budgets, the over-temperature latch, anti-windup, and the relay tuner.
  \<^item> \<^theory_text>\<open>Containers\<close>, \<^theory_text>\<open>PendingRuns\<close>, \<^theory_text>\<open>TelemetryQueue\<close>, \<^theory_text>\<open>QueueProperties\<close>, \<^theory_text>\<open>QueueDisk\<close>
    (\<^verbatim>\<open>telemetry_queue.cpp\<close>): the persistent queue, the agreement of its indices, the replay order, and what
    a crash leaves in the file.  Ordered maps are an interface (locale) interpreted on sorted association lists.
  \<^item> \<^theory_text>\<open>LinkBudget\<close>, \<^theory_text>\<open>TelemetryDrain\<close> (\<^verbatim>\<open>link_budget.cpp\<close>, \<^verbatim>\<open>telemetry_drain.hpp\<close>): the share of the
    link in every one-second window, and the delivery tick that always returns.
  \<^item> \<^theory_text>\<open>CommandParser\<close>, \<^theory_text>\<open>CommandProperties\<close> (\<^verbatim>\<open>command_parser.cpp\<close>): well-formedness of what is parsed, and the
    round trip of printed commands in any case and with any separators.
  \<^item> \<^theory_text>\<open>StepperDriver\<close>, \<^theory_text>\<open>StepperChannel\<close>, \<^theory_text>\<open>StepperMotion\<close>, \<^theory_text>\<open>StepperController\<close>,
    \<^theory_text>\<open>MotionProperties\<close>, \<^theory_text>\<open>MotionLimits\<close> (\<^verbatim>\<open>stepper_driver.hpp\<close>, \<^verbatim>\<open>stepper_channel.cpp\<close>,
    \<^verbatim>\<open>stepper_controller.cpp\<close>): the motors.  The driver is a record of functions, an interface (locale) interpreted on
    the code's simulated driver; one motor moves at a time, travel and speed are limited, a step loss is latched.
  \<^item> \<^theory_text>\<open>FallbackPlanner\<close>, \<^theory_text>\<open>FallbackProperties\<close>, \<^theory_text>\<open>FallbackLiveness\<close>, \<^theory_text>\<open>FallbackPersistence\<close>
    (\<^verbatim>\<open>fallback_planner.cpp\<close>): the bend plan of a lost link, its start rules, its interleavings with the command
    thread, its end after the deadline, and its file.
  \<^item> \<^theory_text>\<open>PwmController\<close> (\<^verbatim>\<open>hal/pwm_controller.cpp\<close>): the heater outputs, a duty and a line per channel, and the software
    PWM that renders the duties in slices.
  \<^item> \<^theory_text>\<open>SystemState\<close>, \<^theory_text>\<open>SystemTick\<close> (\<^verbatim>\<open>system_controller.cpp\<close>, \<^verbatim>\<open>system_mode.hpp\<close>): the controller that owns the
    components above.  One record holds its fields; \<open>tick_control\<close> and \<open>set_duties\<close>, \<open>tick_motors\<close> and the pull events are the
    parts of one pass of \<^verbatim>\<open>Run\<close>, and what a pass reads from outside is one record.
  \<^item> \<^theory_text>\<open>ModeCommands\<close>, \<^theory_text>\<open>HeatCommands\<close>, \<^theory_text>\<open>MotionCommands\<close>, \<^theory_text>\<open>SystemCommands\<close>: the handler of every
    operator command, with its guards in the code's order, its changes of the state and the text of its reply.  A handler returns \<open>None\<close>
    where the code has undefined behaviour (an index out of bounds, the absolute value of the least integer).
  \<^item> \<^theory_text>\<open>LockUse\<close>, \<^theory_text>\<open>HeaterInterlock\<close>, \<^theory_text>\<open>SystemRuns\<close>, \<^theory_text>\<open>SystemProperties\<close>: which operations take the
    motion lock, what each step of the program may do to the lock and the heaters, the step relation of the whole program and its runs, and
    the properties of every run.

  \<^bold>\<open>Bounds and fuel.\<close>  Loops over data are structural recursion.  The loops of the drain and the link budget
  that wait for the clock take an explicit list of clock readings or fuel; the theorem that they return is proved with
  the bound in its statement.

  \<^bold>\<open>Not modelled.\<close>  Threads are interleavings of the atomic operations; sockets, files and device access are
  arguments (whether an operation of the environment succeeds).  The SPI driver of the motor chip, the sensor manager,
  the INI loader, the client's socket threads, the storage manager and the hardware adapters are not modelled yet;
  start-up and the service-manager socket are pure input and output.
\<close>

end
